(* ===== verification/Gp_Result.thy ===== *)
theory Gp_Result imports Main begin

text \<open>
  The result codes of the port library (gphoto2/gphoto2-port-result.h) and of the core
  library (gphoto2/gphoto2-result.h), and their translation to messages:
  \<open>gp_port_result_as_string\<close> of gphoto2-port-result.c and \<open>gp_result_as_string\<close> of
  gphoto2-result.c. The message catalogue is left out: \<open>_()\<close> is the identity, as in a build
  without NLS.
\<close>

section \<open>The codes\<close>

definition GP_OK :: int where "GP_OK = 0"
definition GP_ERROR :: int where "GP_ERROR = -1"
definition GP_ERROR_BAD_PARAMETERS :: int where "GP_ERROR_BAD_PARAMETERS = -2"
definition GP_ERROR_NO_MEMORY :: int where "GP_ERROR_NO_MEMORY = -3"
definition GP_ERROR_LIBRARY :: int where "GP_ERROR_LIBRARY = -4"
definition GP_ERROR_UNKNOWN_PORT :: int where "GP_ERROR_UNKNOWN_PORT = -5"
definition GP_ERROR_NOT_SUPPORTED :: int where "GP_ERROR_NOT_SUPPORTED = -6"
definition GP_ERROR_IO :: int where "GP_ERROR_IO = -7"
definition GP_ERROR_FIXED_LIMIT_EXCEEDED :: int where "GP_ERROR_FIXED_LIMIT_EXCEEDED = -8"
definition GP_ERROR_TIMEOUT :: int where "GP_ERROR_TIMEOUT = -10"
definition GP_ERROR_IO_SUPPORTED_SERIAL :: int where "GP_ERROR_IO_SUPPORTED_SERIAL = -20"
definition GP_ERROR_IO_SUPPORTED_USB :: int where "GP_ERROR_IO_SUPPORTED_USB = -21"
definition GP_ERROR_IO_INIT :: int where "GP_ERROR_IO_INIT = -31"
definition GP_ERROR_IO_READ :: int where "GP_ERROR_IO_READ = -34"
definition GP_ERROR_IO_WRITE :: int where "GP_ERROR_IO_WRITE = -35"
definition GP_ERROR_IO_UPDATE :: int where "GP_ERROR_IO_UPDATE = -37"
definition GP_ERROR_IO_SERIAL_SPEED :: int where "GP_ERROR_IO_SERIAL_SPEED = -41"
definition GP_ERROR_IO_USB_CLEAR_HALT :: int where "GP_ERROR_IO_USB_CLEAR_HALT = -51"
definition GP_ERROR_IO_USB_FIND :: int where "GP_ERROR_IO_USB_FIND = -52"
definition GP_ERROR_IO_USB_CLAIM :: int where "GP_ERROR_IO_USB_CLAIM = -53"
definition GP_ERROR_IO_LOCK :: int where "GP_ERROR_IO_LOCK = -60"
definition GP_ERROR_HAL :: int where "GP_ERROR_HAL = -70"
definition GP_ERROR_CORRUPTED_DATA :: int where "GP_ERROR_CORRUPTED_DATA = -102"
definition GP_ERROR_FILE_EXISTS :: int where "GP_ERROR_FILE_EXISTS = -103"
definition GP_ERROR_MODEL_NOT_FOUND :: int where "GP_ERROR_MODEL_NOT_FOUND = -105"
definition GP_ERROR_DIRECTORY_NOT_FOUND :: int where "GP_ERROR_DIRECTORY_NOT_FOUND = -107"
definition GP_ERROR_FILE_NOT_FOUND :: int where "GP_ERROR_FILE_NOT_FOUND = -108"
definition GP_ERROR_DIRECTORY_EXISTS :: int where "GP_ERROR_DIRECTORY_EXISTS = -109"
definition GP_ERROR_CAMERA_BUSY :: int where "GP_ERROR_CAMERA_BUSY = -110"
definition GP_ERROR_PATH_NOT_ABSOLUTE :: int where "GP_ERROR_PATH_NOT_ABSOLUTE = -111"
definition GP_ERROR_CANCEL :: int where "GP_ERROR_CANCEL = -112"
definition GP_ERROR_CAMERA_ERROR :: int where "GP_ERROR_CAMERA_ERROR = -113"
definition GP_ERROR_OS_FAILURE :: int where "GP_ERROR_OS_FAILURE = -114"
definition GP_ERROR_NO_SPACE :: int where "GP_ERROR_NO_SPACE = -115"

lemmas gp_codes =
  GP_OK_def GP_ERROR_def GP_ERROR_BAD_PARAMETERS_def
  GP_ERROR_NO_MEMORY_def GP_ERROR_LIBRARY_def GP_ERROR_UNKNOWN_PORT_def
  GP_ERROR_NOT_SUPPORTED_def GP_ERROR_IO_def GP_ERROR_FIXED_LIMIT_EXCEEDED_def
  GP_ERROR_TIMEOUT_def GP_ERROR_IO_SUPPORTED_SERIAL_def GP_ERROR_IO_SUPPORTED_USB_def
  GP_ERROR_IO_INIT_def GP_ERROR_IO_READ_def GP_ERROR_IO_WRITE_def
  GP_ERROR_IO_UPDATE_def GP_ERROR_IO_SERIAL_SPEED_def GP_ERROR_IO_USB_CLEAR_HALT_def
  GP_ERROR_IO_USB_FIND_def GP_ERROR_IO_USB_CLAIM_def GP_ERROR_IO_LOCK_def
  GP_ERROR_HAL_def GP_ERROR_CORRUPTED_DATA_def GP_ERROR_FILE_EXISTS_def
  GP_ERROR_MODEL_NOT_FOUND_def GP_ERROR_DIRECTORY_NOT_FOUND_def GP_ERROR_FILE_NOT_FOUND_def
  GP_ERROR_DIRECTORY_EXISTS_def GP_ERROR_CAMERA_BUSY_def GP_ERROR_PATH_NOT_ABSOLUTE_def
  GP_ERROR_CANCEL_def GP_ERROR_CAMERA_ERROR_def GP_ERROR_OS_FAILURE_def
  GP_ERROR_NO_SPACE_def

text \<open>The codes of the port library, in the order of its header.\<close>

definition port_codes :: "int list" where
  "port_codes =
    [GP_OK,
     GP_ERROR,
     GP_ERROR_BAD_PARAMETERS,
     GP_ERROR_NO_MEMORY,
     GP_ERROR_LIBRARY,
     GP_ERROR_UNKNOWN_PORT,
     GP_ERROR_NOT_SUPPORTED,
     GP_ERROR_IO,
     GP_ERROR_FIXED_LIMIT_EXCEEDED,
     GP_ERROR_TIMEOUT,
     GP_ERROR_IO_SUPPORTED_SERIAL,
     GP_ERROR_IO_SUPPORTED_USB,
     GP_ERROR_IO_INIT,
     GP_ERROR_IO_READ,
     GP_ERROR_IO_WRITE,
     GP_ERROR_IO_UPDATE,
     GP_ERROR_IO_SERIAL_SPEED,
     GP_ERROR_IO_USB_CLEAR_HALT,
     GP_ERROR_IO_USB_FIND,
     GP_ERROR_IO_USB_CLAIM,
     GP_ERROR_IO_LOCK,
     GP_ERROR_HAL]"

section \<open>Messages\<close>

definition gp_port_result_as_string :: "int \<Rightarrow> string" where
  "gp_port_result_as_string result =
     (if result = GP_OK then ''No error''
      else if result = GP_ERROR then ''Unspecified error''
      else if result = GP_ERROR_IO then ''I/O problem''
      else if result = GP_ERROR_BAD_PARAMETERS then ''Bad parameters''
      else if result = GP_ERROR_NOT_SUPPORTED then ''Unsupported operation''
      else if result = GP_ERROR_FIXED_LIMIT_EXCEEDED then ''Fixed limit exceeded''
      else if result = GP_ERROR_TIMEOUT then ''Timeout reading from or writing to the port''
      else if result = GP_ERROR_IO_SUPPORTED_SERIAL then ''Serial port not supported''
      else if result = GP_ERROR_IO_SUPPORTED_USB then ''USB port not supported''
      else if result = GP_ERROR_UNKNOWN_PORT then ''Unknown port''
      else if result = GP_ERROR_NO_MEMORY then ''Out of memory''
      else if result = GP_ERROR_LIBRARY then ''Error loading a library''
      else if result = GP_ERROR_IO_INIT then ''Error initializing the port''
      else if result = GP_ERROR_IO_READ then ''Error reading from the port''
      else if result = GP_ERROR_IO_WRITE then ''Error writing to the port''
      else if result = GP_ERROR_IO_UPDATE then ''Error updating the port settings''
      else if result = GP_ERROR_IO_SERIAL_SPEED then ''Error setting the serial port speed''
      else if result = GP_ERROR_IO_USB_CLEAR_HALT then ''Error clearing a halt condition on the USB port''
      else if result = GP_ERROR_IO_USB_FIND then ''Could not find the requested device on the USB port''
      else if result = GP_ERROR_IO_USB_CLAIM then ''Could not claim the USB device''
      else if result = GP_ERROR_IO_LOCK then ''Could not lock the device''
      else if result = GP_ERROR_HAL then ''libhal error''
      else ''Unknown error'')"

definition result_descriptions :: "(int \<times> string) list" where
  "result_descriptions =
    [(GP_ERROR_CORRUPTED_DATA, ''Corrupted data''),
     (GP_ERROR_FILE_EXISTS, ''File exists''),
     (GP_ERROR_MODEL_NOT_FOUND, ''Unknown model''),
     (GP_ERROR_DIRECTORY_NOT_FOUND, ''Directory not found''),
     (GP_ERROR_FILE_NOT_FOUND, ''File not found''),
     (GP_ERROR_DIRECTORY_EXISTS, ''Directory exists''),
     (GP_ERROR_CAMERA_BUSY, ''I/O in progress''),
     (GP_ERROR_PATH_NOT_ABSOLUTE, ''Path not absolute''),
     (GP_ERROR_CANCEL, ''Operation cancelled''),
     (GP_ERROR_CAMERA_ERROR, ''Camera could not complete operation''),
     (GP_ERROR_OS_FAILURE, ''OS error in camera communication''),
     (GP_ERROR_NO_SPACE, ''Not enough free space'')]"

text \<open>The loop over the table is the first match of an association list.\<close>

definition gp_result_as_string :: "int \<Rightarrow> string" where
  "gp_result_as_string result =
     (if result \<le> 0 \<and> result \<ge> -99 then gp_port_result_as_string result
      else if result \<le> -1000 then ''Unknown camera library error''
      else case map_of result_descriptions result of
             Some d \<Rightarrow> d
           | None \<Rightarrow> ''Unknown error'')"

definition lib_codes :: "int list" where
  "lib_codes = map fst result_descriptions"

lemma port_codes_range: "c \<in> set port_codes \<Longrightarrow> -99 \<le> c \<and> c \<le> 0"
  by (auto simp: port_codes_def gp_codes)

lemma lib_codes_range: "c \<in> set lib_codes \<Longrightarrow> -1000 < c \<and> c < -99"
  by (auto simp: lib_codes_def result_descriptions_def gp_codes)

lemma port_strings_known:
  "c \<in> set port_codes \<Longrightarrow> gp_port_result_as_string c \<noteq> ''Unknown error''"
  by (auto simp: port_codes_def gp_port_result_as_string_def gp_codes)

lemma lib_strings_known:
  "c \<in> set lib_codes \<Longrightarrow> gp_result_as_string c \<noteq> ''Unknown error''"
  by (auto simp: lib_codes_def result_descriptions_def gp_result_as_string_def gp_codes)

text \<open>Every code the two headers document is translated to a message of its own: no two share one and none falls through
  to the default, which is what every other number gets.\<close>
lemma result_strings:
  "distinct (map gp_result_as_string (port_codes @ lib_codes)) \<and>
   (\<forall>c. c \<notin> set (port_codes @ lib_codes) \<longrightarrow>
      gp_result_as_string c = (if c \<le> -1000 then ''Unknown camera library error'' else ''Unknown error''))"
proof
  show "distinct (map gp_result_as_string (port_codes @ lib_codes))"
    by (simp add: port_codes_def lib_codes_def result_descriptions_def gp_result_as_string_def
        gp_port_result_as_string_def gp_codes)
  show "\<forall>c. c \<notin> set (port_codes @ lib_codes) \<longrightarrow>
      gp_result_as_string c = (if c \<le> -1000 then ''Unknown camera library error'' else ''Unknown error'')"
  proof (intro allI impI)
    fix c assume c: "c \<notin> set (port_codes @ lib_codes)"
    then have "map_of result_descriptions c = None" by (simp add: lib_codes_def map_of_eq_None_iff)
    moreover have "gp_port_result_as_string c = ''Unknown error''"
      using c by (simp add: port_codes_def gp_port_result_as_string_def)
    ultimately show "gp_result_as_string c = (if c \<le> -1000 then ''Unknown camera library error'' else ''Unknown error'')"
      by (simp add: gp_result_as_string_def)
  qed
qed

end
