(* ===== verification/Gp_Prelude.thy ===== *)
theory Gp_Prelude imports Gp_Result "HOL-Library.List_Lexorder" "HOL-Library.Char_ord" begin

text \<open>
  What every component of the development shares: the shape of a library function (a
  step on a state that yields a negative error code or a value), the combinators that
  stand for the macros CR / CHECK_RESULT, the allocator, proof rules for invariants and
  postconditions of such functions, and lemmas on lists and C strings.
\<close>

section \<open>Library functions as steps on a state\<close>

text \<open>
  A function of the library returns an int: negative for an error, and otherwise its
  result with what it stored through its pointer arguments. Here it is a step on an
  explicit state whose outcome is \<open>Inl\<close> of the (negative) code or \<open>Inr\<close> of the value.
  The state is returned in both cases: an operation that fails half way has changed it.
\<close>

type_synonym ('s, 'a) gpm = "'s \<Rightarrow> (int + 'a) \<times> 's"

definition ok :: "'a \<Rightarrow> ('s, 'a) gpm" where
  "ok a = (\<lambda>s. (Inr a, s))"

definition fail :: "int \<Rightarrow> ('s, 'a) gpm" where
  "fail e = (\<lambda>s. (Inl e, s))"

text \<open>The macro \<open>CR (x)\<close> / \<open>CHECK_RESULT (x)\<close>: return at once when the result is an error.\<close>

definition CR :: "('s, 'a) gpm \<Rightarrow> ('a \<Rightarrow> ('s, 'b) gpm) \<Rightarrow> ('s, 'b) gpm" where
  "CR m k = (\<lambda>s. case m s of (Inl e, s') \<Rightarrow> (Inl e, s') | (Inr a, s') \<Rightarrow> k a s')"

text \<open>A call whose result code the caller looks at itself (\<open>ret = f (x); if (ret ...)\<close>).\<close>

definition attempt :: "('s, 'a) gpm \<Rightarrow> (int + 'a \<Rightarrow> ('s, 'b) gpm) \<Rightarrow> ('s, 'b) gpm" where
  "attempt m k = (\<lambda>s. case m s of (r, s') \<Rightarrow> k r s')"

definition gets :: "('s \<Rightarrow> 'a) \<Rightarrow> ('s, 'a) gpm" where
  "gets f = (\<lambda>s. (Inr (f s), s))"

definition modify :: "('s \<Rightarrow> 's) \<Rightarrow> ('s, unit) gpm" where
  "modify f = (\<lambda>s. (Inr (), f s))"

definition guard :: "bool \<Rightarrow> int \<Rightarrow> ('s, unit) gpm" where
  "guard b e = (if b then ok () else fail e)"

lemmas gpm_defs = ok_def fail_def CR_def attempt_def gets_def modify_def guard_def

text \<open>The code a library function returns to a caller that sees only the int.\<close>

fun code_of :: "int + 'a \<Rightarrow> int" where
  "code_of (Inl e) = e"
| "code_of (Inr _) = 0"

lemma run_simps:
  "ok a s = (Inr a, s)"
  "fail e s = (Inl e, s)"
  "gets f s = (Inr (f s), s)"
  "modify g s = (Inr (), g s)"
  by (simp_all add: gpm_defs)

lemma CR_run_Inr [simp]: "m s = (Inr a, t) \<Longrightarrow> CR m k s = k a t"
  by (simp add: CR_def)

lemma CR_run_Inl [simp]: "m s = (Inl e, t) \<Longrightarrow> CR m k s = (Inl e, t)"
  by (simp add: CR_def)

lemma CR_ok [simp]: "CR (ok a) k = k a"
  by (simp add: gpm_defs)

lemma CR_fail [simp]: "CR (fail e) k = fail e"
  by (simp add: gpm_defs)

lemma CR_assoc: "CR (CR m k) l = CR m (\<lambda>a. CR (k a) l)"
  by (rule ext) (simp add: CR_def split: prod.split sum.split)

lemma CR_eq_Inr:
  "CR m k s = (Inr b, t) \<longleftrightarrow> (\<exists>a u. m s = (Inr a, u) \<and> k a u = (Inr b, t))"
  by (auto simp: CR_def split: prod.splits sum.splits)

lemma attempt_eq:
  "attempt m k s = x \<longleftrightarrow> (\<exists>r u. m s = (r, u) \<and> k r u = x)"
  by (auto simp: attempt_def split: prod.splits)

lemma guard_run:
  "guard b e s = (if b then (Inr (), s) else (Inl e, s))"
  by (simp add: guard_def run_simps)

text \<open>
  The outcome of an execution the C standard leaves undefined (a read past a buffer, a
  pointer to freed memory). No library function returns this number, which is outside
  the range of int.
\<close>

definition UNDEFINED :: int where
  "UNDEFINED = -4294967296"

section \<open>Preservation and postconditions\<close>

text \<open>
  \<open>keeps I m\<close>: the step \<open>m\<close> keeps the state predicate \<open>I\<close>, whether it succeeds or fails.
  \<open>post I m Q\<close>: from a state with \<open>I\<close>, a success of \<open>m\<close> establishes \<open>Q\<close>.
\<close>

definition keeps :: "('s \<Rightarrow> bool) \<Rightarrow> ('s, 'a) gpm \<Rightarrow> bool" where
  "keeps I m \<longleftrightarrow> (\<forall>s. I s \<longrightarrow> I (snd (m s)))"

named_theorems keeps_intro

lemma keepsI: "(\<And>s. I s \<Longrightarrow> I (snd (m s))) \<Longrightarrow> keeps I m"
  by (simp add: keeps_def)

lemma keepsD: "keeps I m \<Longrightarrow> I s \<Longrightarrow> m s = (r, t) \<Longrightarrow> I t"
  by (force simp: keeps_def)

lemma keepsD': "keeps I m \<Longrightarrow> I s \<Longrightarrow> I (snd (m s))"
  by (simp add: keeps_def)

lemma keeps_basic [keeps_intro]:
  "keeps I (ok a)" "keeps I (fail e)" "keeps I (gets f)" "keeps I (guard b e)"
  by (simp_all add: keeps_def guard_def run_simps)

lemma keeps_modify: "(\<And>s. I s \<Longrightarrow> I (f s)) \<Longrightarrow> keeps I (modify f)"
  by (simp add: keeps_def run_simps)

lemma keeps_CR [keeps_intro]:
  assumes "keeps I m" and "\<And>a. keeps I (k a)"
  shows "keeps I (CR m k)"
proof (rule keepsI)
  fix s assume I: "I s"
  obtain r t where m: "m s = (r, t)" by fastforce
  with assms(1) I have It: "I t" by (rule keepsD)
  show "I (snd (CR m k s))"
  proof (cases r)
    case (Inl e)
    with m It show ?thesis by (simp add: CR_def)
  next
    case (Inr a)
    with m keepsD' [OF assms(2) [of a] It] show ?thesis by simp
  qed
qed

lemma keeps_attempt [keeps_intro]:
  assumes "keeps I m" and "\<And>r. keeps I (k r)"
  shows "keeps I (attempt m k)"
proof (rule keepsI)
  fix s assume I: "I s"
  obtain r t where m: "m s = (r, t)" by fastforce
  with assms(1) I have "I t" by (rule keepsD)
  with keepsD' [OF assms(2)] m show "I (snd (attempt m k s))"
    by (simp add: attempt_def)
qed

lemma keeps_if [keeps_intro]:
  "(b \<Longrightarrow> keeps I m) \<Longrightarrow> (\<not> b \<Longrightarrow> keeps I n) \<Longrightarrow> keeps I (if b then m else n)"
  by simp

lemma keeps_case_option [keeps_intro]:
  "(x = None \<Longrightarrow> keeps I m) \<Longrightarrow> (\<And>a. x = Some a \<Longrightarrow> keeps I (n a)) \<Longrightarrow>
   keeps I (case x of None \<Rightarrow> m | Some a \<Rightarrow> n a)"
  by (cases x) simp_all

lemma keeps_case_sum [keeps_intro]:
  "(\<And>a. x = Inl a \<Longrightarrow> keeps I (m a)) \<Longrightarrow> (\<And>a. x = Inr a \<Longrightarrow> keeps I (n a)) \<Longrightarrow>
   keeps I (case x of Inl a \<Rightarrow> m a | Inr a \<Rightarrow> n a)"
  by (cases x) simp_all

lemma keeps_case_prod [keeps_intro]:
  "(\<And>a b. x = (a, b) \<Longrightarrow> keeps I (m a b)) \<Longrightarrow> keeps I (case x of (a, b) \<Rightarrow> m a b)"
  by (cases x) simp_all

lemma keeps_let [keeps_intro]: "keeps I (m a) \<Longrightarrow> keeps I (let x = a in m x)"
  by simp

text \<open>
  \<open>wp m Q E s\<close>: run from \<open>s\<close>, \<open>m\<close> either succeeds with a value and a state in \<open>Q\<close> or fails with a
  code and a state in \<open>E\<close>. On the combinators it is computed by rewriting.
\<close>

definition wp :: "('s, 'a) gpm \<Rightarrow> ('a \<Rightarrow> 's \<Rightarrow> bool) \<Rightarrow> (int \<Rightarrow> 's \<Rightarrow> bool) \<Rightarrow> 's \<Rightarrow> bool" where
  "wp m Q E s = (case m s of (Inr a, t) \<Rightarrow> Q a t | (Inl e, t) \<Rightarrow> E e t)"

lemma wp_ok [simp]: "wp (ok a) Q E s = Q a s"
  by (simp add: wp_def run_simps)

lemma wp_fail [simp]: "wp (fail e) Q E s = E e s"
  by (simp add: wp_def run_simps)

lemma wp_gets [simp]: "wp (gets f) Q E s = Q (f s) s"
  by (simp add: wp_def run_simps)

lemma wp_modify [simp]: "wp (modify g) Q E s = Q () (g s)"
  by (simp add: wp_def run_simps)

lemma wp_guard [simp]: "wp (guard b e) Q E s = (if b then Q () s else E e s)"
  by (simp add: wp_def guard_def run_simps)

lemma wp_CR [simp]: "wp (CR m k) Q E s = wp m (\<lambda>a. wp (k a) Q E) E s"
  by (simp add: wp_def CR_def split: prod.split sum.split)

text \<open>The same under a binder, where no state is at hand.\<close>

lemma wp_CR_fun: "wp (CR m k) Q E = wp m (\<lambda>a. wp (k a) Q E) E"
  by (rule ext) simp

lemma wp_attempt [simp]:
  "wp (attempt m k) Q E s = wp m (\<lambda>a. wp (k (Inr a)) Q E) (\<lambda>e. wp (k (Inl e)) Q E) s"
  by (simp add: wp_def attempt_def split: prod.split sum.split)

lemma wp_mono:
  "wp m Q' E' s \<Longrightarrow> (\<And>a t. Q' a t \<Longrightarrow> Q a t) \<Longrightarrow> (\<And>e t. E' e t \<Longrightarrow> E e t) \<Longrightarrow> wp m Q E s"
  by (simp add: wp_def split: prod.splits sum.splits)

lemma wp_Inr: "wp m Q E s \<Longrightarrow> m s = (Inr a, t) \<Longrightarrow> Q a t"
  by (simp add: wp_def)

lemma wp_Inl: "wp m Q E s \<Longrightarrow> m s = (Inl e, t) \<Longrightarrow> E e t"
  by (simp add: wp_def)

lemma wpI:
  "(\<And>a t. m s = (Inr a, t) \<Longrightarrow> Q a t) \<Longrightarrow> (\<And>e t. m s = (Inl e, t) \<Longrightarrow> E e t) \<Longrightarrow> wp m Q E s"
  by (simp add: wp_def split: prod.split sum.split)

lemma wp_eq: "wp m (\<lambda>a t. m s = (Inr a, t)) (\<lambda>e t. m s = (Inl e, t)) s"
  by (rule wpI)

lemma wp_Inr_iff: "wp m (\<lambda>b t. b = a \<and> t = u) (\<lambda>_ _. False) s \<longleftrightarrow> m s = (Inr a, u)"
  by (auto simp: wp_def split: prod.split sum.split)

lemma wp_Inl_iff: "wp m (\<lambda>_ _. False) (\<lambda>e t. e = c \<and> t = u) s \<longleftrightarrow> m s = (Inl c, u)"
  by (auto simp: wp_def split: prod.split sum.split)

lemma wp_run_ex:
  "wp m Q E s \<Longrightarrow> \<exists>r t. m s = (r, t) \<and> (case r of Inr a \<Rightarrow> Q a t | Inl e \<Rightarrow> E e t)"
  by (cases "m s") (auto simp: wp_def split: sum.splits)

lemma wp_run_same:
  "wp m (\<lambda>a t. t = s \<and> Q a) (\<lambda>e t. t = s \<and> E e) s \<Longrightarrow>
   \<exists>r. m s = (r, s) \<and> (case r of Inr a \<Rightarrow> Q a | Inl e \<Rightarrow> E e)"
  by (cases "m s"; cases "fst (m s)") (auto simp: wp_def)

lemma wp_total: "wp m Q (\<lambda>_ _. False) s \<Longrightarrow> \<exists>a t. m s = (Inr a, t) \<and> Q a t"
  by (auto simp: wp_def split: prod.splits sum.splits)

lemma keeps_wp: "keeps I m \<longleftrightarrow> (\<forall>s. I s \<longrightarrow> wp m (\<lambda>_. I) (\<lambda>_. I) s)"
proof -
  have "I (snd (m s)) = wp m (\<lambda>_. I) (\<lambda>_. I) s" for s
    by (simp add: wp_def split: prod.split sum.split)
  then show ?thesis by (simp add: keeps_def)
qed

text \<open>A loop of the library over a list that stops at the first error.\<close>

fun each :: "('a \<Rightarrow> ('s, unit) gpm) \<Rightarrow> 'a list \<Rightarrow> ('s, unit) gpm" where
  "each f [] = ok ()"
| "each f (x # xs) = CR (f x) (\<lambda>_. each f xs)"

lemma keeps_each [keeps_intro]:
  assumes "\<And>x. x \<in> set xs \<Longrightarrow> keeps I (f x)"
  shows "keeps I (each f xs)"
  using assms by (induction xs) (auto intro!: keeps_intro)

section \<open>The allocator\<close>

text \<open>
  Every allocation whose failure the code tests (\<open>malloc\<close>, \<open>calloc\<close>, \<open>realloc\<close>, \<open>strdup\<close>)
  asks the environment: \<open>mem_ok\<close> is the list of the answers still to come, and
  when it is used up every allocation succeeds. So a state with \<open>mem_ok = []\<close> is a run
  that never lacks memory, and other lists make any chosen allocations fail.
\<close>

record mem =
  mem_ok :: "bool list"

definition malloc :: "('a mem_scheme, unit) gpm" where
  "malloc s = (case mem_ok s of [] \<Rightarrow> (Inr (), s)
     | b # bs \<Rightarrow> ((if b then Inr () else Inl GP_ERROR_NO_MEMORY), s\<lparr>mem_ok := bs\<rparr>))"

definition has_mem :: "'a mem_scheme \<Rightarrow> bool" where
  "has_mem s \<longleftrightarrow> mem_ok s = []"

lemma malloc_has_mem [simp]: "mem_ok s = [] \<Longrightarrow> malloc s = (Inr (), s)"
  by (simp add: malloc_def)

lemma malloc_error: "malloc s = (Inl e, t) \<Longrightarrow> e = GP_ERROR_NO_MEMORY"
  by (auto simp: malloc_def split: list.splits if_splits)

text \<open>A run that never lacks memory leaves the allocator as it was.\<close>

definition mem_step :: "'a mem_scheme \<Rightarrow> 'a mem_scheme \<Rightarrow> bool" where
  "mem_step m m' \<longleftrightarrow> (mem_ok m = [] \<longrightarrow> m' = m)"

lemma mem_step_refl [simp]: "mem_step m m"
  by (simp add: mem_step_def)

lemma mem_step_trans: "mem_step a b \<Longrightarrow> mem_step b c \<Longrightarrow> mem_step a c"
  by (simp add: mem_step_def)

lemma mem_step_fail: "mem_step a b \<Longrightarrow> mem_ok b \<noteq> [] \<Longrightarrow> mem_ok a \<noteq> []"
  by (auto simp: mem_step_def)

lemma wp_malloc:
  assumes "\<And>b. mem_step s (s\<lparr>mem_ok := b\<rparr>) \<Longrightarrow> Q () (s\<lparr>mem_ok := b\<rparr>)"
    and "\<And>b. mem_ok s \<noteq> [] \<Longrightarrow> E GP_ERROR_NO_MEMORY (s\<lparr>mem_ok := b\<rparr>)"
  shows "wp malloc Q E s"
  using assms(1) [of "tl (mem_ok s)"] assms(1) [of "mem_ok s"] assms(2) [of "tl (mem_ok s)"]
  by (auto simp: wp_def malloc_def mem_step_def split: list.split)

lemma keeps_malloc:
  "(\<And>s b. I s \<Longrightarrow> I (s\<lparr>mem_ok := b\<rparr>)) \<Longrightarrow> keeps I malloc"
  by (rule keepsI) (auto simp: malloc_def split: list.split)

section \<open>C strings\<close>

text \<open>
  A C string is a HOL \<open>string\<close> without its terminating NUL. \<open>strcmp\<close> compares the
  bytes as unsigned chars, which is the order of \<open>HOL-Library.Char_ord\<close> lifted
  to lists.
\<close>

definition strcmp :: "string \<Rightarrow> string \<Rightarrow> int" where
  "strcmp a b = (if a = b then 0 else if a < b then -1 else 1)"

lemma strcmp_eq_0 [simp]: "strcmp a b = 0 \<longleftrightarrow> a = b"
  by (simp add: strcmp_def)

lemma strcmp_le_0: "strcmp a b \<le> 0 \<longleftrightarrow> a \<le> b"
  by (auto simp: strcmp_def)

text \<open>\<open>strchr (s, '/')\<close>, as the split of the string there.\<close>

definition upto_slash :: "string \<Rightarrow> string" where
  "upto_slash s = takeWhile (\<lambda>c. c \<noteq> CHR ''/'') s"

definition from_slash :: "string \<Rightarrow> string" where
  "from_slash s = dropWhile (\<lambda>c. c \<noteq> CHR ''/'') s"

definition skip_slashes :: "string \<Rightarrow> string" where
  "skip_slashes s = dropWhile (\<lambda>c. c = CHR ''/'') s"

lemma upto_from_slash: "upto_slash s @ from_slash s = s"
  by (simp add: upto_slash_def from_slash_def)

lemma from_slash_Nil: "from_slash s = [] \<longleftrightarrow> CHR ''/'' \<notin> set s"
  by (auto simp: from_slash_def dropWhile_eq_Nil_conv)

lemma length_from_slash: "length (from_slash s) \<le> length s"
  by (simp add: from_slash_def length_dropWhile_le)

lemma length_skip_slashes: "length (skip_slashes s) \<le> length s"
  by (simp add: skip_slashes_def length_dropWhile_le)

lemma skip_slashes_hd: "skip_slashes s = c # cs \<Longrightarrow> c \<noteq> CHR ''/''"
  by (metis (full_types) skip_slashes_def dropWhile_eq_Cons_conv)

lemma from_slash_shorter:
  "skip_slashes s = c # cs \<Longrightarrow> length (from_slash (c # cs)) < length (c # cs)"
  using skip_slashes_hd [of s c cs] length_from_slash [of cs]
  by (simp add: from_slash_def le_imp_less_Suc)

lemma upto_slash_no_slash: "CHR ''/'' \<notin> set (upto_slash s)"
  by (auto simp: upto_slash_def dest: set_takeWhileD)

text \<open>\<open>strrchr (s, c)\<close> as the split of the string at the last \<open>c\<close>: what stands before it and after it.\<close>

definition before_last :: "char \<Rightarrow> string \<Rightarrow> string" where
  "before_last c s = rev (tl (dropWhile (\<lambda>x. x \<noteq> c) (rev s)))"

definition after_last :: "char \<Rightarrow> string \<Rightarrow> string" where
  "after_last c s = rev (takeWhile (\<lambda>x. x \<noteq> c) (rev s))"

lemma split_last: "c \<in> set s \<Longrightarrow> s = before_last c s @ c # after_last c s"
proof -
  assume "c \<in> set s"
  then have "dropWhile (\<lambda>x. x \<noteq> c) (rev s) \<noteq> []"
    by (auto simp: dropWhile_eq_Nil_conv)
  then obtain xs where d: "dropWhile (\<lambda>x. x \<noteq> c) (rev s) = c # xs"
    by (cases "dropWhile (\<lambda>x. x \<noteq> c) (rev s)") (auto simp: dropWhile_eq_Cons_conv)
  have "rev s = takeWhile (\<lambda>x. x \<noteq> c) (rev s) @ c # xs"
    using takeWhile_dropWhile_id [of "\<lambda>x. x \<noteq> c" "rev s"] d by simp
  then have "s = rev xs @ c # rev (takeWhile (\<lambda>x. x \<noteq> c) (rev s))"
    by (metis append.assoc append_Cons append_Nil rev.simps(2) rev_append rev_rev_ident)
  with d show ?thesis by (simp add: before_last_def after_last_def)
qed

lemma after_last_notin: "c \<notin> set (after_last c s)"
  by (auto simp: after_last_def dest: set_takeWhileD)

section \<open>Lists\<close>

text \<open>The index of the last element with a property, as a backwards scan finds it.\<close>

fun find_last :: "('a \<Rightarrow> bool) \<Rightarrow> 'a list \<Rightarrow> nat option" where
  "find_last p [] = None"
| "find_last p (x # xs) =
     (case find_last p xs of Some i \<Rightarrow> Some (Suc i) | None \<Rightarrow> if p x then Some 0 else None)"

lemma find_last_None: "find_last p xs = None \<longleftrightarrow> (\<forall>x\<in>set xs. \<not> p x)"
  by (induction xs) (auto split: option.splits)

lemma find_last_Some:
  "find_last p xs = Some i \<Longrightarrow> i < length xs \<and> p (xs ! i) \<and> (\<forall>j. i < j \<and> j < length xs \<longrightarrow> \<not> p (xs ! j))"
proof (induction xs arbitrary: i)
  case Nil
  then show ?case by simp
next
  case (Cons x xs)
  show ?case
  proof (cases "find_last p xs")
    case None
    with Cons.prems have "i = 0" "p x" by (auto split: if_splits)
    moreover have "\<forall>x\<in>set xs. \<not> p x" using None by (simp add: find_last_None)
    ultimately show ?thesis by (auto simp: nth_Cons split: nat.splits)
  next
    case (Some k)
    with Cons.prems have i: "i = Suc k" by simp
    from Cons.IH [OF Some] i show ?thesis
      by (auto simp: nth_Cons split: nat.splits)
  qed
qed

end
