(* ===== verification/Gp_List.thy ===== *)
theory Gp_List imports Gp_Prelude "HOL-Library.Multiset" begin

text \<open>
  gphoto2-list.c: the reference counted list of name/value pairs in which the library
  returns files, folders, ports and settings. The C array \<open>entry\<close> of \<open>max\<close> cells with the first
  \<open>used\<close> in use is kept as such; \<open>list_abs\<close> is the list of pairs it stands for, and the
  lemmas show that every operation is the expected one on that list.
\<close>

section \<open>Data\<close>

record entry =
  e_name :: "string option"
  e_value :: "string option"

record CameraList =
  used :: nat
  max_entries :: nat
  entry :: "entry list"
  l_ref_count :: nat

text \<open>
  The cells between \<open>used\<close> and \<open>max\<close> are what \<open>realloc\<close> left there; no operation reads them,
  so they are filled with one fixed value.
\<close>

definition raw_entry :: entry where
  "raw_entry = \<lparr>e_name = None, e_value = None\<rparr>"

text \<open>
  The state of the operations: the list behind the pointer (\<open>None\<close> for NULL) and the
  environment with its allocator.
\<close>

type_synonym 'm lst = "CameraList option \<times> 'm mem_scheme"

section \<open>Operations\<close>

definition check_list :: "('m lst, CameraList) gpm" where
  "check_list = (\<lambda>(p, m).
     case p of None \<Rightarrow> (Inl GP_ERROR_BAD_PARAMETERS, (p, m))
     | Some l \<Rightarrow> if l_ref_count l = 0 then (Inl GP_ERROR_BAD_PARAMETERS, (p, m))
                else (Inr l, (p, m)))"

definition put_list :: "CameraList \<Rightarrow> ('m lst, unit) gpm" where
  "put_list l = modify (\<lambda>(p, m). (Some l, m))"

definition alloc :: "('m lst, unit) gpm" where
  "alloc = (\<lambda>(p, m). case malloc m of (r, m') \<Rightarrow> (r, (p, m')))"

definition check_index_range :: "CameraList \<Rightarrow> int \<Rightarrow> ('m lst, unit) gpm" where
  "check_index_range l index =
     guard (\<not> (index < 0 \<or> index \<ge> int (used l))) GP_ERROR_BAD_PARAMETERS"

definition gp_list_new :: "('m lst, unit) gpm" where
  "gp_list_new = CR alloc (\<lambda>_.
     put_list \<lparr>used = 0, max_entries = 0, entry = [], l_ref_count = 1\<rparr>)"

definition gp_list_ref :: "('m lst, unit) gpm" where
  "gp_list_ref = CR check_list (\<lambda>l. put_list (l\<lparr>l_ref_count := l_ref_count l + 1\<rparr>))"

text \<open>
  \<open>gp_list_free\<close> clears the entries, marks the list as freed (\<open>ref_count = 0\<close>, which
  the next \<open>CHECK_LIST\<close> looks at) and gives the memory back. In C that next look is a read of freed memory; the model lets it find the 0
  and refuse the list with \<open>GP_ERROR_BAD_PARAMETERS\<close>.
\<close>

definition gp_list_free :: "('m lst, unit) gpm" where
  "gp_list_free = CR check_list (\<lambda>l.
     put_list (l\<lparr>entry := [], l_ref_count := 0\<rparr>))"

definition gp_list_unref :: "('m lst, unit) gpm" where
  "gp_list_unref = CR check_list (\<lambda>l.
     if l_ref_count l = 1 then attempt gp_list_free (\<lambda>_. ok ())
     else put_list (l\<lparr>l_ref_count := l_ref_count l - 1\<rparr>))"

definition gp_list_reset :: "('m lst, unit) gpm" where
  "gp_list_reset = CR check_list (\<lambda>l.
     put_list (l\<lparr>entry := map (\<lambda>_. raw_entry) (take (used l) (entry l)) @ drop (used l) (entry l),
                used := 0\<rparr>))"

text \<open>\<open>strdup\<close> of an argument that may be NULL, into one field of the next free entry.\<close>

definition set_field ::
  "((string option \<Rightarrow> string option) \<Rightarrow> entry \<Rightarrow> entry) \<Rightarrow> nat \<Rightarrow> string option \<Rightarrow> ('m lst, unit) gpm" where
  "set_field upd i v = CR check_list (\<lambda>l.
     put_list (l\<lparr>entry := (entry l)[i := upd (\<lambda>_. v) (entry l ! i)]\<rparr>))"

definition dup_field ::
  "((string option \<Rightarrow> string option) \<Rightarrow> entry \<Rightarrow> entry) \<Rightarrow> nat \<Rightarrow> string option \<Rightarrow> ('m lst, unit) gpm" where
  "dup_field upd i v = (case v of
       None \<Rightarrow> set_field upd i None
     | Some x \<Rightarrow> attempt alloc (\<lambda>r. case r of
         Inl e \<Rightarrow> CR (set_field upd i None) (\<lambda>_. fail e)
       | Inr _ \<Rightarrow> set_field upd i (Some x)))"

definition grow :: "('m lst, unit) gpm" where
  "grow = CR check_list (\<lambda>l.
     if used l = max_entries l
     then CR alloc (\<lambda>_. put_list (l\<lparr>entry := entry l @ replicate 100 raw_entry,
                                  max_entries := max_entries l + 100\<rparr>))
     else ok ())"

definition gp_list_append :: "string option \<Rightarrow> string option \<Rightarrow> ('m lst, unit) gpm" where
  "gp_list_append n v =
     CR grow (\<lambda>_.
     CR check_list (\<lambda>l.
     CR (dup_field e_name_update (used l) n) (\<lambda>_.
     CR (dup_field e_value_update (used l) v) (\<lambda>_.
     CR check_list (\<lambda>l. put_list (l\<lparr>used := used l + 1\<rparr>))))))"

text \<open>
  \<open>qsort\<close> promises a permutation of its input that is sorted by the comparison, and
  nothing on equal elements: it is a parameter. \<open>cmp_list\<close> compares the names; every entry of a list of
  two or more is compared at least once, and on an entry without a name that is undefined.
\<close>

definition cmp_list :: "entry \<Rightarrow> entry \<Rightarrow> int" where
  "cmp_list a b = (case (e_name a, e_name b) of
       (Some x, Some y) \<Rightarrow> strcmp x y
     | _ \<Rightarrow> 0)"

type_synonym sort_routine = "(entry \<Rightarrow> entry \<Rightarrow> int) \<Rightarrow> entry list \<Rightarrow> entry list"

definition gp_list_sort :: "sort_routine \<Rightarrow> ('m lst, unit) gpm" where
  "gp_list_sort qsort = CR check_list (\<lambda>l.
     if used l \<ge> 2 \<and> (\<exists>e\<in>set (take (used l) (entry l)). e_name e = None) then fail UNDEFINED
     else put_list (l\<lparr>entry := qsort cmp_list (take (used l) (entry l)) @ drop (used l) (entry l)\<rparr>))"

definition gp_list_count :: "('m lst, nat) gpm" where
  "gp_list_count = CR check_list (\<lambda>l. ok (used l))"

text \<open>The scan runs backwards from \<open>used - 1\<close>. \<open>strcmp\<close> on an entry without a name is undefined.\<close>

fun scan_back :: "entry list \<Rightarrow> string \<Rightarrow> nat \<Rightarrow> int + nat option" where
  "scan_back es n 0 = Inr None"
| "scan_back es n (Suc i) = (case e_name (es ! i) of
     None \<Rightarrow> Inl UNDEFINED
   | Some x \<Rightarrow> if x = n then Inr (Some i) else scan_back es n i)"

definition gp_list_find_by_name :: "string option \<Rightarrow> ('m lst, nat) gpm" where
  "gp_list_find_by_name n = CR check_list (\<lambda>l.
     case n of None \<Rightarrow> fail GP_ERROR_BAD_PARAMETERS
     | Some x \<Rightarrow> (case scan_back (entry l) x (used l) of
          Inl e \<Rightarrow> fail e
        | Inr (Some i) \<Rightarrow> ok i
        | Inr None \<Rightarrow> fail GP_ERROR))"

definition gp_list_get_name :: "int \<Rightarrow> ('m lst, string option) gpm" where
  "gp_list_get_name index = CR check_list (\<lambda>l.
     CR (check_index_range l index) (\<lambda>_. ok (e_name (entry l ! nat index))))"

definition gp_list_get_value :: "int \<Rightarrow> ('m lst, string option) gpm" where
  "gp_list_get_value index = CR check_list (\<lambda>l.
     CR (check_index_range l index) (\<lambda>_. ok (e_value (entry l ! nat index))))"

definition gp_list_set_value :: "int \<Rightarrow> string option \<Rightarrow> ('m lst, unit) gpm" where
  "gp_list_set_value index v = CR check_list (\<lambda>l.
     CR (guard (v \<noteq> None) GP_ERROR_BAD_PARAMETERS) (\<lambda>_.
     CR (check_index_range l index) (\<lambda>_.
     CR alloc (\<lambda>_. set_field e_value_update (nat index) v))))"

definition gp_list_set_name :: "int \<Rightarrow> string option \<Rightarrow> ('m lst, unit) gpm" where
  "gp_list_set_name index n = CR check_list (\<lambda>l.
     CR (guard (n \<noteq> None) GP_ERROR_BAD_PARAMETERS) (\<lambda>_.
     CR (check_index_range l index) (\<lambda>_.
     CR alloc (\<lambda>_. set_field e_name_update (nat index) n))))"

text \<open>
  \<open>gp_list_populate\<close>: \<open>fmt k\<close> is what the caller's printf format makes of \<open>k\<close>; \<open>snprintf\<close>
  cuts it to the buffer of 1024 bytes.
\<close>

definition gp_list_populate :: "(nat \<Rightarrow> string) option \<Rightarrow> int \<Rightarrow> ('m lst, unit) gpm" where
  "gp_list_populate format cnt = CR check_list (\<lambda>_.
     case format of None \<Rightarrow> fail GP_ERROR_BAD_PARAMETERS
     | Some fmt \<Rightarrow> attempt gp_list_reset (\<lambda>_.
         each (\<lambda>x. gp_list_append (Some (take 1023 (fmt (x + 1)))) None) [0..<nat cnt]))"

section \<open>Well-formed lists and what they stand for\<close>

definition list_wf :: "CameraList \<Rightarrow> bool" where
  "list_wf l \<longleftrightarrow> used l \<le> max_entries l \<and> length (entry l) = max_entries l \<and> l_ref_count l > 0"

definition list_abs :: "CameraList \<Rightarrow> (string option \<times> string option) list" where
  "list_abs l = map (\<lambda>e. (e_name e, e_value e)) (take (used l) (entry l))"

definition live :: "'m lst \<Rightarrow> bool" where
  "live s \<longleftrightarrow> (case fst s of None \<Rightarrow> False | Some l \<Rightarrow> list_wf l)"

lemma live_Some: "live (p, m) \<longleftrightarrow> (\<exists>l. p = Some l \<and> list_wf l)"
  by (auto simp: live_def split: option.splits)

lemma length_list_abs: "list_wf l \<Longrightarrow> length (list_abs l) = used l"
  by (simp add: list_abs_def list_wf_def)

lemma check_list_run [simp]:
  "list_wf l \<Longrightarrow> check_list (Some l, m) = (Inr l, (Some l, m))"
  by (simp add: check_list_def list_wf_def)

lemma put_list_run [simp]: "put_list l (p, m) = (Inr (), (Some l, m))"
  by (simp add: put_list_def run_simps)

lemma alloc_run [simp]: "mem_ok m = [] \<Longrightarrow> alloc (p, m) = (Inr (), (p, m))"
  by (simp add: alloc_def)

text \<open>
  Rules for the small steps, the failing allocation included: what must hold of the
  states they can end in.
\<close>

lemma wp_check_list [simp]:
  "list_wf l \<Longrightarrow> wp check_list Q E (Some l, m) = Q l (Some l, m)"
  by (simp add: wp_def)

lemma wp_put_list [simp]: "wp (put_list l) Q E (p, m) = Q () (Some l, m)"
  by (simp add: wp_def)

lemma wp_alloc:
  assumes "\<And>m'. mem_step m m' \<Longrightarrow> Q () (p, m')"
    and "\<And>m'. mem_ok m \<noteq> [] \<Longrightarrow> E GP_ERROR_NO_MEMORY (p, m')"
  shows "wp alloc Q E (p, m)"
proof -
  have "wp malloc (\<lambda>_ m'. Q () (p, m')) (\<lambda>e m'. E e (p, m')) m"
    using assms by (intro wp_malloc)
  then show ?thesis
    by (simp add: wp_def alloc_def split: prod.splits sum.splits)
qed

definition with_entry :: "CameraList \<Rightarrow> nat \<Rightarrow> entry \<Rightarrow> CameraList" where
  "with_entry l i x = l\<lparr>entry := (entry l)[i := x]\<rparr>"

lemma with_entry_sel [simp]:
  "used (with_entry l i x) = used l"
  "max_entries (with_entry l i x) = max_entries l"
  "l_ref_count (with_entry l i x) = l_ref_count l"
  "length (entry (with_entry l i x)) = length (entry l)"
  "list_wf (with_entry l i x) = list_wf l"
  "used l \<le> i \<Longrightarrow> list_abs (with_entry l i x) = list_abs l"
  "i < length (entry l) \<Longrightarrow> entry (with_entry l i x) ! i = x"
  by (simp_all add: with_entry_def list_wf_def list_abs_def)

lemma wp_set_field [simp]:
  "list_wf l \<Longrightarrow> wp (set_field upd i v) Q E (Some l, m) =
    Q () (Some (with_entry l i (upd (\<lambda>_. v) (entry l ! i))), m)"
  by (simp add: set_field_def with_entry_def)

lemma wp_dup_field:
  assumes "list_wf l"
    and "\<And>m'. mem_step m m' \<Longrightarrow> Q () (Some (with_entry l i (upd (\<lambda>_. v) (entry l ! i))), m')"
    and "\<And>m'. mem_ok m \<noteq> [] \<Longrightarrow>
      E GP_ERROR_NO_MEMORY (Some (with_entry l i (upd (\<lambda>_. None) (entry l ! i))), m')"
  shows "wp (dup_field upd i v) Q E (Some l, m)"
  using assms by (cases v) (auto simp: dup_field_def intro!: wp_alloc)

lemma wp_grow:
  assumes wf: "list_wf l"
    and Q: "\<And>l' m'. list_wf l' \<Longrightarrow> list_abs l' = list_abs l \<Longrightarrow> used l' = used l \<Longrightarrow>
      l_ref_count l' = l_ref_count l \<Longrightarrow> used l < length (entry l') \<Longrightarrow> mem_step m m' \<Longrightarrow>
      Q () (Some l', m')"
    and E: "\<And>m'. mem_ok m \<noteq> [] \<Longrightarrow> E GP_ERROR_NO_MEMORY (Some l, m')"
  shows "wp grow Q E (Some l, m)"
proof (cases "used l = max_entries l")
  case True
  show ?thesis
    unfolding grow_def using wf True
    by (auto intro!: wp_alloc E Q simp: list_wf_def list_abs_def)
next
  case False
  then show ?thesis
    unfolding grow_def using wf
    by (auto intro!: Q simp: list_wf_def)
qed

lemma list_abs_snoc:
  assumes "u = used l" and "u < length (entry l)"
  shows "list_abs (l\<lparr>used := Suc u\<rparr>) =
    list_abs l @ [(e_name (entry l ! u), e_value (entry l ! u))]"
  using assms by (simp add: list_abs_def take_Suc_conv_app_nth)

lemma list_wf_snoc:
  "list_wf l \<Longrightarrow> u = used l \<Longrightarrow> u < length (entry l) \<Longrightarrow> list_wf (l\<lparr>used := Suc u\<rparr>)"
  by (simp add: list_wf_def)

text \<open>
  \<open>gp_list_append\<close>, on every branch: it adds the pair at the end, or it reports that an allocation
  failed and the list is the one it was.
\<close>

lemma wp_append:
  assumes wf: "list_wf l"
    and Q: "\<And>l' m'. list_wf l' \<Longrightarrow> list_abs l' = list_abs l @ [(n, v)] \<Longrightarrow>
      l_ref_count l' = l_ref_count l \<Longrightarrow> mem_step m m' \<Longrightarrow> Q () (Some l', m')"
    and E: "\<And>l' m'. list_wf l' \<Longrightarrow> list_abs l' = list_abs l \<Longrightarrow>
      l_ref_count l' = l_ref_count l \<Longrightarrow> mem_ok m \<noteq> [] \<Longrightarrow> E GP_ERROR_NO_MEMORY (Some l', m')"
  shows "wp (gp_list_append n v) Q E (Some l, m)"
  unfolding gp_list_append_def using wf
  by (auto intro!: wp_grow wp_dup_field Q E simp: list_abs_snoc list_wf_snoc mem_step_def)

section \<open>A client's view of a list\<close>

text \<open>
  What the code that fills a list relies on: one more entry at the end, or an allocation that failed and
  the list as it was. Everything that appends in a loop (the listings, \<open>gp_list_populate\<close>) is a client of it.
\<close>

locale list_provider =
  fixes wf :: "CameraList \<Rightarrow> bool"
    and contents :: "CameraList \<Rightarrow> 'e list"
    and put :: "'e \<Rightarrow> ('m lst, unit) gpm"
  assumes put: "wf l \<Longrightarrow>
      (\<And>l' m'. wf l' \<Longrightarrow> contents l' = contents l @ [e] \<Longrightarrow> mem_step m m' \<Longrightarrow> Q () (Some l', m')) \<Longrightarrow>
      (\<And>l' m'. wf l' \<Longrightarrow> contents l' = contents l \<Longrightarrow> mem_ok m \<noteq> [] \<Longrightarrow> E GP_ERROR_NO_MEMORY (Some l', m')) \<Longrightarrow>
      wp (put e) Q E (Some l, m)"
begin

lemma put_all:
  assumes wf: "wf l"
    and Q: "\<And>l' m'. wf l' \<Longrightarrow> contents l' = contents l @ map f xs \<Longrightarrow> mem_step m m' \<Longrightarrow> Q () (Some l', m')"
    and E: "\<And>l' m' k. wf l' \<Longrightarrow> contents l' = contents l @ map f (take k xs) \<Longrightarrow> mem_ok m \<noteq> [] \<Longrightarrow>
      E GP_ERROR_NO_MEMORY (Some l', m')"
  shows "wp (each (\<lambda>x. put (f x)) xs) Q E (Some l, m)"
  using assms
proof (induction xs arbitrary: l m)
  case Nil
  then show ?case by simp
next
  case (Cons x xs)
  show ?case
    unfolding each.simps wp_CR
  proof (rule put [OF Cons.prems(1)])
    fix l1 m1
    assume l1: "wf l1" "contents l1 = contents l @ [f x]" "mem_step m m1"
    show "wp (each (\<lambda>x. put (f x)) xs) Q E (Some l1, m1)"
    proof (rule Cons.IH [OF l1(1)])
      fix l' m'
      assume "wf l'" "contents l' = contents l1 @ map f xs" "mem_step m1 m'"
      with l1 show "Q () (Some l', m')"
        by (intro Cons.prems(2)) (auto intro: mem_step_trans)
    next
      fix l' m' k
      assume "wf l'" "contents l' = contents l1 @ map f (take k xs)" "mem_ok m1 \<noteq> []"
      with l1 show "E GP_ERROR_NO_MEMORY (Some l', m')"
        by (intro Cons.prems(3) [where k = "Suc k"]) (auto dest: mem_step_fail)
    qed
  next
    fix l' m'
    assume "wf l'" "contents l' = contents l" "mem_ok m \<noteq> []"
    then show "E GP_ERROR_NO_MEMORY (Some l', m')"
      by (intro Cons.prems(3) [where k = 0]) auto
  qed
qed

end

text \<open>\<open>gp_list_append\<close> keeps the promise, and the reference count with it.\<close>

interpretation rows: list_provider "\<lambda>l. list_wf l \<and> l_ref_count l = k" list_abs
    "\<lambda>e. gp_list_append (fst e) (snd e)" for k
proof unfold_locales
  fix l :: CameraList and e :: "string option \<times> string option" and m :: "'a mem_scheme"
    and Q :: "unit \<Rightarrow> 'a lst \<Rightarrow> bool" and E :: "int \<Rightarrow> 'a lst \<Rightarrow> bool"
  assume "list_wf l \<and> l_ref_count l = k"
    and "\<And>l' m'. list_wf l' \<and> l_ref_count l' = k \<Longrightarrow> list_abs l' = list_abs l @ [e] \<Longrightarrow> mem_step m m' \<Longrightarrow> Q () (Some l', m')"
    and "\<And>l' m'. list_wf l' \<and> l_ref_count l' = k \<Longrightarrow> list_abs l' = list_abs l \<Longrightarrow> mem_ok m \<noteq> [] \<Longrightarrow>
      E GP_ERROR_NO_MEMORY (Some l', m')"
  then show "wp (gp_list_append (fst e) (snd e)) Q E (Some l, m)"
    by (intro wp_append) auto
qed

lemma wp_append_each:
  assumes wf: "list_wf l"
    and Q: "\<And>l' m'. list_wf l' \<Longrightarrow> list_abs l' = list_abs l @ map f xs \<Longrightarrow>
      l_ref_count l' = l_ref_count l \<Longrightarrow> mem_step m m' \<Longrightarrow> Q () (Some l', m')"
    and E: "\<And>l' m' k. list_wf l' \<Longrightarrow> list_abs l' = list_abs l @ map f (take k xs) \<Longrightarrow>
      l_ref_count l' = l_ref_count l \<Longrightarrow> mem_ok m \<noteq> [] \<Longrightarrow> E GP_ERROR_NO_MEMORY (Some l', m')"
  shows "wp (each (\<lambda>x. gp_list_append (fst (f x)) (snd (f x))) xs) Q E (Some l, m)"
  by (rule rows.put_all [where k = "l_ref_count l"]) (use assms in auto)

lemma list_abs_reset:
  "list_wf l \<Longrightarrow> list_wf (l\<lparr>entry := map (\<lambda>_. raw_entry) (take (used l) (entry l)) @ drop (used l) (entry l),
      used := 0\<rparr>)"
  by (simp add: list_wf_def)

lemma wp_reset:
  assumes "list_wf l"
    and "\<And>l'. list_wf l' \<Longrightarrow> list_abs l' = [] \<Longrightarrow> l_ref_count l' = l_ref_count l \<Longrightarrow> Q () (Some l', m)"
  shows "wp gp_list_reset Q E (Some l, m)"
  using assms by (auto simp: gp_list_reset_def list_abs_reset list_abs_def)

lemma wp_new:
  assumes "\<And>l' m'. list_wf l' \<Longrightarrow> list_abs l' = [] \<Longrightarrow> l_ref_count l' = 1 \<Longrightarrow> mem_step m m' \<Longrightarrow> Q () (Some l', m')"
    and "\<And>m'. mem_ok m \<noteq> [] \<Longrightarrow> E GP_ERROR_NO_MEMORY (p, m')"
  shows "wp gp_list_new Q E (p, m)"
  unfolding gp_list_new_def by (auto intro!: wp_alloc assms simp: list_wf_def list_abs_def)

lemma wp_count:
  "list_wf l \<Longrightarrow> wp gp_list_count Q E (Some l, m) = Q (length (list_abs l)) (Some l, m)"
  by (simp add: gp_list_count_def length_list_abs)

lemma list_abs_nth:
  "list_wf l \<Longrightarrow> i < used l \<Longrightarrow> list_abs l ! i = (e_name (entry l ! i), e_value (entry l ! i))"
  by (simp add: list_abs_def list_wf_def)

lemma wp_get_name:
  "list_wf l \<Longrightarrow> wp (gp_list_get_name i) Q E (Some l, m) =
    (if 0 \<le> i \<and> nat i < length (list_abs l) then Q (fst (list_abs l ! nat i)) (Some l, m)
     else E GP_ERROR_BAD_PARAMETERS (Some l, m))"
  by (auto simp: gp_list_get_name_def check_index_range_def length_list_abs list_abs_nth)

lemma wp_get_value:
  "list_wf l \<Longrightarrow> wp (gp_list_get_value i) Q E (Some l, m) =
    (if 0 \<le> i \<and> nat i < length (list_abs l) then Q (snd (list_abs l ! nat i)) (Some l, m)
     else E GP_ERROR_BAD_PARAMETERS (Some l, m))"
  by (auto simp: gp_list_get_value_def check_index_range_def length_list_abs list_abs_nth)

lemma list_abs_with_entry:
  "list_wf l \<Longrightarrow> i < used l \<Longrightarrow>
    list_abs (with_entry l i x) = (list_abs l)[i := (e_name x, e_value x)]"
  by (simp add: list_abs_def with_entry_def take_update_swap map_update)

lemma wp_set_value:
  assumes "list_wf l" and "0 \<le> i" and "nat i < length (list_abs l)"
    and "\<And>l' m'. list_wf l' \<Longrightarrow> list_abs l' = (list_abs l)[nat i := (fst (list_abs l ! nat i), Some v)] \<Longrightarrow>
      mem_step m m' \<Longrightarrow> Q () (Some l', m')"
    and "\<And>m'. mem_ok m \<noteq> [] \<Longrightarrow> E GP_ERROR_NO_MEMORY (Some l, m')"
  shows "wp (gp_list_set_value i (Some v)) Q E (Some l, m)"
  unfolding gp_list_set_value_def using assms
  by (auto intro!: wp_alloc simp: check_index_range_def length_list_abs list_abs_nth list_abs_with_entry)

lemma wp_set_name:
  assumes "list_wf l" and "0 \<le> i" and "nat i < length (list_abs l)"
    and "\<And>l' m'. list_wf l' \<Longrightarrow> list_abs l' = (list_abs l)[nat i := (Some v, snd (list_abs l ! nat i))] \<Longrightarrow>
      mem_step m m' \<Longrightarrow> Q () (Some l', m')"
    and "\<And>m'. mem_ok m \<noteq> [] \<Longrightarrow> E GP_ERROR_NO_MEMORY (Some l, m')"
  shows "wp (gp_list_set_name i (Some v)) Q E (Some l, m)"
  unfolding gp_list_set_name_def using assms
  by (auto intro!: wp_alloc simp: check_index_range_def length_list_abs list_abs_nth list_abs_with_entry)

text \<open>The backwards scan finds the last pair with the name.\<close>

lemma scan_back_last:
  "n \<le> length es \<Longrightarrow> \<forall>e\<in>set (take n es). e_name e \<noteq> None \<Longrightarrow>
   scan_back es x n = Inr (find_last (\<lambda>e. e_name e = Some x) (take n es))"
proof (induction n)
  case 0
  then show ?case by simp
next
  case (Suc n)
  have snoc: "find_last p (xs @ [y]) = (if p y then Some (length xs) else find_last p xs)"
    for p :: "entry \<Rightarrow> bool" and xs y
    by (induction xs) (auto split: option.splits)
  from Suc show ?case
    by (auto simp: take_Suc_conv_app_nth snoc split: option.split)
qed

lemma find_last_map: "find_last p (map f xs) = find_last (p \<circ> f) xs"
  by (induction xs) (auto split: option.split)

definition named :: "CameraList \<Rightarrow> bool" where
  "named l \<longleftrightarrow> (\<forall>e\<in>set (list_abs l). fst e \<noteq> None)"

lemma wp_find_by_name:
  "list_wf l \<Longrightarrow> named l \<Longrightarrow> wp (gp_list_find_by_name (Some x)) Q E (Some l, m) =
    (case find_last (\<lambda>e. fst e = Some x) (list_abs l) of
       Some i \<Rightarrow> Q i (Some l, m) | None \<Rightarrow> E GP_ERROR (Some l, m))"
  by (auto simp: gp_list_find_by_name_def scan_back_last list_wf_def list_abs_def named_def find_last_map comp_def
      split: option.split)

section \<open>Properties\<close>

text \<open>A list of two pairs, and an environment that never lacks memory.\<close>

definition demo_list :: CameraList where
  "demo_list = \<lparr>used = 2, max_entries = 3, entry = [\<lparr>e_name = Some ''b'', e_value = Some ''x''\<rparr>,
     \<lparr>e_name = Some ''a'', e_value = None\<rparr>, raw_entry], l_ref_count = 1\<rparr>"

definition demo_mem :: mem where
  "demo_mem = \<lparr>mem_ok = []\<rparr>"

lemma demo_list_wf: "list_wf demo_list \<and> named demo_list"
  by (simp add: demo_list_def list_wf_def named_def list_abs_def)

lemma demo_list_abs: "list_abs demo_list = [(Some ''b'', Some ''x''), (Some ''a'', None)]"
  by (simp add: demo_list_def list_abs_def)

text \<open>C10: \<open>gp_list_append\<close> refines appending a pair to a list: whatever the allocator answers, it either adds the pair
  at the end, or reports that memory ran out and leaves the list as it was; array, capacity and reference count
  stay consistent in both cases.\<close>
theorem append_refines:
  assumes "list_wf l"
  shows "\<exists>r l' m'. gp_list_append n v (Some l, m) = (r, (Some l', m')) \<and> list_wf l' \<and> l_ref_count l' = l_ref_count l \<and>
    (r = Inr () \<and> list_abs l' = list_abs l @ [(n, v)] \<or>
     r = Inl GP_ERROR_NO_MEMORY \<and> list_abs l' = list_abs l \<and> mem_ok m \<noteq> [])"
proof -
  have "wp (gp_list_append n v)
      (\<lambda>_ t. \<exists>l' m'. t = (Some l', m') \<and> list_wf l' \<and> l_ref_count l' = l_ref_count l \<and> list_abs l' = list_abs l @ [(n, v)])
      (\<lambda>e t. \<exists>l' m'. t = (Some l', m') \<and> list_wf l' \<and> l_ref_count l' = l_ref_count l \<and>
         e = GP_ERROR_NO_MEMORY \<and> list_abs l' = list_abs l \<and> mem_ok m \<noteq> []) (Some l, m)"
    by (rule wp_append [OF assms]) auto
  from wp_run_ex [OF this] obtain r t where r: "gp_list_append n v (Some l, m) = (r, t)" and
    "case r of
       Inr _ \<Rightarrow> \<exists>l' m'. t = (Some l', m') \<and> list_wf l' \<and> l_ref_count l' = l_ref_count l \<and> list_abs l' = list_abs l @ [(n, v)]
     | Inl e \<Rightarrow> \<exists>l' m'. t = (Some l', m') \<and> list_wf l' \<and> l_ref_count l' = l_ref_count l \<and>
         e = GP_ERROR_NO_MEMORY \<and> list_abs l' = list_abs l \<and> mem_ok m \<noteq> []" by blast
  then show ?thesis by (cases r) auto
qed

theorem append_refines_witness:
  "list_wf demo_list \<and> (\<exists>l' m'. gp_list_append (Some ''c'') None (Some demo_list, demo_mem) = (Inr (), (Some l', m')) \<and>
     list_abs l' = [(Some ''b'', Some ''x''), (Some ''a'', None), (Some ''c'', None)])"
  using append_refines [of demo_list "Some ''c''" None demo_mem] demo_list_wf
  by (auto simp: demo_list_abs demo_mem_def)

text \<open>What has been appended is found: after \<open>gp_list_append\<close> the count is one more, and \<open>gp_list_find_by_name\<close> of the name gives the
  new position, where \<open>gp_list_get_name\<close> and \<open>gp_list_get_value\<close> give the pair back.\<close>
lemma append_find:
  assumes wf: "list_wf l" and nm: "named l"
    and ap: "gp_list_append (Some n) v (Some l, m) = (Inr (), (Some l', m'))"
  shows "gp_list_count (Some l', m') = (Inr (length (list_abs l) + 1), (Some l', m')) \<and>
    gp_list_find_by_name (Some n) (Some l', m') = (Inr (length (list_abs l)), (Some l', m')) \<and>
    gp_list_get_name (int (length (list_abs l))) (Some l', m') = (Inr (Some n), (Some l', m')) \<and>
    gp_list_get_value (int (length (list_abs l))) (Some l', m') = (Inr v, (Some l', m'))"
proof -
  have "wp (gp_list_append (Some n) v) (\<lambda>_ t. \<exists>l' m'. t = (Some l', m') \<and> list_wf l' \<and> list_abs l' = list_abs l @ [(Some n, v)])
      (\<lambda>_ _. True) (Some l, m)"
    by (rule wp_append [OF wf]) auto
  from wp_Inr [OF this ap] have l': "list_wf l'" "list_abs l' = list_abs l @ [(Some n, v)]" by auto
  with nm have nm': "named l'" by (auto simp: named_def)
  have snoc: "find_last p (xs @ [y]) = Some (length xs)" if "p y" for p :: "string option \<times> string option \<Rightarrow> bool" and xs y
    using that by (induction xs) auto
  show ?thesis
    using l'
    by (simp flip: wp_Inr_iff add: wp_count wp_find_by_name [OF l'(1) nm'] wp_get_name wp_get_value snoc nth_append)
qed

text \<open>\<open>gp_list_find_by_name\<close> on a list whose entries have names returns the last position with the name, or
  \<open>GP_ERROR\<close> when there is none; reading a pair by its number succeeds within the list and is \<open>GP_ERROR_BAD_PARAMETERS\<close>
  outside; none of them changes the list.\<close>
lemma list_lookup:
  assumes wf: "list_wf l" and nm: "named l"
  shows "(\<exists>r. gp_list_find_by_name (Some x) (Some l, m) = (r, (Some l, m)) \<and>
       (case r of Inr i \<Rightarrow> i < length (list_abs l) \<and> fst (list_abs l ! i) = Some x \<and>
                           (\<forall>j. i < j \<and> j < length (list_abs l) \<longrightarrow> fst (list_abs l ! j) \<noteq> Some x)
        | Inl e \<Rightarrow> e = GP_ERROR \<and> (\<forall>p\<in>set (list_abs l). fst p \<noteq> Some x))) \<and>
    (gp_list_get_name k (Some l, m) =
       (if 0 \<le> k \<and> k < int (length (list_abs l)) then Inr (fst (list_abs l ! nat k)) else Inl GP_ERROR_BAD_PARAMETERS, (Some l, m)))"
proof (intro conjI)
  have "wp (gp_list_find_by_name (Some x)) (\<lambda>i t. t = (Some l, m) \<and> find_last (\<lambda>e. fst e = Some x) (list_abs l) = Some i)
      (\<lambda>e t. t = (Some l, m) \<and> e = GP_ERROR \<and> find_last (\<lambda>e. fst e = Some x) (list_abs l) = None) (Some l, m)"
    by (simp add: wp_find_by_name [OF wf nm] split: option.split)
  from wp_run_same [OF this] obtain r where r: "gp_list_find_by_name (Some x) (Some l, m) = (r, (Some l, m))"
    "case r of Inr i \<Rightarrow> find_last (\<lambda>e. fst e = Some x) (list_abs l) = Some i
     | Inl e \<Rightarrow> e = GP_ERROR \<and> find_last (\<lambda>e. fst e = Some x) (list_abs l) = None" by blast
  show "\<exists>r. gp_list_find_by_name (Some x) (Some l, m) = (r, (Some l, m)) \<and>
      (case r of Inr i \<Rightarrow> i < length (list_abs l) \<and> fst (list_abs l ! i) = Some x \<and>
                          (\<forall>j. i < j \<and> j < length (list_abs l) \<longrightarrow> fst (list_abs l ! j) \<noteq> Some x)
       | Inl e \<Rightarrow> e = GP_ERROR \<and> (\<forall>p\<in>set (list_abs l). fst p \<noteq> Some x))"
  proof (cases r)
    case (Inl e)
    with r show ?thesis by (auto simp: find_last_None)
  next
    case (Inr i)
    with r find_last_Some show ?thesis by fastforce
  qed
  show "gp_list_get_name k (Some l, m) =
      (if 0 \<le> k \<and> k < int (length (list_abs l)) then Inr (fst (list_abs l ! nat k)) else Inl GP_ERROR_BAD_PARAMETERS, (Some l, m))"
  proof (cases "0 \<le> k \<and> k < int (length (list_abs l))")
    case True
    then have "nat k < length (list_abs l)" by linarith
    with True show ?thesis by (simp flip: wp_Inr_iff add: wp_get_name [OF wf])
  next
    case False
    then have "\<not> (0 \<le> k \<and> nat k < length (list_abs l))" by linarith
    then have "gp_list_get_name k (Some l, m) = (Inl GP_ERROR_BAD_PARAMETERS, (Some l, m))"
      by (simp flip: wp_Inl_iff add: wp_get_name [OF wf])
    with False show ?thesis by auto
  qed
qed

lemma cmp_list_le:
  "e_name a \<noteq> None \<Longrightarrow> e_name b \<noteq> None \<Longrightarrow> cmp_list a b \<le> 0 \<longleftrightarrow> the (e_name a) \<le> the (e_name b)"
  by (auto simp: cmp_list_def strcmp_le_0)

text \<open>What \<open>qsort\<close> promises for this comparison: a permutation in which no element is greater than a later one.\<close>

definition qsort_contract :: "sort_routine \<Rightarrow> bool" where
  "qsort_contract qs \<longleftrightarrow> (\<forall>es. (\<forall>e\<in>set es. e_name e \<noteq> None) \<longrightarrow>
     mset (qs cmp_list es) = mset es \<and> sorted_wrt (\<lambda>a b. cmp_list a b \<le> 0) (qs cmp_list es))"

text \<open>\<open>gp_list_sort\<close> with any \<open>qsort\<close> that keeps its contract sorts the list by name: the pairs are a permutation of those
  before, in ascending byte order of the names.\<close>
lemma list_sort_sorted:
  assumes wf: "list_wf l" and nm: "named l" and qs: "qsort_contract qs"
  shows "\<exists>l'. gp_list_sort qs (Some l, m) = (Inr (), (Some l', m)) \<and> list_wf l' \<and>
    mset (list_abs l') = mset (list_abs l) \<and> sorted (map (\<lambda>p. the (fst p)) (list_abs l'))"
proof -
  let ?es = "take (used l) (entry l)"
  let ?l = "l\<lparr>entry := qs cmp_list ?es @ drop (used l) (entry l)\<rparr>"
  have names: "\<forall>e\<in>set ?es. e_name e \<noteq> None" using nm by (auto simp: named_def list_abs_def)
  with qs have q: "mset (qs cmp_list ?es) = mset ?es" "sorted_wrt (\<lambda>a b. cmp_list a b \<le> 0) (qs cmp_list ?es)"
    by (auto simp: qsort_contract_def)
  have len: "length (qs cmp_list ?es) = used l"
    using mset_eq_length [OF q(1)] wf by (simp add: list_wf_def)
  have set: "set (qs cmp_list ?es) = set ?es" using q(1) by (metis set_mset_mset)
  have abs: "list_abs ?l = map (\<lambda>e. (e_name e, e_value e)) (qs cmp_list ?es)" using len by (simp add: list_abs_def)
  have "sorted_wrt (\<lambda>a b. the (e_name a) \<le> the (e_name b)) (qs cmp_list ?es)"
    using names set
    by (intro sorted_wrt_mono_rel [OF _ q(2)]) (simp add: cmp_list_le)
  then have "sorted (map (\<lambda>p. the (fst p)) (list_abs ?l))" by (simp add: abs sorted_map)
  moreover have "mset (list_abs ?l) = mset (list_abs l)" unfolding abs by (simp add: list_abs_def q(1))
  moreover have "list_wf ?l" using wf len by (simp add: list_wf_def)
  moreover have "gp_list_sort qs (Some l, m) = (Inr (), (Some ?l, m))"
    using wf names by (auto simp: gp_list_sort_def)
  ultimately show ?thesis by blast
qed

lemma sort_key_contract: "qsort_contract (\<lambda>c. sort_key (\<lambda>e. the (e_name e)))"
proof -
  let ?k = "\<lambda>e. the (e_name e)"
  have "sorted_wrt (\<lambda>a b. cmp_list a b \<le> 0) (sort_key ?k es)" if n: "\<forall>e\<in>set es. e_name e \<noteq> None" for es
  proof -
    have "sorted_wrt (\<lambda>a b. ?k a \<le> ?k b) (sort_key ?k es)"
      using sorted_sort_key [of ?k es] by (simp only: sorted_map)
    then show ?thesis
      by (rule sorted_wrt_mono_rel [rotated]) (use n in \<open>simp add: cmp_list_le\<close>)
  qed
  then show ?thesis by (simp add: qsort_contract_def)
qed

text \<open>The reference count: \<open>k\<close> calls of \<open>gp_list_ref\<close> are undone by \<open>k\<close> of \<open>gp_list_unref\<close> with the contents unchanged, and the one that
  drops the last reference frees the list, which every later call then refuses.\<close>
lemma list_refcount:
  assumes "list_wf l" and "l_ref_count l = 1"
  shows "(\<exists>l'. each (\<lambda>_. gp_list_ref) [0..<k] (Some l, m) = (Inr (), (Some l', m)) \<and> l_ref_count l' = k + 1 \<and>
       each (\<lambda>_. gp_list_unref) [0..<k] (Some l', m) = (Inr (), (Some l, m))) \<and>
    (\<exists>d. gp_list_unref (Some l, m) = (Inr (), (Some d, m)) \<and>
       gp_list_unref (Some d, m) = (Inl GP_ERROR_BAD_PARAMETERS, (Some d, m)) \<and>
       gp_list_append n v (Some d, m) = (Inl GP_ERROR_BAD_PARAMETERS, (Some d, m)) \<and>
       gp_list_count (Some d, m) = (Inl GP_ERROR_BAD_PARAMETERS, (Some d, m)))"
proof (intro conjI)
  have ref: "each (\<lambda>_. gp_list_ref) xs (Some l, m) = (Inr (), (Some (l\<lparr>l_ref_count := l_ref_count l + length xs\<rparr>), m))"
    if "list_wf l" for xs :: "nat list" and l
    using that
  proof (induction xs arbitrary: l)
    case (Cons x xs)
    have "gp_list_ref (Some l, m) = (Inr (), (Some (l\<lparr>l_ref_count := l_ref_count l + 1\<rparr>), m))"
      using Cons.prems by (simp add: gp_list_ref_def)
    moreover have "list_wf (l\<lparr>l_ref_count := l_ref_count l + 1\<rparr>)" using Cons.prems by (simp add: list_wf_def)
    ultimately show ?case using Cons.IH [of "l\<lparr>l_ref_count := l_ref_count l + 1\<rparr>"] by simp
  qed (simp add: run_simps)
  have unref: "each (\<lambda>_. gp_list_unref) xs (Some (l\<lparr>l_ref_count := length xs + 1\<rparr>), m) = (Inr (), (Some (l\<lparr>l_ref_count := 1\<rparr>), m))"
    for xs :: "nat list"
  proof (induction xs)
    case (Cons x xs)
    have "list_wf (l\<lparr>l_ref_count := length (x # xs) + 1\<rparr>)" using assms(1) by (simp add: list_wf_def)
    then have "gp_list_unref (Some (l\<lparr>l_ref_count := length (x # xs) + 1\<rparr>), m) = (Inr (), (Some (l\<lparr>l_ref_count := length xs + 1\<rparr>), m))"
      by (simp add: gp_list_unref_def)
    with Cons.IH show ?case by simp
  qed (simp add: run_simps)
  have l: "l\<lparr>l_ref_count := 1\<rparr> = l" using assms(2) by simp
  from ref [OF assms(1), of "[0..<k]"] unref [of "[0..<k]"] assms(2) show
    "\<exists>l'. each (\<lambda>_. gp_list_ref) [0..<k] (Some l, m) = (Inr (), (Some l', m)) \<and> l_ref_count l' = k + 1 \<and>
      each (\<lambda>_. gp_list_unref) [0..<k] (Some l', m) = (Inr (), (Some l, m))"
    unfolding l by (intro exI [of _ "l\<lparr>l_ref_count := k + 1\<rparr>"]) simp
  let ?d = "l\<lparr>entry := [], l_ref_count := 0\<rparr>"
  have bad: "check_list (Some ?d, m) = (Inl GP_ERROR_BAD_PARAMETERS, (Some ?d, m))" by (simp add: check_list_def)
  then show "\<exists>d. gp_list_unref (Some l, m) = (Inr (), (Some d, m)) \<and>
      gp_list_unref (Some d, m) = (Inl GP_ERROR_BAD_PARAMETERS, (Some d, m)) \<and>
      gp_list_append n v (Some d, m) = (Inl GP_ERROR_BAD_PARAMETERS, (Some d, m)) \<and>
      gp_list_count (Some d, m) = (Inl GP_ERROR_BAD_PARAMETERS, (Some d, m))"
    using assms by (intro exI [of _ ?d])
      (simp add: gp_list_unref_def gp_list_free_def gp_list_append_def gp_list_count_def grow_def attempt_def run_simps CR_def)
qed

text \<open>\<open>gp_list_populate\<close> replaces whatever the list held by the names its format makes of 1 to \<open>count\<close>, each cut to the buffer's
  1023 characters; a count of 0 or less leaves an empty list.\<close>
lemma list_populate:
  assumes wf: "list_wf l" and mem: "mem_ok m = []"
  shows "\<exists>l'. gp_list_populate (Some fmt) cnt (Some l, m) = (Inr (), (Some l', m)) \<and> list_wf l' \<and>
    list_abs l' = map (\<lambda>x. (Some (take 1023 (fmt x)), None)) [1..<nat cnt + 1]"
proof -
  let ?f = "\<lambda>x. (Some (take 1023 (fmt (Suc x))), None :: string option)"
  let ?Q = "\<lambda>_ t. \<exists>l'. t = (Some l', m) \<and> list_wf l' \<and> list_abs l' = map ?f [0..<nat cnt]"
  have app: "wp (each (\<lambda>x. gp_list_append (Some (take 1023 (fmt (Suc x)))) None) [0..<nat cnt]) ?Q (\<lambda>_ _. False) (Some l0, m)"
    if "list_wf l0" "list_abs l0 = []" for l0
    using wp_append_each [OF that(1), where xs = "[0..<nat cnt]" and f = ?f and m = m and Q = ?Q and E = "\<lambda>_ _. False"] that(2) mem
    by (auto simp: mem_step_def)
  have "wp (gp_list_populate (Some fmt) cnt) ?Q (\<lambda>_ _. False) (Some l, m)"
    using wf by (simp add: gp_list_populate_def) (rule wp_reset, auto intro: app)
  then have "\<exists>l'. gp_list_populate (Some fmt) cnt (Some l, m) = (Inr (), (Some l', m)) \<and> list_wf l' \<and>
      list_abs l' = map ?f [0..<nat cnt]"
    by (auto dest: wp_total)
  moreover have "map ?f [0..<nat cnt] = map (\<lambda>x. (Some (take 1023 (fmt x)), None)) [1..<nat cnt + 1]"
    by (simp del: upt_Suc flip: map_Suc_upt add: comp_def)
  ultimately show ?thesis by simp
qed

end
