(* ===== verification/Gp_File.thy ===== *)
theory Gp_File imports Gp_Prelude "HOL-Library.Word" begin

text \<open>
  gphoto2-file.c: the file object that is passed between front-end, core and driver. It
  keeps its content in memory, in a Unix file descriptor, or behind the three functions
  of a handler. The operating system and the handler are code outside the library: they
  are the functions of a record, over an environment state \<open>'w\<close>.
\<close>

section \<open>Data\<close>

type_synonym byte = "8 word"

datatype CameraFileType =
  GP_FILE_TYPE_PREVIEW | GP_FILE_TYPE_NORMAL | GP_FILE_TYPE_RAW
| GP_FILE_TYPE_AUDIO | GP_FILE_TYPE_EXIF | GP_FILE_TYPE_METADATA

datatype CameraFileAccessType =
  GP_FILE_ACCESSTYPE_MEMORY | GP_FILE_ACCESSTYPE_FD | GP_FILE_ACCESSTYPE_HANDLER

text \<open>
  The functions of a handler. \<open>size\<close> stores a size, \<open>read\<close> is given the room there is and
  stores bytes, \<open>write\<close> is given bytes and stores how many it took.
\<close>

record 'w CameraFileHandler =
  h_size :: "'w \<Rightarrow> (int \<times> nat) \<times> 'w"
  h_read :: "(nat \<Rightarrow> 'w \<Rightarrow> (int \<times> byte list) \<times> 'w) option"
  h_write :: "(byte list \<Rightarrow> 'w \<Rightarrow> (int \<times> nat) \<times> 'w) option"

record 'w CameraFile =
  mime_type :: string
  cf_name :: string
  cf_ref_count :: int
  cf_mtime :: int
  accesstype :: CameraFileAccessType
  data :: "byte list option"
  cf_size :: nat
  offset :: nat
  fd :: int
  handler :: "'w CameraFileHandler option"

text \<open>
  What the library uses of the system: \<open>write\<close> and \<open>read\<close> return -1, or the number of bytes
  and, for \<open>read\<close>, the bytes; \<open>lseek\<close> returns -1 or the position; \<open>lseek_ebadf\<close> tells
  whether the last \<open>lseek\<close> failed with EBADF.
\<close>

datatype whence = SEEK_SET | SEEK_CUR | SEEK_END

record 'w os =
  os_write :: "int \<Rightarrow> byte list \<Rightarrow> 'w \<Rightarrow> int \<times> 'w"
  os_read :: "int \<Rightarrow> nat \<Rightarrow> 'w \<Rightarrow> (int \<times> byte list) \<times> 'w"
  os_lseek :: "int \<Rightarrow> int \<Rightarrow> whence \<Rightarrow> 'w \<Rightarrow> int \<times> 'w"
  os_ebadf :: "'w \<Rightarrow> bool"
  os_ftruncate :: "int \<Rightarrow> 'w \<Rightarrow> int \<times> 'w"
  os_close :: "int \<Rightarrow> 'w \<Rightarrow> 'w"

text \<open>The world of a file operation: allocator and environment.\<close>

record 'w world = "mem" +
  env :: 'w

definition os_call :: "('w \<Rightarrow> 'a \<times> 'w) \<Rightarrow> (('w, 'x) world_scheme, 'a) gpm" where
  "os_call f = (\<lambda>s. case f (env s) of (a, w) \<Rightarrow> (Inr a, s\<lparr>env := w\<rparr>))"

lemma wp_os_call [simp]:
  "wp (os_call f) Q E s = (case f (env s) of (a, w) \<Rightarrow> Q a (s\<lparr>env := w\<rparr>))"
  by (simp add: wp_def os_call_def split: prod.split)

lemma os_call_run [simp]: "f (env s) = (a, w) \<Longrightarrow> os_call f s = (Inr a, s\<lparr>env := w\<rparr>)"
  by (simp add: os_call_def)

lemma keeps_os_call: "(\<And>s w. I s \<Longrightarrow> I (s\<lparr>env := w\<rparr>)) \<Longrightarrow> keeps I (os_call f)"
  by (rule keepsI) (auto simp: os_call_def split: prod.split)

definition MAX_PATH :: nat where "MAX_PATH = 256"
definition MIME_LEN :: nat where "MIME_LEN = 64"

text \<open>\<open>strncpy\<close> into a char array of \<open>n\<close> bytes: no terminator when the source fills it.\<close>

definition strncpy :: "string \<Rightarrow> nat \<Rightarrow> string" where
  "strncpy s n = take n s"

definition GP_MIME_WAV :: string where "GP_MIME_WAV = ''audio/wav''"
definition GP_MIME_RAW :: string where "GP_MIME_RAW = ''image/x-raw''"
definition GP_MIME_PNG :: string where "GP_MIME_PNG = ''image/png''"
definition GP_MIME_PGM :: string where "GP_MIME_PGM = ''image/x-portable-graymap''"
definition GP_MIME_PPM :: string where "GP_MIME_PPM = ''image/x-portable-pixmap''"
definition GP_MIME_PNM :: string where "GP_MIME_PNM = ''image/x-portable-anymap''"
definition GP_MIME_JPEG :: string where "GP_MIME_JPEG = ''image/jpeg''"
definition GP_MIME_TIFF :: string where "GP_MIME_TIFF = ''image/tiff''"
definition GP_MIME_BMP :: string where "GP_MIME_BMP = ''image/bmp''"
definition GP_MIME_AVI :: string where "GP_MIME_AVI = ''video/x-msvideo''"
definition GP_MIME_CRW :: string where "GP_MIME_CRW = ''image/x-canon-raw''"
definition GP_MIME_CR2 :: string where "GP_MIME_CR2 = ''image/x-canon-cr2''"
definition GP_MIME_UNKNOWN :: string where "GP_MIME_UNKNOWN = ''application/octet-stream''"
definition GP_MIME_EXIF :: string where "GP_MIME_EXIF = ''application/x-exif''"
definition GP_MIME_MP3 :: string where "GP_MIME_MP3 = ''audio/mpeg''"
definition GP_MIME_OGG :: string where "GP_MIME_OGG = ''application/ogg''"
definition GP_MIME_WMA :: string where "GP_MIME_WMA = ''audio/x-wma''"
definition GP_MIME_ASF :: string where "GP_MIME_ASF = ''audio/x-asf''"
definition GP_MIME_MPEG :: string where "GP_MIME_MPEG = ''video/mpeg''"
definition GP_MIME_AVCHD :: string where "GP_MIME_AVCHD = ''video/mp2t''"

lemmas mime_defs =
  GP_MIME_WAV_def GP_MIME_RAW_def GP_MIME_PNG_def GP_MIME_PGM_def GP_MIME_PPM_def
  GP_MIME_PNM_def GP_MIME_JPEG_def GP_MIME_TIFF_def GP_MIME_BMP_def GP_MIME_AVI_def
  GP_MIME_CRW_def GP_MIME_CR2_def GP_MIME_UNKNOWN_def GP_MIME_EXIF_def GP_MIME_MP3_def
  GP_MIME_OGG_def GP_MIME_WMA_def GP_MIME_ASF_def GP_MIME_MPEG_def GP_MIME_AVCHD_def

section \<open>Construction and reference count\<close>

definition blank_file :: "CameraFileAccessType \<Rightarrow> 'w CameraFile" where
  "blank_file t = \<lparr>mime_type = ''unknown/unknown'', cf_name = '''', cf_ref_count = 1, cf_mtime = 0,
     accesstype = t, data = None, cf_size = 0, offset = 0, fd = 0, handler = None\<rparr>"

definition gp_file_new :: "(('w, 'x) world_scheme, 'w CameraFile) gpm" where
  "gp_file_new = CR malloc (\<lambda>_. ok (blank_file GP_FILE_ACCESSTYPE_MEMORY))"

definition gp_file_new_from_fd :: "int \<Rightarrow> (('w, 'x) world_scheme, 'w CameraFile) gpm" where
  "gp_file_new_from_fd d = CR malloc (\<lambda>_. ok ((blank_file GP_FILE_ACCESSTYPE_FD)\<lparr>fd := d\<rparr>))"

definition gp_file_new_from_handler :: "'w CameraFileHandler \<Rightarrow> (('w, 'x) world_scheme, 'w CameraFile) gpm" where
  "gp_file_new_from_handler h =
     CR malloc (\<lambda>_. ok ((blank_file GP_FILE_ACCESSTYPE_HANDLER)\<lparr>handler := Some h\<rparr>))"

definition gp_file_clean :: "'w CameraFile \<Rightarrow> 'w CameraFile" where
  "gp_file_clean f =
     (if accesstype f = GP_FILE_ACCESSTYPE_MEMORY then f\<lparr>data := None, cf_size := 0\<rparr> else f)
     \<lparr>cf_name := ''''\<rparr>"

text \<open>
  \<open>gp_file_free\<close> and \<open>gp_file_unref\<close> return \<open>None\<close> for the object once it is freed.
\<close>

definition gp_file_free :: "'w os \<Rightarrow> 'w CameraFile \<Rightarrow> (('w, 'x) world_scheme, 'w CameraFile option) gpm" where
  "gp_file_free os f = (let f' = gp_file_clean f in
     CR (if accesstype f' = GP_FILE_ACCESSTYPE_FD
         then modify (\<lambda>s. s\<lparr>env := os_close os (fd f') (env s)\<rparr>) else ok ())
        (\<lambda>_. ok None))"

definition gp_file_ref :: "'w CameraFile \<Rightarrow> 'w CameraFile" where
  "gp_file_ref f = f\<lparr>cf_ref_count := cf_ref_count f + 1\<rparr>"

definition gp_file_unref :: "'w os \<Rightarrow> 'w CameraFile \<Rightarrow> (('w, 'x) world_scheme, 'w CameraFile option) gpm" where
  "gp_file_unref os f = (let f' = f\<lparr>cf_ref_count := cf_ref_count f - 1\<rparr> in
     if cf_ref_count f' = 0 then gp_file_free os f' else ok (Some f'))"

section \<open>Attributes\<close>

definition gp_file_get_name :: "'w CameraFile \<Rightarrow> string" where
  "gp_file_get_name f = cf_name f"

definition gp_file_set_name :: "'w CameraFile \<Rightarrow> string \<Rightarrow> 'w CameraFile" where
  "gp_file_set_name f n = f\<lparr>cf_name := strncpy n MAX_PATH\<rparr>"

definition gp_file_get_mime_type :: "'w CameraFile \<Rightarrow> string" where
  "gp_file_get_mime_type f = mime_type f"

definition gp_file_set_mime_type :: "'w CameraFile \<Rightarrow> string \<Rightarrow> 'w CameraFile" where
  "gp_file_set_mime_type f t = f\<lparr>mime_type := strncpy t MIME_LEN\<rparr>"

definition gp_file_get_mtime :: "'w CameraFile \<Rightarrow> int" where
  "gp_file_get_mtime f = cf_mtime f"

definition gp_file_set_mtime :: "'w CameraFile \<Rightarrow> int \<Rightarrow> 'w CameraFile" where
  "gp_file_set_mtime f t = f\<lparr>cf_mtime := t\<rparr>"

section \<open>Content\<close>

text \<open>
  The write loop of the descriptor case: what is left is written until nothing is left;
  an error or no progress ends it. A result of \<open>write\<close> other than -1, 0 or a positive
  count does not exist.
\<close>

function write_loop :: "'w os \<Rightarrow> int \<Rightarrow> byte list \<Rightarrow> (('w, 'x) world_scheme, unit) gpm" where
  "write_loop os d bs =
     (if bs = [] then ok ()
      else CR (os_call (os_write os d bs)) (\<lambda>res.
        if res = -1 then fail GP_ERROR_IO_WRITE
        else if res \<le> 0 then fail GP_ERROR_IO_WRITE
        else write_loop os d (drop (nat res) bs)))"
  by pat_completeness auto
termination
  by (relation "measure (\<lambda>(os, d, bs). length bs)") auto

text \<open>The read loop: \<open>n\<close> bytes are still wanted, \<open>acc\<close> has been read.\<close>

function read_loop :: "'w os \<Rightarrow> int \<Rightarrow> nat \<Rightarrow> byte list \<Rightarrow> (('w, 'x) world_scheme, byte list) gpm" where
  "read_loop os d n acc =
     (if n = 0 then ok acc
      else CR (os_call (os_read os d n)) (\<lambda>(res, bs).
        if res = -1 then fail GP_ERROR_IO_READ
        else if res \<le> 0 then fail GP_ERROR_IO_READ
        else read_loop os d (n - nat res) (acc @ take (nat res) bs)))"
  by pat_completeness auto
termination
  by (relation "measure (\<lambda>(os, d, n, acc). n)") auto

declare write_loop.simps [simp del] read_loop.simps [simp del]

text \<open>
  \<open>gp_file_append\<close>. In memory the first block is copied into a buffer whose \<open>malloc\<close> is not checked;
  the later ones go to a \<open>realloc\<close> that is. The count \<open>curwritten\<close> of the bytes written to a descriptor, an \<open>int\<close> in C, is
  the part of the block that is gone here, and has no bound.
\<close>

definition gp_file_append :: "'w os \<Rightarrow> 'w CameraFile \<Rightarrow> byte list \<Rightarrow> (('w, 'x) world_scheme, 'w CameraFile) gpm" where
  "gp_file_append os f bs = (case accesstype f of
     GP_FILE_ACCESSTYPE_MEMORY \<Rightarrow>
       (case data f of
          None \<Rightarrow> attempt malloc (\<lambda>r. case r of
              Inl e \<Rightarrow> if bs = [] then ok f else fail UNDEFINED
            | Inr _ \<Rightarrow> if cf_size f = 0 then ok (f\<lparr>data := Some bs, cf_size := length bs\<rparr>)
                       else fail UNDEFINED)
        | Some d \<Rightarrow> CR malloc (\<lambda>_.
            ok (f\<lparr>data := Some (take (cf_size f) d @ bs), cf_size := cf_size f + length bs\<rparr>)))
   | GP_FILE_ACCESSTYPE_FD \<Rightarrow> CR (write_loop os (fd f) bs) (\<lambda>_. ok f)
   | GP_FILE_ACCESSTYPE_HANDLER \<Rightarrow>
       (case handler f of None \<Rightarrow> fail UNDEFINED
        | Some h \<Rightarrow> (case h_write h of None \<Rightarrow> fail GP_ERROR_BAD_PARAMETERS
          | Some w \<Rightarrow> CR (os_call (w bs)) (\<lambda>(ret, _). if ret < 0 then fail ret else ok f))))"

text \<open>
  \<open>gp_file_slurp\<close> reads up to \<open>size\<close> bytes from the read pointer. In memory the room left is the
  unsigned difference \<open>file->size - file->offset\<close>, which wraps at 64 bits.
\<close>

definition room_left :: "'w CameraFile \<Rightarrow> nat" where
  "room_left f = nat ((int (cf_size f) - int (offset f)) mod 2 ^ 64)"

definition gp_file_slurp :: "'w os \<Rightarrow> 'w CameraFile \<Rightarrow> nat \<Rightarrow> (('w, 'x) world_scheme, byte list \<times> 'w CameraFile) gpm" where
  "gp_file_slurp os f sz = (case accesstype f of
     GP_FILE_ACCESSTYPE_MEMORY \<Rightarrow>
       (let n = (if sz > room_left f then room_left f else sz);
            d = (case data f of None \<Rightarrow> [] | Some d \<Rightarrow> d)
        in if n > 0 \<and> offset f + n > length d then fail UNDEFINED
           else ok (take n (drop (offset f) d), f\<lparr>offset := offset f + n\<rparr>))
   | GP_FILE_ACCESSTYPE_FD \<Rightarrow> CR (read_loop os (fd f) sz []) (\<lambda>bs. ok (bs, f))
   | GP_FILE_ACCESSTYPE_HANDLER \<Rightarrow>
       (case handler f of None \<Rightarrow> fail UNDEFINED
        | Some h \<Rightarrow> (case h_read h of None \<Rightarrow> fail GP_ERROR_BAD_PARAMETERS
          | Some r \<Rightarrow> CR (os_call (r sz)) (\<lambda>(ret, bs).
              if ret < 0 then fail ret else ok (bs, f)))))"

definition gp_file_set_data_and_size ::
  "'w os \<Rightarrow> 'w CameraFile \<Rightarrow> byte list option \<Rightarrow> (('w, 'x) world_scheme, 'w CameraFile) gpm" where
  "gp_file_set_data_and_size os f d = (case accesstype f of
     GP_FILE_ACCESSTYPE_MEMORY \<Rightarrow>
       ok (f\<lparr>data := d, cf_size := (case d of None \<Rightarrow> 0 | Some b \<Rightarrow> length b)\<rparr>)
   | GP_FILE_ACCESSTYPE_FD \<Rightarrow>
       CR (os_call (os_lseek os (fd f) 0 SEEK_SET)) (\<lambda>_.
       CR (os_call (os_ftruncate os (fd f))) (\<lambda>_.
       CR (write_loop os (fd f) (case d of None \<Rightarrow> [] | Some b \<Rightarrow> b)) (\<lambda>_. ok f)))
   | GP_FILE_ACCESSTYPE_HANDLER \<Rightarrow>
       (case handler f of None \<Rightarrow> fail UNDEFINED
        | Some h \<Rightarrow> (case h_write h of None \<Rightarrow> fail GP_ERROR_BAD_PARAMETERS
          | Some w \<Rightarrow> CR (os_call (w (case d of None \<Rightarrow> [] | Some b \<Rightarrow> b))) (\<lambda>(ret, _).
              if ret < 0 then fail ret else ok f))))"

text \<open>
  \<open>gp_file_get_data_and_size\<close>: \<open>want\<close> says whether \<open>data\<close> is not NULL; without it only the
  size is looked up.
\<close>

definition fd_size :: "'w os \<Rightarrow> int \<Rightarrow> (('w, 'x) world_scheme, nat) gpm" where
  "fd_size os d =
     CR (os_call (os_lseek os d 0 SEEK_END)) (\<lambda>r.
     CR (gets (\<lambda>s. os_ebadf os (env s))) (\<lambda>ebadf.
     if r = -1 \<and> ebadf then fail GP_ERROR_IO else
     CR (os_call (os_lseek os d 0 SEEK_CUR)) (\<lambda>off.
     if off = -1 then fail GP_ERROR_IO_READ else
     CR (os_call (os_lseek os d 0 SEEK_SET)) (\<lambda>r.
     if r = -1 then fail GP_ERROR_IO_READ else ok (nat off)))))"

definition gp_file_get_data_and_size ::
  "'w os \<Rightarrow> 'w CameraFile \<Rightarrow> bool \<Rightarrow> (('w, 'x) world_scheme, byte list option \<times> nat) gpm" where
  "gp_file_get_data_and_size os f want = (case accesstype f of
     GP_FILE_ACCESSTYPE_MEMORY \<Rightarrow> ok (if want then data f else None, cf_size f)
   | GP_FILE_ACCESSTYPE_FD \<Rightarrow> CR (fd_size os (fd f)) (\<lambda>n.
       if \<not> want then ok (None, n)
       else CR malloc (\<lambda>_. CR (read_loop os (fd f) n []) (\<lambda>bs. ok (Some bs, n))))
   | GP_FILE_ACCESSTYPE_HANDLER \<Rightarrow>
       (case handler f of None \<Rightarrow> fail UNDEFINED
        | Some h \<Rightarrow> (case h_read h of None \<Rightarrow> fail GP_ERROR_BAD_PARAMETERS
          | Some r \<Rightarrow> CR (os_call (h_size h)) (\<lambda>(ret, n).
              if ret < 0 then fail ret
              else if ret \<noteq> 0 then ok (None, 0)
              else if \<not> want then ok (None, n)
              else CR malloc (\<lambda>_. CR (os_call (r n)) (\<lambda>(ret, bs).
                if ret < 0 then fail ret
                else if ret \<noteq> 0 then ok (None, n)
                else ok (Some bs, n)))))))"

text \<open>
  \<open>gp_file_copy\<close> between two descriptors: blocks of 64 KiB, each written until it is out or
  the system takes nothing more, which is not reported. How many blocks there are is up to
  the system (a pipe may never end), so their number is bounded by \<open>fuel\<close>.
\<close>

function write_block :: "'w os \<Rightarrow> int \<Rightarrow> byte list \<Rightarrow> (('w, 'x) world_scheme, unit) gpm" where
  "write_block os d bs =
     (if bs = [] then ok ()
      else CR (os_call (os_write os d bs)) (\<lambda>res.
        if res = -1 then fail GP_ERROR_IO_WRITE
        else if res \<le> 0 then ok ()
        else write_block os d (drop (nat res) bs)))"
  by pat_completeness auto
termination
  by (relation "measure (\<lambda>(os, d, bs). length bs)") auto

fun fd_copy_loop :: "nat \<Rightarrow> 'w os \<Rightarrow> int \<Rightarrow> int \<Rightarrow> (('w, 'x) world_scheme, unit) gpm" where
  "fd_copy_loop 0 os src dst = fail UNDEFINED"
| "fd_copy_loop (Suc k) os src dst =
     CR (os_call (os_read os src 65536)) (\<lambda>(res, bs).
       if res = -1 then fail GP_ERROR_IO_READ
       else if res = 0 then ok ()
       else CR (write_block os dst (take (nat res) bs)) (\<lambda>_.
         if res < 65536 then ok () else fd_copy_loop k os src dst))"

text \<open>The write loop of a handler: it ends on an error or when no byte was taken.\<close>

function handler_write_loop ::
  "(byte list \<Rightarrow> 'w \<Rightarrow> (int \<times> nat) \<times> 'w) \<Rightarrow> byte list \<Rightarrow> (('w, 'x) world_scheme, unit) gpm" where
  "handler_write_loop w bs =
     (if bs = [] then ok ()
      else CR (os_call (w bs)) (\<lambda>(res, n).
        if res < GP_OK then fail res
        else if n = 0 then fail GP_ERROR_IO_WRITE
        else handler_write_loop w (drop n bs)))"
  by pat_completeness auto
termination
  by (relation "measure (\<lambda>(w, bs). length bs)") auto

declare write_block.simps [simp del] handler_write_loop.simps [simp del]

text \<open>
  A failing copy has changed its destination too, so the outcome is the code together with the
  destination. A failing read into a new buffer frees the buffer and leaves \<open>destination->data\<close>
  pointing to it: what the next use of the object does is undefined, which is reported at once.
\<close>

definition settle :: "'w CameraFile \<Rightarrow> (('w, 'x) world_scheme, 'w CameraFile) gpm \<Rightarrow>
    (('w, 'x) world_scheme, int \<times> 'w CameraFile) gpm" where
  "settle d m = attempt m (\<lambda>r. case r of
     Inl e \<Rightarrow> if e = UNDEFINED then fail UNDEFINED else ok (e, d)
   | Inr d' \<Rightarrow> ok (GP_OK, d'))"

definition gp_file_copy ::
  "nat \<Rightarrow> 'w os \<Rightarrow> 'w CameraFile \<Rightarrow> 'w CameraFile \<Rightarrow> (('w, 'x) world_scheme, int \<times> 'w CameraFile) gpm" where
  "gp_file_copy fuel os destination source =
     (let d = destination\<lparr>cf_name := cf_name source, mime_type := mime_type source,
                           cf_mtime := cf_mtime source\<rparr>;
          content = (case data source of None \<Rightarrow> [] | Some b \<Rightarrow> b);
          bytes = take (cf_size source) content
      in case (accesstype d, accesstype source) of
        (GP_FILE_ACCESSTYPE_MEMORY, GP_FILE_ACCESSTYPE_MEMORY) \<Rightarrow>
          settle (d\<lparr>data := None, cf_size := cf_size source\<rparr>) (CR malloc (\<lambda>_.
            if cf_size source > length content then fail UNDEFINED
            else ok (d\<lparr>cf_size := cf_size source, data := Some bytes\<rparr>)))
      | (GP_FILE_ACCESSTYPE_MEMORY, GP_FILE_ACCESSTYPE_FD) \<Rightarrow>
          attempt (fd_size os (fd source)) (\<lambda>r. case r of
            Inl e \<Rightarrow> ok (e, d\<lparr>data := None\<rparr>)
          | Inr n \<Rightarrow> attempt malloc (\<lambda>r. case r of
              Inl e \<Rightarrow> ok (e, d\<lparr>data := None, cf_size := n\<rparr>)
            | Inr _ \<Rightarrow> attempt (read_loop os (fd source) n []) (\<lambda>r. case r of
                Inl e \<Rightarrow> fail UNDEFINED
              | Inr bs \<Rightarrow> ok (GP_OK, d\<lparr>cf_size := n, data := Some bs\<rparr>))))
      | (GP_FILE_ACCESSTYPE_FD, GP_FILE_ACCESSTYPE_FD) \<Rightarrow>
          settle d (CR (os_call (os_lseek os (fd d) 0 SEEK_SET)) (\<lambda>_.
          CR (os_call (os_ftruncate os (fd d))) (\<lambda>_.
          CR (os_call (os_lseek os (fd source) 0 SEEK_SET)) (\<lambda>_.
          CR (fd_copy_loop fuel os (fd source) (fd d)) (\<lambda>_. ok d)))))
      | (GP_FILE_ACCESSTYPE_FD, GP_FILE_ACCESSTYPE_MEMORY) \<Rightarrow>
          if cf_size source > length content then fail UNDEFINED
          else settle d (CR (write_loop os (fd d) bytes) (\<lambda>_. ok d))
      | (GP_FILE_ACCESSTYPE_HANDLER, GP_FILE_ACCESSTYPE_MEMORY) \<Rightarrow>
          (case handler d of None \<Rightarrow> fail UNDEFINED
           | Some h \<Rightarrow> if cf_size source > length content then fail UNDEFINED
             else settle d (CR (os_call (h_size h)) (\<lambda>_.
              (case h_write h of None \<Rightarrow> if bytes = [] then ok d else fail UNDEFINED
               | Some w \<Rightarrow> CR (handler_write_loop w bytes) (\<lambda>_. ok d)))))
      | _ \<Rightarrow> ok (GP_ERROR, d))"

section \<open>Names and types\<close>

definition mime_table :: "(string \<times> string) list" where
  "mime_table =
    [(''bmp'', GP_MIME_BMP), (''jpg'', GP_MIME_JPEG), (''tif'', GP_MIME_TIFF),
     (''ppm'', GP_MIME_PPM), (''pgm'', GP_MIME_PGM), (''pnm'', GP_MIME_PNM),
     (''png'', GP_MIME_PNG), (''wav'', GP_MIME_WAV), (''avi'', GP_MIME_AVI),
     (''mp3'', GP_MIME_MP3), (''wma'', GP_MIME_WMA), (''asf'', GP_MIME_ASF),
     (''ogg'', GP_MIME_OGG), (''mpg'', GP_MIME_MPEG), (''raw'', GP_MIME_RAW),
     (''mts'', GP_MIME_AVCHD), (''m2ts'', GP_MIME_AVCHD)]"

text \<open>\<open>strcasecmp\<close> compares after mapping the ASCII capitals to small letters.\<close>

definition lower_char :: "char \<Rightarrow> char" where
  "lower_char c = (if CHR ''A'' \<le> c \<and> c \<le> CHR ''Z'' then char_of (of_char c + 32 :: nat) else c)"

definition same_nocase :: "string \<Rightarrow> string \<Rightarrow> bool" where
  "same_nocase a b \<longleftrightarrow> map lower_char a = map lower_char b"

text \<open>
  The second half of \<open>gp_file_open\<close>: the name is what follows the last slash, the type is looked up
  by what follows the last dot of the whole path. \<open>sprintf\<close> writes the unknown suffix behind
  \<open>image/\<close> into the 64 bytes of \<open>mime_type\<close> without a bound.
\<close>

definition open_mime_type :: "string \<Rightarrow> string" where
  "open_mime_type filename =
     (if CHR ''.'' \<in> set filename then
        (case find (\<lambda>(suffix, _). same_nocase suffix (after_last CHR ''.'' filename)) mime_table of
           Some (_, mime) \<Rightarrow> strncpy mime MIME_LEN
         | None \<Rightarrow> ''image/'' @ after_last CHR ''.'' filename)
      else strncpy GP_MIME_UNKNOWN MIME_LEN)"

text \<open>
  \<open>gp_file_open\<close>. What the system says of the path is an argument: \<open>None\<close> when \<open>fopen\<close> fails, or
  the bytes \<open>fread\<close> gives with the answer of \<open>ferror\<close>, the descriptor \<open>dup\<close> would return, and the
  modification time (of \<open>stat\<close>, or the current time when that fails). The outcome is the code with the
  object, which an error leaves cleaned.
\<close>

record hostfile =
  hf_bytes :: "byte list"
  hf_error :: bool
  hf_dup :: int
  hf_mtime :: int

definition gp_file_open ::
  "'w CameraFile \<Rightarrow> string \<Rightarrow> hostfile option \<Rightarrow> (('w, 'x) world_scheme, int \<times> 'w CameraFile) gpm" where
  "gp_file_open file filename host =
     (let f = gp_file_clean file in
      settle f (case host of None \<Rightarrow> fail GP_ERROR
      | Some h \<Rightarrow>
        CR (case accesstype f of
              GP_FILE_ACCESSTYPE_MEMORY \<Rightarrow> CR malloc (\<lambda>_.
                if hf_error h then fail GP_ERROR
                else ok (f\<lparr>data := Some (hf_bytes h), cf_size := length (hf_bytes h)\<rparr>))
            | GP_FILE_ACCESSTYPE_FD \<Rightarrow>
                if fd f = -1 then ok (f\<lparr>fd := hf_dup h\<rparr>) else fail GP_ERROR
            | _ \<Rightarrow> ok f)
           (\<lambda>f. ok (f\<lparr>cf_name := strncpy (if CHR ''/'' \<in> set filename
                                         then after_last CHR ''/'' filename else filename) MAX_PATH,
                      mime_type := open_mime_type filename,
                      cf_mtime := hf_mtime h\<rparr>))))"

text \<open>\<open>gp_file_get_name_by_type\<close>: a prefix for the view, and the suffix of the mime type.\<close>

fun type_prefix :: "CameraFileType \<Rightarrow> string" where
  "type_prefix GP_FILE_TYPE_RAW = ''raw_''"
| "type_prefix GP_FILE_TYPE_EXIF = ''exif_''"
| "type_prefix GP_FILE_TYPE_PREVIEW = ''thumb_''"
| "type_prefix GP_FILE_TYPE_METADATA = ''meta_''"
| "type_prefix GP_FILE_TYPE_AUDIO = ''audio_''"
| "type_prefix GP_FILE_TYPE_NORMAL = ''''"

definition gp_file_get_name_by_type ::
  "'w CameraFile \<Rightarrow> string \<Rightarrow> CameraFileType \<Rightarrow> (('w, 'x) world_scheme, string) gpm" where
  "gp_file_get_name_by_type file basename t =
     (if t = GP_FILE_TYPE_NORMAL \<and> CHR ''.'' \<in> set basename
      then CR malloc (\<lambda>_. ok basename)
      else
       let suffix = map_option fst (find (\<lambda>(_, mime). mime = mime_type file) mime_table) in
       if CHR ''.'' \<in> set basename
       then CR malloc (\<lambda>_. ok (type_prefix t @ before_last CHR ''.'' basename @ ''.'' @
              (case suffix of Some s \<Rightarrow> s | None \<Rightarrow> after_last CHR ''.'' basename)))
       else CR malloc (\<lambda>_. ok (type_prefix t @ basename @
              (case suffix of Some s \<Rightarrow> if s = [] then [] else ''.'' @ s | None \<Rightarrow> []))))"

definition TIFF_SOI_MARKER :: "byte list" where
  "TIFF_SOI_MARKER = [0x49, 0x49, 0x2A, 0x00, 0x08]"

definition JPEG_SOI_MARKER :: "byte list" where
  "JPEG_SOI_MARKER = [0xFF, 0xD8]"

definition mime_of_bytes :: "byte list \<Rightarrow> string" where
  "mime_of_bytes d =
     (if length d \<ge> 5 \<and> take 5 d = TIFF_SOI_MARKER then GP_MIME_TIFF
      else if length d \<ge> 2 \<and> take 2 d = JPEG_SOI_MARKER then GP_MIME_JPEG
      else GP_MIME_RAW)"

definition gp_file_detect_mime_type :: "'w os \<Rightarrow> 'w CameraFile \<Rightarrow> (('w, 'x) world_scheme, 'w CameraFile) gpm" where
  "gp_file_detect_mime_type os f = (case accesstype f of
     GP_FILE_ACCESSTYPE_MEMORY \<Rightarrow>
       ok (gp_file_set_mime_type f
         (mime_of_bytes (take (cf_size f) (case data f of None \<Rightarrow> [] | Some d \<Rightarrow> d))))
   | GP_FILE_ACCESSTYPE_FD \<Rightarrow>
       CR (os_call (os_lseek os (fd f) 0 SEEK_SET)) (\<lambda>off.
       CR (os_call (os_read os (fd f) 5)) (\<lambda>(res, bs).
       if res = -1 then fail GP_ERROR_IO_READ
       else CR (os_call (os_lseek os (fd f) off SEEK_SET)) (\<lambda>_.
         ok (gp_file_set_mime_type f (mime_of_bytes (take (nat res) bs))))))
   | GP_FILE_ACCESSTYPE_HANDLER \<Rightarrow> ok f)"

definition suffix_table :: "(string \<times> string) list" where
  "suffix_table =
    [(GP_MIME_RAW, ''raw''), (GP_MIME_JPEG, ''jpg''), (GP_MIME_PNG, ''png''), (GP_MIME_PPM, ''ppm''),
     (GP_MIME_PGM, ''pgm''), (GP_MIME_PNM, ''pnm''), (GP_MIME_TIFF, ''tif''), (GP_MIME_WAV, ''wav''),
     (GP_MIME_BMP, ''bmp''), (GP_MIME_AVI, ''avi''), (GP_MIME_CRW, ''crw''), (GP_MIME_CR2, ''cr2'')]"

text \<open>
  \<open>gp_file_adjust_name_for_mime_type\<close>: the suffix behind the last dot is erased, and that of the
  type appended; a name without a dot gets it appended all the same.
\<close>

definition gp_file_adjust_name_for_mime_type :: "'w CameraFile \<Rightarrow> 'w CameraFile" where
  "gp_file_adjust_name_for_mime_type f = (case map_of suffix_table (mime_type f) of
     None \<Rightarrow> f
   | Some suffix \<Rightarrow>
       f\<lparr>cf_name := (if CHR ''.'' \<in> set (cf_name f)
                   then before_last CHR ''.'' (cf_name f) @ ''.''
                   else cf_name f) @ suffix\<rparr>)"

end
