(* ===== verification/Gp_File_Props.thy ===== *)
theory Gp_File_Props imports Gp_File begin

text \<open>
  Properties of the file object operations: which of them touch nothing but the allocator and the
  environment, that descriptors receive all bytes in order, that memory files round-trip, and what
  the name and type functions compute.
\<close>

section \<open>Operations that change the allocator and the environment only\<close>

definition env_only :: "(('w, 'x) world_scheme, 'a) gpm \<Rightarrow> bool" where
  "env_only m \<longleftrightarrow> (\<forall>s. \<exists>b w. snd (m s) = s\<lparr>mem_ok := b, env := w\<rparr>)"

named_theorems env_only_intro

lemma env_only_basic [env_only_intro]:
  "env_only (ok a)" "env_only (fail e)" "env_only (gets f)" "env_only (os_call g)" "env_only malloc"
  "env_only (modify (\<lambda>s. s\<lparr>env := k s\<rparr>))"
proof -
  have same: "\<exists>b w. s = s\<lparr>mem_ok := b, env := w\<rparr>" for s :: "('w, 'x) world_scheme"
    by (rule exI [of _ "mem_ok s"], rule exI [of _ "env s"]) simp
  have me: "\<exists>b w. s\<lparr>env := e\<rparr> = s\<lparr>mem_ok := b, env := w\<rparr>" for s :: "('w, 'x) world_scheme" and e
    by (rule exI [of _ "mem_ok s"], rule exI [of _ e]) simp
  have mm: "\<exists>b w. s\<lparr>mem_ok := m\<rparr> = s\<lparr>mem_ok := b, env := w\<rparr>" for s :: "('w, 'x) world_scheme" and m
    by (rule exI [of _ m], rule exI [of _ "env s"]) simp
  show "env_only (ok a)" "env_only (fail e)" "env_only (gets f)" "env_only (os_call g)" "env_only malloc"
    "env_only (modify (\<lambda>s. s\<lparr>env := k s\<rparr>))"
    unfolding env_only_def
    using same me mm by (auto simp: run_simps os_call_def malloc_def split: prod.split list.split)
qed

lemma env_onlyE:
  assumes "env_only m"
  obtains r b w where "m s = (r, s\<lparr>mem_ok := b, env := w\<rparr>)"
  using assms that unfolding env_only_def by (metis prod.collapse)

lemma env_only_attempt [env_only_intro]:
  assumes "env_only m" and "\<And>r. env_only (k r)"
  shows "env_only (attempt m k)"
  unfolding env_only_def
proof
  fix s
  obtain r b w where m: "m s = (r, s\<lparr>mem_ok := b, env := w\<rparr>)" using assms(1) by (rule env_onlyE)
  obtain r' b' w' where k: "k r (s\<lparr>mem_ok := b, env := w\<rparr>) =
      (r', s\<lparr>mem_ok := b, env := w\<rparr>\<lparr>mem_ok := b', env := w'\<rparr>)" using assms(2) by (rule env_onlyE)
  from m k have "snd (attempt m k s) = s\<lparr>mem_ok := b', env := w'\<rparr>" by (simp add: attempt_def)
  then show "\<exists>b w. snd (attempt m k s) = s\<lparr>mem_ok := b, env := w\<rparr>" by blast
qed

lemma CR_attempt: "CR m k = attempt m (\<lambda>r. case r of Inl e \<Rightarrow> fail e | Inr a \<Rightarrow> k a)"
  by (rule ext) (simp add: CR_def attempt_def run_simps split: prod.split sum.split)

lemma env_only_CR [env_only_intro]:
  assumes "env_only m" and "\<And>a. env_only (k a)"
  shows "env_only (CR m k)"
proof -
  have "env_only (case r of Inl e \<Rightarrow> fail e | Inr a \<Rightarrow> k a)" for r
    by (cases r) (simp_all add: assms env_only_basic)
  with assms(1) show ?thesis unfolding CR_attempt by (rule env_only_attempt)
qed

lemma env_only_split [env_only_intro]:
  "(b \<Longrightarrow> env_only m) \<Longrightarrow> (\<not> b \<Longrightarrow> env_only n) \<Longrightarrow> env_only (if b then m else n)"
  by simp

lemma env_only_case_prod [env_only_intro]:
  "(\<And>a b. x = (a, b) \<Longrightarrow> env_only (f a b)) \<Longrightarrow> env_only (case x of (a, b) \<Rightarrow> f a b)"
  by (cases x) simp_all

lemma env_only_case_option [env_only_intro]:
  "(y = None \<Longrightarrow> env_only m) \<Longrightarrow> (\<And>a. y = Some a \<Longrightarrow> env_only (g a)) \<Longrightarrow>
   env_only (case y of None \<Rightarrow> m | Some a \<Rightarrow> g a)"
  by (cases y) simp_all

lemma env_only_case_sum [env_only_intro]:
  "(\<And>a. z = Inl a \<Longrightarrow> env_only (h a)) \<Longrightarrow> (\<And>a. z = Inr a \<Longrightarrow> env_only (h' a)) \<Longrightarrow>
   env_only (case z of Inl a \<Rightarrow> h a | Inr a \<Rightarrow> h' a)"
  by (cases z) simp_all

lemma env_only_case_access [env_only_intro]:
  "(t = GP_FILE_ACCESSTYPE_MEMORY \<Longrightarrow> env_only a) \<Longrightarrow> (t = GP_FILE_ACCESSTYPE_FD \<Longrightarrow> env_only b) \<Longrightarrow>
   (t = GP_FILE_ACCESSTYPE_HANDLER \<Longrightarrow> env_only c) \<Longrightarrow>
   env_only (case t of GP_FILE_ACCESSTYPE_MEMORY \<Rightarrow> a | GP_FILE_ACCESSTYPE_FD \<Rightarrow> b | GP_FILE_ACCESSTYPE_HANDLER \<Rightarrow> c)"
  by (cases t) simp_all

lemma env_only_loops [env_only_intro]:
  "env_only (write_loop os d bs)" "env_only (read_loop os d n acc)" "env_only (write_block os d bs)"
  "env_only (fd_copy_loop fuel os src dst)" "env_only (handler_write_loop h bs)" "env_only (fd_size os d)"
proof -
  show "env_only (write_loop os d bs)"
  proof (induction os d bs rule: write_loop.induct)
    case (1 os d bs)
    show ?case by (subst write_loop.simps) (intro env_only_intro 1; assumption)
  qed
  show "env_only (read_loop os d n acc)"
  proof (induction os d n acc rule: read_loop.induct)
    case (1 os d n acc)
    show ?case by (subst read_loop.simps) (intro env_only_intro 1; (assumption | simp))
  qed
  show wb: "env_only (write_block os d bs)" for d bs
  proof (induction os d bs rule: write_block.induct)
    case (1 os d bs)
    show ?case by (subst write_block.simps) (intro env_only_intro 1; assumption)
  qed
  show "env_only (fd_copy_loop fuel os src dst)"
    by (induction fuel) (auto intro!: env_only_intro wb)
  show "env_only (handler_write_loop h bs)"
  proof (induction h bs rule: handler_write_loop.induct)
    case (1 h bs)
    show ?case by (subst handler_write_loop.simps) (intro env_only_intro 1; (assumption | simp))
  qed
  show "env_only (fd_size os d)" unfolding fd_size_def by (intro env_only_intro)
qed


lemma env_only_settle [env_only_intro]: "env_only m \<Longrightarrow> env_only (settle d m)"
  unfolding settle_def by (intro env_only_intro)

lemma env_only_file [env_only_intro]:
  "env_only (gp_file_copy fuel os d f)" "env_only (gp_file_get_data_and_size os f want)"
  "env_only (gp_file_free os f)" "env_only (gp_file_unref os f)"
proof -
  show "env_only (gp_file_copy fuel os d f)"
    unfolding gp_file_copy_def Let_def
    by (cases "accesstype d"; cases "accesstype f"; simp only: CameraFile.simps CameraFileAccessType.case prod.case;
      intro env_only_intro)
  show "env_only (gp_file_get_data_and_size os f want)"
    unfolding gp_file_get_data_and_size_def by (intro env_only_intro)
  show free: "env_only (gp_file_free os f)" for f
    unfolding gp_file_free_def Let_def by (intro env_only_intro)
  show "env_only (gp_file_unref os f)"
    unfolding gp_file_unref_def Let_def by (intro env_only_intro free)
qed

text \<open>A property of all results of a computation.\<close>

definition results :: "(('s, 'a) gpm) \<Rightarrow> ('a \<Rightarrow> bool) \<Rightarrow> bool" where
  "results m P \<longleftrightarrow> (\<forall>s a t. m s = (Inr a, t) \<longrightarrow> P a)"

lemma resultsD: "results m P \<Longrightarrow> m s = (Inr a, t) \<Longrightarrow> P a"
  unfolding results_def by blast

lemma results_basic: "P a \<Longrightarrow> results (ok a) P" "results (fail e) P"
  by (auto simp: results_def run_simps)

lemma results_CR:
  "(\<And>a. results (k a) P) \<Longrightarrow> results (CR m k) P"
  unfolding results_def by (auto simp: CR_eq_Inr)

lemma results_attempt:
  "(\<And>r. results (k r) P) \<Longrightarrow> results (attempt m k) P"
  unfolding results_def by (auto simp: attempt_eq)

lemma results_settle:
  assumes "\<And>e. P (e, d)" and m: "results m (\<lambda>d'. P (GP_OK, d'))"
  shows "results (settle d m) P"
  unfolding results_def
proof (intro allI impI)
  fix s x t assume "settle d m s = (Inr x, t)"
  then obtain r u where r: "m s = (r, u)" and k: "(case r of
     Inl e \<Rightarrow> if e = UNDEFINED then fail UNDEFINED else ok (e, d)
   | Inr d' \<Rightarrow> ok (GP_OK, d')) u = (Inr x, t)"
    unfolding settle_def attempt_eq by blast
  show "P x"
  proof (cases r)
    case (Inl e)
    with k assms(1) show ?thesis by (auto simp: run_simps split: if_splits)
  next
    case (Inr d')
    with r have "P (GP_OK, d')" using resultsD [OF m] by simp
    with Inr k show ?thesis by (simp add: run_simps)
  qed
qed

text \<open>A copy, whatever its outcome, leaves the reference count and the place of the data alone.\<close>

lemma copy_results:
  "results (gp_file_copy fuel os d f) (\<lambda>(ret, d'). cf_ref_count d' = cf_ref_count d \<and> accesstype d' = accesstype d)"
  unfolding gp_file_copy_def Let_def
  by (cases "accesstype d"; cases "accesstype f")
    (auto intro!: results_basic results_CR results_attempt results_settle split: option.split sum.split)

section \<open>Descriptors\<close>

text \<open>
  What \<open>write\<close> does to what has been written (\<open>out d\<close> of the environment) and \<open>read\<close> to what is still to be
  read (\<open>inp d\<close>): it may take or give fewer bytes than asked for, none at all, or fail.
\<close>

definition write_contract :: "'w os \<Rightarrow> (int \<Rightarrow> 'w \<Rightarrow> byte list) \<Rightarrow> bool" where
  "write_contract os out \<longleftrightarrow> (\<forall>d bs w n w'. os_write os d bs w = (n, w') \<longrightarrow>
     -1 \<le> n \<and> n \<le> int (length bs) \<and> out d w' = out d w @ take (nat n) bs)"

definition read_contract :: "'w os \<Rightarrow> (int \<Rightarrow> 'w \<Rightarrow> byte list) \<Rightarrow> bool" where
  "read_contract os inp \<longleftrightarrow> (\<forall>d k w n bs w'. os_read os d k w = ((n, bs), w') \<longrightarrow>
     -1 \<le> n \<and> n \<le> int k \<and> bs = take (nat n) (inp d w) \<and> nat n \<le> length (inp d w) \<and> inp d w' = drop (nat n) (inp d w))"

lemma wp_write_loop:
  assumes "write_contract os out"
  shows "wp (write_loop os d bs)
    (\<lambda>_ t. out d (env t) = out d (env s) @ bs)
    (\<lambda>e t. e = GP_ERROR_IO_WRITE \<and> (\<exists>k<length bs. out d (env t) = out d (env s) @ take k bs)) s"
  using assms
proof (induction os d bs arbitrary: s rule: write_loop.induct)
  case (1 os d bs)
  obtain n w where w: "os_write os d bs (env s) = (n, w)" by fastforce
  with 1(2) have n: "-1 \<le> n" "n \<le> int (length bs)" "out d w = out d (env s) @ take (nat n) bs"
    unfolding write_contract_def by blast+
  show ?case
  proof (cases "bs = [] \<or> n = -1 \<or> n \<le> 0")
    case True
    then show ?thesis using n w by (subst write_loop.simps) auto
  next
    case False
    then have ne: "bs \<noteq> []" "n \<noteq> -1" "\<not> n \<le> 0" by auto
    have "wp (write_loop os d (drop (nat n) bs))
      (\<lambda>_ t. out d (env t) = out d (env s) @ bs)
      (\<lambda>e t. e = GP_ERROR_IO_WRITE \<and> (\<exists>k<length bs. out d (env t) = out d (env s) @ take k bs)) (s\<lparr>env := w\<rparr>)"
    proof (rule wp_mono [OF 1(1) [OF ne 1(2)]])
      fix a and t :: "('a, 'b) world_scheme"
      assume "out d (env t) = out d (env (s\<lparr>env := w\<rparr>)) @ drop (nat n) bs"
      with n show "out d (env t) = out d (env s) @ bs" by simp
    next
      fix e and t :: "('a, 'b) world_scheme"
      assume "e = GP_ERROR_IO_WRITE \<and>
        (\<exists>k<length (drop (nat n) bs). out d (env t) = out d (env (s\<lparr>env := w\<rparr>)) @ take k (drop (nat n) bs))"
      then obtain k where k: "e = GP_ERROR_IO_WRITE" "k < length bs - nat n"
        "out d (env t) = out d (env s) @ take (nat n) bs @ take k (drop (nat n) bs)" using n by auto
      then show "e = GP_ERROR_IO_WRITE \<and> (\<exists>k<length bs. out d (env t) = out d (env s) @ take k bs)"
        by (intro conjI exI [of _ "nat n + k"]) (auto simp: take_add)
    qed
    with ne w show ?thesis by (subst write_loop.simps) simp
  qed
qed

lemma wp_read_loop:
  assumes "read_contract os inp"
  shows "wp (read_loop os d n acc)
    (\<lambda>bs t. n \<le> length (inp d (env s)) \<and> bs = acc @ take n (inp d (env s)) \<and> inp d (env t) = drop n (inp d (env s)))
    (\<lambda>e t. e = GP_ERROR_IO_READ) s"
  using assms
proof (induction os d n acc arbitrary: s rule: read_loop.induct)
  case (1 os d n acc)
  obtain r bs w where w: "os_read os d n (env s) = ((r, bs), w)" by (metis surj_pair)
  with 1(2) have r: "-1 \<le> r" "r \<le> int n" "bs = take (nat r) (inp d (env s))" "nat r \<le> length (inp d (env s))"
    "inp d w = drop (nat r) (inp d (env s))"
    unfolding read_contract_def by blast+
  show ?case
  proof (cases "n = 0 \<or> r = -1 \<or> r \<le> 0")
    case True
    then show ?thesis using r w by (subst read_loop.simps) auto
  next
    case False
    then have ne: "n \<noteq> 0" "r \<noteq> -1" "\<not> r \<le> 0" by auto
    have "wp (read_loop os d (n - nat r) (acc @ take (nat r) bs))
      (\<lambda>bs t. n \<le> length (inp d (env s)) \<and> bs = acc @ take n (inp d (env s)) \<and> inp d (env t) = drop n (inp d (env s)))
      (\<lambda>e t. e = GP_ERROR_IO_READ) (s\<lparr>env := w\<rparr>)"
    proof (rule wp_mono [OF 1(1) [OF ne 1(2)]])
      fix b and t :: "('a, 'b) world_scheme"
      assume b: "n - nat r \<le> length (inp d (env (s\<lparr>env := w\<rparr>))) \<and>
        b = (acc @ take (nat r) bs) @ take (n - nat r) (inp d (env (s\<lparr>env := w\<rparr>))) \<and>
        inp d (env t) = drop (n - nat r) (inp d (env (s\<lparr>env := w\<rparr>)))"
      have n: "n = nat r + (n - nat r)" using r(2) by simp
      have "take n (inp d (env s)) = take (nat r) (inp d (env s)) @ take (n - nat r) (drop (nat r) (inp d (env s)))"
        by (subst n) (simp only: take_add)
      moreover have "n \<le> length (inp d (env s))"
      proof -
        from b r(5) have "n - nat r \<le> length (inp d (env s)) - nat r" by simp
        with r(4) show ?thesis by linarith
      qed
      ultimately show "n \<le> length (inp d (env s)) \<and> b = acc @ take n (inp d (env s)) \<and> inp d (env t) = drop n (inp d (env s))"
        using b r n by simp
    qed simp
    with ne w show ?thesis by (subst read_loop.simps) simp
  qed
qed

text \<open>
  A system that writes and reads at most two bytes at a time; its environment is the bytes written so far and
  those still to be read.
\<close>

definition slow_os :: "(byte list \<times> byte list) os" where
  "slow_os = \<lparr>os_write = \<lambda>_ bs (o', i). (int (min 2 (length bs)), (o' @ take 2 bs, i)),
     os_read = \<lambda>_ k (o', i). ((int (min (min 2 k) (length i)), take (min 2 k) i), (o', drop (min 2 k) i)),
     os_lseek = \<lambda>_ _ _ w. (0, w), os_ebadf = \<lambda>_. False, os_ftruncate = \<lambda>_ w. (0, w), os_close = \<lambda>_ w. w\<rparr>"

lemma slow_os_contract:
  "write_contract slow_os (\<lambda>_. fst)" "read_contract slow_os (\<lambda>_. snd)"
  by (auto simp: write_contract_def read_contract_def slow_os_def min_def split: if_splits)

definition slow_world :: "(byte list \<times> byte list) world" where
  "slow_world = \<lparr>mem_ok = [], env = ([], [4, 5, 6])\<rparr>"

definition fd_file :: "int \<Rightarrow> 'w CameraFile" where
  "fd_file d = (blank_file GP_FILE_ACCESSTYPE_FD)\<lparr>fd := d\<rparr>"

text \<open>C11: Writing to a descriptor file delivers everything: however few bytes each \<open>write\<close> takes, \<open>gp_file_append\<close> succeeds only after all bytes
  went out, in order and once; when the system fails or takes nothing the result is \<open>GP_ERROR_IO_WRITE\<close> and a proper
  prefix went out.\<close>
theorem fd_append_delivers:
  assumes "write_contract os out" and "accesstype f = GP_FILE_ACCESSTYPE_FD"
  shows "\<exists>r t. gp_file_append os f bs s = (r, t) \<and>
    (r = Inr f \<and> out (fd f) (env t) = out (fd f) (env s) @ bs \<or>
     r = Inl GP_ERROR_IO_WRITE \<and> (\<exists>k<length bs. out (fd f) (env t) = out (fd f) (env s) @ take k bs))"
proof -
  have "wp (gp_file_append os f bs) (\<lambda>a t. a = f \<and> out (fd f) (env t) = out (fd f) (env s) @ bs)
      (\<lambda>e t. e = GP_ERROR_IO_WRITE \<and> (\<exists>k<length bs. out (fd f) (env t) = out (fd f) (env s) @ take k bs)) s"
    unfolding gp_file_append_def using assms(2)
    by (auto intro: wp_mono [OF wp_write_loop [OF assms(1), where d = "fd f" and bs = bs and s = s]])
  then show ?thesis by (auto dest!: wp_run_ex split: sum.splits)
qed

theorem fd_append_delivers_witness:
  "write_contract slow_os (\<lambda>_. fst) \<and>
   (\<exists>t. gp_file_append slow_os (fd_file 3) [1, 2, 3] slow_world = (Inr (fd_file 3), t) \<and> fst (env t) = [1, 2, 3])"
proof -
  have "\<not> isl (fst (gp_file_append slow_os (fd_file 3) [1, 2, 3] slow_world))"
    by code_simp
  with fd_append_delivers [OF slow_os_contract(1), of "fd_file 3" "[1, 2, 3]" slow_world] slow_os_contract(1) show ?thesis
    by (auto simp: fd_file_def blank_file_def slow_world_def)
qed

text \<open>Reading from a descriptor file gives exactly what was asked for: however few bytes each \<open>read\<close> gives, a successful
  \<open>gp_file_slurp\<close> of \<open>n\<close> bytes returns the next \<open>n\<close> bytes of the descriptor and consumes just these; otherwise the
  result is \<open>GP_ERROR_IO_READ\<close>.\<close>
lemma fd_slurp_exact:
  assumes "read_contract os inp" and "accesstype f = GP_FILE_ACCESSTYPE_FD"
  shows "\<exists>r t. gp_file_slurp os f n s = (r, t) \<and>
    (r = Inr (take n (inp (fd f) (env s)), f) \<and> n \<le> length (inp (fd f) (env s)) \<and> inp (fd f) (env t) = drop n (inp (fd f) (env s)) \<or>
     r = Inl GP_ERROR_IO_READ)"
proof -
  have "wp (gp_file_slurp os f n)
      (\<lambda>a t. a = (take n (inp (fd f) (env s)), f) \<and> n \<le> length (inp (fd f) (env s)) \<and> inp (fd f) (env t) = drop n (inp (fd f) (env s)))
      (\<lambda>e t. e = GP_ERROR_IO_READ) s"
    unfolding gp_file_slurp_def using assms(2)
    by (auto intro: wp_mono [OF wp_read_loop [OF assms(1), where d = "fd f" and n = n and acc = "[]" and s = s]])
  then show ?thesis by (auto dest!: wp_run_ex split: sum.splits)
qed

section \<open>Memory files\<close>

definition mem_file :: "'w CameraFile \<Rightarrow> bool" where
  "mem_file f \<longleftrightarrow> accesstype f = GP_FILE_ACCESSTYPE_MEMORY \<and>
     (case data f of None \<Rightarrow> cf_size f = 0 | Some d \<Rightarrow> cf_size f = length d)"

definition contents :: "'w CameraFile \<Rightarrow> byte list" where
  "contents f = (case data f of None \<Rightarrow> [] | Some d \<Rightarrow> d)"

lemma mem_file_blank: "mem_file (blank_file GP_FILE_ACCESSTYPE_MEMORY)" "contents (blank_file GP_FILE_ACCESSTYPE_MEMORY) = []"
  by (simp_all add: mem_file_def blank_file_def contents_def)

text \<open>A writer that appends block after block, a reader that takes pieces of the sizes it wants.\<close>

fun append_blocks :: "'w os \<Rightarrow> 'w CameraFile \<Rightarrow> byte list list \<Rightarrow> (('w, 'x) world_scheme, 'w CameraFile) gpm" where
  "append_blocks os f [] = ok f"
| "append_blocks os f (b # bs) = CR (gp_file_append os f b) (\<lambda>f. append_blocks os f bs)"

fun slurp_pieces :: "'w os \<Rightarrow> 'w CameraFile \<Rightarrow> nat list \<Rightarrow> (('w, 'x) world_scheme, byte list list \<times> 'w CameraFile) gpm" where
  "slurp_pieces os f [] = ok ([], f)"
| "slurp_pieces os f (n # ns) = CR (gp_file_slurp os f n) (\<lambda>(b, f).
     CR (slurp_pieces os f ns) (\<lambda>(bs, f). ok (b # bs, f)))"

lemma append_mem:
  assumes "mem_file f" and "mem_ok s = []"
  shows "\<exists>f'. gp_file_append os f b s = (Inr f', s) \<and> mem_file f' \<and> contents f' = contents f @ b \<and>
    offset f' = offset f \<and> cf_name f' = cf_name f \<and> mime_type f' = mime_type f"
  using assms
  by (cases "data f") (simp_all add: gp_file_append_def mem_file_def contents_def attempt_def CR_def run_simps)

lemma append_blocks_mem:
  assumes "mem_file f" and "mem_ok s = []"
  shows "\<exists>f'. append_blocks os f bs s = (Inr f', s) \<and> mem_file f' \<and> contents f' = contents f @ concat bs \<and> offset f' = offset f"
  using assms
proof (induction bs arbitrary: f)
  case (Cons b bs)
  from append_mem [OF Cons.prems, of os b] obtain f1 where f1: "gp_file_append os f b s = (Inr f1, s)" "mem_file f1"
    "contents f1 = contents f @ b" "offset f1 = offset f" by blast
  from Cons.IH [OF f1(2) Cons.prems(2)] f1 show ?case by auto
qed (simp add: run_simps)

lemma slurp_mem:
  assumes "mem_file f" and "offset f \<le> length (contents f)" and "length (contents f) < 2 ^ 64"
  shows "gp_file_slurp os f n s = (Inr (take n (drop (offset f) (contents f)),
      f\<lparr>offset := offset f + min n (length (contents f) - offset f)\<rparr>), s)"
proof -
  have len: "cf_size f = length (contents f)" using assms(1) by (auto simp: mem_file_def contents_def split: option.splits)
  have room: "room_left f = length (contents f) - offset f"
  proof -
    have e: "int (length (contents f)) - int (offset f) = int (length (contents f) - offset f)" using assms(2) by simp
    have "length (contents f) - offset f < 2 ^ 64" using assms(3) by linarith
    then have "int (length (contents f) - offset f) mod 2 ^ 64 = int (length (contents f) - offset f)"
      by (metis mod_less of_nat_mod of_nat_numeral of_nat_power)
    then show ?thesis unfolding room_left_def len e by simp
  qed
  have acc: "accesstype f = GP_FILE_ACCESSTYPE_MEMORY" using assms(1) by (simp add: mem_file_def)
  show ?thesis
  proof (cases "n \<le> length (contents f) - offset f")
    case True
    then have "\<not> length (contents f) < offset f + n" using assms(2) by linarith
    with True acc room show ?thesis
      by (simp add: gp_file_slurp_def Let_def run_simps flip: contents_def)
  next
    case False
    with acc room assms(2) show ?thesis
      by (simp add: gp_file_slurp_def Let_def run_simps flip: contents_def)
  qed
qed

lemma slurp_pieces_mem:
  assumes "mem_file f" and "offset f \<le> length (contents f)" and "length (contents f) < 2 ^ 64"
  shows "\<exists>ps f'. slurp_pieces os f ns s = (Inr (ps, f'), s) \<and>
    concat ps = take (sum_list ns) (drop (offset f) (contents f)) \<and> length ps = length ns"
  using assms
proof (induction ns arbitrary: f)
  case Nil
  then show ?case by (simp add: run_simps)
next
  case (Cons n ns)
  let ?k = "min n (length (contents f) - offset f)"
  let ?g = "f\<lparr>offset := offset f + ?k\<rparr>"
  have g: "mem_file ?g" "contents ?g = contents f" "offset ?g \<le> length (contents ?g)"
    using Cons.prems by (simp_all add: mem_file_def contents_def cong: option.case_cong)
  from Cons.IH [OF g(1,3)] Cons.prems(3) g(2) obtain ps f' where
    r: "slurp_pieces os ?g ns s = (Inr (ps, f'), s)" "concat ps = take (sum_list ns) (drop (offset ?g) (contents f))"
      "length ps = length ns" by auto
  have sl: "gp_file_slurp os f n s = (Inr (take n (drop (offset f) (contents f)), ?g), s)"
    by (rule slurp_mem [OF Cons.prems])
  have "slurp_pieces os f (n # ns) s = (Inr (take n (drop (offset f) (contents f)) # ps, f'), s)"
    using sl r(1) by (simp add: run_simps)
  moreover have "take n (drop (offset f) (contents f)) @ take (sum_list ns) (drop (offset ?g) (contents f)) =
      take (n + sum_list ns) (drop (offset f) (contents f))"
    by (cases "n \<le> length (contents f) - offset f") (simp_all add: take_add add.commute)
  ultimately show ?case using r(2,3) by simp
qed

text \<open>C9: A memory file is a stream: after any number of \<open>gp_file_append\<close> calls the content is the old one followed by all blocks in order, which
  \<open>gp_file_get_data_and_size\<close> returns with its length, and \<open>gp_file_slurp\<close> hands it out from the read pointer on piece by piece,
  nothing lost, doubled or invented, whatever sizes the reader asks for.\<close>
theorem mem_stream:
  assumes "mem_file f" and "mem_ok s = []" and "offset f \<le> length (contents f)"
    and "length (contents f) + sum_list (map length bs) < 2 ^ 64"
  shows "\<exists>f' ps f''. append_blocks os f bs s = (Inr f', s) \<and>
    gp_file_get_data_and_size os f' False s = (Inr (None, length (contents f @ concat bs)), s) \<and>
    contents f' = contents f @ concat bs \<and>
    slurp_pieces os f' ns s = (Inr (ps, f''), s) \<and>
    concat ps = take (sum_list ns) (drop (offset f) (contents f @ concat bs))"
proof -
  from append_blocks_mem [OF assms(1,2), of os bs] obtain f' where f': "append_blocks os f bs s = (Inr f', s)" "mem_file f'"
    "contents f' = contents f @ concat bs" "offset f' = offset f" by blast
  have "length (contents f') < 2 ^ 64" using assms(4) by (simp add: f'(3) length_concat)
  from slurp_pieces_mem [OF f'(2) _ this, of os ns s] f'(3,4) assms(3) obtain ps f'' where
    "slurp_pieces os f' ns s = (Inr (ps, f''), s)" "concat ps = take (sum_list ns) (drop (offset f) (contents f @ concat bs))"
    by auto
  moreover have "gp_file_get_data_and_size os f' False s = (Inr (None, length (contents f @ concat bs)), s)"
    using f'(2,3) by (auto simp: gp_file_get_data_and_size_def mem_file_def contents_def run_simps split: option.splits)
  ultimately show ?thesis using f'(1,3) by blast
qed

theorem mem_stream_witness:
  "mem_file (blank_file GP_FILE_ACCESSTYPE_MEMORY) \<and>
   (\<exists>f' ps f''. append_blocks slow_os (blank_file GP_FILE_ACCESSTYPE_MEMORY) [[1, 2], [3, 4]] slow_world = (Inr f', slow_world) \<and>
      slurp_pieces slow_os f' [3, 5] slow_world = (Inr (ps, f''), slow_world) \<and> concat ps = [1, 2, 3, 4])"
proof -
  let ?f = "blank_file GP_FILE_ACCESSTYPE_MEMORY :: (byte list \<times> byte list) CameraFile"
  have h: "mem_ok slow_world = []" "offset ?f \<le> length (contents ?f)"
    "length (contents ?f) + sum_list (map length [[1 :: byte, 2], [3, 4]]) < 2 ^ 64"
    by (simp_all add: slow_world_def mem_file_blank) (simp add: blank_file_def)
  have d: "take (sum_list [3, 5]) (drop (offset ?f) (contents ?f @ concat [[1 :: byte, 2], [3, 4]])) = [1, 2, 3, 4]"
    by (simp add: mem_file_blank) (simp add: blank_file_def)
  from mem_stream [OF mem_file_blank(1) h, of slow_os "[3, 5]"] show ?thesis
    unfolding d using mem_file_blank(1) by blast
qed

text \<open>The read pointer is not reset by \<open>gp_file_set_data_and_size\<close>: after reading a file to its end and replacing its data by shorter
  ones, the room left wraps around and the next \<open>gp_file_slurp\<close> reads behind the buffer.\<close>
lemma stale_offset_overread:
  "fst (CR (gp_file_set_data_and_size slow_os (blank_file GP_FILE_ACCESSTYPE_MEMORY) (Some [1, 2, 3, 4]))
     (\<lambda>f. CR (gp_file_slurp slow_os f 4)
     (\<lambda>(bs, f). CR (gp_file_set_data_and_size slow_os f (Some [5, 6]))
     (\<lambda>f. gp_file_slurp slow_os f 1))) slow_world) = Inl UNDEFINED"
  by (simp add: gp_file_set_data_and_size_def gp_file_slurp_def blank_file_def room_left_def CR_def run_simps Let_def)

text \<open>\<open>gp_file_copy\<close> between memory files gives the destination the name, type, time and an own copy of the content of the source and leaves its
  reference count alone; when the buffer cannot be allocated it reports \<open>GP_ERROR_NO_MEMORY\<close> and the destination has no
  data.\<close>
lemma mem_copy:
  assumes "mem_file src" and "accesstype dst = GP_FILE_ACCESSTYPE_MEMORY"
  shows "\<exists>ret d' t. gp_file_copy fuel os dst src s = (Inr (ret, d'), t) \<and> cf_ref_count d' = cf_ref_count dst \<and>
    cf_name d' = cf_name src \<and> mime_type d' = mime_type src \<and> cf_mtime d' = cf_mtime src \<and>
    (ret = GP_OK \<and> mem_file d' \<and> contents d' = contents src \<or>
     ret = GP_ERROR_NO_MEMORY \<and> contents d' = [] \<and> mem_ok s \<noteq> [])"
proof -
  have sz: "take (cf_size src) (case data src of None \<Rightarrow> [] | Some b \<Rightarrow> b) = contents src" "cf_size src = length (contents src)"
    using assms(1) by (auto simp: mem_file_def contents_def split: option.splits)
  show ?thesis
  proof (cases "mem_ok s")
    case Nil
    with assms sz show ?thesis
      by (auto simp: gp_file_copy_def settle_def attempt_def CR_def malloc_def run_simps mem_file_def Let_def contents_def split: option.splits)
  next
    case (Cons b bs)
    with assms sz show ?thesis
      by (auto simp: gp_file_copy_def settle_def attempt_def CR_def malloc_def run_simps mem_file_def Let_def contents_def
          UNDEFINED_def GP_ERROR_NO_MEMORY_def split: option.splits)
  qed
qed

section \<open>Names\<close>

lemma last_split:
  assumes "c \<notin> set y"
  shows "before_last c (x @ c # y) = x" and "after_last c (x @ c # y) = y"
proof -
  have "takeWhile (\<lambda>z. z \<noteq> c) (rev y @ c # rev x) = rev y" using assms by (subst takeWhile_append2) auto
  then show "after_last c (x @ c # y) = y" by (simp add: after_last_def)
  have "dropWhile (\<lambda>z. z \<noteq> c) (rev y @ c # rev x) = c # rev x" using assms by (subst dropWhile_append2) auto
  then show "before_last c (x @ c # y) = x" by (simp add: before_last_def)
qed

lemma last_split_unique:
  assumes "x @ (c :: char) # y = x' @ c # y'" and "c \<notin> set y" and "c \<notin> set y'"
  shows "x = x' \<and> y = y'"
  using last_split [OF assms(2), of x] last_split [OF assms(3), of x'] assms(1) by metis

lemma type_prefix_inj: "type_prefix t = type_prefix t' \<Longrightarrow> t = t'"
  by (cases t; cases t') simp_all

lemma mime_table_suffixes: "find p mime_table = Some (sf, mm) \<Longrightarrow> CHR ''.'' \<notin> set sf"
proof -
  assume "find p mime_table = Some (sf, mm)"
  then have "(sf, mm) \<in> set mime_table" by (metis find_Some_iff nth_mem)
  moreover have "\<forall>(sf, mm)\<in>set mime_table. CHR ''.'' \<notin> set sf" by (simp add: mime_table_def)
  ultimately show ?thesis by auto
qed

text \<open>The suffix of a view's name, and the name of every view but the normal one of a name with a dot.\<close>

definition view_suffix :: "'w CameraFile \<Rightarrow> string \<Rightarrow> string" where
  "view_suffix f b = (case map_option fst (find (\<lambda>(_, mime). mime = mime_type f) mime_table) of
     Some x \<Rightarrow> x | None \<Rightarrow> after_last CHR ''.'' b)"

lemma view_suffix_no_dot: "CHR ''.'' \<notin> set (view_suffix f b)"
proof (cases "find (\<lambda>(_, mime). mime = mime_type f) mime_table")
  case None
  then show ?thesis by (simp add: view_suffix_def after_last_notin)
next
  case (Some x)
  then show ?thesis by (cases x) (auto simp: view_suffix_def dest: mime_table_suffixes)
qed

lemma name_by_type_dot:
  assumes "CHR ''.'' \<in> set b" and "gp_file_get_name_by_type f b t s = (Inr n, s')"
  shows "n = (if t = GP_FILE_TYPE_NORMAL then b else type_prefix t @ before_last CHR ''.'' b @ CHR ''.'' # view_suffix f b)"
  using assms by (auto simp: gp_file_get_name_by_type_def view_suffix_def CR_eq_Inr run_simps Let_def split: if_splits option.splits)

definition view_tail :: "'w CameraFile \<Rightarrow> string" where
  "view_tail f = (case map_option fst (find (\<lambda>(_, mime). mime = mime_type f) mime_table) of
     Some x \<Rightarrow> if x = [] then [] else ''.'' @ x | None \<Rightarrow> [])"

lemma name_by_type_no_dot:
  assumes "CHR ''.'' \<notin> set b" and "gp_file_get_name_by_type f b t s = (Inr n, s')"
  shows "n = type_prefix t @ b @ view_tail f"
  using assms by (auto simp: gp_file_get_name_by_type_def view_tail_def CR_eq_Inr run_simps Let_def)

text \<open>The views of one file get different names: for one file and base name \<open>gp_file_get_name_by_type\<close> never gives the same name for two
  different types, so no downloaded view overwrites another; the normal view of a name with a suffix keeps the
  name.\<close>
lemma view_names_distinct:
  assumes "gp_file_get_name_by_type f b t s = (Inr n, s')" and "gp_file_get_name_by_type f b t' s = (Inr n', s'')"
  shows "(n = n' \<longleftrightarrow> t = t') \<and> (t = GP_FILE_TYPE_NORMAL \<and> CHR ''.'' \<in> set b \<longrightarrow> n = b)"
proof (cases "CHR ''.'' \<in> set b")
  case True
  let ?st = "before_last CHR ''.'' b" and ?sf = "view_suffix f b"
  note n = name_by_type_dot [OF True assms(1)] name_by_type_dot [OF True assms(2)]
  have b: "b = ?st @ CHR ''.'' # after_last CHR ''.'' b" by (rule split_last [OF True])
  have pre: "b \<noteq> type_prefix u @ ?st @ CHR ''.'' # ?sf" if "u \<noteq> GP_FILE_TYPE_NORMAL" for u
  proof
    assume "b = type_prefix u @ ?st @ CHR ''.'' # ?sf"
    with b have "?st @ CHR ''.'' # after_last CHR ''.'' b = (type_prefix u @ ?st) @ CHR ''.'' # ?sf" by simp
    from last_split_unique [OF this after_last_notin view_suffix_no_dot] have "type_prefix u = []" by simp
    then have "type_prefix u = type_prefix GP_FILE_TYPE_NORMAL" by simp
    with that type_prefix_inj show False by blast
  qed
  show ?thesis using n pre type_prefix_inj by (auto split: if_splits) (metis pre)+
next
  case False
  from name_by_type_no_dot [OF False assms(1)] name_by_type_no_dot [OF False assms(2)]
  have "n = type_prefix t @ b @ view_tail f" "n' = type_prefix t' @ b @ view_tail f" by simp_all
  with False type_prefix_inj show ?thesis by auto
qed

lemma suffix_table_no_dot: "map_of suffix_table m = Some x \<Longrightarrow> CHR ''.'' \<notin> set x \<and> x \<noteq> []"
proof -
  assume "map_of suffix_table m = Some x"
  then have "(m, x) \<in> set suffix_table" by (rule map_of_SomeD)
  moreover have "\<forall>(m, x)\<in>set suffix_table. CHR ''.'' \<notin> set x \<and> x \<noteq> []" by (simp add: suffix_table_def)
  ultimately show ?thesis by auto
qed

text \<open>\<open>gp_file_adjust_name_for_mime_type\<close> on a name with a suffix replaces what stands behind the last dot by the suffix of the type and keeps the
  rest, so adjusting twice is adjusting once; on a name without a dot it appends the bare suffix, every time again.\<close>
lemma adjust_name:
  assumes "map_of suffix_table (mime_type f) = Some x"
  shows "(CHR ''.'' \<in> set (cf_name f) \<longrightarrow>
       cf_name (gp_file_adjust_name_for_mime_type f) = before_last CHR ''.'' (cf_name f) @ ''.'' @ x \<and>
       gp_file_adjust_name_for_mime_type (gp_file_adjust_name_for_mime_type f) = gp_file_adjust_name_for_mime_type f) \<and>
    (CHR ''.'' \<notin> set (cf_name f) \<longrightarrow>
       cf_name (gp_file_adjust_name_for_mime_type f) = cf_name f @ x \<and>
       cf_name (gp_file_adjust_name_for_mime_type (gp_file_adjust_name_for_mime_type f)) = cf_name f @ x @ x)"
  using assms suffix_table_no_dot [OF assms]
  by (auto simp: gp_file_adjust_name_for_mime_type_def last_split)

definition thumb_file :: "unit CameraFile" where
  "thumb_file = (blank_file GP_FILE_ACCESSTYPE_MEMORY)\<lparr>mime_type := GP_MIME_JPEG, cf_name := ''a.thm''\<rparr>"

end
