(* ===== verification/Gp_Fs_Data.thy ===== *)
theory Gp_Fs_Data imports Gp_List Gp_File begin

text \<open>
  The state of gphoto2-filesys.c: the tree of folders, the file nodes with the links of the
  LRU list and the cached file objects, the functions of the camera driver, and the elementary steps on
  them (following a pointer, writing a field, dropping a reference).

  A \<open>CameraFilesystemFolder *\<close>, a \<open>CameraFilesystemFile *\<close> and a \<open>CameraFile *\<close> are
  numbers. Folders are owned by their parent alone, so the chains \<open>folders\<close>/\<open>next\<close> are a tree of
  HOL lists in which a folder is found by its number; file nodes are linked twice (in
  their folder and in the LRU list) and file objects are shared with the front-end, so both live
  in a store. A number that is in no tree and no store is a dangling pointer, and
  following it is \<open>UNDEFINED\<close>.
\<close>

unbundle bit_operations_syntax

section \<open>File information\<close>

definition GP_FILE_INFO_TYPE :: "32 word" where "GP_FILE_INFO_TYPE = 1"
definition GP_FILE_INFO_SIZE :: "32 word" where "GP_FILE_INFO_SIZE = 4"
definition GP_FILE_INFO_WIDTH :: "32 word" where "GP_FILE_INFO_WIDTH = 8"
definition GP_FILE_INFO_HEIGHT :: "32 word" where "GP_FILE_INFO_HEIGHT = 16"
definition GP_FILE_INFO_PERMISSIONS :: "32 word" where "GP_FILE_INFO_PERMISSIONS = 32"
definition GP_FILE_INFO_STATUS :: "32 word" where "GP_FILE_INFO_STATUS = 64"
definition GP_FILE_INFO_MTIME :: "32 word" where "GP_FILE_INFO_MTIME = 128"

lemmas info_flags =
  GP_FILE_INFO_TYPE_def GP_FILE_INFO_SIZE_def GP_FILE_INFO_WIDTH_def GP_FILE_INFO_HEIGHT_def
  GP_FILE_INFO_PERMISSIONS_def GP_FILE_INFO_STATUS_def GP_FILE_INFO_MTIME_def

record CameraFileInfoAudio =
  i_fields :: "32 word"
  i_status :: "32 word"
  i_size :: "64 word"
  i_type :: string

record CameraFileInfoPreview = CameraFileInfoAudio +
  i_width :: "32 word"
  i_height :: "32 word"

record CameraFileInfoFile = CameraFileInfoPreview +
  permissions :: "32 word"
  i_mtime :: int

record CameraFileInfo =
  i_preview :: CameraFileInfoPreview
  i_file :: CameraFileInfoFile
  i_audio :: CameraFileInfoAudio

text \<open>What \<open>calloc\<close> leaves in the structure.\<close>

definition zero_info :: CameraFileInfo where
  "zero_info = \<lparr>
     i_preview = \<lparr>i_fields = 0, i_status = 0, i_size = 0, i_type = [], i_width = 0, i_height = 0\<rparr>,
     i_file = \<lparr>i_fields = 0, i_status = 0, i_size = 0, i_type = [], i_width = 0, i_height = 0,
               permissions = 0, i_mtime = 0\<rparr>,
     i_audio = \<lparr>i_fields = 0, i_status = 0, i_size = 0, i_type = []\<rparr>\<rparr>"

text \<open>What \<open>gp_filesystem_get_storageinfo\<close> reports of a storage. The members that are enumerations are the numbers themselves.\<close>

record CameraStorageInformation =
  si_fields :: "32 word"
  si_basedir :: string
  si_label :: string
  si_description :: string
  si_type :: "32 word"
  si_fstype :: "32 word"
  si_access :: "32 word"
  si_capacitykbytes :: "64 word"
  si_freekbytes :: "64 word"
  si_freeimages :: "64 word"

section \<open>Folders and file nodes\<close>

datatype folder = Folder
  (fo_id: nat)
  (fo_name: string)
  (files_dirty: bool)
  (folders_dirty: bool)
  (folders: "folder list")
  (files: "nat list")

text \<open>The six cached views are the pointers \<open>preview\<close>, \<open>normal\<close>, \<open>raw\<close>, \<open>audio\<close>, \<open>exif\<close>, \<open>metadata\<close>.\<close>

record CameraFilesystemFile =
  f_name :: string
  info_dirty :: bool
  info :: CameraFileInfo
  lru_prev :: "nat option"
  lru_next :: "nat option"
  preview :: "nat option"
  normal :: "nat option"
  raw :: "nat option"
  audio :: "nat option"
  exif :: "nat option"
  metadata :: "nat option"

definition new_file_node :: "string \<Rightarrow> CameraFilesystemFile" where
  "new_file_node n = \<lparr>f_name = n, info_dirty = True, info = zero_info, lru_prev = None,
     lru_next = None, preview = None, normal = None, raw = None, audio = None, exif = None,
     metadata = None\<rparr>"

fun cached :: "CameraFileType \<Rightarrow> CameraFilesystemFile \<Rightarrow> nat option" where
  "cached GP_FILE_TYPE_PREVIEW x = preview x"
| "cached GP_FILE_TYPE_NORMAL x = normal x"
| "cached GP_FILE_TYPE_RAW x = raw x"
| "cached GP_FILE_TYPE_AUDIO x = audio x"
| "cached GP_FILE_TYPE_EXIF x = exif x"
| "cached GP_FILE_TYPE_METADATA x = metadata x"

fun set_cached :: "CameraFileType \<Rightarrow> nat option \<Rightarrow> CameraFilesystemFile \<Rightarrow> CameraFilesystemFile" where
  "set_cached GP_FILE_TYPE_PREVIEW c x = x\<lparr>preview := c\<rparr>"
| "set_cached GP_FILE_TYPE_NORMAL c x = x\<lparr>normal := c\<rparr>"
| "set_cached GP_FILE_TYPE_RAW c x = x\<lparr>raw := c\<rparr>"
| "set_cached GP_FILE_TYPE_AUDIO c x = x\<lparr>audio := c\<rparr>"
| "set_cached GP_FILE_TYPE_EXIF c x = x\<lparr>exif := c\<rparr>"
| "set_cached GP_FILE_TYPE_METADATA c x = x\<lparr>metadata := c\<rparr>"

section \<open>The driver and the context\<close>

text \<open>
  The functions a camera driver installs, each over the environment state. A list function
  returns the names it appended to the list it was given; \<open>get_info_func\<close> updates the info it is
  given; \<open>get_file_func\<close> fills the file object. They return an int, negative for an error.
  They do not call back into the same filesystem object.
\<close>

record 'w CameraFilesystemFuncs =
  get_info_func :: "(string \<Rightarrow> string \<Rightarrow> CameraFileInfo \<Rightarrow> 'w \<Rightarrow> (int \<times> CameraFileInfo) \<times> 'w) option"
  set_info_func :: "(string \<Rightarrow> string \<Rightarrow> CameraFileInfo \<Rightarrow> 'w \<Rightarrow> int \<times> 'w) option"
  put_file_func :: "(string \<Rightarrow> string \<Rightarrow> CameraFileType \<Rightarrow> 'w CameraFile \<Rightarrow> 'w \<Rightarrow> int \<times> 'w) option"
  delete_all_func :: "(string \<Rightarrow> 'w \<Rightarrow> int \<times> 'w) option"
  make_dir_func :: "(string \<Rightarrow> string \<Rightarrow> 'w \<Rightarrow> int \<times> 'w) option"
  remove_dir_func :: "(string \<Rightarrow> string \<Rightarrow> 'w \<Rightarrow> int \<times> 'w) option"
  file_list_func :: "(string \<Rightarrow> 'w \<Rightarrow> (int \<times> string list) \<times> 'w) option"
  folder_list_func :: "(string \<Rightarrow> 'w \<Rightarrow> (int \<times> string list) \<times> 'w) option"
  delete_file_func :: "(string \<Rightarrow> string \<Rightarrow> 'w \<Rightarrow> int \<times> 'w) option"
  get_file_func :: "(string \<Rightarrow> string \<Rightarrow> CameraFileType \<Rightarrow> 'w CameraFile \<Rightarrow> 'w \<Rightarrow> (int \<times> 'w CameraFile) \<times> 'w) option"
  read_file_func :: "(string \<Rightarrow> string \<Rightarrow> CameraFileType \<Rightarrow> 64 word \<Rightarrow> 64 word \<Rightarrow> 'w \<Rightarrow> (int \<times> byte list) \<times> 'w) option"
  storage_info_func :: "('w \<Rightarrow> (int \<times> CameraStorageInformation list) \<times> 'w) option"

text \<open>
  A context is NULL or has a function that the front-end is asked through whether to
  cancel (\<open>gp_context_cancel\<close>).
\<close>

type_synonym 'w GPContext = "('w \<Rightarrow> bool \<times> 'w) option"

text \<open>
  The filesystem object, with the static variable \<open>pictures_to_keep\<close>, the number stored in the
  settings under \<open>cached-images\<close> (if there is one), the stores, and the environment.
\<close>

record 'w fs = "'w world" +
  rootfolder :: folder
  lru_first :: "nat option"
  lru_last :: "nat option"
  lru_size :: "64 word"
  pictures_to_keep :: int
  cached_images :: "int option"
  fnodes :: "nat \<Rightarrow> CameraFilesystemFile option"
  objects :: "nat \<Rightarrow> 'w CameraFile option"
  next_addr :: nat
  funcs :: "'w CameraFilesystemFuncs"

type_synonym ('w, 'a) fsm = "('w fs, 'a) gpm"

definition CC :: "'w GPContext \<Rightarrow> ('w, unit) fsm" where
  "CC context = (case context of None \<Rightarrow> ok ()
     | Some c \<Rightarrow> CR (os_call c) (\<lambda>cancel. if cancel then fail GP_ERROR_CANCEL else ok ()))"

definition CA :: "string \<Rightarrow> ('w, unit) fsm" where
  "CA f = (case f of c # _ \<Rightarrow> if c \<noteq> CHR ''/'' then fail GP_ERROR_PATH_NOT_ABSOLUTE else ok ()
     | [] \<Rightarrow> fail GP_ERROR_PATH_NOT_ABSOLUTE)"

section \<open>Folders by number\<close>

fun find_folder :: "nat \<Rightarrow> folder \<Rightarrow> folder option"
and find_folders :: "nat \<Rightarrow> folder list \<Rightarrow> folder option" where
  "find_folder i (Folder j n a b fs xs) =
     (if i = j then Some (Folder j n a b fs xs) else find_folders i fs)"
| "find_folders i [] = None"
| "find_folders i (f # fs) =
     (case find_folder i f of Some g \<Rightarrow> Some g | None \<Rightarrow> find_folders i fs)"

fun upd_folder :: "nat \<Rightarrow> (folder \<Rightarrow> folder) \<Rightarrow> folder \<Rightarrow> folder"
and upd_folders :: "nat \<Rightarrow> (folder \<Rightarrow> folder) \<Rightarrow> folder list \<Rightarrow> folder list" where
  "upd_folder i g (Folder j n a b fs xs) =
     (if i = j then g (Folder j n a b fs xs) else Folder j n a b (upd_folders i g fs) xs)"
| "upd_folders i g [] = []"
| "upd_folders i g (f # fs) = upd_folder i g f # upd_folders i g fs"

text \<open>All folder numbers of a tree, and all file nodes its folders hold.\<close>

fun ids :: "folder \<Rightarrow> nat list" and ids_list :: "folder list \<Rightarrow> nat list" where
  "ids (Folder j n a b fs xs) = j # ids_list fs"
| "ids_list [] = []"
| "ids_list (f # fs) = ids f @ ids_list fs"

fun nodes :: "folder \<Rightarrow> nat list" and nodes_list :: "folder list \<Rightarrow> nat list" where
  "nodes (Folder j n a b fs xs) = xs @ nodes_list fs"
| "nodes_list [] = []"
| "nodes_list (f # fs) = nodes f @ nodes_list fs"

definition set_files_dirty :: "bool \<Rightarrow> folder \<Rightarrow> folder" where
  "set_files_dirty d f = Folder (fo_id f) (fo_name f) d (folders_dirty f) (folders f) (files f)"

definition set_folders_dirty :: "bool \<Rightarrow> folder \<Rightarrow> folder" where
  "set_folders_dirty d f = Folder (fo_id f) (fo_name f) (files_dirty f) d (folders f) (files f)"

definition set_folders :: "folder list \<Rightarrow> folder \<Rightarrow> folder" where
  "set_folders fs f = Folder (fo_id f) (fo_name f) (files_dirty f) (folders_dirty f) fs (files f)"

definition set_files :: "nat list \<Rightarrow> folder \<Rightarrow> folder" where
  "set_files xs f = Folder (fo_id f) (fo_name f) (files_dirty f) (folders_dirty f) (folders f) xs"

lemma set_sel [simp]:
  "fo_id (set_files_dirty d f) = fo_id f" "fo_name (set_files_dirty d f) = fo_name f"
  "files_dirty (set_files_dirty d f) = d" "folders_dirty (set_files_dirty d f) = folders_dirty f"
  "folders (set_files_dirty d f) = folders f" "files (set_files_dirty d f) = files f"
  "fo_id (set_folders_dirty d f) = fo_id f" "fo_name (set_folders_dirty d f) = fo_name f"
  "files_dirty (set_folders_dirty d f) = files_dirty f" "folders_dirty (set_folders_dirty d f) = d"
  "folders (set_folders_dirty d f) = folders f" "files (set_folders_dirty d f) = files f"
  "fo_id (set_folders fs f) = fo_id f" "fo_name (set_folders fs f) = fo_name f"
  "files_dirty (set_folders fs f) = files_dirty f" "folders_dirty (set_folders fs f) = folders_dirty f"
  "folders (set_folders fs f) = fs" "files (set_folders fs f) = files f"
  "fo_id (set_files xs f) = fo_id f" "fo_name (set_files xs f) = fo_name f"
  "files_dirty (set_files xs f) = files_dirty f" "folders_dirty (set_files xs f) = folders_dirty f"
  "folders (set_files xs f) = folders f" "files (set_files xs f) = xs"
  by (simp_all add: set_files_dirty_def set_folders_dirty_def set_folders_def set_files_def)

text \<open>A record of a folder read back after it was written at its number.\<close>

lemma find_folder_id:
  "find_folder i f = Some g \<Longrightarrow> fo_id g = i"
  "find_folders i fs = Some g \<Longrightarrow> fo_id g = i"
  by (induction i f and i fs rule: find_folder_find_folders.induct)
    (auto split: if_splits option.splits)

lemma find_folder_None:
  "find_folder i f = None \<longleftrightarrow> i \<notin> set (ids f)"
  "find_folders i fs = None \<longleftrightarrow> i \<notin> set (ids_list fs)"
  by (induction i f and i fs rule: find_folder_find_folders.induct)
    (auto split: if_splits option.splits)

lemma upd_absent [simp]:
  "i \<notin> set (ids f) \<Longrightarrow> upd_folder i u f = f"
  "i \<notin> set (ids_list fs) \<Longrightarrow> upd_folders i u fs = fs"
  by (induction i u f and i u fs rule: upd_folder_upd_folders.induct) auto

lemma find_upd_same:
  "find_folder i f = Some g \<Longrightarrow> fo_id (u g) = fo_id g \<Longrightarrow>
     find_folder i (upd_folder i u f) = Some (u g)"
  "find_folders i fs = Some g \<Longrightarrow> fo_id (u g) = fo_id g \<Longrightarrow>
     find_folders i (upd_folders i u fs) = Some (u g)"
proof (induction i f and i fs rule: find_folder_find_folders.induct)
  case (1 i j n a b fs xs)
  show ?case
  proof (cases "i = j")
    case True
    with 1 have "g = Folder j n a b fs xs" by simp
    with True 1(3) show ?thesis
      by (cases "u g") simp
  next
    case False
    with 1 show ?thesis by simp
  qed
next
  case (3 i f fs)
  show ?case
  proof (cases "find_folder i f")
    case None
    then have "i \<notin> set (ids f)" by (simp add: find_folder_None)
    with 3 None show ?thesis by simp
  next
    case (Some h)
    with 3 show ?thesis by (auto split: option.splits)
  qed
qed simp

text \<open>Folders are reached from the root by their names.\<close>

lemma find_folder_in_ids:
  "find_folder i f = Some g \<Longrightarrow> i \<in> set (ids f)"
  "find_folders i fs = Some g \<Longrightarrow> i \<in> set (ids_list fs)"
  using find_folder_None(1) [where i = i and f = f] find_folder_None(2) [where i = i and fs = fs]
  by auto

lemma ids_list_in: "x \<in> set fs \<Longrightarrow> set (ids x) \<subseteq> set (ids_list fs)"
  by (induction fs) auto

lemma fo_id_in_ids [simp]: "fo_id f \<in> set (ids f)"
  by (cases f) simp

lemma find_folders_distinct:
  "distinct (ids_list fs) \<Longrightarrow> x \<in> set fs \<Longrightarrow> find_folders (fo_id x) fs = find_folder (fo_id x) x"
proof (induction fs)
  case Nil
  then show ?case by simp
next
  case (Cons f fs)
  show ?case
  proof (cases "x = f")
    case True
    have "find_folder (fo_id f) f = Some f" by (cases f) simp
    with True show ?thesis by simp
  next
    case False
    with Cons.prems have x: "x \<in> set fs" by simp
    then have "fo_id x \<in> set (ids_list fs)" using ids_list_in [OF x] fo_id_in_ids [of x] by blast
    with Cons.prems(1) have "fo_id x \<notin> set (ids f)" by auto
    then have "find_folder (fo_id x) f = None" by (simp add: find_folder_None)
    with Cons.IH Cons.prems x show ?thesis by simp
  qed
qed

lemma find_folder_self [simp]: "find_folder (fo_id f) f = Some f"
  by (cases f) simp

text \<open>A folder of the tree brings its subfolders with it.\<close>

lemma find_child:
  "find_folder i f = Some g \<Longrightarrow> distinct (ids f) \<Longrightarrow> x \<in> set (folders g) \<Longrightarrow>
     find_folder (fo_id x) f = Some x"
  "find_folders i fs = Some g \<Longrightarrow> distinct (ids_list fs) \<Longrightarrow> x \<in> set (folders g) \<Longrightarrow>
     find_folders (fo_id x) fs = Some x \<and> fo_id x \<in> set (ids_list fs)"
proof (induction i f and i fs rule: find_folder_find_folders.induct)
  case (1 i j n a b fs xs)
  show ?case
  proof (cases "i = j")
    case True
    with 1 have g: "g = Folder j n a b fs xs" by simp
    with 1 have x: "x \<in> set fs" and d: "distinct (ids_list fs)" "j \<notin> set (ids_list fs)" by simp_all
    have "fo_id x \<in> set (ids_list fs)" using ids_list_in [OF x] fo_id_in_ids [of x] by blast
    with d have "fo_id x \<noteq> j" by auto
    with find_folders_distinct [OF d(1) x] show ?thesis by simp
  next
    case False
    with 1 have "find_folders (fo_id x) fs = Some x \<and> fo_id x \<in> set (ids_list fs)" by simp
    moreover with 1 have "fo_id x \<noteq> j" by auto
    ultimately show ?thesis by simp
  qed
next
  case (3 i f fs)
  show ?case
  proof (cases "find_folder i f")
    case None
    with 3 have *: "find_folders (fo_id x) fs = Some x \<and> fo_id x \<in> set (ids_list fs)" by simp
    with 3 have "fo_id x \<notin> set (ids f)" by auto
    then have "find_folder (fo_id x) f = None" by (simp add: find_folder_None)
    with * show ?thesis by simp
  next
    case (Some h)
    with 3 have "find_folder (fo_id x) f = Some x" by simp
    with find_folder_in_ids(1) [OF this] show ?thesis by simp
  qed
qed simp

section \<open>Following a pointer, writing a field\<close>

definition deref_folder :: "nat \<Rightarrow> ('w, folder) fsm" where
  "deref_folder i = (\<lambda>s. case find_folder i (rootfolder s) of
     None \<Rightarrow> (Inl UNDEFINED, s) | Some f \<Rightarrow> (Inr f, s))"

definition write_folder :: "nat \<Rightarrow> (folder \<Rightarrow> folder) \<Rightarrow> ('w, unit) fsm" where
  "write_folder i u = CR (deref_folder i) (\<lambda>_.
     modify (\<lambda>s. s\<lparr>rootfolder := upd_folder i u (rootfolder s)\<rparr>))"

definition deref_file :: "nat \<Rightarrow> ('w, CameraFilesystemFile) fsm" where
  "deref_file i = (\<lambda>s. case fnodes s i of
     None \<Rightarrow> (Inl UNDEFINED, s) | Some x \<Rightarrow> (Inr x, s))"

definition write_file :: "nat \<Rightarrow> (CameraFilesystemFile \<Rightarrow> CameraFilesystemFile) \<Rightarrow> ('w, unit) fsm" where
  "write_file i u = CR (deref_file i) (\<lambda>x. modify (\<lambda>s. s\<lparr>fnodes := (fnodes s)(i \<mapsto> u x)\<rparr>))"

definition deref_object :: "nat \<Rightarrow> ('w, 'w CameraFile) fsm" where
  "deref_object c = (\<lambda>s. case objects s c of
     None \<Rightarrow> (Inl UNDEFINED, s) | Some x \<Rightarrow> (Inr x, s))"

definition put_object :: "nat \<Rightarrow> 'w CameraFile option \<Rightarrow> ('w, unit) fsm" where
  "put_object c x = modify (\<lambda>s. s\<lparr>objects := (objects s)(c := x)\<rparr>)"

text \<open>The address of a new structure.\<close>

definition new_addr :: "('w, nat) fsm" where
  "new_addr = (\<lambda>s. (Inr (next_addr s), s\<lparr>next_addr := Suc (next_addr s)\<rparr>))"

text \<open>\<open>gp_file_ref\<close> and \<open>gp_file_unref\<close> on an object in the store.\<close>

definition ref_object :: "nat \<Rightarrow> ('w, unit) fsm" where
  "ref_object c = CR (deref_object c) (\<lambda>f. put_object c (Some (gp_file_ref f)))"

definition unref_object :: "'w os \<Rightarrow> nat \<Rightarrow> ('w, unit) fsm" where
  "unref_object os c = CR (deref_object c) (\<lambda>f. CR (gp_file_unref os f) (put_object c))"

definition unref_cached :: "'w os \<Rightarrow> nat \<Rightarrow> CameraFileType \<Rightarrow> ('w, unit) fsm" where
  "unref_cached os i t = CR (deref_file i) (\<lambda>x.
     case cached t x of None \<Rightarrow> ok ()
     | Some c \<Rightarrow> CR (unref_object os c) (\<lambda>_. write_file i (set_cached t None)))"

text \<open>The six views, in the order in which the code releases them.\<close>

definition all_types :: "CameraFileType list" where
  "all_types = [GP_FILE_TYPE_PREVIEW, GP_FILE_TYPE_NORMAL, GP_FILE_TYPE_RAW, GP_FILE_TYPE_AUDIO,
                GP_FILE_TYPE_EXIF, GP_FILE_TYPE_METADATA]"

definition unref_all_cached :: "'w os \<Rightarrow> nat \<Rightarrow> ('w, unit) fsm" where
  "unref_all_cached os i = each (unref_cached os i) all_types"

definition free_file :: "nat \<Rightarrow> ('w, unit) fsm" where
  "free_file i = modify (\<lambda>s. s\<lparr>fnodes := (fnodes s)(i := None)\<rparr>)"

lemma wp_deref_folder [simp]:
  "wp (deref_folder i) Q E s = (case find_folder i (rootfolder s) of
     None \<Rightarrow> E UNDEFINED s | Some f \<Rightarrow> Q f s)"
  by (simp add: wp_def deref_folder_def split: option.split)

lemma wp_deref_file [simp]:
  "wp (deref_file i) Q E s = (case fnodes s i of None \<Rightarrow> E UNDEFINED s | Some x \<Rightarrow> Q x s)"
  by (simp add: wp_def deref_file_def split: option.split)

lemma wp_deref_object [simp]:
  "wp (deref_object i) Q E s = (case objects s i of None \<Rightarrow> E UNDEFINED s | Some x \<Rightarrow> Q x s)"
  by (simp add: wp_def deref_object_def split: option.split)

lemma wp_new_addr [simp]:
  "wp new_addr Q E s = Q (next_addr s) (s\<lparr>next_addr := Suc (next_addr s)\<rparr>)"
  by (simp add: wp_def new_addr_def)

lemma wp_write_folder [simp]:
  "wp (write_folder i u) Q E s = (case find_folder i (rootfolder s) of
     None \<Rightarrow> E UNDEFINED s | Some f \<Rightarrow> Q () (s\<lparr>rootfolder := upd_folder i u (rootfolder s)\<rparr>))"
  by (simp add: write_folder_def split: option.split)

lemma wp_write_file [simp]:
  "wp (write_file i u) Q E s = (case fnodes s i of
     None \<Rightarrow> E UNDEFINED s | Some x \<Rightarrow> Q () (s\<lparr>fnodes := (fnodes s)(i \<mapsto> u x)\<rparr>))"
  by (simp add: write_file_def split: option.split)

lemma wp_put_object [simp]:
  "wp (put_object c x) Q E s = Q () (s\<lparr>objects := (objects s)(c := x)\<rparr>)"
  by (simp add: put_object_def)

lemma wp_free_file [simp]:
  "wp (free_file i) Q E s = Q () (s\<lparr>fnodes := (fnodes s)(i := None)\<rparr>)"
  by (simp add: free_file_def)

end
