(* ===== verification/Gp_Cache.thy ===== *)
theory Gp_Cache imports Gp_Fs_Data begin

text \<open>
  The reference counts of the cached file objects. A file node holds up to six objects,
  the front-end holds others, and \<open>gp_file_unref\<close> frees an object when its count reaches 0.
  \<open>cache_ok\<close> says that no count is below the number of nodes' views that point to the object
  and that none points to a freed one; it is what makes the cache free of dangling pointers.
\<close>

text \<open>All addresses in use are below the next one.\<close>

definition fresh_addr :: "'w fs \<Rightarrow> bool" where
  "fresh_addr s \<longleftrightarrow> (\<forall>i. fnodes s i \<noteq> None \<longrightarrow> i < next_addr s)"

definition cache_slots :: "(nat \<Rightarrow> CameraFilesystemFile option) \<Rightarrow> nat \<Rightarrow> (nat \<times> CameraFileType) set" where
  "cache_slots h c = {(i, t). \<exists>x. h i = Some x \<and> cached t x = Some c}"

definition cache_ok :: "'w fs \<Rightarrow> bool" where
  "cache_ok s \<longleftrightarrow> fresh_addr s \<and>
     (\<forall>c. objects s c = None \<longrightarrow> cache_slots (fnodes s) c = {}) \<and>
     (\<forall>c f. objects s c = Some f \<longrightarrow> int (card (cache_slots (fnodes s) c)) \<le> cf_ref_count f)"

lemma cache_ok_fresh: "cache_ok s \<Longrightarrow> fresh_addr s"
  by (simp add: cache_ok_def)

lemma cache_ok_None: "cache_ok s \<Longrightarrow> objects s c = None \<Longrightarrow> cache_slots (fnodes s) c = {}"
  by (simp add: cache_ok_def)

lemma cache_ok_Some: "cache_ok s \<Longrightarrow> objects s c = Some f \<Longrightarrow>
    int (card (cache_slots (fnodes s) c)) \<le> cf_ref_count f"
  by (simp add: cache_ok_def)

lemma UNIV_CameraFileType: "(UNIV :: CameraFileType set) = set all_types"
proof
  show "(UNIV :: CameraFileType set) \<subseteq> set all_types"
  proof
    fix t :: CameraFileType
    show "t \<in> set all_types" by (cases t) (simp_all add: all_types_def)
  qed
qed simp

lemma finite_CameraFileType [simp]: "finite (A :: CameraFileType set)"
  by (rule finite_subset [OF subset_UNIV]) (simp add: UNIV_CameraFileType)

lemma finite_cache_slots:
  assumes "fresh_addr s"
  shows "finite (cache_slots (fnodes s) c)"
proof (rule finite_subset)
  show "cache_slots (fnodes s) c \<subseteq> {..<next_addr s} \<times> UNIV"
    using assms by (auto simp: cache_slots_def fresh_addr_def)
qed simp

lemma cached_set_cached [simp]:
  "cached t' (set_cached t c x) = (if t' = t then c else cached t' x)"
  by (cases t; cases t') simp_all

lemma set_cached_links [simp]:
  "lru_prev (set_cached t c x) = lru_prev x" "lru_next (set_cached t c x) = lru_next x"
  "f_name (set_cached t c x) = f_name x" "info_dirty (set_cached t c x) = info_dirty x"
  "info (set_cached t c x) = info x"
  by (cases t; simp)+

lemma set_cached_same: "cached t x = c \<Longrightarrow> set_cached t c x = x"
  by (cases t) auto

text \<open>Dropping one view takes one slot away and leaves the others.\<close>

lemma cache_slots_drop:
  assumes "h i = Some x" and "cached t x = Some c"
  shows "cache_slots (h(i \<mapsto> set_cached t None x)) d =
    (if d = c then cache_slots h c - {(i, t)} else cache_slots h d)"
  using assms by (auto simp: cache_slots_def split: if_splits)

lemma cache_slots_add:
  assumes "h i = Some x" and "cached t x = None"
  shows "cache_slots (h(i \<mapsto> set_cached t (Some c) x)) d =
    (if d = c then insert (i, t) (cache_slots h c) else cache_slots h d)"
  using assms by (auto simp: cache_slots_def split: if_splits)

lemma cache_ok_drop:
  assumes ck: "cache_ok s" and x: "fnodes s i = Some x" and c: "cached t x = Some c"
    and f: "objects s c = Some f"
  shows "cache_ok (s\<lparr>env := w,
     objects := (objects s)(c := if cf_ref_count f = 1 then None else Some (f\<lparr>cf_ref_count := cf_ref_count f - 1\<rparr>)),
     fnodes := (fnodes s)(i \<mapsto> set_cached t None x)\<rparr>)"
    (is "cache_ok ?s'")
proof -
  note fr = cache_ok_fresh [OF ck]
  have fin: "finite (cache_slots (fnodes s) c)" by (rule finite_cache_slots [OF fr])
  have mem: "(i, t) \<in> cache_slots (fnodes s) c" using x c by (auto simp: cache_slots_def)
  with fin have card: "card (cache_slots (fnodes s) c) = Suc (card (cache_slots (fnodes s) c - {(i, t)}))"
    by (rule card.remove)
  note rc = cache_ok_Some [OF ck f]
  have slots: "cache_slots (fnodes ?s') d =
      (if d = c then cache_slots (fnodes s) c - {(i, t)} else cache_slots (fnodes s) d)" for d
    using cache_slots_drop [where h = "fnodes s" and i = i and d = d, OF x c] by simp
  have obj: "objects ?s' d = (if d = c then if cf_ref_count f = 1 then None
      else Some (f\<lparr>cf_ref_count := cf_ref_count f - 1\<rparr>) else objects s d)" for d
    by simp
  have empty: "cache_slots (fnodes s) c - {(i, t)} = {}" if "cf_ref_count f = 1"
  proof -
    from that rc card have "card (cache_slots (fnodes s) c - {(i, t)}) = 0" by linarith
    moreover have "finite (cache_slots (fnodes s) c - {(i, t)})" using fin by (rule finite_Diff)
    ultimately show ?thesis by (simp only: card_0_eq)
  qed
  have new: "int (card (cache_slots (fnodes s) c - {(i, t)})) \<le> cf_ref_count f - 1"
    using rc card by linarith
  have "fresh_addr ?s'" using fr x by (auto simp: fresh_addr_def)
  moreover have "cache_slots (fnodes ?s') d = {}" if "objects ?s' d = None" for d
    using that empty cache_ok_None [OF ck, of d] unfolding slots obj by (auto split: if_splits)
  moreover have "int (card (cache_slots (fnodes ?s') d)) \<le> cf_ref_count g" if "objects ?s' d = Some g" for d g
    using that new cache_ok_Some [OF ck, of d g] unfolding slots obj by (auto split: if_splits)
  ultimately show ?thesis unfolding cache_ok_def by blast
qed

lemma wp_unref_object:
  assumes "objects s c = Some f"
    and "\<And>w. Q () (s\<lparr>env := w, objects := (objects s)(c := if cf_ref_count f = 1 then None
               else Some (f\<lparr>cf_ref_count := cf_ref_count f - 1\<rparr>))\<rparr>)"
  shows "wp (unref_object os c) Q E s"
  using assms(1) assms(2) [of "env s"] assms(2) [of "os_close os (fd f) (env s)"]
  by (auto simp: unref_object_def gp_file_unref_def gp_file_free_def gp_file_clean_def Let_def)

text \<open>
  In a state with \<open>cache_ok\<close> a view is released without touching freed memory, and the result
  has \<open>cache_ok\<close> again.
\<close>

lemma wp_unref_cached:
  assumes ck: "cache_ok s" and x: "fnodes s i = Some x"
    and Q: "\<And>w obj. cache_ok (s\<lparr>env := w, objects := obj, fnodes := (fnodes s)(i \<mapsto> set_cached t None x)\<rparr>) \<Longrightarrow>
      Q () (s\<lparr>env := w, objects := obj, fnodes := (fnodes s)(i \<mapsto> set_cached t None x)\<rparr>)"
  shows "wp (unref_cached os i t) Q E s"
proof (cases "cached t x")
  case None
  then have same: "set_cached t None x = x" by (rule set_cached_same)
  have "(fnodes s)(i \<mapsto> x) = fnodes s" using x by auto
  then have eq: "s\<lparr>env := env s, objects := objects s, fnodes := (fnodes s)(i \<mapsto> set_cached t None x)\<rparr> = s"
    using same by simp
  from Q [where w = "env s" and obj = "objects s"] ck None x show ?thesis
    unfolding eq by (simp add: unref_cached_def)
next
  case (Some c)
  have slot: "(i, t) \<in> cache_slots (fnodes s) c" using x Some by (auto simp: cache_slots_def)
  have "objects s c \<noteq> None" using cache_ok_None [OF ck] slot by blast
  then obtain f where f: "objects s c = Some f" by auto
  show ?thesis
    unfolding unref_cached_def using x Some f cache_ok_drop [OF ck x Some f]
    by (auto intro!: wp_unref_object Q)
qed

text \<open>A node without views.\<close>

definition no_views :: "CameraFilesystemFile \<Rightarrow> CameraFilesystemFile" where
  "no_views x = x\<lparr>preview := None, normal := None, raw := None, audio := None, exif := None, metadata := None\<rparr>"

lemma wp_unref_all_cached:
  assumes ck: "cache_ok s" and x: "fnodes s i = Some x"
    and Q: "\<And>w obj. cache_ok (s\<lparr>env := w, objects := obj, fnodes := (fnodes s)(i \<mapsto> no_views x)\<rparr>) \<Longrightarrow>
      Q () (s\<lparr>env := w, objects := obj, fnodes := (fnodes s)(i \<mapsto> no_views x)\<rparr>)"
  shows "wp (unref_all_cached os i) Q E s"
  unfolding unref_all_cached_def all_types_def each.simps wp_CR wp_ok
  apply (rule wp_unref_cached [OF ck x])
  apply (erule wp_unref_cached, simp)
  apply (erule wp_unref_cached, simp)
  apply (erule wp_unref_cached, simp)
  apply (erule wp_unref_cached, simp)
  apply (erule wp_unref_cached, simp)
  using Q by (simp add: no_views_def)

lemma cached_no_views [simp]: "cached t (no_views x) = None"
  by (cases t) (simp_all add: no_views_def)

text \<open>A node without views can be freed.\<close>

lemma cache_ok_free:
  assumes "cache_ok s" and "\<And>x t. fnodes s i = Some x \<Longrightarrow> cached t x = None"
  shows "cache_ok (s\<lparr>fnodes := (fnodes s)(i := None)\<rparr>)"
proof -
  have "cache_slots ((fnodes s)(i := None)) c = cache_slots (fnodes s) c" for c
    using assms(2) by (fastforce simp: cache_slots_def split: if_splits)
  with assms(1) show ?thesis by (simp add: cache_ok_def fresh_addr_def)
qed

text \<open>Changes of a node that leave its views alone do not matter to the cache.\<close>

definition same_views :: "(nat \<Rightarrow> CameraFilesystemFile option) \<Rightarrow> (nat \<Rightarrow> CameraFilesystemFile option) \<Rightarrow> bool" where
  "same_views h h' \<longleftrightarrow> (\<forall>i t. Option.bind (h i) (cached t) = Option.bind (h' i) (cached t)) \<and>
     (\<forall>i. h i = None \<longleftrightarrow> h' i = None)"

lemma cache_slots_bind: "cache_slots h c = {(i, t). Option.bind (h i) (cached t) = Some c}"
  by (auto simp: cache_slots_def bind_eq_Some_conv)

lemma cache_ok_same:
  assumes "cache_ok s" and "same_views (fnodes s) (fnodes s')" and "objects s' = objects s"
    and "next_addr s \<le> next_addr s'"
  shows "cache_ok s'"
proof -
  have "cache_slots (fnodes s') c = cache_slots (fnodes s) c" for c
    using assms(2) by (simp add: cache_slots_bind same_views_def)
  moreover have "fresh_addr s'"
    using assms unfolding cache_ok_def fresh_addr_def same_views_def by (meson order_less_le_trans)
  ultimately show ?thesis using assms(1,3) by (simp add: cache_ok_def)
qed

end
