(* ===== verification/Gp_Lru.thy ===== *)
theory Gp_Lru imports Gp_Cache begin

text \<open>
  The LRU list of gphoto2-filesys.c: a list through the file nodes, doubly linked, whose
  first node links back to itself so that \<open>lru_prev\<close> is not NULL exactly for the nodes in the
  list. The operations are translated pointer by pointer; \<open>lru_is s xs\<close> says that the pointers
  of state \<open>s\<close> form the list \<open>xs\<close>, and the lemmas show that each operation is the expected
  one on \<open>xs\<close>.
\<close>

section \<open>Operations\<close>

definition set_lru_first :: "nat option \<Rightarrow> ('w, unit) fsm" where
  "set_lru_first p = modify (\<lambda>s. s\<lparr>lru_first := p\<rparr>)"

definition set_lru_last :: "nat option \<Rightarrow> ('w, unit) fsm" where
  "set_lru_last p = modify (\<lambda>s. s\<lparr>lru_last := p\<rparr>)"

definition sub_lru_size :: "nat \<Rightarrow> ('w, unit) fsm" where
  "sub_lru_size n = modify (\<lambda>s. s\<lparr>lru_size := lru_size s - of_nat n\<rparr>)"

definition add_lru_size :: "nat \<Rightarrow> ('w, unit) fsm" where
  "add_lru_size n = modify (\<lambda>s. s\<lparr>lru_size := lru_size s + of_nat n\<rparr>)"

text \<open>
  \<open>gp_filesystem_lru_clear\<close>: the walk checks each back link and clears both links behind it. It
  visits no node twice (the links are cleared), so the number of addresses bounds it.
\<close>

fun lru_clear_loop :: "nat \<Rightarrow> nat option \<Rightarrow> nat \<Rightarrow> ('w, unit) fsm" where
  "lru_clear_loop _ None prev = ok ()"
| "lru_clear_loop 0 (Some ptr) prev = fail UNDEFINED"
| "lru_clear_loop (Suc k) (Some ptr) prev = CR (deref_file ptr) (\<lambda>x.
     if lru_prev x \<noteq> Some prev then fail GP_ERROR
     else CR (write_file ptr (\<lambda>y. y\<lparr>lru_prev := None, lru_next := None\<rparr>)) (\<lambda>_.
       lru_clear_loop k (lru_next x) ptr))"

definition gp_filesystem_lru_clear :: "('w, unit) fsm" where
  "gp_filesystem_lru_clear = CR (gets lru_first) (\<lambda>first.
     case first of None \<Rightarrow> ok ()
     | Some p \<Rightarrow> CR (gets next_addr) (\<lambda>n.
         CR (lru_clear_loop n (Some p) p) (\<lambda>_.
         CR (set_lru_first None) (\<lambda>_.
         CR (set_lru_last None) (\<lambda>_. modify (\<lambda>s. s\<lparr>lru_size := 0\<rparr>))))))"

definition gp_filesystem_lru_remove_one :: "nat \<Rightarrow> ('w, unit) fsm" where
  "gp_filesystem_lru_remove_one item = CR (deref_file item) (\<lambda>x.
     case lru_prev x of None \<Rightarrow> fail GP_ERROR
     | Some p \<Rightarrow>
        CR (write_file p (\<lambda>y. y\<lparr>lru_next := lru_next x\<rparr>)) (\<lambda>_.
        CR (deref_file item) (\<lambda>x.
        CR (case lru_next x of None \<Rightarrow> ok ()
            | Some n \<Rightarrow> write_file n (\<lambda>y. y\<lparr>lru_prev := lru_prev x\<rparr>)) (\<lambda>_.
        CR (gets lru_first) (\<lambda>first. CR (gets lru_last) (\<lambda>last. CR (deref_file item) (\<lambda>x.
        CR (if last = Some item then
              (if first = Some item then CR (set_lru_last None) (\<lambda>_. set_lru_first None)
               else set_lru_last (lru_prev x))
            else if first = Some item then
              CR (set_lru_first (lru_next x)) (\<lambda>_.
                case lru_next x of None \<Rightarrow> fail UNDEFINED
                | Some n \<Rightarrow> write_file n (\<lambda>y. y\<lparr>lru_prev := Some n\<rparr>))
            else ok ()) (\<lambda>_.
        write_file item (\<lambda>y. y\<lparr>lru_prev := None, lru_next := None\<rparr>)))))))))"

text \<open>One of the three cached views that \<open>gp_filesystem_lru_free\<close> gives up.\<close>

definition free_view :: "'w os \<Rightarrow> nat \<Rightarrow> CameraFileType \<Rightarrow> ('w, unit) fsm" where
  "free_view os ptr t = CR (deref_file ptr) (\<lambda>x.
     case cached t x of None \<Rightarrow> ok ()
     | Some c \<Rightarrow> CR (deref_object c) (\<lambda>f.
         CR (gp_file_get_data_and_size os f False) (\<lambda>(_, size).
         CR (sub_lru_size size) (\<lambda>_.
         CR (unref_object os c) (\<lambda>_. write_file ptr (set_cached t None))))))"

definition gp_filesystem_lru_free :: "'w os \<Rightarrow> ('w, unit) fsm" where
  "gp_filesystem_lru_free os = CR (gets lru_first) (\<lambda>first.
     case first of None \<Rightarrow> fail GP_ERROR_BAD_PARAMETERS
     | Some ptr \<Rightarrow> CR (deref_file ptr) (\<lambda>x.
         CR (set_lru_first (lru_next x)) (\<lambda>_.
         CR (case lru_next x of
               Some n \<Rightarrow> write_file n (\<lambda>y. y\<lparr>lru_prev := Some n\<rparr>)
             | None \<Rightarrow> set_lru_last None) (\<lambda>_.
         CR (free_view os ptr GP_FILE_TYPE_NORMAL) (\<lambda>_.
         CR (free_view os ptr GP_FILE_TYPE_RAW) (\<lambda>_.
         CR (free_view os ptr GP_FILE_TYPE_AUDIO) (\<lambda>_.
         write_file ptr (\<lambda>y. y\<lparr>lru_next := None, lru_prev := None\<rparr>)))))))) "

definition has_content :: "CameraFilesystemFile \<Rightarrow> bool" where
  "has_content x \<longleftrightarrow> normal x \<noteq> None \<or> raw x \<noteq> None \<or> audio x \<noteq> None"

fun lru_count_loop :: "nat \<Rightarrow> nat option \<Rightarrow> nat \<Rightarrow> ('w, nat) fsm" where
  "lru_count_loop _ None cnt = ok cnt"
| "lru_count_loop 0 (Some ptr) cnt = fail UNDEFINED"
| "lru_count_loop (Suc k) (Some ptr) cnt = CR (deref_file ptr) (\<lambda>x.
     lru_count_loop k (lru_next x) (if has_content x then cnt + 1 else cnt))"

definition gp_filesystem_lru_count :: "('w, nat) fsm" where
  "gp_filesystem_lru_count = CR (gets lru_first) (\<lambda>first.
     CR (gets next_addr) (\<lambda>n. lru_count_loop n first 0))"

fun lru_check_loop :: "nat \<Rightarrow> nat option \<Rightarrow> nat \<Rightarrow> ('w, unit) fsm" where
  "lru_check_loop _ None prev = ok ()"
| "lru_check_loop 0 (Some ptr) prev = fail UNDEFINED"
| "lru_check_loop (Suc k) (Some ptr) prev = CR (deref_file ptr) (\<lambda>x.
     if lru_prev x \<noteq> Some prev then fail GP_ERROR else lru_check_loop k (lru_next x) ptr)"

definition gp_filesystem_lru_check :: "('w, unit) fsm" where
  "gp_filesystem_lru_check = CR (gets lru_first) (\<lambda>first.
     case first of None \<Rightarrow> ok ()
     | Some p \<Rightarrow> CR (gets next_addr) (\<lambda>n. lru_check_loop n (Some p) p))"

text \<open>
  The first part of \<open>gp_filesystem_lru_update\<close>: settle the number of pictures to keep, then
  free the oldest while there are more.
\<close>

definition PICTURES_TO_KEEP :: int where "PICTURES_TO_KEEP = 2"

definition settle_pictures_to_keep :: "('w, unit) fsm" where
  "settle_pictures_to_keep = CR (gets pictures_to_keep) (\<lambda>k.
     CR (if k = -1 then CR (gets cached_images) (\<lambda>c. case c of
           Some n \<Rightarrow> modify (\<lambda>s. s\<lparr>pictures_to_keep := n\<rparr>)
         | None \<Rightarrow> modify (\<lambda>s. s\<lparr>cached_images := Some PICTURES_TO_KEEP\<rparr>))
       else ok ()) (\<lambda>_.
     CR (gets pictures_to_keep) (\<lambda>k.
     if k < 0 then modify (\<lambda>s. s\<lparr>pictures_to_keep := PICTURES_TO_KEEP\<rparr>) else ok ())))"

fun lru_prune :: "nat \<Rightarrow> 'w os \<Rightarrow> ('w, unit) fsm" where
  "lru_prune fuel os = CR gp_filesystem_lru_count (\<lambda>x. CR (gets pictures_to_keep) (\<lambda>keep.
     if int x > keep then
       (case fuel of 0 \<Rightarrow> fail UNDEFINED
        | Suc k \<Rightarrow> CR (gp_filesystem_lru_free os) (\<lambda>_. lru_prune k os))
     else ok ()))"

declare lru_prune.simps [simp del]

text \<open>The last part: link the node in at the end.\<close>

definition lru_link_last :: "nat \<Rightarrow> ('w, unit) fsm" where
  "lru_link_last xfile = CR (gets lru_first) (\<lambda>first.
     if first = None then
       CR (set_lru_first (Some xfile)) (\<lambda>_.
       CR (set_lru_last (Some xfile)) (\<lambda>_.
       write_file xfile (\<lambda>y. y\<lparr>lru_prev := Some xfile\<rparr>)))
     else CR (gets lru_last) (\<lambda>last.
       CR (write_file xfile (\<lambda>y. y\<lparr>lru_next := None, lru_prev := last\<rparr>)) (\<lambda>_.
       case last of None \<Rightarrow> fail UNDEFINED
       | Some l \<Rightarrow> CR (write_file l (\<lambda>y. y\<lparr>lru_next := Some xfile\<rparr>)) (\<lambda>_.
           set_lru_last (Some xfile)))))"

section \<open>What list the pointers form\<close>

text \<open>
  \<open>lseg h p xs n\<close>: the nodes \<open>xs\<close> are chained in the store \<open>h\<close>, the first links back to \<open>p\<close>, the
  last links on to \<open>n\<close>.
\<close>

fun lseg :: "(nat \<Rightarrow> CameraFilesystemFile option) \<Rightarrow> nat \<Rightarrow> nat list \<Rightarrow> nat option \<Rightarrow> bool" where
  "lseg h p [] n \<longleftrightarrow> True"
| "lseg h p (x # xs) n \<longleftrightarrow>
     (case h x of None \<Rightarrow> False
      | Some nd \<Rightarrow> lru_prev nd = Some p \<and>
          lru_next nd = (case xs of [] \<Rightarrow> n | y # _ \<Rightarrow> Some y) \<and> lseg h x xs n)"

definition unlinked :: "CameraFilesystemFile \<Rightarrow> bool" where
  "unlinked n \<longleftrightarrow> lru_prev n = None \<and> lru_next n = None"

definition lru_is :: "'w fs \<Rightarrow> nat list \<Rightarrow> bool" where
  "lru_is s xs \<longleftrightarrow>
     distinct xs \<and>
     lru_first s = (case xs of [] \<Rightarrow> None | x # _ \<Rightarrow> Some x) \<and>
     lru_last s = (if xs = [] then None else Some (last xs)) \<and>
     (xs \<noteq> [] \<longrightarrow> lseg (fnodes s) (hd xs) xs None) \<and>
     (\<forall>i n. fnodes s i = Some n \<longrightarrow> i \<notin> set xs \<longrightarrow> unlinked n)"

lemma lseg_append:
  "lseg h p (xs @ ys) n \<longleftrightarrow>
     lseg h p xs (case ys of [] \<Rightarrow> n | y # _ \<Rightarrow> Some y) \<and> lseg h (last (p # xs)) ys n"
proof (induction xs arbitrary: p)
  case Nil
  then show ?case by simp
next
  case (Cons x xs)
  have nx: "(case xs @ ys of [] \<Rightarrow> n | y # _ \<Rightarrow> Some y) =
      (case xs of [] \<Rightarrow> (case ys of [] \<Rightarrow> n | y # _ \<Rightarrow> Some y) | y # _ \<Rightarrow> Some y)"
    by (cases xs) simp_all
  show ?case
    by (simp add: Cons.IH nx split: option.split)
qed

lemma lseg_upd [simp]: "i \<notin> set xs \<Longrightarrow> lseg (h(i := v)) p xs n = lseg h p xs n"
  by (induction xs arbitrary: p) (auto split: option.splits)

lemma lseg_dom: "lseg h p xs n \<Longrightarrow> x \<in> set xs \<Longrightarrow> \<exists>nd. h x = Some nd \<and> lru_prev nd \<noteq> None"
  by (induction xs arbitrary: p) (auto split: option.splits)

lemma lru_is_mem:
  assumes "lru_is s xs" and "fnodes s i = Some n"
  shows "lru_prev n \<noteq> None \<longleftrightarrow> i \<in> set xs"
proof
  assume "i \<in> set xs"
  moreover from this have "lseg (fnodes s) (hd xs) xs None"
    using assms(1) by (cases xs) (auto simp: lru_is_def)
  ultimately show "lru_prev n \<noteq> None" using lseg_dom assms(2) by fastforce
next
  assume "lru_prev n \<noteq> None"
  with assms show "i \<in> set xs" unfolding lru_is_def unlinked_def by metis
qed

text \<open>
  The list is a function of the pointers: two lists the same state forms are equal.
\<close>

lemma lseg_unique:
  "lseg h p xs None \<Longrightarrow> lseg h q ys None \<Longrightarrow> xs \<noteq> [] \<Longrightarrow> ys \<noteq> [] \<Longrightarrow> hd xs = hd ys \<Longrightarrow> xs = ys"
proof (induction xs arbitrary: p q ys)
  case Nil
  then show ?case by simp
next
  case (Cons x xs)
  then obtain ys' where ys: "ys = x # ys'" by (cases ys) auto
  show ?case
  proof (cases xs)
    case Nil
    with Cons.prems ys show ?thesis by (cases ys') (auto split: option.splits)
  next
    case (Cons x' xs')
    with Cons.prems ys obtain y' ys'' where "ys' = y' # ys''" "y' = x'"
      by (cases ys') (auto split: option.splits)
    with Cons Cons.prems Cons.IH [of x x ys'] ys show ?thesis
      by (auto split: option.splits)
  qed
qed

lemma lru_is_unique: "lru_is s xs \<Longrightarrow> lru_is s ys \<Longrightarrow> xs = ys"
proof (cases "xs = []")
  case True
  then show "lru_is s xs \<Longrightarrow> lru_is s ys \<Longrightarrow> ?thesis"
    by (cases ys) (auto simp: lru_is_def)
next
  case False
  assume l: "lru_is s xs" "lru_is s ys"
  with False have "ys \<noteq> []" "hd xs = hd ys"
    by (cases xs; cases ys; auto simp: lru_is_def)+
  with l False show ?thesis
    by (intro lseg_unique) (auto simp: lru_is_def)
qed

section \<open>Removing one node\<close>

lemma wp_set_lru [simp]:
  "wp (set_lru_first p) Q E s = Q () (s\<lparr>lru_first := p\<rparr>)"
  "wp (set_lru_last p) Q E s = Q () (s\<lparr>lru_last := p\<rparr>)"
  "wp (sub_lru_size k) Q E s = Q () (s\<lparr>lru_size := lru_size s - of_nat k\<rparr>)"
  "wp (add_lru_size k) Q E s = Q () (s\<lparr>lru_size := lru_size s + of_nat k\<rparr>)"
  by (simp_all add: set_lru_first_def set_lru_last_def sub_lru_size_def add_lru_size_def)

text \<open>What the LRU operations may change: the two ends and the links of the nodes.\<close>

definition same_but_links :: "(nat \<Rightarrow> CameraFilesystemFile option) \<Rightarrow> (nat \<Rightarrow> CameraFilesystemFile option) \<Rightarrow> bool" where
  "same_but_links h h' \<longleftrightarrow> (\<forall>i. map_option (\<lambda>x. x\<lparr>lru_prev := None, lru_next := None\<rparr>) (h i) =
     map_option (\<lambda>x. x\<lparr>lru_prev := None, lru_next := None\<rparr>) (h' i))"

lemma same_but_links_refl [simp]: "same_but_links h h"
  by (simp add: same_but_links_def)

lemma same_but_links_upd:
  "same_but_links h h' \<Longrightarrow> h' i = Some x \<Longrightarrow>
   x\<lparr>lru_prev := None, lru_next := None\<rparr> = y\<lparr>lru_prev := None, lru_next := None\<rparr> \<Longrightarrow>
   same_but_links h (h'(i \<mapsto> y))"
  by (auto simp: same_but_links_def)

definition lru_frame :: "'w fs \<Rightarrow> 'w fs \<Rightarrow> bool" where
  "lru_frame s t \<longleftrightarrow> t = s\<lparr>lru_first := lru_first t, lru_last := lru_last t, fnodes := fnodes t\<rparr> \<and>
     same_but_links (fnodes s) (fnodes t)"

lemma lseg_nodeE:
  assumes "lseg h p (x # xs) n"
  obtains nd where "h x = Some nd" and "lru_prev nd = Some p"
    and "lru_next nd = (case xs of [] \<Rightarrow> n | y # _ \<Rightarrow> Some y)" and "lseg h x xs n"
  using assms that by (auto split: option.splits)

text \<open>Where a node stands in the list tells what its links and the ends are.\<close>

lemma lru_is_parts:
  assumes "lru_is s (as @ x # bs)"
  shows "distinct (as @ x # bs)"
    and "as = [] \<Longrightarrow> lru_first s = Some x" and "as \<noteq> [] \<Longrightarrow> lru_first s = Some (hd as)"
    and "bs = [] \<Longrightarrow> lru_last s = Some x" and "bs \<noteq> [] \<Longrightarrow> lru_last s = Some (last bs)"
    and "lseg (fnodes s) (hd (as @ [x])) as (Some x)"
    and "lseg (fnodes s) (last (x # as)) (x # bs) None"
    and "\<forall>i n. fnodes s i = Some n \<longrightarrow> i \<notin> set (as @ x # bs) \<longrightarrow> unlinked n"
proof -
  have hd: "hd (as @ x # bs) = hd (as @ [x])" by (cases as) simp_all
  have "lseg (fnodes s) (hd (as @ [x])) (as @ x # bs) None"
    using assms hd by (simp add: lru_is_def)
  then have *: "lseg (fnodes s) (hd (as @ [x])) as (Some x)"
      "lseg (fnodes s) (last (hd (as @ [x]) # as)) (x # bs) None"
    by (simp_all only: lseg_append list.case)
  show "lseg (fnodes s) (hd (as @ [x])) as (Some x)" by (rule *)
  show "lseg (fnodes s) (last (x # as)) (x # bs) None"
    using *(2) by (cases as) simp_all
  show "distinct (as @ x # bs)" using assms by (simp add: lru_is_def)
  show "as = [] \<Longrightarrow> lru_first s = Some x" using assms by (simp add: lru_is_def)
  show "as \<noteq> [] \<Longrightarrow> lru_first s = Some (hd as)" using assms by (cases as) (simp_all add: lru_is_def)
  show "bs = [] \<Longrightarrow> lru_last s = Some x" using assms by (simp add: lru_is_def)
  show "bs \<noteq> [] \<Longrightarrow> lru_last s = Some (last bs)" using assms by (simp add: lru_is_def)
  show "\<forall>i n. fnodes s i = Some n \<longrightarrow> i \<notin> set (as @ x # bs) \<longrightarrow> unlinked n"
    using assms by (simp add: lru_is_def)
qed

lemma lru_remove_middle:
  assumes l: "lru_is s (as' @ a # x # b # bs')"
  shows "wp (gp_filesystem_lru_remove_one x)
    (\<lambda>_ t. lru_is t (as' @ a # b # bs') \<and> lru_frame s t) (\<lambda>_ _. False) s"
proof -
  let ?h = "fnodes s"
  from lru_is_parts [of s "as' @ [a]" x "b # bs'"] l
  have d: "distinct (as' @ a # x # b # bs')"
    and f: "lru_first s = Some (hd (as' @ [a]))" and la: "lru_last s = Some (last (b # bs'))"
    and s1: "lseg ?h (hd (as' @ [a])) (as' @ [a]) (Some x)"
    and s2: "lseg ?h a (x # b # bs') None"
    and u: "\<forall>i n. ?h i = Some n \<longrightarrow> i \<notin> set (as' @ a # x # b # bs') \<longrightarrow> unlinked n"
    by (auto simp: hd_append)
  from s1 have s1': "lseg ?h (hd (as' @ [a])) as' (Some a)"
      and sa: "lseg ?h (last (hd (as' @ [a]) # as')) [a] (Some x)"
    by (simp_all add: lseg_append)
  from sa obtain na where na: "?h a = Some na" "lru_prev na = Some (last (hd (as' @ [a]) # as'))"
    by (auto split: option.splits)
  from s2 obtain nx where nx: "?h x = Some nx" "lru_prev nx = Some a" "lru_next nx = Some b"
      and s3: "lseg ?h x (b # bs') None"
    by (auto split: option.splits)
  from s3 obtain nb where nb: "?h b = Some nb" "lru_next nb = (case bs' of [] \<Rightarrow> None | y # _ \<Rightarrow> Some y)"
      and s4: "lseg ?h b bs' None"
    by (auto split: option.splits)
  define h' where "h' = ?h(a \<mapsto> na\<lparr>lru_next := Some b\<rparr>, b \<mapsto> nb\<lparr>lru_prev := Some a\<rparr>,
      x \<mapsto> nx\<lparr>lru_prev := None, lru_next := None\<rparr>)"
  have hdx: "hd (as' @ [a]) \<noteq> x" using d by (cases as') auto
  have lx: "last (b # bs') \<noteq> x"
    using d last_in_set [of "b # bs'"] by auto
  have "wp (gp_filesystem_lru_remove_one x) (\<lambda>_ t. t = s\<lparr>fnodes := h'\<rparr>) (\<lambda>_ _. False) s"
    unfolding gp_filesystem_lru_remove_one_def h'_def
    using d nx na nb f la hdx lx by (simp add: fun_upd_twist)
  moreover have "lru_is (s\<lparr>fnodes := h'\<rparr>) (as' @ a # b # bs')"
  proof -
    have "lseg h' (hd (as' @ [a])) as' (Some a)" using s1' d by (simp add: h'_def)
    moreover have "lseg h' (last (hd (as' @ [a]) # as')) [a] (Some b)"
      using na d by (simp add: h'_def)
    moreover have "lseg h' b bs' None" using s4 d by (simp add: h'_def)
    then have "lseg h' a (b # bs') None" using nb d by (simp add: h'_def)
    ultimately have "lseg h' (hd (as' @ [a])) (as' @ a # b # bs') None"
      using lseg_append [of h' "hd (as' @ [a])" as' "a # b # bs'" None]
        lseg_append [of h' "last (hd (as' @ [a]) # as')" "[a]" "b # bs'" None]
      by simp
    moreover have "\<forall>i n. h' i = Some n \<longrightarrow> i \<notin> set (as' @ a # b # bs') \<longrightarrow> unlinked n"
      using u by (auto simp: h'_def unlinked_def)
    ultimately show ?thesis
      using d f la by (cases as') (simp_all add: lru_is_def)
  qed
  moreover have "same_but_links ?h h'"
    unfolding h'_def using d na nb nx by (intro same_but_links_upd) auto
  ultimately show ?thesis
    by (auto elim!: wp_mono simp: lru_frame_def)
qed

lemma lru_remove_first:
  assumes l: "lru_is s (x # b # bs')"
  shows "wp (gp_filesystem_lru_remove_one x)
    (\<lambda>_ t. lru_is t (b # bs') \<and> lru_frame s t) (\<lambda>_ _. False) s"
proof -
  let ?h = "fnodes s"
  from lru_is_parts [of s "[]" x "b # bs'"] l
  have d: "distinct (x # b # bs')" and f: "lru_first s = Some x" and la: "lru_last s = Some (last (b # bs'))"
    and s2: "lseg ?h x (x # b # bs') None"
    and u: "\<forall>i n. ?h i = Some n \<longrightarrow> i \<notin> set (x # b # bs') \<longrightarrow> unlinked n"
    by auto
  from s2 obtain nx where nx: "?h x = Some nx" "lru_prev nx = Some x" "lru_next nx = Some b"
      and s3: "lseg ?h x (b # bs') None"
    by (auto split: option.splits)
  from s3 obtain nb where nb: "?h b = Some nb" "lru_next nb = (case bs' of [] \<Rightarrow> None | y # _ \<Rightarrow> Some y)"
      and s4: "lseg ?h b bs' None"
    by (auto split: option.splits)
  define h' where "h' = ?h(b \<mapsto> nb\<lparr>lru_prev := Some b\<rparr>, x \<mapsto> nx\<lparr>lru_prev := None, lru_next := None\<rparr>)"
  have lx: "last (b # bs') \<noteq> x"
    using d last_in_set [of "b # bs'"] by auto
  have "wp (gp_filesystem_lru_remove_one x) (\<lambda>_ t. t = s\<lparr>lru_first := Some b, fnodes := h'\<rparr>) (\<lambda>_ _. False) s"
    unfolding gp_filesystem_lru_remove_one_def h'_def
    using d nx nb f la lx by (simp add: fun_upd_twist)
  moreover have "lru_is (s\<lparr>lru_first := Some b, fnodes := h'\<rparr>) (b # bs')"
    using d la s4 nb u by (auto simp: lru_is_def h'_def unlinked_def)
  moreover have "same_but_links ?h h'"
    unfolding h'_def using d nx nb by (intro same_but_links_upd) auto
  ultimately show ?thesis
    by (auto elim!: wp_mono simp: lru_frame_def)
qed

lemma lru_remove_last:
  assumes l: "lru_is s (as' @ [a, x])"
  shows "wp (gp_filesystem_lru_remove_one x)
    (\<lambda>_ t. lru_is t (as' @ [a]) \<and> lru_frame s t) (\<lambda>_ _. False) s"
proof -
  let ?h = "fnodes s"
  from lru_is_parts [of s "as' @ [a]" x "[]"] l
  have d: "distinct (as' @ [a, x])"
    and f: "lru_first s = Some (hd (as' @ [a]))" and la: "lru_last s = Some x"
    and s1: "lseg ?h (hd (as' @ [a])) (as' @ [a]) (Some x)"
    and s2: "lseg ?h a [x] None"
    and u: "\<forall>i n. ?h i = Some n \<longrightarrow> i \<notin> set (as' @ [a, x]) \<longrightarrow> unlinked n"
    by (auto simp: hd_append)
  from s1 have s1': "lseg ?h (hd (as' @ [a])) as' (Some a)"
      and sa: "lseg ?h (last (hd (as' @ [a]) # as')) [a] (Some x)"
    by (simp_all add: lseg_append)
  from sa obtain na where na: "?h a = Some na" "lru_prev na = Some (last (hd (as' @ [a]) # as'))"
    by (auto split: option.splits)
  from s2 obtain nx where nx: "?h x = Some nx" "lru_prev nx = Some a" "lru_next nx = None"
    by (auto split: option.splits)
  define h' where "h' = ?h(a \<mapsto> na\<lparr>lru_next := None\<rparr>, x \<mapsto> nx\<lparr>lru_prev := None, lru_next := None\<rparr>)"
  have hdx: "hd (as' @ [a]) \<noteq> x" using d by (cases as') auto
  have "wp (gp_filesystem_lru_remove_one x) (\<lambda>_ t. t = s\<lparr>lru_last := Some a, fnodes := h'\<rparr>) (\<lambda>_ _. False) s"
    unfolding gp_filesystem_lru_remove_one_def h'_def
    using d nx na f la hdx by (simp add: fun_upd_twist)
  moreover have "lru_is (s\<lparr>lru_last := Some a, fnodes := h'\<rparr>) (as' @ [a])"
  proof -
    have "lseg h' (hd (as' @ [a])) as' (Some a)" using s1' d by (simp add: h'_def)
    moreover have "lseg h' (last (hd (as' @ [a]) # as')) [a] None"
      using na d by (simp add: h'_def)
    ultimately have "lseg h' (hd (as' @ [a])) (as' @ [a]) None"
      using lseg_append [of h' "hd (as' @ [a])" as' "[a]" None] by simp
    moreover have "\<forall>i n. h' i = Some n \<longrightarrow> i \<notin> set (as' @ [a]) \<longrightarrow> unlinked n"
      using u by (auto simp: h'_def unlinked_def)
    ultimately show ?thesis
      using d f by (cases as') (simp_all add: lru_is_def)
  qed
  moreover have "same_but_links ?h h'"
    unfolding h'_def using d na nx by (intro same_but_links_upd) auto
  ultimately show ?thesis
    by (auto elim!: wp_mono simp: lru_frame_def)
qed

lemma lru_remove_only:
  assumes l: "lru_is s [x]"
  shows "wp (gp_filesystem_lru_remove_one x) (\<lambda>_ t. lru_is t [] \<and> lru_frame s t) (\<lambda>_ _. False) s"
proof -
  let ?h = "fnodes s"
  from lru_is_parts [of s "[]" x "[]"] l
  have f: "lru_first s = Some x" and la: "lru_last s = Some x" and s2: "lseg ?h x [x] None"
    and u: "\<forall>i n. ?h i = Some n \<longrightarrow> i \<notin> set [x] \<longrightarrow> unlinked n"
    by auto
  from s2 obtain nx where nx: "?h x = Some nx" "lru_prev nx = Some x" "lru_next nx = None"
    by (auto split: option.splits)
  define h' where "h' = ?h(x \<mapsto> nx\<lparr>lru_prev := None, lru_next := None\<rparr>)"
  have "wp (gp_filesystem_lru_remove_one x)
      (\<lambda>_ t. t = s\<lparr>lru_first := None, lru_last := None, fnodes := h'\<rparr>) (\<lambda>_ _. False) s"
    unfolding gp_filesystem_lru_remove_one_def h'_def
    using nx f la by simp
  moreover have "lru_is (s\<lparr>lru_first := None, lru_last := None, fnodes := h'\<rparr>) []"
    using u by (auto simp: lru_is_def h'_def unlinked_def)
  moreover have "same_but_links ?h h'"
    unfolding h'_def using nx by (intro same_but_links_upd) auto
  ultimately show ?thesis
    by (auto elim!: wp_mono simp: lru_frame_def)
qed

text \<open>The three cases of the code, and the inner node it treats without naming it.\<close>

lemma lru_remove_one:
  assumes l: "lru_is s xs" and x: "x \<in> set xs"
  shows "wp (gp_filesystem_lru_remove_one x)
    (\<lambda>_ t. lru_is t (remove1 x xs) \<and> lru_frame s t) (\<lambda>_ _. False) s"
proof -
  from x obtain as bs where xs: "xs = as @ x # bs" and na: "x \<notin> set as"
    by (metis split_list_first)
  then have rem: "remove1 x xs = as @ bs" by (simp add: remove1_append)
  consider "as = []" "bs = []" | b bs' where "as = []" "bs = b # bs'"
    | as' a where "as = as' @ [a]" "bs = []" | as' a b bs' where "as = as' @ [a]" "bs = b # bs'"
    by (cases as rule: rev_cases; cases bs; auto)
  then show ?thesis
  proof cases
    case 1
    with l xs rem lru_remove_only [of s x] show ?thesis by simp
  next
    case 2
    with l xs rem lru_remove_first [of s x] show ?thesis by simp
  next
    case 3
    with l xs rem lru_remove_last [of s] show ?thesis by simp
  next
    case 4
    with l xs rem lru_remove_middle [of s] show ?thesis by simp
  qed
qed

text \<open>A node that is not in the list is refused and nothing changes.\<close>

lemma lru_remove_absent:
  assumes l: "lru_is s xs" and x: "x \<notin> set xs" and n: "fnodes s x = Some n"
  shows "gp_filesystem_lru_remove_one x s = (Inl GP_ERROR, s)"
proof -
  from l x n have "lru_prev n = None" by (auto simp: lru_is_def unlinked_def)
  with n show ?thesis
    by (simp add: gp_filesystem_lru_remove_one_def CR_def deref_file_def run_simps)
qed

section \<open>Clearing, counting, checking\<close>

lemma lseg_keys_below:
  "lseg h p xs n \<Longrightarrow> (\<And>i. h i \<noteq> None \<Longrightarrow> i < k) \<Longrightarrow> distinct xs \<Longrightarrow> length xs \<le> k"
proof -
  assume l: "lseg h p xs n" and k: "\<And>i. h i \<noteq> None \<Longrightarrow> i < k" and d: "distinct xs"
  have "set xs \<subseteq> {..<k}" using lseg_dom [OF l] k by auto
  then have "card (set xs) \<le> k"
    by (metis card_lessThan card_mono finite_lessThan)
  with d show "length xs \<le> k" by (simp add: distinct_card)
qed

lemma lru_length:
  assumes "lru_is s xs" and "fresh_addr s"
  shows "length xs \<le> next_addr s"
proof (cases xs)
  case (Cons x ys)
  with assms have "lseg (fnodes s) x xs None" "distinct xs" by (auto simp: lru_is_def)
  then show ?thesis using assms(2) by (auto intro: lseg_keys_below simp: fresh_addr_def)
qed simp

lemma lru_count_loop:
  "lseg (fnodes s) p xs None \<Longrightarrow> length xs \<le> k \<Longrightarrow>
   lru_count_loop k (case xs of [] \<Rightarrow> None | x # _ \<Rightarrow> Some x) c s =
     (Inr (c + length (filter (\<lambda>i. \<exists>x. fnodes s i = Some x \<and> has_content x) xs)), s)"
proof (induction xs arbitrary: k p c)
  case Nil
  then show ?case by (cases k) (simp_all add: run_simps)
next
  case (Cons x xs)
  then obtain k' where k: "k = Suc k'" by (cases k) auto
  from Cons.prems(1) obtain nd where nd: "fnodes s x = Some nd"
      "lru_next nd = (case xs of [] \<Rightarrow> None | y # _ \<Rightarrow> Some y)" and l: "lseg (fnodes s) x xs None"
    by (rule lseg_nodeE) simp
  from nd have "deref_file x s = (Inr nd, s)" by (simp add: deref_file_def)
  with nd l k Cons.IH [OF l, of k'] Cons.prems(2) show ?case
    by simp
qed

text \<open>The count is the number of nodes of the list that hold a picture.\<close>

lemma lru_count:
  assumes "lru_is s xs" and "fresh_addr s"
  shows "gp_filesystem_lru_count s =
    (Inr (length (filter (\<lambda>i. \<exists>x. fnodes s i = Some x \<and> has_content x) xs)), s)"
proof -
  have "\<exists>p. lseg (fnodes s) p xs None" using assms(1) by (cases xs) (auto simp: lru_is_def)
  then obtain p where "lseg (fnodes s) p xs None" ..
  from lru_count_loop [OF this lru_length [OF assms], of 0] assms(1) show ?thesis
    by (simp add: gp_filesystem_lru_count_def CR_def run_simps lru_is_def)
qed

lemma lru_check_loop:
  "lseg (fnodes s) p xs None \<Longrightarrow> length xs \<le> k \<Longrightarrow>
   lru_check_loop k (case xs of [] \<Rightarrow> None | x # _ \<Rightarrow> Some x) p s = (Inr (), s)"
proof (induction xs arbitrary: k p)
  case Nil
  then show ?case by (cases k) (simp_all add: run_simps)
next
  case (Cons x xs)
  then obtain k' where k: "k = Suc k'" by (cases k) auto
  from Cons.prems(1) obtain nd where nd: "fnodes s x = Some nd" "lru_prev nd = Some p"
      "lru_next nd = (case xs of [] \<Rightarrow> None | y # _ \<Rightarrow> Some y)" and l: "lseg (fnodes s) x xs None"
    by (rule lseg_nodeE) simp
  from nd have "deref_file x s = (Inr nd, s)" by (simp add: deref_file_def)
  with nd l k Cons.IH [OF l, of k'] Cons.prems(2) show ?case
    by simp
qed

text \<open>On a well-formed list the integrity check passes.\<close>

lemma lru_check:
  assumes "lru_is s xs" and "fresh_addr s"
  shows "gp_filesystem_lru_check s = (Inr (), s)"
proof (cases xs)
  case Nil
  with assms(1) show ?thesis by (simp add: gp_filesystem_lru_check_def CR_def run_simps lru_is_def)
next
  case (Cons x ys)
  with assms(1) have f: "lru_first s = Some x" and "lseg (fnodes s) x xs None" by (auto simp: lru_is_def)
  from lru_check_loop [OF this(2) lru_length [OF assms]] f Cons show ?thesis
    by (simp add: gp_filesystem_lru_check_def CR_def run_simps)
qed

lemma lru_clear_loop:
  "lseg (fnodes s) p xs None \<Longrightarrow> distinct xs \<Longrightarrow> length xs \<le> k \<Longrightarrow>
   wp (lru_clear_loop k (case xs of [] \<Rightarrow> None | x # _ \<Rightarrow> Some x) p)
     (\<lambda>_ t. \<exists>h. t = s\<lparr>fnodes := h\<rparr> \<and> same_but_links (fnodes s) h \<and>
        (\<forall>i\<in>set xs. \<exists>n. h i = Some n \<and> unlinked n) \<and>
        (\<forall>i. i \<notin> set xs \<longrightarrow> h i = fnodes s i)) (\<lambda>_ _. False) s"
proof (induction xs arbitrary: k p s)
  case Nil
  have "\<exists>h. s = s\<lparr>fnodes := h\<rparr> \<and> same_but_links (fnodes s) h \<and> (\<forall>i. h i = fnodes s i)"
    by (rule exI [of _ "fnodes s"]) simp
  moreover have "lru_clear_loop k None p = ok ()" by (cases k) simp_all
  ultimately show ?case by (simp del: fs.surjective)
next
  case (Cons x xs)
  then obtain k' where k: "k = Suc k'" by (cases k) auto
  from Cons.prems(1) obtain nd where nd: "fnodes s x = Some nd" "lru_prev nd = Some p"
      "lru_next nd = (case xs of [] \<Rightarrow> None | y # _ \<Rightarrow> Some y)" and l: "lseg (fnodes s) x xs None"
    by (rule lseg_nodeE) simp
  let ?nd = "nd\<lparr>lru_prev := None, lru_next := None\<rparr>"
  let ?s = "s\<lparr>fnodes := (fnodes s)(x \<mapsto> ?nd)\<rparr>"
  have l': "lseg (fnodes ?s) x xs None" using l Cons.prems(2) by simp
  have dk: "distinct xs" "length xs \<le> k'" and x: "x \<notin> set xs" using Cons.prems(2,3) k by auto
  have "wp (lru_clear_loop k' (case xs of [] \<Rightarrow> None | x # _ \<Rightarrow> Some x) x)
     (\<lambda>_ t. \<exists>h. t = s\<lparr>fnodes := h\<rparr> \<and> same_but_links (fnodes s) h \<and>
        (\<forall>i\<in>set (x # xs). \<exists>n. h i = Some n \<and> unlinked n) \<and>
        (\<forall>i. i \<notin> set (x # xs) \<longrightarrow> h i = fnodes s i)) (\<lambda>_ _. False) ?s"
  proof (rule wp_mono [OF Cons.IH [OF l' dk]])
    fix a t
    assume "\<exists>h. t = ?s\<lparr>fnodes := h\<rparr> \<and> same_but_links (fnodes ?s) h \<and>
        (\<forall>i\<in>set xs. \<exists>n. h i = Some n \<and> unlinked n) \<and> (\<forall>i. i \<notin> set xs \<longrightarrow> h i = fnodes ?s i)"
    then obtain h where h: "t = s\<lparr>fnodes := h\<rparr>" "same_but_links (fnodes ?s) h"
        "\<forall>i\<in>set xs. \<exists>n. h i = Some n \<and> unlinked n" "\<forall>i. i \<notin> set xs \<longrightarrow> h i = fnodes ?s i"
      by auto
    have "same_but_links (fnodes s) h" unfolding same_but_links_def
    proof
      fix i
      show "map_option (\<lambda>x. x\<lparr>lru_prev := None, lru_next := None\<rparr>) (fnodes s i) =
          map_option (\<lambda>x. x\<lparr>lru_prev := None, lru_next := None\<rparr>) (h i)"
        using h(2) nd(1) unfolding same_but_links_def by (cases "i = x") (auto dest: spec [of _ i])
    qed
    moreover have "h x = Some ?nd" using h(4) x by simp
    ultimately show "\<exists>h. t = s\<lparr>fnodes := h\<rparr> \<and> same_but_links (fnodes s) h \<and>
        (\<forall>i\<in>set (x # xs). \<exists>n. h i = Some n \<and> unlinked n) \<and>
        (\<forall>i. i \<notin> set (x # xs) \<longrightarrow> h i = fnodes s i)"
      using h by (intro exI [of _ h]) (simp add: unlinked_def)
  qed simp
  then show ?case
    using nd k by simp
qed

text \<open>Clearing empties the list, unlinks every node and leaves the cached data where they are.\<close>

lemma lru_clear:
  assumes l: "lru_is s xs" and f: "fresh_addr s"
  shows "wp gp_filesystem_lru_clear
    (\<lambda>_ t. lru_is t [] \<and> (\<exists>h z. t = s\<lparr>lru_first := None, lru_last := None, lru_size := z, fnodes := h\<rparr> \<and>
      same_but_links (fnodes s) h \<and> (xs \<noteq> [] \<longrightarrow> z = 0))) (\<lambda>_ _. False) s"
proof (cases xs)
  case Nil
  with l have "lru_first s = None" "lru_last s = None" by (auto simp: lru_is_def)
  then have "s = s\<lparr>lru_first := None, lru_last := None, lru_size := lru_size s, fnodes := fnodes s\<rparr>"
    by simp
  with Nil l \<open>lru_first s = None\<close> show ?thesis
    unfolding gp_filesystem_lru_clear_def by (simp, metis same_but_links_refl)
next
  case (Cons x ys)
  with l have first: "lru_first s = Some x" and sg: "lseg (fnodes s) x xs None" and d: "distinct xs"
    and u: "\<forall>i n. fnodes s i = Some n \<longrightarrow> i \<notin> set xs \<longrightarrow> unlinked n"
    by (auto simp: lru_is_def)
  from lru_clear_loop [OF sg d lru_length [OF l f]] Cons
  have "wp (lru_clear_loop (next_addr s) (Some x) x)
     (\<lambda>_ t. \<exists>h. t = s\<lparr>fnodes := h\<rparr> \<and> same_but_links (fnodes s) h \<and>
        (\<forall>i\<in>set xs. \<exists>n. h i = Some n \<and> unlinked n) \<and>
        (\<forall>i. i \<notin> set xs \<longrightarrow> h i = fnodes s i)) (\<lambda>_ _. False) s"
    by simp
  then show ?thesis
    unfolding gp_filesystem_lru_clear_def wp_CR wp_gets first option.case wp_set_lru wp_modify
  proof (rule wp_mono)
    fix a t
    assume "\<exists>h. t = s\<lparr>fnodes := h\<rparr> \<and> same_but_links (fnodes s) h \<and>
        (\<forall>i\<in>set xs. \<exists>n. h i = Some n \<and> unlinked n) \<and> (\<forall>i. i \<notin> set xs \<longrightarrow> h i = fnodes s i)"
    then obtain h where h: "t = s\<lparr>fnodes := h\<rparr>" "same_but_links (fnodes s) h"
        "\<forall>i\<in>set xs. \<exists>n. h i = Some n \<and> unlinked n" "\<forall>i. i \<notin> set xs \<longrightarrow> h i = fnodes s i"
      by auto
    have un: "unlinked n" if "h i = Some n" for i n
      using that h(3,4) u by (cases "i \<in> set xs") fastforce+
    show "lru_is (t\<lparr>lru_first := None, lru_last := None, lru_size := 0\<rparr>) [] \<and>
        (\<exists>h z. t\<lparr>lru_first := None, lru_last := None, lru_size := 0\<rparr> =
           s\<lparr>lru_first := None, lru_last := None, lru_size := z, fnodes := h\<rparr> \<and>
           same_but_links (fnodes s) h \<and> (xs \<noteq> [] \<longrightarrow> z = 0))"
      using un h(2) by (auto simp: lru_is_def h(1) intro!: exI [of _ h] exI [of _ "0 :: 64 word"])
  qed simp
qed

section \<open>Linking a node in\<close>

lemma lru_link_last:
  assumes l: "lru_is s xs" and x: "x \<notin> set xs" and n: "fnodes s x = Some nd"
  shows "wp (lru_link_last x) (\<lambda>_ t. lru_is t (xs @ [x]) \<and> lru_frame s t) (\<lambda>_ _. False) s"
proof (cases xs rule: rev_cases)
  case Nil
  from l x n have un: "unlinked nd" by (auto simp: lru_is_def)
  let ?h = "(fnodes s)(x \<mapsto> nd\<lparr>lru_prev := Some x\<rparr>)"
  have "wp (lru_link_last x) (\<lambda>_ t. t = s\<lparr>lru_first := Some x, lru_last := Some x, fnodes := ?h\<rparr>) (\<lambda>_ _. False) s"
    using Nil l n by (simp add: lru_link_last_def lru_is_def)
  moreover have "same_but_links (fnodes s) ?h"
    using n by (intro same_but_links_upd) auto
  ultimately show ?thesis
    using Nil l un by (auto elim!: wp_mono simp: lru_is_def lru_frame_def unlinked_def)
next
  case (snoc ys a)
  from lru_is_parts [of s ys a "[]"] l snoc
  have d: "distinct (ys @ [a])" and f: "lru_first s = Some (hd (ys @ [a]))" and la: "lru_last s = Some a"
    and s1: "lseg (fnodes s) (hd (ys @ [a])) ys (Some a)" and s2: "lseg (fnodes s) (last (a # ys)) [a] None"
    and u: "\<forall>i n. fnodes s i = Some n \<longrightarrow> i \<notin> set (ys @ [a]) \<longrightarrow> unlinked n"
    by (cases ys; auto)+
  from s2 obtain na where na: "fnodes s a = Some na" "lru_prev na = Some (last (a # ys))"
    by (auto split: option.splits)
  define h' where "h' = (fnodes s)(x \<mapsto> nd\<lparr>lru_next := None, lru_prev := Some a\<rparr>, a \<mapsto> na\<lparr>lru_next := Some x\<rparr>)"
  have xa: "x \<noteq> a" "x \<notin> set ys" using x snoc by auto
  have "wp (lru_link_last x) (\<lambda>_ t. t = s\<lparr>lru_last := Some x, fnodes := h'\<rparr>) (\<lambda>_ _. False) s"
    using f la n na xa by (simp add: lru_link_last_def h'_def)
  moreover have "lru_is (s\<lparr>lru_last := Some x, fnodes := h'\<rparr>) (ys @ [a, x])"
  proof -
    have "lseg h' (hd (ys @ [a])) ys (Some a)" using s1 d xa by (simp add: h'_def)
    moreover have "lseg h' (last (a # ys)) [a, x] None" using na d xa by (simp add: h'_def)
    moreover have "last (hd (ys @ [a]) # ys) = last (a # ys)" by (cases ys) simp_all
    ultimately have "lseg h' (hd (ys @ [a])) (ys @ [a, x]) None"
      by (simp only: lseg_append list.case)
    moreover have "\<forall>i n. h' i = Some n \<longrightarrow> i \<notin> set (ys @ [a, x]) \<longrightarrow> unlinked n"
      using u by (auto simp: h'_def)
    moreover have "hd (ys @ [a, x]) = hd (ys @ [a])" by (cases ys) simp_all
    ultimately show ?thesis
      using d f xa by (cases ys) (simp_all add: lru_is_def)
  qed
  moreover have "same_but_links (fnodes s) h'"
    unfolding h'_def using n na xa by (intro same_but_links_upd) auto
  ultimately show ?thesis
    using snoc by (auto elim!: wp_mono simp: lru_frame_def)
qed


section \<open>Freeing the oldest\<close>

text \<open>
  Front-ends hand memory files to the cache; for them the size is at hand and closing has
  no effect on the system.
\<close>

definition mem_objects :: "'w fs \<Rightarrow> bool" where
  "mem_objects s \<longleftrightarrow> (\<forall>c f. objects s c = Some f \<longrightarrow> accesstype f = GP_FILE_ACCESSTYPE_MEMORY)"

lemma mem_objectsD: "mem_objects s \<Longrightarrow> objects s c = Some f \<Longrightarrow> accesstype f = GP_FILE_ACCESSTYPE_MEMORY"
  by (simp add: mem_objects_def)

lemma cache_ok_cong:
  assumes "cache_ok s" "fnodes t = fnodes s" "objects t = objects s" "next_addr t = next_addr s"
  shows "cache_ok t"
  using assms by (simp add: cache_ok_def fresh_addr_def)

text \<open>The references to an object that are not the cache's.\<close>

definition other_refs :: "'w fs \<Rightarrow> nat \<Rightarrow> int" where
  "other_refs s c = (case objects s c of None \<Rightarrow> 0 | Some f \<Rightarrow> cf_ref_count f) - int (card (cache_slots (fnodes s) c))"

lemma other_refs_same: "same_views (fnodes s) (fnodes t) \<Longrightarrow> objects t = objects s \<Longrightarrow> other_refs t = other_refs s"
  by (rule ext) (simp add: other_refs_def cache_slots_bind same_views_def)

lemma other_refs_drop:
  assumes ck: "cache_ok s" and x: "fnodes s i = Some x" and c: "cached ty x = Some c" and f: "objects s c = Some f"
    and t: "fnodes t = (fnodes s)(i \<mapsto> set_cached ty None x)"
      "objects t = (objects s)(c := if cf_ref_count f = 1 then None else Some (f\<lparr>cf_ref_count := cf_ref_count f - 1\<rparr>))"
  shows "other_refs t = other_refs s"
proof
  fix d
  have slots: "cache_slots (fnodes t) d = (if d = c then cache_slots (fnodes s) c - {(i, ty)} else cache_slots (fnodes s) d)"
    using cache_slots_drop [where h = "fnodes s" and i = i and d = d, OF x c] by (simp add: t)
  have "finite (cache_slots (fnodes s) c)" by (rule finite_cache_slots [OF cache_ok_fresh [OF ck]])
  moreover have "(i, ty) \<in> cache_slots (fnodes s) c" using x c by (auto simp: cache_slots_def)
  ultimately have "card (cache_slots (fnodes s) c) = Suc (card (cache_slots (fnodes s) c - {(i, ty)}))" by (rule card.remove)
  with slots f show "other_refs t d = other_refs s d" by (auto simp: other_refs_def t split: option.split)
qed

text \<open>What pruning the cache never touches; of the references to objects it gives up just those of the views that it drops.\<close>

definition prune_frame :: "'w fs \<Rightarrow> 'w fs \<Rightarrow> bool" where
  "prune_frame s t \<longleftrightarrow> rootfolder t = rootfolder s \<and> next_addr t = next_addr s \<and> funcs t = funcs s \<and>
     pictures_to_keep t = pictures_to_keep s \<and> cached_images t = cached_images s \<and>
     mem_ok t = mem_ok s \<and> env t = env s \<and> other_refs t = other_refs s"

lemma prune_frame_refl [simp]: "prune_frame s s"
  by (simp add: prune_frame_def)

lemma prune_frame_trans: "prune_frame s t \<Longrightarrow> prune_frame t u \<Longrightarrow> prune_frame s u"
  by (simp add: prune_frame_def)

lemma wp_free_view:
  assumes ck: "cache_ok s" and mo: "mem_objects s" and x: "fnodes s i = Some x"
    and Q: "\<And>t. cache_ok t \<Longrightarrow> mem_objects t \<Longrightarrow> prune_frame s t \<Longrightarrow>
      fnodes t = (fnodes s)(i \<mapsto> set_cached ty None x) \<Longrightarrow> lru_first t = lru_first s \<Longrightarrow>
      lru_last t = lru_last s \<Longrightarrow> Q () t"
  shows "wp (free_view os i ty) Q E s"
proof (cases "cached ty x")
  case None
  have "(fnodes s)(i \<mapsto> set_cached ty None x) = fnodes s"
    using x set_cached_same [OF None] by auto
  with Q [of s] ck mo None x show ?thesis by (simp add: free_view_def)
next
  case (Some c)
  have "(i, ty) \<in> cache_slots (fnodes s) c" using x Some by (auto simp: cache_slots_def)
  with cache_ok_None [OF ck] have "objects s c \<noteq> None" by blast
  then obtain f where f: "objects s c = Some f" by auto
  note m = mem_objectsD [OF mo f]
  let ?obj = "(objects s)(c := if cf_ref_count f = 1 then None else Some (f\<lparr>cf_ref_count := cf_ref_count f - 1\<rparr>))"
  let ?t = "s\<lparr>lru_size := lru_size s - of_nat (cf_size f), objects := ?obj,
              fnodes := (fnodes s)(i \<mapsto> set_cached ty None x)\<rparr>"
  have "cache_ok ?t"
    by (rule cache_ok_cong [OF cache_ok_drop [OF ck x Some f, of "env s"]]) simp_all
  moreover have "mem_objects ?t" using mo m by (auto simp: mem_objects_def)
  moreover have "prune_frame s ?t" using other_refs_drop [OF ck x Some f, of ?t] by (simp add: prune_frame_def)
  ultimately have "Q () ?t" by (intro Q) simp_all
  then show ?thesis
    using x Some f m
    by (cases "cf_ref_count f = 1") (simp_all add: free_view_def gp_file_get_data_and_size_def
        unref_object_def gp_file_unref_def gp_file_free_def gp_file_clean_def Let_def)
qed

text \<open>The list without its first node, and the end pointers the code leaves.\<close>

definition no_content :: "CameraFilesystemFile \<Rightarrow> CameraFilesystemFile" where
  "no_content x = x\<lparr>normal := None, raw := None, audio := None\<rparr>"

lemma has_content_no_content [simp]: "\<not> has_content (no_content x)"
  by (simp add: has_content_def no_content_def)

lemma has_content_links [simp]:
  "has_content (x\<lparr>lru_prev := p\<rparr>) = has_content x" "has_content (x\<lparr>lru_next := p\<rparr>) = has_content x"
  by (simp_all add: has_content_def)

definition free_head :: "(nat \<Rightarrow> CameraFilesystemFile option) \<Rightarrow> nat \<Rightarrow> nat list \<Rightarrow> (nat \<Rightarrow> CameraFilesystemFile option)" where
  "free_head h x xs = (case xs of [] \<Rightarrow> h | n # _ \<Rightarrow> h(n := map_option (\<lambda>y. y\<lparr>lru_prev := Some n\<rparr>) (h n)))
     (x := map_option (\<lambda>y. (no_content y)\<lparr>lru_next := None, lru_prev := None\<rparr>) (h x))"

lemma lru_is_free_head:
  assumes l: "lru_is s (x # xs)" and f: "fnodes t = free_head (fnodes s) x xs"
    and e: "lru_first t = (case xs of [] \<Rightarrow> None | n # _ \<Rightarrow> Some n)"
      "lru_last t = (if xs = [] then None else lru_last s)"
  shows "lru_is t xs"
proof (cases xs)
  case Nil
  with l f e show ?thesis by (auto simp: lru_is_def free_head_def unlinked_def split: if_splits)
next
  case (Cons n ys)
  with l have d: "distinct (x # n # ys)" and la: "lru_last s = Some (last (n # ys))"
    and u: "\<forall>i nd. fnodes s i = Some nd \<longrightarrow> i \<notin> set (x # n # ys) \<longrightarrow> unlinked nd"
    and s2: "lseg (fnodes s) x (n # ys) None"
    by (auto simp: lru_is_def split: option.splits)
  from s2 obtain nn where nn: "fnodes s n = Some nn" "lru_next nn = (case ys of [] \<Rightarrow> None | y # _ \<Rightarrow> Some y)"
      "lseg (fnodes s) n ys None"
    by (rule lseg_nodeE)
  have "lseg (fnodes t) n ys None" using nn(3) d by (simp add: f free_head_def Cons)
  moreover have "\<forall>i nd. fnodes t i = Some nd \<longrightarrow> i \<notin> set (n # ys) \<longrightarrow> unlinked nd"
    using u by (auto simp: f free_head_def Cons unlinked_def split: if_splits)
  ultimately show ?thesis
    using d nn e la by (simp add: lru_is_def Cons f free_head_def)
qed

lemma lru_free:
  assumes l: "lru_is s (x # xs)" and ck: "cache_ok s" and mo: "mem_objects s"
  shows "wp (gp_filesystem_lru_free os)
    (\<lambda>_ t. lru_is t xs \<and> cache_ok t \<and> mem_objects t \<and> prune_frame s t \<and>
       fnodes t = free_head (fnodes s) x xs) (\<lambda>_ _. False) s"
proof -
  from l have f: "lru_first s = Some x" and d: "distinct (x # xs)" by (simp_all add: lru_is_def)
  from l obtain nd where nd: "fnodes s x = Some nd" "lru_next nd = (case xs of [] \<Rightarrow> None | y # _ \<Rightarrow> Some y)"
      "lseg (fnodes s) x xs None"
    by (auto simp: lru_is_def split: option.splits)
  let ?h = "case xs of [] \<Rightarrow> fnodes s | n # _ \<Rightarrow> (fnodes s)(n := map_option (\<lambda>y. y\<lparr>lru_prev := Some n\<rparr>) (fnodes s n))"
  let ?s = "s\<lparr>lru_first := lru_next nd, lru_last := (if xs = [] then None else lru_last s), fnodes := ?h\<rparr>"
  have dom: "fnodes s (hd xs) \<noteq> None" if "xs \<noteq> []"
    using nd(3) that by (cases xs) (auto split: option.splits)
  have x: "fnodes ?s x = Some nd" using nd(1) d by (auto split: list.split)
  have sv: "same_views (fnodes s) (fnodes ?s)"
  proof (cases xs)
    case (Cons n ys)
    with dom obtain nn where "fnodes s n = Some nn" by auto
    moreover have "cached t (nn\<lparr>lru_prev := p\<rparr>) = cached t nn" for t p by (cases t) simp_all
    ultimately show ?thesis using Cons by (simp add: same_views_def)
  qed (simp add: same_views_def)
  have ck': "cache_ok ?s" by (rule cache_ok_same [OF ck sv]) simp_all
  have mo': "mem_objects ?s" using mo by (simp add: mem_objects_def)
  have pf: "prune_frame s ?s" using other_refs_same [OF sv] by (simp add: prune_frame_def)
  have *: "wp (CR (free_view os x GP_FILE_TYPE_NORMAL) (\<lambda>_. CR (free_view os x GP_FILE_TYPE_RAW) (\<lambda>_.
      CR (free_view os x GP_FILE_TYPE_AUDIO) (\<lambda>_. write_file x (\<lambda>y. y\<lparr>lru_next := None, lru_prev := None\<rparr>)))))
    (\<lambda>_ t. lru_is t xs \<and> cache_ok t \<and> mem_objects t \<and> prune_frame s t \<and>
       fnodes t = free_head (fnodes s) x xs) (\<lambda>_ _. False) ?s"
    unfolding wp_CR
  proof (rule wp_free_view [OF ck' mo' x], erule (1) wp_free_view, simp only: fun_upd_same,
      erule (1) wp_free_view, simp only: fun_upd_same)
    fix t1 t2 t3
    assume ck3: "cache_ok t3" and mo3: "mem_objects t3"
      and p: "prune_frame ?s t1" "prune_frame t1 t2" "prune_frame t2 t3"
      and f: "fnodes t1 = (fnodes ?s)(x \<mapsto> set_cached GP_FILE_TYPE_NORMAL None nd)"
        "fnodes t2 = (fnodes t1)(x \<mapsto> set_cached GP_FILE_TYPE_RAW None (set_cached GP_FILE_TYPE_NORMAL None nd))"
        "fnodes t3 = (fnodes t2)(x \<mapsto> set_cached GP_FILE_TYPE_AUDIO None (set_cached GP_FILE_TYPE_RAW None
           (set_cached GP_FILE_TYPE_NORMAL None nd)))"
      and e: "lru_first t1 = lru_first ?s" "lru_last t1 = lru_last ?s" "lru_first t2 = lru_first t1"
        "lru_last t2 = lru_last t1" "lru_first t3 = lru_first t2" "lru_last t3 = lru_last t2"
    let ?n = "no_content nd"
    let ?t = "t3\<lparr>fnodes := (fnodes t3)(x \<mapsto> ?n\<lparr>lru_next := None, lru_prev := None\<rparr>)\<rparr>"
    have f3: "fnodes t3 x = Some ?n" by (simp add: f no_content_def)
    have ft: "fnodes ?t = free_head (fnodes s) x xs"
      using nd(1) d by (auto simp: f free_head_def split: list.split)
    have "cached t (?n\<lparr>lru_next := None, lru_prev := None\<rparr>) = cached t ?n" for t by (cases t) simp_all
    then have sv: "same_views (fnodes t3) (fnodes ?t)" using f3 by (simp add: same_views_def)
    have "cache_ok ?t" by (rule cache_ok_same [OF ck3 sv]) simp_all
    moreover have "mem_objects ?t" using mo3 by (simp add: mem_objects_def)
    moreover have "prune_frame s ?t" using p pf other_refs_same [OF sv] by (simp add: prune_frame_def)
    moreover have "lru_is ?t xs"
      by (rule lru_is_free_head [OF l ft]) (simp_all add: e nd(2))
    ultimately show "wp (write_file x (\<lambda>y. y\<lparr>lru_next := None, lru_prev := None\<rparr>))
        (\<lambda>_ t. lru_is t xs \<and> cache_ok t \<and> mem_objects t \<and> prune_frame s t \<and>
       fnodes t = free_head (fnodes s) x xs) (\<lambda>_ _. False) t3"
      using f3 ft by simp
  qed
  show ?thesis
  proof (cases xs)
    case Nil
    with * nd f show ?thesis by (simp add: gp_filesystem_lru_free_def)
  next
    case (Cons n ys)
    with dom obtain nn where "fnodes s n = Some nn" by auto
    with Cons * nd f show ?thesis by (simp add: gp_filesystem_lru_free_def)
  qed
qed


section \<open>Pruning\<close>

definition pics :: "(nat \<Rightarrow> CameraFilesystemFile option) \<Rightarrow> nat list \<Rightarrow> nat" where
  "pics h xs = length (filter (\<lambda>i. \<exists>x. h i = Some x \<and> has_content x) xs)"

lemma cached_prev [simp]: "cached ty (y\<lparr>lru_prev := p\<rparr>) = cached ty y"
  by (cases ty) simp_all

lemma free_head_at:
  assumes "i \<noteq> x"
  shows "free_head h x xs i = h i \<or>
    (\<exists>y p. h i = Some y \<and> free_head h x xs i = Some (y\<lparr>lru_prev := p\<rparr>))"
proof (cases xs)
  case (Cons n ys)
  with assms show ?thesis by (cases "i = n"; cases "h i") (auto simp: free_head_def)
qed (use assms in \<open>simp add: free_head_def\<close>)

lemma free_head_other:
  assumes "i \<noteq> x"
  shows "map_option has_content (free_head h x xs i) = map_option has_content (h i)"
    and "Option.bind (free_head h x xs i) (cached ty) = Option.bind (h i) (cached ty)"
  using free_head_at [OF assms, of h xs] by auto

lemma pics_cong:
  assumes "\<And>i. i \<in> set xs \<Longrightarrow> map_option has_content (h i) = map_option has_content (h' i)"
  shows "pics h xs = pics h' xs"
proof -
  have e: "(\<exists>x. h i = Some x \<and> has_content x) = (map_option has_content (h i) = Some True)" for h i
    by auto
  show ?thesis unfolding pics_def e
    by (rule arg_cong [OF filter_cong [OF refl]]) (simp only: assms)
qed

lemma pics_free_head: "x \<notin> set ys \<Longrightarrow> pics (free_head h x xs) ys = pics h ys"
  by (rule pics_cong, rule free_head_other(1)) auto

lemma pics_le: "pics h xs \<le> length xs"
  by (simp add: pics_def)

lemma lru_count_pics:
  "lru_is s xs \<Longrightarrow> fresh_addr s \<Longrightarrow> gp_filesystem_lru_count s = (Inr (pics (fnodes s) xs), s)"
  by (simp add: lru_count pics_def)

definition large_views :: "CameraFileType set" where
  "large_views = {GP_FILE_TYPE_NORMAL, GP_FILE_TYPE_RAW, GP_FILE_TYPE_AUDIO}"

lemma free_head_views:
  "Option.bind (free_head h x xs i) (cached ty) = (if i = x \<and> ty \<in> large_views then None else Option.bind (h i) (cached ty))"
proof (cases "i = x")
  case True
  then show ?thesis by (cases ty; cases "h x") (simp_all add: free_head_def large_views_def no_content_def)
next
  case False
  then show ?thesis by (simp add: free_head_other(2))
qed

definition pruned :: "'w fs \<Rightarrow> nat list \<Rightarrow> 'w fs \<Rightarrow> nat \<Rightarrow> bool" where
  "pruned s xs t k \<longleftrightarrow> lru_is t (drop k xs) \<and> cache_ok t \<and> mem_objects t \<and> prune_frame s t \<and>
     int (pics (fnodes s) (drop k xs)) \<le> pictures_to_keep s \<and>
     (\<forall>j<k. pictures_to_keep s < int (pics (fnodes s) (drop j xs))) \<and>
     (\<forall>i ty. Option.bind (fnodes t i) (cached ty) = (if i \<in> set (take k xs) \<and> ty \<in> large_views then None else Option.bind (fnodes s i) (cached ty)))"

lemma pruned_free_head:
  assumes "pruned u xs t k" and "fnodes u = free_head (fnodes s) x xs" and "prune_frame s u"
    and "x \<notin> set xs" and "pictures_to_keep s < int (pics (fnodes s) (x # xs))"
  shows "pruned s (x # xs) t (Suc k)"
proof -
  have p: "pics (fnodes u) (drop j xs) = pics (fnodes s) (drop j xs)" for j
    unfolding assms(2) using assms(4) by (intro pics_free_head) (auto dest: in_set_dropD)
  have b: "Option.bind (fnodes u i) (cached ty) = (if i = x \<and> ty \<in> large_views then None else Option.bind (fnodes s i) (cached ty))" for i ty
    unfolding assms(2) by (rule free_head_views)
  have "pictures_to_keep s < int (pics (fnodes s) (drop j (x # xs)))" if "j < Suc k" for j
    using that assms(1,3,5) p by (cases j) (simp_all add: pruned_def prune_frame_def)
  with assms p b show ?thesis
    by (simp add: pruned_def prune_frame_def)
qed

text \<open>
  The pruning loop ends, within as many rounds as the list is long, frees the oldest nodes and
  no more of them than needed, and leaves the number of pictures within the limit.
\<close>

lemma lru_prune:
  assumes "lru_is s xs" "cache_ok s" "mem_objects s" "0 \<le> pictures_to_keep s" "length xs \<le> fuel"
  shows "wp (lru_prune fuel os) (\<lambda>_ t. \<exists>k. pruned s xs t k) (\<lambda>_ _. False) s"
  using assms
proof (induction xs arbitrary: s fuel)
  case Nil
  note c = lru_count_pics [OF Nil(1) cache_ok_fresh [OF Nil(2)]]
  have "pruned s [] s 0" using Nil by (simp add: pruned_def pics_def)
  with c Nil(4) show ?case
    by (subst lru_prune.simps) (auto simp: wp_def CR_def run_simps pics_def)
next
  case (Cons x xs)
  note c = lru_count_pics [OF Cons.prems(1) cache_ok_fresh [OF Cons.prems(2)]]
  obtain k' where k: "fuel = Suc k'" "length xs \<le> k'" using Cons.prems(5) by (cases fuel) auto
  show ?case
  proof (cases "int (pics (fnodes s) (x # xs)) > pictures_to_keep s")
    case False
    then have "pruned s (x # xs) s 0" using Cons.prems by (simp add: pruned_def)
    with c False show ?thesis
      by (subst lru_prune.simps) (auto simp: wp_def CR_def run_simps)
  next
    case True
    have d: "x \<notin> set xs" using Cons.prems(1) by (simp add: lru_is_def)
    have "wp (CR (gp_filesystem_lru_free os) (\<lambda>_. lru_prune k' os)) (\<lambda>_ t. \<exists>k. pruned s (x # xs) t k) (\<lambda>_ _. False) s"
      unfolding wp_CR
    proof (rule wp_mono [OF lru_free [OF Cons.prems(1-3)]])
      fix a u
      assume u: "lru_is u xs \<and> cache_ok u \<and> mem_objects u \<and> prune_frame s u \<and>
        fnodes u = free_head (fnodes s) x xs"
      then have "0 \<le> pictures_to_keep u" using Cons.prems(4) by (simp add: prune_frame_def)
      with Cons.IH [of u k'] u k have "wp (lru_prune k' os) (\<lambda>_ t. \<exists>k. pruned u xs t k) (\<lambda>_ _. False) u"
        by simp
      then show "wp (lru_prune k' os) (\<lambda>_ t. \<exists>k. pruned s (x # xs) t k) (\<lambda>_ _. False) u"
        by (rule wp_mono) (use u d True pruned_free_head in blast)+
    qed
    with c True k show ?thesis
      by (subst lru_prune.simps) (simp add: wp_def CR_def run_simps)
  qed
qed

end
