(* ===== verification/Gp_Tree.thy ===== *)
theory Gp_Tree imports Gp_Fs_Data "HOL-Library.Multiset" begin

text \<open>
  The folder tree as an algebraic structure: paths and their components, the walk from a
  folder along a path, what an update of one folder does to the numbers and the file lists of
  the whole tree.
\<close>

section \<open>Paths\<close>

text \<open>The names a path is made of; runs of slashes separate, leading and trailing ones do not count.\<close>

function components :: "string \<Rightarrow> string list" where
  "components p = (if skip_slashes p = [] then []
     else upto_slash (skip_slashes p) # components (from_slash (skip_slashes p)))"
  by pat_completeness auto
termination
proof (relation "measure length")
  fix p :: string
  assume "skip_slashes p \<noteq> []"
  then obtain a as where as: "skip_slashes p = a # as" by (cases "skip_slashes p") auto
  from from_slash_shorter [OF as] as length_skip_slashes [of p]
  show "(from_slash (skip_slashes p), p) \<in> measure length" by simp
qed simp

declare components.simps [simp del]

lemma components_Nil [simp]: "components [] = []"
  by (subst components.simps) (simp add: skip_slashes_def)

lemma components_slash: "components (CHR ''/'' # p) = components p"
  by (subst (1 2) components.simps) (simp add: skip_slashes_def)

lemma components_skip: "components (skip_slashes p) = components p"
  by (induction p) (simp_all add: skip_slashes_def components_slash)

definition is_name :: "string \<Rightarrow> bool" where
  "is_name n \<longleftrightarrow> n \<noteq> [] \<and> CHR ''/'' \<notin> set n"

lemma components_names: "n \<in> set (components p) \<Longrightarrow> is_name n"
proof (induction p rule: components.induct)
  case (1 p)
  show ?case
  proof (cases "skip_slashes p")
    case Nil
    with 1 show ?thesis by (simp add: components.simps)
  next
    case (Cons a as)
    then have "a \<noteq> CHR ''/''" by (rule skip_slashes_hd)
    with Cons have "is_name (upto_slash (skip_slashes p))"
      using upto_slash_no_slash [of "skip_slashes p"] by (simp add: is_name_def upto_slash_def)
    moreover have "components p = upto_slash (skip_slashes p) # components (from_slash (skip_slashes p))"
      using Cons by (subst components.simps) simp
    ultimately show ?thesis using 1 Cons by auto
  qed
qed

text \<open>The path with the given names, in normal form.\<close>

definition path_of :: "string list \<Rightarrow> string" where
  "path_of ns = concat (map (\<lambda>n. CHR ''/'' # n) ns)"

lemma components_Cons_name:
  assumes "is_name n" and "rest = [] \<or> (\<exists>r. rest = CHR ''/'' # r)"
  shows "components (n @ rest) = n # components rest"
proof -
  have sk: "skip_slashes (n @ rest) = n @ rest"
    using assms(1) by (cases n) (auto simp: is_name_def skip_slashes_def)
  have all: "\<And>x. x \<in> set n \<Longrightarrow> x \<noteq> CHR ''/''" using assms(1) by (auto simp: is_name_def)
  have up: "upto_slash (n @ rest) = n"
    using assms(2) takeWhile_append2 [of n "\<lambda>c. c \<noteq> CHR ''/''" rest] all by (auto simp: upto_slash_def)
  have fr: "from_slash (n @ rest) = rest"
    using assms(2) dropWhile_append2 [of n "\<lambda>c. c \<noteq> CHR ''/''" rest] all by (auto simp: from_slash_def)
  have "n @ rest \<noteq> []" using assms(1) by (simp add: is_name_def)
  then show ?thesis by (subst components.simps) (simp only: sk up fr if_False)
qed

lemma components_path_of: "(\<And>n. n \<in> set ns \<Longrightarrow> is_name n) \<Longrightarrow> components (path_of ns) = ns"
proof (induction ns)
  case Nil
  then show ?case by (simp add: path_of_def)
next
  case (Cons n ns)
  have "path_of ns = [] \<or> (\<exists>r. path_of ns = CHR ''/'' # r)"
    by (cases ns) (simp_all add: path_of_def)
  with Cons components_Cons_name [of n "path_of ns"] show ?case
    by (simp add: path_of_def components_slash)
qed

section \<open>The walk along a path\<close>

fun walk :: "string list \<Rightarrow> folder \<Rightarrow> folder option" where
  "walk [] f = Some f"
| "walk (n # ns) f = (case find (\<lambda>g. fo_name g = n) (folders f) of
     None \<Rightarrow> None | Some g \<Rightarrow> walk ns g)"

text \<open>No folder the walk looks into is dirty.\<close>

fun clean_walk :: "string list \<Rightarrow> folder \<Rightarrow> bool" where
  "clean_walk [] f \<longleftrightarrow> True"
| "clean_walk (n # ns) f \<longleftrightarrow> \<not> folders_dirty f \<and>
     (case find (\<lambda>g. fo_name g = n) (folders f) of None \<Rightarrow> True | Some g \<Rightarrow> clean_walk ns g)"

lemma find_SomeD: "find P xs = Some x \<Longrightarrow> x \<in> set xs \<and> P x"
  by (auto simp: find_Some_iff)

lemma walk_find:
  "find_folder i r = Some f \<Longrightarrow> distinct (ids r) \<Longrightarrow> walk ns f = Some g \<Longrightarrow>
     find_folder (fo_id g) r = Some g"
proof (induction ns arbitrary: i f)
  case Nil
  then show ?case using find_folder_id(1) by fastforce
next
  case (Cons n ns)
  then obtain h where h: "find (\<lambda>g. fo_name g = n) (folders f) = Some h" "walk ns h = Some g"
    by (auto split: option.splits)
  from find_SomeD [OF h(1)] have "find_folder (fo_id h) r = Some h"
    using find_child(1) [OF Cons.prems(1,2)] by simp
  with Cons.IH Cons.prems h show ?case by blast
qed

section \<open>Updating one folder\<close>

text \<open>The file lists of all folders of a tree.\<close>

fun file_lists :: "folder \<Rightarrow> nat list list" and file_lists_of :: "folder list \<Rightarrow> nat list list" where
  "file_lists (Folder j n a b fs xs) = xs # file_lists_of fs"
| "file_lists_of [] = []"
| "file_lists_of (f # fs) = file_lists f @ file_lists_of fs"

lemma concat_file_lists:
  "concat (file_lists f) = nodes f" "concat (file_lists_of fs) = nodes_list fs"
  by (induction f and fs rule: file_lists_file_lists_of.induct) auto

text \<open>
  The tree around a folder: what it adds to the numbers and to the file lists is the same
  before and after an update of the folder.
\<close>

lemma upd_context:
  "find_folder i f = Some g \<Longrightarrow> distinct (ids f) \<Longrightarrow>
    \<exists>I L. \<forall>u. mset (ids f) = I + mset (ids g) \<and> mset (file_lists f) = L + mset (file_lists g) \<and>
      mset (ids (upd_folder i u f)) = I + mset (ids (u g)) \<and>
      mset (file_lists (upd_folder i u f)) = L + mset (file_lists (u g))"
  "find_folders i fs = Some g \<Longrightarrow> distinct (ids_list fs) \<Longrightarrow>
    \<exists>I L. \<forall>u. mset (ids_list fs) = I + mset (ids g) \<and> mset (file_lists_of fs) = L + mset (file_lists g) \<and>
      mset (ids_list (upd_folders i u fs)) = I + mset (ids (u g)) \<and>
      mset (file_lists_of (upd_folders i u fs)) = L + mset (file_lists (u g))"
proof (induction i f and i fs rule: find_folder_find_folders.induct)
  case (1 i j n a b fs xs)
  show ?case
  proof (cases "i = j")
    case True
    with 1 have "g = Folder j n a b fs xs" by simp
    with True show ?thesis by (intro exI [of _ "{#}"]) simp
  next
    case False
    with 1 obtain I L where "\<forall>u. mset (ids_list fs) = I + mset (ids g) \<and> mset (file_lists_of fs) = L + mset (file_lists g) \<and>
      mset (ids_list (upd_folders i u fs)) = I + mset (ids (u g)) \<and>
      mset (file_lists_of (upd_folders i u fs)) = L + mset (file_lists (u g))" by auto
    with False show ?thesis
      by (intro exI [of _ "add_mset j I"] exI [of _ "add_mset xs L"]) simp
  qed
next
  case (3 i f fs)
  show ?case
  proof (cases "find_folder i f")
    case None
    with 3 obtain I L where IL: "\<forall>u. mset (ids_list fs) = I + mset (ids g) \<and> mset (file_lists_of fs) = L + mset (file_lists g) \<and>
      mset (ids_list (upd_folders i u fs)) = I + mset (ids (u g)) \<and>
      mset (file_lists_of (upd_folders i u fs)) = L + mset (file_lists (u g))" by auto
    from None have "i \<notin> set (ids f)" by (simp add: find_folder_None)
    with IL show ?thesis
      by (intro exI [of _ "mset (ids f) + I"] exI [of _ "mset (file_lists f) + L"]) (simp add: ac_simps)
  next
    case (Some h)
    with 3 obtain I L where IL: "\<forall>u. mset (ids f) = I + mset (ids g) \<and> mset (file_lists f) = L + mset (file_lists g) \<and>
      mset (ids (upd_folder i u f)) = I + mset (ids (u g)) \<and>
      mset (file_lists (upd_folder i u f)) = L + mset (file_lists (u g))" by auto
    from Some have "i \<in> set (ids f)" by (metis find_folder_None(1) option.distinct(1))
    with 3 have "i \<notin> set (ids_list fs)" by auto
    with IL show ?thesis
      by (intro exI [of _ "I + mset (ids_list fs)"] exI [of _ "L + mset (file_lists_of fs)"]) (simp add: ac_simps)
  qed
qed simp

lemma upd_contextE:
  assumes "find_folder i f = Some g" and "distinct (ids f)"
  obtains I L where "mset (ids f) = I + mset (ids g)" and "mset (file_lists f) = L + mset (file_lists g)"
    and "\<And>u. mset (ids (upd_folder i u f)) = I + mset (ids (u g))"
    and "\<And>u. mset (file_lists (upd_folder i u f)) = L + mset (file_lists (u g))"
  using upd_context(1) [OF assms] by blast

lemma ids_sel: "ids f = fo_id f # ids_list (folders f)"
  by (cases f) simp

lemma file_lists_sel: "file_lists f = files f # file_lists_of (folders f)"
  by (cases f) simp

lemma fo_id_upd:
  "(\<And>g. fo_id (u g) = fo_id g) \<Longrightarrow> fo_id (upd_folder i u f) = fo_id f"
  by (cases f) simp

text \<open>The children of a folder other than the one updated.\<close>

lemma upd_other_folders:
  "find_folder k f = Some h \<Longrightarrow> k \<noteq> i \<Longrightarrow> distinct (ids f) \<Longrightarrow> (\<And>g. folders (u g) = folders g) \<Longrightarrow>
     (\<And>g. fo_id (u g) = fo_id g) \<Longrightarrow>
     find_folder k (upd_folder i u f) = Some (upd_folder i u h)"
  "find_folders k fs = Some h \<Longrightarrow> k \<noteq> i \<Longrightarrow> distinct (ids_list fs) \<Longrightarrow> (\<And>g. folders (u g) = folders g) \<Longrightarrow>
     (\<And>g. fo_id (u g) = fo_id g) \<Longrightarrow>
     find_folders k (upd_folders i u fs) = Some (upd_folder i u h)"
proof (induction k f and k fs rule: find_folder_find_folders.induct)
  case (1 k j n a b fs xs)
  show ?case
  proof (cases "k = j")
    case True
    with 1 show ?thesis by auto
  next
    case False
    note kj = this
    show ?thesis
    proof (cases "i = j")
      case True
      have fl: "folders (u (Folder j n a b fs xs)) = fs" "fo_id (u (Folder j n a b fs xs)) = j"
        using 1 by simp_all
      have "i \<notin> set (ids_list fs)" using 1 True by simp
      moreover have h: "find_folders k fs = Some h" using 1 kj by simp
      moreover have "i \<notin> set (ids h)"
      proof -
        obtain I L where "mset (ids_list fs) = I + mset (ids h)"
          using upd_context(2) [OF h] 1(4) by auto
        then have "set (ids h) \<subseteq> set (ids_list fs)"
          by (metis mset_subset_eq_add_right set_mset_mono set_mset_mset)
        with \<open>i \<notin> set (ids_list fs)\<close> show ?thesis by auto
      qed
      ultimately show ?thesis
        using kj True fl by (cases "u (Folder j n a b fs xs)") simp
    next
      case False
      with 1 kj show ?thesis by simp
    qed
  qed
next
  case (3 k f fs)
  show ?case
  proof (cases "find_folder k f")
    case None
    then have "k \<notin> set (ids f)" by (simp add: find_folder_None)
    moreover have "set (ids (upd_folder i u f)) = set (ids f)"
    proof (cases "find_folder i f")
      case None
      then show ?thesis by (simp add: find_folder_None)
    next
      case (Some g)
      have "distinct (ids f)" using 3 by simp
      from upd_contextE [OF Some this] obtain I where "mset (ids f) = I + mset (ids g)"
        "\<And>u. mset (ids (upd_folder i u f)) = I + mset (ids (u g))" by metis
      moreover have "ids (u g) = ids g" using 3 by (simp add: ids_sel)
      ultimately show ?thesis by (metis set_mset_mset)
    qed
    ultimately have "find_folder k (upd_folder i u f) = None" by (simp add: find_folder_None)
    with 3 None show ?thesis by simp
  next
    case (Some x)
    with 3 show ?thesis by auto
  qed
qed simp

section \<open>The walk after an update\<close>

text \<open>An update that leaves names, subfolders and the \<open>folders_dirty\<close> flag alone does not change where paths lead.\<close>

definition keeps_shape :: "(folder \<Rightarrow> folder) \<Rightarrow> bool" where
  "keeps_shape u \<longleftrightarrow> (\<forall>f. fo_id (u f) = fo_id f \<and> fo_name (u f) = fo_name f \<and>
     folders (u f) = folders f \<and> folders_dirty (u f) = folders_dirty f)"

lemma keeps_shapeD:
  assumes "keeps_shape u"
  shows "fo_id (u f) = fo_id f" "fo_name (u f) = fo_name f" "folders (u f) = folders f"
    "folders_dirty (u f) = folders_dirty f"
  using assms by (simp_all add: keeps_shape_def)

lemma upd_folders_map: "upd_folders i u fs = map (upd_folder i u) fs"
  by (induction fs) simp_all

lemma folders_upd:
  assumes "keeps_shape u" and "distinct (ids f)"
  shows "folders (upd_folder i u f) = map (upd_folder i u) (folders f)"
proof (cases f)
  case (Folder j n a b fs xs)
  show ?thesis
  proof (cases "i = j")
    case True
    with assms(2) Folder have "i \<notin> set (ids_list fs)" by simp
    then have "upd_folders i u fs = fs" by simp
    then have "map (upd_folder i u) fs = fs" by (simp only: upd_folders_map)
    with True Folder keeps_shapeD(3) [OF assms(1)] show ?thesis by simp
  next
    case False
    with Folder show ?thesis by (simp add: upd_folders_map)
  qed
qed

lemma upd_shape:
  assumes "keeps_shape u"
  shows "fo_name (upd_folder i u f) = fo_name f" "fo_id (upd_folder i u f) = fo_id f"
    "folders_dirty (upd_folder i u f) = folders_dirty f"
  using keeps_shapeD [OF assms] by (cases f; simp)+

lemma distinct_child: "distinct (ids f) \<Longrightarrow> g \<in> set (folders f) \<Longrightarrow> distinct (ids g)"
proof -
  assume d: "distinct (ids f)" and g: "g \<in> set (folders f)"
  have "distinct (ids_list fs) \<Longrightarrow> g \<in> set fs \<Longrightarrow> distinct (ids g)" for fs
    by (induction fs) auto
  with d g show ?thesis by (cases f) auto
qed

lemma find_map_same:
  "(\<And>x. P (h x) = P x) \<Longrightarrow> find P (map h xs) = map_option h (find P xs)"
  by (induction xs) simp_all

lemma walk_upd:
  assumes u: "keeps_shape u"
  shows "distinct (ids f) \<Longrightarrow> walk ns (upd_folder i u f) = map_option (upd_folder i u) (walk ns f)"
proof (induction ns arbitrary: f)
  case (Cons n ns)
  have "find (\<lambda>g. fo_name g = n) (folders (upd_folder i u f)) =
      map_option (upd_folder i u) (find (\<lambda>g. fo_name g = n) (folders f))"
    using folders_upd [OF u Cons.prems] by (simp add: find_map_same upd_shape [OF u])
  with Cons show ?case
    by (auto split: option.splits dest: find_SomeD distinct_child)
qed simp

lemma clean_walk_upd:
  assumes u: "keeps_shape u"
  shows "distinct (ids f) \<Longrightarrow> clean_walk ns (upd_folder i u f) = clean_walk ns f"
proof (induction ns arbitrary: f)
  case (Cons n ns)
  have "find (\<lambda>g. fo_name g = n) (folders (upd_folder i u f)) =
      map_option (upd_folder i u) (find (\<lambda>g. fo_name g = n) (folders f))"
    using folders_upd [OF u Cons.prems] by (simp add: find_map_same upd_shape [OF u])
  with Cons show ?case
    by (auto simp: upd_shape [OF u] split: option.splits dest: find_SomeD distinct_child)
qed simp

lemma keeps_shape_files [simp]:
  "keeps_shape (set_files_dirty d)" "keeps_shape (set_files xs)" "keeps_shape (\<lambda>f. set_files (k f) f)"
  by (simp_all add: keeps_shape_def)

lemma keeps_shape_comp: "keeps_shape u \<Longrightarrow> keeps_shape v \<Longrightarrow> keeps_shape (\<lambda>f. u (v f))"
  by (simp add: keeps_shape_def)

text \<open>Where a path leads, as a number; what two trees must agree on for paths to lead to the same place.\<close>

definition leads :: "folder \<Rightarrow> string \<Rightarrow> nat \<Rightarrow> bool" where
  "leads r p i \<longleftrightarrow> distinct (ids r) \<and> clean_walk (components p) r \<and> map_option fo_id (walk (components p) r) = Some i"

lemma leads_find: "leads r p i \<Longrightarrow> \<exists>f. find_folder i r = Some f"
  using walk_find [of "fo_id r" r r] by (auto simp: leads_def)

lemma ids_upd:
  "keeps_shape u \<Longrightarrow> ids (upd_folder i u f) = ids f"
  "keeps_shape u \<Longrightarrow> ids_list (upd_folders i u fs) = ids_list fs"
  by (induction i u f and i u fs rule: upd_folder_upd_folders.induct)
    (auto simp: ids_sel keeps_shapeD)

lemma leads_upd: "keeps_shape u \<Longrightarrow> leads r p i \<Longrightarrow> leads (upd_folder j u r) p i"
  by (auto simp: leads_def walk_upd clean_walk_upd ids_upd upd_shape)

end
