(* ===== verification/Gp_Lookup.thy ===== *)
theory Gp_Lookup imports Gp_Lru Gp_Tree begin

text \<open>
  The folder tree of gphoto2-filesys.c: finding a folder by its path, listing the
  subfolders and the files of a folder, filling them in from the driver when they are dirty,
  and deleting them. A path lookup lists every dirty folder it passes, and a listing looks
  its own folder up again, with a shorter path: the recursion goes through the driver.
\<close>

section \<open>A list next to the filesystem\<close>

type_synonym ('w, 'a) lfm = "(CameraList option \<times> 'w fs, 'a) gpm"

definition on_fs :: "('w, 'a) fsm \<Rightarrow> ('w, 'a) lfm" where
  "on_fs m = (\<lambda>(l, s). case m s of (r, s') \<Rightarrow> (r, (l, s')))"

text \<open>A local variable \<open>CameraList *list\<close>.\<close>

definition local_list :: "('w, 'a) lfm \<Rightarrow> ('w, 'a) fsm" where
  "local_list m = (\<lambda>s. case m (None, s) of (r, (l, s')) \<Rightarrow> (r, s'))"

text \<open>
  A call whose result is looked at or dropped by its caller. What is undefined stays undefined.
\<close>

definition catching :: "('s, 'a) gpm \<Rightarrow> (int + 'a \<Rightarrow> ('s, 'b) gpm) \<Rightarrow> ('s, 'b) gpm" where
  "catching m k = attempt m (\<lambda>r. case r of
     Inl e \<Rightarrow> if e = UNDEFINED then fail UNDEFINED else k (Inl e) | Inr a \<Rightarrow> k (Inr a))"

definition ignoring :: "('s, 'a) gpm \<Rightarrow> ('s, unit) gpm" where
  "ignoring m = catching m (\<lambda>_. ok ())"

text \<open>The macro \<open>CL\<close>: free the list before an error is returned.\<close>

definition CL :: "('w, 'a) lfm \<Rightarrow> ('a \<Rightarrow> ('w, 'b) lfm) \<Rightarrow> ('w, 'b) lfm" where
  "CL m k = catching m (\<lambda>r. case r of
     Inl e \<Rightarrow> CR (ignoring gp_list_free) (\<lambda>_. fail e) | Inr a \<Rightarrow> k a)"

lemma wp_on_fs [simp]: "wp (on_fs m) Q E (l, s) = wp m (\<lambda>a t. Q a (l, t)) (\<lambda>e t. E e (l, t)) s"
  by (simp add: wp_def on_fs_def split: prod.split sum.split)

lemma wp_local_list [simp]:
  "wp (local_list m) Q E s = wp m (\<lambda>a (l, t). Q a t) (\<lambda>e (l, t). E e t) (None, s)"
  by (simp add: wp_def local_list_def split: prod.split sum.split)

lemma wp_catching [simp]:
  "wp (catching m k) Q E s = wp m (\<lambda>a. wp (k (Inr a)) Q E)
     (\<lambda>e. if e = UNDEFINED then E UNDEFINED else wp (k (Inl e)) Q E) s"
  by (simp add: wp_def catching_def attempt_def run_simps split: prod.split sum.split)

lemma wp_ignoring [simp]:
  "wp (ignoring m) Q E s = wp m (\<lambda>_. Q ()) (\<lambda>e. if e = UNDEFINED then E UNDEFINED else Q ()) s"
  by (simp add: wp_def ignoring_def catching_def attempt_def run_simps split: prod.split sum.split)

lemma keeps_catching [keeps_intro]:
  assumes "keeps I m" and "\<And>r. keeps I (k r)"
  shows "keeps I (catching m k)"
  unfolding catching_def using assms by (intro keeps_intro) auto

lemma keeps_ignoring [keeps_intro]: "keeps I m \<Longrightarrow> keeps I (ignoring m)"
  unfolding ignoring_def by (intro keeps_intro)

section \<open>Deleting\<close>

fun purge_files :: "'w os \<Rightarrow> nat list \<Rightarrow> ('w, unit) fsm" where
  "purge_files os [] = ok ()"
| "purge_files os (x # xs) =
     CR (ignoring (gp_filesystem_lru_remove_one x)) (\<lambda>_.
     CR (unref_all_cached os x) (\<lambda>_.
     CR (free_file x) (\<lambda>_. purge_files os xs)))"

definition delete_all_files :: "'w os \<Rightarrow> nat \<Rightarrow> ('w, unit) fsm" where
  "delete_all_files os fp = CR (deref_folder fp) (\<lambda>f.
     CR (purge_files os (files f)) (\<lambda>_. write_folder fp (set_files [])))"

text \<open>
  \<open>recurse_delete_folder\<close> walks the subfolders, empties each from the bottom up and frees it
  (\<open>delete_folder\<close>). The folders leave the tree when the walk has gone through all of them:
  nothing in between looks at them again.
\<close>

fun recurse_delete :: "'w os \<Rightarrow> folder \<Rightarrow> ('w, unit) fsm"
and recurse_delete_list :: "'w os \<Rightarrow> folder list \<Rightarrow> ('w, unit) fsm" where
  "recurse_delete os (Folder i n a b fs xs) = recurse_delete_list os fs"
| "recurse_delete_list os [] = ok ()"
| "recurse_delete_list os (f # fs) =
     CR (recurse_delete os f) (\<lambda>_.
     CR (purge_files os (files f)) (\<lambda>_. recurse_delete_list os fs))"

definition recurse_delete_folder :: "'w os \<Rightarrow> nat \<Rightarrow> ('w, unit) fsm" where
  "recurse_delete_folder os fp = CR (deref_folder fp) (\<lambda>f.
     CR (recurse_delete os f) (\<lambda>_. write_folder fp (set_folders [])))"

text \<open>\<open>delete_all_folders\<close>, with the lookup of its folder as a computation.\<close>

definition delete_all_folders_by :: "('w, nat option) fsm \<Rightarrow> 'w os \<Rightarrow> 'w GPContext \<Rightarrow> string \<Rightarrow> ('w, unit) fsm" where
  "delete_all_folders_by lookup os c p =
     CR (CC c) (\<lambda>_. CR (CA p) (\<lambda>_.
     CR lookup (\<lambda>r. case r of
         None \<Rightarrow> fail UNDEFINED
       | Some fp \<Rightarrow> recurse_delete_folder os fp)))"

section \<open>Appending folders and files\<close>

definition append_folder_one :: "nat \<Rightarrow> string \<Rightarrow> ('w, nat) fsm" where
  "append_folder_one fp name =
     CR malloc (\<lambda>_. CR malloc (\<lambda>_. CR new_addr (\<lambda>a.
     CR (write_folder fp (\<lambda>f. set_folders (Folder a name True True [] [] # folders f) f)) (\<lambda>_. ok a))))"

text \<open>The names of the files of a folder, in order; \<open>find_node\<close> is the search for one of them.\<close>

fun find_node :: "string \<Rightarrow> nat list \<Rightarrow> ('w, nat option) fsm" where
  "find_node n [] = ok None"
| "find_node n (x # xs) = CR (deref_file x) (\<lambda>y.
     if f_name y = n then ok (Some x) else find_node n xs)"

definition internal_append :: "nat \<Rightarrow> string \<Rightarrow> ('w, unit) fsm" where
  "internal_append fp filename = CR (deref_folder fp) (\<lambda>f.
     CR (find_node filename (files f)) (\<lambda>r. case r of
         Some _ \<Rightarrow> fail GP_ERROR_FILE_EXISTS
       | None \<Rightarrow> CR malloc (\<lambda>_. CR malloc (\<lambda>_. CR new_addr (\<lambda>a.
           CR (modify (\<lambda>s. s\<lparr>fnodes := (fnodes s)(a \<mapsto> new_file_node filename)\<rparr>)) (\<lambda>_.
           write_folder fp (\<lambda>f. set_files (files f @ [a]) f)))))))"

section \<open>Lookup and listing\<close>

text \<open>A list function of the driver appends names to the list and returns a code.\<close>

definition list_call :: "('w \<Rightarrow> (int \<times> string list) \<times> 'w) \<Rightarrow> ('w, unit) lfm" where
  "list_call g = CR (on_fs (os_call g)) (\<lambda>(ret, names).
     CR (each (\<lambda>n. gp_list_append (Some n) None) names) (\<lambda>_. if ret < 0 then fail ret else ok ()))"

text \<open>The loops \<open>for (y = 0; y < count; y++)\<close> over the names the driver gave.\<close>

definition each_name :: "(string \<Rightarrow> ('w, unit) fsm) \<Rightarrow> ('w, unit) lfm" where
  "each_name f = CR gp_list_count (\<lambda>count.
     each (\<lambda>y. CR (gp_list_get_name (int y)) (\<lambda>name. case name of
         None \<Rightarrow> fail UNDEFINED | Some n \<Rightarrow> on_fs (f n))) [0..<count])"

text \<open>
  \<open>gp_filesystem_list_folders\<close>, with the lookup of the folder as a computation, since the
  lookup of a longer path runs it; first the part after the folder has been found.
\<close>

definition list_folders_in :: "('w, nat option) fsm \<Rightarrow> 'w os \<Rightarrow> 'w GPContext \<Rightarrow> string \<Rightarrow> nat \<Rightarrow> ('w, unit) lfm" where
  "list_folders_in lookup os c p fp =
     CR (on_fs (deref_folder fp)) (\<lambda>f.
     CR (on_fs (gets (\<lambda>s. folder_list_func (funcs s)))) (\<lambda>func.
     CR (case func of
           Some g \<Rightarrow> if folders_dirty f then
               CR (list_call (g p)) (\<lambda>_.
               CR (on_fs (delete_all_folders_by lookup os c p)) (\<lambda>_.
               CR (each_name (\<lambda>n. CR (append_folder_one fp n) (\<lambda>_. ok ()))) (\<lambda>_.
               ignoring gp_list_reset)))
             else ok ()
         | None \<Rightarrow> ok ()) (\<lambda>_.
     CR (on_fs (deref_folder fp)) (\<lambda>f.
     CR (each (\<lambda>g. gp_list_append (Some (fo_name g)) None) (folders f)) (\<lambda>_.
     on_fs (write_folder fp (set_folders_dirty False)))))))"

definition list_folders_by :: "('w, nat option) fsm \<Rightarrow> 'w os \<Rightarrow> 'w GPContext \<Rightarrow> string \<Rightarrow> ('w, unit) lfm" where
  "list_folders_by lookup os c p =
     CR (on_fs (CC c)) (\<lambda>_. CR (on_fs (CA p)) (\<lambda>_.
     CR (ignoring gp_list_reset) (\<lambda>_.
     CR (on_fs lookup) (\<lambda>r. case r of
         None \<Rightarrow> fail GP_ERROR_DIRECTORY_NOT_FOUND
       | Some fp \<Rightarrow> list_folders_in lookup os c p fp))))"

text \<open>
  The loop of \<open>lookup_folder\<close>: \<open>pre\<close> is what of the path has been walked, \<open>cur\<close> what is left
  of it (\<open>curpt\<close>), \<open>fp\<close> the folder reached. Every folder but the last has to be clean; the copy
  of the path that is cut before \<open>curpt\<close> is \<open>pre\<close> with the slashes.
\<close>

function lookup_loop :: "'w os \<Rightarrow> 'w GPContext \<Rightarrow> string \<Rightarrow> string \<Rightarrow> nat \<Rightarrow> ('w, nat option) fsm" where
  "lookup_loop os c pre cur fp =
     (if skip_slashes cur = [] then ok (Some fp)
      else
        CR (deref_folder fp) (\<lambda>d.
        CR (if folders_dirty d
            then local_list (catching gp_list_new (\<lambda>r. case r of
                Inl _ \<Rightarrow> ok ()
              | Inr _ \<Rightarrow> CR (ignoring (list_folders_by
                  (CR (gets (\<lambda>s. fo_id (rootfolder s))) (\<lambda>root.
                     lookup_loop os c [] (pre @ takeWhile (\<lambda>x. x = CHR ''/'') cur) root))
                  os c (pre @ takeWhile (\<lambda>x. x = CHR ''/'') cur))) (\<lambda>_. ignoring gp_list_free)))
            else ok ()) (\<lambda>_.
        CR (deref_folder fp) (\<lambda>d.
        case find (\<lambda>f. fo_name f = upto_slash (skip_slashes cur)) (folders d) of
          None \<Rightarrow> ok None
        | Some f \<Rightarrow>
            if from_slash (skip_slashes cur) = [] then ok (Some (fo_id f))
            else lookup_loop os c
              (pre @ takeWhile (\<lambda>x. x = CHR ''/'') cur @ upto_slash (skip_slashes cur))
              (from_slash (skip_slashes cur)) (fo_id f)))))"
  by pat_completeness auto
termination
proof (relation "measures [\<lambda>(os, c, pre, cur, fp). length pre + length cur, \<lambda>(os, c, pre, cur, fp). length cur]")
  show "wf (measures [\<lambda>(os :: 'a os, c :: 'a GPContext, pre :: string, cur :: string, fp :: nat). length pre + length cur,
      \<lambda>(os, c, pre, cur, fp). length cur])" by simp
next
  fix os :: "'a os" and c :: "'a GPContext" and pre cur :: string and fp x :: nat
  assume "skip_slashes cur \<noteq> []"
  then have "length (takeWhile (\<lambda>x. x = CHR ''/'') cur) < length cur"
    using takeWhile_dropWhile_id [of "\<lambda>x. x = CHR ''/''" cur]
    by (metis skip_slashes_def length_append length_greater_0_conv less_add_same_cancel1)
  then show "((os, c, [], pre @ takeWhile (\<lambda>x. x = CHR ''/'') cur, x), (os, c, pre, cur, fp))
      \<in> measures [\<lambda>(os, c, pre, cur, fp). length pre + length cur, \<lambda>(os, c, pre, cur, fp). length cur]"
    by simp
next
  fix os :: "'a os" and c :: "'a GPContext" and pre cur :: string and fp x :: nat
  assume ne: "skip_slashes cur \<noteq> []"
  then obtain a as where as: "skip_slashes cur = a # as" by (cases "skip_slashes cur") auto
  have "length (from_slash (skip_slashes cur)) < length (skip_slashes cur)"
    using from_slash_shorter [OF as] as by simp
  moreover have "length (skip_slashes cur) \<le> length cur" by (rule length_skip_slashes)
  moreover have "length (takeWhile (\<lambda>x. x = CHR ''/'') cur) + length (skip_slashes cur) = length cur"
    by (metis skip_slashes_def length_append takeWhile_dropWhile_id)
  moreover have "length (upto_slash (skip_slashes cur)) + length (from_slash (skip_slashes cur))
      = length (skip_slashes cur)"
    by (metis length_append upto_from_slash)
  ultimately show "((os, c, pre @ takeWhile (\<lambda>x. x = CHR ''/'') cur @ upto_slash (skip_slashes cur),
       from_slash (skip_slashes cur), x), (os, c, pre, cur, fp))
      \<in> measures [\<lambda>(os, c, pre, cur, fp). length pre + length cur, \<lambda>(os, c, pre, cur, fp). length cur]"
    by simp
qed

declare lookup_loop.simps [simp del]

text \<open>The copy of the path that the code makes with an unchecked \<open>strdup\<close> before each listing is taken to succeed.\<close>

definition lookup_folder :: "'w os \<Rightarrow> 'w GPContext \<Rightarrow> string \<Rightarrow> ('w, nat option) fsm" where
  "lookup_folder os c p = CR (gets (\<lambda>s. fo_id (rootfolder s))) (lookup_loop os c [] p)"


definition gp_filesystem_list_folders :: "'w os \<Rightarrow> 'w GPContext \<Rightarrow> string \<Rightarrow> ('w, unit) lfm" where
  "gp_filesystem_list_folders os c p = list_folders_by (lookup_folder os c p) os c p"

definition delete_all_folders :: "'w os \<Rightarrow> 'w GPContext \<Rightarrow> string \<Rightarrow> ('w, unit) fsm" where
  "delete_all_folders os c p = delete_all_folders_by (lookup_folder os c p) os c p"

text \<open>The part of \<open>gp_filesystem_list_files\<close> after the folder has been found: query the driver, then fill the list.\<close>

definition list_files_in :: "'w os \<Rightarrow> string \<Rightarrow> nat \<Rightarrow> ('w, unit) lfm" where
  "list_files_in os p fp =
     CR (on_fs (deref_folder fp)) (\<lambda>f.
     CR (on_fs (gets (\<lambda>s. file_list_func (funcs s)))) (\<lambda>func.
     CR (case func of
           Some g \<Rightarrow> if files_dirty f then
               CR (on_fs (delete_all_files os fp)) (\<lambda>_.
               CR (on_fs (write_folder fp (set_files_dirty False))) (\<lambda>_.
               CR (list_call (g p)) (\<lambda>_.
               CR (each_name (internal_append fp)) (\<lambda>_.
               ignoring gp_list_reset))))
             else ok ()
         | None \<Rightarrow> ok ()) (\<lambda>_.
     CR (on_fs (write_folder fp (set_files_dirty False))) (\<lambda>_.
     CR (on_fs (deref_folder fp)) (\<lambda>f.
     each (\<lambda>x. CR (on_fs (deref_file x)) (\<lambda>y. gp_list_append (Some (f_name y)) None)) (files f))))))"

definition gp_filesystem_list_files :: "'w os \<Rightarrow> 'w GPContext \<Rightarrow> string \<Rightarrow> ('w, unit) lfm" where
  "gp_filesystem_list_files os c p =
     CR (on_fs (CC c)) (\<lambda>_. CR (on_fs (CA p)) (\<lambda>_.
     CR (ignoring gp_list_reset) (\<lambda>_.
     CR (on_fs (lookup_folder os c p)) (\<lambda>r. case r of
         None \<Rightarrow> fail GP_ERROR_DIRECTORY_NOT_FOUND
       | Some fp \<Rightarrow> list_files_in os p fp))))"

text \<open>
  \<open>lookup_folder_file\<close> returns the folder and the file node. A listing that fails only leaves a
  line in the log.
\<close>

definition lookup_folder_file :: "'w os \<Rightarrow> 'w GPContext \<Rightarrow> string \<Rightarrow> string \<Rightarrow> ('w, nat \<times> nat) fsm" where
  "lookup_folder_file os c p filename =
     CR (lookup_folder os c p) (\<lambda>r. case r of
       None \<Rightarrow> fail GP_ERROR_DIRECTORY_NOT_FOUND
     | Some fp \<Rightarrow>
       CR (deref_folder fp) (\<lambda>f.
       CR (if files_dirty f
           then local_list (catching gp_list_new (\<lambda>r. case r of
               Inl _ \<Rightarrow> ok ()
             | Inr _ \<Rightarrow> CR (ignoring (gp_filesystem_list_files os c p)) (\<lambda>_. ignoring gp_list_free)))
           else ok ()) (\<lambda>_.
       CR (deref_folder fp) (\<lambda>f.
       CR (find_node filename (files f)) (\<lambda>r. case r of
         Some x \<Rightarrow> ok (fp, x)
       | None \<Rightarrow> fail GP_ERROR_FILE_NOT_FOUND)))))"

text \<open>\<open>append_to_folder\<close> descends along the path and stops at the first name that is not there.\<close>

function append_to_folder :: "nat \<Rightarrow> string \<Rightarrow> ('w, nat) fsm" where
  "append_to_folder fp foldername =
     (if skip_slashes foldername = [] then ok fp
      else CR (deref_folder fp) (\<lambda>d.
        case find (\<lambda>f. fo_name f = upto_slash (skip_slashes foldername)) (folders d) of
          Some f \<Rightarrow> if from_slash (skip_slashes foldername) = [] then ok (fo_id f)
            else append_to_folder (fo_id f) (tl (from_slash (skip_slashes foldername)))
        | None \<Rightarrow> if from_slash (skip_slashes foldername) = []
            then append_folder_one fp (skip_slashes foldername)
            else CR malloc (\<lambda>_. append_folder_one fp (upto_slash (skip_slashes foldername)))))"
  by pat_completeness auto
termination
proof (relation "measure (\<lambda>(fp, p). length p)")
  fix fp x :: nat and p :: string
  assume "skip_slashes p \<noteq> []"
  then obtain a as where as: "skip_slashes p = a # as" by (cases "skip_slashes p") auto
  from from_slash_shorter [OF as] as length_skip_slashes [of p]
  show "((x, tl (from_slash (skip_slashes p))), fp, p) \<in> measure (\<lambda>(fp, p). length p)"
    by simp
qed simp

declare append_to_folder.simps [simp del]

definition append_folder :: "'w GPContext \<Rightarrow> string \<Rightarrow> ('w, nat) fsm" where
  "append_folder c p = CR (CC c) (\<lambda>_. CR (CA p) (\<lambda>_.
     CR (gets (\<lambda>s. fo_id (rootfolder s))) (\<lambda>root. append_to_folder root p)))"

section \<open>Lookup on clean folders\<close>

lemma lookup_loop_clean:
  assumes "find_folder fp (rootfolder s) = Some g" and "distinct (ids (rootfolder s))"
    and "clean_walk (components cur) g"
  shows "lookup_loop os c pre cur fp s = (Inr (map_option fo_id (walk (components cur) g)), s)"
  using assms
proof (induction os c pre cur fp arbitrary: g rule: lookup_loop.induct)
  case (1 os c pre cur fp)
  show ?case
  proof (cases "skip_slashes cur = []")
    case True
    then have "components cur = []" by (subst components.simps) simp
    with True find_folder_id(1) [OF 1(3)] show ?thesis
      by (subst lookup_loop.simps) (simp add: run_simps)
  next
    case False
    then have cmp: "components cur = upto_slash (skip_slashes cur) # components (from_slash (skip_slashes cur))"
      by (subst components.simps) simp
    with 1(5) have clean: "\<not> folders_dirty g" by simp
    have d: "deref_folder fp s = (Inr g, s)" using 1(3) by (simp add: deref_folder_def)
    show ?thesis
    proof (cases "find (\<lambda>f. fo_name f = upto_slash (skip_slashes cur)) (folders g)")
      case None
      with False cmp clean d show ?thesis
        by (subst lookup_loop.simps) (simp add: run_simps)
    next
      case (Some f)
      have f: "find_folder (fo_id f) (rootfolder s) = Some f"
        using find_child(1) [OF 1(3,4)] find_SomeD [OF Some] by simp
      have cl: "clean_walk (components (from_slash (skip_slashes cur))) f"
        using 1(5) cmp Some by simp
      show ?thesis
      proof (cases "from_slash (skip_slashes cur) = []")
        case True
        with False cmp clean d Some show ?thesis
          by (subst lookup_loop.simps) (simp add: run_simps)
      next
        case fr: False
        with False cmp clean d Some 1(2) [OF False Some fr f 1(4) cl] show ?thesis
          by (subst lookup_loop.simps) (simp add: run_simps)
      qed
    qed
  qed
qed

text \<open>
  When every folder on the way is clean the lookup neither asks the driver nor changes
  anything, and it finds what the walk along the path's components finds.
\<close>

lemma lookup_clean:
  assumes "distinct (ids (rootfolder s))" and "clean_walk (components p) (rootfolder s)"
  shows "lookup_folder os c p s = (Inr (map_option fo_id (walk (components p) (rootfolder s))), s)"
proof -
  have "gets (\<lambda>s. fo_id (rootfolder s)) s = (Inr (fo_id (rootfolder s)), s)" by (simp add: run_simps)
  with lookup_loop_clean [OF find_folder_self assms] show ?thesis
    by (simp add: lookup_folder_def)
qed

end
