(* ===== verification/Gp_Filesys.thy ===== *)
theory Gp_Filesys imports Gp_Lookup begin

text \<open>
  The public operations of gphoto2-filesys.c, each from its argument checks to its last
  statement, over the lookup, listing, deletion and LRU operations of the other theories.
\<close>

section \<open>Life cycle\<close>

definition no_funcs :: "'w CameraFilesystemFuncs" where
  "no_funcs = \<lparr>get_info_func = None, set_info_func = None, put_file_func = None, delete_all_func = None,
     make_dir_func = None, remove_dir_func = None, file_list_func = None, folder_list_func = None,
     delete_file_func = None, get_file_func = None, read_file_func = None, storage_info_func = None\<rparr>"

text \<open>
  \<open>gp_filesystem_new\<close> in a world with allocator answers \<open>m\<close> and environment \<open>w\<close>; \<open>keep\<close> is what
  the static variable \<open>pictures_to_keep\<close> holds (-1 at the start of the process) and \<open>setting\<close> the number
  stored in the settings file, if there is one.
\<close>

definition blank_fs :: "bool list \<Rightarrow> 'w \<Rightarrow> int \<Rightarrow> int option \<Rightarrow> 'w fs" where
  "blank_fs m w keep setting = \<lparr>mem_ok = m, env = w, rootfolder = Folder 0 ''/'' True True [] [],
     lru_first = None, lru_last = None, lru_size = 0, pictures_to_keep = keep, cached_images = setting,
     fnodes = (\<lambda>_. None), objects = (\<lambda>_. None), next_addr = 1, funcs = no_funcs\<rparr>"

definition gp_filesystem_new :: "bool list \<Rightarrow> 'w \<Rightarrow> int \<Rightarrow> int option \<Rightarrow> int + 'w fs" where
  "gp_filesystem_new m w keep setting =
     fst (CR malloc (\<lambda>_. CR malloc (\<lambda>_. CR malloc (\<lambda>_. gets (\<lambda>s. s)))) (blank_fs m w keep setting))"

definition gp_filesystem_reset :: "'w os \<Rightarrow> ('w, unit) fsm" where
  "gp_filesystem_reset os =
     CR gp_filesystem_lru_clear (\<lambda>_.
     CR (delete_all_folders os None ''/'') (\<lambda>_.
     CR (gets (\<lambda>s. fo_id (rootfolder s))) (\<lambda>root.
     CR (write_folder root (set_files_dirty True)) (\<lambda>_.
     write_folder root (set_folders_dirty True)))))"

definition gp_filesystem_set_funcs :: "'w CameraFilesystemFuncs \<Rightarrow> ('w, unit) fsm" where
  "gp_filesystem_set_funcs f = modify (\<lambda>s. s\<lparr>funcs := f\<rparr>)"

section \<open>Adding and removing files\<close>

definition gp_filesystem_append :: "'w os \<Rightarrow> 'w GPContext \<Rightarrow> string \<Rightarrow> string \<Rightarrow> ('w, unit) fsm" where
  "gp_filesystem_append os c p filename =
     CR (CC c) (\<lambda>_. CR (CA p) (\<lambda>_.
     CR (lookup_folder os c p) (\<lambda>r.
     CR (case r of Some fp \<Rightarrow> ok fp | None \<Rightarrow> append_folder c p) (\<lambda>fp.
     CR (deref_folder fp) (\<lambda>f.
     CR (if files_dirty f
         then local_list (CR gp_list_new (\<lambda>_.
           catching (gp_filesystem_list_files os c p) (\<lambda>ret.
           CR (ignoring gp_list_free) (\<lambda>_.
           case ret of Inl e \<Rightarrow> fail e | Inr _ \<Rightarrow> ok ()))))
         else ok ()) (\<lambda>_.
     catching (internal_append fp filename) (\<lambda>ret. case ret of
       Inl e \<Rightarrow> if e = GP_ERROR_FILE_EXISTS then ok () else fail e
     | Inr _ \<Rightarrow> ok ())))))))"

definition delete_file :: "'w os \<Rightarrow> nat \<Rightarrow> nat \<Rightarrow> ('w, unit) fsm" where
  "delete_file os fp x =
     CR (ignoring (gp_filesystem_lru_remove_one x)) (\<lambda>_.
     CR (unref_all_cached os x) (\<lambda>_.
     CR (deref_folder fp) (\<lambda>f.
     if x \<notin> set (files f) then fail GP_ERROR
     else CR (write_folder fp (\<lambda>f. set_files (remove1 x (files f)) f)) (\<lambda>_. free_file x))))"

text \<open>A function of the driver that returns a code.\<close>

definition driver_call :: "('w \<Rightarrow> int \<times> 'w) \<Rightarrow> ('w, unit) fsm" where
  "driver_call g = CR (os_call g) (\<lambda>ret. if ret < 0 then fail ret else ok ())"

definition gp_filesystem_delete_file :: "'w os \<Rightarrow> 'w GPContext \<Rightarrow> string \<Rightarrow> string \<Rightarrow> ('w, unit) fsm" where
  "gp_filesystem_delete_file os c p filename =
     CR (CC c) (\<lambda>_. CR (CA p) (\<lambda>_.
     CR (gets (\<lambda>s. delete_file_func (funcs s))) (\<lambda>func. case func of
       None \<Rightarrow> fail GP_ERROR_NOT_SUPPORTED
     | Some g \<Rightarrow>
       CR (lookup_folder_file os c p filename) (\<lambda>(fp, x).
       CR (driver_call (g p filename)) (\<lambda>_. delete_file os fp x)))))"

definition gp_filesystem_delete_file_noop :: "'w os \<Rightarrow> 'w GPContext \<Rightarrow> string \<Rightarrow> string \<Rightarrow> ('w, unit) fsm" where
  "gp_filesystem_delete_file_noop os c p filename =
     CR (CC c) (\<lambda>_. CR (CA p) (\<lambda>_.
     CR (lookup_folder_file os c p filename) (\<lambda>(fp, x). delete_file os fp x)))"

text \<open>The loop \<open>for (x = count; x--; )\<close> runs through the list backwards.\<close>

definition gp_filesystem_delete_all_one_by_one :: "'w os \<Rightarrow> 'w GPContext \<Rightarrow> string \<Rightarrow> ('w, unit) fsm" where
  "gp_filesystem_delete_all_one_by_one os c p = local_list (
     CR gp_list_new (\<lambda>_.
     CL (gp_filesystem_list_files os c p) (\<lambda>_.
     CL gp_list_count (\<lambda>count.
     CR (each (\<lambda>x. CL (gp_list_get_name (int x)) (\<lambda>name. case name of
           None \<Rightarrow> fail UNDEFINED
         | Some n \<Rightarrow> CL (on_fs (gp_filesystem_delete_file os c p n)) (\<lambda>_. ok ())))
         (rev [0..<count])) (\<lambda>_.
     ignoring gp_list_free)))))"

definition gp_filesystem_delete_all :: "'w os \<Rightarrow> 'w GPContext \<Rightarrow> string \<Rightarrow> ('w, unit) fsm" where
  "gp_filesystem_delete_all os c p =
     CR (CC c) (\<lambda>_. CR (CA p) (\<lambda>_.
     CR (lookup_folder os c p) (\<lambda>r. case r of
       None \<Rightarrow> fail GP_ERROR_DIRECTORY_NOT_FOUND
     | Some fp \<Rightarrow>
       CR (gets (\<lambda>s. delete_all_func (funcs s))) (\<lambda>func. case func of
         None \<Rightarrow> gp_filesystem_delete_all_one_by_one os c p
       | Some g \<Rightarrow>
         CR (write_folder fp (set_files_dirty True)) (\<lambda>_.
         CR (os_call (g p)) (\<lambda>r.
         CR (if r < 0 then gp_filesystem_delete_all_one_by_one os c p
             else delete_all_files os fp) (\<lambda>_.
         write_folder fp (set_files_dirty False))))))))"

section \<open>Directories\<close>

definition gp_filesystem_make_dir :: "'w os \<Rightarrow> 'w GPContext \<Rightarrow> string \<Rightarrow> string \<Rightarrow> ('w, unit) fsm" where
  "gp_filesystem_make_dir os c p name =
     CR (CC c) (\<lambda>_. CR (CA p) (\<lambda>_.
     CR (gets (\<lambda>s. make_dir_func (funcs s))) (\<lambda>func. case func of
       None \<Rightarrow> fail GP_ERROR_NOT_SUPPORTED
     | Some g \<Rightarrow>
       CR (lookup_folder os c p) (\<lambda>r. case r of
         None \<Rightarrow> fail GP_ERROR_DIRECTORY_NOT_FOUND
       | Some fp \<Rightarrow>
         CR (driver_call (g p name)) (\<lambda>_.
         CR (append_folder_one fp name) (\<lambda>_. ok ()))))))"

text \<open>\<open>delete_folder\<close> takes the folder \<open>d\<close> out of the chain of its parent.\<close>

definition delete_folder :: "'w os \<Rightarrow> nat \<Rightarrow> nat \<Rightarrow> ('w, unit) fsm" where
  "delete_folder os fp d =
     CR (deref_folder d) (\<lambda>g.
     CR (purge_files os (files g)) (\<lambda>_.
     write_folder fp (\<lambda>f. set_folders (filter (\<lambda>h. fo_id h \<noteq> d) (folders f)) f)))"

text \<open>The last part of \<open>gp_filesystem_remove_dir\<close>: find the folder in its parent's chain, refuse it unless it is empty.\<close>

definition remove_empty_dir :: "'w os \<Rightarrow> nat \<Rightarrow> string \<Rightarrow> ('w \<Rightarrow> int \<times> 'w) \<Rightarrow> ('w, unit) fsm" where
  "remove_empty_dir os fp name g =
     CR (deref_folder fp) (\<lambda>f.
     case find (\<lambda>h. fo_name h = name) (folders f) of
       None \<Rightarrow> fail GP_ERROR_DIRECTORY_NOT_FOUND
     | Some h \<Rightarrow>
         if folders h \<noteq> [] then fail GP_ERROR_DIRECTORY_EXISTS
         else if files h \<noteq> [] then fail GP_ERROR_FILE_EXISTS
         else CR (driver_call g) (\<lambda>_. delete_folder os fp (fo_id h)))"

definition gp_filesystem_remove_dir :: "'w os \<Rightarrow> 'w GPContext \<Rightarrow> string \<Rightarrow> string \<Rightarrow> ('w, unit) fsm" where
  "gp_filesystem_remove_dir os c p name =
     CR (CC c) (\<lambda>_. CR (CA p) (\<lambda>_.
     CR (gets (\<lambda>s. remove_dir_func (funcs s))) (\<lambda>func. case func of
       None \<Rightarrow> fail GP_ERROR_NOT_SUPPORTED
     | Some g \<Rightarrow>
       CR (lookup_folder os c p) (\<lambda>r. case r of
         None \<Rightarrow> fail GP_ERROR_DIRECTORY_NOT_FOUND
       | Some fp \<Rightarrow>
         CR (deref_folder fp) (\<lambda>f.
         CR (if folders_dirty f
             then local_list (catching gp_list_new (\<lambda>r. case r of
                 Inl _ \<Rightarrow> ok ()
               | Inr _ \<Rightarrow> CR (ignoring (gp_filesystem_list_folders os c p)) (\<lambda>_. ignoring gp_list_free)))
             else ok ()) (\<lambda>_.
         remove_empty_dir os fp name (g p name)))))))"

section \<open>Uploading\<close>

text \<open>\<open>append_file\<close> makes the object \<open>file\<close> the normal view of the new node and takes a reference.
  The \<open>strdup\<close> of the name, which the code does not check, is taken to succeed.\<close>

definition append_file :: "nat \<Rightarrow> string \<Rightarrow> nat \<Rightarrow> ('w, unit) fsm" where
  "append_file fp name file =
     CR (deref_folder fp) (\<lambda>f.
     CR (find_node name (files f)) (\<lambda>r. case r of
       Some _ \<Rightarrow> fail GP_ERROR
     | None \<Rightarrow>
       CR malloc (\<lambda>_. CR new_addr (\<lambda>a.
       CR (ref_object file) (\<lambda>_.
       CR (modify (\<lambda>s. s\<lparr>fnodes := (fnodes s)(a \<mapsto> (new_file_node name)\<lparr>normal := Some file\<rparr>)\<rparr>)) (\<lambda>_.
       write_folder fp (\<lambda>f. set_files (files f @ [a]) f)))))))"

definition gp_filesystem_put_file ::
  "'w os \<Rightarrow> 'w GPContext \<Rightarrow> string \<Rightarrow> string \<Rightarrow> CameraFileType \<Rightarrow> nat \<Rightarrow> ('w, unit) fsm" where
  "gp_filesystem_put_file os c p filename t file =
     CR (CC c) (\<lambda>_. CR (CA p) (\<lambda>_.
     CR (gets (\<lambda>s. put_file_func (funcs s))) (\<lambda>func. case func of
       None \<Rightarrow> fail GP_ERROR_NOT_SUPPORTED
     | Some g \<Rightarrow>
       CR (lookup_folder os c p) (\<lambda>r. case r of
         None \<Rightarrow> fail GP_ERROR_DIRECTORY_NOT_FOUND
       | Some fp \<Rightarrow>
         CR (deref_object file) (\<lambda>content.
         CR (driver_call (g p filename t content)) (\<lambda>_.
         catching (append_file fp filename file) (\<lambda>ret.
           if t \<noteq> GP_FILE_TYPE_NORMAL then ok ()
           else (case ret of Inl e \<Rightarrow> fail e | Inr _ \<Rightarrow> ok ()))))))))"


section \<open>Counting and numbering\<close>

definition gp_filesystem_count :: "'w os \<Rightarrow> 'w GPContext \<Rightarrow> string \<Rightarrow> ('w, nat) fsm" where
  "gp_filesystem_count os c p =
     CR (CC c) (\<lambda>_. CR (CA p) (\<lambda>_.
     CR (lookup_folder os c p) (\<lambda>r. case r of
       None \<Rightarrow> fail GP_ERROR_DIRECTORY_NOT_FOUND
     | Some fp \<Rightarrow> CR (deref_folder fp) (\<lambda>f. ok (length (files f))))))"

text \<open>The walk of \<open>gp_filesystem_name\<close>: \<open>filenumber\<close> is counted down to 0, so a negative one finds nothing.\<close>

fun nth_file :: "int \<Rightarrow> nat list \<Rightarrow> nat option" where
  "nth_file k [] = None"
| "nth_file k (x # xs) = (if k = 0 then Some x else nth_file (k - 1) xs)"

definition gp_filesystem_name :: "'w os \<Rightarrow> 'w GPContext \<Rightarrow> string \<Rightarrow> int \<Rightarrow> ('w, string) fsm" where
  "gp_filesystem_name os c p filenumber =
     CR (CC c) (\<lambda>_. CR (CA p) (\<lambda>_.
     CR (lookup_folder os c p) (\<lambda>r. case r of
       None \<Rightarrow> fail GP_ERROR_DIRECTORY_NOT_FOUND
     | Some fp \<Rightarrow> CR (deref_folder fp) (\<lambda>f.
         case nth_file filenumber (files f) of
           None \<Rightarrow> fail GP_ERROR_FILE_NOT_FOUND
         | Some x \<Rightarrow> CR (deref_file x) (\<lambda>y. ok (f_name y))))))"

fun file_index :: "string \<Rightarrow> nat \<Rightarrow> nat list \<Rightarrow> ('w, nat option) fsm" where
  "file_index n num [] = ok None"
| "file_index n num (x # xs) = CR (deref_file x) (\<lambda>y.
     if f_name y = n then ok (Some num) else file_index n (num + 1) xs)"

text \<open>
  \<open>gp_filesystem_number\<close> lists a dirty folder and starts again. A listing leaves its folder clean, but
  the lookup of the next round may find another one, so the rounds are bounded by \<open>fuel\<close>.
\<close>

fun gp_filesystem_number :: "nat \<Rightarrow> 'w os \<Rightarrow> 'w GPContext \<Rightarrow> string \<Rightarrow> string \<Rightarrow> ('w, nat) fsm" where
  "gp_filesystem_number 0 os c p filename = fail UNDEFINED"
| "gp_filesystem_number (Suc k) os c p filename =
     CR (CC c) (\<lambda>_. CR (CA p) (\<lambda>_.
     CR (lookup_folder os c p) (\<lambda>r. case r of
       None \<Rightarrow> fail GP_ERROR_DIRECTORY_NOT_FOUND
     | Some fp \<Rightarrow>
       CR (deref_folder fp) (\<lambda>f.
       CR (file_index filename 0 (files f)) (\<lambda>i. case i of
         Some num \<Rightarrow> ok num
       | None \<Rightarrow>
         if \<not> files_dirty f then fail GP_ERROR_FILE_NOT_FOUND
         else CR (local_list (CR gp_list_new (\<lambda>_.
             CL (gp_filesystem_list_files os c p) (\<lambda>_. ignoring gp_list_free)))) (\<lambda>_.
           gp_filesystem_number k os c p filename))))))"

section \<open>Searching the whole tree\<close>

text \<open>
  The path of a subfolder in \<open>char path[128]\<close>: \<open>strncpy\<close> leaves no terminator when the folder's path
  has 128 bytes or more (the following \<open>strlen\<close> runs off the array); \<open>strncat\<close> keeps within the 127 bytes.
\<close>

definition scan_path :: "string \<Rightarrow> string \<Rightarrow> string option" where
  "scan_path folder name =
     (if length folder \<ge> 128 then None
      else if folder = [] then None
      else let p = (if last folder \<noteq> CHR ''/'' then folder @ take (127 - length folder) ''/'' else folder)
           in Some (p @ take (127 - length p) name))"

text \<open>\<open>gp_filesystem_scan\<close> descends into whatever folders the driver lists; \<open>fuel\<close> bounds the depth.\<close>

fun gp_filesystem_scan :: "nat \<Rightarrow> 'w os \<Rightarrow> 'w GPContext \<Rightarrow> string \<Rightarrow> string \<Rightarrow> ('w, unit) fsm" where
  "gp_filesystem_scan 0 os c p filename = fail UNDEFINED"
| "gp_filesystem_scan (Suc k) os c p filename =
     CR (CC c) (\<lambda>_. CR (CA p) (\<lambda>_.
     local_list (
     CR gp_list_new (\<lambda>_.
     CL (gp_filesystem_list_files os c p) (\<lambda>_.
     CL gp_list_count (\<lambda>count.
     CR (gets (\<lambda>(l, s). case l of None \<Rightarrow> False | Some l \<Rightarrow>
           \<exists>x<count. e_name (entry l ! x) = Some filename)) (\<lambda>found.
     if found then ignoring gp_list_free
     else
     CL (gp_filesystem_list_folders os c p) (\<lambda>_.
     CL gp_list_count (\<lambda>count.
     CR (each (\<lambda>x. CL (gp_list_get_name (int x)) (\<lambda>name. case name of
           None \<Rightarrow> fail UNDEFINED
         | Some n \<Rightarrow> (case scan_path p n of
             None \<Rightarrow> fail UNDEFINED
           | Some path \<Rightarrow> CL (on_fs (gp_filesystem_scan k os c path filename)) (\<lambda>_. ok ()))))
         [0..<count]) (\<lambda>_.
     ignoring gp_list_free))))))))))"

text \<open>\<open>recursive_folder_scan\<close> joins the names of the folders from the root's, which is a slash, down.\<close>

fun recursive_folder_scan :: "(nat \<Rightarrow> CameraFilesystemFile option) \<Rightarrow> folder \<Rightarrow> string \<Rightarrow> string option"
and recursive_folder_scan_list :: "(nat \<Rightarrow> CameraFilesystemFile option) \<Rightarrow> folder list \<Rightarrow> string \<Rightarrow> string option" where
  "recursive_folder_scan h (Folder i nm a b fs xs) n =
     (if \<exists>x\<in>set xs. map_option f_name (h x) = Some n then Some nm
      else map_option (\<lambda>x. nm @ ''/'' @ x) (recursive_folder_scan_list h fs n))"
| "recursive_folder_scan_list h [] n = None"
| "recursive_folder_scan_list h (f # fs) n = (case recursive_folder_scan h f n of
     Some x \<Rightarrow> Some x | None \<Rightarrow> recursive_folder_scan_list h fs n)"

definition gp_filesystem_get_folder :: "nat \<Rightarrow> 'w os \<Rightarrow> 'w GPContext \<Rightarrow> string \<Rightarrow> ('w, string) fsm" where
  "gp_filesystem_get_folder fuel os c filename =
     CR (CC c) (\<lambda>_.
     CR (gp_filesystem_scan fuel os c ''/'' filename) (\<lambda>_.
     CR (gets (\<lambda>s. recursive_folder_scan (fnodes s) (rootfolder s) filename)) (\<lambda>r. case r of
       Some p \<Rightarrow> ok p
     | None \<Rightarrow> fail GP_ERROR_FILE_NOT_FOUND)))"

section \<open>File contents\<close>

text \<open>
  \<open>gp_file_copy\<close> into the object \<open>c\<close> of the caller from the cached object \<open>d\<close>. When they are the same
  object its data are freed before they are copied.
\<close>

definition copy_object :: "nat \<Rightarrow> 'w os \<Rightarrow> nat \<Rightarrow> nat \<Rightarrow> ('w, int) fsm" where
  "copy_object fuel os c d =
     CR (deref_object c) (\<lambda>dst. CR (deref_object d) (\<lambda>src.
     if c = d \<and> accesstype src = GP_FILE_ACCESSTYPE_MEMORY \<and> cf_size src > 0 then fail UNDEFINED
     else CR (gp_file_copy fuel os dst src) (\<lambda>(ret, dst').
       CR (put_object c (Some dst')) (\<lambda>_. ok ret))))"

definition update_object :: "nat \<Rightarrow> ('w CameraFile \<Rightarrow> 'w CameraFile) \<Rightarrow> ('w, unit) fsm" where
  "update_object c u = CR (deref_object c) (\<lambda>f. put_object c (Some (u f)))"

text \<open>
  \<open>get_file_func\<close> of the driver fills the object through the functions of gphoto2-file.c, which never
  change where an object keeps its data; the references it takes it gives back.
\<close>

definition get_file_call ::
  "('w CameraFile \<Rightarrow> 'w \<Rightarrow> (int \<times> 'w CameraFile) \<times> 'w) \<Rightarrow> nat \<Rightarrow> ('w, unit) fsm" where
  "get_file_call g c = CR (deref_object c) (\<lambda>f.
     CR (os_call (g f)) (\<lambda>(ret, f').
     CR (put_object c (Some (f'\<lparr>cf_ref_count := cf_ref_count f, accesstype := accesstype f,
       fd := fd f, handler := handler f\<rparr>))) (\<lambda>_.
     if ret < 0 then fail ret else ok ())))"

definition gp_filesystem_get_file_impl ::
  "nat \<Rightarrow> 'w os \<Rightarrow> 'w GPContext \<Rightarrow> string \<Rightarrow> string \<Rightarrow> CameraFileType \<Rightarrow> nat \<Rightarrow> ('w, unit) fsm" where
  "gp_filesystem_get_file_impl fuel os c p filename t file =
     CR (CC c) (\<lambda>_. CR (CA p) (\<lambda>_.
     CR (update_object file (\<lambda>f. gp_file_set_name f filename)) (\<lambda>_.
     CR (gets (\<lambda>s. get_file_func (funcs s))) (\<lambda>func. case func of
       None \<Rightarrow> fail GP_ERROR_NOT_SUPPORTED
     | Some g \<Rightarrow>
       CR (lookup_folder_file os c p filename) (\<lambda>(xfolder, xfile).
       CR (deref_file xfile) (\<lambda>x.
       CR (case cached t x of None \<Rightarrow> ok GP_ERROR | Some d \<Rightarrow> copy_object fuel os file d) (\<lambda>ret.
       if ret = GP_OK then ok ()
       else
         CR (get_file_call (g p filename t) file) (\<lambda>_.
         CR (update_object file (\<lambda>f. gp_file_set_name f filename)) (\<lambda>_.
         if t \<noteq> GP_FILE_TYPE_NORMAL then update_object file gp_file_adjust_name_for_mime_type
         else ok ())))))))))"

text \<open>\<open>gp_filesystem_get_file\<close> in a build without libexif.\<close>

definition gp_filesystem_get_file ::
  "nat \<Rightarrow> 'w os \<Rightarrow> 'w GPContext \<Rightarrow> string \<Rightarrow> string \<Rightarrow> CameraFileType \<Rightarrow> nat \<Rightarrow> ('w, unit) fsm" where
  "gp_filesystem_get_file fuel os c p filename t file =
     CR (gp_filesystem_get_file_impl fuel os c p filename t file) (\<lambda>_. ok ())"

text \<open>The buffer of \<open>gp_filesystem_read_file\<close>: what the driver put there; the driver's error is replaced.\<close>

definition gp_filesystem_read_file ::
  "'w GPContext \<Rightarrow> string \<Rightarrow> string \<Rightarrow> CameraFileType \<Rightarrow> 64 word \<Rightarrow> 64 word \<Rightarrow> ('w, byte list) fsm" where
  "gp_filesystem_read_file c p filename t off sz =
     CR (CC c) (\<lambda>_. CR (CA p) (\<lambda>_.
     CR (gets (\<lambda>s. read_file_func (funcs s))) (\<lambda>func. case func of
       None \<Rightarrow> fail GP_ERROR_NOT_SUPPORTED
     | Some g \<Rightarrow> CR (os_call (g p filename t off sz)) (\<lambda>(r, buf).
         if r = GP_OK then ok buf else fail GP_ERROR_NOT_SUPPORTED))))"

section \<open>File information\<close>

definition gp_filesystem_get_info :: "'w os \<Rightarrow> 'w GPContext \<Rightarrow> string \<Rightarrow> string \<Rightarrow> ('w, CameraFileInfo) fsm" where
  "gp_filesystem_get_info os c p filename =
     CR (CC c) (\<lambda>_. CR (CA p) (\<lambda>_.
     CR (gets (\<lambda>s. get_info_func (funcs s))) (\<lambda>func. case func of
       None \<Rightarrow> fail GP_ERROR_NOT_SUPPORTED
     | Some g \<Rightarrow>
       CR (lookup_folder_file os c p filename) (\<lambda>(fp, file).
       CR (deref_file file) (\<lambda>x.
       CR (if info_dirty x
           then CR (os_call (g p filename (info x))) (\<lambda>(ret, i).
                CR (write_file file (\<lambda>y. y\<lparr>info := i\<rparr>)) (\<lambda>_.
                if ret < 0 then fail ret
                else write_file file (\<lambda>y. y\<lparr>info_dirty := False\<rparr>)))
           else ok ()) (\<lambda>_.
       CR (deref_file file) (\<lambda>x. ok (info x))))))))"

definition gp_filesystem_set_info_noop ::
  "'w os \<Rightarrow> 'w GPContext \<Rightarrow> string \<Rightarrow> string \<Rightarrow> CameraFileInfo \<Rightarrow> ('w, unit) fsm" where
  "gp_filesystem_set_info_noop os c p filename i =
     CR (CC c) (\<lambda>_. CR (CA p) (\<lambda>_.
     CR (lookup_folder_file os c p filename) (\<lambda>(fp, xfile).
     write_file xfile (\<lambda>y. y\<lparr>info := i, info_dirty := False\<rparr>))))"

text \<open>The attributes a caller may not set.\<close>

definition sets_read_only :: "CameraFileInfo \<Rightarrow> bool" where
  "sets_read_only i \<longleftrightarrow>
     i_fields (i_file i) AND GP_FILE_INFO_TYPE \<noteq> 0 \<or> i_fields (i_file i) AND GP_FILE_INFO_SIZE \<noteq> 0 \<or>
     i_fields (i_file i) AND GP_FILE_INFO_WIDTH \<noteq> 0 \<or> i_fields (i_file i) AND GP_FILE_INFO_HEIGHT \<noteq> 0 \<or>
     i_fields (i_file i) AND GP_FILE_INFO_STATUS \<noteq> 0 \<or>
     i_fields (i_preview i) AND GP_FILE_INFO_TYPE \<noteq> 0 \<or> i_fields (i_preview i) AND GP_FILE_INFO_SIZE \<noteq> 0 \<or>
     i_fields (i_preview i) AND GP_FILE_INFO_WIDTH \<noteq> 0 \<or> i_fields (i_preview i) AND GP_FILE_INFO_HEIGHT \<noteq> 0 \<or>
     i_fields (i_preview i) AND GP_FILE_INFO_STATUS \<noteq> 0 \<or>
     i_fields (i_audio i) AND GP_FILE_INFO_TYPE \<noteq> 0 \<or> i_fields (i_audio i) AND GP_FILE_INFO_SIZE \<noteq> 0 \<or>
     i_fields (i_audio i) AND GP_FILE_INFO_STATUS \<noteq> 0"

definition gp_filesystem_set_info ::
  "'w os \<Rightarrow> 'w GPContext \<Rightarrow> string \<Rightarrow> string \<Rightarrow> CameraFileInfo \<Rightarrow> ('w, unit) fsm" where
  "gp_filesystem_set_info os c p filename i =
     CR (CC c) (\<lambda>_. CR (CA p) (\<lambda>_.
     CR (gets (\<lambda>s. set_info_func (funcs s))) (\<lambda>func. case func of
       None \<Rightarrow> fail GP_ERROR_NOT_SUPPORTED
     | Some g \<Rightarrow>
       CR (lookup_folder_file os c p filename) (\<lambda>(fp, xfile).
       if sets_read_only i then fail GP_ERROR_BAD_PARAMETERS
       else
         CR (os_call (g p filename i)) (\<lambda>result.
         if result < 0
         then CR (write_file xfile (\<lambda>y. y\<lparr>info_dirty := True\<rparr>)) (\<lambda>_. fail result)
         else if i_fields (i_file i) AND GP_FILE_INFO_PERMISSIONS \<noteq> 0
         then write_file xfile (\<lambda>y. y\<lparr>info := (info y)\<lparr>i_file :=
                (i_file (info y))\<lparr>permissions := permissions (i_file i)\<rparr>\<rparr>\<rparr>)
         else ok ())))))"

section \<open>The cache\<close>

text \<open>The size of the object's data, as \<open>gp_file_get_data_and_size (file, NULL, &size)\<close> gives it.\<close>

definition object_size :: "'w os \<Rightarrow> nat \<Rightarrow> ('w, nat) fsm" where
  "object_size os c = CR (deref_object c) (\<lambda>f.
     CR (gp_file_get_data_and_size os f False) (\<lambda>(_, n). ok n))"

text \<open>The node moves to the end of the LRU list, or is put there.\<close>

definition lru_move_last :: "'w os \<Rightarrow> nat \<Rightarrow> CameraFileType \<Rightarrow> ('w, unit) fsm" where
  "lru_move_last os xfile t =
     CR (deref_file xfile) (\<lambda>x.
     CR (if lru_prev x \<noteq> None then
           CR (if t = GP_FILE_TYPE_NORMAL \<or> t = GP_FILE_TYPE_RAW \<or> t = GP_FILE_TYPE_AUDIO
               then (case cached t x of None \<Rightarrow> ok ()
                 | Some old \<Rightarrow> CR (object_size os old) sub_lru_size)
               else ok ()) (\<lambda>_.
           gp_filesystem_lru_remove_one xfile)
         else ok ()) (\<lambda>_. lru_link_last xfile))"

definition gp_filesystem_lru_update ::
  "'w os \<Rightarrow> 'w GPContext \<Rightarrow> string \<Rightarrow> string \<Rightarrow> CameraFileType \<Rightarrow> nat \<Rightarrow> ('w, unit) fsm" where
  "gp_filesystem_lru_update os c p filename t file =
     CR (object_size os file) (\<lambda>_.
     CR settle_pictures_to_keep (\<lambda>_.
     CR (gets next_addr) (\<lambda>n.
     CR (lru_prune n os) (\<lambda>_.
     CR (lookup_folder_file os c p filename) (\<lambda>(fp, xfile).
     CR (lru_move_last os xfile t) (\<lambda>_.
     CR (object_size os file) add_lru_size))))))"

text \<open>
  The view is replaced: the old object loses its reference, the new one gains one. (The
  reference is taken before the pointer is stored; the two statements do not touch the same memory.)
\<close>

definition replace_view :: "'w os \<Rightarrow> nat \<Rightarrow> CameraFileType \<Rightarrow> nat \<Rightarrow> ('w, unit) fsm" where
  "replace_view os xfile t file =
     CR (unref_cached os xfile t) (\<lambda>_.
     CR (ref_object file) (\<lambda>_.
     write_file xfile (set_cached t (Some file))))"

definition gp_filesystem_set_file_noop ::
  "'w os \<Rightarrow> 'w GPContext \<Rightarrow> string \<Rightarrow> string \<Rightarrow> CameraFileType \<Rightarrow> nat \<Rightarrow> ('w, unit) fsm" where
  "gp_filesystem_set_file_noop os c p filename t file =
     CR (CC c) (\<lambda>_. CR (CA p) (\<lambda>_.
     CR (lookup_folder_file os c p filename) (\<lambda>(fp, xfile).
     CR (if t = GP_FILE_TYPE_RAW \<or> t = GP_FILE_TYPE_NORMAL \<or> t = GP_FILE_TYPE_AUDIO
         then gp_filesystem_lru_update os c p filename t file else ok ()) (\<lambda>_.
     CR gp_filesystem_lru_check (\<lambda>_.
     CR (replace_view os xfile t file) (\<lambda>_.
     CR (deref_object file) (\<lambda>f.
     CR (if gp_file_get_mtime f = 0
         then catching (gp_filesystem_get_info os None p filename) (\<lambda>r. case r of
             Inr i \<Rightarrow> if i_fields (i_file i) AND GP_FILE_INFO_MTIME \<noteq> 0
                       then ok (i_mtime (i_file i)) else ok 0
           | Inl _ \<Rightarrow> ok 0)
         else ok (gp_file_get_mtime f)) (\<lambda>t.
     if t \<noteq> 0 then update_object file (\<lambda>f. gp_file_set_mtime f t) else ok ()))))))))"

definition gp_filesystem_get_storageinfo :: "'w GPContext \<Rightarrow> ('w, CameraStorageInformation list) fsm" where
  "gp_filesystem_get_storageinfo c =
     CR (CC c) (\<lambda>_.
     CR (gets (\<lambda>s. storage_info_func (funcs s))) (\<lambda>func. case func of
       None \<Rightarrow> fail GP_ERROR_NOT_SUPPORTED
     | Some g \<Rightarrow> CR (os_call g) (\<lambda>(ret, si). if ret < 0 then fail ret else ok si)))"

end
