(* ===== verification/Gp_Inv.thy ===== *)
theory Gp_Inv imports Gp_Filesys Gp_File_Props begin

text \<open>
  The invariant of the filesystem object: the folder numbers are distinct, every file node
  belongs to exactly one folder, no folder has two files of one name, the LRU pointers form a
  list, no cached view points to a freed object, and the cached objects are memory files. The steps
  the operations are made of keep it, whether they succeed or fail.
\<close>

section \<open>The invariant\<close>

definition tree_ok :: "folder \<Rightarrow> (nat \<Rightarrow> CameraFilesystemFile option) \<Rightarrow> nat \<Rightarrow> bool" where
  "tree_ok r h n \<longleftrightarrow> distinct (ids r) \<and> (\<forall>i\<in>set (ids r). i < n) \<and>
     distinct (concat (file_lists r)) \<and>
     (\<forall>i. h i \<noteq> None \<longleftrightarrow> i \<in> set (concat (file_lists r))) \<and>
     (\<forall>xs\<in>set (file_lists r). distinct (map (\<lambda>i. map_option f_name (h i)) xs))"

definition fs_ok :: "'w fs \<Rightarrow> bool" where
  "fs_ok s \<longleftrightarrow> cache_ok s \<and> (\<exists>xs. lru_is s xs) \<and> tree_ok (rootfolder s) (fnodes s) (next_addr s)"

lemma fs_okE:
  assumes "fs_ok s"
  obtains xs where "cache_ok s" and "lru_is s xs" and "tree_ok (rootfolder s) (fnodes s) (next_addr s)"
  using assms by (auto simp: fs_ok_def)

text \<open>What the invariant reads of the state.\<close>

lemma lru_is_cong:
  "lru_is s xs \<Longrightarrow> fnodes t = fnodes s \<Longrightarrow> lru_first t = lru_first s \<Longrightarrow> lru_last t = lru_last s \<Longrightarrow> lru_is t xs"
  by (simp add: lru_is_def)

lemma fs_ok_cong:
  "fs_ok s \<Longrightarrow> fnodes t = fnodes s \<Longrightarrow> objects t = objects s \<Longrightarrow> next_addr t = next_addr s \<Longrightarrow>
   rootfolder t = rootfolder s \<Longrightarrow> lru_first t = lru_first s \<Longrightarrow> lru_last t = lru_last s \<Longrightarrow> fs_ok t"
  unfolding fs_ok_def by (auto intro: cache_ok_cong lru_is_cong)

lemma fs_ok_mem [simp]: "fs_ok s \<Longrightarrow> fs_ok (s\<lparr>mem_ok := b\<rparr>)"
  by (erule fs_ok_cong) simp_all

lemma fs_ok_env [simp]: "fs_ok s \<Longrightarrow> fs_ok (s\<lparr>env := w\<rparr>)"
  by (erule fs_ok_cong) simp_all

section \<open>Purging file nodes\<close>

definition core :: "CameraFilesystemFile \<Rightarrow> CameraFilesystemFile" where
  "core x = x\<lparr>lru_prev := None, lru_next := None\<rparr>"

lemma core_sel [simp]: "f_name (core x) = f_name x" "cached ty (core x) = cached ty x"
  by (simp add: core_def) (cases ty; simp add: core_def)

lemma core_name: "map_option core a = map_option core b \<Longrightarrow> map_option f_name a = map_option f_name b"
  by (cases a; cases b) (auto, metis core_sel(1))

definition purged :: "'w fs \<Rightarrow> 'w fs \<Rightarrow> nat set \<Rightarrow> bool" where
  "purged s t X \<longleftrightarrow> rootfolder t = rootfolder s \<and> next_addr t = next_addr s \<and> funcs t = funcs s \<and>
     mem_ok t = mem_ok s \<and> pictures_to_keep t = pictures_to_keep s \<and> cached_images t = cached_images s \<and>
     (\<forall>i. map_option core (fnodes t i) = (if i \<in> X then None else map_option core (fnodes s i)))"

lemma purged_refl: "purged s s {}"
  by (simp add: purged_def)

lemma purged_trans: "purged s t X \<Longrightarrow> purged t u Y \<Longrightarrow> purged s u (Y \<union> X)"
  by (simp add: purged_def)

lemma purged_core: "purged s t X \<Longrightarrow>
    map_option core (fnodes t i) = (if i \<in> X then None else map_option core (fnodes s i))"
  by (simp add: purged_def)

lemma wp_remove_one:
  assumes ck: "cache_ok s" and l: "lru_is s L" and x: "fnodes s x = Some n"
  shows "wp (ignoring (gp_filesystem_lru_remove_one x))
    (\<lambda>_ t. cache_ok t \<and> lru_is t (filter (\<lambda>i. i \<noteq> x) L) \<and> purged s t {} \<and> fnodes t x \<noteq> None)
    (\<lambda>_ _. False) s"
proof (cases "x \<in> set L")
  case True
  have "distinct L" using l by (simp add: lru_is_def)
  then have rem: "remove1 x L = filter (\<lambda>i. i \<noteq> x) L"
    by (simp add: distinct_remove1_removeAll removeAll_filter_not_eq eq_commute)
  have "wp (gp_filesystem_lru_remove_one x)
    (\<lambda>_ t. cache_ok t \<and> lru_is t (filter (\<lambda>i. i \<noteq> x) L) \<and> purged s t {} \<and> fnodes t x \<noteq> None)
    (\<lambda>e t. False) s"
  proof (rule wp_mono [OF lru_remove_one [OF l True]])
    fix a t
    assume t: "lru_is t (remove1 x L) \<and> lru_frame s t"
    then obtain h where h: "t = s\<lparr>lru_first := lru_first t, lru_last := lru_last t, fnodes := h\<rparr>"
        "fnodes t = h" "same_but_links (fnodes s) h"
      by (auto simp: lru_frame_def)
    have c: "map_option core (h i) = map_option core (fnodes s i)" for i
      using h(3) by (simp add: same_but_links_def core_def [abs_def])
    have sv: "same_views (fnodes s) (fnodes t)"
      unfolding same_views_def h(2)
    proof (intro conjI allI)
      fix i ty
      show "Option.bind (fnodes s i) (cached ty) = Option.bind (h i) (cached ty)"
        using c [of i] by (cases "fnodes s i"; cases "h i") (auto dest: arg_cong [where f = "cached ty"])
      show "(fnodes s i = None) = (h i = None)"
        using c [of i] by (cases "fnodes s i"; cases "h i") auto
    qed
    have fr: "objects t = objects s" "next_addr t = next_addr s" "rootfolder t = rootfolder s" "funcs t = funcs s"
        "mem_ok t = mem_ok s" "pictures_to_keep t = pictures_to_keep s" "cached_images t = cached_images s"
      by (subst h(1), simp)+
    have "cache_ok t" by (rule cache_ok_same [OF ck sv]) (simp_all add: fr)
    moreover have "purged s t {}" by (simp add: purged_def fr h(2) c)
    moreover have "fnodes t x \<noteq> None" using c [of x] x h(2) by auto
    ultimately show "cache_ok t \<and> lru_is t (filter (\<lambda>i. i \<noteq> x) L) \<and> purged s t {} \<and> fnodes t x \<noteq> None"
      using t rem by simp
  qed simp
  then show ?thesis unfolding wp_ignoring by (rule wp_mono) simp_all
next
  case False
  then have f: "filter (\<lambda>i. i \<noteq> x) L = L" by (simp add: filter_id_conv) blast
  from lru_remove_absent [OF l False x] have "gp_filesystem_lru_remove_one x s = (Inl GP_ERROR, s)" .
  then have "wp (gp_filesystem_lru_remove_one x) (\<lambda>_ _. False) (\<lambda>e t. e = GP_ERROR \<and> t = s) s"
    by (simp add: wp_def)
  then show ?thesis unfolding wp_ignoring
    by (rule wp_mono) (use ck l x f in \<open>auto simp: purged_refl UNDEFINED_def gp_codes\<close>)
qed

lemma wp_purge_one:
  assumes ck: "cache_ok s" and l: "lru_is s L" and x: "fnodes s x = Some n"
  shows "wp (CR (ignoring (gp_filesystem_lru_remove_one x)) (\<lambda>_. CR (unref_all_cached os x) (\<lambda>_. free_file x)))
    (\<lambda>_ t. cache_ok t \<and> lru_is t (filter (\<lambda>i. i \<noteq> x) L) \<and> purged s t {x}) (\<lambda>_ _. False) s"
  unfolding wp_CR
proof (rule wp_mono [OF wp_remove_one [OF assms]])
  fix a t
  assume t: "cache_ok t \<and> lru_is t (filter (\<lambda>i. i \<noteq> x) L) \<and> purged s t {} \<and> fnodes t x \<noteq> None"
  then obtain m where m: "fnodes t x = Some m" by auto
  show "wp (unref_all_cached os x) (\<lambda>a. wp (free_file x)
      (\<lambda>_ t. cache_ok t \<and> lru_is t (filter (\<lambda>i. i \<noteq> x) L) \<and> purged s t {x}) (\<lambda>_ _. False)) (\<lambda>_ _. False) t"
  proof (rule wp_unref_all_cached [OF _ m])
    fix w obj
    let ?u = "t\<lparr>env := w, objects := obj, fnodes := (fnodes t)(x \<mapsto> no_views m)\<rparr>"
    assume "cache_ok ?u"
    then have "cache_ok (?u\<lparr>fnodes := (fnodes ?u)(x := None)\<rparr>)"
      by (rule cache_ok_free) auto
    moreover have "lru_is (?u\<lparr>fnodes := (fnodes ?u)(x := None)\<rparr>) (filter (\<lambda>i. i \<noteq> x) L)"
    proof -
      have "lru_is t (filter (\<lambda>i. i \<noteq> x) L)" using t by simp
      moreover have "x \<notin> set (filter (\<lambda>i. i \<noteq> x) L)" by simp
      ultimately show ?thesis by (simp add: lru_is_def)
    qed
    moreover have "purged s (?u\<lparr>fnodes := (fnodes ?u)(x := None)\<rparr>) {x}"
      using t by (simp add: purged_def)
    ultimately show "wp (free_file x)
      (\<lambda>_ t. cache_ok t \<and> lru_is t (filter (\<lambda>i. i \<noteq> x) L) \<and> purged s t {x}) (\<lambda>_ _. False) ?u"
      by simp
  qed (use t in simp)
qed simp

lemma purged_dom: "purged s t X \<Longrightarrow> fnodes t i \<noteq> None \<longleftrightarrow> i \<notin> X \<and> fnodes s i \<noteq> None"
  using purged_core [of s t X i] by (cases "fnodes t i"; cases "fnodes s i") (auto split: if_splits)

lemma wp_purge_files:
  assumes "cache_ok s" and "lru_is s L" and "\<And>x. x \<in> set xs \<Longrightarrow> fnodes s x \<noteq> None" and "distinct xs"
  shows "wp (purge_files os xs)
    (\<lambda>_ t. cache_ok t \<and> lru_is t (filter (\<lambda>i. i \<notin> set xs) L) \<and> purged s t (set xs)) (\<lambda>_ _. False) s"
  using assms
proof (induction xs arbitrary: s L)
  case Nil
  then show ?case by (simp add: purged_refl)
next
  case (Cons x xs)
  from Cons.prems obtain n where n: "fnodes s x = Some n" by fastforce
  have eq: "purge_files os (x # xs) =
      CR (CR (ignoring (gp_filesystem_lru_remove_one x)) (\<lambda>_. CR (unref_all_cached os x) (\<lambda>_. free_file x)))
        (\<lambda>_. purge_files os xs)"
    by (simp add: CR_assoc)
  show ?case
    unfolding eq wp_CR [of "CR (ignoring (gp_filesystem_lru_remove_one x)) k" for k]
  proof (rule wp_mono [OF wp_purge_one [OF Cons.prems(1,2) n]])
    fix a t
    assume t: "cache_ok t \<and> lru_is t (filter (\<lambda>i. i \<noteq> x) L) \<and> purged s t {x}"
    then have "\<And>y. y \<in> set xs \<Longrightarrow> fnodes t y \<noteq> None"
      using purged_dom [of s t "{x}"] Cons.prems(3,4) by auto
    with Cons.IH [of t "filter (\<lambda>i. i \<noteq> x) L"] t Cons.prems(4)
    have "wp (purge_files os xs) (\<lambda>_ u. cache_ok u \<and>
        lru_is u (filter (\<lambda>i. i \<notin> set xs) (filter (\<lambda>i. i \<noteq> x) L)) \<and> purged t u (set xs)) (\<lambda>_ _. False) t"
      by simp
    then show "wp (purge_files os xs) (\<lambda>_ u. cache_ok u \<and>
        lru_is u (filter (\<lambda>i. i \<notin> set (x # xs)) L) \<and> purged s u (set (x # xs))) (\<lambda>_ _. False) t"
    proof (rule wp_mono)
      fix b u
      assume u: "cache_ok u \<and> lru_is u (filter (\<lambda>i. i \<notin> set xs) (filter (\<lambda>i. i \<noteq> x) L)) \<and> purged t u (set xs)"
      have "purged s u (set xs \<union> {x})" using t u purged_trans by blast
      with u show "cache_ok u \<and> lru_is u (filter (\<lambda>i. i \<notin> set (x # xs)) L) \<and> purged s u (set (x # xs))"
        by (simp add: conj_commute)
    qed simp
  qed simp
qed

text \<open>\<open>recurse_delete\<close> purges the files of all subfolders, in this order.\<close>

fun delete_order :: "folder \<Rightarrow> nat list" and delete_order_list :: "folder list \<Rightarrow> nat list" where
  "delete_order (Folder i n a b fs xs) = delete_order_list fs"
| "delete_order_list [] = []"
| "delete_order_list (f # fs) = delete_order f @ files f @ delete_order_list fs"

lemma purge_files_append:
  "purge_files os (xs @ ys) = CR (purge_files os xs) (\<lambda>_. purge_files os ys)"
  by (induction xs) (simp_all add: CR_assoc)

lemma recurse_delete_purge:
  "recurse_delete os f = purge_files os (delete_order f)"
  "recurse_delete_list os fs = purge_files os (delete_order_list fs)"
  by (induction os f and os fs rule: recurse_delete_recurse_delete_list.induct)
    (simp_all add: purge_files_append CR_assoc)

lemma delete_order_mset:
  "mset (delete_order f) = mset (concat (file_lists_of (folders f)))"
  "mset (delete_order_list fs) = mset (concat (file_lists_of fs))"
proof (induction f and fs rule: delete_order_delete_order_list.induct)
  case (3 f fs)
  then show ?case by (cases f) (simp add: ac_simps)
qed simp_all


section \<open>Updates of the tree\<close>

abbreviation name_at :: "(nat \<Rightarrow> CameraFilesystemFile option) \<Rightarrow> nat \<Rightarrow> string option" where
  "name_at h i \<equiv> map_option f_name (h i)"

lemma name_at_None: "name_at h i = None \<longleftrightarrow> h i = None"
  by simp

lemma mset_concat_cong: "mset xs = mset ys \<Longrightarrow> mset (concat xs) = mset (concat ys)"
  by (metis mset_concat mset_map sum_mset_sum_list)

lemma distinct_mset_cong: "mset xs = mset ys \<Longrightarrow> distinct xs = distinct ys"
  by (rule mset_eq_imp_distinct_iff)

text \<open>Flags do not matter.\<close>

lemma tree_ok_flag:
  assumes t: "tree_ok r h n" and g: "find_folder i r = Some g"
    and u: "ids (u g) = ids g" "file_lists (u g) = file_lists g"
  shows "tree_ok (upd_folder i u r) h n"
proof -
  from t have "distinct (ids r)" by (simp add: tree_ok_def)
  from upd_contextE [OF g this] obtain I L where
    "mset (ids r) = I + mset (ids g)" "mset (file_lists r) = L + mset (file_lists g)"
    "mset (ids (upd_folder i u r)) = I + mset (ids (u g))"
    "mset (file_lists (upd_folder i u r)) = L + mset (file_lists (u g))" by metis
  with u have m: "mset (ids (upd_folder i u r)) = mset (ids r)"
      "mset (file_lists (upd_folder i u r)) = mset (file_lists r)" by simp_all
  note s = mset_eq_setD [OF m(1)] mset_eq_setD [OF m(2)] mset_eq_setD [OF mset_concat_cong [OF m(2)]]
  show ?thesis
    using t distinct_mset_cong [OF m(1)] distinct_mset_cong [OF mset_concat_cong [OF m(2)]]
    unfolding tree_ok_def s by simp
qed

text \<open>Removing files, alone or with the folders they are in.\<close>

lemma tree_ok_remove:
  assumes t: "tree_ok r h n" and g: "find_folder i r = Some g"
    and ids: "mset (ids (u g)) \<subseteq># mset (ids g)"
    and part: "mset (concat (file_lists g)) = mset (concat (file_lists (u g))) + mset X"
    and sub: "\<And>xs. xs \<in> set (file_lists (u g)) \<Longrightarrow> xs = [] \<or> (\<exists>P. \<exists>ys\<in>set (file_lists g). xs = filter P ys)"
    and h': "\<And>j. name_at h' j = (if j \<in> set X then None else name_at h j)"
  shows "tree_ok (upd_folder i u r) h' n"
proof -
  let ?r = "upd_folder i u r"
  from t have d: "distinct (ids r)" by (simp add: tree_ok_def)
  from upd_contextE [OF g d] obtain I L where
    i1: "mset (ids r) = I + mset (ids g)" and l1: "mset (file_lists r) = L + mset (file_lists g)" and
    i2: "mset (ids ?r) = I + mset (ids (u g))" and
    l2: "mset (file_lists ?r) = L + mset (file_lists (u g))" by metis
  obtain Ls where Ls: "mset Ls = L" using ex_mset by blast
  have le: "mset (ids ?r) \<subseteq># mset (ids r)" using ids by (simp add: i1 i2)
  obtain K where K: "mset (ids r) = mset (ids ?r) + K" using le unfolding mset_subset_eq_exists_conv by blast
  obtain ks where "mset ks = K" using ex_mset by blast
  with K have "mset (ids r) = mset (ids ?r @ ks)" by simp
  then have dist: "distinct (ids ?r)" using d distinct_mset_cong [of "ids r" "ids ?r @ ks"] by simp
  have sub_ids: "set (ids ?r) \<subseteq> set (ids r)" using le by (metis set_mset_mono set_mset_mset)
  have c1: "mset (concat (file_lists r)) = mset (concat Ls) + mset (concat (file_lists (u g))) + mset X"
    using mset_concat_cong [of "file_lists r" "Ls @ file_lists g"] l1 Ls part by simp
  have c2: "mset (concat (file_lists ?r)) = mset (concat Ls) + mset (concat (file_lists (u g)))"
    using mset_concat_cong [of "file_lists ?r" "Ls @ file_lists (u g)"] l2 Ls by simp
  have c3: "mset (concat (file_lists r)) = mset (concat (file_lists ?r) @ X)" using c1 c2 by simp
  have dc: "distinct (concat (file_lists ?r) @ X)"
    using t distinct_mset_cong [OF c3] by (simp add: tree_ok_def)
  have sc: "set (concat (file_lists r)) = set (concat (file_lists ?r)) \<union> set X"
    using mset_eq_setD [OF c3] by simp
  have dom: "h' j \<noteq> None \<longleftrightarrow> j \<in> set (concat (file_lists ?r))" for j
  proof -
    have "h' j \<noteq> None \<longleftrightarrow> j \<notin> set X \<and> h j \<noteq> None"
      using h' [of j] name_at_None [of h' j] name_at_None [of h j] by (auto split: if_splits)
    also have "\<dots> \<longleftrightarrow> j \<notin> set X \<and> j \<in> set (concat (file_lists r))" using t by (simp add: tree_ok_def)
    also have "\<dots> \<longleftrightarrow> j \<in> set (concat (file_lists ?r))" using sc dc by auto
    finally show ?thesis .
  qed
  have names: "distinct (map (name_at h') xs)" if xs: "xs \<in> set (file_lists ?r)" for xs
  proof -
    have "xs \<in> set Ls \<or> xs \<in> set (file_lists (u g))"
      using xs mset_eq_setD [of "file_lists ?r" "Ls @ file_lists (u g)"] l2 Ls by auto
    then have "\<exists>P. \<exists>ys\<in>set (file_lists r). xs = [] \<or> xs = filter P ys"
    proof
      assume "xs \<in> set Ls"
      then have "xs \<in> set (file_lists r)"
        using mset_eq_setD [of "file_lists r" "Ls @ file_lists g"] l1 Ls by auto
      moreover have "xs = filter (\<lambda>_. True) xs" by simp
      ultimately show ?thesis by blast
    next
      assume "xs \<in> set (file_lists (u g))"
      then have "xs = [] \<or> (\<exists>P. \<exists>ys\<in>set (file_lists g). xs = filter P ys)" by (rule sub)
      moreover have "set (file_lists g) \<subseteq> set (file_lists r)"
        using mset_eq_setD [of "file_lists r" "Ls @ file_lists g"] l1 Ls by auto
      moreover have "files g \<in> set (file_lists g)" by (cases g) simp
      ultimately show ?thesis by (elim disjE exE bexE) blast+
    qed
    then obtain P ys where ys: "ys \<in> set (file_lists r)" "xs = [] \<or> xs = filter P ys" by blast
    have "distinct (map (name_at h) ys)" using t ys(1) by (simp add: tree_ok_def)
    then have dx: "distinct (map (name_at h) xs)" using ys(2) by (auto simp: distinct_map_filter)
    have eq: "map (name_at h') xs = map (name_at h) xs"
    proof (rule map_cong [OF refl])
      fix j assume "j \<in> set xs"
      with xs have "j \<in> set (concat (file_lists ?r))" by auto
      with dc have "j \<notin> set X" by auto
      with h' show "name_at h' j = name_at h j" by simp
    qed
    show ?thesis unfolding eq by (rule dx)
  qed
  show ?thesis
    unfolding tree_ok_def
  proof (intro conjI ballI allI)
    show "distinct (ids ?r)" by (rule dist)
    show "j < n" if "j \<in> set (ids ?r)" for j using that sub_ids t by (auto simp: tree_ok_def)
    show "distinct (concat (file_lists ?r))" using dc by simp
    show "(h' j \<noteq> None) = (j \<in> set (concat (file_lists ?r)))" for j by (rule dom)
    show "distinct (map (name_at h') xs)" if "xs \<in> set (file_lists ?r)" for xs by (rule names [OF that])
  qed
qed

text \<open>Adding a file with a new name, or a folder.\<close>

lemma tree_ok_add_file:
  assumes t: "tree_ok r h n" and g: "find_folder i r = Some g" and fr: "h n = None"
    and new: "Some (f_name nd) \<notin> name_at h ` set (files g)"
  shows "tree_ok (upd_folder i (\<lambda>f. set_files (files f @ [n]) f) r) (h(n \<mapsto> nd)) (Suc n)"
proof -
  let ?u = "\<lambda>f. set_files (files f @ [n]) f"
  let ?r = "upd_folder i ?u r"
  from t have d: "distinct (ids r)" by (simp add: tree_ok_def)
  obtain I L where
    i1: "mset (ids r) = I + mset (ids g)" and l1: "mset (file_lists r) = L + mset (file_lists g)" and
    iu: "\<And>u. mset (ids (upd_folder i u r)) = I + mset (ids (u g))" and
    lu: "\<And>u. mset (file_lists (upd_folder i u r)) = L + mset (file_lists (u g))"
    using upd_context(1) [OF g d] by blast
  note i2 = iu [of ?u] and l2 = lu [of ?u]
  obtain Ls where Ls: "mset Ls = L" using ex_mset by blast
  have fl: "file_lists g = files g # file_lists_of (folders g)"
      "file_lists (?u g) = (files g @ [n]) # file_lists_of (folders g)"
    by (simp_all add: file_lists_sel)
  have mi: "mset (ids ?r) = mset (ids r)" using i1 i2 by (simp add: ids_sel)
  have c: "mset (concat (file_lists ?r)) = mset (n # concat (file_lists r))"
    using mset_concat_cong [of "file_lists ?r" "Ls @ file_lists (?u g)"]
      mset_concat_cong [of "file_lists r" "Ls @ file_lists g"] l1 l2 Ls fl by simp
  have nn: "n \<notin> set (concat (file_lists r))" using t fr by (metis tree_ok_def)
  have sr: "set (file_lists r) = set Ls \<union> set (file_lists g)"
    using mset_eq_setD [of "file_lists r" "Ls @ file_lists g"] l1 Ls by simp
  have sr': "set (file_lists ?r) = set Ls \<union> set (file_lists (?u g))"
    using mset_eq_setD [of "file_lists ?r" "Ls @ file_lists (?u g)"] l2 Ls by simp
  have old: "map (name_at (h(n \<mapsto> nd))) xs = map (name_at h) xs" if "xs \<in> set (file_lists r)" for xs
    using that nn by (intro map_cong) auto
  have names: "distinct (map (name_at (h(n \<mapsto> nd))) xs)" if xs: "xs \<in> set (file_lists ?r)" for xs
  proof (cases "xs \<in> set (file_lists r)")
    case True
    with t have "distinct (map (name_at h) xs)" by (simp add: tree_ok_def)
    then show ?thesis by (simp only: old [OF True])
  next
    case False
    with xs sr sr' fl have xs: "xs = files g @ [n]" by auto
    have mem: "files g \<in> set (file_lists r)" using sr fl by simp
    with t have "distinct (map (name_at h) (files g))" by (simp add: tree_ok_def)
    then have "distinct (map (name_at (h(n \<mapsto> nd))) (files g))" by (simp only: old [OF mem])
    moreover have "name_at (h(n \<mapsto> nd)) ` set (files g) = name_at h ` set (files g)"
      using arg_cong [OF old [OF mem], of set] by (simp only: set_map)
    ultimately show ?thesis using new by (simp add: xs)
  qed
  show ?thesis
    unfolding tree_ok_def
  proof (intro conjI ballI allI)
    show "distinct (ids ?r)" using d distinct_mset_cong [OF mi] by simp
    show "j < Suc n" if "j \<in> set (ids ?r)" for j
      using that t mset_eq_setD [OF mi] by (auto simp: tree_ok_def)
    show "distinct (concat (file_lists ?r))"
      using t nn distinct_mset_cong [OF c] by (simp add: tree_ok_def)
    show "((h(n \<mapsto> nd)) j \<noteq> None) = (j \<in> set (concat (file_lists ?r)))" for j
      using t mset_eq_setD [OF c] by (simp add: tree_ok_def)
    show "distinct (map (name_at (h(n \<mapsto> nd))) xs)" if "xs \<in> set (file_lists ?r)" for xs
      using names [OF that] .
  qed
qed

lemma tree_ok_add_folder:
  assumes t: "tree_ok r h n" and g: "find_folder i r = Some g"
  shows "tree_ok (upd_folder i (\<lambda>f. set_folders (Folder n nm True True [] [] # folders f) f) r) h (Suc n)"
proof -
  let ?u = "\<lambda>f. set_folders (Folder n nm True True [] [] # folders f) f"
  let ?r = "upd_folder i ?u r"
  from t have d: "distinct (ids r)" by (simp add: tree_ok_def)
  obtain I L where
    i1: "mset (ids r) = I + mset (ids g)" and l1: "mset (file_lists r) = L + mset (file_lists g)" and
    iu: "\<And>u. mset (ids (upd_folder i u r)) = I + mset (ids (u g))" and
    lu: "\<And>u. mset (file_lists (upd_folder i u r)) = L + mset (file_lists (u g))"
    using upd_context(1) [OF g d] by blast
  note i2 = iu [of ?u] and l2 = lu [of ?u]
  have mi: "mset (ids ?r) = mset (n # ids r)" using i1 i2 by (simp add: ids_sel)
  have ml: "mset (file_lists ?r) = mset ([] # file_lists r)" using l1 l2 by (simp add: file_lists_sel)
  have nn: "n \<notin> set (ids r)" using t by (auto simp: tree_ok_def)
  show ?thesis
    unfolding tree_ok_def
  proof (intro conjI ballI allI)
    show "distinct (ids ?r)" using d nn distinct_mset_cong [OF mi] by simp
    show "j < Suc n" if "j \<in> set (ids ?r)" for j
      using that t mset_eq_setD [OF mi] by (auto simp: tree_ok_def)
    show "distinct (concat (file_lists ?r))"
      using t distinct_mset_cong [OF mset_concat_cong [OF ml]] by (simp add: tree_ok_def)
    show "(h j \<noteq> None) = (j \<in> set (concat (file_lists ?r)))" for j
      using t mset_eq_setD [OF mset_concat_cong [OF ml]] by (simp add: tree_ok_def)
    show "distinct (map (name_at h) xs)" if "xs \<in> set (file_lists ?r)" for xs
      using that t mset_eq_setD [OF ml] by (auto simp: tree_ok_def)
  qed
qed


section \<open>Operations that keep the invariant\<close>

lemma fs_ok_tree:
  assumes "cache_ok s" and "lru_is s xs" and "tree_ok r (fnodes s) (next_addr s)"
  shows "fs_ok (s\<lparr>rootfolder := r\<rparr>)"
  unfolding fs_ok_def
  using assms cache_ok_cong [of s "s\<lparr>rootfolder := r\<rparr>"] lru_is_cong [of s xs "s\<lparr>rootfolder := r\<rparr>"] by auto

lemma keeps_same_tree:
  assumes "\<And>f. ids (u f) = ids f" and "\<And>f. file_lists (u f) = file_lists f"
  shows "keeps fs_ok (write_folder i u)"
proof -
  have "fs_ok (s\<lparr>rootfolder := upd_folder i u (rootfolder s)\<rparr>)"
    if s: "fs_ok s" and f: "find_folder i (rootfolder s) = Some f" for s :: "'a fs" and f
  proof -
    from s obtain xs where "cache_ok s" "lru_is s xs" "tree_ok (rootfolder s) (fnodes s) (next_addr s)"
      by (rule fs_okE)
    with tree_ok_flag [where u = u, OF this(3) f assms] show ?thesis by (intro fs_ok_tree)
  qed
  then show ?thesis by (auto simp: keeps_wp split: option.splits)
qed

lemma keeps_flags [keeps_intro]:
  "keeps fs_ok (write_folder i (set_files_dirty b))"
  "keeps fs_ok (write_folder i (set_folders_dirty b))"
  by (rule keeps_same_tree; simp add: ids_sel file_lists_sel)+

lemma tree_ok_cong:
  assumes "tree_ok r h n" and "\<And>j. name_at h' j = name_at h j"
  shows "tree_ok r h' n"
proof -
  have "name_at h' = name_at h" using assms(2) by (rule ext)
  moreover have "(h' j \<noteq> None) = (h j \<noteq> None)" for j using assms(2) [of j] by (metis name_at_None)
  ultimately show ?thesis using assms(1) unfolding tree_ok_def by simp
qed

lemma tree_ok_files_of:
  assumes "tree_ok r h n" and "find_folder i r = Some g" and "xs \<in> set (file_lists g)"
  shows "\<And>x. x \<in> set xs \<Longrightarrow> h x \<noteq> None" and "distinct (map (name_at h) xs)"
proof -
  from assms(1) have "distinct (ids r)" by (simp add: tree_ok_def)
  with upd_context(1) [OF assms(2)] obtain L where "mset (file_lists r) = L + mset (file_lists g)" by blast
  then have "set (file_lists g) \<subseteq> set (file_lists r)"
    by (metis mset_subset_eq_add_right set_mset_mono set_mset_mset)
  with assms(3) have xs: "xs \<in> set (file_lists r)" by auto
  show "h x \<noteq> None" if "x \<in> set xs" for x
    using assms(1) xs that by (auto simp: tree_ok_def)
  show "distinct (map (name_at h) xs)" using assms(1) xs by (simp add: tree_ok_def)
qed

lemma tree_ok_distinct_nodes:
  assumes "tree_ok r h n" and "find_folder i r = Some g"
  shows "distinct (concat (file_lists g))"
proof -
  from assms(1) have "distinct (ids r)" by (simp add: tree_ok_def)
  with upd_context(1) [OF assms(2)] obtain L where L: "mset (file_lists r) = L + mset (file_lists g)" by blast
  obtain Ls where "mset Ls = L" using ex_mset by blast
  with L have "mset (file_lists r) = mset (Ls @ file_lists g)" by simp
  from distinct_mset_cong [OF mset_concat_cong [OF this]] assms(1) show ?thesis
    by (simp add: tree_ok_def)
qed

text \<open>
  Purging nodes of a folder and then taking them (or the folders with them) out of the tree.
\<close>

lemma wp_purge_write:
  assumes ok: "fs_ok s" and f: "find_folder i (rootfolder s) = Some f"
    and ids: "mset (ids (u f)) \<subseteq># mset (ids f)"
    and part: "mset (concat (file_lists f)) = mset (concat (file_lists (u f))) + mset X"
    and sub: "\<And>xs. xs \<in> set (file_lists (u f)) \<Longrightarrow> xs = [] \<or> (\<exists>P. \<exists>ys\<in>set (file_lists f). xs = filter P ys)"
  shows "wp (CR (purge_files os X) (\<lambda>_. write_folder i u))
    (\<lambda>_ t. fs_ok t \<and> rootfolder t = upd_folder i u (rootfolder s) \<and> purged s (t\<lparr>rootfolder := rootfolder s\<rparr>) (set X))
    (\<lambda>_ _. False) s"
proof -
  from ok obtain L where s: "cache_ok s" "lru_is s L" "tree_ok (rootfolder s) (fnodes s) (next_addr s)"
    by (rule fs_okE)
  have X: "set X \<subseteq> set (concat (file_lists f))" using mset_eq_setD [of "concat (file_lists f)" "concat (file_lists (u f)) @ X"] part by auto
  have dom: "fnodes s x \<noteq> None" if "x \<in> set X" for x
    using X that tree_ok_files_of(1) [OF s(3) f] by auto
  have dX: "distinct X"
    using tree_ok_distinct_nodes [OF s(3) f] part
      distinct_mset_cong [of "concat (file_lists f)" "concat (file_lists (u f)) @ X"] by simp
  show ?thesis
    unfolding wp_CR
  proof (rule wp_mono [OF wp_purge_files [OF s(1,2) dom dX]])
    fix a t
    assume t: "cache_ok t \<and> lru_is t (filter (\<lambda>i. i \<notin> set X) L) \<and> purged s t (set X)"
    then have r: "rootfolder t = rootfolder s" and n: "next_addr t = next_addr s" by (simp_all add: purged_def)
    have nm: "name_at (fnodes t) j = (if j \<in> set X then None else name_at (fnodes s) j)" for j
    proof (cases "j \<in> set X")
      case True
      with t purged_core [of s t "set X" j] show ?thesis by simp
    next
      case False
      with t purged_core [of s t "set X" j] have "map_option core (fnodes t j) = map_option core (fnodes s j)" by simp
      then have "name_at (fnodes t) j = name_at (fnodes s) j" by (rule core_name)
      with False show ?thesis by simp
    qed
    have "tree_ok (upd_folder i u (rootfolder s)) (fnodes t) (next_addr t)"
      unfolding n by (rule tree_ok_remove [where u = u, OF s(3) f ids part sub nm])
    then have "fs_ok (t\<lparr>rootfolder := upd_folder i u (rootfolder t)\<rparr>)"
      using t unfolding r by (intro fs_ok_tree) auto
    with f r t show "wp (write_folder i u)
      (\<lambda>_ t. fs_ok t \<and> rootfolder t = upd_folder i u (rootfolder s) \<and> purged s (t\<lparr>rootfolder := rootfolder s\<rparr>) (set X))
      (\<lambda>_ _. False) t"
      unfolding wp_write_folder by (simp add: purged_def del: fs.surjective)
  qed simp
qed

lemma wp_delete_all_files:
  assumes ok: "fs_ok s" and f: "find_folder i (rootfolder s) = Some f"
  shows "wp (delete_all_files os i)
    (\<lambda>_ t. fs_ok t \<and> rootfolder t = upd_folder i (set_files []) (rootfolder s) \<and>
       purged s (t\<lparr>rootfolder := rootfolder s\<rparr>) (set (files f))) (\<lambda>_ _. False) s"
proof -
  have "wp (CR (purge_files os (files f)) (\<lambda>_. write_folder i (set_files [])))
    (\<lambda>_ t. fs_ok t \<and> rootfolder t = upd_folder i (set_files []) (rootfolder s) \<and>
       purged s (t\<lparr>rootfolder := rootfolder s\<rparr>) (set (files f))) (\<lambda>_ _. False) s"
  proof (rule wp_purge_write [OF ok f])
    fix xs assume "xs \<in> set (file_lists (set_files [] f))"
    then show "xs = [] \<or> (\<exists>P. \<exists>ys\<in>set (file_lists f). xs = filter P ys)"
      by (auto simp: file_lists_sel intro!: exI [of _ "\<lambda>_. True"])
  qed (simp_all add: ids_sel file_lists_sel)
  with f show ?thesis by (simp add: delete_all_files_def)
qed

lemma keeps_delete_all_files [keeps_intro]: "keeps fs_ok (delete_all_files os i)"
  unfolding keeps_wp
proof (intro allI impI)
  fix s :: "'a fs" assume ok: "fs_ok s"
  show "wp (delete_all_files os i) (\<lambda>_. fs_ok) (\<lambda>_. fs_ok) s"
  proof (cases "find_folder i (rootfolder s)")
    case None
    with ok show ?thesis by (simp add: delete_all_files_def)
  next
    case (Some f)
    show ?thesis by (rule wp_mono [OF wp_delete_all_files [OF ok Some]]) simp_all
  qed
qed

lemma wp_recurse_delete_folder:
  assumes ok: "fs_ok s" and f: "find_folder i (rootfolder s) = Some f"
  shows "wp (recurse_delete_folder os i)
    (\<lambda>_ t. fs_ok t \<and> rootfolder t = upd_folder i (set_folders []) (rootfolder s) \<and>
       purged s (t\<lparr>rootfolder := rootfolder s\<rparr>) (set (delete_order f))) (\<lambda>_ _. False) s"
proof -
  have "wp (CR (purge_files os (delete_order f)) (\<lambda>_. write_folder i (set_folders [])))
    (\<lambda>_ t. fs_ok t \<and> rootfolder t = upd_folder i (set_folders []) (rootfolder s) \<and>
       purged s (t\<lparr>rootfolder := rootfolder s\<rparr>) (set (delete_order f))) (\<lambda>_ _. False) s"
  proof (rule wp_purge_write [OF ok f])
    fix xs assume "xs \<in> set (file_lists (set_folders [] f))"
    then show "xs = [] \<or> (\<exists>P. \<exists>ys\<in>set (file_lists f). xs = filter P ys)"
      by (auto simp: file_lists_sel intro!: exI [of _ "\<lambda>_. True"])
  qed (simp_all add: ids_sel file_lists_sel delete_order_mset)
  with f show ?thesis by (simp add: recurse_delete_folder_def recurse_delete_purge)
qed

lemma keeps_recurse_delete_folder [keeps_intro]: "keeps fs_ok (recurse_delete_folder os i)"
  unfolding keeps_wp
proof (intro allI impI)
  fix s :: "'a fs" assume ok: "fs_ok s"
  show "wp (recurse_delete_folder os i) (\<lambda>_. fs_ok) (\<lambda>_. fs_ok) s"
  proof (cases "find_folder i (rootfolder s)")
    case None
    with ok show ?thesis by (simp add: recurse_delete_folder_def)
  next
    case (Some f)
    show ?thesis by (rule wp_mono [OF wp_recurse_delete_folder [OF ok Some]]) simp_all
  qed
qed


lemma wp_malloc_fs:
  assumes "\<And>b. Q () (s\<lparr>mem_ok := b\<rparr>)" and "\<And>b. E GP_ERROR_NO_MEMORY (s\<lparr>mem_ok := b\<rparr>)"
  shows "wp malloc Q E s"
  using assms by (intro wp_malloc)

lemma cache_ok_next: "cache_ok s \<Longrightarrow> next_addr s \<le> n \<Longrightarrow> cache_ok (s\<lparr>next_addr := n\<rparr>)"
  by (rule cache_ok_same) (simp_all add: same_views_def)

lemma fs_ok_add_folder:
  assumes ok: "fs_ok s" and f: "find_folder i (rootfolder s) = Some f"
  shows "fs_ok (s\<lparr>next_addr := Suc (next_addr s),
    rootfolder := upd_folder i (\<lambda>f. set_folders (Folder (next_addr s) nm True True [] [] # folders f) f) (rootfolder s)\<rparr>)"
proof -
  from ok obtain L where s: "cache_ok s" "lru_is s L" "tree_ok (rootfolder s) (fnodes s) (next_addr s)"
    by (rule fs_okE)
  let ?t = "s\<lparr>next_addr := Suc (next_addr s)\<rparr>"
  have "cache_ok ?t" using s(1) by (rule cache_ok_next) simp
  moreover have "lru_is ?t L" using s(2) by (rule lru_is_cong) simp_all
  ultimately show ?thesis using tree_ok_add_folder [OF s(3) f] by (intro fs_ok_tree) auto
qed

lemma keeps_append_folder_one [keeps_intro]: "keeps fs_ok (append_folder_one i nm)"
  unfolding keeps_wp
proof (intro allI impI)
  fix s :: "'a fs" assume ok: "fs_ok s"
  show "wp (append_folder_one i nm) (\<lambda>_. fs_ok) (\<lambda>_. fs_ok) s"
  proof (cases "find_folder i (rootfolder s)")
    case None
    have "fs_ok (s\<lparr>mem_ok := b, next_addr := Suc (next_addr s)\<rparr>)" for b
    proof -
      from ok obtain L where s: "cache_ok s" "lru_is s L" "tree_ok (rootfolder s) (fnodes s) (next_addr s)"
        by (rule fs_okE)
      let ?t = "s\<lparr>mem_ok := b, next_addr := Suc (next_addr s)\<rparr>"
      have "cache_ok ?t" by (rule cache_ok_same [OF s(1)]) (simp_all add: same_views_def)
      moreover have "lru_is ?t L" using s(2) by (rule lru_is_cong) simp_all
      moreover have "tree_ok (rootfolder s) (fnodes s) (Suc (next_addr s))"
        using s(3) by (auto simp: tree_ok_def less_Suc_eq)
      ultimately show ?thesis by (auto simp: fs_ok_def)
    qed
    with None ok show ?thesis by (auto simp: append_folder_one_def intro!: wp_malloc_fs)
  next
    case (Some f)
    have "fs_ok (s\<lparr>mem_ok := b, next_addr := Suc (next_addr s),
      rootfolder := upd_folder i (\<lambda>f. set_folders (Folder (next_addr s) nm True True [] [] # folders f) f) (rootfolder s)\<rparr>)" for b
      using fs_ok_add_folder [OF fs_ok_mem [OF ok, of b], of i f nm] Some by simp
    with Some ok show ?thesis by (auto simp: append_folder_one_def intro!: wp_malloc_fs)
  qed
qed

lemma fs_ok_names:
  assumes "fs_ok s" and "find_folder i (rootfolder s) = Some f"
  shows "distinct (map (name_at (fnodes s)) (files f))" and "\<And>x. x \<in> set (files f) \<Longrightarrow> fnodes s x \<noteq> None"
proof -
  from assms(1) have t: "tree_ok (rootfolder s) (fnodes s) (next_addr s)" by (simp add: fs_ok_def)
  have "files f \<in> set (file_lists f)" by (simp add: file_lists_sel)
  with tree_ok_files_of [OF t assms(2)] show "distinct (map (name_at (fnodes s)) (files f))"
    "\<And>x. x \<in> set (files f) \<Longrightarrow> fnodes s x \<noteq> None" by blast+
qed

text \<open>The search for a file by name.\<close>

lemma find_node_run:
  assumes "\<And>x. x \<in> set xs \<Longrightarrow> fnodes s x \<noteq> None"
  shows "find_node n xs s = (Inr (find (\<lambda>x. name_at (fnodes s) x = Some n) xs), s)"
  using assms
proof (induction xs)
  case Nil
  then show ?case by (simp add: run_simps)
next
  case (Cons x xs)
  then obtain y where y: "fnodes s x = Some y" by fastforce
  then have "deref_file x s = (Inr y, s)" by (simp add: deref_file_def)
  with y Cons show ?case by (simp add: run_simps)
qed

lemma wp_find_node:
  assumes "\<And>x. x \<in> set xs \<Longrightarrow> fnodes s x \<noteq> None"
  shows "wp (find_node n xs) Q E s = Q (find (\<lambda>x. name_at (fnodes s) x = Some n) xs) s"
  by (simp add: wp_def find_node_run [OF assms])

lemma fs_ok_add_file:
  assumes ok: "fs_ok s" and f: "find_folder i (rootfolder s) = Some f"
    and new: "Some (f_name nd) \<notin> name_at (fnodes s) ` set (files f)"
    and un: "unlinked nd" and nv: "\<And>ty. cached ty nd = None"
  shows "fs_ok (s\<lparr>next_addr := Suc (next_addr s), fnodes := (fnodes s)(next_addr s \<mapsto> nd),
    rootfolder := upd_folder i (\<lambda>f. set_files (files f @ [next_addr s]) f) (rootfolder s)\<rparr>)"
proof -
  from ok obtain L where s: "cache_ok s" "lru_is s L" "tree_ok (rootfolder s) (fnodes s) (next_addr s)"
    by (rule fs_okE)
  let ?n = "next_addr s"
  let ?t = "s\<lparr>next_addr := Suc ?n, fnodes := (fnodes s)(?n \<mapsto> nd)\<rparr>"
  have fr: "fnodes s ?n = None" using cache_ok_fresh [OF s(1)] unfolding fresh_addr_def by (meson less_irrefl)
  have slots: "cache_slots ((fnodes s)(?n \<mapsto> nd)) c = cache_slots (fnodes s) c" for c
    using fr nv by (auto simp: cache_slots_def split: if_splits)
  have "cache_ok ?t"
    using s(1) by (auto simp: cache_ok_def slots fresh_addr_def less_Suc_eq)
  moreover have "lru_is ?t L"
  proof -
    have "?n \<notin> set L"
    proof
      assume n: "?n \<in> set L"
      with s(2) have "lseg (fnodes s) (hd L) L None" by (cases L) (auto simp: lru_is_def)
      from lseg_dom [OF this n] fr show False by simp
    qed
    with s(2) un show ?thesis by (auto simp: lru_is_def)
  qed
  ultimately show ?thesis using tree_ok_add_file [OF s(3) f fr new] by (intro fs_ok_tree) auto
qed

lemma keeps_gets_flag [keeps_intro]: "keeps fs_ok (deref_folder i)" "keeps fs_ok (deref_file i)"
    "keeps fs_ok (deref_object i)" "keeps fs_ok (find_node n xs)"
proof -
  show "keeps fs_ok (deref_folder i)" "keeps fs_ok (deref_object i)"
    by (simp_all add: keeps_wp split: option.split)
  show f: "keeps fs_ok (deref_file i)" for i by (simp add: keeps_wp split: option.split)
  show "keeps fs_ok (find_node n xs)"
    by (induction xs) (auto intro!: keeps_intro f)
qed

lemma not_found_fresh:
  "find (\<lambda>x. name_at h x = Some n) xs = None \<Longrightarrow> Some n \<notin> name_at h ` set xs"
  by (force simp: find_None_iff image_iff)

lemma keeps_internal_append [keeps_intro]: "keeps fs_ok (internal_append i nm)"
  unfolding keeps_wp
proof (intro allI impI)
  fix s :: "'a fs" assume ok: "fs_ok s"
  show "wp (internal_append i nm) (\<lambda>_. fs_ok) (\<lambda>_. fs_ok) s"
  proof (cases "find_folder i (rootfolder s)")
    case None
    with ok show ?thesis by (simp add: internal_append_def)
  next
    case (Some f)
    note dom = fs_ok_names(2) [OF ok Some]
    show ?thesis
    proof (cases "find (\<lambda>x. name_at (fnodes s) x = Some nm) (files f)")
      case None
      have add: "fs_ok (s\<lparr>mem_ok := b, next_addr := Suc (next_addr s),
          fnodes := (fnodes s)(next_addr s \<mapsto> new_file_node nm),
          rootfolder := upd_folder i (\<lambda>f. set_files (files f @ [next_addr s]) f) (rootfolder s)\<rparr>)" for b
      proof -
        have nv: "cached ty (new_file_node nm) = None" for ty by (cases ty) (simp_all add: new_file_node_def)
        have nm: "f_name (new_file_node nm) = nm" by (simp add: new_file_node_def)
        from fs_ok_add_file [where nd = "new_file_node nm", OF fs_ok_mem [OF ok, of b], of i f] Some
          not_found_fresh [OF None] nm nv
        show ?thesis by (simp add: new_file_node_def unlinked_def)
      qed
      show ?thesis
        using Some None ok add
        by (auto simp: internal_append_def wp_find_node [OF dom] intro!: wp_malloc_fs)
    next
      case (Some x)
      with \<open>find_folder i (rootfolder s) = Some f\<close> ok show ?thesis
        by (simp add: internal_append_def wp_find_node [OF dom])
    qed
  qed
qed


section \<open>Steps on nodes and objects\<close>

definition links :: "CameraFilesystemFile \<Rightarrow> nat option \<times> nat option" where
  "links x = (lru_prev x, lru_next x)"

lemma lseg_cong:
  assumes "\<And>i. i \<in> set xs \<Longrightarrow> map_option links (h' i) = map_option links (h i)"
  shows "lseg h' p xs n = lseg h p xs n"
  using assms
proof (induction xs arbitrary: p)
  case (Cons x xs)
  then have "map_option links (h' x) = map_option links (h x)" by simp
  with Cons show ?case by (auto simp: links_def split: option.splits)
qed simp

lemma lru_is_links:
  assumes "lru_is s L" and "\<And>i. map_option links (fnodes t i) = map_option links (fnodes s i)"
    and "lru_first t = lru_first s" and "lru_last t = lru_last s"
  shows "lru_is t L"
proof -
  have "\<forall>i n. fnodes t i = Some n \<longrightarrow> i \<notin> set L \<longrightarrow> unlinked n"
  proof (intro allI impI)
    fix i n assume that: "fnodes t i = Some n" "i \<notin> set L"
    from assms(2) [of i] that obtain m where m: "fnodes s i = Some m" "links m = links n"
      by (cases "fnodes s i") auto
    then have "unlinked m" using assms(1) that(2) by (simp add: lru_is_def)
    with m(2) show "unlinked n" by (simp add: links_def unlinked_def)
  qed
  moreover have "lseg (fnodes t) (hd L) L None = lseg (fnodes s) (hd L) L None"
    by (rule lseg_cong) (rule assms(2))
  ultimately show ?thesis using assms(1,3,4) unfolding lru_is_def
    by (intro conjI) simp_all
qed

lemma fs_ok_write:
  assumes ok: "fs_ok s" and x: "fnodes s i = Some x" and nm: "f_name y = f_name x" and li: "links y = links x"
    and vw: "\<And>ty. cached ty y = cached ty x"
  shows "fs_ok (s\<lparr>fnodes := (fnodes s)(i \<mapsto> y)\<rparr>)"
proof -
  from ok obtain L where s: "cache_ok s" "lru_is s L" "tree_ok (rootfolder s) (fnodes s) (next_addr s)"
    by (rule fs_okE)
  let ?t = "s\<lparr>fnodes := (fnodes s)(i \<mapsto> y)\<rparr>"
  have "cache_ok ?t"
    by (rule cache_ok_same [OF s(1)]) (simp_all add: same_views_def x vw)
  moreover have "lru_is ?t L"
    by (rule lru_is_links [OF s(2)]) (simp_all add: x li)
  moreover have "tree_ok (rootfolder s) ((fnodes s)(i \<mapsto> y)) (next_addr s)"
    by (rule tree_ok_cong [OF s(3)]) (simp add: x nm)
  ultimately show ?thesis by (auto simp: fs_ok_def)
qed

lemma fs_ok_object:
  assumes ok: "fs_ok s" and f: "objects s c = Some f" and rc: "cf_ref_count f \<le> cf_ref_count f'"
  shows "fs_ok (s\<lparr>objects := (objects s)(c \<mapsto> f')\<rparr>)"
proof -
  from ok obtain L where s: "cache_ok s" "lru_is s L" "tree_ok (rootfolder s) (fnodes s) (next_addr s)"
    by (rule fs_okE)
  let ?t = "s\<lparr>objects := (objects s)(c \<mapsto> f')\<rparr>"
  have "cache_ok ?t"
    unfolding cache_ok_def
  proof (intro conjI allI impI)
    show "fresh_addr ?t" using s(1) by (simp add: cache_ok_def fresh_addr_def)
    show "cache_slots (fnodes ?t) d = {}" if "objects ?t d = None" for d
      using that s(1) by (auto simp: cache_ok_def split: if_splits)
    show "int (card (cache_slots (fnodes ?t) d)) \<le> cf_ref_count g" if "objects ?t d = Some g" for d g
    proof (cases "d = c")
      case True
      with that have "g = f'" by simp
      with True rc cache_ok_Some [OF s(1) f] show ?thesis by simp
    next
      case False
      with that cache_ok_Some [OF s(1), of d g] show ?thesis by simp
    qed
  qed
  moreover have "lru_is ?t L" using s(2) by (rule lru_is_cong) simp_all
  ultimately show ?thesis using s(3) by (auto simp: fs_ok_def)
qed

lemma fs_ok_add_view:
  assumes ok: "fs_ok s" and x: "fnodes s i = Some x" and v: "cached t x = None"
    and f: "objects s c = Some f"
  shows "fs_ok (s\<lparr>objects := (objects s)(c \<mapsto> gp_file_ref f), fnodes := (fnodes s)(i \<mapsto> set_cached t (Some c) x)\<rparr>)"
proof -
  from ok obtain L where s: "cache_ok s" "lru_is s L" "tree_ok (rootfolder s) (fnodes s) (next_addr s)"
    by (rule fs_okE)
  let ?t = "s\<lparr>objects := (objects s)(c \<mapsto> gp_file_ref f), fnodes := (fnodes s)(i \<mapsto> set_cached t (Some c) x)\<rparr>"
  have slots: "cache_slots (fnodes ?t) d =
      (if d = c then insert (i, t) (cache_slots (fnodes s) c) else cache_slots (fnodes s) d)" for d
    using cache_slots_add [where h = "fnodes s" and c = c and d = d, OF x v] by simp
  have fin: "finite (cache_slots (fnodes s) c)" by (rule finite_cache_slots [OF cache_ok_fresh [OF s(1)]])
  have "cache_ok ?t"
    unfolding cache_ok_def
  proof (intro conjI allI impI)
    show "fresh_addr ?t" using cache_ok_fresh [OF s(1)] x by (auto simp: fresh_addr_def)
    show "cache_slots (fnodes ?t) d = {}" if "objects ?t d = None" for d
      using that cache_ok_None [OF s(1), of d] unfolding slots by (auto split: if_splits)
    show "int (card (cache_slots (fnodes ?t) d)) \<le> cf_ref_count g" if g: "objects ?t d = Some g" for d g
    proof (cases "d = c")
      case True
      have "card (insert (i, t) (cache_slots (fnodes s) c)) \<le> Suc (card (cache_slots (fnodes s) c))"
        by (rule card_insert_le_m1) auto
      with cache_ok_Some [OF s(1) f] g True show ?thesis
        unfolding slots by (auto simp: gp_file_ref_def)
    next
      case False
      with g cache_ok_Some [OF s(1), of d g] show ?thesis unfolding slots by simp
    qed
  qed
  moreover have "lru_is ?t L"
    by (rule lru_is_links [OF s(2)]) (simp_all add: x links_def)
  moreover have "tree_ok (rootfolder s) ((fnodes s)(i \<mapsto> set_cached t (Some c) x)) (next_addr s)"
    by (rule tree_ok_cong [OF s(3)]) (simp add: x)
  ultimately show ?thesis by (auto simp: fs_ok_def)
qed

lemma fs_ok_drop_view:
  assumes ok: "fs_ok s" and x: "fnodes s i = Some x"
    and ck: "cache_ok (s\<lparr>env := w, objects := obj, fnodes := (fnodes s)(i \<mapsto> y)\<rparr>)"
    and nm: "f_name y = f_name x" and li: "links y = links x"
  shows "fs_ok (s\<lparr>env := w, objects := obj, fnodes := (fnodes s)(i \<mapsto> y)\<rparr>)"
proof -
  from ok obtain L where s: "lru_is s L" "tree_ok (rootfolder s) (fnodes s) (next_addr s)"
    by (rule fs_okE)
  let ?t = "s\<lparr>env := w, objects := obj, fnodes := (fnodes s)(i \<mapsto> y)\<rparr>"
  have "lru_is ?t L"
    by (rule lru_is_links [OF s(1)]) (simp_all add: x li)
  moreover have "tree_ok (rootfolder s) ((fnodes s)(i \<mapsto> y)) (next_addr s)"
    by (rule tree_ok_cong [OF s(2)]) (simp add: x nm)
  ultimately show ?thesis using ck by (auto simp: fs_ok_def)
qed

lemma keeps_replace_view: "keeps fs_ok (replace_view os i t c)"
  unfolding keeps_wp
proof (intro allI impI)
  fix s :: "'a fs" assume ok: "fs_ok s"
  show "wp (replace_view os i t c) (\<lambda>_. fs_ok) (\<lambda>_. fs_ok) s"
  proof (cases "fnodes s i")
    case None
    with ok show ?thesis by (simp add: replace_view_def unref_cached_def)
  next
    case (Some x)
    from ok have ck: "cache_ok s" by (simp add: fs_ok_def)
    show ?thesis
      unfolding replace_view_def wp_CR
    proof (rule wp_unref_cached [OF ck Some])
      fix w obj
      let ?t = "s\<lparr>env := w, objects := obj, fnodes := (fnodes s)(i \<mapsto> set_cached t None x)\<rparr>"
      assume "cache_ok ?t"
      then have t: "fs_ok ?t" by (intro fs_ok_drop_view [OF ok Some]) (simp_all add: links_def)
      show "wp (ref_object c) (\<lambda>a. wp (write_file i (set_cached t (Some c))) (\<lambda>_. fs_ok) (\<lambda>_. fs_ok)) (\<lambda>_. fs_ok) ?t"
      proof (cases "obj c")
        case None
        with t show ?thesis by (simp add: ref_object_def)
      next
        case (Some f)
        with fs_ok_add_view [OF t, of i "set_cached t None x" t c f] show ?thesis
          by (simp add: ref_object_def)
      qed
    qed
  qed
qed

lemma wp_append_file_fs:
  assumes ok: "fs_ok s" and f: "find_folder i (rootfolder s) = Some f" and o: "objects s c = Some g"
    and new: "Some nm \<notin> name_at (fnodes s) ` set (files f)"
  shows "fs_ok (s\<lparr>next_addr := Suc (next_addr s), objects := (objects s)(c \<mapsto> gp_file_ref g),
    fnodes := (fnodes s)(next_addr s \<mapsto> (new_file_node nm)\<lparr>normal := Some c\<rparr>),
    rootfolder := upd_folder i (\<lambda>f. set_files (files f @ [next_addr s]) f) (rootfolder s)\<rparr>)"
proof -
  have nv: "cached ty (new_file_node nm) = None" for ty by (cases ty) (simp_all add: new_file_node_def)
  have nm: "f_name (new_file_node nm) = nm" "unlinked (new_file_node nm)"
    by (simp_all add: new_file_node_def unlinked_def)
  let ?t = "s\<lparr>next_addr := Suc (next_addr s), fnodes := (fnodes s)(next_addr s \<mapsto> new_file_node nm),
    rootfolder := upd_folder i (\<lambda>f. set_files (files f @ [next_addr s]) f) (rootfolder s)\<rparr>"
  have t: "fs_ok ?t"
    by (rule fs_ok_add_file [where nd = "new_file_node nm", OF ok f]) (use new nm nv in simp_all)
  have "fs_ok (?t\<lparr>objects := (objects ?t)(c \<mapsto> gp_file_ref g), fnodes := (fnodes ?t)(next_addr s \<mapsto>
      set_cached GP_FILE_TYPE_NORMAL (Some c) (new_file_node nm))\<rparr>)"
    by (rule fs_ok_add_view [OF t]) (use o nv [of GP_FILE_TYPE_NORMAL] in simp_all)
  then show ?thesis by (rule fs_ok_cong) simp_all
qed

lemma keeps_append_file: "keeps fs_ok (append_file i nm c)"
  unfolding keeps_wp
proof (intro allI impI)
  fix s :: "'a fs" assume ok: "fs_ok s"
  show "wp (append_file i nm c) (\<lambda>_. fs_ok) (\<lambda>_. fs_ok) s"
  proof (cases "find_folder i (rootfolder s)")
    case None
    with ok show ?thesis by (simp add: append_file_def)
  next
    case (Some f)
    note f = this
    note dom = fs_ok_names(2) [OF ok f]
    show ?thesis
    proof (cases "find (\<lambda>x. name_at (fnodes s) x = Some nm) (files f)")
      case None
      note nf = not_found_fresh [OF None]
      have fail: "fs_ok (s\<lparr>mem_ok := b, next_addr := Suc (next_addr s)\<rparr>)" for b
      proof -
        from ok obtain L where s: "cache_ok s" "lru_is s L" "tree_ok (rootfolder s) (fnodes s) (next_addr s)"
          by (rule fs_okE)
        let ?t = "s\<lparr>mem_ok := b, next_addr := Suc (next_addr s)\<rparr>"
        have "cache_ok ?t" by (rule cache_ok_same [OF s(1)]) (simp_all add: same_views_def)
        moreover have "lru_is ?t L" using s(2) by (rule lru_is_cong) simp_all
        moreover have "tree_ok (rootfolder s) (fnodes s) (Suc (next_addr s))"
          using s(3) by (auto simp: tree_ok_def less_Suc_eq)
        ultimately show ?thesis by (auto simp: fs_ok_def)
      qed
      have add: "fs_ok (s\<lparr>mem_ok := b, next_addr := Suc (next_addr s), objects := (objects s)(c \<mapsto> gp_file_ref g),
          fnodes := (fnodes s)(next_addr s \<mapsto> (new_file_node nm)\<lparr>normal := Some c\<rparr>),
          rootfolder := upd_folder i (\<lambda>f. set_files (files f @ [next_addr s]) f) (rootfolder s)\<rparr>)"
        if "objects s c = Some g" for b g
        using wp_append_file_fs [OF fs_ok_mem [OF ok, of b], of i f c g nm] f that nf by simp
      show ?thesis
        using f None ok add fail
        by (cases "objects s c") (auto simp: append_file_def ref_object_def wp_find_node [OF dom] intro!: wp_malloc_fs)
    next
      case (Some x)
      with f ok show ?thesis by (simp add: append_file_def wp_find_node [OF dom])
    qed
  qed
qed


section \<open>Taking a file or a folder out\<close>

text \<open>A purged node that leaves its folder.\<close>

lemma fs_ok_unlink:
  assumes ok: "fs_ok s" and t: "cache_ok t" "lru_is t L" "purged s t {}"
    and x: "fnodes t x = Some n" "unlinked n" "\<And>ty. cached ty n = None"
    and f: "find_folder i (rootfolder s) = Some f" and xf: "x \<in> set (files f)"
  shows "fs_ok (t\<lparr>rootfolder := upd_folder i (\<lambda>f. set_files (remove1 x (files f)) f) (rootfolder s),
    fnodes := (fnodes t)(x := None)\<rparr>)"
proof -
  let ?u = "\<lambda>f. set_files (remove1 x (files f)) f"
  let ?v = "t\<lparr>fnodes := (fnodes t)(x := None)\<rparr>"
  from ok have tr: "tree_ok (rootfolder s) (fnodes s) (next_addr s)" by (simp add: fs_ok_def)
  have n: "next_addr t = next_addr s" using t(3) by (simp add: purged_def)
  have d: "distinct (files f)"
    using fs_ok_names(1) [OF ok f] by (simp add: distinct_map)
  have nm: "name_at ((fnodes t)(x := None)) j = (if j \<in> set [x] then None else name_at (fnodes s) j)" for j
    using core_name [OF trans [OF purged_core [OF t(3), of j]]] by simp
  have "tree_ok (upd_folder i ?u (rootfolder s)) ((fnodes t)(x := None)) (next_addr s)"
  proof (rule tree_ok_remove [where u = ?u, OF tr f _ _ _ nm])
    show "mset (ids (?u f)) \<subseteq># mset (ids f)" by (simp add: ids_sel)
    show "mset (concat (file_lists f)) = mset (concat (file_lists (?u f))) + mset [x]"
      using xf by (simp add: file_lists_sel)
    fix xs assume "xs \<in> set (file_lists (?u f))"
    moreover have "remove1 x (files f) = filter (\<lambda>y. y \<noteq> x) (files f)"
      using d by (simp add: distinct_remove1_removeAll removeAll_filter_not_eq eq_commute)
    moreover have "\<exists>P. xs = filter P xs" by (rule exI [of _ "\<lambda>_. True"]) simp
    ultimately show "xs = [] \<or> (\<exists>P. \<exists>ys\<in>set (file_lists f). xs = filter P ys)"
      by (auto simp: file_lists_sel)
  qed
  moreover have "cache_ok ?v" using t(1) x(3) x(1) by (intro cache_ok_free) auto
  moreover have "lru_is ?v L"
  proof -
    have "x \<notin> set L" using lru_is_mem [OF t(2) x(1)] x(2) by (simp add: unlinked_def)
    with t(2) show ?thesis by (auto simp: lru_is_def)
  qed
  ultimately have "fs_ok (?v\<lparr>rootfolder := upd_folder i ?u (rootfolder s)\<rparr>)"
    by (intro fs_ok_tree) (simp_all add: n)
  then show ?thesis by (rule fs_ok_cong) simp_all
qed

lemma fs_ok_purged_nothing:
  assumes ok: "fs_ok s" and t: "cache_ok t" "lru_is t L"
    and nm: "\<And>i. name_at (fnodes t) i = name_at (fnodes s) i"
    and "rootfolder t = rootfolder s" "next_addr t = next_addr s"
  shows "fs_ok t"
proof -
  from ok have "tree_ok (rootfolder s) (fnodes s) (next_addr s)" by (simp add: fs_ok_def)
  then have "tree_ok (rootfolder s) (fnodes t) (next_addr s)" by (rule tree_ok_cong) (rule nm)
  with t assms(5,6) show ?thesis by (auto simp: fs_ok_def)
qed

lemma keeps_remove_one: "keeps fs_ok (gp_filesystem_lru_remove_one x)"
  unfolding keeps_wp
proof (intro allI impI)
  fix s :: "'a fs" assume ok: "fs_ok s"
  then obtain L where s: "cache_ok s" "lru_is s L" by (rule fs_okE)
  show "wp (gp_filesystem_lru_remove_one x) (\<lambda>_. fs_ok) (\<lambda>_. fs_ok) s"
  proof (cases "fnodes s x")
    case None
    with ok show ?thesis by (simp add: gp_filesystem_lru_remove_one_def)
  next
    case (Some n)
    note n = this
    show ?thesis
    proof (cases "x \<in> set L")
      case False
      from lru_remove_absent [OF s(2) False n] ok show ?thesis by (simp add: wp_def)
    next
      case True
      from wp_remove_one [OF s n] have
        "wp (gp_filesystem_lru_remove_one x) (\<lambda>_ t. cache_ok t \<and> lru_is t (filter (\<lambda>i. i \<noteq> x) L) \<and>
          purged s t {} \<and> fnodes t x \<noteq> None) (\<lambda>e t. e \<noteq> UNDEFINED \<and> cache_ok t \<and>
          lru_is t (filter (\<lambda>i. i \<noteq> x) L) \<and> purged s t {} \<and> fnodes t x \<noteq> None) s"
        unfolding wp_ignoring by (rule wp_mono) (simp_all split: if_splits)
      then show ?thesis
        by (rule wp_mono) (auto intro!: fs_ok_purged_nothing [OF ok] core_name simp: purged_def)
    qed
  qed
qed

lemma keeps_delete_file: "keeps fs_ok (delete_file os i x)"
  unfolding keeps_wp
proof (intro allI impI)
  fix s :: "'a fs" assume ok: "fs_ok s"
  then obtain L where s: "cache_ok s" "lru_is s L" by (rule fs_okE)
  show "wp (delete_file os i x) (\<lambda>_. fs_ok) (\<lambda>_. fs_ok) s"
  proof (cases "fnodes s x")
    case None
    with ok show ?thesis by (simp add: delete_file_def gp_filesystem_lru_remove_one_def)
  next
    case (Some n)
    show ?thesis
      unfolding delete_file_def wp_CR
    proof (rule wp_mono [OF wp_remove_one [OF s Some]])
      fix a t
      let ?L = "filter (\<lambda>i. i \<noteq> x) L"
      assume t: "cache_ok t \<and> lru_is t ?L \<and> purged s t {} \<and> fnodes t x \<noteq> None"
      then obtain m where m: "fnodes t x = Some m" by auto
      from t have ck: "cache_ok t" and l: "lru_is t ?L" and p: "purged s t {}" by auto
      show "wp (unref_all_cached os x) (\<lambda>a. wp (deref_folder i) (\<lambda>a. wp (if x \<notin> set (files a) then fail GP_ERROR
          else CR (write_folder i (\<lambda>f. set_files (remove1 x (files f)) f)) (\<lambda>_. free_file x))
          (\<lambda>_. fs_ok) (\<lambda>_. fs_ok)) (\<lambda>_. fs_ok)) (\<lambda>_. fs_ok) t"
      proof (rule wp_unref_all_cached [OF ck m])
        fix w obj
        let ?u = "t\<lparr>env := w, objects := obj, fnodes := (fnodes t)(x \<mapsto> no_views m)\<rparr>"
        assume cu: "cache_ok ?u"
        have lu: "lru_is ?u ?L" by (rule lru_is_links [OF l]) (simp_all add: m links_def no_views_def)
        have xL: "x \<notin> set ?L" by simp
        have "\<forall>i n. fnodes ?u i = Some n \<longrightarrow> i \<notin> set ?L \<longrightarrow> unlinked n"
          using lu unfolding lru_is_def by blast
        from this [rule_format, of x "no_views m"] xL have un: "unlinked (no_views m)" by simp
        have nm: "name_at (fnodes ?u) j = name_at (fnodes s) j" for j
        proof -
          have "name_at (fnodes t) j = name_at (fnodes s) j"
            using purged_core [OF p, of j] by (intro core_name) simp
          then show ?thesis using m by (auto simp: no_views_def)
        qed
        have r: "rootfolder ?u = rootfolder s" "next_addr ?u = next_addr s" using p by (simp_all add: purged_def)
        have oku: "fs_ok ?u" by (rule fs_ok_purged_nothing [OF ok cu lu nm r])
        have fin: "fs_ok (?u\<lparr>rootfolder := upd_folder i (\<lambda>f. set_files (remove1 x (files f)) f) (rootfolder ?u),
            fnodes := (fnodes ?u)(x := None)\<rparr>)"
          if "find_folder i (rootfolder ?u) = Some f" "x \<in> set (files f)" for f
          by (rule fs_ok_unlink [OF oku cu lu _ _ un _ that]) (simp_all add: purged_def)
        show "wp (deref_folder i) (\<lambda>a. wp (if x \<notin> set (files a) then fail GP_ERROR
          else CR (write_folder i (\<lambda>f. set_files (remove1 x (files f)) f)) (\<lambda>_. free_file x))
          (\<lambda>_. fs_ok) (\<lambda>_. fs_ok)) (\<lambda>_. fs_ok) ?u"
        proof (cases "find_folder i (rootfolder ?u)")
          case None
          with oku show ?thesis by simp
        next
          case (Some f)
          show ?thesis
          proof (cases "x \<in> set (files f)")
            case True
            have "fs_ok (?u\<lparr>rootfolder := upd_folder i (\<lambda>f. set_files (remove1 x (files f)) f) (rootfolder ?u)\<rparr>
                \<lparr>fnodes := (fnodes ?u)(x := None)\<rparr>)"
              using fin [OF Some True] by (rule fs_ok_cong) simp_all
            with Some True show ?thesis by simp
          next
            case False
            with Some oku show ?thesis by simp
          qed
        qed
      qed
    qed simp
  qed
qed

lemma mset_ids_filter: "mset (ids_list (filter P fs)) \<subseteq># mset (ids_list fs)"
  by (induction fs) (auto intro: subset_mset.add_mono subset_mset.order_trans mset_subset_eq_add_right)

lemma file_lists_filter: "set (file_lists_of (filter P fs)) \<subseteq> set (file_lists_of fs)"
  by (induction fs) auto

lemma file_lists_filter_empty:
  assumes "\<And>f. f \<in> set fs \<Longrightarrow> \<not> P f \<Longrightarrow> concat (file_lists f) = []"
  shows "concat (file_lists_of (filter P fs)) = concat (file_lists_of fs)"
  using assms by (induction fs) auto

lemma fs_ok_drop_empty_folder:
  assumes ok: "fs_ok s" and f: "find_folder i (rootfolder s) = Some f"
    and h: "h \<in> set (folders f)" "folders h = []" "files h = []"
  shows "fs_ok (s\<lparr>rootfolder :=
    upd_folder i (\<lambda>f. set_folders (filter (\<lambda>g. fo_id g \<noteq> fo_id h) (folders f)) f) (rootfolder s)\<rparr>)"
proof -
  let ?u = "\<lambda>f. set_folders (filter (\<lambda>g. fo_id g \<noteq> fo_id h) (folders f)) f"
  from ok obtain L where s: "cache_ok s" "lru_is s L" "tree_ok (rootfolder s) (fnodes s) (next_addr s)"
    by (rule fs_okE)
  have d: "distinct (ids (rootfolder s))" using s(3) by (simp add: tree_ok_def)
  have only: "g = h" if "g \<in> set (folders f)" "fo_id g = fo_id h" for g
  proof -
    have "Some g = find_folder (fo_id g) (rootfolder s)" by (rule find_child(1) [OF f d that(1), symmetric])
    also have "\<dots> = Some h" unfolding that(2) by (rule find_child(1) [OF f d h(1)])
    finally show ?thesis by simp
  qed
  have "concat (file_lists h) = []" using h(2,3) by (simp add: file_lists_sel)
  then have "concat (file_lists_of (filter (\<lambda>g. fo_id g \<noteq> fo_id h) (folders f))) = concat (file_lists_of (folders f))"
    using only by (intro file_lists_filter_empty) auto
  then have same: "concat (file_lists (?u f)) = concat (file_lists f)" by (simp add: file_lists_sel)
  have "tree_ok (upd_folder i ?u (rootfolder s)) (fnodes s) (next_addr s)"
  proof (rule tree_ok_remove [where u = ?u and X = "[]", OF s(3) f])
    show "mset (ids (?u f)) \<subseteq># mset (ids f)" using mset_ids_filter by (simp add: ids_sel)
    fix xs assume "xs \<in> set (file_lists (?u f))"
    then have "xs \<in> set (file_lists f)" using file_lists_filter by (auto simp: file_lists_sel)
    moreover have "\<exists>P. xs = filter P xs" by (rule exI [of _ "\<lambda>_. True"]) simp
    ultimately show "xs = [] \<or> (\<exists>P. \<exists>ys\<in>set (file_lists f). xs = filter P ys)" by blast
  qed (simp_all add: same)
  with s show ?thesis by (intro fs_ok_tree)
qed

lemma keeps_remove_empty_dir: "keeps fs_ok (remove_empty_dir os i nm g)"
  unfolding keeps_wp
proof (intro allI impI)
  fix s :: "'a fs" assume ok: "fs_ok s"
  then have d: "distinct (ids (rootfolder s))" by (simp add: fs_ok_def tree_ok_def)
  show "wp (remove_empty_dir os i nm g) (\<lambda>_. fs_ok) (\<lambda>_. fs_ok) s"
  proof (cases "find_folder i (rootfolder s)")
    case None
    with ok show ?thesis by (simp add: remove_empty_dir_def)
  next
    case (Some f)
    note f = this
    show ?thesis
    proof (cases "find (\<lambda>h. fo_name h = nm) (folders f)")
      case None
      with f ok show ?thesis by (simp add: remove_empty_dir_def)
    next
      case (Some h)
      then have h: "h \<in> set (folders f)" using find_SomeD by fast
      have fh: "find_folder (fo_id h) (rootfolder s) = Some h" by (rule find_child(1) [OF f d h])
      have drop: "fs_ok (s\<lparr>env := w, rootfolder :=
          upd_folder i (\<lambda>f. set_folders (filter (\<lambda>g. fo_id g \<noteq> fo_id h) (folders f)) f) (rootfolder s)\<rparr>)"
        if "folders h = []" "files h = []" for w
        using fs_ok_drop_empty_folder [OF fs_ok_env [OF ok, of w], of i f h] f h that by simp
      show ?thesis
        using f Some fh ok drop
        by (auto simp: remove_empty_dir_def delete_folder_def driver_call_def split: prod.split)
    qed
  qed
qed


section \<open>LRU steps, node data and object data\<close>

lemma keeps_lru_clear: "keeps fs_ok gp_filesystem_lru_clear"
  unfolding keeps_wp
proof (intro allI impI)
  fix s :: "'a fs" assume ok: "fs_ok s"
  then obtain L where s: "cache_ok s" "lru_is s L" by (rule fs_okE)
  show "wp gp_filesystem_lru_clear (\<lambda>_. fs_ok) (\<lambda>_. fs_ok) s"
  proof (rule wp_mono [OF lru_clear [OF s(2) cache_ok_fresh [OF s(1)]]])
    fix a t
    assume "lru_is t [] \<and> (\<exists>h z. t = s\<lparr>lru_first := None, lru_last := None, lru_size := z, fnodes := h\<rparr> \<and>
      same_but_links (fnodes s) h \<and> (L \<noteq> [] \<longrightarrow> z = 0))"
    then obtain h z where l: "lru_is t []" and t: "t = s\<lparr>lru_first := None, lru_last := None, lru_size := z, fnodes := h\<rparr>"
      and h: "same_but_links (fnodes s) h" by blast
    have c: "map_option core (h i) = map_option core (fnodes s i)" for i
      using h by (simp add: same_but_links_def core_def [abs_def])
    have sv: "same_views (fnodes s) (fnodes t)"
      unfolding same_views_def t
    proof (intro conjI allI)
      fix i ty
      show "Option.bind (fnodes s i) (cached ty) = Option.bind (fnodes (s\<lparr>lru_first := None, lru_last := None,
          lru_size := z, fnodes := h\<rparr>) i) (cached ty)"
        using c [of i] by (cases "fnodes s i"; cases "h i") (auto dest: arg_cong [where f = "cached ty"])
      show "(fnodes s i = None) = (fnodes (s\<lparr>lru_first := None, lru_last := None, lru_size := z, fnodes := h\<rparr>) i = None)"
        using c [of i] by (cases "fnodes s i"; cases "h i") auto
    qed
    have ck: "cache_ok t" by (rule cache_ok_same [OF s(1) sv]) (simp_all add: t)
    have "name_at (fnodes t) i = name_at (fnodes s) i" for i
      using core_name [OF c, of i] by (simp add: t)
    then show "fs_ok t" by (intro fs_ok_purged_nothing [OF ok ck l]) (simp_all add: t)
  qed simp
qed

lemma keeps_write_data:
  assumes "\<And>x. f_name (u x) = f_name x" and "\<And>x. links (u x) = links x" and "\<And>x ty. cached ty (u x) = cached ty x"
  shows "keeps fs_ok (write_file i u)"
  unfolding keeps_wp using assms by (auto intro!: fs_ok_write split: option.split)

lemma keeps_update_object:
  assumes "\<And>f. cf_ref_count (u f) = cf_ref_count f"
  shows "keeps fs_ok (update_object c u)"
  unfolding keeps_wp using assms by (auto simp: update_object_def intro!: fs_ok_object split: option.split)

lemma keeps_get_file_call: "keeps fs_ok (get_file_call g c)"
proof -
  have "fs_ok (s\<lparr>env := w, objects := (objects s)(c \<mapsto> f')\<rparr>)"
    if "fs_ok s" "objects s c = Some f" "cf_ref_count f' = cf_ref_count f" for s :: "'a fs" and w f f'
    using fs_ok_object [OF fs_ok_env [OF that(1), of w], of c f f'] that by simp
  then show ?thesis
    unfolding keeps_wp get_file_call_def by (auto split: option.split prod.split)
qed

lemma keeps_settle: "keeps fs_ok settle_pictures_to_keep" "keeps fs_ok (add_lru_size n)" "keeps fs_ok (sub_lru_size n)"
  unfolding settle_pictures_to_keep_def add_lru_size_def sub_lru_size_def
  by (auto intro!: keeps_intro keeps_modify elim!: fs_ok_cong)


lemma keeps_env_only:
  assumes "env_only m" and "\<And>s b w. I s \<Longrightarrow> I (s\<lparr>mem_ok := b, env := w\<rparr>)"
  shows "keeps I m"
proof (rule keepsI)
  fix s assume "I s"
  obtain r b w where "m s = (r, s\<lparr>mem_ok := b, env := w\<rparr>)" using assms(1) by (rule env_onlyE)
  with assms(2) [OF \<open>I s\<close>] show "I (snd (m s))" by simp
qed

lemma fs_ok_env_mem: "fs_ok s \<Longrightarrow> fs_ok (s\<lparr>mem_ok := b, env := w\<rparr>)"
  by (erule fs_ok_cong) simp_all

lemma copy_object_cases:
  obtains "snd (copy_object fuel os c d s) = s"
  | b w where "snd (copy_object fuel os c d s) = s\<lparr>mem_ok := b, env := w\<rparr>"
  | b w f f' where "objects s c = Some f" and "cf_ref_count f' = cf_ref_count f" and "accesstype f' = accesstype f"
      and "snd (copy_object fuel os c d s) = s\<lparr>mem_ok := b, env := w, objects := (objects s)(c \<mapsto> f')\<rparr>"
proof (cases "\<exists>f g. objects s c = Some f \<and> objects s d = Some g \<and>
      \<not> (c = d \<and> accesstype g = GP_FILE_ACCESSTYPE_MEMORY \<and> cf_size g > 0)")
  case False
  then have "snd (copy_object fuel os c d s) = s"
    by (auto simp: copy_object_def CR_def deref_object_def run_simps split: option.splits)
  then show ?thesis by (rule that(1))
next
  case True
  then obtain f g where f: "objects s c = Some f" "objects s d = Some g"
    and na: "\<not> (c = d \<and> accesstype g = GP_FILE_ACCESSTYPE_MEMORY \<and> cf_size g > 0)" by blast
  obtain r b w where r: "gp_file_copy fuel os f g s = (r, s\<lparr>mem_ok := b, env := w\<rparr>)"
    using env_only_file(1) by (rule env_onlyE)
  have eq: "copy_object fuel os c d s = CR (gp_file_copy fuel os f g) (\<lambda>(ret, dst').
     CR (put_object c (Some dst')) (\<lambda>_. ok ret)) s"
    using f na by (auto simp: copy_object_def deref_object_def CR_def)
  show ?thesis
  proof (cases r)
    case (Inl e)
    with eq r show ?thesis by (intro that(2)) simp
  next
    case (Inr x)
    obtain ret f' where x: "x = (ret, f')" by fastforce
    have "cf_ref_count f' = cf_ref_count f" "accesstype f' = accesstype f"
      using resultsD [OF copy_results, of fuel os f g s x] r Inr x by simp_all
    moreover have "copy_object fuel os c d s = (Inr ret, s\<lparr>mem_ok := b, env := w, objects := (objects s)(c \<mapsto> f')\<rparr>)"
      using eq r Inr x by (simp add: put_object_def CR_def run_simps)
    ultimately show ?thesis using f by (intro that(3)) auto
  qed
qed

lemma keeps_copy_object: "keeps fs_ok (copy_object fuel os c d)"
proof (rule keepsI)
  fix s :: "'a fs" assume ok: "fs_ok s"
  show "fs_ok (snd (copy_object fuel os c d s))"
  proof (cases rule: copy_object_cases [where fuel = fuel and os = os and c = c and d = d and s = s])
    case (3 b w f f')
    with fs_ok_object [OF fs_ok_env_mem [OF ok, where b = b and w = w], where c = c and f = f and f' = f'] show ?thesis by simp
  qed (use ok in \<open>simp_all add: fs_ok_env_mem\<close>)
qed

section \<open>The cached objects are memory files\<close>

definition fs_inv :: "'w fs \<Rightarrow> bool" where
  "fs_inv s \<longleftrightarrow> fs_ok s \<and> mem_objects s"

lemma keeps_inv: "keeps fs_ok m \<Longrightarrow> keeps mem_objects m \<Longrightarrow> keeps fs_inv m"
  by (simp add: keeps_def fs_inv_def)

text \<open>A state predicate that depends on the store of objects only through this one.\<close>

lemma mem_objects_cong: "mem_objects s \<Longrightarrow> objects t = objects s \<Longrightarrow> mem_objects t"
  by (simp add: mem_objects_def)

named_theorems mo_intro

lemma mo_same_objects:
  assumes "\<And>s. objects (snd (m s)) = objects s"
  shows "keeps mem_objects m"
  using assms by (intro keepsI) (auto elim: mem_objects_cong)

lemma mo_basic [mo_intro]:
  "keeps mem_objects (deref_folder i)" "keeps mem_objects (deref_file i)" "keeps mem_objects (deref_object i)"
  "keeps mem_objects (write_folder i u)" "keeps mem_objects (write_file i v)" "keeps mem_objects new_addr"
  "keeps mem_objects malloc" "keeps mem_objects (os_call g)" "keeps mem_objects (free_file i)"
  "keeps mem_objects (set_lru_first p)" "keeps mem_objects (set_lru_last p)"
  "keeps mem_objects (sub_lru_size k)" "keeps mem_objects (add_lru_size k)"
proof -
  show "keeps mem_objects malloc" by (rule keeps_malloc) (simp add: mem_objects_def)
  show "keeps mem_objects (os_call g)" by (rule keeps_os_call) (simp add: mem_objects_def)
qed (auto simp: keeps_wp mem_objects_def split: option.split)

lemma mo_modify: "(\<And>s. objects (f s) = objects s) \<Longrightarrow> keeps mem_objects (modify f)"
  by (rule keeps_modify) (erule mem_objects_cong, simp)

lemma mo_env [mo_intro]:
  "keeps mem_objects (gp_file_get_data_and_size os f want)"
  by (rule keeps_env_only [OF env_only_file(2)]) (erule mem_objects_cong, simp)

lemma mo_unref_object [mo_intro]: "keeps mem_objects (unref_object os c)"
  unfolding keeps_wp
proof (intro allI impI)
  fix s :: "'a fs" assume mo: "mem_objects s"
  show "wp (unref_object os c) (\<lambda>_. mem_objects) (\<lambda>_. mem_objects) s"
  proof (cases "objects s c")
    case None
    with mo show ?thesis by (simp add: unref_object_def)
  next
    case (Some f)
    show ?thesis
      by (rule wp_unref_object [OF Some]) (use mo Some in \<open>auto simp: mem_objects_def\<close>)
  qed
qed

lemma mo_ref_object [mo_intro]: "keeps mem_objects (ref_object c)"
  by (auto simp: ref_object_def keeps_wp mem_objects_def gp_file_ref_def split: option.splits)

lemma mo_update_object:
  "(\<And>f. accesstype (u f) = accesstype f) \<Longrightarrow> keeps mem_objects (update_object c u)"
  by (auto simp: update_object_def keeps_wp mem_objects_def split: option.splits)

lemma mo_copy_object [mo_intro]: "keeps mem_objects (copy_object fuel os c d)"
proof (rule keepsI)
  fix s :: "'a fs" assume mo: "mem_objects s"
  show "mem_objects (snd (copy_object fuel os c d s))"
    by (cases rule: copy_object_cases [where fuel = fuel and os = os and c = c and d = d and s = s]) (use mo in \<open>auto simp: mem_objects_def\<close>)
qed

lemma mo_get_file_call [mo_intro]: "keeps mem_objects (get_file_call g c)"
  unfolding get_file_call_def keeps_wp by (auto simp: mem_objects_def split: option.splits prod.splits)

lemma mo_unref_cached [mo_intro]: "keeps mem_objects (unref_cached os i t)"
  unfolding unref_cached_def by (intro keeps_intro mo_intro)

lemma mo_unref_all [mo_intro]: "keeps mem_objects (unref_all_cached os i)"
  unfolding unref_all_cached_def by (intro keeps_intro mo_intro)

lemma mo_remove_one [mo_intro]: "keeps mem_objects (gp_filesystem_lru_remove_one x)"
  unfolding gp_filesystem_lru_remove_one_def by (intro keeps_intro mo_intro)

lemma mo_purge_files [mo_intro]: "keeps mem_objects (purge_files os xs)"
  by (induction xs) (auto intro!: keeps_intro mo_intro)

lemma mo_find_node [mo_intro]: "keeps mem_objects (find_node n xs)"
  by (induction xs) (auto intro!: keeps_intro mo_intro)

lemma mo_lru_loops [mo_intro]:
  "keeps mem_objects (lru_clear_loop k p prev)" "keeps mem_objects (lru_count_loop k p cnt)"
  by (induction k p prev rule: lru_clear_loop.induct; auto intro!: keeps_intro mo_intro)
    (induction k p cnt rule: lru_count_loop.induct; auto intro!: keeps_intro mo_intro)

lemma mo_lru_clear [mo_intro]: "keeps mem_objects gp_filesystem_lru_clear"
  unfolding gp_filesystem_lru_clear_def by (intro keeps_intro mo_intro mo_modify) simp

lemma mo_lru_count [mo_intro]: "keeps mem_objects gp_filesystem_lru_count"
  unfolding gp_filesystem_lru_count_def by (intro keeps_intro mo_intro)

lemma mo_free_view [mo_intro]: "keeps mem_objects (free_view os p t)"
  unfolding free_view_def by (intro keeps_intro mo_intro)

lemma mo_lru_free [mo_intro]: "keeps mem_objects (gp_filesystem_lru_free os)"
  unfolding gp_filesystem_lru_free_def by (intro keeps_intro mo_intro)

lemma mo_prune [mo_intro]: "keeps mem_objects (lru_prune fuel os)"
  by (induction fuel) (subst lru_prune.simps, auto intro!: keeps_intro mo_intro split: nat.split)+


lemma free_head_name: "name_at (free_head h x xs) i = name_at h i"
  using free_head_at [of i x h xs]
  by (cases "i = x"; cases "h i") (auto simp: free_head_def no_content_def)

lemma keeps_lru_free: "keeps fs_inv (gp_filesystem_lru_free os)"
  unfolding keeps_wp
proof (intro allI impI)
  fix s :: "'a fs" assume inv: "fs_inv s"
  then have ok: "fs_ok s" and mo: "mem_objects s" by (simp_all add: fs_inv_def)
  from ok obtain L where s: "cache_ok s" "lru_is s L" by (rule fs_okE)
  show "wp (gp_filesystem_lru_free os) (\<lambda>_. fs_inv) (\<lambda>_. fs_inv) s"
  proof (cases L)
    case Nil
    with s(2) inv show ?thesis by (simp add: gp_filesystem_lru_free_def lru_is_def)
  next
    case (Cons x xs)
    show ?thesis
    proof (rule wp_mono [OF lru_free [OF s(2) [unfolded Cons] s(1) mo]])
      fix a t
      assume t: "lru_is t xs \<and> cache_ok t \<and> mem_objects t \<and> prune_frame s t \<and> fnodes t = free_head (fnodes s) x xs"
      then have "fs_ok t"
        by (intro fs_ok_purged_nothing [OF ok]) (auto simp: free_head_name prune_frame_def)
      with t show "fs_inv t" by (simp add: fs_inv_def)
    qed simp
  qed
qed

lemma keeps_fs_inv_basic:
  "keeps fs_inv (deref_folder i)" "keeps fs_inv (deref_file i)" "keeps fs_inv (deref_object i)"
  by (auto simp: keeps_wp split: option.split)

lemma keeps_lru_count: "keeps fs_inv gp_filesystem_lru_count"
proof -
  have "keeps fs_inv (lru_count_loop k p cnt)" for k p cnt
    by (induction k p cnt rule: lru_count_loop.induct) (auto intro!: keeps_intro keeps_fs_inv_basic)
  then show ?thesis unfolding gp_filesystem_lru_count_def by (intro keeps_intro)
qed

lemma keeps_prune: "keeps fs_inv (lru_prune fuel os)"
proof (induction fuel)
  case 0
  show ?case by (subst lru_prune.simps) (auto intro!: keeps_intro keeps_lru_count)
next
  case (Suc k)
  show ?case by (subst lru_prune.simps) (auto intro!: keeps_intro keeps_lru_count keeps_lru_free Suc)
qed

lemma keeps_lru_check: "keeps fs_inv gp_filesystem_lru_check"
proof -
  have "keeps fs_inv (lru_check_loop k p q)" for k p q
    by (induction k p q rule: lru_check_loop.induct) (auto intro!: keeps_intro keeps_fs_inv_basic)
  then show ?thesis unfolding gp_filesystem_lru_check_def
    by (intro keeps_intro)
qed

lemma object_size_run:
  assumes "mem_objects s"
  shows "object_size os c s = (case objects s c of None \<Rightarrow> (Inl UNDEFINED, s) | Some f \<Rightarrow> (Inr (cf_size f), s))"
  using mem_objectsD [OF assms, of c]
  by (auto simp: object_size_def CR_def deref_object_def gp_file_get_data_and_size_def run_simps split: option.split)

lemma lru_frame_ok:
  assumes ok: "fs_ok s" and t: "lru_is t xs" "lru_frame s t"
  shows "fs_ok t"
proof -
  from t(2) obtain h where h: "t = s\<lparr>lru_first := lru_first t, lru_last := lru_last t, fnodes := h\<rparr>"
      "fnodes t = h" "same_but_links (fnodes s) h"
    by (auto simp: lru_frame_def)
  have c: "map_option core (h i) = map_option core (fnodes s i)" for i
    using h(3) by (simp add: same_but_links_def core_def [abs_def])
  have sv: "same_views (fnodes s) (fnodes t)"
    unfolding same_views_def h(2)
  proof (intro conjI allI)
    fix i ty
    show "Option.bind (fnodes s i) (cached ty) = Option.bind (h i) (cached ty)"
      using c [of i] by (cases "fnodes s i"; cases "h i") (auto dest: arg_cong [where f = "cached ty"])
    show "(fnodes s i = None) = (h i = None)"
      using c [of i] by (cases "fnodes s i"; cases "h i") auto
  qed
  have fr: "objects t = objects s" "next_addr t = next_addr s" "rootfolder t = rootfolder s"
    by (subst h(1), simp)+
  have "cache_ok s" using ok by (simp add: fs_ok_def)
  then have ck: "cache_ok t" by (rule cache_ok_same [OF _ sv]) (simp_all add: fr)
  have "name_at (fnodes t) i = name_at (fnodes s) i" for i
    using core_name [OF c, of i] by (simp add: h(2))
  then show ?thesis using fr by (intro fs_ok_purged_nothing [OF ok ck t(1)])
qed

text \<open>A node that was in the list or not is its last element afterwards.\<close>

lemma lru_move_link:
  assumes ok: "fs_ok s" and l: "lru_is s L" and x: "fnodes s x = Some n"
  shows "wp (CR (if lru_prev n \<noteq> None then gp_filesystem_lru_remove_one x else ok ()) (\<lambda>_. lru_link_last x))
    (\<lambda>_ t. fs_ok t \<and> lru_is t (filter (\<lambda>i. i \<noteq> x) L @ [x])) (\<lambda>_ _. False) s"
proof (cases "x \<in> set L")
  case True
  with lru_is_mem [OF l x] have "lru_prev n \<noteq> None" by simp
  moreover have "distinct L" using l by (simp add: lru_is_def)
  then have rem: "remove1 x L = filter (\<lambda>i. i \<noteq> x) L"
    by (simp add: distinct_remove1_removeAll removeAll_filter_not_eq eq_commute)
  have "wp (gp_filesystem_lru_remove_one x) (\<lambda>_. wp (lru_link_last x)
    (\<lambda>_ t. fs_ok t \<and> lru_is t (filter (\<lambda>i. i \<noteq> x) L @ [x])) (\<lambda>_ _. False)) (\<lambda>_ _. False) s"
  proof (rule wp_mono [OF lru_remove_one [OF l True]])
    fix a t
    assume t: "lru_is t (remove1 x L) \<and> lru_frame s t"
    then have okt: "fs_ok t" and lt: "lru_is t (filter (\<lambda>i. i \<noteq> x) L)"
      using lru_frame_ok [OF ok] rem by auto
    from t x obtain m where m: "fnodes t x = Some m"
      unfolding lru_frame_def same_but_links_def
      by (metis (no_types, lifting) None_eq_map_option_iff not_None_eq)
    have "x \<notin> set (filter (\<lambda>i. i \<noteq> x) L)" by simp
    then show "wp (lru_link_last x) (\<lambda>_ t. fs_ok t \<and> lru_is t (filter (\<lambda>i. i \<noteq> x) L @ [x])) (\<lambda>_ _. False) t"
      by (rule wp_mono [OF lru_link_last [OF lt _ m]]) (use lru_frame_ok [OF okt] in auto)
  qed simp
  ultimately show ?thesis by simp
next
  case False
  with lru_is_mem [OF l x] have "lru_prev n = None" by auto
  moreover have "filter (\<lambda>i. i \<noteq> x) L = L" using False by (simp add: filter_id_conv) blast
  moreover have "wp (lru_link_last x) (\<lambda>_ t. fs_ok t \<and> lru_is t (L @ [x])) (\<lambda>_ _. False) s"
    by (rule wp_mono [OF lru_link_last [OF l False x]]) (use lru_frame_ok [OF ok] in auto)
  ultimately show ?thesis by simp
qed

lemma fs_ok_lru_size: "fs_ok s \<Longrightarrow> fs_ok (s\<lparr>lru_size := z\<rparr>)"
  by (erule fs_ok_cong) simp_all

text \<open>The size bookkeeping in front of it changes nothing but \<open>lru_size\<close>.\<close>

lemma wp_move_size:
  assumes mo: "mem_objects s" and Q: "\<And>z. Q () (s\<lparr>lru_size := z\<rparr>)" and E: "E UNDEFINED s"
  shows "wp (if t = GP_FILE_TYPE_NORMAL \<or> t = GP_FILE_TYPE_RAW \<or> t = GP_FILE_TYPE_AUDIO
             then (case cached t x of None \<Rightarrow> ok () | Some old \<Rightarrow> CR (object_size os old) sub_lru_size)
             else ok ()) Q E s"
proof -
  have "Q () s" using Q [of "lru_size s"] by simp
  with Q E show ?thesis
    by (auto simp: wp_def CR_def object_size_run [OF mo] sub_lru_size_def run_simps split: option.split)
qed

lemma wp_move_last:
  assumes ok: "fs_ok s" and mo: "mem_objects s" and l: "lru_is s L" and x: "fnodes s x = Some n"
  shows "wp (lru_move_last os x t) (\<lambda>_ t. fs_ok t \<and> lru_is t (filter (\<lambda>i. i \<noteq> x) L @ [x]))
    (\<lambda>e t. e = UNDEFINED \<and> t = s) s"
proof (cases "lru_prev n = None")
  case True
  from lru_move_link [OF ok l x] True
  have "wp (lru_link_last x) (\<lambda>_ t. fs_ok t \<and> lru_is t (filter (\<lambda>i. i \<noteq> x) L @ [x])) (\<lambda>_ _. False) s" by simp
  then have "wp (lru_link_last x) (\<lambda>_ t. fs_ok t \<and> lru_is t (filter (\<lambda>i. i \<noteq> x) L @ [x]))
    (\<lambda>e t. e = UNDEFINED \<and> t = s) s" by (rule wp_mono) simp_all
  with True x show ?thesis by (simp add: lru_move_last_def)
next
  case False
  let ?P = "\<lambda>t. fs_ok t \<and> lru_is t (filter (\<lambda>i. i \<noteq> x) L @ [x])"
  have link: "wp (gp_filesystem_lru_remove_one x) (\<lambda>_. wp (lru_link_last x) (\<lambda>_. ?P) (\<lambda>e t. e = UNDEFINED \<and> t = s))
      (\<lambda>e t. e = UNDEFINED \<and> t = s) (s\<lparr>lru_size := z\<rparr>)" for z
  proof -
    have lz: "lru_is (s\<lparr>lru_size := z\<rparr>) L" using l by (rule lru_is_cong) simp_all
    have "wp (CR (gp_filesystem_lru_remove_one x) (\<lambda>_. lru_link_last x)) (\<lambda>_. ?P) (\<lambda>_ _. False) (s\<lparr>lru_size := z\<rparr>)"
      using lru_move_link [OF fs_ok_lru_size [OF ok, of z] lz, of x n] False x by simp
    then have "wp (CR (gp_filesystem_lru_remove_one x) (\<lambda>_. lru_link_last x)) (\<lambda>_. ?P)
        (\<lambda>e t. e = UNDEFINED \<and> t = s) (s\<lparr>lru_size := z\<rparr>)" by (rule wp_mono) simp_all
    then show ?thesis unfolding wp_CR .
  qed
  have "wp (if t = GP_FILE_TYPE_NORMAL \<or> t = GP_FILE_TYPE_RAW \<or> t = GP_FILE_TYPE_AUDIO
         then (case cached t n of None \<Rightarrow> ok () | Some old \<Rightarrow> CR (object_size os old) sub_lru_size) else ok ())
      (\<lambda>_. wp (gp_filesystem_lru_remove_one x) (\<lambda>_. wp (lru_link_last x) (\<lambda>_. ?P) (\<lambda>e t. e = UNDEFINED \<and> t = s))
      (\<lambda>e t. e = UNDEFINED \<and> t = s)) (\<lambda>e t. e = UNDEFINED \<and> t = s) s"
    by (rule wp_move_size [OF mo]) (use link in simp_all)
  with False x show ?thesis unfolding lru_move_last_def by simp
qed

lemma keeps_move_last: "keeps fs_inv (lru_move_last os x t)"
  unfolding keeps_wp
proof (intro allI impI)
  fix s :: "'a fs" assume inv: "fs_inv s"
  then have ok: "fs_ok s" and mo: "mem_objects s" by (simp_all add: fs_inv_def)
  from ok obtain L where l: "lru_is s L" by (rule fs_okE)
  have mk: "keeps mem_objects (lru_move_last os x t)"
    unfolding lru_move_last_def lru_link_last_def object_size_def by (intro keeps_intro mo_intro)
  show "wp (lru_move_last os x t) (\<lambda>_. fs_inv) (\<lambda>_. fs_inv) s"
  proof (cases "fnodes s x")
    case None
    with inv show ?thesis by (simp add: lru_move_last_def)
  next
    case (Some n)
    from wp_move_last [OF ok mo l Some, of os t] keepsD' [OF mk mo] inv show ?thesis
      by (auto simp: wp_def fs_inv_def split: prod.splits sum.splits)
  qed
qed

end
