(* ===== verification/Gp_Keeps.thy ===== *)
theory Gp_Keeps imports Gp_Inv begin

text \<open>
  Invariants of the filesystem object under all public operations: a locale whose assumptions are
  that the basic steps keep a predicate, and whose lemmas are that every operation does. It is interpreted
  on the invariant \<open>fs_inv\<close> and on the frame conditions of the driver's functions and of the root folder.
\<close>

section \<open>Lists beside the filesystem\<close>

definition lkeeps :: "('w fs \<Rightarrow> bool) \<Rightarrow> ('w, 'a) lfm \<Rightarrow> bool" where
  "lkeeps I m \<longleftrightarrow> keeps (\<lambda>(l, s). I s) m"

lemma lkeeps_basic [keeps_intro]:
  "lkeeps I (ok a)" "lkeeps I (fail e)"
  by (simp_all add: lkeeps_def keeps_intro)

lemma lkeeps_CR [keeps_intro]: "lkeeps I m \<Longrightarrow> (\<And>a. lkeeps I (k a)) \<Longrightarrow> lkeeps I (CR m k)"
  by (simp add: lkeeps_def keeps_CR)

lemma lkeeps_attempt [keeps_intro]: "lkeeps I m \<Longrightarrow> (\<And>a. lkeeps I (k a)) \<Longrightarrow> lkeeps I (attempt m k)"
  by (simp add: lkeeps_def keeps_attempt)

lemma lkeeps_catching [keeps_intro]: "lkeeps I m \<Longrightarrow> (\<And>a. lkeeps I (k a)) \<Longrightarrow> lkeeps I (catching m k)"
  by (simp add: lkeeps_def keeps_catching)

lemma lkeeps_ignoring [keeps_intro]: "lkeeps I m \<Longrightarrow> lkeeps I (ignoring m)"
  by (simp add: lkeeps_def keeps_ignoring)

lemma lkeeps_each [keeps_intro]:
  assumes "\<And>x. x \<in> set xs \<Longrightarrow> lkeeps I (f x)"
  shows "lkeeps I (each f xs)"
  using assms unfolding lkeeps_def by (rule keeps_each)

lemma lkeeps_if [keeps_intro]:
  "(b \<Longrightarrow> lkeeps I m) \<Longrightarrow> (\<not> b \<Longrightarrow> lkeeps I n) \<Longrightarrow> lkeeps I (if b then m else n)"
  by simp

lemma lkeeps_case_option [keeps_intro]:
  "(x = None \<Longrightarrow> lkeeps I m) \<Longrightarrow> (\<And>a. x = Some a \<Longrightarrow> lkeeps I (n a)) \<Longrightarrow>
   lkeeps I (case x of None \<Rightarrow> m | Some a \<Rightarrow> n a)"
  by (cases x) simp_all

lemma lkeeps_case_sum [keeps_intro]:
  "(\<And>a. x = Inl a \<Longrightarrow> lkeeps I (m a)) \<Longrightarrow> (\<And>a. x = Inr a \<Longrightarrow> lkeeps I (n a)) \<Longrightarrow>
   lkeeps I (case x of Inl a \<Rightarrow> m a | Inr a \<Rightarrow> n a)"
  by (cases x) simp_all

lemma lkeeps_case_prod [keeps_intro]:
  "(\<And>a b. x = (a, b) \<Longrightarrow> lkeeps I (m a b)) \<Longrightarrow> lkeeps I (case x of (a, b) \<Rightarrow> m a b)"
  by (cases x) simp_all

lemma lkeeps_on_fs [keeps_intro]: "keeps I m \<Longrightarrow> lkeeps I (on_fs m)"
  by (auto simp: lkeeps_def keeps_wp)

lemma keeps_local_list [keeps_intro]: "lkeeps I m \<Longrightarrow> keeps I (local_list m)"
  by (auto simp: lkeeps_def keeps_wp case_prod_unfold)

text \<open>The list operations change the list and the allocator only.\<close>

lemma lkeeps_alloc: "(\<And>s b. I s \<Longrightarrow> I (s\<lparr>mem_ok := b\<rparr>)) \<Longrightarrow> lkeeps I alloc"
  unfolding lkeeps_def
  by (rule keepsI) (auto simp: alloc_def malloc_def split: prod.splits list.splits if_splits)

lemma lkeeps_check_list [keeps_intro]: "lkeeps I check_list"
  unfolding lkeeps_def by (rule keepsI) (auto simp: check_list_def split: option.splits if_splits)

lemma lkeeps_put_list [keeps_intro]: "lkeeps I (put_list l)"
  unfolding lkeeps_def by (rule keepsI) (auto simp: put_list_def run_simps)

lemma lkeeps_set_field [keeps_intro]: "lkeeps I (set_field upd i v)"
  unfolding set_field_def by (intro keeps_intro)


section \<open>The interface of an invariant\<close>

text \<open>
  Whatever predicate the basic steps keep (each of them whole, since in between a node is purged but
  still in its folder) is kept by everything built of them, through the recursion of lookup and listing and
  through the calls to the driver.
\<close>

locale fs_invariant =
  fixes I :: "'w fs \<Rightarrow> bool"
  assumes I_mem: "I s \<Longrightarrow> I (s\<lparr>mem_ok := b\<rparr>)"
    and I_env: "I s \<Longrightarrow> I (s\<lparr>env := w\<rparr>)"
    and I_files_dirty: "keeps I (write_folder i (set_files_dirty d))"
    and I_folders_dirty: "keeps I (write_folder i (set_folders_dirty d))"
    and I_delete_all_files: "keeps I (delete_all_files os i)"
    and I_recurse_delete: "keeps I (recurse_delete_folder os i)"
    and I_append_folder_one: "keeps I (append_folder_one i nm)"
    and I_internal_append: "keeps I (internal_append i nm)"
    and I_delete_file: "keeps I (delete_file os i x)"
    and I_remove_empty_dir: "keeps I (remove_empty_dir os i nm g)"
    and I_append_file: "keeps I (append_file i nm c)"
    and I_lru_clear: "keeps I gp_filesystem_lru_clear"
    and I_info: "keeps I (write_file x (\<lambda>y. y\<lparr>info := k y, info_dirty := m y\<rparr>))"
    and I_object: "keeps I (update_object c (\<lambda>f. f\<lparr>cf_name := n f, cf_mtime := t f\<rparr>))"
    and I_copy: "keeps I (copy_object fuel os c c')"
    and I_get_file: "keeps I (get_file_call gf c)"
    and I_replace: "keeps I (replace_view os x ty c)"
    and I_prune: "keeps I (lru_prune fuel os)"
    and I_settle: "keeps I settle_pictures_to_keep"
    and I_move: "keeps I (lru_move_last os x ty)"
    and I_size: "keeps I (add_lru_size z)"
begin

lemmas I_steps [keeps_intro] =
  I_files_dirty I_folders_dirty I_delete_all_files I_recurse_delete I_append_folder_one
  I_internal_append I_delete_file I_remove_empty_dir I_append_file I_lru_clear I_info I_object I_copy
  I_get_file I_replace I_prune I_settle I_move I_size

lemma I_read [keeps_intro]:
  "keeps I (deref_folder i)" "keeps I (deref_file i)" "keeps I (deref_object i)"
  by (simp_all add: keeps_wp split: option.split)

lemma I_find_node [keeps_intro]: "keeps I (find_node n xs)"
  by (induction xs) (auto intro!: keeps_intro)

lemma I_os_call [keeps_intro]: "keeps I (os_call f)"
  by (rule keeps_os_call) (rule I_env)

lemma I_malloc [keeps_intro]: "keeps I malloc"
  by (rule keeps_malloc) (rule I_mem)

lemma I_CC [keeps_intro]: "keeps I (CC c)"
  unfolding CC_def by (intro keeps_intro)

lemma I_CA [keeps_intro]: "keeps I (CA p)"
  unfolding CA_def by (cases p) (auto intro!: keeps_intro)

lemma I_driver_call [keeps_intro]: "keeps I (driver_call g)"
  unfolding driver_call_def by (intro keeps_intro)

lemma I_env_only: "env_only m \<Longrightarrow> keeps I m"
  by (erule keeps_env_only) (metis (full_types) I_env I_mem)

lemma I_alloc [keeps_intro]: "lkeeps I alloc"
  by (rule lkeeps_alloc) (rule I_mem)

lemma I_dup_field [keeps_intro]: "lkeeps I (dup_field upd i v)"
  unfolding dup_field_def by (intro keeps_intro)

lemma I_list_ops [keeps_intro]:
  "lkeeps I (gp_list_append n v)" "lkeeps I gp_list_new" "lkeeps I gp_list_free"
  "lkeeps I gp_list_reset" "lkeeps I gp_list_count" "lkeeps I (gp_list_get_name k)"
  unfolding gp_list_append_def gp_list_new_def gp_list_free_def gp_list_reset_def grow_def
    gp_list_count_def gp_list_get_name_def check_index_range_def guard_def
  by (intro keeps_intro)+

lemma I_CL [keeps_intro]: "lkeeps I m \<Longrightarrow> (\<And>a. lkeeps I (k a)) \<Longrightarrow> lkeeps I (CL m k)"
  unfolding CL_def by (intro keeps_intro)

lemma I_delete_all_folders_by [keeps_intro]:
  "keeps I lookup \<Longrightarrow> keeps I (delete_all_folders_by lookup os c p)"
  unfolding delete_all_folders_by_def by (intro keeps_intro)

lemma I_list_call [keeps_intro]: "lkeeps I (list_call g)"
  unfolding list_call_def by (intro keeps_intro)

lemma I_each_name [keeps_intro]: "(\<And>n. keeps I (f n)) \<Longrightarrow> lkeeps I (each_name f)"
  unfolding each_name_def by (intro keeps_intro)

lemma I_list_folders_by [keeps_intro]:
  "keeps I lookup \<Longrightarrow> lkeeps I (list_folders_by lookup os c p)"
  unfolding list_folders_by_def list_folders_in_def by (intro keeps_intro)

lemma I_lookup_loop [keeps_intro]: "keeps I (lookup_loop os c pre cur fp)"
proof (induction os c pre cur fp rule: lookup_loop.induct)
  case (1 os c pre cur fp)
  show ?case
    by (subst lookup_loop.simps) (intro keeps_intro 1; assumption)
qed

lemma I_lookup_folder [keeps_intro]: "keeps I (lookup_folder os c p)"
  unfolding lookup_folder_def by (intro keeps_intro)

lemma I_listing [keeps_intro]:
  "lkeeps I (gp_filesystem_list_folders os c p)"
  "keeps I (delete_all_folders os c p)"
  "lkeeps I (gp_filesystem_list_files os c p)"
  unfolding gp_filesystem_list_folders_def delete_all_folders_def gp_filesystem_list_files_def list_files_in_def
  by (intro keeps_intro)+

lemma I_lookup_folder_file [keeps_intro]: "keeps I (lookup_folder_file os c p n)"
  unfolding lookup_folder_file_def by (intro keeps_intro)

lemma I_append_to_folder [keeps_intro]: "keeps I (append_to_folder fp p)"
proof (induction fp p rule: append_to_folder.induct)
  case (1 fp p)
  show ?case
    by (subst append_to_folder.simps) (intro keeps_intro 1; assumption)
qed

lemma I_append_folder [keeps_intro]: "keeps I (append_folder c p)"
  unfolding append_folder_def by (intro keeps_intro)


lemma I_object_name [keeps_intro]: "keeps I (update_object c (\<lambda>f. gp_file_set_name f n))"
proof -
  have eq: "(\<lambda>f. gp_file_set_name f n) = (\<lambda>f. f\<lparr>cf_name := strncpy n MAX_PATH, cf_mtime := cf_mtime f\<rparr>)"
    by (simp add: gp_file_set_name_def fun_eq_iff)
  show ?thesis unfolding eq by (rule I_object)
qed

lemma I_object_mtime [keeps_intro]: "keeps I (update_object c (\<lambda>f. gp_file_set_mtime f t))"
proof -
  have eq: "(\<lambda>f. gp_file_set_mtime f t) = (\<lambda>f. f\<lparr>cf_name := cf_name f, cf_mtime := t\<rparr>)"
    by (simp add: gp_file_set_mtime_def fun_eq_iff)
  show ?thesis unfolding eq by (rule I_object)
qed

lemma I_object_adjust [keeps_intro]: "keeps I (update_object c gp_file_adjust_name_for_mime_type)"
proof -
  have eq: "update_object c gp_file_adjust_name_for_mime_type = update_object c
      (\<lambda>f. f\<lparr>cf_name := cf_name (gp_file_adjust_name_for_mime_type f), cf_mtime := cf_mtime f\<rparr>)"
    by (rule arg_cong [of _ _ "update_object c"])
      (simp add: gp_file_adjust_name_for_mime_type_def fun_eq_iff split: option.split)
  show ?thesis unfolding eq by (rule I_object)
qed

lemma I_info_some [keeps_intro]:
  "keeps I (write_file x (\<lambda>y. y\<lparr>info := i\<rparr>))" "keeps I (write_file x (\<lambda>y. y\<lparr>info_dirty := d\<rparr>))"
  "keeps I (write_file x (\<lambda>y. y\<lparr>info := (info y)\<lparr>i_file := (i_file (info y))\<lparr>permissions := p\<rparr>\<rparr>\<rparr>))"
  using I_info [where k = "\<lambda>_. i" and m = info_dirty] I_info [where k = info and m = "\<lambda>_. d"]
    I_info [where k = "\<lambda>y. (info y)\<lparr>i_file := (i_file (info y))\<lparr>permissions := p\<rparr>\<rparr>" and m = info_dirty]
  by simp_all

lemma I_object_size [keeps_intro]: "keeps I (object_size os c)"
  unfolding object_size_def by (intro keeps_intro I_env_only env_only_intro)

text \<open>The public operations.\<close>

lemma I_reset: "keeps I (gp_filesystem_reset os)"
  unfolding gp_filesystem_reset_def by (intro keeps_intro)

lemma I_append: "keeps I (gp_filesystem_append os c p n)"
  unfolding gp_filesystem_append_def by (intro keeps_intro)

lemma I_gp_delete_file [keeps_intro]: "keeps I (gp_filesystem_delete_file os c p n)"
  unfolding gp_filesystem_delete_file_def by (intro keeps_intro)

lemma I_delete_file_noop: "keeps I (gp_filesystem_delete_file_noop os c p n)"
  unfolding gp_filesystem_delete_file_noop_def by (intro keeps_intro)

lemma I_one_by_one [keeps_intro]: "keeps I (gp_filesystem_delete_all_one_by_one os c p)"
  unfolding gp_filesystem_delete_all_one_by_one_def by (intro keeps_intro)

lemma I_delete_all: "keeps I (gp_filesystem_delete_all os c p)"
  unfolding gp_filesystem_delete_all_def by (intro keeps_intro)

lemma I_make_dir: "keeps I (gp_filesystem_make_dir os c p n)"
  unfolding gp_filesystem_make_dir_def by (intro keeps_intro)

lemma I_remove_dir: "keeps I (gp_filesystem_remove_dir os c p n)"
  unfolding gp_filesystem_remove_dir_def by (intro keeps_intro)

lemma I_put_file: "keeps I (gp_filesystem_put_file os c p n t x)"
  unfolding gp_filesystem_put_file_def by (intro keeps_intro)

lemma I_count: "keeps I (gp_filesystem_count os c p)"
  unfolding gp_filesystem_count_def by (intro keeps_intro)

lemma I_name: "keeps I (gp_filesystem_name os c p k)"
  unfolding gp_filesystem_name_def by (intro keeps_intro)

lemma I_file_index [keeps_intro]: "keeps I (file_index n k xs)"
  by (induction xs arbitrary: k) (auto intro!: keeps_intro)

lemma I_number: "keeps I (gp_filesystem_number fuel os c p n)"
  by (induction fuel) (auto intro!: keeps_intro)

lemma I_gets_list [keeps_intro]: "lkeeps I (gets f)"
  by (simp add: lkeeps_def keeps_intro)

lemma I_scan [keeps_intro]: "keeps I (gp_filesystem_scan fuel os c p n)"
proof (induction fuel arbitrary: p)
  case (Suc fuel)
  show ?case unfolding gp_filesystem_scan.simps by (intro keeps_intro Suc)
qed (auto intro!: keeps_intro)

lemma I_get_folder: "keeps I (gp_filesystem_get_folder fuel os c n)"
  unfolding gp_filesystem_get_folder_def by (intro keeps_intro)

lemma I_get_file_impl [keeps_intro]: "keeps I (gp_filesystem_get_file_impl fuel os c p n t x)"
  unfolding gp_filesystem_get_file_impl_def by (intro keeps_intro)

lemma I_gp_get_file: "keeps I (gp_filesystem_get_file fuel os c p n t x)"
  unfolding gp_filesystem_get_file_def by (intro keeps_intro)

lemma I_read_file: "keeps I (gp_filesystem_read_file c p n t off sz)"
  unfolding gp_filesystem_read_file_def by (intro keeps_intro)

lemma I_get_info [keeps_intro]: "keeps I (gp_filesystem_get_info os c p n)"
  unfolding gp_filesystem_get_info_def by (intro keeps_intro)

lemma I_set_info_noop: "keeps I (gp_filesystem_set_info_noop os c p n i)"
  unfolding gp_filesystem_set_info_noop_def by (intro keeps_intro)

lemma I_set_info: "keeps I (gp_filesystem_set_info os c p n i)"
  unfolding gp_filesystem_set_info_def by (intro keeps_intro)

lemma I_lru_update [keeps_intro]: "keeps I (gp_filesystem_lru_update os c p n t x)"
  unfolding gp_filesystem_lru_update_def by (intro keeps_intro)

lemma I_lru_check [keeps_intro]: "keeps I gp_filesystem_lru_check"
proof -
  have "keeps I (lru_check_loop k p q)" for k p q
    by (induction k p q rule: lru_check_loop.induct) (auto intro!: keeps_intro)
  then show ?thesis unfolding gp_filesystem_lru_check_def by (intro keeps_intro)
qed

lemma I_set_file_noop: "keeps I (gp_filesystem_set_file_noop os c p n t x)"
  unfolding gp_filesystem_set_file_noop_def by (intro keeps_intro)

lemma I_get_storageinfo: "keeps I (gp_filesystem_get_storageinfo c)"
  unfolding gp_filesystem_get_storageinfo_def by (intro keeps_intro)

lemmas I_public = I_reset I_append I_gp_delete_file I_delete_file_noop I_delete_all I_make_dir I_remove_dir
  I_put_file I_count I_name I_number I_get_folder I_gp_get_file I_read_file I_get_info I_set_info_noop I_set_info
  I_set_file_noop I_get_storageinfo

end

section \<open>The interpretations\<close>

lemma links_info: "links (y\<lparr>info := a, info_dirty := b\<rparr>) = links y"
  by (simp add: links_def)

lemma cached_info: "cached ty (y\<lparr>info := a, info_dirty := b\<rparr>) = cached ty y"
  by (cases ty) simp_all

lemma mo_modify_fields [mo_intro]:
  "keeps mem_objects (modify (\<lambda>s. s\<lparr>fnodes := h s\<rparr>))" "keeps mem_objects (modify (\<lambda>s. s\<lparr>pictures_to_keep := k s\<rparr>))"
  "keeps mem_objects (modify (\<lambda>s. s\<lparr>cached_images := c s\<rparr>))"
  by (rule mo_modify, simp)+

lemma mo_steps [mo_intro]:
  "keeps mem_objects (delete_all_files os i)" "keeps mem_objects (recurse_delete_folder os i)"
  "keeps mem_objects (append_folder_one i nm)" "keeps mem_objects (internal_append i nm)"
  "keeps mem_objects (delete_file os i x)" "keeps mem_objects (remove_empty_dir os i nm g)"
  "keeps mem_objects (append_file i nm c)" "keeps mem_objects (replace_view os x ty c)"
  "keeps mem_objects settle_pictures_to_keep"
proof -
  show "keeps mem_objects (delete_all_files os i)"
    unfolding delete_all_files_def by (intro keeps_intro mo_intro)
  show "keeps mem_objects (recurse_delete_folder os i)"
    unfolding recurse_delete_folder_def recurse_delete_purge by (intro keeps_intro mo_intro)
  show "keeps mem_objects (append_folder_one i nm)"
    unfolding append_folder_one_def by (intro keeps_intro mo_intro)
  show "keeps mem_objects (internal_append i nm)"
    unfolding internal_append_def by (intro keeps_intro mo_intro)
  show "keeps mem_objects (delete_file os i x)"
    unfolding delete_file_def by (intro keeps_intro mo_intro)
  show "keeps mem_objects (remove_empty_dir os i nm g)"
    unfolding remove_empty_dir_def delete_folder_def driver_call_def by (intro keeps_intro mo_intro)
  show "keeps mem_objects (append_file i nm c)"
    unfolding append_file_def by (intro keeps_intro mo_intro)
  show "keeps mem_objects (replace_view os x ty c)"
    unfolding replace_view_def by (intro keeps_intro mo_intro)
  show "keeps mem_objects settle_pictures_to_keep"
    unfolding settle_pictures_to_keep_def by (intro keeps_intro mo_intro)
qed

interpretation inv: fs_invariant fs_inv
proof unfold_locales
  show "fs_inv (s\<lparr>mem_ok := b\<rparr>)" if "fs_inv s" for s :: "'a fs" and b
    using that by (simp add: fs_inv_def mem_objects_def)
  show "fs_inv (s\<lparr>env := w\<rparr>)" if "fs_inv s" for s :: "'a fs" and w
    using that by (simp add: fs_inv_def mem_objects_def)
  show "keeps fs_inv (write_file x (\<lambda>y. y\<lparr>info := k y, info_dirty := m y\<rparr>))" for x k m
    by (rule keeps_inv [OF keeps_write_data mo_basic(5)]) (simp_all add: links_info cached_info)
  show "keeps fs_inv (update_object c (\<lambda>f. f\<lparr>cf_name := n f, cf_mtime := t f\<rparr>))" for c n t
    by (rule keeps_inv [OF keeps_update_object mo_update_object]) simp_all
qed (rule keeps_prune keeps_move_last |
     rule keeps_inv, (rule keeps_flags keeps_delete_all_files keeps_recurse_delete_folder keeps_append_folder_one
       keeps_internal_append keeps_delete_file keeps_remove_empty_dir keeps_append_file keeps_lru_clear
       keeps_copy_object keeps_get_file_call keeps_replace_view keeps_settle), rule mo_intro)+

text \<open>
  Nobody but \<open>gp_filesystem_set_funcs\<close> changes the functions of the driver, and nobody replaces or renames the
  root folder.
\<close>

definition anchored :: "'w CameraFilesystemFuncs \<Rightarrow> nat \<Rightarrow> string \<Rightarrow> 'w fs \<Rightarrow> bool" where
  "anchored F i n s \<longleftrightarrow> funcs s = F \<and> fo_id (rootfolder s) = i \<and> fo_name (rootfolder s) = n"

named_theorems an_intro

lemma an_write_folder:
  assumes "\<And>f. fo_id (u f) = fo_id f" and "\<And>f. fo_name (u f) = fo_name f"
  shows "keeps (anchored F i n) (write_folder j u)"
proof -
  have "fo_id (upd_folder j u r) = fo_id r \<and> fo_name (upd_folder j u r) = fo_name r" for r
    using assms by (cases r) simp
  then show ?thesis by (auto simp: keeps_wp anchored_def split: option.split)
qed

lemma an_basic [an_intro]:
  "keeps (anchored F i n) (deref_folder j)" "keeps (anchored F i n) (deref_file j)" "keeps (anchored F i n) (deref_object j)"
  "keeps (anchored F i n) (write_file j v)" "keeps (anchored F i n) new_addr"
  "keeps (anchored F i n) malloc" "keeps (anchored F i n) (os_call g)" "keeps (anchored F i n) (free_file j)"
  "keeps (anchored F i n) (set_lru_first p)" "keeps (anchored F i n) (set_lru_last p)"
  "keeps (anchored F i n) (sub_lru_size k)" "keeps (anchored F i n) (add_lru_size k)"
  "keeps (anchored F i n) (put_object c x)"
proof -
  show "keeps (anchored F i n) malloc" by (rule keeps_malloc) (simp add: anchored_def)
  show "keeps (anchored F i n) (os_call g)" by (rule keeps_os_call) (simp add: anchored_def)
qed (auto simp: keeps_wp anchored_def split: option.split)

lemma an_flags [an_intro]:
  "keeps (anchored F i n) (write_folder j (set_files_dirty d))" "keeps (anchored F i n) (write_folder j (set_folders_dirty d))"
  "keeps (anchored F i n) (write_folder j (set_files xs))" "keeps (anchored F i n) (write_folder j (set_folders fs))"
  "keeps (anchored F i n) (write_folder j (\<lambda>f. set_files (k f) f))" "keeps (anchored F i n) (write_folder j (\<lambda>f. set_folders (k' f) f))"
  by (rule an_write_folder; simp)+

lemma an_env_only: "env_only m \<Longrightarrow> keeps (anchored F i n) m"
  by (erule keeps_env_only) (simp add: anchored_def)

lemma an_objects [an_intro]:
  "keeps (anchored F i n) (gp_file_get_data_and_size os f want)" "keeps (anchored F i n) (gp_file_copy fuel os d f)"
  "keeps (anchored F i n) (gp_file_unref os f)"
  by (rule an_env_only, rule env_only_intro)+

lemma an_modify:
  "(\<And>s. funcs (f s) = funcs s) \<Longrightarrow> (\<And>s. rootfolder (f s) = rootfolder s) \<Longrightarrow> keeps (anchored F i n) (modify f)"
  by (rule keeps_modify) (simp add: anchored_def)

lemma an_unref [an_intro]:
  "keeps (anchored F i n) (unref_object os c)" "keeps (anchored F i n) (ref_object c)"
  "keeps (anchored F i n) (unref_cached os x ty)" "keeps (anchored F i n) (unref_all_cached os x)"
  unfolding unref_all_cached_def unref_cached_def unref_object_def ref_object_def by (intro keeps_intro an_intro)+

lemma an_lru [an_intro]:
  "keeps (anchored F i n) (gp_filesystem_lru_remove_one x)" "keeps (anchored F i n) (free_view os p ty)"
  unfolding gp_filesystem_lru_remove_one_def free_view_def by (intro keeps_intro an_intro)+

lemma an_lru_free [an_intro]: "keeps (anchored F i n) (gp_filesystem_lru_free os)"
  unfolding gp_filesystem_lru_free_def by (intro keeps_intro an_intro)

lemma an_purge_files [an_intro]: "keeps (anchored F i n) (purge_files os xs)"
  by (induction xs) (auto intro!: keeps_intro an_intro)

lemma an_find_node [an_intro]: "keeps (anchored F i n) (find_node nm xs)"
  by (induction xs) (auto intro!: keeps_intro an_intro)

lemma an_lru_loops [an_intro]:
  "keeps (anchored F i n) (lru_clear_loop k p prev)" "keeps (anchored F i n) (lru_count_loop k p cnt)"
  by (induction k p prev rule: lru_clear_loop.induct; auto intro!: keeps_intro an_intro)
    (induction k p cnt rule: lru_count_loop.induct; auto intro!: keeps_intro an_intro)

lemma an_lru_count [an_intro]: "keeps (anchored F i n) gp_filesystem_lru_count"
  unfolding gp_filesystem_lru_count_def by (intro keeps_intro an_intro)

lemma an_prune: "keeps (anchored F i n) (lru_prune fuel os)"
  by (induction fuel) (subst lru_prune.simps, auto intro!: keeps_intro an_intro split: nat.split)+

lemma an_modify_fields [an_intro]:
  "keeps (anchored F i n) (modify (\<lambda>s. s\<lparr>fnodes := h s\<rparr>))" "keeps (anchored F i n) (modify (\<lambda>s. s\<lparr>pictures_to_keep := k s\<rparr>))"
  "keeps (anchored F i n) (modify (\<lambda>s. s\<lparr>cached_images := c s\<rparr>))" "keeps (anchored F i n) (modify (\<lambda>s. s\<lparr>lru_size := z\<rparr>))"
  by (rule an_modify, simp_all)+

lemma an_steps:
  "keeps (anchored F i n) (delete_all_files os j)" "keeps (anchored F i n) (recurse_delete_folder os j)"
  "keeps (anchored F i n) (append_folder_one j nm)" "keeps (anchored F i n) (internal_append j nm)"
  "keeps (anchored F i n) (delete_file os j x)" "keeps (anchored F i n) (remove_empty_dir os j nm g)"
  "keeps (anchored F i n) (append_file j nm c)" "keeps (anchored F i n) gp_filesystem_lru_clear"
  unfolding delete_all_files_def recurse_delete_folder_def recurse_delete_purge append_folder_one_def internal_append_def
    delete_file_def remove_empty_dir_def delete_folder_def driver_call_def append_file_def gp_filesystem_lru_clear_def
  by (intro keeps_intro an_intro)+

lemma an_object_steps:
  "keeps (anchored F i n) (update_object c u)" "keeps (anchored F i n) (copy_object fuel os c c')"
  "keeps (anchored F i n) (get_file_call gf c)" "keeps (anchored F i n) (replace_view os x ty c)"
  "keeps (anchored F i n) settle_pictures_to_keep" "keeps (anchored F i n) (lru_move_last os x ty)"
  unfolding update_object_def copy_object_def get_file_call_def replace_view_def settle_pictures_to_keep_def
    lru_move_last_def lru_link_last_def object_size_def
  by (intro keeps_intro an_intro)+

interpretation anchor: fs_invariant "anchored F i n"
  by unfold_locales
    (simp add: anchored_def | simp add: anchored_def | rule an_flags an_steps an_object_steps an_basic an_prune)+

end
