(* ===== verification/Gp_Listing.thy ===== *)
theory Gp_Listing imports Gp_Keeps begin

text \<open>
  What listing a folder returns and what it leaves behind: the run of the listing operations on a
  folder whose path is clean, with the driver's list function and enough memory.
\<close>

section \<open>The files of a folder\<close>

definition file_names :: "'w fs \<Rightarrow> nat \<Rightarrow> string list" where
  "file_names s i = (case find_folder i (rootfolder s) of None \<Rightarrow> []
     | Some f \<Rightarrow> map (\<lambda>x. f_name (the (fnodes s x))) (files f))"

definition is_dirty :: "'w fs \<Rightarrow> nat \<Rightarrow> bool" where
  "is_dirty s i \<longleftrightarrow> (\<exists>f. find_folder i (rootfolder s) = Some f \<and> files_dirty f)"

lemma file_names_in:
  assumes "fs_ok s" and "find_folder i (rootfolder s) = Some f"
  shows "Some n \<in> name_at (fnodes s) ` set (files f) \<longleftrightarrow> n \<in> set (file_names s i)"
proof -
  have "Some n = name_at (fnodes s) x \<longleftrightarrow> n = f_name (the (fnodes s x))" if "x \<in> set (files f)" for x
    using fs_ok_names(2) [OF assms that] by auto
  then show ?thesis using assms(2) by (auto simp: file_names_def)
qed

lemma file_names_distinct: "fs_ok s \<Longrightarrow> distinct (file_names s i)"
proof (cases "find_folder i (rootfolder s)")
  case (Some f)
  assume ok: "fs_ok s"
  have "map (name_at (fnodes s)) (files f) = map Some (file_names s i)"
    using fs_ok_names(2) [OF ok Some] Some by (fastforce simp: file_names_def)
  with fs_ok_names(1) [OF ok Some] show ?thesis by (simp add: distinct_map)
qed (simp add: file_names_def)

text \<open>Steps at one folder: paths lead where they led, and the driver's functions and the allocator are as they were.\<close>

definition stays :: "'w fs \<Rightarrow> 'w fs \<Rightarrow> bool" where
  "stays s t \<longleftrightarrow> fs_ok t \<and> mem_ok t = mem_ok s \<and> funcs t = funcs s \<and>
     (\<forall>p j. leads (rootfolder s) p j \<longrightarrow> leads (rootfolder t) p j)"

lemma stays_refl: "fs_ok s \<Longrightarrow> stays s s"
  by (simp add: stays_def)

lemma stays_trans: "stays s t \<Longrightarrow> stays t u \<Longrightarrow> stays s u"
  by (simp add: stays_def)

lemma find_upd:
  "find_folder i r = Some f \<Longrightarrow> keeps_shape u \<Longrightarrow> find_folder i (upd_folder i u r) = Some (u f)"
  by (rule find_upd_same(1)) (simp_all add: keeps_shapeD)

lemma internal_append_run:
  assumes ok: "fs_ok s" and f: "find_folder i (rootfolder s) = Some f" and m: "mem_ok s = []"
    and n: "n \<notin> set (file_names s i)"
  shows "internal_append i n s = (Inr (), s\<lparr>next_addr := Suc (next_addr s),
      fnodes := (fnodes s)(next_addr s \<mapsto> new_file_node n),
      rootfolder := upd_folder i (\<lambda>f. set_files (files f @ [next_addr s]) f) (rootfolder s)\<rparr>)"
proof -
  have "find (\<lambda>x. name_at (fnodes s) x = Some n) (files f) = None"
    using n unfolding file_names_in [OF ok f, symmetric] by (auto simp: find_None_iff) (metis imageI option.simps(9))
  with find_node_run [where n = n, OF fs_ok_names(2) [OF ok f]] f m show ?thesis
    by (simp add: internal_append_def deref_folder_def CR_def run_simps new_addr_def write_folder_def)
qed

lemma internal_append_exists:
  assumes ok: "fs_ok s" and f: "find_folder i (rootfolder s) = Some f" and n: "n \<in> set (file_names s i)"
  shows "internal_append i n s = (Inl GP_ERROR_FILE_EXISTS, s)"
proof -
  have "find (\<lambda>x. name_at (fnodes s) x = Some n) (files f) \<noteq> None"
    using n unfolding file_names_in [OF ok f, symmetric] by (auto simp: find_None_iff image_iff dest!: sym [of "Some n"])
  with find_node_run [where n = n, OF fs_ok_names(2) [OF ok f]] f show ?thesis
    by (auto simp: internal_append_def deref_folder_def CR_def run_simps)
qed

lemma wp_internal_append:
  assumes ok: "fs_ok s" and f: "find_folder i (rootfolder s) = Some f" and m: "mem_ok s = []"
    and n: "n \<notin> set (file_names s i)"
  shows "wp (internal_append i n) (\<lambda>_ t. stays s t \<and> env t = env s \<and> file_names t i = file_names s i @ [n] \<and>
      is_dirty t i = is_dirty s i \<and> find_folder i (rootfolder t) \<noteq> None) (\<lambda>_ _. False) s"
proof -
  let ?u = "\<lambda>f. set_files (files f @ [next_addr s]) f"
  let ?t = "s\<lparr>next_addr := Suc (next_addr s), fnodes := (fnodes s)(next_addr s \<mapsto> new_file_node n),
      rootfolder := upd_folder i ?u (rootfolder s)\<rparr>"
  note run = internal_append_run [OF assms]
  have okt: "fs_ok ?t" using keepsD [OF keeps_internal_append ok run] .
  have ft: "find_folder i (upd_folder i ?u (rootfolder s)) = Some (?u f)" by (rule find_upd [OF f]) simp
  have "fresh_addr s" using ok by (auto simp: fs_ok_def cache_ok_def)
  then have "fnodes s (next_addr s) = None" unfolding fresh_addr_def by blast
  then have "next_addr s \<notin> set (files f)" using fs_ok_names(2) [OF ok f] by blast
  then have "map (\<lambda>x. f_name (the (((fnodes s)(next_addr s \<mapsto> new_file_node n)) x))) (files f) =
      map (\<lambda>x. f_name (the (fnodes s x))) (files f)" by (intro map_cong) auto
  then have fn: "file_names ?t i = file_names s i @ [n]"
    using ft f by (simp add: file_names_def new_file_node_def)
  have "stays s ?t" unfolding stays_def using okt by (auto intro: leads_upd)
  moreover have "is_dirty ?t i = is_dirty s i" using ft f by (simp add: is_dirty_def)
  ultimately show ?thesis using run fn ft by (simp add: wp_def)
qed

lemma wp_append_names:
  assumes "fs_ok s" and "find_folder i (rootfolder s) \<noteq> None" and "mem_ok s = []"
    and "distinct (file_names s i @ ns)"
  shows "wp (each (internal_append i) ns) (\<lambda>_ t. stays s t \<and> env t = env s \<and> file_names t i = file_names s i @ ns \<and>
      is_dirty t i = is_dirty s i) (\<lambda>_ _. False) s"
  using assms
proof (induction ns arbitrary: s)
  case Nil
  then show ?case by (simp add: stays_refl)
next
  case (Cons n ns)
  then obtain f where f: "find_folder i (rootfolder s) = Some f" by auto
  have n: "n \<notin> set (file_names s i)" using Cons.prems(4) by auto
  show ?case
    unfolding each.simps wp_CR
  proof (rule wp_mono [OF wp_internal_append [OF Cons.prems(1) f Cons.prems(3) n]])
    fix a t
    assume t: "stays s t \<and> env t = env s \<and> file_names t i = file_names s i @ [n] \<and>
      is_dirty t i = is_dirty s i \<and> find_folder i (rootfolder t) \<noteq> None"
    have "wp (each (internal_append i) ns) (\<lambda>_ u. stays t u \<and> env u = env t \<and>
        file_names u i = file_names t i @ ns \<and> is_dirty u i = is_dirty t i) (\<lambda>_ _. False) t"
      by (rule Cons.IH) (use t Cons.prems in \<open>auto simp: stays_def\<close>)
    then show "wp (each (internal_append i) ns) (\<lambda>_ u. stays s u \<and> env u = env s \<and>
        file_names u i = file_names s i @ n # ns \<and> is_dirty u i = is_dirty s i) (\<lambda>_ _. False) t"
      by (rule wp_mono) (use t stays_trans in auto)
  qed simp
qed

section \<open>Loops over a list\<close>

lemma wp_each_name_loop:
  assumes wf: "list_wf l" and ab: "list_abs l = map (\<lambda>n. (Some n, None)) ns" and k: "k \<le> length ns"
    and body: "wp (each f (drop k ns)) (\<lambda>_ t. Q () (Some l, t)) (\<lambda>e t. E e (Some l, t)) s"
  shows "wp (each (\<lambda>y. CR (gp_list_get_name (int y)) (\<lambda>name. case name of
         None \<Rightarrow> fail UNDEFINED | Some n \<Rightarrow> on_fs (f n))) [k..<length ns]) Q E (Some l, s)"
  using k body
proof (induction "length ns - k" arbitrary: k s)
  case 0
  then show ?case by simp
next
  case (Suc d)
  then have k: "k < length ns" by simp
  then have up: "[k..<length ns] = k # [Suc k..<length ns]" by (simp add: upt_conv_Cons)
  have dr: "drop k ns = ns ! k # drop (Suc k) ns" using k by (simp add: Cons_nth_drop_Suc)
  have nm: "fst (list_abs l ! k) = Some (ns ! k)" using k by (simp add: ab)
  have len: "length (list_abs l) = length ns" by (simp add: ab)
  have "wp (f (ns ! k)) (\<lambda>_ t. wp (each f (drop (Suc k) ns)) (\<lambda>_ t. Q () (Some l, t)) (\<lambda>e t. E e (Some l, t)) t)
      (\<lambda>e t. E e (Some l, t)) s"
    using Suc.prems(2) by (simp add: dr)
  then have "wp (f (ns ! k)) (\<lambda>_ t. wp (each (\<lambda>y. CR (gp_list_get_name (int y)) (\<lambda>name. case name of
         None \<Rightarrow> fail UNDEFINED | Some n \<Rightarrow> on_fs (f n))) [Suc k..<length ns]) Q E (Some l, t))
      (\<lambda>e t. E e (Some l, t)) s"
    by (rule wp_mono) (use Suc k in auto)
  then show ?case
    using k len nm by (simp add: up wp_get_name [OF wf])
qed

lemma wp_each_name:
  assumes "list_wf l" and "list_abs l = map (\<lambda>n. (Some n, None)) ns"
    and "wp (each f ns) (\<lambda>_ t. Q () (Some l, t)) (\<lambda>e t. E e (Some l, t)) s"
  shows "wp (each_name f) Q E (Some l, s)"
  using wp_each_name_loop [OF assms(1,2), of 0 f Q E s] assms(3)
  by (simp add: each_name_def wp_count [OF assms(1)] assms(2))

lemma wp_append_all:
  assumes "list_wf l" and "mem_ok s = []"
    and "\<And>l'. list_wf l' \<Longrightarrow> list_abs l' = list_abs l @ map (\<lambda>n. (Some n, None)) ns \<Longrightarrow>
      l_ref_count l' = l_ref_count l \<Longrightarrow> Q () (Some l', s)"
  shows "wp (each (\<lambda>n. gp_list_append (Some n) None) ns) Q E (Some l, s)"
  using wp_append_each [OF assms(1), where f = "\<lambda>n. (Some n, None)" and xs = ns and Q = Q and E = E and m = s]
    assms(2,3)
  by (auto simp: mem_step_def)

lemma wp_list_call:
  assumes "list_wf l" and "list_abs l = []" and "mem_ok s = []" and "g (env s) = ((ret, ns), w)"
    and "\<And>l'. list_wf l' \<Longrightarrow> list_abs l' = map (\<lambda>n. (Some n, None)) ns \<Longrightarrow>
      (if ret < 0 then E ret (Some l', s\<lparr>env := w\<rparr>) else Q () (Some l', s\<lparr>env := w\<rparr>))"
  shows "wp (list_call g) Q E (Some l, s)"
  unfolding list_call_def using assms(3-5)
  by (auto intro!: wp_append_all [OF assms(1)] simp: assms(2))


section \<open>Listing the files\<close>

lemma wp_run: "m s = (Inr a, t) \<Longrightarrow> wp m Q E s = Q a t"
  by (simp add: wp_def)

lemma lookup_leads: "leads (rootfolder s) p i \<Longrightarrow> lookup_folder os c p s = (Inr (Some i), s)"
  by (auto simp: leads_def lookup_clean)

lemma wp_lookup: "leads (rootfolder s) p i \<Longrightarrow> wp (lookup_folder os c p) Q E s = Q (Some i) s"
  by (simp add: wp_def lookup_leads)

definition entries :: "string list \<Rightarrow> (string option \<times> string option) list" where
  "entries ns = map (\<lambda>n. (Some n, None)) ns"

text \<open>The last part of the listing: mark the folder clean and put its names into the list.\<close>

lemma wp_names_loop:
  assumes "list_wf l" and "mem_ok s = []" and "\<And>x. x \<in> set xs \<Longrightarrow> fnodes s x \<noteq> None"
    and "\<And>l'. list_wf l' \<Longrightarrow> list_abs l' = list_abs l @ entries (map (\<lambda>x. f_name (the (fnodes s x))) xs) \<Longrightarrow> Q () (Some l', s)"
  shows "wp (each (\<lambda>x. CR (on_fs (deref_file x)) (\<lambda>y. gp_list_append (Some (f_name y)) None)) xs) Q E (Some l, s)"
  using assms
proof (induction xs arbitrary: l)
  case Nil
  then show ?case by (simp add: entries_def)
next
  case (Cons x xs)
  obtain y where y: "fnodes s x = Some y" using Cons.prems(3) [of x] by auto
  have "wp (gp_list_append (Some (f_name y)) None)
      (\<lambda>_. wp (each (\<lambda>x. CR (on_fs (deref_file x)) (\<lambda>y. gp_list_append (Some (f_name y)) None)) xs) Q E) E (Some l, s)"
  proof (rule wp_append [OF Cons.prems(1)])
    fix l' m'
    assume l': "list_wf l'" "list_abs l' = list_abs l @ [(Some (f_name y), None)]" "mem_step s m'"
    with Cons.prems(2) have m': "m' = s" by (simp add: mem_step_def)
    show "wp (each (\<lambda>x. CR (on_fs (deref_file x)) (\<lambda>y. gp_list_append (Some (f_name y)) None)) xs) Q E (Some l', m')"
      unfolding m' by (rule Cons.IH) (use Cons.prems l' y in \<open>simp_all add: entries_def\<close>)
  qed (use Cons.prems(2) in simp)
  with y show ?case by simp
qed

lemma clean_step:
  assumes ok: "fs_ok s" and f: "find_folder i (rootfolder s) = Some f"
  shows "stays s (s\<lparr>rootfolder := upd_folder i (set_files_dirty d) (rootfolder s)\<rparr>)"
    and "file_names (s\<lparr>rootfolder := upd_folder i (set_files_dirty d) (rootfolder s)\<rparr>) i = file_names s i"
    and "is_dirty (s\<lparr>rootfolder := upd_folder i (set_files_dirty d) (rootfolder s)\<rparr>) i = d"
proof -
  let ?t = "s\<lparr>rootfolder := upd_folder i (set_files_dirty d) (rootfolder s)\<rparr>"
  have "write_folder i (set_files_dirty d) s = (Inr (), ?t)"
    using f by (simp add: write_folder_def deref_folder_def CR_def run_simps)
  then have "fs_ok ?t" using keepsD [OF keeps_flags(1) ok] by blast
  then show "stays s ?t" by (auto simp: stays_def intro: leads_upd)
  have "find_folder i (rootfolder ?t) = Some (set_files_dirty d f)" using find_upd [OF f] by simp
  then show "file_names ?t i = file_names s i" "is_dirty ?t i = d"
    using f by (simp_all add: file_names_def is_dirty_def)
qed

lemma wp_list_tail:
  assumes ok: "fs_ok s" and i: "find_folder i (rootfolder s) \<noteq> None" and m: "mem_ok s = []"
    and wf: "list_wf l" and ab: "list_abs l = []"
    and Q: "\<And>l' t. list_wf l' \<Longrightarrow> list_abs l' = entries (file_names s i) \<Longrightarrow> stays s t \<Longrightarrow>
      file_names t i = file_names s i \<Longrightarrow> \<not> is_dirty t i \<Longrightarrow> env t = env s \<Longrightarrow> Q () (Some l', t)"
  shows "wp (CR (on_fs (write_folder i (set_files_dirty False))) (\<lambda>_.
         CR (on_fs (deref_folder i)) (\<lambda>f.
         each (\<lambda>x. CR (on_fs (deref_file x)) (\<lambda>y. gp_list_append (Some (f_name y)) None)) (files f)))) Q E (Some l, s)"
proof -
  from i obtain f where f: "find_folder i (rootfolder s) = Some f" by auto
  let ?t = "s\<lparr>rootfolder := upd_folder i (set_files_dirty False) (rootfolder s)\<rparr>"
  note st = clean_step [OF ok f, of False]
  have ft: "find_folder i (rootfolder ?t) = Some (set_files_dirty False f)" using find_upd [OF f] by simp
  have "wp (each (\<lambda>x. CR (on_fs (deref_file x)) (\<lambda>y. gp_list_append (Some (f_name y)) None)) (files f)) Q E (Some l, ?t)"
  proof (rule wp_names_loop [OF wf])
    show "fnodes ?t x \<noteq> None" if "x \<in> set (files f)" for x using fs_ok_names(2) [OF ok f that] by simp
    show "Q () (Some l', ?t)" if l': "list_wf l'" "list_abs l' = list_abs l @ entries (map (\<lambda>x. f_name (the (fnodes ?t x))) (files f))" for l'
      by (rule Q) (use l' st ab f in \<open>simp_all add: file_names_def\<close>)
  qed (use m in simp)
  with f ft show ?thesis by simp
qed

text \<open>From the argument checks to the folder.\<close>

lemma wp_list_files_at:
  assumes p: "leads (rootfolder s) p i" and abs: "p = CHR ''/'' # q" and wf: "list_wf l"
    and Q: "\<And>l0. list_wf l0 \<Longrightarrow> list_abs l0 = [] \<Longrightarrow> wp (list_files_in os p i) Q E (Some l0, s)"
  shows "wp (gp_filesystem_list_files os None p) Q E (Some l, s)"
proof -
  have "wp gp_list_reset (\<lambda>_. wp (CR (on_fs (lookup_folder os None p)) (\<lambda>r. case r of
         None \<Rightarrow> fail GP_ERROR_DIRECTORY_NOT_FOUND | Some fp \<Rightarrow> list_files_in os p fp)) Q E)
      (\<lambda>e. if e = UNDEFINED then E UNDEFINED else wp (CR (on_fs (lookup_folder os None p)) (\<lambda>r. case r of
         None \<Rightarrow> fail GP_ERROR_DIRECTORY_NOT_FOUND | Some fp \<Rightarrow> list_files_in os p fp)) Q E) (Some l, s)"
    by (rule wp_reset [OF wf]) (use Q in \<open>simp add: wp_lookup [OF p]\<close>)
  moreover have "CA p = (ok () :: ('a, unit) fsm)" by (simp add: CA_def abs)
  moreover have "CC None = (ok () :: ('a, unit) fsm)" by (simp add: CC_def)
  ultimately show ?thesis
    by (simp add: gp_filesystem_list_files_def del: wp_CR add: wp_CR [of "on_fs _"] wp_CR [of "ignoring _"])
qed

text \<open>A clean folder is listed from the cache: no call of the driver (the environment is as it was).\<close>

lemma wp_list_files_clean:
  assumes ok: "fs_ok s" and p: "leads (rootfolder s) p i" and abs: "p = CHR ''/'' # q" and m: "mem_ok s = []"
    and cl: "\<not> is_dirty s i" and wf: "list_wf l"
    and Q: "\<And>l' t. list_wf l' \<Longrightarrow> list_abs l' = entries (file_names s i) \<Longrightarrow> stays s t \<Longrightarrow>
      file_names t i = file_names s i \<Longrightarrow> \<not> is_dirty t i \<Longrightarrow> env t = env s \<Longrightarrow> Q () (Some l', t)"
  shows "wp (gp_filesystem_list_files os None p) Q E (Some l, s)"
proof (rule wp_list_files_at [OF p abs wf])
  from leads_find [OF p] obtain f where f: "find_folder i (rootfolder s) = Some f" ..
  with cl have d: "\<not> files_dirty f" by (simp add: is_dirty_def)
  fix l0 assume l0: "list_wf l0" "list_abs l0 = []"
  have "wp (CR (on_fs (write_folder i (set_files_dirty False))) (\<lambda>_.
         CR (on_fs (deref_folder i)) (\<lambda>f.
         each (\<lambda>x. CR (on_fs (deref_file x)) (\<lambda>y. gp_list_append (Some (f_name y)) None)) (files f)))) Q E (Some l0, s)"
    by (rule wp_list_tail [OF ok _ m l0]) (use f Q in auto)
  with f d show "wp (list_files_in os p i) Q E (Some l0, s)"
    by (cases "file_list_func (funcs s)") (simp_all add: list_files_in_def)
qed

text \<open>
  A dirty folder is purged and marked clean, and the driver is asked; when it fails the folder stays
  as it is then.
\<close>

lemma wp_list_files_dirty:
  assumes ok: "fs_ok s" and p: "leads (rootfolder s) p i" and abs: "p = CHR ''/'' # q" and m: "mem_ok s = []"
    and di: "is_dirty s i" and g: "file_list_func (funcs s) = Some g" and gr: "\<And>w. fst (g p w) = (ret, ns)"
    and ns: "distinct ns" and wf: "list_wf l"
    and Q: "\<And>l' t. 0 \<le> ret \<Longrightarrow> list_wf l' \<Longrightarrow> list_abs l' = entries ns \<Longrightarrow> stays s t \<Longrightarrow>
      file_names t i = ns \<Longrightarrow> \<not> is_dirty t i \<Longrightarrow> Q () (Some l', t)"
    and E: "\<And>l' t. ret < 0 \<Longrightarrow> list_wf l' \<Longrightarrow> stays s t \<Longrightarrow> file_names t i = [] \<Longrightarrow> \<not> is_dirty t i \<Longrightarrow> E ret (Some l', t)"
  shows "wp (gp_filesystem_list_files os None p) Q E (Some l, s)"
proof (rule wp_list_files_at [OF p abs wf])
  let ?tail = "CR (on_fs (write_folder i (set_files_dirty False))) (\<lambda>_.
         CR (on_fs (deref_folder i)) (\<lambda>f.
         each (\<lambda>x. CR (on_fs (deref_file x)) (\<lambda>y. gp_list_append (Some (f_name y)) None)) (files f)))"
  from leads_find [OF p] obtain f where f: "find_folder i (rootfolder s) = Some f" ..
  with di have d: "files_dirty f" by (simp add: is_dirty_def)
  fix l0 assume l0: "list_wf l0" "list_abs l0 = []"
  have "wp (delete_all_files os i) (\<lambda>_ t. wp (CR (on_fs (write_folder i (set_files_dirty False))) (\<lambda>_.
               CR (list_call (g p)) (\<lambda>_.
               CR (each_name (internal_append i)) (\<lambda>_. CR (ignoring gp_list_reset) (\<lambda>_. ?tail))))) Q E (Some l0, t))
      (\<lambda>e t. E e (Some l0, t)) s"
  proof (rule wp_mono [OF wp_delete_all_files [OF ok f]])
    fix a t1
    assume t1: "fs_ok t1 \<and> rootfolder t1 = upd_folder i (set_files []) (rootfolder s) \<and>
       purged s (t1\<lparr>rootfolder := rootfolder s\<rparr>) (set (files f))"
    then have ok1: "fs_ok t1" and r1: "rootfolder t1 = upd_folder i (set_files []) (rootfolder s)"
      and m1: "mem_ok t1 = []" and fu: "funcs t1 = funcs s" using m by (auto simp: purged_def)
    have f1: "find_folder i (rootfolder t1) = Some (set_files [] f)" unfolding r1 by (rule find_upd [OF f]) simp
    have s1: "stays s t1" using t1 by (auto simp: stays_def purged_def intro: leads_upd)
    have n1: "file_names t1 i = []" by (simp add: file_names_def f1)
    let ?t2 = "t1\<lparr>rootfolder := upd_folder i (set_files_dirty False) (rootfolder t1)\<rparr>"
    note c2 = clean_step [OF ok1 f1, of False]
    from c2(1) have ok2: "fs_ok ?t2" by (simp add: stays_def)
    have s2: "stays s ?t2" by (rule stays_trans [OF s1 c2(1)])
    have "wp (list_call (g p)) (\<lambda>_. wp (CR (each_name (internal_append i)) (\<lambda>_. CR (ignoring gp_list_reset) (\<lambda>_. ?tail))) Q E) E
        (Some l0, ?t2)"
    proof (rule wp_list_call [OF l0])
      show "g p (env ?t2) = ((ret, ns), snd (g p (env ?t2)))" using gr [of "env ?t2"] by (simp add: prod_eq_iff)
      fix l1 assume l1: "list_wf l1" "list_abs l1 = map (\<lambda>n. (Some n, None)) ns"
      let ?t3 = "?t2\<lparr>env := snd (g p (env ?t2))\<rparr>"
      have ok3: "fs_ok ?t3" using ok2 by simp
      have s3: "stays s ?t3" using s2 ok3 by (simp add: stays_def)
      have "file_names ?t3 i = file_names ?t2 i" by (simp add: file_names_def cong: option.case_cong)
      then have n3: "file_names ?t3 i = []" unfolding c2(2) n1 .
      have "is_dirty ?t3 i = is_dirty ?t2 i" by (simp add: is_dirty_def)
      then have d3: "\<not> is_dirty ?t3 i" unfolding c2(3) by simp
      have i3: "find_folder i (rootfolder ?t3) \<noteq> None" using find_upd [OF f1] by simp
      show "if ret < 0 then E ret (Some l1, ?t3)
          else wp (CR (each_name (internal_append i)) (\<lambda>_. CR (ignoring gp_list_reset) (\<lambda>_. ?tail))) Q E (Some l1, ?t3)"
      proof (cases "ret < 0")
        case True
        with E [OF True l1(1) s3 n3 d3] show ?thesis by simp
      next
        case False
        have "wp (each_name (internal_append i)) (\<lambda>_. wp (CR (ignoring gp_list_reset) (\<lambda>_. ?tail)) Q E) E (Some l1, ?t3)"
        proof (rule wp_each_name [OF l1])
          show "wp (each (internal_append i) ns) (\<lambda>_ t. wp (CR (ignoring gp_list_reset) (\<lambda>_. ?tail)) Q E (Some l1, t))
            (\<lambda>e t. E e (Some l1, t)) ?t3"
          proof (rule wp_mono [OF wp_append_names [OF ok3 i3]])
            fix b t4
            assume t4: "stays ?t3 t4 \<and> env t4 = env ?t3 \<and> file_names t4 i = file_names ?t3 i @ ns \<and> is_dirty t4 i = is_dirty ?t3 i"
            then have ok4: "fs_ok t4" and m4: "mem_ok t4 = []" and s4: "stays s t4"
              using m1 s3 by (auto simp: stays_def)
            have i4: "find_folder i (rootfolder t4) \<noteq> None" using leads_find s4 p by (force simp: stays_def)
            have tail: "wp ?tail Q E (Some l2, t4)" if "list_wf l2" "list_abs l2 = []" for l2
            proof (rule wp_list_tail [OF ok4 i4 m4 that])
              fix l' t
              assume t: "list_wf l'" "list_abs l' = entries (file_names t4 i)" "stays t4 t"
                "file_names t i = file_names t4 i" "\<not> is_dirty t i"
              have "file_names t4 i = ns" using t4 n3 by simp
              with Q [of l' t] t stays_trans [OF s4 t(3)] False show "Q () (Some l', t)" by simp
            qed
            have "wp gp_list_reset (\<lambda>_. wp ?tail Q E) (\<lambda>e. if e = UNDEFINED then E UNDEFINED else wp ?tail Q E) (Some l1, t4)"
              by (rule wp_reset [OF l1(1)]) (rule tail)
            then show "wp (CR (ignoring gp_list_reset) (\<lambda>_. ?tail)) Q E (Some l1, t4)"
              by (simp del: wp_CR add: wp_CR [of "ignoring gp_list_reset"])
          qed (use m1 n3 ns in simp_all)
        qed
        with False show ?thesis by (simp del: wp_CR add: wp_CR [of "each_name (internal_append i)"])
      qed
    qed (use m1 in simp)
    with f1 show "wp (CR (on_fs (write_folder i (set_files_dirty False))) (\<lambda>_.
               CR (list_call (g p)) (\<lambda>_.
               CR (each_name (internal_append i)) (\<lambda>_. CR (ignoring gp_list_reset) (\<lambda>_. ?tail))))) Q E (Some l0, t1)"
      by simp
  qed simp
  with f d g show "wp (list_files_in os p i) Q E (Some l0, s)"
    by (simp add: list_files_in_def wp_CR_fun)
qed

end
