(* ===== verification/Gp_Fs_Props.thy ===== *)
theory Gp_Fs_Props imports Gp_Listing begin

text \<open>
  What holds of the filesystem object in every state a program can bring it to, and what the single
  operations guarantee: path lookup, listing, numbering, deletion, reset, the cache.
\<close>

section \<open>All runs\<close>

text \<open>
  A step of a program: a public operation with any arguments, successful or not, or what a front-end
  does with the file objects it holds. The objects are memory objects, made by \<open>gp_file_new\<close>: front-ends that make
  file objects with \<open>gp_file_new_from_fd\<close> or \<open>gp_file_new_from_handler\<close> (gphoto2-file.c:109-150) are left out, since reading the
  size of such an object can fail in the middle of the cache operations, after which the cache list is none any more
  (\<open>lru_free_fd_corrupts\<close> in Gp_Fs_Ops). Filling an object is \<open>gp_file_set_data_and_size\<close>; an object is
  released by a front-end that owns one of its references.
\<close>

inductive fs_step :: "'w os \<Rightarrow> 'w fs \<Rightarrow> 'w fs \<Rightarrow> bool" for os where
  set_funcs: "fs_step os s (snd (gp_filesystem_set_funcs f s))"
| reset: "fs_step os s (snd (gp_filesystem_reset os s))"
| append: "fs_step os s (snd (gp_filesystem_append os c p n s))"
| list_files: "fs_step os s (snd (local_list (gp_filesystem_list_files os c p) s))"
| list_folders: "fs_step os s (snd (local_list (gp_filesystem_list_folders os c p) s))"
| delete_file: "fs_step os s (snd (gp_filesystem_delete_file os c p n s))"
| delete_file_noop: "fs_step os s (snd (gp_filesystem_delete_file_noop os c p n s))"
| delete_all: "fs_step os s (snd (gp_filesystem_delete_all os c p s))"
| make_dir: "fs_step os s (snd (gp_filesystem_make_dir os c p n s))"
| remove_dir: "fs_step os s (snd (gp_filesystem_remove_dir os c p n s))"
| put_file: "fs_step os s (snd (gp_filesystem_put_file os c p n t x s))"
| count: "fs_step os s (snd (gp_filesystem_count os c p s))"
| name: "fs_step os s (snd (gp_filesystem_name os c p k s))"
| number: "fs_step os s (snd (gp_filesystem_number fuel os c p n s))"
| get_folder: "fs_step os s (snd (gp_filesystem_get_folder fuel os c n s))"
| get_file: "fs_step os s (snd (gp_filesystem_get_file fuel os c p n t x s))"
| read_file: "fs_step os s (snd (gp_filesystem_read_file c p n t off sz s))"
| get_info: "fs_step os s (snd (gp_filesystem_get_info os c p n s))"
| set_info: "fs_step os s (snd (gp_filesystem_set_info os c p n i s))"
| set_info_noop: "fs_step os s (snd (gp_filesystem_set_info_noop os c p n i s))"
| set_file_noop: "fs_step os s (snd (gp_filesystem_set_file_noop os c p n t x s))"
| get_storageinfo: "fs_step os s (snd (gp_filesystem_get_storageinfo c s))"
| new_object: "objects s a = None \<Longrightarrow> gp_file_new s = (Inr f, s') \<Longrightarrow>
    fs_step os s (s'\<lparr>objects := (objects s')(a \<mapsto> f)\<rparr>)"
| fill_object: "objects s a = Some f \<Longrightarrow> gp_file_set_data_and_size os f d s = (Inr f', s') \<Longrightarrow>
    fs_step os s (s'\<lparr>objects := (objects s')(a \<mapsto> f')\<rparr>)"
| release_object: "objects s a = Some f \<Longrightarrow> int (card (cache_slots (fnodes s) a)) < cf_ref_count f \<Longrightarrow>
    fs_step os s (snd (unref_object os a s))"

inductive fs_reach :: "'w os \<Rightarrow> 'w fs \<Rightarrow> bool" for os where
  start: "gp_filesystem_new m w keep setting = Inr s \<Longrightarrow> fs_reach os s"
| go: "fs_reach os s \<Longrightarrow> fs_step os s t \<Longrightarrow> fs_reach os t"

lemma fs_inv_blank: "fs_inv (blank_fs m w keep setting)"
  by (auto simp: fs_inv_def fs_ok_def blank_fs_def cache_ok_def fresh_addr_def cache_slots_def mem_objects_def
      tree_ok_def lru_is_def)

lemma fs_inv_new:
  fixes s :: "'w fs"
  assumes new: "gp_filesystem_new m w keep setting = Inr s"
  shows "fs_inv s"
proof -
  have k: "keeps fs_inv (CR malloc (\<lambda>_. CR malloc (\<lambda>_. malloc)) :: ('w, unit) fsm)"
    by (intro keeps_intro inv.I_malloc)
  from new obtain t where "CR malloc (\<lambda>_. CR malloc (\<lambda>_. CR malloc (\<lambda>_. gets (\<lambda>s. s)))) (blank_fs m w keep setting) = (Inr s, t)"
    unfolding gp_filesystem_new_def by (metis fst_conv surj_pair)
  then obtain b where "CR malloc (\<lambda>_. CR malloc (\<lambda>_. malloc)) (blank_fs m w keep setting) = (Inr b, s)"
    by (auto simp: CR_eq_Inr run_simps)
  with keepsD [OF k fs_inv_blank] show ?thesis by blast
qed

lemma fs_inv_fill:
  assumes inv: "fs_inv s" and f: "objects s a = Some f" and r: "gp_file_set_data_and_size os f d s = (Inr f', s')"
  shows "fs_inv (s'\<lparr>objects := (objects s')(a \<mapsto> f')\<rparr>)"
proof -
  from inv f have m: "accesstype f = GP_FILE_ACCESSTYPE_MEMORY" by (auto simp: fs_inv_def mem_objects_def)
  with r have f': "f' = f\<lparr>data := d, cf_size := (case d of None \<Rightarrow> 0 | Some b \<Rightarrow> length b)\<rparr>" and s': "s' = s"
    by (simp_all add: gp_file_set_data_and_size_def run_simps)
  have "cf_ref_count f \<le> cf_ref_count f'" unfolding f' by simp
  moreover from inv have "fs_ok s" by (simp add: fs_inv_def)
  ultimately have "fs_ok (s\<lparr>objects := (objects s)(a \<mapsto> f')\<rparr>)" using f by (intro fs_ok_object)
  moreover have "accesstype f' = GP_FILE_ACCESSTYPE_MEMORY" using m unfolding f' by simp
  ultimately show ?thesis using inv unfolding s' by (auto simp: fs_inv_def mem_objects_def)
qed

lemma fs_inv_new_object:
  assumes inv: "fs_inv s" and f: "objects s a = None" and r: "gp_file_new s = (Inr f, s')"
  shows "fs_inv (s'\<lparr>objects := (objects s')(a \<mapsto> f)\<rparr>)"
proof -
  from r obtain b where s': "s' = s\<lparr>mem_ok := b\<rparr>" and f': "f = blank_file GP_FILE_ACCESSTYPE_MEMORY"
    unfolding gp_file_new_def CR_eq_Inr
    by (auto simp: malloc_def run_simps split: list.splits if_splits) (metis mem.surjective mem.update_convs(1))+
  from inv s' have inv': "fs_inv s'" by (simp add: inv.I_mem)
  then obtain L where s: "cache_ok s'" "lru_is s' L" "tree_ok (rootfolder s') (fnodes s') (next_addr s')"
    by (auto simp: fs_inv_def elim: fs_okE)
  let ?t = "s'\<lparr>objects := (objects s')(a \<mapsto> f)\<rparr>"
  have none: "objects s' a = None" using f s' by simp
  have "cache_ok ?t"
    unfolding cache_ok_def
  proof (intro conjI allI impI)
    show "fresh_addr ?t" using s(1) by (simp add: cache_ok_def fresh_addr_def)
    show "cache_slots (fnodes ?t) d = {}" if "objects ?t d = None" for d
      using that s(1) by (auto simp: cache_ok_def split: if_splits)
    show "int (card (cache_slots (fnodes ?t) d)) \<le> cf_ref_count g" if "objects ?t d = Some g" for d g
      using that cache_ok_Some [OF s(1), of d g] cache_ok_None [OF s(1) none]
      by (auto simp: f' blank_file_def split: if_splits)
  qed
  moreover have "lru_is ?t L" using s(2) by (rule lru_is_cong) simp_all
  ultimately have "fs_ok ?t" using s(3) by (auto simp: fs_ok_def)
  with inv' show ?thesis by (auto simp: fs_inv_def mem_objects_def f' blank_file_def)
qed

lemma fs_inv_release:
  assumes inv: "fs_inv s" and f: "objects s a = Some f"
    and own: "int (card (cache_slots (fnodes s) a)) < cf_ref_count f"
  shows "fs_inv (snd (unref_object os a s))"
proof -
  from inv obtain L where s: "cache_ok s" "lru_is s L" "tree_ok (rootfolder s) (fnodes s) (next_addr s)"
    by (auto simp: fs_inv_def elim: fs_okE)
  have "wp (unref_object os a) (\<lambda>_. fs_ok) (\<lambda>_. fs_ok) s"
  proof (rule wp_unref_object [OF f])
    fix w
    let ?obj = "(objects s)(a := if cf_ref_count f = 1 then None else Some (f\<lparr>cf_ref_count := cf_ref_count f - 1\<rparr>))"
    let ?t = "s\<lparr>env := w, objects := ?obj\<rparr>"
    have "cache_ok ?t"
      unfolding cache_ok_def
    proof (intro conjI allI impI)
      show "fresh_addr ?t" using s(1) by (simp add: cache_ok_def fresh_addr_def)
      show "cache_slots (fnodes ?t) d = {}" if "objects ?t d = None" for d
      proof (cases "d = a")
        case True
        with that have "cf_ref_count f = 1" by (simp split: if_splits)
        with own have "card (cache_slots (fnodes s) a) = 0" by simp
        moreover have "finite (cache_slots (fnodes s) a)" by (rule finite_cache_slots [OF cache_ok_fresh [OF s(1)]])
        ultimately show ?thesis using True by (simp add: card_eq_0_iff)
      next
        case False
        with that cache_ok_None [OF s(1), of d] show ?thesis by simp
      qed
      show "int (card (cache_slots (fnodes ?t) d)) \<le> cf_ref_count g" if "objects ?t d = Some g" for d g
        using that own cache_ok_Some [OF s(1), of d g] by (auto split: if_splits)
    qed
    moreover have "lru_is ?t L" using s(2) by (rule lru_is_cong) simp_all
    ultimately show "fs_ok ?t" using s(3) by (auto simp: fs_ok_def)
  qed
  moreover have "mem_objects (snd (unref_object os a s))"
    using keepsD' [OF mo_unref_object, of s os a] inv by (simp add: fs_inv_def)
  ultimately show ?thesis
    by (auto simp: wp_def fs_inv_def split: prod.splits sum.splits)
qed

lemma fs_step_inv: "fs_step os s t \<Longrightarrow> fs_inv s \<Longrightarrow> fs_inv t"
proof (induction rule: fs_step.induct)
  case (set_funcs s f)
  then show ?case
    by (auto simp: gp_filesystem_set_funcs_def run_simps fs_inv_def mem_objects_def elim!: fs_ok_cong)
next
  case (list_files s c p)
  then show ?case by (intro keepsD' [of fs_inv] keeps_local_list inv.I_listing)
next
  case (list_folders s c p)
  then show ?case by (intro keepsD' [of fs_inv] keeps_local_list inv.I_listing)
qed (erule (1) fs_inv_new_object fs_inv_fill fs_inv_release | assumption |
     (rule keepsD' [of fs_inv], rule inv.I_public, assumption))+

lemma fs_reach_inv: "fs_reach os s \<Longrightarrow> fs_inv s"
  by (induction rule: fs_reach.induct) (auto intro: fs_inv_new fs_step_inv)


section \<open>A run\<close>

text \<open>
  A system without devices, and a run on it: a fresh filesystem, one file, an object of the front-end that
  becomes the file's cached content.
\<close>

definition null_os :: "'w os" where
  "null_os = \<lparr>os_write = \<lambda>_ bs w. (int (length bs), w), os_read = \<lambda>_ _ w. ((0, []), w),
     os_lseek = \<lambda>_ _ _ w. (0, w), os_ebadf = \<lambda>_. False, os_ftruncate = \<lambda>_ w. (0, w), os_close = \<lambda>_ w. w\<rparr>"

definition demo0 :: "unit fs" where
  "demo0 = blank_fs [] () (-1) None"

definition demo1 :: "unit fs" where
  "demo1 = snd (gp_filesystem_append null_os None ''/'' ''a'' demo0)"

definition demo2 :: "unit fs" where
  "demo2 = demo1\<lparr>objects := (objects demo1)(7 \<mapsto> blank_file GP_FILE_ACCESSTYPE_MEMORY)\<rparr>"

definition demo3 :: "unit fs" where
  "demo3 = snd (gp_filesystem_set_file_noop null_os None ''/'' ''a'' GP_FILE_TYPE_NORMAL 7 demo2)"

lemma demo0_reach: "fs_reach null_os demo0"
  by (rule fs_reach.start [of "[]" "()" "-1" None])
    (simp add: gp_filesystem_new_def blank_fs_def demo0_def CR_def malloc_def run_simps)

lemma demo1_mem: "mem_ok demo1 = [] \<and> objects demo1 7 = None"
  by code_simp

lemma demo2_reach: "fs_reach null_os demo2"
proof -
  have r1: "fs_reach null_os demo1"
    unfolding demo1_def by (rule fs_reach.go [OF demo0_reach fs_step.append])
  have "gp_file_new demo1 = (Inr (blank_file GP_FILE_ACCESSTYPE_MEMORY), demo1)"
    using demo1_mem by (simp add: gp_file_new_def CR_def run_simps)
  then show ?thesis
    unfolding demo2_def using demo1_mem by (intro fs_reach.go [OF r1 fs_step.new_object]) simp_all
qed

lemma demo3_reach: "fs_reach null_os demo3"
  unfolding demo3_def by (rule fs_reach.go [OF demo2_reach fs_step.set_file_noop])

section \<open>Safety of all runs\<close>

text \<open>C1: In every state a program whose file objects are memory objects can reach, through any operations with any arguments, failing allocations and
  failing drivers included, no pointer of the cache dangles: every file node a folder holds exists, and every
  view of a file node points to a live file object whose reference count is at least the number of views that hold it.\<close>
theorem reach_no_dangling:
  assumes "fs_reach os s"
  shows "(\<forall>x\<in>set (nodes (rootfolder s)). fnodes s x \<noteq> None) \<and>
    (\<forall>i x t c. fnodes s i = Some x \<longrightarrow> cached t x = Some c \<longrightarrow>
       (\<exists>f. objects s c = Some f \<and> 0 < cf_ref_count f \<and> int (card (cache_slots (fnodes s) c)) \<le> cf_ref_count f))"
proof -
  from fs_reach_inv [OF assms] have ok: "cache_ok s" "tree_ok (rootfolder s) (fnodes s) (next_addr s)"
    by (auto simp: fs_inv_def elim: fs_okE)
  have "\<exists>f. objects s c = Some f \<and> 0 < cf_ref_count f \<and> int (card (cache_slots (fnodes s) c)) \<le> cf_ref_count f"
    if "fnodes s i = Some x" "cached t x = Some c" for i x t c
  proof -
    have mem: "(i, t) \<in> cache_slots (fnodes s) c" using that by (auto simp: cache_slots_def)
    with cache_ok_None [OF ok(1)] obtain f where f: "objects s c = Some f" by (cases "objects s c") auto
    have "finite (cache_slots (fnodes s) c)" by (rule finite_cache_slots [OF cache_ok_fresh [OF ok(1)]])
    with mem have "0 < card (cache_slots (fnodes s) c)" by (auto simp: card_gt_0_iff)
    with cache_ok_Some [OF ok(1) f] f show ?thesis by auto
  qed
  with ok(2) show ?thesis by (auto simp: tree_ok_def concat_file_lists)
qed

theorem reach_no_dangling_witness:
  "fs_reach null_os demo3 \<and> cached GP_FILE_TYPE_NORMAL (the (fnodes demo3 1)) = Some 7 \<and> objects demo3 7 \<noteq> None"
proof -
  have x: "fnodes demo3 1 \<noteq> None \<and> cached GP_FILE_TYPE_NORMAL (the (fnodes demo3 1)) = Some 7" by code_simp
  then obtain y where y: "fnodes demo3 1 = Some y" by auto
  with x have "cached GP_FILE_TYPE_NORMAL y = Some 7" by simp
  with reach_no_dangling [OF demo3_reach] y have "objects demo3 7 \<noteq> None" by fastforce
  with x demo3_reach show ?thesis by simp
qed

text \<open>C3: In every state a program whose file objects are memory objects can reach the folders are a tree and the files of a folder a set by name: no folder
  and no file node occurs twice, and no two files of a folder have the same name, whatever names the driver listed.\<close>
theorem reach_names_unique:
  assumes "fs_reach os s"
  shows "distinct (ids (rootfolder s)) \<and> distinct (nodes (rootfolder s)) \<and>
    (\<forall>i f. find_folder i (rootfolder s) = Some f \<longrightarrow> distinct (map (\<lambda>x. f_name (the (fnodes s x))) (files f)))"
proof -
  from fs_reach_inv [OF assms] have ok: "fs_ok s" by (simp add: fs_inv_def)
  then have "tree_ok (rootfolder s) (fnodes s) (next_addr s)" by (rule fs_okE)
  moreover have "distinct (map (\<lambda>x. f_name (the (fnodes s x))) (files f))" if "find_folder i (rootfolder s) = Some f" for i f
    using file_names_distinct [OF ok, of i] that by (simp add: file_names_def)
  ultimately show ?thesis by (simp add: tree_ok_def concat_file_lists)
qed

theorem reach_names_unique_witness:
  "fs_reach null_os demo3 \<and> nodes (rootfolder demo3) = [1] \<and> distinct (nodes (rootfolder demo3))"
proof -
  have "nodes (rootfolder demo3) = [1]" by code_simp
  with demo3_reach reach_names_unique [OF demo3_reach] show ?thesis by simp
qed

text \<open>C2: In every state a program whose file objects are memory objects (made by \<open>gp_file_new\<close>, not by \<open>gp_file_new_from_fd\<close> or \<open>gp_file_new_from_handler\<close>) can reach the LRU links form one doubly linked list, from \<open>lru_first\<close> to \<open>lru_last\<close>, whose members
  are file nodes of the tree and outside of which no node has a link; so \<open>gp_filesystem_lru_check\<close> never reports
  a corrupt list and \<open>gp_filesystem_lru_count\<close> counts the members with content.\<close>
theorem reach_lru_list:
  assumes "fs_reach os s"
  shows "\<exists>xs. lru_is s xs \<and> (\<forall>ys. lru_is s ys \<longrightarrow> ys = xs) \<and> set xs \<subseteq> set (nodes (rootfolder s)) \<and>
    gp_filesystem_lru_check s = (Inr (), s) \<and>
    gp_filesystem_lru_count s = (Inr (length (filter (\<lambda>i. has_content (the (fnodes s i))) xs)), s)"
proof -
  from fs_reach_inv [OF assms] have "fs_ok s" by (simp add: fs_inv_def)
  then obtain xs where ok: "cache_ok s" "lru_is s xs" "tree_ok (rootfolder s) (fnodes s) (next_addr s)" by (rule fs_okE)
  have fr: "fresh_addr s" by (rule cache_ok_fresh [OF ok(1)])
  have live: "fnodes s i \<noteq> None" if "i \<in> set xs" for i
  proof -
    from that have "lseg (fnodes s) (hd xs) xs None" using ok(2) by (auto simp: lru_is_def)
    with that show ?thesis using lseg_dom by fastforce
  qed
  then have sub: "set xs \<subseteq> set (nodes (rootfolder s))" using ok(3) by (auto simp: tree_ok_def concat_file_lists)
  have "filter (\<lambda>i. \<exists>x. fnodes s i = Some x \<and> has_content x) xs = filter (\<lambda>i. has_content (the (fnodes s i))) xs"
    using live by (intro filter_cong refl) (metis option.sel not_None_eq)
  with lru_count [OF ok(2) fr]
  have "gp_filesystem_lru_count s = (Inr (length (filter (\<lambda>i. has_content (the (fnodes s i))) xs)), s)" by simp
  moreover have "\<forall>ys. lru_is s ys \<longrightarrow> ys = xs" using lru_is_unique [OF _ ok(2)] by blast
  ultimately show ?thesis using lru_check [OF ok(2) fr] sub ok(2) by (intro exI [of _ xs] conjI)
qed

theorem reach_lru_list_witness:
  "fs_reach null_os demo3 \<and> lru_first demo3 = Some 1 \<and> gp_filesystem_lru_check demo3 = (Inr (), demo3)"
proof -
  have "lru_first demo3 = Some 1" by code_simp
  with demo3_reach reach_lru_list [OF demo3_reach] show ?thesis by auto
qed

end
