(* ===== verification/Gp_Fs_Ops.thy ===== *)
theory Gp_Fs_Ops imports Gp_Fs_Props begin

text \<open>
  What the single operations of the filesystem object guarantee: argument checks, path lookup, listing, numbering,
  adding and removing files, reset, and the cache.
\<close>

section \<open>Argument checks\<close>

lemma CA_bad: "\<not> (\<exists>q. p = CHR ''/'' # q) \<Longrightarrow> CA p = fail GP_ERROR_PATH_NOT_ABSOLUTE"
  by (cases p) (auto simp: CA_def)

lemma CC_None: "CC None = ok ()"
  by (simp add: CC_def)

lemma CC_run: "CC c s = (Inr (), t) \<Longrightarrow> \<exists>w. t = s\<lparr>env := w\<rparr>"
  by (auto simp: CC_def CR_def os_call_def run_simps split: option.splits prod.splits if_splits)
    (metis world.update_convs(1) fs.surjective world.surjective)

text \<open>A path that does not start with a slash is refused with \<open>GP_ERROR_PATH_NOT_ABSOLUTE\<close> by every operation that takes one, before the cache
  or the driver is touched.\<close>
lemma relative_path_refused:
  assumes "\<not> (\<exists>q. p = CHR ''/'' # q)"
  shows "(gp_filesystem_append os None p n s = (Inl GP_ERROR_PATH_NOT_ABSOLUTE, s)) \<and>
    (gp_filesystem_list_files os None p (l, s) = (Inl GP_ERROR_PATH_NOT_ABSOLUTE, (l, s))) \<and>
    (gp_filesystem_list_folders os None p (l, s) = (Inl GP_ERROR_PATH_NOT_ABSOLUTE, (l, s))) \<and>
    (gp_filesystem_delete_file os None p n s = (Inl GP_ERROR_PATH_NOT_ABSOLUTE, s)) \<and>
    (gp_filesystem_delete_all os None p s = (Inl GP_ERROR_PATH_NOT_ABSOLUTE, s)) \<and>
    (gp_filesystem_make_dir os None p n s = (Inl GP_ERROR_PATH_NOT_ABSOLUTE, s)) \<and>
    (gp_filesystem_remove_dir os None p n s = (Inl GP_ERROR_PATH_NOT_ABSOLUTE, s)) \<and>
    (gp_filesystem_put_file os None p n t x s = (Inl GP_ERROR_PATH_NOT_ABSOLUTE, s)) \<and>
    (gp_filesystem_count os None p s = (Inl GP_ERROR_PATH_NOT_ABSOLUTE, s)) \<and>
    (gp_filesystem_name os None p k s = (Inl GP_ERROR_PATH_NOT_ABSOLUTE, s)) \<and>
    (gp_filesystem_number (Suc fuel) os None p n s = (Inl GP_ERROR_PATH_NOT_ABSOLUTE, s)) \<and>
    (gp_filesystem_get_file fuel os None p n t x s = (Inl GP_ERROR_PATH_NOT_ABSOLUTE, s)) \<and>
    (gp_filesystem_get_info os None p n s = (Inl GP_ERROR_PATH_NOT_ABSOLUTE, s)) \<and>
    (gp_filesystem_set_info os None p n i s = (Inl GP_ERROR_PATH_NOT_ABSOLUTE, s)) \<and>
    (gp_filesystem_set_file_noop os None p n t x s = (Inl GP_ERROR_PATH_NOT_ABSOLUTE, s))"
  by (intro conjI) (simp_all add: gp_filesystem_append_def gp_filesystem_list_files_def gp_filesystem_list_folders_def list_folders_by_def
      gp_filesystem_delete_file_def gp_filesystem_delete_all_def gp_filesystem_make_dir_def gp_filesystem_remove_dir_def
      gp_filesystem_put_file_def gp_filesystem_count_def gp_filesystem_name_def gp_filesystem_get_file_def
      gp_filesystem_get_file_impl_def gp_filesystem_get_info_def gp_filesystem_set_info_def gp_filesystem_set_file_noop_def
      CA_bad [OF assms] CC_None on_fs_def CR_def run_simps)

section \<open>Looking up\<close>

text \<open>C5: A path lookup over folders that are clean neither asks the driver nor changes anything, and finds the folder the walk along
  the path's components reaches, or nothing where the walk ends; doubled and trailing slashes make no difference.\<close>
theorem lookup_resolves:
  assumes "distinct (ids (rootfolder s))" and "clean_walk (components p) (rootfolder s)"
  shows "(lookup_folder os c p s = (Inr (map_option fo_id (walk (components p) (rootfolder s))), s)) \<and>
    (components q = components p \<longrightarrow> lookup_folder os c q s = lookup_folder os c p s) \<and>
    ((\<forall>n\<in>set ns. is_name n) \<longrightarrow> components (path_of ns) = ns \<and> components (path_of ns @ ''/'') = ns)"
proof (intro conjI)
  show "lookup_folder os c p s = (Inr (map_option fo_id (walk (components p) (rootfolder s))), s)"
    by (rule lookup_clean [OF assms])
  then show "components q = components p \<longrightarrow> lookup_folder os c q s = lookup_folder os c p s"
    using lookup_clean [OF assms(1), of q] assms(2) by simp
  have "components (path_of ns @ ''/'') = ns" if "\<forall>n\<in>set ns. is_name n"
    using that
  proof (induction ns)
    case Nil
    then show ?case by (simp add: path_of_def components_slash)
  next
    case (Cons n ns)
    have "\<exists>r. path_of ns @ ''/'' = CHR ''/'' # r" by (cases ns) (simp_all add: path_of_def)
    with Cons show ?case
      using components_Cons_name [of n "path_of ns @ ''/''"] by (simp add: path_of_def components_slash)
  qed
  then show "(\<forall>n\<in>set ns. is_name n) \<longrightarrow> components (path_of ns) = ns \<and> components (path_of ns @ ''/'') = ns"
    using components_path_of by blast
qed

definition demo_tree :: folder where
  "demo_tree = Folder 0 ''/'' False False [Folder 2 ''DCIM'' False False [Folder 3 ''100'' True True [] []] []] []"

definition demo_fs :: "unit fs" where
  "demo_fs = demo0\<lparr>rootfolder := demo_tree, next_addr := 4\<rparr>"

theorem lookup_resolves_witness:
  "distinct (ids (rootfolder demo_fs)) \<and> clean_walk (components ''/DCIM//100/'') (rootfolder demo_fs) \<and>
   lookup_folder null_os None ''/DCIM//100/'' demo_fs = (Inr (Some 3), demo_fs)"
proof -
  have d: "distinct (ids (rootfolder demo_fs))" and c: "clean_walk (components ''/DCIM//100/'') (rootfolder demo_fs)"
    and w: "map_option fo_id (walk (components ''/DCIM//100/'') (rootfolder demo_fs)) = Some 3" by code_simp+
  from lookup_resolves [OF d c, of null_os None] w d c show ?thesis by simp
qed

text \<open>The file of a folder that is clean.\<close>

lemma find_names:
  assumes "fs_ok s" and "find_folder i (rootfolder s) = Some f"
  shows "find (\<lambda>x. name_at (fnodes s) x = Some n) (files f) = find (\<lambda>x. f_name (the (fnodes s x)) = n) (files f)"
proof (rule find_cong)
  fix x assume "x \<in> set (files f)"
  then have "fnodes s x \<noteq> None" using fs_ok_names(2) [OF assms] by blast
  then show "(name_at (fnodes s) x = Some n) = (f_name (the (fnodes s x)) = n)" by auto
qed simp

lemma lookup_file_run:
  assumes ok: "fs_ok s" and p: "leads (rootfolder s) p i" and f: "find_folder i (rootfolder s) = Some f" and cl: "\<not> files_dirty f"
  shows "lookup_folder_file os c p n s = (case find (\<lambda>x. f_name (the (fnodes s x)) = n) (files f) of
     None \<Rightarrow> (Inl GP_ERROR_FILE_NOT_FOUND, s) | Some x \<Rightarrow> (Inr (i, x), s))"
proof -
  have d: "deref_folder i s = (Inr f, s)" using f by (simp add: deref_folder_def)
  have n: "find_node n (files f) s = (Inr (find (\<lambda>x. f_name (the (fnodes s x)) = n) (files f)), s)"
    using find_node_run [where n = n and s = s and xs = "files f"] fs_ok_names(2) [OF ok f] unfolding find_names [OF ok f] by blast
  show ?thesis
    unfolding lookup_folder_file_def using lookup_leads [OF p, of os c] d cl n
    by (simp add: run_simps CR_def split: option.split)
qed

section \<open>Listing\<close>

lemma wp_done: "wp m (\<lambda>_. Q) (\<lambda>_ _. False) s \<Longrightarrow> \<exists>t. m s = (Inr (), t) \<and> Q t"
  by (auto simp: wp_def split: prod.splits sum.splits)

lemma wp_error: "wp m (\<lambda>_ _. False) E s \<Longrightarrow> \<exists>e t. m s = (Inl e, t) \<and> E e t"
  by (auto simp: wp_def split: prod.splits sum.splits)

lemma new_list_ok: "list_wf \<lparr>used = 0, max_entries = 0, entry = [], l_ref_count = 1\<rparr>"
  by (simp add: list_wf_def)

text \<open>C7: Listing a dirty folder returns the names the driver gave, in its order, and what is listed again comes from the cache: the
  same names without a call of the driver.\<close>
theorem list_files_cached:
  assumes r: "fs_reach os s" and p: "leads (rootfolder s) p i" "p = CHR ''/'' # q" and m: "mem_ok s = []"
    and d: "is_dirty s i" and g: "file_list_func (funcs s) = Some g" "\<And>w. fst (g p w) = (ret, ns)"
    and ret: "0 \<le> ret" and ns: "distinct ns" and wf: "list_wf l"
  shows "\<exists>l' t l'' u. gp_filesystem_list_files os None p (Some l, s) = (Inr (), (Some l', t)) \<and> list_abs l' = entries ns \<and>
    gp_filesystem_list_files os None p (Some l', t) = (Inr (), (Some l'', u)) \<and> list_abs l'' = entries ns \<and> env u = env t"
proof -
  from fs_reach_inv [OF r] have ok: "fs_ok s" by (simp add: fs_inv_def)
  have w: "wp (gp_filesystem_list_files os None p)
      (\<lambda>_ u. \<exists>l' t. u = (Some l', t) \<and> list_wf l' \<and> list_abs l' = entries ns \<and> stays s t \<and> file_names t i = ns \<and> \<not> is_dirty t i)
      (\<lambda>_ _. False) (Some l, s)"
    by (rule wp_list_files_dirty [OF ok p m d g ns wf]) (use ret in auto)
  from wp_done [OF w] obtain l' t where t: "gp_filesystem_list_files os None p (Some l, s) = (Inr (), (Some l', t))" "list_wf l'"
    "list_abs l' = entries ns" "stays s t" "file_names t i = ns" "\<not> is_dirty t i" by blast
  from t(4) p(1) m have t': "fs_ok t" "leads (rootfolder t) p i" "mem_ok t = []" by (auto simp: stays_def)
  have w': "wp (gp_filesystem_list_files os None p) (\<lambda>_ u. \<exists>l'' v. u = (Some l'', v) \<and> list_abs l'' = entries ns \<and> env v = env t)
      (\<lambda>_ _. False) (Some l', t)"
    by (rule wp_list_files_clean [OF t'(1,2) p(2) t'(3) t(6,2)]) (use t(5) in auto)
  from wp_done [OF w'] t(1,3) show ?thesis by blast
qed

text \<open>A driver whose listing gives two names, or fails.\<close>

definition lister :: "int \<Rightarrow> nat CameraFilesystemFuncs" where
  "lister ret = no_funcs\<lparr>file_list_func := Some (\<lambda>p w. ((ret, if ret < 0 then [] else [''a'', ''b'']), Suc w))\<rparr>"

definition lister_fs :: "int \<Rightarrow> nat fs" where
  "lister_fs ret = snd (gp_filesystem_set_funcs (lister ret) (blank_fs [] 0 (-1) None))"

lemma lister_reach: "fs_reach null_os (lister_fs ret)"
proof -
  have "fs_reach null_os (blank_fs [] 0 (-1) None :: nat fs)"
    by (rule fs_reach.start [of "[]" "0" "-1" None])
      (simp add: gp_filesystem_new_def blank_fs_def CR_def malloc_def run_simps)
  then show ?thesis unfolding lister_fs_def by (rule fs_reach.go [OF _ fs_step.set_funcs])
qed

lemma lister_fs_facts:
  "leads (rootfolder (lister_fs ret)) ''/'' 0" "mem_ok (lister_fs ret) = []" "is_dirty (lister_fs ret) 0"
  "file_list_func (funcs (lister_fs ret)) = Some (\<lambda>p w. ((ret, if ret < 0 then [] else [''a'', ''b'']), Suc w))"
  by (simp_all add: lister_fs_def lister_def gp_filesystem_set_funcs_def run_simps blank_fs_def leads_def is_dirty_def
      components_slash no_funcs_def)

theorem list_files_cached_witness:
  "fs_reach null_os (lister_fs 0) \<and> list_wf demo_list \<and>
   (\<exists>l' t. gp_filesystem_list_files null_os None ''/'' (Some demo_list, lister_fs 0) = (Inr (), (Some l', t)) \<and>
      list_abs l' = [(Some ''a'', None), (Some ''b'', None)])"
proof -
  have "\<exists>l' t l'' u. gp_filesystem_list_files null_os None ''/'' (Some demo_list, lister_fs 0) = (Inr (), (Some l', t)) \<and>
    list_abs l' = entries [''a'', ''b''] \<and>
    gp_filesystem_list_files null_os None ''/'' (Some l', t) = (Inr (), (Some l'', u)) \<and> list_abs l'' = entries [''a'', ''b''] \<and> env u = env t"
    by (rule list_files_cached [where ret = 0 and i = 0 and q = "[]" and g = "\<lambda>p w. ((0, if (0 :: int) < 0 then [] else [''a'', ''b'']), Suc w)"])
      (use demo_list_wf lister_reach lister_fs_facts in simp_all)
  with lister_reach demo_list_wf show ?thesis by (auto simp: entries_def)
qed

text \<open>A listing that fails is remembered as success: \<open>files_dirty\<close> is cleared before the driver is asked, so when it reports an error the folder stays
  clean and empty, and the next listing succeeds with no files and no call of the driver.\<close>
lemma failed_listing_forgotten:
  assumes r: "fs_reach os s" and p: "leads (rootfolder s) p i" "p = CHR ''/'' # q" and m: "mem_ok s = []"
    and d: "is_dirty s i" and g: "file_list_func (funcs s) = Some g" "\<And>w. fst (g p w) = (ret, ns)"
    and ret: "ret < 0" and ns: "distinct ns" and wf: "list_wf l"
  shows "\<exists>l' t l'' u. gp_filesystem_list_files os None p (Some l, s) = (Inl ret, (Some l', t)) \<and>
    gp_filesystem_list_files os None p (Some l', t) = (Inr (), (Some l'', u)) \<and> list_abs l'' = [] \<and> env u = env t"
proof -
  from fs_reach_inv [OF r] have ok: "fs_ok s" by (simp add: fs_inv_def)
  have w: "wp (gp_filesystem_list_files os None p) (\<lambda>_ _. False)
      (\<lambda>e u. \<exists>l' t. e = ret \<and> u = (Some l', t) \<and> list_wf l' \<and> stays s t \<and> file_names t i = [] \<and> \<not> is_dirty t i) (Some l, s)"
    by (rule wp_list_files_dirty [OF ok p m d g ns wf]) (use ret in auto)
  from wp_error [OF w] obtain l' t where t: "gp_filesystem_list_files os None p (Some l, s) = (Inl ret, (Some l', t))" "list_wf l'"
    "stays s t" "file_names t i = []" "\<not> is_dirty t i" by blast
  from t(3) p(1) m have t': "fs_ok t" "leads (rootfolder t) p i" "mem_ok t = []" by (auto simp: stays_def)
  have w': "wp (gp_filesystem_list_files os None p) (\<lambda>_ u. \<exists>l'' v. u = (Some l'', v) \<and> list_abs l'' = [] \<and> env v = env t)
      (\<lambda>_ _. False) (Some l', t)"
    by (rule wp_list_files_clean [OF t'(1,2) p(2) t'(3) t(5,2)]) (use t(4) in \<open>auto simp: entries_def\<close>)
  from wp_done [OF w'] t(1) show ?thesis by blast
qed

text \<open>A listing of the root's folders, as a lookup below the root runs it on a root without folders.\<close>

lemma path_below_root:
  assumes "is_name n"
  shows "skip_slashes (CHR ''/'' # n) = n \<and> upto_slash n = n \<and> from_slash n = [] \<and> takeWhile (\<lambda>x. x = CHR ''/'') (CHR ''/'' # n) = ''/'' \<and> n \<noteq> []"
  using assms by (cases n) (auto simp: is_name_def skip_slashes_def upto_slash_def from_slash_def takeWhile_eq_all_conv dropWhile_eq_Nil_conv)

lemma lookup_loop_root: "lookup_loop os c pre ''/'' r = ok (Some r)"
  by (subst lookup_loop.simps) (simp add: skip_slashes_def)

definition list_root :: "'w os \<Rightarrow> ('w, unit) fsm" where
  "list_root os = local_list (catching gp_list_new (\<lambda>x. case x of Inl _ \<Rightarrow> ok () | Inr _ \<Rightarrow>
     CR (ignoring (list_folders_by (gets (\<lambda>s. Some (fo_id (rootfolder s)))) os None ''/'')) (\<lambda>_. ignoring gp_list_free)))"

lemma CR_gets_ok: "CR (gets f) (\<lambda>x. ok (g x)) = gets (\<lambda>s. g (f s))"
  by (rule ext) (simp add: CR_def run_simps)

lemma lookup_below_root:
  assumes n: "is_name n" and r: "rootfolder s = Folder r m b True ds xs"
    and t: "list_root os s = (Inr (), t)" and r2: "rootfolder t = Folder r m b' d' fs xs'"
  shows "lookup_folder os None (CHR ''/'' # n) s = (Inr (map_option fo_id (find (\<lambda>g. fo_name g = n) fs)), t)"
proof -
  from n have p: "skip_slashes (CHR ''/'' # n) = n" "upto_slash n = n" "from_slash n = []" "takeWhile (\<lambda>x. x = CHR ''/'') n = []" "n \<noteq> []"
    using path_below_root [OF n] by simp_all
  from r have d: "gets (\<lambda>s. fo_id (rootfolder s)) s = (Inr r, s)" "deref_folder r s = (Inr (Folder r m b True ds xs), s)"
    by (simp_all add: run_simps deref_folder_def)
  from r2 have d2: "deref_folder r t = (Inr (Folder r m b' d' fs xs'), t)" by (simp add: deref_folder_def)
  have l: "local_list (catching gp_list_new (\<lambda>x. case x of Inl _ \<Rightarrow> ok () | Inr _ \<Rightarrow> CR (ignoring (list_folders_by
      (CR (gets (\<lambda>s. fo_id (rootfolder s))) (\<lambda>root. lookup_loop os None [] ''/'' root)) os None ''/'')) (\<lambda>_. ignoring gp_list_free))) s = (Inr (), t)"
    using t by (simp only: list_root_def lookup_loop_root CR_gets_ok)
  show ?thesis
    by (simp add: r lookup_folder_def d lookup_loop.simps [of os None "[]" "CHR ''/'' # n"] p l d2 run_simps split: option.split)
qed


lemma list_root_fails:
  assumes m: "mem_ok s = []" and r: "rootfolder s = Folder r m b True [] xs" and g: "folder_list_func (funcs s) = Some g"
    and gf: "g ''/'' (env s) = ((e, []), w)" "e < 0" "e \<noteq> UNDEFINED"
  shows "list_root os s = (Inr (), s\<lparr>env := w\<rparr>)"
  using assms
  by (simp add: list_root_def local_list_def catching_def attempt_def gp_list_new_def alloc_def put_list_def run_simps
      ignoring_def list_folders_by_def CC_None CA_def on_fs_def gp_list_reset_def check_list_def list_folders_in_def
      deref_folder_def list_call_def os_call_def gp_list_free_def CR_def)


lemma list_root_lists:
  assumes m: "mem_ok s = []" and r: "rootfolder s = Folder r m b True [Folder a n True True [] []] xs" and g: "folder_list_func (funcs s) = Some g"
    and gf: "g ''/'' (env s) = ((GP_OK, [n]), w)"
  shows "list_root os s = (Inr (), s\<lparr>env := w, next_addr := Suc (next_addr s),
     rootfolder := Folder r m b False [Folder (next_addr s) n True True [] []] xs\<rparr>)"
proof -
  have le: "\<not> (GP_OK :: int) < 0" by (simp add: GP_OK_def)
  show ?thesis
  using assms
  by (simp add: le list_root_def local_list_def catching_def attempt_def gp_list_new_def alloc_def put_list_def run_simps
      ignoring_def list_folders_by_def CC_None CA_def on_fs_def gp_list_reset_def check_list_def list_folders_in_def
      deref_folder_def list_call_def os_call_def gp_list_free_def CR_def delete_all_folders_by_def recurse_delete_folder_def
      write_folder_def each_name_def gp_list_count_def gp_list_get_name_def append_folder_one_def new_addr_def set_folders_def
      set_folders_dirty_def gp_list_append_def grow_def dup_field_def set_field_def raw_entry_def check_index_range_def guard_def)
qed


lemma list_empty_folder:
  assumes m: "mem_ok s = []" and r: "rootfolder s = Folder r m b False [Folder a n True d [] []] xs" and n: "is_name n" and a: "a \<noteq> r"
    and h: "file_list_func (funcs s) = Some h" "h (CHR ''/'' # n) (env s) = ((GP_OK, []), w)"
    and l: "lookup_folder os None (CHR ''/'' # n) s0 = (Inr (Some a), s)" and m0: "mem_ok s0 = []"
  shows "local_list (CR gp_list_new (\<lambda>_. catching (gp_filesystem_list_files os None (CHR ''/'' # n)) (\<lambda>ret.
      CR (ignoring gp_list_free) (\<lambda>_. case ret of Inl e \<Rightarrow> fail e | Inr _ \<Rightarrow> ok ())))) s0 =
    (Inr (), s\<lparr>env := w, rootfolder := Folder r m b False [Folder a n False d [] []] xs\<rparr>)"
proof -
  have le: "\<not> (GP_OK :: int) < 0" by (simp add: GP_OK_def)
  show ?thesis
  using assms
  by (simp add: le local_list_def catching_def attempt_def gp_list_new_def alloc_def put_list_def run_simps gp_filesystem_list_files_def
      ignoring_def CC_None CA_def on_fs_def gp_list_reset_def check_list_def list_files_in_def delete_all_files_def set_files_def set_files_dirty_def
      deref_folder_def list_call_def os_call_def gp_list_free_def CR_def write_folder_def each_name_def gp_list_count_def)
qed


lemma append_folder_below_root:
  assumes m: "mem_ok s = []" and n: "is_name n" and r: "rootfolder s = Folder r m b d [] xs"
  shows "append_folder None (CHR ''/'' # n) s = (Inr (next_addr s),
     s\<lparr>next_addr := Suc (next_addr s), rootfolder := Folder r m b d [Folder (next_addr s) n True True [] []] xs\<rparr>)"
proof -
  from n have p: "skip_slashes (CHR ''/'' # n) = n" "upto_slash n = n" "from_slash n = []" "n \<noteq> []"
    using path_below_root [OF n] by simp_all
  show ?thesis
    by (simp add: append_folder_def CC_None CA_def run_simps append_to_folder.simps [of r "CHR ''/'' # n"] p r m deref_folder_def
        append_folder_one_def new_addr_def write_folder_def set_folders_def CR_def)
qed

text \<open>C6: A lookup can hand out a folder that no longer exists. On any reachable filesystem whose root has not been listed and has no folders yet, a driver
  whose listing of the root's folders first fails and then, asked again, lists one folder makes \<open>gp_filesystem_append\<close> of a file into that folder use freed memory: the folder that \<open>append_folder\<close> has just
  created is deleted by the second listing, and the pointer to it is read afterwards.\<close>
theorem append_use_after_free:
  assumes reach: "fs_reach os s" and mem: "mem_ok s = []" and n: "is_name n"
    and root: "folders_dirty (rootfolder s)" "folders (rootfolder s) = []"
    and g: "folder_list_func (funcs s) = Some g" "g ''/'' (env s) = ((e, []), w1)" "e < 0" "e \<noteq> UNDEFINED" "g ''/'' w1 = ((GP_OK, [n]), w2)"
    and h: "file_list_func (funcs s) = Some h" "h (CHR ''/'' # n) w2 = ((GP_OK, []), w3)"
  shows "fst (gp_filesystem_append os None (CHR ''/'' # n) x s) = Inl UNDEFINED"
proof -
  obtain r m b fs xs d where "rootfolder s = Folder r m b d fs xs" by (cases "rootfolder s")
  with root have r: "rootfolder s = Folder r m b True [] xs" by simp
  from fs_reach_inv [OF reach] have "tree_ok (rootfolder s) (fnodes s) (next_addr s)" by (auto simp: fs_inv_def elim: fs_okE)
  with r have ra: "r < next_addr s" by (simp add: tree_ok_def)
  let ?a = "next_addr s"
  let ?s1 = "s\<lparr>env := w1\<rparr>"
  let ?s2 = "?s1\<lparr>next_addr := Suc ?a, rootfolder := Folder r m b True [Folder ?a n True True [] []] xs\<rparr>"
  let ?s3 = "?s2\<lparr>env := w2, next_addr := Suc (Suc ?a), rootfolder := Folder r m b False [Folder (Suc ?a) n True True [] []] xs\<rparr>"
  have l1: "lookup_folder os None (CHR ''/'' # n) s = (Inr None, ?s1)"
    using lookup_below_root [OF n r list_root_fails [OF mem r g(1-4)]] r by simp
  have ap: "append_folder None (CHR ''/'' # n) ?s1 = (Inr ?a, ?s2)"
    using append_folder_below_root [of ?s1 n r m b True xs] mem n r by simp
  have l2: "lookup_folder os None (CHR ''/'' # n) ?s2 = (Inr (Some (Suc ?a)), ?s3)"
    using lookup_below_root [OF n _ list_root_lists [of ?s2 r m b ?a n xs g w2]] mem g by simp
  have ls: "local_list (CR gp_list_new (\<lambda>_. catching (gp_filesystem_list_files os None (CHR ''/'' # n)) (\<lambda>ret.
      CR (ignoring gp_list_free) (\<lambda>_. case ret of Inl e \<Rightarrow> fail e | Inr _ \<Rightarrow> ok ())))) ?s2 =
    (Inr (), ?s3\<lparr>env := w3, rootfolder := Folder r m b False [Folder (Suc ?a) n False True [] []] xs\<rparr>)" (is "_ = (_, ?s4)")
    using list_empty_folder [of ?s3 r m b "Suc ?a" n True xs h w3 os ?s2] l2 mem n ra h by simp
  have d: "deref_folder ?a ?s2 = (Inr (Folder ?a n True True [] []), ?s2)" using ra by (simp add: deref_folder_def)
  have u: "internal_append ?a x ?s4 = (Inl UNDEFINED, ?s4)" using ra by (simp add: internal_append_def deref_folder_def)
  have c: "catching (internal_append ?a x) k ?s4 = (Inl UNDEFINED, ?s4)" for k :: "int + unit \<Rightarrow> ('a, unit) fsm"
    using u by (simp add: catching_def attempt_def run_simps)
  show ?thesis using l1 ap d ls c by (simp add: gp_filesystem_append_def CC_None CA_def run_simps)
qed

definition demo_again :: "nat CameraFilesystemFuncs" where
  "demo_again = no_funcs\<lparr>folder_list_func := Some (\<lambda>p w. if w = 0 then ((GP_ERROR, []), 1) else ((GP_OK, [''a'']), w)),
     file_list_func := Some (\<lambda>p w. ((GP_OK, []), w))\<rparr>"

theorem append_use_after_free_witness:
  "fst (gp_filesystem_append null_os None ''/a'' ''x'' (snd (gp_filesystem_set_funcs demo_again (blank_fs [] 0 (-1) None)))) = Inl UNDEFINED"
proof -
  let ?s = "blank_fs [] 0 (-1) None :: nat fs"
  have "fs_reach null_os ?s" by (rule fs_reach.start [of "[]" 0 "-1" None]) (simp add: gp_filesystem_new_def blank_fs_def CR_def malloc_def run_simps)
  from fs_reach.go [OF this fs_step.set_funcs] have r: "fs_reach null_os (snd (gp_filesystem_set_funcs demo_again ?s))" .
  show ?thesis
    by (rule append_use_after_free [OF r, where n = "''a''" and g = "\<lambda>p w. if w = 0 then ((GP_ERROR, []), 1) else ((GP_OK, [''a'']), w)" and h = "\<lambda>p w. ((GP_OK, []), w)" and e = GP_ERROR and ?w1.0 = 1 and ?w2.0 = 1 and ?w3.0 = 1])
      (simp_all add: gp_filesystem_set_funcs_def blank_fs_def demo_again_def is_name_def GP_ERROR_def UNDEFINED_def run_simps)
qed

section \<open>Adding and numbering files\<close>

lemma nth_file_run: "nth_file k xs = (if 0 \<le> k \<and> k < int (length xs) then Some (xs ! nat k) else None)"
proof (induction k xs rule: nth_file.induct)
  case (2 k x xs)
  show ?case
  proof (cases "k \<le> 0")
    case True
    with 2 show ?thesis by (auto simp: nth_Cons')
  next
    case False
    then have "nat k = Suc (nat (k - 1))" by linarith
    with False 2 show ?thesis by auto
  qed
qed simp

lemma file_index_run:
  assumes "\<And>x. x \<in> set xs \<Longrightarrow> fnodes s x \<noteq> None" and "distinct (map (\<lambda>x. f_name (the (fnodes s x))) xs)" and "k < length xs"
  shows "file_index (f_name (the (fnodes s (xs ! k)))) num xs s = (Inr (Some (num + k)), s)"
  using assms
proof (induction xs arbitrary: k num)
  case (Cons x xs)
  obtain y where y: "fnodes s x = Some y" using Cons.prems(1) [of x] by auto
  show ?case
  proof (cases k)
    case 0
    with y show ?thesis by (simp add: CR_def deref_file_def run_simps)
  next
    case (Suc j)
    with Cons.prems have j: "xs ! j \<in> set xs" by simp
    have "f_name y \<notin> (\<lambda>x. f_name (the (fnodes s x))) ` set xs" using Cons.prems(2) y by simp
    with j have "f_name (the (fnodes s (xs ! j))) \<noteq> f_name y" by (metis imageI)
    with Suc y Cons.IH [of j "num + 1"] Cons.prems show ?thesis
      by (auto simp: CR_def deref_file_def run_simps)
  qed
qed simp

text \<open>Counting and numbering agree with the listed files of a folder: \<open>gp_filesystem_count\<close> is how many there are, \<open>gp_filesystem_name\<close> of a
  number within the range is the file at that place and \<open>gp_filesystem_number\<close> of its name is the number again; a number
  outside the range is \<open>GP_ERROR_FILE_NOT_FOUND\<close>. None of them changes anything.\<close>
lemma number_name_inverse:
  assumes r: "fs_reach os s" and p: "leads (rootfolder s) p i" "p = CHR ''/'' # q"
  shows "(gp_filesystem_count os None p s = (Inr (length (file_names s i)), s)) \<and>
    (k < length (file_names s i) \<longrightarrow>
       gp_filesystem_name os None p (int k) s = (Inr (file_names s i ! k), s) \<and>
       gp_filesystem_number (Suc fuel) os None p (file_names s i ! k) s = (Inr k, s)) \<and>
    (z < 0 \<or> int (length (file_names s i)) \<le> z \<longrightarrow> gp_filesystem_name os None p z s = (Inl GP_ERROR_FILE_NOT_FOUND, s))"
proof (intro conjI)
  from fs_reach_inv [OF r] have ok: "fs_ok s" by (simp add: fs_inv_def)
  from leads_find [OF p(1)] obtain f where f: "find_folder i (rootfolder s) = Some f" ..
  have live: "\<And>x. x \<in> set (files f) \<Longrightarrow> fnodes s x \<noteq> None" using fs_ok_names(2) [OF ok f] by blast
  have fn: "file_names s i = map (\<lambda>x. f_name (the (fnodes s x))) (files f)" using f by (simp add: file_names_def)
  have d: "deref_folder i s = (Inr f, s)" using f by (simp add: deref_folder_def)
  have CA: "CA p = ok ()" by (simp add: CA_def p(2))
  note run = lookup_leads [OF p(1), of os None] d
  show "gp_filesystem_count os None p s = (Inr (length (file_names s i)), s)"
    unfolding gp_filesystem_count_def CA CC_None using run by (simp add: run_simps fn)
  show "z < 0 \<or> int (length (file_names s i)) \<le> z \<longrightarrow> gp_filesystem_name os None p z s = (Inl GP_ERROR_FILE_NOT_FOUND, s)"
    unfolding gp_filesystem_name_def CA CC_None using run by (auto simp: run_simps fn nth_file_run)
  show "k < length (file_names s i) \<longrightarrow>
      gp_filesystem_name os None p (int k) s = (Inr (file_names s i ! k), s) \<and>
      gp_filesystem_number (Suc fuel) os None p (file_names s i ! k) s = (Inr k, s)"
  proof
    assume k: "k < length (file_names s i)"
    then have k': "k < length (files f)" by (simp add: fn)
    then have x: "fnodes s (files f ! k) \<noteq> None" using live by simp
    have "distinct (map (\<lambda>x. f_name (the (fnodes s x))) (files f))" using file_names_distinct [OF ok, of i] by (simp add: fn)
    from file_index_run [OF live this k', of 0] have
      i: "file_index (f_name (the (fnodes s (files f ! k)))) 0 (files f) s = (Inr (Some k), s)" by simp
    have "gp_filesystem_name os None p (int k) s = (Inr (file_names s i ! k), s)"
      unfolding gp_filesystem_name_def CA CC_None using run k' x by (auto simp: run_simps fn nth_file_run deref_file_def CR_def)
    moreover have "gp_filesystem_number (Suc fuel) os None p (file_names s i ! k) s = (Inr k, s)"
      using run i k' by (simp add: CA CC_None run_simps fn)
    ultimately show "gp_filesystem_name os None p (int k) s = (Inr (file_names s i ! k), s) \<and>
      gp_filesystem_number (Suc fuel) os None p (file_names s i ! k) s = (Inr k, s)" ..
  qed
qed

lemma demo3_facts:
  "leads (rootfolder demo3) ''/'' 0" "file_names demo3 0 = [''a'']" "mem_ok demo3 = []" "is_dirty demo3 0 = False"
proof -
  have r: "rootfolder demo3 = Folder 0 ''/'' False True [] [1]" by code_simp
  show "leads (rootfolder demo3) ''/'' 0" by (simp add: r leads_def components_slash)
  have "map_option f_name (fnodes demo3 1) = Some ''a''" by code_simp
  then show "file_names demo3 0 = [''a'']" by (auto simp: r file_names_def)
  show "mem_ok demo3 = []" by code_simp
  show "is_dirty demo3 0 = False" by (simp add: r is_dirty_def)
qed

text \<open>\<open>gp_filesystem_append\<close> to a folder whose files are known adds the name at the end, once: a name that is there is left where it is, and the call
  succeeds either way, without asking the driver.\<close>
lemma append_adds_once:
  assumes r: "fs_reach os s" and p: "leads (rootfolder s) p i" "p = CHR ''/'' # q" and m: "mem_ok s = []" and d: "\<not> is_dirty s i"
  shows "\<exists>t. gp_filesystem_append os None p n s = (Inr (), t) \<and> env t = env s \<and>
    file_names t i = (if n \<in> set (file_names s i) then file_names s i else file_names s i @ [n]) \<and>
    gp_filesystem_append os None p n t = (Inr (), t)"
proof -
  from fs_reach_inv [OF r] have ok: "fs_ok s" by (simp add: fs_inv_def)
  have CA: "CA p = ok ()" by (simp add: CA_def p(2))
  have twice: "gp_filesystem_append os None p n t = (Inr (), t)"
    if ok: "fs_ok t" and p: "leads (rootfolder t) p i" and d: "\<not> is_dirty t i" and n: "n \<in> set (file_names t i)" for t
  proof -
    from leads_find [OF p] obtain f where f: "find_folder i (rootfolder t) = Some f" ..
    with d have fd: "deref_folder i t = (Inr f, t)" "\<not> files_dirty f" by (simp_all add: deref_folder_def is_dirty_def)
    from internal_append_exists [OF ok f n] lookup_leads [OF p, of os None] fd show ?thesis
      by (simp add: gp_filesystem_append_def CA CC_None run_simps catching_def attempt_def UNDEFINED_def GP_ERROR_FILE_EXISTS_def)
  qed
  show ?thesis
  proof (cases "n \<in> set (file_names s i)")
    case True
    with twice [OF ok p(1) d True] show ?thesis by auto
  next
    case False
    from leads_find [OF p(1)] obtain f where f: "find_folder i (rootfolder s) = Some f" ..
    with d have fd: "deref_folder i s = (Inr f, s)" "\<not> files_dirty f" by (simp_all add: deref_folder_def is_dirty_def)
    from wp_done [OF wp_internal_append [OF ok f m False]] obtain t where
      t: "internal_append i n s = (Inr (), t)" "stays s t" "env t = env s" "file_names t i = file_names s i @ [n]" "is_dirty t i = is_dirty s i"
      by blast
    have "gp_filesystem_append os None p n s = (Inr (), t)"
      using t(1) lookup_leads [OF p(1), of os None] fd
      by (simp add: gp_filesystem_append_def CA CC_None run_simps catching_def attempt_def)
    moreover have "gp_filesystem_append os None p n t = (Inr (), t)"
      using t d p(1) by (intro twice) (auto simp: stays_def)
    ultimately show ?thesis using t False by auto
  qed
qed

section \<open>Removing files\<close>

lemma wp_delete_file_frame:
  assumes ok: "fs_ok s" and f: "find_folder i (rootfolder s) = Some f" and x: "x \<in> set (files f)"
  shows "wp (delete_file os i x) (\<lambda>_ t. rootfolder t = upd_folder i (\<lambda>f. set_files (remove1 x (files f)) f) (rootfolder s) \<and>
      (\<forall>j. j \<noteq> x \<longrightarrow> map_option core (fnodes t j) = map_option core (fnodes s j)) \<and> fnodes t x = None \<and>
      mem_ok t = mem_ok s \<and> funcs t = funcs s) (\<lambda>_ _. False) s"
proof -
  from ok obtain L where s: "cache_ok s" "lru_is s L" by (rule fs_okE)
  from fs_ok_names(2) [OF ok f x] obtain n where n: "fnodes s x = Some n" by auto
  show ?thesis
    unfolding delete_file_def wp_CR
  proof (rule wp_mono [OF wp_remove_one [OF s n]])
    fix a t
    assume t: "cache_ok t \<and> lru_is t (filter (\<lambda>i. i \<noteq> x) L) \<and> purged s t {} \<and> fnodes t x \<noteq> None"
    then obtain m where m: "fnodes t x = Some m" and ck: "cache_ok t" and p: "purged s t {}" by auto
    show "wp (unref_all_cached os x) (\<lambda>a. wp (deref_folder i) (\<lambda>a. wp (if x \<notin> set (files a) then fail GP_ERROR
        else CR (write_folder i (\<lambda>f. set_files (remove1 x (files f)) f)) (\<lambda>_. free_file x))
        (\<lambda>_ t. rootfolder t = upd_folder i (\<lambda>f. set_files (remove1 x (files f)) f) (rootfolder s) \<and>
          (\<forall>j. j \<noteq> x \<longrightarrow> map_option core (fnodes t j) = map_option core (fnodes s j)) \<and> fnodes t x = None \<and>
          mem_ok t = mem_ok s \<and> funcs t = funcs s) (\<lambda>_ _. False)) (\<lambda>_ _. False)) (\<lambda>_ _. False) t"
      using f x p by (intro wp_unref_all_cached [OF ck m]) (simp add: purged_def)
  qed simp
qed

lemma wp_delete_file:
  assumes ok: "fs_ok s" and f: "find_folder i (rootfolder s) = Some f" and x: "x \<in> set (files f)"
  shows "wp (delete_file os i x) (\<lambda>_ t. stays s t \<and> file_names t i = remove1 (f_name (the (fnodes s x))) (file_names s i) \<and>
      is_dirty t i = is_dirty s i) (\<lambda>_ _. False) s"
proof -
  let ?u = "\<lambda>f. set_files (remove1 x (files f)) f"
  from wp_done [OF wp_delete_file_frame [OF assms]] obtain t where run: "delete_file os i x s = (Inr (), t)"
    and t: "rootfolder t = upd_folder i ?u (rootfolder s)"
      "\<And>j. j \<noteq> x \<Longrightarrow> map_option core (fnodes t j) = map_option core (fnodes s j)" "mem_ok t = mem_ok s" "funcs t = funcs s"
    by blast
  have okt: "fs_ok t" using keepsD [OF keeps_delete_file ok run] .
  have ft: "find_folder i (rootfolder t) = Some (?u f)" unfolding t(1) by (rule find_upd [OF f]) simp
  have d: "distinct (files f)" using fs_ok_names(1) [OF ok f] by (simp add: distinct_map)
  have nm: "f_name (the (fnodes t j)) = f_name (the (fnodes s j))" if "j \<noteq> x" "j \<in> set (files f)" for j
  proof -
    have "name_at (fnodes t) j = name_at (fnodes s) j" using t(2) [OF that(1)] by (rule core_name)
    then show ?thesis using fs_ok_names(2) [OF ok f that(2)] by auto
  qed
  have "map (\<lambda>y. f_name (the (fnodes t y))) (remove1 x (files f)) = map (\<lambda>y. f_name (the (fnodes s y))) (remove1 x (files f))"
    using d nm by (intro map_cong) (auto simp: distinct_remove1_removeAll)
  also have "\<dots> = remove1 (f_name (the (fnodes s x))) (map (\<lambda>y. f_name (the (fnodes s y))) (files f))"
  proof -
    have inj: "inj_on (\<lambda>y. f_name (the (fnodes s y))) (set (files f))"
      using file_names_distinct [OF ok, of i] f by (simp add: file_names_def distinct_map)
    have "map g (remove1 x xs) = remove1 (g x) (map g xs)" if "inj_on g (set xs)" "x \<in> set xs" for g :: "nat \<Rightarrow> string" and xs
      using that by (induction xs) (auto simp: inj_on_def)
    from this [OF inj x] show ?thesis .
  qed
  finally have "file_names t i = remove1 (f_name (the (fnodes s x))) (file_names s i)"
    using ft f by (simp add: file_names_def)
  moreover have "stays s t" using okt t by (auto simp: stays_def intro: leads_upd)
  moreover have "is_dirty t i = is_dirty s i" using ft f by (simp add: is_dirty_def)
  ultimately show ?thesis using run by (simp add: wp_def)
qed

text \<open>The file of a clean folder by name.\<close>

lemma lookup_file_found:
  assumes ok: "fs_ok s" and p: "leads (rootfolder s) p i" and cl: "\<not> is_dirty s i" and n: "n \<in> set (file_names s i)"
  obtains f x where "find_folder i (rootfolder s) = Some f" and "x \<in> set (files f)" and "f_name (the (fnodes s x)) = n"
    and "\<forall>os c. lookup_folder_file os c p n s = (Inr (i, x), s)"
proof -
  from leads_find [OF p] obtain f where f: "find_folder i (rootfolder s) = Some f" ..
  with cl have d: "\<not> files_dirty f" by (simp add: is_dirty_def)
  from n f obtain y where "y \<in> set (files f)" "f_name (the (fnodes s y)) = n" by (auto simp: file_names_def)
  then have "find (\<lambda>x. f_name (the (fnodes s x)) = n) (files f) \<noteq> None" by (auto simp: find_None_iff)
  then obtain x where x: "find (\<lambda>x. f_name (the (fnodes s x)) = n) (files f) = Some x" by auto
  with find_SomeD [OF x] f lookup_file_run [OF ok p f d] show ?thesis by (intro that [of f x]) auto
qed

text \<open>C8: Deleting a file of a folder whose files are known: the driver is asked first; when it refuses, its error is returned and nothing changed, and
  when it agrees exactly that name leaves the folder's list and no other folder or file is affected.\<close>
theorem delete_file_removes:
  assumes r: "fs_reach os s" and p: "leads (rootfolder s) p i" "p = CHR ''/'' # q" and d: "\<not> is_dirty s i"
    and n: "n \<in> set (file_names s i)" and g: "delete_file_func (funcs s) = Some g" "g p n (env s) = (ret, w)"
  shows "(ret < 0 \<longrightarrow> gp_filesystem_delete_file os None p n s = (Inl ret, s\<lparr>env := w\<rparr>)) \<and>
    (0 \<le> ret \<longrightarrow> (\<exists>t. gp_filesystem_delete_file os None p n s = (Inr (), t) \<and>
       file_names t i = remove1 n (file_names s i) \<and> n \<notin> set (file_names t i) \<and>
       (\<forall>p' j. leads (rootfolder s) p' j \<longrightarrow> leads (rootfolder t) p' j)))"
proof (intro conjI)
  from fs_reach_inv [OF r] have ok: "fs_ok s" by (simp add: fs_inv_def)
  have CA: "CA p = ok ()" by (simp add: CA_def p(2))
  obtain f x where f: "find_folder i (rootfolder s) = Some f" and x: "x \<in> set (files f)"
    and nm: "f_name (the (fnodes s x)) = n" and lk: "\<forall>os c. lookup_folder_file os c p n s = (Inr (i, x), s)"
    by (rule lookup_file_found [OF ok p(1) d n])
  have call: "gp_filesystem_delete_file os None p n s =
      (if ret < 0 then (Inl ret, s\<lparr>env := w\<rparr>) else delete_file os i x (s\<lparr>env := w\<rparr>))"
    unfolding gp_filesystem_delete_file_def CA CC_None using lk g
    by (simp add: run_simps driver_call_def CR_def)
  then show "ret < 0 \<longrightarrow> gp_filesystem_delete_file os None p n s = (Inl ret, s\<lparr>env := w\<rparr>)" by simp
  let ?s = "s\<lparr>env := w\<rparr>"
  have oks: "fs_ok ?s" using ok by simp
  have fs: "find_folder i (rootfolder ?s) = Some f" using f by simp
  from wp_done [OF wp_delete_file [OF oks fs x, of os]] obtain t where t: "delete_file os i x ?s = (Inr (), t)" "stays ?s t"
    "file_names t i = remove1 n (file_names ?s i)" using nm by auto
  have same: "file_names ?s i = file_names s i" by (simp add: file_names_def cong: option.case_cong)
  have "n \<notin> set (remove1 n (file_names s i))" using file_names_distinct [OF ok, of i] by simp
  with t call same show "0 \<le> ret \<longrightarrow> (\<exists>t. gp_filesystem_delete_file os None p n s = (Inr (), t) \<and>
      file_names t i = remove1 n (file_names s i) \<and> n \<notin> set (file_names t i) \<and>
      (\<forall>p' j. leads (rootfolder s) p' j \<longrightarrow> leads (rootfolder t) p' j))"
    by (auto simp: stays_def)
qed

text \<open>The run of before with a driver that deletes.\<close>

definition demo4 :: "unit fs" where
  "demo4 = snd (gp_filesystem_set_funcs (no_funcs\<lparr>delete_file_func := Some (\<lambda>_ _ w. (0, w))\<rparr>) demo3)"

lemma demo4_facts:
  "fs_reach null_os demo4" "leads (rootfolder demo4) ''/'' 0" "file_names demo4 0 = [''a'']" "is_dirty demo4 0 = False"
  "delete_file_func (funcs demo4) = Some (\<lambda>_ _ w. (0, w))"
proof -
  show "fs_reach null_os demo4" unfolding demo4_def by (rule fs_reach.go [OF demo3_reach fs_step.set_funcs])
  have e: "demo4 = demo3\<lparr>funcs := no_funcs\<lparr>delete_file_func := Some (\<lambda>_ _ w. (0, w))\<rparr>\<rparr>"
    by (simp add: demo4_def gp_filesystem_set_funcs_def run_simps)
  show "leads (rootfolder demo4) ''/'' 0" "is_dirty demo4 0 = False" "file_names demo4 0 = [''a'']"
    using demo3_facts by (simp_all add: e is_dirty_def file_names_def cong: option.case_cong)
  show "delete_file_func (funcs demo4) = Some (\<lambda>_ _ w. (0, w))" by (simp add: e)
qed

theorem delete_file_removes_witness:
  "fs_reach null_os demo4 \<and> file_names demo4 0 = [''a''] \<and>
   (\<exists>t. gp_filesystem_delete_file null_os None ''/'' ''a'' demo4 = (Inr (), t) \<and> file_names t 0 = [])"
proof -
  have "\<exists>t. gp_filesystem_delete_file null_os None ''/'' ''a'' demo4 = (Inr (), t) \<and>
      file_names t 0 = remove1 ''a'' (file_names demo4 0) \<and> ''a'' \<notin> set (file_names t 0) \<and>
      (\<forall>p' j. leads (rootfolder demo4) p' j \<longrightarrow> leads (rootfolder t) p' j)"
    by (rule delete_file_removes [THEN conjunct2, rule_format, where g = "\<lambda>_ _ w. (0, w)" and ret = 0 and w = "()" and q = "[]"])
      (use demo4_facts in simp_all)
  then show ?thesis using demo4_facts by auto
qed

section \<open>Refusals\<close>

text \<open>Read-only attributes (type, size, dimensions, download status of any view) cannot be set: \<open>gp_filesystem_set_info\<close> answers
  \<open>GP_ERROR_BAD_PARAMETERS\<close> without a call of the driver and without a change; any other request goes to the driver, whose error is returned
  and marks the cached information as stale.\<close>
lemma set_info_read_only:
  assumes r: "fs_reach os s" and p: "leads (rootfolder s) p i" "p = CHR ''/'' # q" and d: "\<not> is_dirty s i"
    and n: "n \<in> set (file_names s i)" and g: "set_info_func (funcs s) = Some g" "g p n nfo (env s) = (ret, w)"
  shows "(sets_read_only nfo \<longrightarrow> gp_filesystem_set_info os None p n nfo s = (Inl GP_ERROR_BAD_PARAMETERS, s)) \<and>
    (\<not> sets_read_only nfo \<and> ret < 0 \<longrightarrow> (\<exists>t x y. gp_filesystem_set_info os None p n nfo s = (Inl ret, t) \<and> env t = w \<and>
       fnodes t = (fnodes s)(x \<mapsto> y) \<and> f_name y = n \<and> info_dirty y))"
proof (intro conjI)
  from fs_reach_inv [OF r] have ok: "fs_ok s" by (simp add: fs_inv_def)
  have CA: "CA p = ok ()" by (simp add: CA_def p(2))
  obtain f x where f: "find_folder i (rootfolder s) = Some f" and x: "x \<in> set (files f)"
    and nm: "f_name (the (fnodes s x)) = n" and lk: "\<forall>os c. lookup_folder_file os c p n s = (Inr (i, x), s)"
    by (rule lookup_file_found [OF ok p(1) d n])
  from fs_ok_names(2) [OF ok f x] obtain y where y: "fnodes s x = Some y" by auto
  show "sets_read_only nfo \<longrightarrow> gp_filesystem_set_info os None p n nfo s = (Inl GP_ERROR_BAD_PARAMETERS, s)"
    unfolding gp_filesystem_set_info_def CA CC_None using lk g by (simp add: run_simps)
  show "\<not> sets_read_only nfo \<and> ret < 0 \<longrightarrow> (\<exists>t x y. gp_filesystem_set_info os None p n nfo s = (Inl ret, t) \<and> env t = w \<and>
      fnodes t = (fnodes s)(x \<mapsto> y) \<and> f_name y = n \<and> info_dirty y)"
  proof
    assume "\<not> sets_read_only nfo \<and> ret < 0"
    then have "gp_filesystem_set_info os None p n nfo s =
        (Inl ret, s\<lparr>env := w, fnodes := (fnodes s)(x \<mapsto> y\<lparr>info_dirty := True\<rparr>)\<rparr>)"
      unfolding gp_filesystem_set_info_def CA CC_None using lk g y
      by (simp add: run_simps CR_def write_file_def deref_file_def)
    then show "\<exists>t x y. gp_filesystem_set_info os None p n nfo s = (Inl ret, t) \<and> env t = w \<and>
      fnodes t = (fnodes s)(x \<mapsto> y) \<and> f_name y = n \<and> info_dirty y"
      using nm y by (intro exI [of _ "s\<lparr>env := w, fnodes := (fnodes s)(x \<mapsto> y\<lparr>info_dirty := True\<rparr>)\<rparr>"] exI [of _ x]
          exI [of _ "y\<lparr>info_dirty := True\<rparr>"]) simp
  qed
qed

definition demo5 :: "unit fs" where
  "demo5 = snd (gp_filesystem_set_funcs (no_funcs\<lparr>set_info_func := Some (\<lambda>_ _ _ w. (GP_ERROR_IO, w))\<rparr>) demo3)"

definition width_info :: CameraFileInfo where
  "width_info = zero_info\<lparr>i_file := (i_file zero_info)\<lparr>i_fields := GP_FILE_INFO_WIDTH, i_width := 640\<rparr>\<rparr>"

lemma demo5_facts:
  "fs_reach null_os demo5" "leads (rootfolder demo5) ''/'' 0" "file_names demo5 0 = [''a'']" "is_dirty demo5 0 = False"
  "set_info_func (funcs demo5) = Some (\<lambda>_ _ _ w. (GP_ERROR_IO, w))"
proof -
  show "fs_reach null_os demo5" unfolding demo5_def by (rule fs_reach.go [OF demo3_reach fs_step.set_funcs])
  have e: "demo5 = demo3\<lparr>funcs := no_funcs\<lparr>set_info_func := Some (\<lambda>_ _ _ w. (GP_ERROR_IO, w))\<rparr>\<rparr>"
    by (simp add: demo5_def gp_filesystem_set_funcs_def run_simps)
  show "leads (rootfolder demo5) ''/'' 0" "is_dirty demo5 0 = False" "file_names demo5 0 = [''a'']"
    using demo3_facts by (simp_all add: e is_dirty_def file_names_def cong: option.case_cong)
  show "set_info_func (funcs demo5) = Some (\<lambda>_ _ _ w. (GP_ERROR_IO, w))" by (simp add: e)
qed

text \<open>Only an empty folder can be removed: with subfolders or files in it \<open>gp_filesystem_remove_dir\<close> answers \<open>GP_ERROR_DIRECTORY_EXISTS\<close> or
  \<open>GP_ERROR_FILE_EXISTS\<close>, for an unknown name \<open>GP_ERROR_DIRECTORY_NOT_FOUND\<close>, and when the driver refuses, its error; in none of these cases the cache
  changes, and the driver is asked in the last one only.\<close>
lemma remove_dir_refused:
  assumes p: "leads (rootfolder s) p i" "p = CHR ''/'' # q" and f: "find_folder i (rootfolder s) = Some f" "\<not> folders_dirty f"
    and g: "remove_dir_func (funcs s) = Some g" "g p n (env s) = (ret, w)"
  shows "(find (\<lambda>h. fo_name h = n) (folders f) = None \<longrightarrow>
       gp_filesystem_remove_dir os None p n s = (Inl GP_ERROR_DIRECTORY_NOT_FOUND, s)) \<and>
    (find (\<lambda>h. fo_name h = n) (folders f) = Some h \<and> folders h \<noteq> [] \<longrightarrow>
       gp_filesystem_remove_dir os None p n s = (Inl GP_ERROR_DIRECTORY_EXISTS, s)) \<and>
    (find (\<lambda>h. fo_name h = n) (folders f) = Some h \<and> folders h = [] \<and> files h \<noteq> [] \<longrightarrow>
       gp_filesystem_remove_dir os None p n s = (Inl GP_ERROR_FILE_EXISTS, s)) \<and>
    (find (\<lambda>h. fo_name h = n) (folders f) = Some h \<and> folders h = [] \<and> files h = [] \<and> ret < 0 \<longrightarrow>
       gp_filesystem_remove_dir os None p n s = (Inl ret, s\<lparr>env := w\<rparr>))"
proof (intro conjI)
  have CA: "CA p = ok ()" by (simp add: CA_def p(2))
  have d: "deref_folder i s = (Inr f, s)" using f by (simp add: deref_folder_def)
  have run: "gp_filesystem_remove_dir os None p n s = remove_empty_dir os i n (g p n) s"
    unfolding gp_filesystem_remove_dir_def CA CC_None using lookup_leads [OF p(1), of os None] d f(2) g(1)
    by (simp add: run_simps)
  show "find (\<lambda>h. fo_name h = n) (folders f) = None \<longrightarrow>
      gp_filesystem_remove_dir os None p n s = (Inl GP_ERROR_DIRECTORY_NOT_FOUND, s)"
    "find (\<lambda>h. fo_name h = n) (folders f) = Some h \<and> folders h \<noteq> [] \<longrightarrow>
      gp_filesystem_remove_dir os None p n s = (Inl GP_ERROR_DIRECTORY_EXISTS, s)"
    "find (\<lambda>h. fo_name h = n) (folders f) = Some h \<and> folders h = [] \<and> files h \<noteq> [] \<longrightarrow>
      gp_filesystem_remove_dir os None p n s = (Inl GP_ERROR_FILE_EXISTS, s)"
    "find (\<lambda>h. fo_name h = n) (folders f) = Some h \<and> folders h = [] \<and> files h = [] \<and> ret < 0 \<longrightarrow>
      gp_filesystem_remove_dir os None p n s = (Inl ret, s\<lparr>env := w\<rparr>)"
    unfolding run remove_empty_dir_def using d g(2) by (auto simp: run_simps driver_call_def CR_def)
qed

definition demo6 :: "unit fs" where
  "demo6 = demo_fs\<lparr>funcs := no_funcs\<lparr>remove_dir_func := Some (\<lambda>_ _ w. (0, w))\<rparr>\<rparr>"

section \<open>Reset\<close>

lemma upd_self: "upd_folder (fo_id f) u f = u f"
  by (cases f) simp

text \<open>\<open>gp_filesystem_reset\<close> always succeeds, empties the LRU list, removes every subfolder with its files and marks the root as unknown; the files of the
  root folder itself stay in the cache.\<close>
lemma reset_keeps_root_files:
  assumes r: "fs_reach os s"
  shows "\<exists>t. gp_filesystem_reset os s = (Inr (), t) \<and> lru_is t [] \<and>
    rootfolder t = Folder (fo_id (rootfolder s)) (fo_name (rootfolder s)) True True [] (files (rootfolder s)) \<and>
    (\<forall>x\<in>set (files (rootfolder s)). fnodes t x \<noteq> None) \<and>
    (\<forall>x\<in>set (nodes_list (folders (rootfolder s))). fnodes t x = None)"
proof -
  from fs_reach_inv [OF r] have ok: "fs_ok s" by (simp add: fs_inv_def)
  then obtain L where s: "cache_ok s" "lru_is s L" "tree_ok (rootfolder s) (fnodes s) (next_addr s)" by (rule fs_okE)
  from wp_done [OF lru_clear [OF s(2) cache_ok_fresh [OF s(1)]]] obtain t1 h z where
    c: "gp_filesystem_lru_clear s = (Inr (), t1)" and l1: "lru_is t1 []" and
    t1: "t1 = s\<lparr>lru_first := None, lru_last := None, lru_size := z, fnodes := h\<rparr>" "same_but_links (fnodes s) h" by blast
  have ok1: "fs_ok t1" using keepsD [OF keeps_lru_clear ok c] .
  let ?r = "rootfolder s"
  have r1: "rootfolder t1 = ?r" by (simp add: t1)
  from ok1 obtain L1 where s1: "cache_ok t1" "tree_ok ?r (fnodes t1) (next_addr t1)" by (auto elim: fs_okE simp: r1)
  have d: "distinct (nodes ?r)" and live: "\<And>x. fnodes t1 x \<noteq> None \<longleftrightarrow> x \<in> set (nodes ?r)"
    using s1(2) by (simp_all add: tree_ok_def concat_file_lists)
  have nd: "nodes ?r = files ?r @ nodes_list (folders ?r)" by (cases ?r) simp
  have so: "set (delete_order ?r) = set (nodes_list (folders ?r))" and do: "distinct (delete_order ?r)"
  proof -
    have m: "mset (delete_order ?r) = mset (nodes_list (folders ?r))"
      using delete_order_mset(1) [of ?r] by (simp add: concat_file_lists)
    then show "set (delete_order ?r) = set (nodes_list (folders ?r))" by (metis set_mset_mset)
    show "distinct (delete_order ?r)" using d nd distinct_mset_cong [OF m] by simp
  qed
  have "wp (purge_files os (delete_order ?r)) (\<lambda>_ t. cache_ok t \<and> lru_is t (filter (\<lambda>i. i \<notin> set (delete_order ?r)) []) \<and>
      purged t1 t (set (delete_order ?r))) (\<lambda>_ _. False) t1"
    by (rule wp_purge_files [OF s1(1) l1 _ do]) (use live so nd in auto)
  from wp_done [OF this] obtain t2 where pu: "purge_files os (delete_order ?r) t1 = (Inr (), t2)" "lru_is t2 []"
    "purged t1 t2 (set (delete_order ?r))" by auto
  have r2: "rootfolder t2 = ?r" using pu(3) r1 by (simp add: purged_def)
  let ?t = "t2\<lparr>rootfolder := Folder (fo_id ?r) (fo_name ?r) True True [] (files ?r)\<rparr>"
  have lk: "lookup_folder os None ''/'' t1 = (Inr (Some (fo_id ?r)), t1)"
    by (rule lookup_leads) (use s1(2) in \<open>simp add: r1 leads_def components_slash tree_ok_def\<close>)
  have "gp_filesystem_reset os s = (Inr (), ?t)"
    using c lk pu(1) r1 r2
    by (cases ?r) (simp add: gp_filesystem_reset_def delete_all_folders_def delete_all_folders_by_def CC_None CA_def run_simps
        recurse_delete_folder_def deref_folder_def write_folder_def recurse_delete_purge CR_def set_folders_def set_files_dirty_def set_folders_dirty_def)
  moreover have "lru_is ?t []" using pu(2) by (rule lru_is_cong) simp_all
  moreover have "\<forall>x\<in>set (files ?r). fnodes ?t x \<noteq> None"
    using purged_dom [OF pu(3)] live so d nd by auto
  moreover have "\<forall>x\<in>set (nodes_list (folders ?r)). fnodes ?t x = None"
  proof
    fix x assume "x \<in> set (nodes_list (folders ?r))"
    then show "fnodes ?t x = None" using purged_dom [OF pu(3), of x] so by simp
  qed
  ultimately show ?thesis by (intro exI [of _ ?t]) simp
qed

section \<open>The cache\<close>

text \<open>C4: Pruning the LRU list always ends, gives up the contents (normal, raw and audio view) of the oldest entries, of as many as needed and no more, and leaves at most
  \<open>pictures_to_keep\<close> files with cached contents. Every other view of every file stays, and of the references to a file object just those of the views
  that are given up are returned. The file objects are memory objects, as in \<open>fs_step\<close>.\<close>
theorem prune_bound:
  assumes r: "fs_reach os s" and keep: "0 \<le> pictures_to_keep s" and l: "lru_is s xs"
  shows "\<exists>k t. lru_prune (next_addr s) os s = (Inr (), t) \<and> lru_is t (drop k xs) \<and>
    (\<exists>n. gp_filesystem_lru_count t = (Inr n, t) \<and> int n \<le> pictures_to_keep s) \<and>
    (\<forall>j<k. pictures_to_keep s < int (pics (fnodes s) (drop j xs))) \<and>
    (\<forall>i ty. Option.bind (fnodes t i) (cached ty) =
       (if i \<in> set (take k xs) \<and> ty \<in> {GP_FILE_TYPE_NORMAL, GP_FILE_TYPE_RAW, GP_FILE_TYPE_AUDIO} then None else Option.bind (fnodes s i) (cached ty))) \<and>
    (\<forall>c. other_refs t c = other_refs s c)"
proof -
  from fs_reach_inv [OF r] have s: "cache_ok s" "mem_objects s" by (auto simp: fs_inv_def elim: fs_okE)
  from wp_done [OF lru_prune [OF l s keep lru_length [OF l cache_ok_fresh [OF s(1)]], of os]] obtain t k where
    run: "lru_prune (next_addr s) os s = (Inr (), t)" and p: "pruned s xs t k" by blast
  from p have lt: "lru_is t (drop k xs)" and ct: "cache_ok t"
    and v: "\<And>i ty. Option.bind (fnodes t i) (cached ty) = (if i \<in> set (take k xs) \<and> ty \<in> large_views then None else Option.bind (fnodes s i) (cached ty))"
    by (simp_all add: pruned_def)
  have "pics (fnodes t) (drop k xs) = pics (fnodes s) (drop k xs)"
  proof (rule pics_cong)
    fix i assume i: "i \<in> set (drop k xs)"
    have "distinct (take k xs @ drop k xs)" using l by (simp add: lru_is_def)
    with i have "i \<notin> set (take k xs)" by (simp only: distinct_append) blast
    with v [of i] have b: "Option.bind (fnodes t i) (cached ty) = Option.bind (fnodes s i) (cached ty)" for ty by simp
    have "lseg (fnodes t) (hd (drop k xs)) (drop k xs) None" using lt i by (auto simp: lru_is_def)
    with i obtain x where x: "fnodes t i = Some x" using lseg_dom by fastforce
    have "i \<in> set xs" using i by (rule in_set_dropD)
    then have "lseg (fnodes s) (hd xs) xs None" using l by (auto simp: lru_is_def)
    with \<open>i \<in> set xs\<close> obtain y where y: "fnodes s i = Some y" using lseg_dom by fastforce
    from b [of GP_FILE_TYPE_NORMAL] b [of GP_FILE_TYPE_RAW] b [of GP_FILE_TYPE_AUDIO] x y
    show "map_option has_content (fnodes t i) = map_option has_content (fnodes s i)" by (simp add: has_content_def)
  qed
  then have "gp_filesystem_lru_count t = (Inr (pics (fnodes s) (drop k xs)), t)"
    using lru_count_pics [OF lt cache_ok_fresh [OF ct]] by simp
  moreover have "int (pics (fnodes s) (drop k xs)) \<le> pictures_to_keep s" "\<forall>j<k. pictures_to_keep s < int (pics (fnodes s) (drop j xs))"
    "\<forall>c. other_refs t c = other_refs s c" using p by (simp_all add: pruned_def prune_frame_def)
  ultimately show ?thesis using run lt v by (auto simp: large_views_def intro!: exI [of _ k] exI [of _ t])
qed

text \<open>The picture of the example, on a system that is to keep none.\<close>

definition demo7 :: "unit fs" where
  "demo7 = snd (gp_filesystem_set_file_noop null_os None ''/'' ''a'' GP_FILE_TYPE_NORMAL 7
     ((snd (gp_filesystem_append null_os None ''/'' ''a'' (blank_fs [] () 0 None)))\<lparr>objects := [7 \<mapsto> blank_file GP_FILE_ACCESSTYPE_MEMORY]\<rparr>))"

lemma demo7_reach: "fs_reach null_os demo7"
proof -
  let ?a = "snd (gp_filesystem_append null_os None ''/'' ''a'' (blank_fs [] () 0 None :: unit fs))"
  have m: "mem_ok ?a = [] \<and> objects ?a 7 = None" by code_simp
  have o: "objects ?a = (\<lambda>_. None)" by (rule ext) code_simp
  have "fs_reach null_os (blank_fs [] () 0 None)"
    by (rule fs_reach.start [of "[]" "()" 0 None]) (simp add: gp_filesystem_new_def blank_fs_def CR_def malloc_def run_simps)
  from fs_reach.go [OF this fs_step.append] have a: "fs_reach null_os ?a" .
  have "gp_file_new ?a = (Inr (blank_file GP_FILE_ACCESSTYPE_MEMORY), ?a)" using m by (simp add: gp_file_new_def CR_def run_simps)
  with fs_reach.go [OF a fs_step.new_object] m have "fs_reach null_os (?a\<lparr>objects := (objects ?a)(7 \<mapsto> blank_file GP_FILE_ACCESSTYPE_MEMORY)\<rparr>)" by blast
  then show ?thesis unfolding demo7_def o by (rule fs_reach.go [OF _ fs_step.set_file_noop])
qed

theorem prune_bound_witness:
  "\<exists>k t. lru_prune (next_addr demo7) null_os demo7 = (Inr (), t) \<and> Option.bind (fnodes demo7 1) (cached GP_FILE_TYPE_NORMAL) = Some 7 \<and>
     Option.bind (fnodes t 1) (cached GP_FILE_TYPE_NORMAL) = None \<and> k = 1 \<and> lru_is t (drop k [1]) \<and> other_refs t 7 = other_refs demo7 7"
proof -
  have c: "pictures_to_keep demo7 = 0 \<and> lru_first demo7 = Some 1 \<and> lru_last demo7 = Some 1 \<and>
     Option.bind (fnodes demo7 1) (cached GP_FILE_TYPE_NORMAL) = Some 7 \<and>
     Option.bind (fnodes (snd (lru_prune (next_addr demo7) null_os demo7)) 1) (cached GP_FILE_TYPE_NORMAL) = None"
    by code_simp
  from fs_reach_inv [OF demo7_reach] obtain xs where l: "lru_is demo7 xs" by (auto simp: fs_inv_def fs_ok_def)
  have nx: "Option.bind (fnodes demo7 1) lru_next = None" by code_simp
  obtain x ys where xs: "xs = x # ys" using l c by (cases xs) (auto simp: lru_is_def)
  with l c have x: "x = 1" and seg: "lseg (fnodes demo7) 1 (1 # ys) None" by (auto simp: lru_is_def)
  from seg nx have "ys = []" by (cases ys) (auto split: option.splits)
  with l xs x have l1: "lru_is demo7 [1]" by simp
  have keep: "0 \<le> pictures_to_keep demo7" using c by simp
  from prune_bound [OF demo7_reach keep l1] obtain k t where kt: "lru_prune (next_addr demo7) null_os demo7 = (Inr (), t)" "lru_is t (drop k [1])"
    "\<forall>j<k. pictures_to_keep demo7 < int (pics (fnodes demo7) (drop j [1]))" "\<forall>c. other_refs t c = other_refs demo7 c"
    and v: "\<forall>i ty. Option.bind (fnodes t i) (cached ty) = (if i \<in> set (take k [1]) \<and> ty \<in> {GP_FILE_TYPE_NORMAL, GP_FILE_TYPE_RAW, GP_FILE_TYPE_AUDIO}
       then None else Option.bind (fnodes demo7 i) (cached ty))"
    by blast
  have n0: "k \<noteq> 0"
  proof
    assume "k = 0"
    with v have "Option.bind (fnodes t 1) (cached GP_FILE_TYPE_NORMAL) = Option.bind (fnodes demo7 1) (cached GP_FILE_TYPE_NORMAL)" by simp
    with kt(1) c show False by (elim conjE) simp
  qed
  have "\<not> 1 < k" using kt(3) c by (auto simp: pics_def)
  with n0 have k1: "k = 1" by simp
  with v have "Option.bind (fnodes t 1) (cached GP_FILE_TYPE_NORMAL) = None" by simp
  with kt c k1 show ?thesis by blast
qed

text \<open>Disconnecting the first entry as \<open>gp_filesystem_lru_free\<close> begins: the entry still points into the list.\<close>

lemma half_unlinked:
  assumes l: "lru_is s (x # y # ys)" and x: "fnodes s x = Some nx" and y: "fnodes s y = Some ny"
  shows "\<not> lru_is (s\<lparr>lru_first := Some y, fnodes := (fnodes s)(y \<mapsto> ny\<lparr>lru_prev := Some y\<rparr>), env := w\<rparr>) zs"
proof
  let ?t = "s\<lparr>lru_first := Some y, fnodes := (fnodes s)(y \<mapsto> ny\<lparr>lru_prev := Some y\<rparr>), env := w\<rparr>"
  assume zs: "lru_is ?t zs"
  from l have d: "x \<noteq> y" "x \<notin> set ys" "y \<notin> set ys" by (auto simp: lru_is_def)
  from l x y have seg: "lseg (fnodes s) y ys None" "lru_next ny = (case ys of [] \<Rightarrow> None | z # _ \<Rightarrow> Some z)" "lru_prev nx \<noteq> None"
    by (auto simp: lru_is_def)
  from seg d have "lseg (fnodes ?t) y (y # ys) None" by simp
  moreover from zs have hz: "zs \<noteq> []" "hd zs = y" by (auto simp: lru_is_def split: list.splits)
  moreover have "lseg (fnodes ?t) (hd zs) zs None" using zs hz(1) unfolding lru_is_def by blast
  ultimately have "zs = y # ys" by (metis list.sel(1) list.distinct(1) lseg_unique)
  with d have "x \<notin> set zs" by simp
  moreover have "fnodes ?t x = Some nx" using x d by simp
  ultimately have "unlinked nx" using zs unfolding lru_is_def by blast
  with seg(3) show False by (simp add: unlinked_def)
qed

text \<open>With a file object that stands for a file descriptor the cache list can be torn: when the descriptor has been closed under the object, \<open>gp_filesystem_lru_free\<close> of a
  list whose first entry has the object as its normal view takes the entry off the list, fails on the size of the object and leaves the entry linked. The pointers form no
  list any more, and when the entry is deleted next, taking the second entry off the list writes to the freed one.\<close>
lemma lru_free_fd_corrupts:
  assumes l: "lru_is s (x # y # ys)" and nx: "fnodes s x = Some nx" "normal nx = Some c"
    and f: "objects s c = Some f" "accesstype f = GP_FILE_ACCESSTYPE_FD" and closed: "os_lseek os (fd f) 0 SEEK_END (env s) = (-1, w)" "os_ebadf os w"
  shows "\<exists>t. gp_filesystem_lru_free os s = (Inl GP_ERROR_IO, t) \<and> lru_first t = Some y \<and> (\<forall>zs. \<not> lru_is t zs) \<and>
    fst (CR (gp_filesystem_lru_remove_one x) (\<lambda>_. CR (free_file x) (\<lambda>_. gp_filesystem_lru_remove_one y)) t) = Inl UNDEFINED"
proof -
  from l nx obtain ny where ny: "fnodes s y = Some ny" by (auto simp: lru_is_def split: option.splits)
  from l nx have n: "lru_next nx = Some y" "lru_prev nx = Some x" "lru_first s = Some x" "lru_last s \<noteq> Some x" "x \<noteq> y" by (auto simp: lru_is_def)
  let ?s = "s\<lparr>lru_first := Some y, fnodes := (fnodes s)(y \<mapsto> ny\<lparr>lru_prev := Some y\<rparr>)\<rparr>"
  let ?t = "?s\<lparr>env := w\<rparr>"
  have sz: "fd_size os (fd f) ?s = (Inl GP_ERROR_IO, ?t)"
    using closed by (simp add: fd_size_def CR_def os_call_def run_simps)
  have v: "free_view os x GP_FILE_TYPE_NORMAL ?s = (Inl GP_ERROR_IO, ?t)"
    using nx n f sz by (simp add: free_view_def deref_file_def deref_object_def gp_file_get_data_and_size_def CR_def)
  have "gp_filesystem_lru_free os s = (Inl GP_ERROR_IO, ?t)"
    using nx n ny v by (simp add: gp_filesystem_lru_free_def deref_file_def run_simps set_lru_first_def write_file_def)
  moreover have "\<not> lru_is ?t zs" for zs using half_unlinked [OF l nx(1) ny, of w zs] by simp
  moreover have "fst (CR (gp_filesystem_lru_remove_one x) (\<lambda>_. CR (free_file x) (\<lambda>_. gp_filesystem_lru_remove_one y)) ?t) = Inl UNDEFINED"
    using nx n ny by (simp add: gp_filesystem_lru_remove_one_def deref_file_def run_simps write_file_def free_file_def CR_def)
  ultimately show ?thesis by auto
qed

text \<open>Two cached files, the first an object on descriptor 3, which the front-end then closes.\<close>

definition fd_os :: "bool os" where
  "fd_os = null_os\<lparr>os_lseek := \<lambda>_ _ _ w. (if w then 0 else -1, w), os_ebadf := \<lambda>w. \<not> w\<rparr>"

definition demo8 :: "bool fs" where
  "demo8 = (snd (gp_filesystem_set_file_noop fd_os None ''/'' ''b'' GP_FILE_TYPE_NORMAL 8 (snd (gp_filesystem_set_file_noop fd_os None ''/'' ''a'' GP_FILE_TYPE_NORMAL 7
     ((snd (gp_filesystem_append fd_os None ''/'' ''b'' (snd (gp_filesystem_append fd_os None ''/'' ''a'' (blank_fs [] True 5 None)))))\<lparr>objects :=
       [7 \<mapsto> (blank_file GP_FILE_ACCESSTYPE_FD)\<lparr>fd := 3\<rparr>, 8 \<mapsto> blank_file GP_FILE_ACCESSTYPE_MEMORY]\<rparr>)))))\<lparr>env := False\<rparr>"

lemma lru_free_fd_demo:
  "\<exists>t. gp_filesystem_lru_free fd_os demo8 = (Inl GP_ERROR_IO, t) \<and> (\<forall>zs. \<not> lru_is t zs)"
proof -
  have c: "fnodes demo8 1 \<noteq> None \<and> fnodes demo8 2 \<noteq> None \<and> lru_first demo8 = Some 1 \<and> lru_last demo8 = Some 2 \<and>
     Option.bind (fnodes demo8 1) normal = Some 7 \<and> Option.bind (fnodes demo8 1) lru_prev = Some 1 \<and> Option.bind (fnodes demo8 1) lru_next = Some 2 \<and>
     Option.bind (fnodes demo8 2) lru_prev = Some 1 \<and> Option.bind (fnodes demo8 2) lru_next = None \<and>
     map_option accesstype (objects demo8 7) = Some GP_FILE_ACCESSTYPE_FD \<and> env demo8 = False"
    by code_simp
  have "fnodes demo8 i = None \<or> i = 1 \<or> i = 2" for i by (code_simp, simp)
  then have dom: "fnodes demo8 i = None" if "i \<noteq> 1" "i \<noteq> 2" for i using that by blast
  obtain nx ny where nx: "fnodes demo8 1 = Some nx" and ny: "fnodes demo8 2 = Some ny" using c by blast
  obtain f where f: "objects demo8 7 = Some f" using c by auto
  have "lru_is demo8 [1, 2]" using c nx ny dom by (auto simp: lru_is_def split: if_splits)
  moreover have "normal nx = Some 7" "accesstype f = GP_FILE_ACCESSTYPE_FD" using c nx f by auto
  moreover have "os_lseek fd_os (fd f) 0 SEEK_END (env demo8) = (-1, False)" "os_ebadf fd_os False" using c by (simp_all add: fd_os_def null_os_def)
  ultimately show ?thesis using lru_free_fd_corrupts [of demo8 1 2 "[]" nx 7 f fd_os False] nx f by blast
qed

end
