(* ===== verification/Gp_Widget.thy ===== *)
theory Gp_Widget
  imports Gp_Result "HOL-Library.Word" "HOL-Library.Monad_Syntax" "HOL-Library.Multiset"
begin

text \<open>
  gphoto2-widget.c: the tree of widgets in which a driver describes the configuration of a camera. Widgets refer to each other by
  pointers, so they live in a map from addresses. \<open>None\<close> is what C leaves undefined (a freed widget, a string that does not fit,
  an index in front of an array) or a recursion that does not end.
\<close>

unbundle bit_operations_syntax

section \<open>Data\<close>

datatype CameraWidgetType = GP_WIDGET_WINDOW | GP_WIDGET_SECTION | GP_WIDGET_TEXT | GP_WIDGET_RANGE | GP_WIDGET_TOGGLE | GP_WIDGET_RADIO |
  GP_WIDGET_MENU | GP_WIDGET_BUTTON | GP_WIDGET_DATE

text \<open>
  The arrays \<open>choice\<close> and \<open>children\<close> are lists, their counts the lengths; a choice is NULL where \<open>strdup\<close> failed. A \<open>float\<close> is its 32 bits,
  a callback an address.
\<close>

record CameraWidget =
  w_type :: CameraWidgetType
  w_label :: string
  w_info :: string
  w_name :: string
  w_parent :: "nat option"
  w_value_string :: "string option"
  w_value_int :: int
  w_value_float :: "32 word"
  w_choice :: "string option list"
  w_min :: "32 word"
  w_max :: "32 word"
  w_increment :: "32 word"
  w_children :: "nat list"
  w_changed :: int
  w_readonly :: int
  w_ref_count :: int
  w_id :: int
  w_callback :: nat

text \<open>
  All widgets, an address that was never used, the static counter of \<open>gp_widget_new\<close>, and the answers of the allocator, which succeeds when the list is
  used up.
\<close>

record heap =
  widgets :: "nat \<Rightarrow> CameraWidget option"
  fresh_addr :: nat
  next_id :: int
  allocs :: "bool list"

definition may_alloc :: "heap \<Rightarrow> bool \<times> heap" where
  "may_alloc h = (case allocs h of [] \<Rightarrow> (True, h) | b # bs \<Rightarrow> (b, h\<lparr> allocs := bs \<rparr>))"

definition put_widget :: "nat \<Rightarrow> CameraWidget \<Rightarrow> heap \<Rightarrow> heap" where
  "put_widget a x h = h\<lparr> widgets := (widgets h)(a \<mapsto> x) \<rparr>"

definition strdup_w :: "string \<Rightarrow> heap \<Rightarrow> string option \<times> heap" where
  "strdup_w s h = (case may_alloc h of (ok, h) \<Rightarrow> (if ok then Some s else None, h))"

text \<open>The types with children, and those with choices.\<close>

definition may_have_children :: "CameraWidget \<Rightarrow> bool" where
  "may_have_children x \<longleftrightarrow> w_type x = GP_WIDGET_WINDOW \<or> w_type x = GP_WIDGET_SECTION"

definition may_have_choices :: "CameraWidget \<Rightarrow> bool" where
  "may_have_choices x \<longleftrightarrow> w_type x = GP_WIDGET_RADIO \<or> w_type x = GP_WIDGET_MENU"

section \<open>Creating and releasing\<close>

text \<open>The result of \<open>malloc\<close> is not checked.\<close>

definition gp_widget_new :: "CameraWidgetType \<Rightarrow> string option \<Rightarrow> heap \<Rightarrow> ((int + nat) \<times> heap) option" where
  "gp_widget_new ty lab h =
    (case lab of None \<Rightarrow> Some (Inl GP_ERROR_BAD_PARAMETERS, h) | Some lab \<Rightarrow>
     case may_alloc h of (ok, h) \<Rightarrow>
     if \<not> ok \<or> length lab \<ge> 256 then None
     else
       let a = fresh_addr h;
           x = \<lparr> w_type = ty, w_label = lab, w_info = [], w_name = [], w_parent = None, w_value_string = None, w_value_int = 0,
             w_value_float = 0, w_choice = [], w_min = 0, w_max = 0, w_increment = 0, w_children = [], w_changed = 0, w_readonly = 0,
             w_ref_count = 1, w_id = next_id h, w_callback = 0 \<rparr>
       in Some (Inr a, put_widget a x (h\<lparr> fresh_addr := a + 1, next_id := next_id h + 1 \<rparr>)))"

text \<open>Freeing widgets one after the other, each after its children.\<close>

partial_function (option) free_widgets :: "nat list \<Rightarrow> heap \<Rightarrow> heap option" where
  "free_widgets ws h =
    (case ws of [] \<Rightarrow> Some h
     | w # ws \<Rightarrow> do {
         x \<leftarrow> widgets h w;
         h \<leftarrow> (if may_have_children x then free_widgets (w_children x) h else Some h);
         x \<leftarrow> widgets h w;
         free_widgets ws (h\<lparr> widgets := (widgets h)(w := None) \<rparr>) })"

definition gp_widget_free :: "nat option \<Rightarrow> heap \<Rightarrow> (int \<times> heap) option" where
  "gp_widget_free widget h =
    (case widget of None \<Rightarrow> Some (GP_ERROR_BAD_PARAMETERS, h)
     | Some w \<Rightarrow> do { h \<leftarrow> free_widgets [w] h; Some (GP_OK, h) })"

text \<open>A change of one widget behind the test for NULL.\<close>

definition change_widget :: "(CameraWidget \<Rightarrow> CameraWidget) \<Rightarrow> nat option \<Rightarrow> heap \<Rightarrow> (int \<times> heap) option" where
  "change_widget f widget h =
    (case widget of None \<Rightarrow> Some (GP_ERROR_BAD_PARAMETERS, h)
     | Some w \<Rightarrow> do { x \<leftarrow> widgets h w; Some (GP_OK, put_widget w (f x) h) })"

definition gp_widget_ref :: "nat option \<Rightarrow> heap \<Rightarrow> (int \<times> heap) option" where
  "gp_widget_ref = change_widget (\<lambda>x. x\<lparr> w_ref_count := w_ref_count x + 1 \<rparr>)"

definition gp_widget_unref :: "nat option \<Rightarrow> heap \<Rightarrow> (int \<times> heap) option" where
  "gp_widget_unref widget h =
    (case widget of None \<Rightarrow> Some (GP_ERROR_BAD_PARAMETERS, h)
     | Some w \<Rightarrow> do {
         x \<leftarrow> widgets h w;
         let x = x\<lparr> w_ref_count := w_ref_count x - 1 \<rparr>;
         let h = put_widget w x h;
         h \<leftarrow> (if w_ref_count x = 0 then do { (_, h) \<leftarrow> gp_widget_free (Some w) h; Some h } else Some h);
         Some (GP_OK, h) })"

section \<open>Fields\<close>

text \<open>A field of a widget behind the test for NULL.\<close>

definition field :: "(CameraWidget \<Rightarrow> 'a) \<Rightarrow> nat option \<Rightarrow> heap \<Rightarrow> (int + 'a) option" where
  "field f widget h =
    (case widget of None \<Rightarrow> Some (Inl GP_ERROR_BAD_PARAMETERS)
     | Some w \<Rightarrow> do { x \<leftarrow> widgets h w; Some (Inr (f x)) })"

definition gp_widget_get_info :: "nat option \<Rightarrow> heap \<Rightarrow> (int + string) option" where
  "gp_widget_get_info = field w_info"

definition gp_widget_get_name :: "nat option \<Rightarrow> heap \<Rightarrow> (int + string) option" where
  "gp_widget_get_name = field w_name"

definition gp_widget_get_id :: "nat option \<Rightarrow> heap \<Rightarrow> (int + int) option" where
  "gp_widget_get_id = field w_id"

definition gp_widget_get_readonly :: "nat option \<Rightarrow> heap \<Rightarrow> (int + int) option" where
  "gp_widget_get_readonly = field w_readonly"

definition gp_widget_get_type :: "nat option \<Rightarrow> heap \<Rightarrow> (int + CameraWidgetType) option" where
  "gp_widget_get_type = field w_type"

definition gp_widget_get_label :: "nat option \<Rightarrow> heap \<Rightarrow> (int + string) option" where
  "gp_widget_get_label = field w_label"

definition gp_widget_get_parent :: "nat option \<Rightarrow> heap \<Rightarrow> (int + nat option) option" where
  "gp_widget_get_parent = field w_parent"

text \<open>A string that is copied into an array of \<open>n\<close> bytes.\<close>

definition set_string :: "nat \<Rightarrow> (string \<Rightarrow> CameraWidget \<Rightarrow> CameraWidget) \<Rightarrow> nat option \<Rightarrow> string option \<Rightarrow> heap \<Rightarrow> (int \<times> heap) option" where
  "set_string n f widget s h =
    (case (widget, s) of
       (Some w, Some s) \<Rightarrow> if length s \<ge> n then None else change_widget (f s) (Some w) h
     | _ \<Rightarrow> Some (GP_ERROR_BAD_PARAMETERS, h))"

definition gp_widget_set_info :: "nat option \<Rightarrow> string option \<Rightarrow> heap \<Rightarrow> (int \<times> heap) option" where
  "gp_widget_set_info = set_string 1024 (\<lambda>s x. x\<lparr> w_info := s \<rparr>)"

definition gp_widget_set_name :: "nat option \<Rightarrow> string option \<Rightarrow> heap \<Rightarrow> (int \<times> heap) option" where
  "gp_widget_set_name = set_string 256 (\<lambda>s x. x\<lparr> w_name := s \<rparr>)"

definition gp_widget_set_changed :: "nat option \<Rightarrow> int \<Rightarrow> heap \<Rightarrow> (int \<times> heap) option" where
  "gp_widget_set_changed widget c = change_widget (\<lambda>x. x\<lparr> w_changed := c \<rparr>) widget"

definition gp_widget_set_readonly :: "nat option \<Rightarrow> int \<Rightarrow> heap \<Rightarrow> (int \<times> heap) option" where
  "gp_widget_set_readonly widget r = change_widget (\<lambda>x. x\<lparr> w_readonly := r \<rparr>) widget"

text \<open>Reading the flag clears it.\<close>

definition gp_widget_changed :: "nat option \<Rightarrow> heap \<Rightarrow> (int \<times> heap) option" where
  "gp_widget_changed widget h =
    (case widget of None \<Rightarrow> Some (GP_ERROR_BAD_PARAMETERS, h)
     | Some w \<Rightarrow> do { x \<leftarrow> widgets h w; Some (w_changed x, put_widget w (x\<lparr> w_changed := 0 \<rparr>) h) })"

section \<open>Values\<close>

text \<open>
  What the untyped pointer of \<open>gp_widget_set_value\<close> points to (for a button it is the callback itself). A value of a kind that the
  type of the widget does not have is undefined.
\<close>

datatype wvalue = AString "string option" | AFloat "32 word" | AnInt int | ACallback nat

text \<open>A new string is not the one that the widget holds (C frees that one before it copies the new).\<close>

text \<open>The comparison \<open>!=\<close> of C on floats: NaN differs from everything, and the two zeros are equal.\<close>

definition float_nan :: "32 word \<Rightarrow> bool" where
  "float_nan a \<longleftrightarrow> a AND 0x7F800000 = 0x7F800000 \<and> a AND 0x007FFFFF \<noteq> 0"

definition float_ne :: "32 word \<Rightarrow> 32 word \<Rightarrow> bool" where
  "float_ne a b \<longleftrightarrow> float_nan a \<or> float_nan b \<or> (a \<noteq> b \<and> \<not> (a AND 0x7FFFFFFF = 0 \<and> b AND 0x7FFFFFFF = 0))"

definition store_value :: "CameraWidget \<Rightarrow> wvalue \<Rightarrow> heap \<Rightarrow> (int \<times> CameraWidget \<times> heap) option" where
  "store_value x v h =
    (case w_type x of
       GP_WIDGET_BUTTON \<Rightarrow> (case v of ACallback c \<Rightarrow> Some (GP_OK, x\<lparr> w_callback := c \<rparr>, h) | _ \<Rightarrow> None)
     | GP_WIDGET_RANGE \<Rightarrow>
         (case v of AFloat f \<Rightarrow> Some (GP_OK, if float_ne (w_value_float x) f then x\<lparr> w_value_float := f, w_changed := 1 \<rparr> else x, h) | _ \<Rightarrow> None)
     | GP_WIDGET_DATE \<Rightarrow>
         (case v of AnInt i \<Rightarrow> Some (GP_OK, if w_value_int x \<noteq> i then x\<lparr> w_value_int := i, w_changed := 1 \<rparr> else x, h) | _ \<Rightarrow> None)
     | GP_WIDGET_TOGGLE \<Rightarrow>
         (case v of AnInt i \<Rightarrow> Some (GP_OK, if w_value_int x \<noteq> i then x\<lparr> w_value_int := i, w_changed := 1 \<rparr> else x, h) | _ \<Rightarrow> None)
     | GP_WIDGET_WINDOW \<Rightarrow> Some (GP_ERROR_BAD_PARAMETERS, x, h)
     | GP_WIDGET_SECTION \<Rightarrow> Some (GP_ERROR_BAD_PARAMETERS, x, h)
     | _ \<Rightarrow>
         (case v of
            AString (Some s) \<Rightarrow>
              let x = (if w_value_string x = Some s then x else x\<lparr> w_changed := 1 \<rparr>);
                  (p, h) = strdup_w s h
              in Some (GP_OK, x\<lparr> w_value_string := p \<rparr>, h)
          | _ \<Rightarrow> None))"

definition gp_widget_set_value :: "nat option \<Rightarrow> wvalue option \<Rightarrow> heap \<Rightarrow> (int \<times> heap) option" where
  "gp_widget_set_value widget value h =
    (case (widget, value) of
       (Some w, Some v) \<Rightarrow> do { x \<leftarrow> widgets h w; (r, x, h) \<leftarrow> store_value x v h; Some (r, put_widget w x h) }
     | _ \<Rightarrow> Some (GP_ERROR_BAD_PARAMETERS, h))"

definition load_value :: "CameraWidget \<Rightarrow> int + wvalue" where
  "load_value x =
    (case w_type x of
       GP_WIDGET_BUTTON \<Rightarrow> Inr (ACallback (w_callback x))
     | GP_WIDGET_RANGE \<Rightarrow> Inr (AFloat (w_value_float x))
     | GP_WIDGET_TOGGLE \<Rightarrow> Inr (AnInt (w_value_int x))
     | GP_WIDGET_DATE \<Rightarrow> Inr (AnInt (w_value_int x))
     | GP_WIDGET_SECTION \<Rightarrow> Inl GP_ERROR_BAD_PARAMETERS
     | GP_WIDGET_WINDOW \<Rightarrow> Inl GP_ERROR_BAD_PARAMETERS
     | _ \<Rightarrow> Inr (AString (w_value_string x)))"

definition gp_widget_get_value :: "nat option \<Rightarrow> heap \<Rightarrow> (int + wvalue) option" where
  "gp_widget_get_value widget h =
    (case widget of None \<Rightarrow> Some (Inl GP_ERROR_BAD_PARAMETERS)
     | Some w \<Rightarrow> do { x \<leftarrow> widgets h w; Some (load_value x) })"

section \<open>Children\<close>

text \<open>\<open>f\<close> puts the new child behind or in front of the others. When the widget is its own child, the second store sees the first.\<close>

definition add_child :: "(nat \<Rightarrow> nat list \<Rightarrow> nat list) \<Rightarrow> nat option \<Rightarrow> nat option \<Rightarrow> heap \<Rightarrow> (int \<times> heap) option" where
  "add_child f widget child h =
    (case (widget, child) of
       (Some w, Some c) \<Rightarrow> do {
         x \<leftarrow> widgets h w;
         if \<not> may_have_children x then Some (GP_ERROR_BAD_PARAMETERS, h)
         else case may_alloc h of (ok, h) \<Rightarrow>
           if \<not> ok then Some (GP_ERROR_NO_MEMORY, h)
           else do {
             let h = put_widget w (x\<lparr> w_children := f c (w_children x) \<rparr>) h;
             y \<leftarrow> widgets h c;
             Some (GP_OK, put_widget c (y\<lparr> w_parent := Some w, w_changed := 0 \<rparr>) h) } }
     | _ \<Rightarrow> Some (GP_ERROR_BAD_PARAMETERS, h))"

definition gp_widget_append :: "nat option \<Rightarrow> nat option \<Rightarrow> heap \<Rightarrow> (int \<times> heap) option" where
  "gp_widget_append = add_child (\<lambda>c cs. cs @ [c])"

definition gp_widget_prepend :: "nat option \<Rightarrow> nat option \<Rightarrow> heap \<Rightarrow> (int \<times> heap) option" where
  "gp_widget_prepend = add_child (\<lambda>c cs. c # cs)"

definition gp_widget_count_children :: "nat option \<Rightarrow> heap \<Rightarrow> int option" where
  "gp_widget_count_children widget h =
    (case widget of None \<Rightarrow> Some GP_ERROR_BAD_PARAMETERS | Some w \<Rightarrow> do { x \<leftarrow> widgets h w; Some (int (length (w_children x))) })"

text \<open>An element of an array by a number that is only tested to be less than the count.\<close>

definition element :: "'a list \<Rightarrow> int \<Rightarrow> (int + 'a) option" where
  "element xs n =
    (if n \<ge> int (length xs) then Some (Inl GP_ERROR_BAD_PARAMETERS) else if n < 0 then None else Some (Inr (xs ! nat n)))"

definition gp_widget_get_child :: "nat option \<Rightarrow> int \<Rightarrow> heap \<Rightarrow> (int + nat) option" where
  "gp_widget_get_child widget n h =
    (case widget of None \<Rightarrow> Some (Inl GP_ERROR_BAD_PARAMETERS) | Some w \<Rightarrow> do { x \<leftarrow> widgets h w; element (w_children x) n })"

text \<open>The search of the three functions below, on the widgets that are still to be visited: a widget, then its children.\<close>

partial_function (option) find_widget :: "(CameraWidget \<Rightarrow> bool) \<Rightarrow> heap \<Rightarrow> nat list \<Rightarrow> nat option option" where
  "find_widget P h ws =
    (case ws of [] \<Rightarrow> Some None
     | w # ws \<Rightarrow> do {
         x \<leftarrow> widgets h w;
         if P x then Some (Some w)
         else do {
           r \<leftarrow> find_widget P h (w_children x);
           case r of Some y \<Rightarrow> Some (Some y) | None \<Rightarrow> find_widget P h ws } })"

definition found :: "nat option \<Rightarrow> int + nat" where
  "found r = (case r of Some y \<Rightarrow> Inr y | None \<Rightarrow> Inl GP_ERROR_BAD_PARAMETERS)"

definition gp_widget_get_child_by_label :: "nat option \<Rightarrow> string option \<Rightarrow> heap \<Rightarrow> (int + nat) option" where
  "gp_widget_get_child_by_label widget lab h =
    (case (widget, lab) of
       (Some w, Some lab) \<Rightarrow> map_option found (find_widget (\<lambda>x. w_label x = lab) h [w])
     | _ \<Rightarrow> Some (Inl GP_ERROR_BAD_PARAMETERS))"

definition gp_widget_get_child_by_id :: "nat option \<Rightarrow> int \<Rightarrow> heap \<Rightarrow> (int + nat) option" where
  "gp_widget_get_child_by_id widget i h =
    (case widget of Some w \<Rightarrow> map_option found (find_widget (\<lambda>x. w_id x = i) h [w]) | None \<Rightarrow> Some (Inl GP_ERROR_BAD_PARAMETERS))"

text \<open>This one does not test the name for NULL.\<close>

definition gp_widget_get_child_by_name :: "nat option \<Rightarrow> string option \<Rightarrow> heap \<Rightarrow> (int + nat) option" where
  "gp_widget_get_child_by_name widget nm h =
    (case widget of None \<Rightarrow> Some (Inl GP_ERROR_BAD_PARAMETERS)
     | Some w \<Rightarrow> do { nm \<leftarrow> nm; map_option found (find_widget (\<lambda>x. w_name x = nm) h [w]) })"

partial_function (option) root_of :: "heap \<Rightarrow> nat \<Rightarrow> nat option" where
  "root_of h w = do { x \<leftarrow> widgets h w; case w_parent x of Some p \<Rightarrow> root_of h p | None \<Rightarrow> Some w }"

definition gp_widget_get_root :: "nat option \<Rightarrow> heap \<Rightarrow> (int + nat) option" where
  "gp_widget_get_root widget h =
    (case widget of None \<Rightarrow> Some (Inl GP_ERROR_BAD_PARAMETERS) | Some w \<Rightarrow> map_option Inr (root_of h w))"

section \<open>Ranges and choices\<close>

text \<open>An operation for some types only.\<close>

definition gp_widget_set_range :: "nat option \<Rightarrow> 32 word \<Rightarrow> 32 word \<Rightarrow> 32 word \<Rightarrow> heap \<Rightarrow> (int \<times> heap) option" where
  "gp_widget_set_range widget mn mx inc h =
    (case widget of None \<Rightarrow> Some (GP_ERROR_BAD_PARAMETERS, h)
     | Some w \<Rightarrow> do {
         x \<leftarrow> widgets h w;
         if w_type x \<noteq> GP_WIDGET_RANGE then Some (GP_ERROR_BAD_PARAMETERS, h)
         else Some (GP_OK, put_widget w (x\<lparr> w_min := mn, w_max := mx, w_increment := inc \<rparr>) h) })"

definition gp_widget_get_range :: "nat option \<Rightarrow> heap \<Rightarrow> (int + 32 word \<times> 32 word \<times> 32 word) option" where
  "gp_widget_get_range widget h =
    (case widget of None \<Rightarrow> Some (Inl GP_ERROR_BAD_PARAMETERS)
     | Some w \<Rightarrow> do {
         x \<leftarrow> widgets h w;
         Some (if w_type x \<noteq> GP_WIDGET_RANGE then Inl GP_ERROR_BAD_PARAMETERS else Inr (w_min x, w_max x, w_increment x)) })"

definition gp_widget_add_choice :: "nat option \<Rightarrow> string option \<Rightarrow> heap \<Rightarrow> (int \<times> heap) option" where
  "gp_widget_add_choice widget ch h =
    (case (widget, ch) of
       (Some w, Some ch) \<Rightarrow> do {
         x \<leftarrow> widgets h w;
         if \<not> may_have_choices x then Some (GP_ERROR_BAD_PARAMETERS, h)
         else case may_alloc h of (ok, h) \<Rightarrow>
           if \<not> ok then Some (GP_ERROR_NO_MEMORY, h)
           else case strdup_w ch h of (p, h) \<Rightarrow> Some (GP_OK, put_widget w (x\<lparr> w_choice := w_choice x @ [p] \<rparr>) h) }
     | _ \<Rightarrow> Some (GP_ERROR_BAD_PARAMETERS, h))"

definition gp_widget_count_choices :: "nat option \<Rightarrow> heap \<Rightarrow> int option" where
  "gp_widget_count_choices widget h =
    (case widget of None \<Rightarrow> Some GP_ERROR_BAD_PARAMETERS
     | Some w \<Rightarrow> do { x \<leftarrow> widgets h w; Some (if may_have_choices x then int (length (w_choice x)) else GP_ERROR_BAD_PARAMETERS) })"

definition gp_widget_get_choice :: "nat option \<Rightarrow> int \<Rightarrow> heap \<Rightarrow> (int + string option) option" where
  "gp_widget_get_choice widget n h =
    (case widget of None \<Rightarrow> Some (Inl GP_ERROR_BAD_PARAMETERS)
     | Some w \<Rightarrow> do {
         x \<leftarrow> widgets h w;
         if may_have_choices x then element (w_choice x) n else Some (Inl GP_ERROR_BAD_PARAMETERS) })"

end
