(* ===== verification/Gp_Widget_Props.thy ===== *)
theory Gp_Widget_Props
  imports Gp_Widget
begin

text \<open>
  The widgets as trees. \<open>shape h p t\<close> says that the widgets of \<open>h\<close> form the tree \<open>t\<close> under the parent \<open>p\<close>; on trees the searches
  are the first match in preorder, and freeing removes just the tree. A front-end that appends only roots, and frees only roots, keeps
  all widgets in trees.
\<close>

section \<open>Trees\<close>

datatype wtree = WNode nat "wtree list"

fun root :: "wtree \<Rightarrow> nat" where
  "root (WNode a ts) = a"

text \<open>The addresses in preorder.\<close>

fun addrs :: "wtree \<Rightarrow> nat list" where
  "addrs (WNode a ts) = a # concat (map addrs ts)"

definition forest_addrs :: "wtree list \<Rightarrow> nat list" where
  "forest_addrs ts = concat (map addrs ts)"

fun shape :: "heap \<Rightarrow> nat option \<Rightarrow> wtree \<Rightarrow> bool" where
  "shape h p (WNode a ts) \<longleftrightarrow> (\<exists>x. widgets h a = Some x \<and> w_parent x = p \<and> w_children x = map root ts \<and> (ts \<noteq> [] \<longrightarrow> may_have_children x)) \<and>
     (\<forall>t\<in>set ts. shape h (Some a) t)"

lemma root_in: "root t \<in> set (addrs t)"
  by (cases t) simp

lemma forest_addrs_simps [simp]:
  "forest_addrs [] = []" "forest_addrs (t # ts) = addrs t @ forest_addrs ts" "forest_addrs (ts @ us) = forest_addrs ts @ forest_addrs us"
  by (simp_all add: forest_addrs_def)

lemma addrs_node: "addrs (WNode a ts) = a # forest_addrs ts"
  by (simp add: forest_addrs_def)

declare addrs.simps [simp del] addrs_node [simp]

lemma forest_addrs_set: "set (forest_addrs ts) = (\<Union>t\<in>set ts. set (addrs t))"
  by (simp add: forest_addrs_def)

lemma shape_live: "shape h p t \<Longrightarrow> a \<in> set (addrs t) \<Longrightarrow> widgets h a \<noteq> None"
  by (induction t arbitrary: p) (auto simp: forest_addrs_set)

lemma shape_cong: "(\<And>a. a \<in> set (addrs t) \<Longrightarrow> widgets h' a = widgets h a) \<Longrightarrow> shape h' p t = shape h p t"
  by (induction t arbitrary: p) (auto simp: forest_addrs_set)

section \<open>Searching\<close>

definition first_match :: "(CameraWidget \<Rightarrow> bool) \<Rightarrow> heap \<Rightarrow> nat list \<Rightarrow> nat option" where
  "first_match P h = find (\<lambda>a. case widgets h a of Some x \<Rightarrow> P x | None \<Rightarrow> False)"

lemma first_match_simps [simp]:
  "first_match P h [] = None"
  "first_match P h (a # as) = (if case widgets h a of Some x \<Rightarrow> P x | None \<Rightarrow> False then Some a else first_match P h as)"
  "first_match P h (as @ bs) = (case first_match P h as of Some y \<Rightarrow> Some y | None \<Rightarrow> first_match P h bs)"
proof -
  show "first_match P h (as @ bs) = (case first_match P h as of Some y \<Rightarrow> Some y | None \<Rightarrow> first_match P h bs)"
    by (induction as) (simp_all add: first_match_def)
qed (simp_all add: first_match_def)

lemma find_widget_Nil [simp]: "find_widget P h [] = Some None"
  by (subst find_widget.simps) simp

lemma find_widget_Cons:
  "find_widget P h (w # ws) = do {
     x \<leftarrow> widgets h w;
     if P x then Some (Some w)
     else do { r \<leftarrow> find_widget P h (w_children x); case r of Some y \<Rightarrow> Some (Some y) | None \<Rightarrow> find_widget P h ws } }"
  by (subst find_widget.simps) simp

text \<open>A tree in front of the widgets that are still to be visited.\<close>

lemma find_widget_tree:
  "shape h p t \<Longrightarrow> find_widget P h (root t # ws) = (case first_match P h (addrs t) of Some y \<Rightarrow> Some (Some y) | None \<Rightarrow> find_widget P h ws)"
proof (induction t arbitrary: p ws)
  case (WNode a ts)
  from WNode.prems obtain x where x: "widgets h a = Some x" "w_children x = map root ts" and ts: "\<forall>t\<in>set ts. shape h (Some a) t" by auto
  have f: "find_widget P h (map root us) = Some (first_match P h (forest_addrs us))" if "set us \<subseteq> set ts" for us
    using that
  proof (induction us)
    case (Cons u us)
    with ts WNode.IH [of u "Some a"] show ?case by (auto split: option.split)
  qed simp
  show ?case using x f [of ts] by (auto simp: find_widget_Cons split: option.split)
qed

lemma find_widget_root: "shape h p t \<Longrightarrow> find_widget P h [root t] = Some (first_match P h (addrs t))"
  using find_widget_tree [of h p t P "[]"] by (auto split: option.split)

text \<open>The way up.\<close>

fun subtrees :: "wtree \<Rightarrow> wtree list" where
  "subtrees (WNode a ts) = WNode a ts # concat (map subtrees ts)"

lemma subtree_of: "a \<in> set (addrs t) \<Longrightarrow> \<exists>u\<in>set (subtrees t). root u = a"
proof (induction t)
  case (WNode b ts)
  show ?case
  proof (cases "a = b")
    case False
    with WNode.prems obtain t where "t \<in> set ts" "a \<in> set (addrs t)" by (auto simp: forest_addrs_set)
    with WNode.IH show ?thesis by fastforce
  qed simp
qed

lemma subtree_shape: "shape h p t \<Longrightarrow> u \<in> set (subtrees t) \<Longrightarrow> \<exists>q. shape h q u"
proof (induction t arbitrary: p)
  case (WNode b ts)
  then show ?case
  proof (cases "u = WNode b ts")
    case True
    with WNode.prems show ?thesis by blast
  next
    case False
    with WNode.prems(2) obtain t where "t \<in> set ts" "u \<in> set (subtrees t)" by auto
    with WNode.IH WNode.prems(1) show ?thesis by fastforce
  qed
qed

lemma subtree_distinct: "distinct (addrs t) \<Longrightarrow> u \<in> set (subtrees t) \<Longrightarrow> distinct (addrs u)"
proof (induction t)
  case (WNode b ts)
  then show ?case
  proof (cases "u = WNode b ts")
    case False
    with WNode.prems(2) obtain t where t: "t \<in> set ts" "u \<in> set (subtrees t)" by auto
    then have "distinct (addrs t)" using WNode.prems(1) by (auto simp: forest_addrs_def distinct_concat_iff)
    with WNode.IH t show ?thesis by blast
  qed simp
qed

lemma root_of_up:
  assumes "shape h p t" and "a \<in> set (addrs t)"
  shows "root_of h a = (case p of None \<Rightarrow> Some (root t) | Some q \<Rightarrow> root_of h q)"
  using assms
proof (induction t arbitrary: p)
  case (WNode b ts)
  from WNode.prems(1) obtain x where x: "widgets h b = Some x" "w_parent x = p" by auto
  have b: "root_of h b = (case p of None \<Rightarrow> Some b | Some q \<Rightarrow> root_of h q)"
    by (subst root_of.simps) (simp add: x)
  show ?case
  proof (cases "a = b")
    case False
    with WNode.prems(2) obtain t where "t \<in> set ts" "a \<in> set (addrs t)" by (auto simp: forest_addrs_set)
    with WNode.IH [of t "Some b"] WNode.prems(1) have "root_of h a = root_of h b" by simp
    with b show ?thesis by (cases p) simp_all
  qed (use b in \<open>cases p; simp\<close>)
qed

text \<open>A widget in a tree, its children and its parent.\<close>

lemma root_shape: "shape h p t \<Longrightarrow> \<exists>x. widgets h (root t) = Some x \<and> w_parent x = p"
  by (cases t) auto

lemma distinct_roots: "distinct (forest_addrs ts) \<Longrightarrow> distinct (map root ts)"
proof (induction ts)
  case (Cons t ts)
  have "root t \<notin> set (map root ts)"
  proof
    assume "root t \<in> set (map root ts)"
    then obtain u where "u \<in> set ts" "root t \<in> set (addrs u)" using root_in by force
    with Cons.prems root_in [of t] show False by (auto simp: forest_addrs_set)
  qed
  with Cons show ?case by simp
qed simp

lemma node_children:
  "shape h p t \<Longrightarrow> distinct (addrs t) \<Longrightarrow> a \<in> set (addrs t) \<Longrightarrow> widgets h a = Some x \<Longrightarrow>
     (\<forall>c\<in>set (w_children x). \<exists>y. widgets h c = Some y \<and> w_parent y = Some a) \<and> distinct (w_children x)"
proof (induction t arbitrary: p)
  case (WNode b ts)
  show ?case
  proof (cases "a = b")
    case True
    with WNode.prems root_shape distinct_roots [of ts] show ?thesis by auto
  next
    case False
    with WNode.prems(3) obtain t where t: "t \<in> set ts" "a \<in> set (addrs t)" by (auto simp: forest_addrs_set)
    then have "distinct (addrs t)" using WNode.prems(2) by (auto simp: forest_addrs_def distinct_concat_iff)
    with WNode.IH [OF t(1), of "Some b"] WNode.prems(1,4) t show ?thesis by auto
  qed
qed

lemma node_parent:
  "shape h p t \<Longrightarrow> a \<in> set (addrs t) \<Longrightarrow> widgets h a = Some x \<Longrightarrow>
     (if a = root t then w_parent x = p else \<exists>q z. w_parent x = Some q \<and> widgets h q = Some z \<and> a \<in> set (w_children z))"
proof (induction t arbitrary: p)
  case (WNode b ts)
  show ?case
  proof (cases "a = b")
    case True
    with WNode.prems show ?thesis by auto
  next
    case False
    with WNode.prems(2) obtain t where t: "t \<in> set ts" "a \<in> set (addrs t)" by (auto simp: forest_addrs_set)
    with WNode.IH [OF t(1), of "Some b"] WNode.prems(1,3) have
      "if a = root t then w_parent x = Some b else \<exists>q z. w_parent x = Some q \<and> widgets h q = Some z \<and> a \<in> set (w_children z)" by simp
    with False t WNode.prems(1) show ?thesis by (auto split: if_splits)
  qed
qed

section \<open>Freeing\<close>

definition without :: "nat set \<Rightarrow> heap \<Rightarrow> heap" where
  "without A h = h\<lparr> widgets := (\<lambda>a. if a \<in> A then None else widgets h a) \<rparr>"

lemma without_simps [simp]: "widgets (without A h) a = (if a \<in> A then None else widgets h a)" "without B (without A h) = without (A \<union> B) h" "without {} h = h"
  by (auto simp: without_def fun_eq_iff)

lemma free_widgets_Nil [simp]: "free_widgets [] h = Some h"
  by (subst free_widgets.simps) simp

lemma free_widgets_Cons:
  "free_widgets (w # ws) h = do {
     x \<leftarrow> widgets h w;
     h \<leftarrow> (if may_have_children x then free_widgets (w_children x) h else Some h);
     x \<leftarrow> widgets h w;
     free_widgets ws (without {w} h) }"
  by (subst free_widgets.simps) (simp add: without_def fun_upd_def if_distrib cong: if_cong)

lemma free_widgets_tree:
  "shape h p t \<Longrightarrow> distinct (addrs t) \<Longrightarrow> free_widgets (root t # ws) h = free_widgets ws (without (set (addrs t)) h)"
proof (induction t arbitrary: p ws h)
  case (WNode a ts)
  from WNode.prems obtain x where x: "widgets h a = Some x" "w_children x = map root ts" "ts \<noteq> [] \<longrightarrow> may_have_children x"
    and ts: "\<forall>t\<in>set ts. shape h (Some a) t" and d: "a \<notin> set (forest_addrs ts)" "distinct (forest_addrs ts)" by auto
  have f: "free_widgets (map root us) h' = Some (without (set (forest_addrs us)) h')"
    if "set us \<subseteq> set ts" "distinct (forest_addrs us)" "\<forall>u\<in>set us. shape h' (Some a) u" for us h'
    using that
  proof (induction us arbitrary: h')
    case (Cons u us)
    have "\<forall>v\<in>set us. shape (without (set (addrs u)) h') (Some a) v"
    proof
      fix v assume v: "v \<in> set us"
      with Cons.prems(2) have "set (addrs u) \<inter> set (addrs v) = {}" by (auto simp: forest_addrs_set)
      then have "shape (without (set (addrs u)) h') (Some a) v = shape h' (Some a) v" by (intro shape_cong) auto
      with Cons.prems(3) v show "shape (without (set (addrs u)) h') (Some a) v" by simp
    qed
    with Cons WNode.IH [of u h' "Some a" "map root us"] show ?case by (simp add: Un_commute)
  qed simp
  have "(if may_have_children x then free_widgets (w_children x) h else Some h) = Some (without (set (forest_addrs ts)) h)"
    using f [of ts h] x d ts by (cases "ts = []") auto
  then show ?case using x(1) d by (simp add: free_widgets_Cons)
qed

section \<open>Adding a tree to a tree\<close>

text \<open>\<open>f\<close> changes the children of the widget at \<open>a\<close>.\<close>

fun graft :: "nat \<Rightarrow> (wtree list \<Rightarrow> wtree list) \<Rightarrow> wtree \<Rightarrow> wtree" where
  "graft a f (WNode b ss) = WNode b (if a = b then f ss else map (graft a f) ss)"

lemma graft_root [simp]: "root (graft a f t) = root t"
  by (cases t) simp

lemma graft_same: "a \<notin> set (addrs t) \<Longrightarrow> graft a f t = t"
  by (induction t) (auto simp: forest_addrs_set intro: map_idI)

lemma graft_forest:
  assumes "\<And>u. u \<in> set us \<Longrightarrow> distinct (addrs u) \<Longrightarrow> mset (addrs (graft a f u)) = mset (addrs u) + (if a \<in> set (addrs u) then M else {#})"
  shows "distinct (forest_addrs us) \<Longrightarrow>
    mset (forest_addrs (map (graft a f) us)) = mset (forest_addrs us) + (if a \<in> set (forest_addrs us) then M else {#})"
  using assms by (induction us) auto

lemma graft_addrs:
  assumes "\<And>ss. mset (forest_addrs (f ss)) = mset (forest_addrs ss) + M"
  shows "distinct (addrs t) \<Longrightarrow> mset (addrs (graft a f t)) = mset (addrs t) + (if a \<in> set (addrs t) then M else {#})"
proof (induction t)
  case (WNode b ss)
  show ?case
  proof (cases "a = b")
    case False
    with WNode graft_forest [of ss a f M] show ?thesis by auto
  qed (use assms in simp)
qed

lemma graft_shape:
  assumes k: "\<And>ss. map root (f ss) = k (map root ss)" "\<And>ss. set (f ss) \<subseteq> insert t' (set ss)" and t': "shape h' (Some a) t'"
    and a: "\<And>x. widgets h a = Some x \<Longrightarrow> may_have_children x \<and> widgets h' a = Some (x\<lparr> w_children := k (w_children x) \<rparr>)"
  shows "shape h p t \<Longrightarrow> distinct (addrs t) \<Longrightarrow> \<forall>b\<in>set (addrs t). b \<noteq> a \<longrightarrow> widgets h' b = widgets h b \<Longrightarrow> shape h' p (graft a f t)"
proof (induction t arbitrary: p)
  case (WNode b ss)
  from WNode.prems(1) obtain x where x: "widgets h b = Some x" "w_parent x = p" "w_children x = map root ss" "ss \<noteq> [] \<longrightarrow> may_have_children x"
    and ss: "\<forall>t\<in>set ss. shape h (Some b) t" by auto
  show ?case
  proof (cases "a = b")
    case True
    have "shape h' (Some b) u" if "u \<in> set ss" for u
    proof -
      have "b \<notin> set (addrs u)" using WNode.prems(2) that by (auto simp: forest_addrs_set)
      with WNode.prems(3) that True have "shape h' (Some b) u = shape h (Some b) u" by (intro shape_cong) (auto simp: forest_addrs_set)
      with ss that show ?thesis by simp
    qed
    with t' k(2) [of ss] True have "\<forall>u\<in>set (f ss). shape h' (Some b) u" by blast
    moreover have "may_have_children (x\<lparr> w_children := k (w_children x) \<rparr>)" using a x(1) True by (simp add: may_have_children_def)
    ultimately show ?thesis using a x True k(1) by auto
  next
    case False
    have "shape h' (Some b) (graft a f u)" if "u \<in> set ss" for u
    proof (rule WNode.IH [OF that])
      show "shape h (Some b) u" using ss that by simp
      show "distinct (addrs u)" using WNode.prems(2) that by (induction ss) (auto simp: forest_addrs_set)
      show "\<forall>c\<in>set (addrs u). c \<noteq> a \<longrightarrow> widgets h' c = widgets h c" using WNode.prems(3) that by (auto simp: forest_addrs_set)
    qed
    moreover have "widgets h' b = widgets h b" using WNode.prems(3) False by simp
    ultimately show ?thesis using False x by (auto simp: comp_def)
  qed
qed

section \<open>Forests\<close>

definition forest :: "heap \<Rightarrow> wtree list \<Rightarrow> bool" where
  "forest h ts \<longleftrightarrow> distinct (forest_addrs ts) \<and> set (forest_addrs ts) = dom (widgets h) \<and> (\<forall>t\<in>set ts. shape h None t) \<and>
     (\<forall>a\<in>dom (widgets h). a < fresh_addr h)"

lemma forest_tree:
  assumes "forest h ts" and "widgets h a \<noteq> None"
  shows "\<exists>t\<in>set ts. a \<in> set (addrs t) \<and> root_of h a = Some (root t)"
proof -
  from assms have "a \<in> set (forest_addrs ts)" unfolding forest_def by (simp add: domIff)
  then obtain t where t: "t \<in> set ts" "a \<in> set (addrs t)" by (auto simp: forest_addrs_set)
  with assms(1) root_of_up [of h None t a] show ?thesis unfolding forest_def by auto
qed

text \<open>What the trees depend on.\<close>

definition links :: "CameraWidget \<Rightarrow> CameraWidgetType \<times> nat option \<times> nat list" where
  "links x = (w_type x, w_parent x, w_children x)"

definition same_links :: "heap \<Rightarrow> heap \<Rightarrow> bool" where
  "same_links h h' \<longleftrightarrow> (\<forall>a. map_option links (widgets h' a) = map_option links (widgets h a)) \<and> fresh_addr h' = fresh_addr h"

lemma shape_links:
  assumes "same_links h h'"
  shows "shape h p t \<Longrightarrow> shape h' p t"
proof (induction t arbitrary: p)
  case (WNode a ts)
  then obtain x where x: "widgets h a = Some x" "w_parent x = p" "w_children x = map root ts" "ts \<noteq> [] \<longrightarrow> may_have_children x" by auto
  from assms x(1) obtain y where "widgets h' a = Some y" "links y = links x" unfolding same_links_def by (metis map_option_eq_Some option.map(2))
  with x WNode show ?case by (auto simp: links_def may_have_children_def)
qed

lemma forest_links:
  assumes "forest h ts" and s: "same_links h h'"
  shows "forest h' ts"
proof -
  have "widgets h' a = None \<longleftrightarrow> widgets h a = None" for a
    using s unfolding same_links_def by (metis map_option_is_None)
  then have "dom (widgets h') = dom (widgets h)" by (auto simp: dom_def)
  with assms shape_links [OF s] show ?thesis unfolding forest_def same_links_def by simp
qed

text \<open>A tree whose root is known to have no parent is one of the forest.\<close>

lemma forest_root:
  assumes f: "forest h ts" and y: "widgets h c = Some y" "w_parent y = None"
  shows "\<exists>t us vs. ts = us @ t # vs \<and> root t = c"
proof -
  obtain t where t: "t \<in> set ts" "root_of h c = Some (root t)" using forest_tree [OF f, of c] y by auto
  have "root_of h c = Some c" by (subst root_of.simps) (simp add: y)
  with t split_list [OF t(1)] show ?thesis by auto
qed

lemma forest_split:
  "forest h (us @ t # vs) \<longleftrightarrow> distinct (addrs t) \<and> distinct (forest_addrs (us @ vs)) \<and> set (addrs t) \<inter> set (forest_addrs (us @ vs)) = {} \<and>
     set (addrs t) \<union> set (forest_addrs (us @ vs)) = dom (widgets h) \<and> shape h None t \<and> (\<forall>u\<in>set (us @ vs). shape h None u) \<and>
     (\<forall>a\<in>dom (widgets h). a < fresh_addr h)"
  unfolding forest_def by (auto simp: Un_ac)

lemma forest_add_child:
  assumes f: "forest h ts" and w: "widgets h w = Some x" "may_have_children x" and c: "widgets h c = Some y" "w_parent y = None"
    and up: "root_of h w \<noteq> Some c" and k: "k = (\<lambda>cs. cs @ [c]) \<or> k = (\<lambda>cs. c # cs)"
    and h': "widgets h' = (widgets h)(w \<mapsto> x\<lparr> w_children := k (w_children x) \<rparr>, c \<mapsto> y\<lparr> w_parent := Some w, w_changed := 0 \<rparr>)" "fresh_addr h' = fresh_addr h"
  shows "\<exists>ts'. forest h' ts'"
proof -
  obtain t us vs where ts: "ts = us @ t # vs" and t: "root t = c" using forest_root [OF f c] by blast
  have F: "distinct (addrs t)" "distinct (forest_addrs (us @ vs))" "set (addrs t) \<inter> set (forest_addrs (us @ vs)) = {}"
    "set (addrs t) \<union> set (forest_addrs (us @ vs)) = dom (widgets h)" "shape h None t" "\<forall>u\<in>set (us @ vs). shape h None u"
    "\<forall>a\<in>dom (widgets h). a < fresh_addr h"
    using f unfolding ts forest_split by blast+
  have wt: "w \<notin> set (addrs t)" using root_of_up [OF F(5), of w] up t by auto
  then have wd: "w \<in> set (forest_addrs (us @ vs))" using F(4) w(1) by auto
  have cw: "c \<noteq> w" using root_in [of t] t wt by auto
  define g where "g = (if k = (\<lambda>cs. c # cs) then (\<lambda>ss. t # ss) else (\<lambda>ss. ss @ [t]))"
  have kg: "map root (g ss) = k (map root ss)" "set (g ss) \<subseteq> insert t (set ss)" "mset (forest_addrs (g ss)) = mset (forest_addrs ss) + mset (addrs t)" for ss
    using k t by (auto simp: g_def)
  have t': "shape h' (Some w) t"
  proof -
    obtain ss where T: "t = WNode c ss" using t by (cases t) auto
    have "shape h' (Some c) u" if "u \<in> set ss" for u
    proof -
      have "c \<notin> set (addrs u)" "w \<notin> set (addrs u)" using F(1) wt that T by (auto simp: forest_addrs_set)
      then have "shape h' (Some c) u = shape h (Some c) u" using h'(1) by (intro shape_cong) auto
      with F(5) T that show ?thesis by simp
    qed
    with F(5) T h'(1) c show ?thesis by (auto simp: may_have_children_def)
  qed
  let ?G = "map (graft w g) (us @ vs)"
  have m: "mset (forest_addrs ?G) = mset (forest_addrs (us @ vs)) + mset (addrs t)"
    using graft_forest [of "us @ vs" w g "mset (addrs t)", OF graft_addrs [OF kg(3)] F(2)] wd by simp
  have sh: "shape h' None (graft w g u)" if "u \<in> set (us @ vs)" for u
  proof (rule graft_shape [OF kg(1,2) t'])
    show "shape h None u" using F(6) that by blast
    show "distinct (addrs u)" using F(2) that by (auto simp: forest_addrs_def distinct_concat_iff)
    have "set (addrs u) \<subseteq> set (forest_addrs (us @ vs))" using that by (auto simp: forest_addrs_set)
    then have "c \<notin> set (addrs u)" using F(3) root_in [of t] t by auto
    then show "\<forall>b\<in>set (addrs u). b \<noteq> w \<longrightarrow> widgets h' b = widgets h b" using h'(1) by auto
  qed (use w h'(1) cw in auto)
  have "distinct (forest_addrs ?G)"
  proof -
    have "mset (forest_addrs ?G) = mset (forest_addrs (us @ vs) @ addrs t)" using m by simp
    then have "distinct (forest_addrs ?G) = distinct (forest_addrs (us @ vs) @ addrs t)" by (rule mset_eq_imp_distinct_iff)
    with F(1-3) show ?thesis by auto
  qed
  moreover have "set (forest_addrs ?G) = dom (widgets h')"
  proof -
    have "set (forest_addrs ?G) = set (forest_addrs (us @ vs)) \<union> set (addrs t)" using m by (metis set_mset_mset set_mset_union)
    then show ?thesis using F(4) h'(1) w c by (auto simp del: forest_addrs_simps)
  qed
  moreover have "\<forall>a\<in>dom (widgets h'). a < fresh_addr h'" using F(7) h' w(1) c(1) by auto
  ultimately have "forest h' ?G" unfolding forest_def using sh by auto
  then show ?thesis by blast
qed

lemma forest_free:
  assumes f: "forest h ts" and y: "widgets h c = Some y" "w_parent y = None"
  shows "\<exists>t ts'. root t = c \<and> shape h None t \<and> distinct (addrs t) \<and> free_widgets [c] h = Some (without (set (addrs t)) h) \<and> forest (without (set (addrs t)) h) ts'"
proof -
  obtain t us vs where ts: "ts = us @ t # vs" and t: "root t = c" using forest_root [OF f y] by blast
  have F: "distinct (addrs t)" "distinct (forest_addrs (us @ vs))" "set (addrs t) \<inter> set (forest_addrs (us @ vs)) = {}"
    "set (addrs t) \<union> set (forest_addrs (us @ vs)) = dom (widgets h)" "shape h None t" "\<forall>u\<in>set (us @ vs). shape h None u"
    "\<forall>a\<in>dom (widgets h). a < fresh_addr h"
    using f unfolding ts forest_split by blast+
  let ?h = "without (set (addrs t)) h"
  have "shape ?h None u" if "u \<in> set (us @ vs)" for u
  proof -
    have "set (addrs u) \<inter> set (addrs t) = {}" using F(3) that by (auto simp: forest_addrs_set)
    then have "shape ?h None u = shape h None u" by (intro shape_cong) auto
    with F(6) that show ?thesis by simp
  qed
  moreover have "dom (widgets ?h) = dom (widgets h) - set (addrs t)" by (auto simp: dom_def)
  moreover have "fresh_addr ?h = fresh_addr h" by (simp add: without_def)
  moreover have "set (forest_addrs (us @ vs)) = dom (widgets h) - set (addrs t)" using F(3,4) by blast
  ultimately have "forest ?h (us @ vs)" using F(2,7) unfolding forest_def by auto
  with free_widgets_tree [OF F(5,1), of "[]"] t F(1,5) show ?thesis by (intro exI [of _ t] exI [of _ "us @ vs"]) simp
qed

section \<open>What a front-end may do\<close>

lemma may_alloc_keeps [simp]:
  assumes "may_alloc h = (ok, h')"
  shows "widgets h' = widgets h" "fresh_addr h' = fresh_addr h" "next_id h' = next_id h"
  using assms by (auto simp: may_alloc_def split: list.splits)

lemma strdup_keeps:
  assumes "strdup_w s h = (p, h')"
  shows "widgets h' = widgets h" "fresh_addr h' = fresh_addr h" "p = Some s \<or> p = None"
  using assms by (auto simp: strdup_w_def split: prod.splits if_splits)

lemma same_links_refl [simp]: "same_links h h"
  by (simp add: same_links_def)

lemma same_links_put:
  assumes "widgets h1 = widgets h" "fresh_addr h1 = fresh_addr h" "widgets h w = Some x" "links y = links x"
  shows "same_links h (put_widget w y h1)"
  using assms by (simp add: same_links_def put_widget_def)

lemma may_alloc_links: "may_alloc h = (ok, h') \<Longrightarrow> same_links h h'"
  by (simp add: same_links_def)

lemma change_links:
  assumes "change_widget f w h = Some (r, h')" and "\<And>x. links (f x) = links x"
  shows "same_links h h'"
  using assms by (auto simp: change_widget_def intro: same_links_put split: option.splits bind_splits)

lemma set_string_links:
  assumes "set_string n f w s h = Some (r, h')" and "\<And>s x. links (f s x) = links x"
  shows "same_links h h'"
  using assms by (auto simp: set_string_def split: option.splits if_splits elim!: change_links)

text \<open>Calls that leave the trees as they are.\<close>

inductive plain_call :: "heap \<Rightarrow> heap \<Rightarrow> bool" where
  "gp_widget_ref w h = Some (r, h') \<Longrightarrow> plain_call h h'"
| "gp_widget_set_info w s h = Some (r, h') \<Longrightarrow> plain_call h h'"
| "gp_widget_set_name w s h = Some (r, h') \<Longrightarrow> plain_call h h'"
| "gp_widget_set_changed w i h = Some (r, h') \<Longrightarrow> plain_call h h'"
| "gp_widget_set_readonly w i h = Some (r, h') \<Longrightarrow> plain_call h h'"
| "gp_widget_changed w h = Some (r, h') \<Longrightarrow> plain_call h h'"
| "gp_widget_set_value w v h = Some (r, h') \<Longrightarrow> plain_call h h'"
| "gp_widget_set_range w a b c h = Some (r, h') \<Longrightarrow> plain_call h h'"
| "gp_widget_add_choice w s h = Some (r, h') \<Longrightarrow> plain_call h h'"

lemma store_value_keeps:
  assumes "store_value x v h = Some (r, y, h')"
  shows "links y = links x" "widgets h' = widgets h" "fresh_addr h' = fresh_addr h"
proof -
  have "links y = links x \<and> widgets h' = widgets h \<and> fresh_addr h' = fresh_addr h"
    using assms
    by (auto simp: store_value_def links_def Let_def strdup_w_def split: CameraWidgetType.splits wvalue.splits option.splits prod.splits if_splits)
  then show "links y = links x" "widgets h' = widgets h" "fresh_addr h' = fresh_addr h" by blast+
qed

lemma plain_call_links: "plain_call h h' \<Longrightarrow> same_links h h'"
proof (induction rule: plain_call.induct)
  case (7 w v h r h')
  then show ?case
    by (auto simp: gp_widget_set_value_def split: option.splits bind_splits intro!: same_links_put dest: store_value_keeps)
next
  case (9 w s h r h')
  show ?case
  proof (cases "w = None \<or> s = None")
    case True
    with 9 show ?thesis by (auto simp: gp_widget_add_choice_def split: option.splits)
  next
    case False
    then obtain v c where v: "w = Some v" "s = Some c" by auto
    with 9 obtain x where x: "widgets h v = Some x" by (auto simp: gp_widget_add_choice_def split: bind_splits)
    obtain ok h1 where h1: "may_alloc h = (ok, h1)" by fastforce
    obtain q h2 where h2: "strdup_w c h1 = (q, h2)" by fastforce
    let ?y = "x\<lparr> w_choice := w_choice x @ [q] \<rparr>"
    have "same_links h (put_widget v ?y h2)"
      using may_alloc_keeps [OF h1] strdup_keeps [OF h2] by (intro same_links_put [OF _ _ x]) (simp_all add: links_def)
    with 9 v x h1 h2 may_alloc_links [OF h1] show ?thesis by (simp add: gp_widget_add_choice_def split: if_splits)
  qed
next
  case (6 w h r h')
  then show ?case by (auto simp: gp_widget_changed_def links_def split: option.splits bind_splits intro!: same_links_put)
next
  case (8 w a b c h r h')
  show ?case
  proof (cases w)
    case None
    with 8 show ?thesis by (simp add: gp_widget_set_range_def)
  next
    case (Some v)
    with 8 obtain x where x: "widgets h v = Some x" by (auto simp: gp_widget_set_range_def split: bind_splits)
    let ?y = "x\<lparr> w_min := a, w_max := b, w_increment := c \<rparr>"
    have "same_links h (put_widget v ?y h)" by (rule same_links_put [OF refl refl x]) (simp add: links_def)
    with 8 Some x show ?thesis by (simp add: gp_widget_set_range_def split: if_splits)
  qed
qed (unfold gp_widget_ref_def gp_widget_set_info_def gp_widget_set_name_def gp_widget_set_changed_def gp_widget_set_readonly_def,
  (erule change_links set_string_links, simp add: links_def)+)

text \<open>
  A program that appends and prepends only roots, to a widget of another tree, and that frees and releases only roots. New widgets, all
  other calls, and NULL or failing allocations come without restriction.
\<close>

definition is_root :: "heap \<Rightarrow> nat \<Rightarrow> bool" where
  "is_root h c \<longleftrightarrow> (\<exists>y. widgets h c = Some y \<and> w_parent y = None)"

inductive widget_run :: "heap \<Rightarrow> bool" where
  start: "widgets h = Map.empty \<Longrightarrow> widget_run h"
| new: "widget_run h \<Longrightarrow> gp_widget_new ty lab h = Some (r, h') \<Longrightarrow> widget_run h'"
| plain: "widget_run h \<Longrightarrow> plain_call h h' \<Longrightarrow> widget_run h'"
| append: "widget_run h \<Longrightarrow> is_root h c \<Longrightarrow> root_of h w \<noteq> Some c \<Longrightarrow> gp_widget_append (Some w) (Some c) h = Some (r, h') \<Longrightarrow> widget_run h'"
| prepend: "widget_run h \<Longrightarrow> is_root h c \<Longrightarrow> root_of h w \<noteq> Some c \<Longrightarrow> gp_widget_prepend (Some w) (Some c) h = Some (r, h') \<Longrightarrow> widget_run h'"
| free: "widget_run h \<Longrightarrow> is_root h c \<Longrightarrow> gp_widget_free (Some c) h = Some (r, h') \<Longrightarrow> widget_run h'"
| unref: "widget_run h \<Longrightarrow> is_root h c \<Longrightarrow> gp_widget_unref (Some c) h = Some (r, h') \<Longrightarrow> widget_run h'"

lemma add_child_forest:
  assumes f: "forest h ts" and r: "is_root h c" and up: "root_of h w \<noteq> Some c" and k: "g = (\<lambda>c cs. cs @ [c]) \<or> g = (\<lambda>c cs. c # cs)"
    and a: "add_child g (Some w) (Some c) h = Some (ret, h')"
  shows "\<exists>ts'. forest h' ts'"
proof -
  from r obtain y where y: "widgets h c = Some y" "w_parent y = None" unfolding is_root_def by blast
  have cw: "c \<noteq> w"
  proof
    assume "c = w"
    then have "root_of h w = Some c" by (subst root_of.simps) (simp add: y(1)[unfolded \<open>c = w\<close>] y(2))
    with up show False by simp
  qed
  from a obtain x where x: "widgets h w = Some x" by (auto simp: add_child_def split: bind_splits)
  obtain ok h1 where al: "may_alloc h = (ok, h1)" by fastforce
  show ?thesis
  proof (cases "may_have_children x \<and> ok")
    case False
    with a x al have "same_links h h'" by (auto simp: add_child_def same_links_def split: if_splits)
    with f forest_links show ?thesis by blast
  next
    case True
    with a x y al cw have "widgets h' = (widgets h)(w \<mapsto> x\<lparr> w_children := g c (w_children x) \<rparr>, c \<mapsto> y\<lparr> w_parent := Some w, w_changed := 0 \<rparr>)"
      "fresh_addr h' = fresh_addr h" by (auto simp: add_child_def put_widget_def)
    then show ?thesis using forest_add_child [OF f x _ y up _ _] True k by blast
  qed
qed

lemma same_links_root: "same_links h h' \<Longrightarrow> is_root h c \<Longrightarrow> is_root h' c"
  unfolding same_links_def is_root_def links_def
  by (metis (mono_tags, lifting) option.map_disc_iff option.map_sel option.sel not_None_eq prod.inject)

lemma new_forest:
  assumes f: "forest h ts" and n: "gp_widget_new ty lab h = Some (r, h')"
  shows "\<exists>ts'. forest h' ts'"
proof (cases lab)
  case None
  with f n show ?thesis by (auto simp: gp_widget_new_def)
next
  case (Some l)
  obtain ok h1 where al: "may_alloc h = (ok, h1)" by fastforce
  let ?a = "fresh_addr h"
  from n Some al obtain x where h': "widgets h' = (widgets h)(?a \<mapsto> x)" "fresh_addr h' = ?a + 1" "w_parent x = None" "w_children x = []"
    by (auto simp: gp_widget_new_def put_widget_def Let_def split: if_splits)
  have a: "?a \<notin> dom (widgets h)" using f unfolding forest_def by blast
  have "shape h' None t" if "t \<in> set ts" for t
  proof -
    have "?a \<notin> set (addrs t)" using f a that unfolding forest_def by (metis (no_types) UN_I forest_addrs_set)
    then have "shape h' None t = shape h None t" using h'(1) by (intro shape_cong) auto
    with f that show ?thesis unfolding forest_def by simp
  qed
  with f h' a have "forest h' (WNode ?a [] # ts)" unfolding forest_def by (auto simp: less_Suc_eq)
  then show ?thesis by blast
qed

lemma widget_run_forest: "widget_run h \<Longrightarrow> \<exists>ts. forest h ts"
proof (induction rule: widget_run.induct)
  case (start h)
  then have "forest h []" by (simp add: forest_def)
  then show ?case by blast
next
  case (new h ty lab r h')
  then show ?case using new_forest by blast
next
  case (plain h h')
  then show ?case using plain_call_links forest_links by blast
next
  case (append h c w r h')
  then show ?case using add_child_forest [of h _ c w "\<lambda>c cs. cs @ [c]" r h'] unfolding gp_widget_append_def by blast
next
  case (prepend h c w r h')
  then show ?case using add_child_forest [of h _ c w "\<lambda>c cs. c # cs" r h'] unfolding gp_widget_prepend_def by blast
next
  case (free h c r h')
  then obtain ts y where "forest h ts" "widgets h c = Some y" "w_parent y = None" unfolding is_root_def by blast
  from forest_free [OF this] free(3) show ?case by (auto simp: gp_widget_free_def)
next
  case (unref h c r h')
  then obtain ts y where ts: "forest h ts" and y: "widgets h c = Some y" "w_parent y = None" unfolding is_root_def by blast
  let ?y = "y\<lparr> w_ref_count := w_ref_count y - 1 \<rparr>"
  have s: "same_links h (put_widget c ?y h)" by (rule same_links_put [OF refl refl y(1)]) (simp add: links_def)
  from forest_free [OF forest_links [OF ts s], of c ?y] unref(3) y forest_links [OF ts s]
  show ?case by (auto simp: gp_widget_unref_def gp_widget_free_def put_widget_def Let_def split: if_splits)
qed

section \<open>Properties\<close>

text \<open>C12: However a front-end creates, changes, appends (roots only) and frees (roots only) widgets, with any answers of the allocator: every child of a live widget is
  live, has this widget as its parent and stands in no other list, every parent is live, and every way up ends at a root.\<close>
theorem widgets_stay_trees:
  assumes "widget_run h" and "widgets h a = Some x"
  shows "(\<forall>c\<in>set (w_children x). \<exists>y. widgets h c = Some y \<and> w_parent y = Some a) \<and> distinct (w_children x) \<and>
    (\<forall>p. w_parent x = Some p \<longrightarrow> (\<exists>z. widgets h p = Some z \<and> a \<in> set (w_children z))) \<and>
    (\<exists>r. gp_widget_get_root (Some a) h = Some (Inr r) \<and> is_root h r)"
proof -
  obtain ts where f: "forest h ts" using widget_run_forest [OF assms(1)] by blast
  obtain t where t: "t \<in> set ts" "a \<in> set (addrs t)" "root_of h a = Some (root t)" using forest_tree [OF f] assms(2) by blast
  have sh: "shape h None t" and d: "distinct (addrs t)"
    using f t(1) unfolding forest_def by (auto simp: forest_addrs_def distinct_concat_iff)
  have kids: "(\<forall>c\<in>set (w_children x). \<exists>y. widgets h c = Some y \<and> w_parent y = Some a) \<and> distinct (w_children x)"
    using node_children [OF sh d t(2) assms(2)] .
  have par: "\<exists>z. widgets h p = Some z \<and> a \<in> set (w_children z)" if "w_parent x = Some p" for p
    using node_parent [OF sh t(2) assms(2)] that by (cases "a = root t") simp_all
  have "is_root h (root t)" using sh by (cases t) (auto simp: is_root_def)
  with kids par t(3) show ?thesis by (simp add: gp_widget_get_root_def)
qed

text \<open>C13: In such a program the three searches end, and give the first widget in preorder below (and including) the one they start at that has the label, name or number,
  or \<open>GP_ERROR_BAD_PARAMETERS\<close> when there is none.\<close>
theorem child_search_preorder:
  assumes "widget_run h" and "widgets h a = Some x"
  shows "\<exists>t. shape h (w_parent x) t \<and> root t = a \<and>
    (\<forall>s. gp_widget_get_child_by_name (Some a) (Some s) h = Some (found (first_match (\<lambda>x. w_name x = s) h (addrs t)))) \<and>
    (\<forall>s. gp_widget_get_child_by_label (Some a) (Some s) h = Some (found (first_match (\<lambda>x. w_label x = s) h (addrs t)))) \<and>
    (\<forall>i. gp_widget_get_child_by_id (Some a) i h = Some (found (first_match (\<lambda>x. w_id x = i) h (addrs t))))"
proof -
  obtain ts where f: "forest h ts" using widget_run_forest [OF assms(1)] by blast
  obtain t where t: "t \<in> set ts" "a \<in> set (addrs t)" using forest_tree [OF f] assms(2) by blast
  have sh: "shape h None t" using f t(1) unfolding forest_def by blast
  from subtree_of [OF t(2)] obtain u where u: "u \<in> set (subtrees t)" "root u = a" by blast
  from subtree_shape [OF sh u(1)] obtain q where q: "shape h q u" by blast
  with root_shape [OF q] u(2) assms(2) have "shape h (w_parent x) u" by simp
  with u(2) find_widget_root [OF q] show ?thesis
    by (intro exI [of _ u]) (simp add: gp_widget_get_child_by_name_def gp_widget_get_child_by_label_def gp_widget_get_child_by_id_def)
qed

text \<open>C14: The last \<open>gp_widget_unref\<close> of a root frees its tree and nothing else, whatever the reference counts of the widgets below it; an earlier one only counts.\<close>
theorem unref_frees_tree:
  assumes "widget_run h" and "widgets h a = Some x" and "w_parent x = None"
  shows "\<exists>t h'. shape h None t \<and> root t = a \<and> gp_widget_unref (Some a) h = Some (GP_OK, h') \<and>
    widgets h' = (if w_ref_count x = 1 then (\<lambda>b. if b \<in> set (addrs t) then None else widgets h b)
      else (widgets h)(a \<mapsto> x\<lparr> w_ref_count := w_ref_count x - 1 \<rparr>))"
proof -
  obtain ts where f: "forest h ts" using widget_run_forest [OF assms(1)] by blast
  let ?y = "x\<lparr> w_ref_count := w_ref_count x - 1 \<rparr>" and ?h = "put_widget a (x\<lparr> w_ref_count := w_ref_count x - 1 \<rparr>) h"
  have s: "same_links h ?h" by (rule same_links_put [OF refl refl assms(2)]) (simp add: links_def)
  have y: "widgets ?h a = Some ?y" "w_parent ?y = None" using assms(3) by (simp_all add: put_widget_def)
  obtain t ts' where t: "root t = a" "shape ?h None t" "free_widgets [a] ?h = Some (without (set (addrs t)) ?h)"
    using forest_free [OF forest_links [OF f s] y] by blast
  have "same_links ?h h" using s by (simp add: same_links_def)
  from shape_links [OF this t(2)] have "shape h None t" .
  moreover have "a \<in> set (addrs t)" using root_in [of t] t(1) by simp
  ultimately show ?thesis using t assms(2) unfolding gp_widget_unref_def
    by (intro exI [of _ t]) (auto simp: gp_widget_free_def put_widget_def Let_def fun_eq_iff)
qed

text \<open>C15: Freeing a widget that stands in a list of children leaves its pointer there: the next search that comes past it reads the freed widget.\<close>
theorem freed_child_dangles:
  assumes "widget_run h" and "widgets h a = Some x" and "w_children x = c # cs" and "w_name x \<noteq> nm"
  shows "\<exists>h'. gp_widget_free (Some c) h = Some (GP_OK, h') \<and> gp_widget_get_child_by_name (Some a) (Some nm) h' = None"
proof -
  obtain ts where f: "forest h ts" using widget_run_forest [OF assms(1)] by blast
  obtain t where t: "t \<in> set ts" "a \<in> set (addrs t)" using forest_tree [OF f] assms(2) by blast
  have sh: "shape h None t" and d: "distinct (addrs t)"
    using f t(1) unfolding forest_def by (auto simp: forest_addrs_def distinct_concat_iff)
  from subtree_of [OF t(2)] obtain u where u: "u \<in> set (subtrees t)" "root u = a" by blast
  from subtree_shape [OF sh u(1)] obtain q where q: "shape h q u" by blast
  have du: "distinct (addrs u)" by (rule subtree_distinct [OF d u(1)])
  obtain v vs where U: "u = WNode a (v # vs)" "root v = c" "shape h (Some a) v"
  proof -
    obtain us where "u = WNode a us" using u(2) by (cases u) auto
    with q assms(2,3) that show thesis by (cases us) auto
  qed
  have fr: "free_widgets [c] h = Some (without (set (addrs v)) h)"
    using free_widgets_tree [OF U(3), of "[]"] du U(1,2) by simp
  let ?h = "without (set (addrs v)) h"
  have "a \<notin> set (addrs v)" using du U(1) by simp
  then have a: "widgets ?h a = Some x" using assms(2) by simp
  have c: "widgets ?h c = None" using root_in [of v] U(2) by simp
  have "find_widget (\<lambda>x. w_name x = nm) ?h [a] = None"
    using a c assms(3,4) by (simp add: find_widget_Cons)
  with fr show ?thesis by (simp add: gp_widget_free_def gp_widget_get_child_by_name_def)
qed

definition takes_value :: "CameraWidget \<Rightarrow> wvalue \<Rightarrow> bool" where
  "takes_value x v = (case v of
     ACallback _ \<Rightarrow> w_type x = GP_WIDGET_BUTTON
   | AFloat _ \<Rightarrow> w_type x = GP_WIDGET_RANGE
   | AnInt _ \<Rightarrow> w_type x \<in> {GP_WIDGET_DATE, GP_WIDGET_TOGGLE}
   | AString s \<Rightarrow> s \<noteq> None \<and> w_type x \<in> {GP_WIDGET_MENU, GP_WIDGET_RADIO, GP_WIDGET_TEXT})"

definition differs :: "CameraWidget \<Rightarrow> wvalue \<Rightarrow> bool" where
  "differs x v = (case v of
     ACallback _ \<Rightarrow> False
   | AFloat f \<Rightarrow> float_ne (w_value_float x) f
   | AnInt i \<Rightarrow> w_value_int x \<noteq> i
   | AString s \<Rightarrow> w_value_string x \<noteq> s)"

text \<open>A value of the kind that a widget has is read back as it was set (a float that compares equal to the old one is not stored), and the widget counts as changed
  from then on just if the value differs from the old one; setting a callback does not count.\<close>
lemma value_roundtrip:
  assumes "widgets h a = Some x" and "takes_value x v" and "allocs h = []"
  shows "\<exists>h' y. gp_widget_set_value (Some a) (Some v) h = Some (GP_OK, h') \<and> widgets h' a = Some y \<and> widgets h' = (widgets h)(a := widgets h' a) \<and>
    gp_widget_get_value (Some a) h' = Some (Inr (case v of AFloat f \<Rightarrow> AFloat (if differs x v then f else w_value_float x) | _ \<Rightarrow> v)) \<and>
    w_changed y = (if differs x v then 1 else w_changed x)"
  using assms
  by (cases v)
    (auto simp: takes_value_def differs_def gp_widget_set_value_def store_value_def gp_widget_get_value_def load_value_def put_widget_def
      strdup_w_def may_alloc_def Let_def split: CameraWidgetType.splits)

section \<open>A window with a text\<close>

definition no_widgets :: heap where
  "no_widgets = \<lparr> widgets = Map.empty, fresh_addr = 0, next_id = 0, allocs = [] \<rparr>"

definition blank :: "CameraWidgetType \<Rightarrow> string \<Rightarrow> int \<Rightarrow> CameraWidget" where
  "blank ty lab i = \<lparr> w_type = ty, w_label = lab, w_info = [], w_name = [], w_parent = None, w_value_string = None, w_value_int = 0,
     w_value_float = 0, w_choice = [], w_min = 0, w_max = 0, w_increment = 0, w_children = [], w_changed = 0, w_readonly = 0,
     w_ref_count = 1, w_id = i, w_callback = 0 \<rparr>"

definition demo_window :: heap where
  "demo_window = \<lparr> widgets = [0 \<mapsto> (blank GP_WIDGET_WINDOW ''main'' 0)\<lparr> w_children := [1] \<rparr>, 1 \<mapsto> (blank GP_WIDGET_TEXT ''owner'' 1)\<lparr> w_parent := Some 0 \<rparr>],
     fresh_addr = 2, next_id = 2, allocs = [] \<rparr>"

lemma demo_window_run: "widget_run demo_window"
proof -
  let ?h1 = "\<lparr> widgets = [0 \<mapsto> blank GP_WIDGET_WINDOW ''main'' 0], fresh_addr = 1, next_id = 1, allocs = [] \<rparr>"
  let ?h2 = "\<lparr> widgets = [0 \<mapsto> blank GP_WIDGET_WINDOW ''main'' 0, 1 \<mapsto> blank GP_WIDGET_TEXT ''owner'' 1], fresh_addr = 2, next_id = 2, allocs = [] \<rparr>"
  have 0: "widget_run no_widgets" by (rule widget_run.start) (simp add: no_widgets_def)
  have "gp_widget_new GP_WIDGET_WINDOW (Some ''main'') no_widgets = Some (Inr 0, ?h1)"
    by (simp add: gp_widget_new_def no_widgets_def may_alloc_def put_widget_def blank_def)
  with 0 have 1: "widget_run ?h1" by (rule widget_run.new)
  have "gp_widget_new GP_WIDGET_TEXT (Some ''owner'') ?h1 = Some (Inr 1, ?h2)"
    by (simp add: gp_widget_new_def may_alloc_def put_widget_def blank_def)
  with 1 have 2: "widget_run ?h2" by (rule widget_run.new)
  have "is_root ?h2 1" by (simp add: is_root_def blank_def)
  moreover have "root_of ?h2 0 \<noteq> Some 1" by (subst root_of.simps) (simp add: blank_def)
  moreover have "gp_widget_append (Some 0) (Some 1) ?h2 = Some (GP_OK, demo_window)"
    by (simp add: gp_widget_append_def add_child_def may_alloc_def put_widget_def blank_def may_have_children_def demo_window_def fun_upd_twist)
  ultimately show ?thesis by (rule widget_run.append [OF 2])
qed

lemma demo_window_simps:
  "widgets demo_window 0 = Some ((blank GP_WIDGET_WINDOW ''main'' 0)\<lparr> w_children := [1] \<rparr>)"
  "widgets demo_window 1 = Some ((blank GP_WIDGET_TEXT ''owner'' 1)\<lparr> w_parent := Some 0 \<rparr>)" "allocs demo_window = []"
  by (simp_all add: demo_window_def)

theorem widgets_stay_trees_witness:
  "\<exists>r. gp_widget_get_root (Some 1) demo_window = Some (Inr r) \<and> is_root demo_window r"
  using widgets_stay_trees [OF demo_window_run demo_window_simps(2)] by blast

theorem child_search_preorder_witness:
  "\<exists>t. shape demo_window None t \<and> root t = 0 \<and>
     gp_widget_get_child_by_label (Some 0) (Some ''owner'') demo_window = Some (found (first_match (\<lambda>x. w_label x = ''owner'') demo_window (addrs t)))"
  using child_search_preorder [OF demo_window_run demo_window_simps(1)] by (auto simp: blank_def)

theorem unref_frees_tree_witness:
  "\<exists>h'. gp_widget_unref (Some 0) demo_window = Some (GP_OK, h') \<and> widgets h' 0 = None"
proof -
  let ?x = "(blank GP_WIDGET_WINDOW ''main'' 0)\<lparr> w_children := [1] \<rparr>"
  have "w_parent ?x = None" "w_ref_count ?x = 1" by (simp_all add: blank_def)
  with unref_frees_tree [OF demo_window_run demo_window_simps(1)] obtain t h' where
    "root t = 0" "gp_widget_unref (Some 0) demo_window = Some (GP_OK, h')" "widgets h' = (\<lambda>b. if b \<in> set (addrs t) then None else widgets demo_window b)"
    by auto
  with root_in [of t] show ?thesis by auto
qed

theorem freed_child_dangles_witness:
  "\<exists>h'. gp_widget_free (Some 1) demo_window = Some (GP_OK, h') \<and> gp_widget_get_child_by_name (Some 0) (Some ''owner'') h' = None"
  by (rule freed_child_dangles [OF demo_window_run demo_window_simps(1), of 1 "[]"]) (simp_all add: blank_def)

end
