(* ===== verification/Gp_Camera.thy ===== *)
theory Gp_Camera
  imports Gp_Filesys "HOL-Library.Monad_Syntax"
begin

text \<open>
  gphoto2-camera.c: the camera object, through which a front-end uses a driver and the filesystem. It counts references and uses, loads the driver on
  demand and closes the connection when it is asked to, at once or at the end of the operation that is under way. \<open>None\<close> is what C leaves undefined (a use of
  the freed object included), or a loop that does not end.
\<close>

section \<open>Data\<close>

datatype GPPortType = GP_PORT_NONE | GP_PORT_SERIAL | GP_PORT_USB | GP_PORT_DISK | GP_PORT_PTPIP | GP_PORT_USB_DISK_DIRECT | GP_PORT_USB_SCSI

record GPPortInfo =
  gi_type :: GPPortType
  gi_name :: "string option"
  gi_path :: "string option"
  gi_library :: "string option"

record GPPortSettingsSerial =
  ser_port :: string
  ser_speed :: int
  ser_bits :: int
  ser_parity :: int
  ser_stopbits :: int

text \<open>The enumerations of the header are their numbers; the reserved members are left out.\<close>

record CameraAbilities =
  ab_model :: string
  ab_status :: int
  ab_port :: int
  ab_speed :: "int list"
  ab_operations :: int
  ab_file_operations :: int
  ab_folder_operations :: int
  ab_usb_vendor :: int
  ab_usb_product :: int
  ab_usb_class :: int
  ab_usb_subclass :: int
  ab_usb_protocol :: int
  ab_library :: string
  ab_id :: string
  ab_device_type :: int

text \<open>
  The members of \<open>Camera\<close> and of \<open>CameraPrivateCore\<close>. The table \<open>functions\<close> is named by a value of \<open>'d\<close>, \<open>None\<close> being the table of null pointers; the filesystem
  object holds the environment, which is there after the object has been freed (\<open>c_alive\<close> is false). \<open>c_lh\<close> tells whether a library is loaded.
\<close>

record ('w, 'd) camera =
  c_abilities :: CameraAbilities
  c_speed :: "32 word"
  c_lh :: bool
  c_ref_count :: "32 word"
  c_used :: "8 word"
  c_exit_requested :: bool
  c_timeout_start :: "(int \<Rightarrow> 'w \<Rightarrow> int \<times> 'w) option"
  c_timeout_stop :: "(32 word \<Rightarrow> 'w \<Rightarrow> 'w) option"
  c_timeout_ids :: "32 word list"
  c_functions :: "'d option"
  c_fs :: "'w fs"
  c_alive :: bool

text \<open>A driver's functions work on the camera object: they may call the library again.\<close>

record 'c CameraFunctions =
  pre_func :: "('c \<Rightarrow> int \<times> 'c) option"
  post_func :: "('c \<Rightarrow> int \<times> 'c) option"
  exit_func :: "('c \<Rightarrow> int \<times> 'c) option"
  get_config :: "('c \<Rightarrow> (int \<times> nat) \<times> 'c) option"
  set_config :: "(nat \<Rightarrow> 'c \<Rightarrow> int \<times> 'c) option"
  capture :: "(int \<Rightarrow> 'c \<Rightarrow> (int \<times> (string \<times> string)) \<times> 'c) option"
  trigger_capture :: "('c \<Rightarrow> int \<times> 'c) option"
  capture_preview :: "(nat \<Rightarrow> 'c \<Rightarrow> int \<times> 'c) option"
  summary :: "('c \<Rightarrow> (int \<times> string) \<times> 'c) option"
  manual :: "('c \<Rightarrow> (int \<times> string) \<times> 'c) option"
  about :: "('c \<Rightarrow> (int \<times> string) \<times> 'c) option"
  wait_for_event :: "(int \<Rightarrow> 'c \<Rightarrow> (int \<times> (int \<times> nat)) \<times> 'c) option"

definition no_functions :: "'c CameraFunctions" where
  "no_functions = \<lparr> pre_func = None, post_func = None, exit_func = None, get_config = None, set_config = None, capture = None, trigger_capture = None,
     capture_preview = None, summary = None, manual = None, about = None, wait_for_event = None \<rparr>"

text \<open>
  What the object uses besides: the port library, the loader of libraries, and the lists of cameras and ports that are consulted to find a camera; and of the
  drivers the tables of functions and, by the name of the library, \<open>camera_init\<close>, where there is one. \<open>find_cameras\<close> gives the
  models and ports that are detected, \<open>abilities_of\<close> and \<open>info_of\<close> are the look-ups by model and by path.
\<close>

record 'w host_libs =
  port_type :: "'w \<Rightarrow> GPPortType"
  port_open :: "'w \<Rightarrow> int \<times> 'w"
  port_close :: "'w \<Rightarrow> 'w"
  port_free :: "'w \<Rightarrow> 'w"
  port_new :: "'w \<Rightarrow> int \<times> 'w"
  port_find_device :: "int \<Rightarrow> int \<Rightarrow> 'w \<Rightarrow> int \<times> 'w"
  port_find_device_by_class :: "int \<Rightarrow> int \<Rightarrow> int \<Rightarrow> 'w \<Rightarrow> int \<times> 'w"
  port_get_info :: "'w \<Rightarrow> int \<times> GPPortInfo"
  port_set_info :: "GPPortInfo \<Rightarrow> 'w \<Rightarrow> int \<times> 'w"
  port_get_settings :: "'w \<Rightarrow> int \<times> GPPortSettingsSerial"
  port_set_settings :: "GPPortSettingsSerial \<Rightarrow> 'w \<Rightarrow> int \<times> 'w"
  lib_open :: "string \<Rightarrow> 'w \<Rightarrow> bool \<times> 'w"
  lib_close :: "'w \<Rightarrow> 'w"
  find_cameras :: "'w \<Rightarrow> (string \<times> string) list \<times> 'w"
  abilities_of :: "string \<Rightarrow> CameraAbilities option"
  info_of :: "string \<Rightarrow> GPPortInfo option"

record ('c, 'd) drivers =
  function_table :: "'d \<Rightarrow> 'c CameraFunctions"
  camera_init :: "string \<Rightarrow> ('c \<Rightarrow> int \<times> 'c) option"

text \<open>Everything that a function of the library depends on; the last is what \<open>qsort\<close> does.\<close>

record ('w, 'd) setting =
  host :: "'w host_libs"
  driver :: "(('w, 'd) camera, 'd) drivers"
  opsys :: "'w os"
  sorter :: sort_routine

text \<open>A function returns an \<open>int\<close> and stores results through pointers, here in \<open>'a\<close>; where it stores nothing, the results are what they were.\<close>

type_synonym ('w, 'd, 'a) cam = "('w, 'd) camera \<Rightarrow> (int \<times> 'a \<times> ('w, 'd) camera) option"

definition funcs_of :: "('w, 'd) setting \<Rightarrow> ('w, 'd) camera \<Rightarrow> ('w, 'd) camera CameraFunctions" where
  "funcs_of S c = (case c_functions c of None \<Rightarrow> no_functions | Some d \<Rightarrow> function_table (driver S) d)"

text \<open>A step of the environment, and a function of the filesystem, with the list that it fills or without.\<close>

definition on_env :: "('w \<Rightarrow> 'a \<times> 'w) \<Rightarrow> ('w, 'd) camera \<Rightarrow> 'a \<times> ('w, 'd) camera" where
  "on_env f c = (case f (env (c_fs c)) of (a, w) \<Rightarrow> (a, c\<lparr> c_fs := (c_fs c)\<lparr> env := w \<rparr> \<rparr>))"

definition run_env :: "('w \<Rightarrow> 'w) \<Rightarrow> ('w, 'd) camera \<Rightarrow> ('w, 'd) camera" where
  "run_env f c = c\<lparr> c_fs := (c_fs c)\<lparr> env := f (env (c_fs c)) \<rparr> \<rparr>"

definition in_fs :: "'a \<Rightarrow> ('w, 'a) fsm \<Rightarrow> ('w, 'd, 'a) cam" where
  "in_fs a m c =
    (case m (c_fs c) of
       (Inl e, f) \<Rightarrow> if e = UNDEFINED then None else Some (e, a, c\<lparr> c_fs := f \<rparr>)
     | (Inr b, f) \<Rightarrow> Some (GP_OK, b, c\<lparr> c_fs := f \<rparr>))"

definition in_list :: "('w, unit) lfm \<Rightarrow> CameraList option \<Rightarrow> ('w, 'd, CameraList option) cam" where
  "in_list m l c =
    (case m (l, c_fs c) of
       (Inl e, l, f) \<Rightarrow> if e = UNDEFINED then None else Some (e, l, c\<lparr> c_fs := f \<rparr>)
     | (Inr _, l, f) \<Rightarrow> Some (GP_OK, l, c\<lparr> c_fs := f \<rparr>))"

section \<open>Timeouts\<close>

text \<open>The front-end's functions for timeouts; shrinking the array succeeds.\<close>

definition gp_camera_set_timeout_funcs :: "(int \<Rightarrow> 'w \<Rightarrow> int \<times> 'w) option \<Rightarrow> (32 word \<Rightarrow> 'w \<Rightarrow> 'w) option \<Rightarrow> ('w, 'd) camera \<Rightarrow> ('w, 'd) camera" where
  "gp_camera_set_timeout_funcs start stop c = c\<lparr> c_timeout_start := start, c_timeout_stop := stop \<rparr>"

definition gp_camera_start_timeout :: "int \<Rightarrow> ('w, 'd) camera \<Rightarrow> int \<times> ('w, 'd) camera" where
  "gp_camera_start_timeout timeout c =
    (case c_timeout_start c of
       None \<Rightarrow> (GP_ERROR_NOT_SUPPORTED, c)
     | Some start \<Rightarrow>
         (case malloc (c_fs c) of
            (Inl e, f) \<Rightarrow> (GP_ERROR_NO_MEMORY, c\<lparr> c_fs := f \<rparr>)
          | (Inr _, f) \<Rightarrow>
              (case on_env (start timeout) (c\<lparr> c_fs := f \<rparr>) of (i, c) \<Rightarrow>
                 if i < 0 then (i, c) else (i, c\<lparr> c_timeout_ids := c_timeout_ids c @ [word_of_int i] \<rparr>))))"

definition gp_camera_stop_timeout :: "32 word \<Rightarrow> ('w, 'd) camera \<Rightarrow> ('w, 'd) camera" where
  "gp_camera_stop_timeout i c =
    (case c_timeout_stop c of
       None \<Rightarrow> c
     | Some stop \<Rightarrow>
         if i \<in> set (c_timeout_ids c) then run_env (stop i) (c\<lparr> c_timeout_ids := remove1 i (c_timeout_ids c) \<rparr>) else c)"

partial_function (option) stop_timeouts :: "('w, 'd) camera \<Rightarrow> ('w, 'd) camera option" where
  "stop_timeouts c =
    (case c_timeout_ids c of [] \<Rightarrow> Some c | i # _ \<Rightarrow> stop_timeouts (gp_camera_stop_timeout i c))"

section \<open>Closing, freeing and releasing\<close>

definition gp_camera_exit :: "('w, 'd) setting \<Rightarrow> ('w, 'd) camera \<Rightarrow> (int \<times> ('w, 'd) camera) option" where
  "gp_camera_exit S c =
    (if \<not> c_alive c then None
     else if c_used c \<noteq> 0 then Some (GP_OK, c\<lparr> c_exit_requested := True \<rparr>)
     else do {
       c \<leftarrow> stop_timeouts c;
       let c = (case exit_func (funcs_of S c) of None \<Rightarrow> c | Some f \<Rightarrow> snd (f c));
       if \<not> c_alive c then None
       else do {
         let c = (run_env (port_close (host S)) c)\<lparr> c_functions := None \<rparr>;
         let c = (if c_lh c then (run_env (lib_close (host S)) c)\<lparr> c_lh := False \<rparr> else c);
         (_, _, c) \<leftarrow> in_fs () (gp_filesystem_reset (opsys S)) c;
         Some (GP_OK, c) } })"

definition gp_filesystem_free :: "'w os \<Rightarrow> ('w, unit) fsm" where
  "gp_filesystem_free os = ignoring (gp_filesystem_reset os)"

definition gp_camera_free :: "('w, 'd) setting \<Rightarrow> ('w, 'd) camera \<Rightarrow> (int \<times> ('w, 'd) camera) option" where
  "gp_camera_free S c =
    (if \<not> c_alive c then None
     else do {
       (_, c) \<leftarrow> (if c_lh c then gp_camera_exit S c else Some (GP_OK, c));
       let c = run_env (port_free (host S)) c;
       (_, _, c) \<leftarrow> in_fs () (gp_filesystem_free (opsys S)) c;
       Some (GP_OK, c\<lparr> c_alive := False \<rparr>) })"

text \<open>The macro CAMERA_UNUSED.\<close>

definition camera_unused :: "('w, 'd) setting \<Rightarrow> ('w, 'd) camera \<Rightarrow> ('w, 'd) camera option" where
  "camera_unused S c =
    (if \<not> c_alive c then None
     else
       let c = c\<lparr> c_used := c_used c - 1 \<rparr> in
       if c_used c \<noteq> 0 then Some c
       else do {
         (_, c) \<leftarrow> (if c_exit_requested c then gp_camera_exit S c else Some (GP_OK, c));
         (_, c) \<leftarrow> (if c_ref_count c = 0 then gp_camera_free S c else Some (GP_OK, c));
         Some c })"

text \<open>An error return of the macros CR, CRS and CRSL: the result is passed on and the camera is marked as unused.\<close>

definition or_unused :: "('w, 'd) setting \<Rightarrow> int \<Rightarrow> ('w, 'd) camera \<Rightarrow> (int \<times> ('w, 'd) camera) option" where
  "or_unused S r c = (if r < 0 then do { c \<leftarrow> camera_unused S c; Some (r, c) } else Some (GP_OK, c))"

definition gp_camera_ref :: "('w, 'd) camera \<Rightarrow> (int \<times> ('w, 'd) camera) option" where
  "gp_camera_ref c = (if \<not> c_alive c then None else Some (GP_OK, c\<lparr> c_ref_count := c_ref_count c + 1 \<rparr>))"

definition gp_camera_unref :: "('w, 'd) setting \<Rightarrow> ('w, 'd) camera \<Rightarrow> (int \<times> ('w, 'd) camera) option" where
  "gp_camera_unref S c =
    (if \<not> c_alive c then None
     else if c_ref_count c = 0 then Some (GP_ERROR, c)
     else
       let c = c\<lparr> c_ref_count := c_ref_count c - 1 \<rparr> in
       if c_ref_count c = 0 \<and> c_used c = 0 then do { (_, c) \<leftarrow> gp_camera_free S c; Some (GP_OK, c) } else Some (GP_OK, c))"

section \<open>Creating and configuring\<close>

definition no_abilities :: CameraAbilities where
  "no_abilities = \<lparr> ab_model = [], ab_status = 0, ab_port = 0, ab_speed = replicate 64 0, ab_operations = 0, ab_file_operations = 0, ab_folder_operations = 0,
     ab_usb_vendor = 0, ab_usb_product = 0, ab_usb_class = 0, ab_usb_subclass = 0, ab_usb_protocol = 0, ab_library = [], ab_id = [], ab_device_type = 0 \<rparr>"

definition new_camera :: "'w fs \<Rightarrow> ('w, 'd) camera" where
  "new_camera f = \<lparr> c_abilities = no_abilities, c_speed = 0, c_lh = False, c_ref_count = 1, c_used = 0, c_exit_requested = False, c_timeout_start = None,
     c_timeout_stop = None, c_timeout_ids = [], c_functions = None, c_fs = f, c_alive = True \<rparr>"

text \<open>The answers of the allocator, the environment, and what \<open>gp_filesystem_new\<close> depends on; the object, or the code.\<close>

definition gp_camera_new :: "('w, 'd) setting \<Rightarrow> bool list \<Rightarrow> 'w \<Rightarrow> int \<Rightarrow> int option \<Rightarrow> int + ('w, 'd) camera" where
  "gp_camera_new S m w keep setting =
    (case CR malloc (\<lambda>_. CR malloc (\<lambda>_. malloc)) (blank_fs m w keep setting) of
       (Inl e, f) \<Rightarrow> Inl GP_ERROR_NO_MEMORY
     | (Inr _, f) \<Rightarrow>
         (case gp_filesystem_new (mem_ok f) w keep setting of
            Inl e \<Rightarrow> Inl e
          | Inr f \<Rightarrow> (case port_new (host S) (env f) of (r, w) \<Rightarrow> if r < 0 then Inl r else Inr (new_camera (f\<lparr> env := w \<rparr>)))))"

text \<open>An open connection is closed before its parameters change.\<close>

definition disconnect :: "('w, 'd) setting \<Rightarrow> ('w, 'd) camera \<Rightarrow> ('w, 'd) camera option" where
  "disconnect S c = (if c_lh c then map_option snd (gp_camera_exit S c) else Some c)"

definition gp_camera_set_abilities :: "('w, 'd) setting \<Rightarrow> CameraAbilities \<Rightarrow> ('w, 'd) camera \<Rightarrow> (int \<times> ('w, 'd) camera) option" where
  "gp_camera_set_abilities S a c =
    (if \<not> c_alive c then None else do { c \<leftarrow> disconnect S c; Some (GP_OK, c\<lparr> c_abilities := a \<rparr>) })"

definition gp_camera_get_abilities :: "('w, 'd) camera \<Rightarrow> (int \<times> CameraAbilities) option" where
  "gp_camera_get_abilities c = (if \<not> c_alive c then None else Some (GP_OK, c_abilities c))"

definition gp_camera_get_port_info :: "('w, 'd) setting \<Rightarrow> ('w, 'd, GPPortInfo) cam" where
  "gp_camera_get_port_info S c =
    (if \<not> c_alive c then None
     else case port_get_info (host S) (env (c_fs c)) of (r, i) \<Rightarrow> do { (r, c) \<leftarrow> or_unused S r c; Some (r, i, c) })"

definition gp_camera_set_port_info :: "('w, 'd) setting \<Rightarrow> GPPortInfo \<Rightarrow> ('w, 'd) camera \<Rightarrow> (int \<times> ('w, 'd) camera) option" where
  "gp_camera_set_port_info S i c =
    (if \<not> c_alive c then None
     else do { c \<leftarrow> disconnect S c; case on_env (port_set_info (host S) i) c of (r, c) \<Rightarrow> or_unused S r c })"

definition gp_camera_set_port_speed :: "('w, 'd) setting \<Rightarrow> int \<Rightarrow> ('w, 'd) camera \<Rightarrow> (int \<times> ('w, 'd) camera) option" where
  "gp_camera_set_port_speed S speed c =
    (if \<not> c_alive c then None
     else if port_type (host S) (env (c_fs c)) \<noteq> GP_PORT_SERIAL then Some (GP_ERROR_BAD_PARAMETERS, c)
     else do {
       c \<leftarrow> disconnect S c;
       case port_get_settings (host S) (env (c_fs c)) of (r, settings) \<Rightarrow> do {
         (r, c) \<leftarrow> or_unused S r c;
         if r < 0 then Some (r, c)
         else case on_env (port_set_settings (host S) (settings\<lparr> ser_speed := speed \<rparr>)) c of (r, c) \<Rightarrow> do {
           (r, c) \<leftarrow> or_unused S r c;
           if r < 0 then Some (r, c) else Some (GP_OK, c\<lparr> c_speed := word_of_int speed \<rparr>) } } })"

definition gp_camera_get_port_speed :: "('w, 'd) camera \<Rightarrow> int option" where
  "gp_camera_get_port_speed c = (if \<not> c_alive c then None else Some (sint (c_speed c)))"

section \<open>Loading the driver\<close>

definition is_browse :: "('w, 'd) camera \<Rightarrow> bool" where
  "is_browse c \<longleftrightarrow> same_nocase (ab_model (c_abilities c)) ''Directory Browse''"

text \<open>The last position with a value, and the camera that is taken: the last one at the path of the port if that was set to a device on USB, or the first.\<close>

definition last_index :: "'a \<Rightarrow> 'a list \<Rightarrow> nat option" where
  "last_index x xs = (if x \<in> set xs then Some (length xs - 1 - length (takeWhile (\<lambda>y. y \<noteq> x) (rev xs))) else None)"

definition choose_camera :: "GPPortInfo \<Rightarrow> (string \<times> string) list \<Rightarrow> nat option option" where
  "choose_camera i found =
    (if gi_type i = GP_PORT_USB then do {
       path \<leftarrow> gi_path i;
       Some (if path \<noteq> [] \<and> path \<noteq> ''usb:'' then last_index path (map snd found) else Some 0) }
     else Some (Some 0))"

text \<open>
  Looking for a camera when no model is set. The results of the look-ups are not checked: for an unknown model the abilities are not initialised, and for an unknown
  path the port is given its own information, which it frees before it copies it.
\<close>

definition detect_camera :: "('w, 'd) setting \<Rightarrow> ('w, 'd) camera \<Rightarrow> (int \<times> ('w, 'd) camera) option" where
  "detect_camera S c =
    (case malloc (c_fs c) of
       (Inl e, f) \<Rightarrow> Some (e, c\<lparr> c_fs := f \<rparr>)
     | (Inr _, f) \<Rightarrow>
         (case on_env (find_cameras (host S)) (c\<lparr> c_fs := f \<rparr>) of (found, c) \<Rightarrow>
          if found = [] then Some (GP_ERROR_MODEL_NOT_FOUND, c)
          else do {
            p \<leftarrow> choose_camera (snd (port_get_info (host S) (env (c_fs c)))) found;
            case p of
              None \<Rightarrow> Some (GP_ERROR_FILE_NOT_FOUND, c)
            | Some p \<Rightarrow> do {
                a \<leftarrow> abilities_of (host S) (fst (found ! p));
                (r, c) \<leftarrow> gp_camera_set_abilities S a c;
                (r, c) \<leftarrow> or_unused S r c;
                if r < 0 then Some (r, c)
                else do {
                  i \<leftarrow> info_of (host S) (snd (found ! p));
                  (r, c) \<leftarrow> gp_camera_set_port_info S i c;
                  or_unused S r c } } }))"

definition find_usb :: "('w, 'd) setting \<Rightarrow> ('w, 'd) camera \<Rightarrow> (int \<times> ('w, 'd) camera) option" where
  "find_usb S c =
    (let a = c_abilities c in
     case on_env (port_find_device (host S) (ab_usb_vendor a) (ab_usb_product a)) c of (r, c) \<Rightarrow>
     if r = GP_OK then Some (GP_OK, c)
     else case on_env (port_find_device_by_class (host S) (ab_usb_class a) (ab_usb_subclass a) (ab_usb_protocol a)) c of (r, c) \<Rightarrow> or_unused S r c)"

definition check_port :: "('w, 'd) setting \<Rightarrow> ('w, 'd) camera \<Rightarrow> (int \<times> ('w, 'd) camera) option" where
  "check_port S c =
    (if is_browse c then Some (GP_OK, c)
     else case port_type (host S) (env (c_fs c)) of
            GP_PORT_NONE \<Rightarrow> Some (GP_ERROR_UNKNOWN_PORT, c)
          | GP_PORT_USB \<Rightarrow> find_usb S c
          | _ \<Rightarrow> Some (GP_OK, c))"

definition unload :: "('w, 'd) setting \<Rightarrow> ('w, 'd) camera \<Rightarrow> ('w, 'd) camera" where
  "unload S c = (run_env (lib_close (host S)) c)\<lparr> c_lh := False \<rparr>"

text \<open>The library of the driver, the port, and \<open>camera_init\<close>, which fills the table of functions.\<close>

definition load_driver :: "('w, 'd) setting \<Rightarrow> ('w, 'd) camera \<Rightarrow> (int \<times> ('w, 'd) camera) option" where
  "load_driver S c =
    (case on_env (lib_open (host S) (ab_library (c_abilities c))) c of (opened, c) \<Rightarrow>
     if \<not> opened then Some (GP_ERROR_LIBRARY, c\<lparr> c_lh := False \<rparr>)
     else
       let c = c\<lparr> c_lh := True \<rparr> in
       case camera_init (driver S) (ab_library (c_abilities c)) of
         None \<Rightarrow> Some (GP_ERROR_LIBRARY, unload S c)
       | Some init \<Rightarrow>
           (case (if is_browse c then (GP_OK, c) else on_env (port_open (host S)) c) of (r, c) \<Rightarrow>
            if r < 0 then Some (r, unload S c)
            else case init c of (r, c) \<Rightarrow>
              if \<not> c_alive c then None
              else if r < 0 then Some (r, (unload S (run_env (port_close (host S)) c))\<lparr> c_functions := None \<rparr>)
              else Some (GP_OK, c)))"

definition gp_camera_init :: "('w, 'd) setting \<Rightarrow> ('w, 'd) camera \<Rightarrow> (int \<times> ('w, 'd) camera) option" where
  "gp_camera_init S c =
    (if \<not> c_alive c then None
     else do {
       let c = c\<lparr> c_exit_requested := False \<rparr>;
       (r, c) \<leftarrow> (if ab_model (c_abilities c) = [] then detect_camera S c else Some (GP_OK, c));
       if r < 0 then Some (r, c)
       else do {
         (r, c) \<leftarrow> check_port S c;
         if r < 0 then Some (r, c) else load_driver S c } })"

section \<open>Operations\<close>

text \<open>The macro CHECK_INIT: the camera is marked as used, and initialised when it has no driver.\<close>

definition check_init :: "('w, 'd) setting \<Rightarrow> ('w, 'd) camera \<Rightarrow> (int \<times> ('w, 'd) camera) option" where
  "check_init S c =
    (if \<not> c_alive c then None
     else if c_used c \<noteq> 0 then Some (GP_ERROR_CAMERA_BUSY, c)
     else
       let c = c\<lparr> c_used := c_used c + 1 \<rparr> in
       if c_lh c then Some (GP_OK, c)
       else do { (r, c) \<leftarrow> gp_camera_init S c; or_unused S r c })"

text \<open>The macros CHECK_OPEN and CHECK_CLOSE.\<close>

definition call_hook :: "('w, 'd) setting \<Rightarrow> (('w, 'd) camera CameraFunctions \<Rightarrow> (('w, 'd) camera \<Rightarrow> int \<times> ('w, 'd) camera) option) \<Rightarrow>
    ('w, 'd) camera \<Rightarrow> (int \<times> ('w, 'd) camera) option" where
  "call_hook S hook c =
    (if \<not> c_alive c then None
     else case hook (funcs_of S c) of None \<Rightarrow> Some (GP_OK, c) | Some f \<Rightarrow> (case f c of (r, c) \<Rightarrow> or_unused S r c))"

text \<open>The macro CHECK_RESULT_OPEN_CLOSE.\<close>

definition open_close :: "('w, 'd) setting \<Rightarrow> 'a \<Rightarrow> ('w, 'd, 'a) cam \<Rightarrow> ('w, 'd, 'a) cam" where
  "open_close S a op c =
    do {
      (r, c) \<leftarrow> call_hook S pre_func c;
      if r < 0 then Some (r, a, c)
      else do {
        (r, a, c) \<leftarrow> op c;
        (r3, c) \<leftarrow> call_hook S post_func c;
        if r3 < 0 then Some (r3, a, c)
        else do { (r, c) \<leftarrow> or_unused S r c; Some (r, a, c) } } }"

text \<open>The end of an operation.\<close>

definition finish :: "('w, 'd) setting \<Rightarrow> 'a \<Rightarrow> ('w, 'd, 'a) cam" where
  "finish S a c = do { c \<leftarrow> camera_unused S c; Some (GP_OK, a, c) }"

text \<open>An operation of the shape that most have: CHECK_INIT, the steps \<open>before\<close> under CR, the call between CHECK_OPEN and CHECK_CLOSE, the steps \<open>after\<close> under CR.\<close>

definition operation :: "('w, 'd) setting \<Rightarrow> 'a \<Rightarrow> ('a \<Rightarrow> ('w, 'd, 'a) cam) \<Rightarrow> ('a \<Rightarrow> ('w, 'd, 'a) cam) \<Rightarrow> ('a \<Rightarrow> ('w, 'd, 'a) cam) \<Rightarrow> ('w, 'd, 'a) cam" where
  "operation S a before op after c =
    do {
      (r, c) \<leftarrow> check_init S c;
      if r < 0 then Some (r, a, c)
      else do {
        (r, a, c) \<leftarrow> before a c;
        (r, c) \<leftarrow> or_unused S r c;
        if r < 0 then Some (r, a, c)
        else do {
          (r, a, c) \<leftarrow> open_close S a (op a) c;
          if r < 0 then Some (r, a, c)
          else do {
            (r, a, c) \<leftarrow> after a c;
            (r, c) \<leftarrow> or_unused S r c;
            if r < 0 then Some (r, a, c) else finish S a c } } } }"

definition nothing :: "'a \<Rightarrow> ('w, 'd, 'a) cam" where
  "nothing a c = Some (GP_OK, a, c)"

text \<open>An operation that the driver may lack.\<close>

definition driver_op :: "('w, 'd) setting \<Rightarrow> 'a \<Rightarrow> (('w, 'd) camera CameraFunctions \<Rightarrow> (('w, 'd) camera \<Rightarrow> (int \<times> 'a) \<times> ('w, 'd) camera) option) \<Rightarrow> ('w, 'd, 'a) cam" where
  "driver_op S a func c =
    do {
      (r, c) \<leftarrow> check_init S c;
      if r < 0 then Some (r, a, c)
      else if \<not> c_alive c then None
      else case func (funcs_of S c) of
             None \<Rightarrow> do { c \<leftarrow> camera_unused S c; Some (GP_ERROR_NOT_SUPPORTED, a, c) }
           | Some f \<Rightarrow> do {
               (r, a, c) \<leftarrow> open_close S a (\<lambda>c. case f c of ((r, a), c) \<Rightarrow> Some (r, a, c)) c;
               if r < 0 then Some (r, a, c) else finish S a c } }"

definition plain :: "('c \<Rightarrow> int \<times> 'c) \<Rightarrow> 'c \<Rightarrow> (int \<times> unit) \<times> 'c" where
  "plain f c = (case f c of (r, c) \<Rightarrow> ((r, ()), c))"

definition gp_camera_get_config :: "('w, 'd) setting \<Rightarrow> nat \<Rightarrow> ('w, 'd, nat) cam" where
  "gp_camera_get_config S window = driver_op S window get_config"

definition gp_camera_set_config :: "('w, 'd) setting \<Rightarrow> nat \<Rightarrow> ('w, 'd, unit) cam" where
  "gp_camera_set_config S window = driver_op S () (\<lambda>t. map_option (\<lambda>f. plain (f window)) (set_config t))"

definition gp_camera_get_summary :: "('w, 'd) setting \<Rightarrow> string \<Rightarrow> ('w, 'd, string) cam" where
  "gp_camera_get_summary S txt = driver_op S txt summary"

definition gp_camera_get_manual :: "('w, 'd) setting \<Rightarrow> string \<Rightarrow> ('w, 'd, string) cam" where
  "gp_camera_get_manual S txt = driver_op S txt manual"

definition gp_camera_get_about :: "('w, 'd) setting \<Rightarrow> string \<Rightarrow> ('w, 'd, string) cam" where
  "gp_camera_get_about S txt = driver_op S txt about"

definition gp_camera_capture :: "('w, 'd) setting \<Rightarrow> int \<Rightarrow> string \<times> string \<Rightarrow> ('w, 'd, string \<times> string) cam" where
  "gp_camera_capture S type path = driver_op S path (\<lambda>t. map_option (\<lambda>f. f type) (capture t))"

definition gp_camera_trigger_capture :: "('w, 'd) setting \<Rightarrow> ('w, 'd, unit) cam" where
  "gp_camera_trigger_capture S = driver_op S () (\<lambda>t. map_option plain (trigger_capture t))"

definition gp_camera_wait_for_event :: "('w, 'd) setting \<Rightarrow> int \<Rightarrow> int \<times> nat \<Rightarrow> ('w, 'd, int \<times> nat) cam" where
  "gp_camera_wait_for_event S timeout event = driver_op S event (\<lambda>t. map_option (\<lambda>f. f timeout) (wait_for_event t))"

text \<open>The file is the address of an object of the front-end. It is cleaned before the driver is looked at; what the last steps return is ignored.\<close>

definition gp_camera_capture_preview :: "('w, 'd) setting \<Rightarrow> nat \<Rightarrow> ('w, 'd, unit) cam" where
  "gp_camera_capture_preview S file c =
    do {
      (r, c) \<leftarrow> check_init S c;
      if r < 0 then Some (r, (), c)
      else do {
        (r, _, c) \<leftarrow> in_fs () (update_object file gp_file_clean) c;
        (r, c) \<leftarrow> or_unused S r c;
        if r < 0 then Some (r, (), c)
        else if \<not> c_alive c then None
        else case capture_preview (funcs_of S c) of
               None \<Rightarrow> do { c \<leftarrow> camera_unused S c; Some (GP_ERROR_NOT_SUPPORTED, (), c) }
             | Some f \<Rightarrow> do {
                 (r, _, c) \<leftarrow> open_close S () (\<lambda>c. case f file c of (r, c) \<Rightarrow> Some (r, (), c)) c;
                 if r < 0 then Some (r, (), c)
                 else do {
                   (r, xname, c) \<leftarrow> in_fs [] (CR (deref_object file) (\<lambda>f. gp_file_get_name_by_type f ''capture_preview'' GP_FILE_TYPE_NORMAL)) c;
                   if r < 0 then None
                   else do {
                     (_, _, c) \<leftarrow> in_fs () (update_object file (\<lambda>f. gp_file_set_name f xname)) c;
                     finish S () c } } } } }"

section \<open>Operations on the filesystem\<close>

definition gp_camera_folder_list_files :: "('w, 'd) setting \<Rightarrow> 'w GPContext \<Rightarrow> string \<Rightarrow> CameraList option \<Rightarrow> ('w, 'd, CameraList option) cam" where
  "gp_camera_folder_list_files S ctx folder l =
    operation S l (in_list gp_list_reset) (in_list (gp_filesystem_list_files (opsys S) ctx folder)) (in_list (gp_list_sort (sorter S)))"

definition gp_camera_folder_list_folders :: "('w, 'd) setting \<Rightarrow> 'w GPContext \<Rightarrow> string \<Rightarrow> CameraList option \<Rightarrow> ('w, 'd, CameraList option) cam" where
  "gp_camera_folder_list_folders S ctx folder l =
    operation S l (in_list gp_list_reset) (in_list (gp_filesystem_list_folders (opsys S) ctx folder)) (in_list (gp_list_sort (sorter S)))"

definition fs_op :: "('w, 'd) setting \<Rightarrow> 'a \<Rightarrow> ('w, 'a) fsm \<Rightarrow> ('w, 'd, 'a) cam" where
  "fs_op S a m = operation S a nothing (\<lambda>a. in_fs a m) nothing"

definition gp_camera_folder_delete_all :: "('w, 'd) setting \<Rightarrow> 'w GPContext \<Rightarrow> string \<Rightarrow> ('w, 'd, unit) cam" where
  "gp_camera_folder_delete_all S ctx folder = fs_op S () (gp_filesystem_delete_all (opsys S) ctx folder)"

definition gp_camera_file_delete :: "('w, 'd) setting \<Rightarrow> 'w GPContext \<Rightarrow> string \<Rightarrow> string \<Rightarrow> ('w, 'd, unit) cam" where
  "gp_camera_file_delete S ctx folder name = fs_op S () (gp_filesystem_delete_file (opsys S) ctx folder name)"

definition gp_camera_folder_make_dir :: "('w, 'd) setting \<Rightarrow> 'w GPContext \<Rightarrow> string \<Rightarrow> string \<Rightarrow> ('w, 'd, unit) cam" where
  "gp_camera_folder_make_dir S ctx folder name = fs_op S () (gp_filesystem_make_dir (opsys S) ctx folder name)"

definition gp_camera_folder_remove_dir :: "('w, 'd) setting \<Rightarrow> 'w GPContext \<Rightarrow> string \<Rightarrow> string \<Rightarrow> ('w, 'd, unit) cam" where
  "gp_camera_folder_remove_dir S ctx folder name = fs_op S () (gp_filesystem_remove_dir (opsys S) ctx folder name)"

definition gp_camera_get_storageinfo :: "('w, 'd) setting \<Rightarrow> 'w GPContext \<Rightarrow> CameraStorageInformation list \<Rightarrow> ('w, 'd, CameraStorageInformation list) cam" where
  "gp_camera_get_storageinfo S ctx old = fs_op S old (gp_filesystem_get_storageinfo ctx)"

definition gp_camera_file_set_info :: "('w, 'd) setting \<Rightarrow> 'w GPContext \<Rightarrow> string \<Rightarrow> string \<Rightarrow> CameraFileInfo \<Rightarrow> ('w, 'd, unit) cam" where
  "gp_camera_file_set_info S ctx folder name i = fs_op S () (gp_filesystem_set_info (opsys S) ctx folder name i)"

definition gp_camera_folder_put_file :: "('w, 'd) setting \<Rightarrow> 'w GPContext \<Rightarrow> string \<Rightarrow> string \<Rightarrow> CameraFileType \<Rightarrow> nat \<Rightarrow> ('w, 'd, unit) cam" where
  "gp_camera_folder_put_file S ctx folder name t file = fs_op S () (gp_filesystem_put_file (opsys S) ctx folder name t file)"

text \<open>Names that are empty are refused. \<open>fuel\<close> is that of copying a file object.\<close>

definition check_names :: "string \<Rightarrow> string \<Rightarrow> int" where
  "check_names folder name = (if folder = [] then GP_ERROR_DIRECTORY_NOT_FOUND else if name = [] then GP_ERROR_FILE_NOT_FOUND else GP_OK)"

definition gp_camera_file_get :: "nat \<Rightarrow> ('w, 'd) setting \<Rightarrow> 'w GPContext \<Rightarrow> string \<Rightarrow> string \<Rightarrow> CameraFileType \<Rightarrow> nat \<Rightarrow> ('w, 'd, unit) cam" where
  "gp_camera_file_get fuel S ctx folder name t file =
    operation S ()
      (\<lambda>_ c. do { (r, _, c) \<leftarrow> in_fs () (update_object file gp_file_clean) c; Some (if r < 0 then r else check_names folder name, (), c) })
      (\<lambda>_. in_fs () (gp_filesystem_get_file fuel (opsys S) ctx folder name t file)) nothing"

definition gp_camera_file_read :: "('w, 'd) setting \<Rightarrow> 'w GPContext \<Rightarrow> string \<Rightarrow> string \<Rightarrow> CameraFileType \<Rightarrow> 64 word \<Rightarrow> 64 word \<Rightarrow> byte list \<Rightarrow> ('w, 'd, byte list) cam" where
  "gp_camera_file_read S ctx folder name t off sz buf =
    operation S buf (\<lambda>a c. Some (check_names folder name, a, c)) (\<lambda>a. in_fs a (gp_filesystem_read_file ctx folder name t off sz)) nothing"

text \<open>
  Where the driver gives no information, the preview is to tell. \<open>cfile\<close> is the address of the object that \<open>gp_file_new\<close> makes.
\<close>

definition preview_info :: "'w os \<Rightarrow> nat \<Rightarrow> CameraFileInfo \<Rightarrow> ('w, CameraFileInfo) fsm" where
  "preview_info os cfile i =
     CR (deref_object cfile) (\<lambda>f.
     CR (gp_file_get_data_and_size os f True) (\<lambda>(_, size).
     ok (i\<lparr> i_preview := (i_preview i)\<lparr> i_fields := i_fields (i_preview i) OR (GP_FILE_INFO_SIZE OR GP_FILE_INFO_TYPE), i_size := of_nat size,
       i_type := take 64 (gp_file_get_mime_type f) \<rparr> \<rparr>)))"

definition gp_camera_file_get_info :: "nat \<Rightarrow> ('w, 'd) setting \<Rightarrow> 'w GPContext \<Rightarrow> string \<Rightarrow> string \<Rightarrow> nat \<Rightarrow> CameraFileInfo \<Rightarrow> ('w, 'd, CameraFileInfo) cam" where
  "gp_camera_file_get_info fuel S ctx folder name cfile old c =
    do {
      (r, c) \<leftarrow> check_init S c;
      if r < 0 then Some (r, old, c)
      else do {
        (r, c) \<leftarrow> call_hook S pre_func c;
        if r < 0 then Some (r, zero_info, c)
        else do {
          (res, i, c) \<leftarrow> in_fs zero_info (gp_filesystem_get_info (opsys S) ctx folder name) c;
          (r, c) \<leftarrow> call_hook S post_func c;
          if r < 0 then Some (r, i, c)
          else if res \<noteq> GP_ERROR_NOT_SUPPORTED then do { c \<leftarrow> camera_unused S c; Some (res, i, c) }
          else do {
            (r, f, c) \<leftarrow> in_fs (blank_file GP_FILE_ACCESSTYPE_MEMORY) gp_file_new c;
            (r, c) \<leftarrow> or_unused S r c;
            if r < 0 then Some (r, i, c)
            else if objects (c_fs c) cfile \<noteq> None then None
            else do {
              (_, _, c) \<leftarrow> in_fs () (put_object cfile (Some f)) c;
              (r, _, c) \<leftarrow> gp_camera_file_get fuel S ctx folder name GP_FILE_TYPE_PREVIEW cfile c;
              (_, i, c) \<leftarrow> (if r = GP_OK then in_fs i (preview_info (opsys S) cfile i) c else Some (GP_OK, i, c));
              (_, _, c) \<leftarrow> in_fs () (unref_object (opsys S) cfile) c;
              finish S i c } } } } }"

section \<open>Detecting all cameras\<close>

text \<open>\<open>detect\<close> stands for the lists of ports and cameras: the code of the first function that fails, or the models and ports that are attached.\<close>

definition gp_camera_autodetect :: "('w \<Rightarrow> (int + (string \<times> string) list) \<times> 'w) \<Rightarrow> (CameraList option \<times> 'w fs, nat) gpm" where
  "gp_camera_autodetect detect =
     CR (on_fs malloc) (\<lambda>_.
     CR (on_fs (os_call detect)) (\<lambda>r. case r of
       Inl e \<Rightarrow> fail e
     | Inr found \<Rightarrow>
         CR (each (\<lambda>(n, v). ignoring (gp_list_append (Some n) (Some v))) (filter (\<lambda>(n, v). v \<noteq> ''usb:'') found)) (\<lambda>_. gp_list_count)))"

end
