(* ===== verification/Gp_Camera_Props.thy ===== *)
theory Gp_Camera_Props
  imports Gp_Camera Gp_Fs_Ops
begin

text \<open>
  The life of a camera object: which calls are refused, what holds between calls, and where the counter of uses goes wrong.
\<close>

section \<open>An example\<close>

text \<open>A port of some type, on which a device is found if the number is 0 and which refuses to be set otherwise; a driver that has only a summary.\<close>

definition demo_host :: "GPPortType \<Rightarrow> int \<Rightarrow> unit host_libs" where
  "demo_host t r = \<lparr> port_type = \<lambda>_. t, port_open = \<lambda>w. (0, w), port_close = id, port_free = id, port_new = \<lambda>w. (0, w),
     port_find_device = \<lambda>_ _ w. (r, w), port_find_device_by_class = \<lambda>_ _ _ w. (r, w),
     port_get_info = \<lambda>_. (0, \<lparr> gi_type = t, gi_name = Some ''port'', gi_path = Some ''usb:'', gi_library = Some ''usb'' \<rparr>), port_set_info = \<lambda>_ w. (r, w),
     port_get_settings = \<lambda>_. (0, \<lparr> ser_port = [], ser_speed = 0, ser_bits = 8, ser_parity = 0, ser_stopbits = 1 \<rparr>), port_set_settings = \<lambda>_ w. (0, w),
     lib_open = \<lambda>_ w. (True, w), lib_close = id, find_cameras = \<lambda>w. ([], w), abilities_of = \<lambda>_. None, info_of = \<lambda>_. None \<rparr>"

definition demo_setting :: "GPPortType \<Rightarrow> int \<Rightarrow> (unit, unit) setting" where
  "demo_setting t r = \<lparr> host = demo_host t r,
     driver = \<lparr> function_table = \<lambda>_. no_functions\<lparr> summary := Some (\<lambda>c. ((0, ''ready''), c)) \<rparr>,
       camera_init = \<lambda>_. Some (\<lambda>c. (0, c\<lparr> c_functions := Some () \<rparr>)) \<rparr>,
     opsys = null_os, sorter = \<lambda>_ xs. xs \<rparr>"

definition demo_model :: CameraAbilities where
  "demo_model = no_abilities\<lparr> ab_model := ''Demo'' \<rparr>"

definition demo_camera :: "(unit, unit) camera" where
  "demo_camera = (new_camera (blank_fs [] () 1 None))\<lparr> c_abilities := demo_model \<rparr>"

lemmas demo_defs = demo_camera_def demo_model_def demo_setting_def demo_host_def new_camera_def no_abilities_def no_functions_def

section \<open>The calls\<close>

text \<open>The operations of a front-end that initialise the camera on demand, with their result.\<close>

inductive camera_call :: "('w, 'd) setting \<Rightarrow> ('w, 'd) camera \<Rightarrow> int \<Rightarrow> ('w, 'd) camera \<Rightarrow> bool" for S where
  get_config: "gp_camera_get_config S x c = Some (r, y, c') \<Longrightarrow> camera_call S c r c'"
| set_config: "gp_camera_set_config S x c = Some (r, y, c') \<Longrightarrow> camera_call S c r c'"
| get_summary: "gp_camera_get_summary S x c = Some (r, y, c') \<Longrightarrow> camera_call S c r c'"
| get_manual: "gp_camera_get_manual S x c = Some (r, y, c') \<Longrightarrow> camera_call S c r c'"
| get_about: "gp_camera_get_about S x c = Some (r, y, c') \<Longrightarrow> camera_call S c r c'"
| capture: "gp_camera_capture S t x c = Some (r, y, c') \<Longrightarrow> camera_call S c r c'"
| trigger_capture: "gp_camera_trigger_capture S c = Some (r, y, c') \<Longrightarrow> camera_call S c r c'"
| wait_for_event: "gp_camera_wait_for_event S t x c = Some (r, y, c') \<Longrightarrow> camera_call S c r c'"
| capture_preview: "gp_camera_capture_preview S a c = Some (r, y, c') \<Longrightarrow> camera_call S c r c'"
| list_files: "gp_camera_folder_list_files S ctx f l c = Some (r, l', c') \<Longrightarrow> camera_call S c r c'"
| list_folders: "gp_camera_folder_list_folders S ctx f l c = Some (r, l', c') \<Longrightarrow> camera_call S c r c'"
| delete_all: "gp_camera_folder_delete_all S ctx f c = Some (r, y, c') \<Longrightarrow> camera_call S c r c'"
| delete: "gp_camera_file_delete S ctx f n c = Some (r, y, c') \<Longrightarrow> camera_call S c r c'"
| make_dir: "gp_camera_folder_make_dir S ctx f n c = Some (r, y, c') \<Longrightarrow> camera_call S c r c'"
| remove_dir: "gp_camera_folder_remove_dir S ctx f n c = Some (r, y, c') \<Longrightarrow> camera_call S c r c'"
| storageinfo: "gp_camera_get_storageinfo S ctx x c = Some (r, y, c') \<Longrightarrow> camera_call S c r c'"
| set_info: "gp_camera_file_set_info S ctx f n i c = Some (r, y, c') \<Longrightarrow> camera_call S c r c'"
| put_file: "gp_camera_folder_put_file S ctx f n t a c = Some (r, y, c') \<Longrightarrow> camera_call S c r c'"
| file_get: "gp_camera_file_get fuel S ctx f n t a c = Some (r, y, c') \<Longrightarrow> camera_call S c r c'"
| file_read: "gp_camera_file_read S ctx f n t off sz x c = Some (r, y, c') \<Longrightarrow> camera_call S c r c'"
| get_info: "gp_camera_file_get_info fuel S ctx f n a x c = Some (r, y, c') \<Longrightarrow> camera_call S c r c'"

lemmas shape_defs = gp_camera_get_config_def gp_camera_set_config_def gp_camera_get_summary_def gp_camera_get_manual_def gp_camera_get_about_def
  gp_camera_capture_def gp_camera_trigger_capture_def gp_camera_wait_for_event_def gp_camera_folder_list_files_def
  gp_camera_folder_list_folders_def gp_camera_folder_delete_all_def gp_camera_file_delete_def gp_camera_folder_make_dir_def
  gp_camera_folder_remove_dir_def gp_camera_get_storageinfo_def gp_camera_file_set_info_def gp_camera_folder_put_file_def
  gp_camera_file_get_def gp_camera_file_read_def fs_op_def

lemma busy_negative: "GP_ERROR_CAMERA_BUSY < 0"
  by (simp add: GP_ERROR_CAMERA_BUSY_def)

lemma check_init_busy: "c_alive c \<Longrightarrow> c_used c \<noteq> 0 \<Longrightarrow> check_init S c = Some (GP_ERROR_CAMERA_BUSY, c)"
  by (simp add: check_init_def)

lemma busy_shapes:
  assumes "c_alive c" and "c_used c \<noteq> 0"
  shows "operation S x before op after c = Some (GP_ERROR_CAMERA_BUSY, x, c)" and "driver_op S x func c = Some (GP_ERROR_CAMERA_BUSY, x, c)"
    and "gp_camera_capture_preview S a c = Some (GP_ERROR_CAMERA_BUSY, (), c)"
    and "gp_camera_file_get_info fuel S ctx f n a i c = Some (GP_ERROR_CAMERA_BUSY, i, c)"
  using check_init_busy [OF assms, of S] busy_negative
  by (simp_all add: operation_def driver_op_def gp_camera_capture_preview_def gp_camera_file_get_info_def)

lemma call_alive: "camera_call S c r c' \<Longrightarrow> c_alive c"
  by (induction rule: camera_call.induct)
    (auto simp: shape_defs operation_def driver_op_def gp_camera_capture_preview_def gp_camera_file_get_info_def check_init_def split: if_splits)

lemma busy_call:
  assumes "camera_call S c r c'" and "c_used c \<noteq> 0"
  shows "r = GP_ERROR_CAMERA_BUSY \<and> c' = c"
  using assms(1) call_alive [OF assms(1)] assms(2)
  by (induction rule: camera_call.induct) (auto simp: shape_defs busy_shapes)

text \<open>C16: While a camera is in use (an operation is under way, or calls the library from the driver) every operation is refused with \<open>GP_ERROR_CAMERA_BUSY\<close> and changes nothing.\<close>
theorem busy_camera_refuses:
  assumes "camera_call S c r c'" and "c_used c \<noteq> 0"
  shows "r = GP_ERROR_CAMERA_BUSY \<and> c' = c"
  using assms by (rule busy_call)

theorem busy_camera_refuses_witness:
  "camera_call (demo_setting GP_PORT_USB 0) (demo_camera\<lparr> c_used := 1 \<rparr>) GP_ERROR_CAMERA_BUSY (demo_camera\<lparr> c_used := 1 \<rparr>)"
proof -
  let ?c = "demo_camera\<lparr> c_used := 1 \<rparr>"
  have c: "c_alive ?c" "c_used ?c \<noteq> 0" by (simp_all add: demo_defs)
  have "gp_camera_get_summary (demo_setting GP_PORT_USB 0) [] ?c = Some (GP_ERROR_CAMERA_BUSY, [], ?c)"
    unfolding gp_camera_get_summary_def by (rule busy_shapes(2) [OF c])
  note r = camera_call.get_summary [OF this]
  from busy_camera_refuses [OF r c(2)] r show ?thesis by simp
qed

section \<open>The counter of uses\<close>

text \<open>
  Drivers that keep to the rules: a function of the table, and \<open>camera_init\<close>, may call the library, but as the camera is in use or being closed it leaves alone
  whether the object is there, its counter of uses and its library; those that run outside an operation keep the references as well.
\<close>

definition keeps_use :: "(('w, 'd) camera \<Rightarrow> ('w, 'd) camera) \<Rightarrow> bool" where
  "keeps_use f \<longleftrightarrow> (\<forall>c. c_alive c \<longrightarrow> c_alive (f c) \<and> c_used (f c) = c_used c \<and> c_lh (f c) = c_lh c)"

definition keeps_refs :: "(('w, 'd) camera \<Rightarrow> ('w, 'd) camera) \<Rightarrow> bool" where
  "keeps_refs f \<longleftrightarrow> keeps_use f \<and> (\<forall>c. c_ref_count (f c) = c_ref_count c \<and> c_exit_requested (f c) = c_exit_requested c)"

definition polite_table :: "('w, 'd) camera CameraFunctions \<Rightarrow> bool" where
  "polite_table t \<longleftrightarrow>
     (\<forall>f. pre_func t = Some f \<longrightarrow> keeps_use (\<lambda>c. snd (f c))) \<and> (\<forall>f. post_func t = Some f \<longrightarrow> keeps_use (\<lambda>c. snd (f c))) \<and>
     (\<forall>f. exit_func t = Some f \<longrightarrow> keeps_refs (\<lambda>c. snd (f c))) \<and> (\<forall>f. get_config t = Some f \<longrightarrow> keeps_use (\<lambda>c. snd (f c))) \<and>
     (\<forall>f x. set_config t = Some f \<longrightarrow> keeps_use (\<lambda>c. snd (f x c))) \<and> (\<forall>f x. capture t = Some f \<longrightarrow> keeps_use (\<lambda>c. snd (f x c))) \<and>
     (\<forall>f. trigger_capture t = Some f \<longrightarrow> keeps_use (\<lambda>c. snd (f c))) \<and> (\<forall>f x. capture_preview t = Some f \<longrightarrow> keeps_use (\<lambda>c. snd (f x c))) \<and>
     (\<forall>f. summary t = Some f \<longrightarrow> keeps_use (\<lambda>c. snd (f c))) \<and> (\<forall>f. manual t = Some f \<longrightarrow> keeps_use (\<lambda>c. snd (f c))) \<and>
     (\<forall>f. about t = Some f \<longrightarrow> keeps_use (\<lambda>c. snd (f c))) \<and> (\<forall>f x. wait_for_event t = Some f \<longrightarrow> keeps_use (\<lambda>c. snd (f x c)))"

definition polite :: "('w, 'd) setting \<Rightarrow> bool" where
  "polite S \<longleftrightarrow> (\<forall>d. polite_table (function_table (driver S) d)) \<and> (\<forall>l f. camera_init (driver S) l = Some f \<longrightarrow> keeps_refs (\<lambda>c. snd (f c)))"

text \<open>The camera can be used: when an operation has to load the driver and open the connection first, that succeeds.\<close>

definition opens :: "('w, 'd) setting \<Rightarrow> ('w, 'd) camera \<Rightarrow> bool" where
  "opens S c \<longleftrightarrow> (\<forall>r c'. check_init S c = Some (r, c') \<longrightarrow> 0 \<le> r)"

text \<open>Between calls, and during one.\<close>

definition settled :: "('w, 'd) camera \<Rightarrow> bool" where
  "settled c \<longleftrightarrow> (c_alive c \<longrightarrow> c_used c = 0 \<and> c_ref_count c \<noteq> 0 \<and> (c_exit_requested c \<longrightarrow> \<not> c_lh c))"

definition under_way :: "('w, 'd) camera \<Rightarrow> bool" where
  "under_way c \<longleftrightarrow> c_alive c \<and> c_used c = 1"

lemma on_env_fields:
  "on_env f c = (a, c') \<Longrightarrow> c_alive c' = c_alive c \<and> c_used c' = c_used c \<and> c_lh c' = c_lh c \<and> c_ref_count c' = c_ref_count c \<and>
    c_exit_requested c' = c_exit_requested c \<and> c_functions c' = c_functions c \<and> c_abilities c' = c_abilities c"
  by (auto simp: on_env_def split: prod.splits)

lemma run_env_fields [simp]:
  "c_alive (run_env f c) = c_alive c" "c_used (run_env f c) = c_used c" "c_lh (run_env f c) = c_lh c" "c_ref_count (run_env f c) = c_ref_count c"
  "c_exit_requested (run_env f c) = c_exit_requested c" "c_functions (run_env f c) = c_functions c" "c_abilities (run_env f c) = c_abilities c"
  by (simp_all add: run_env_def)

text \<open>What functions of the filesystem and the environment leave alone.\<close>

definition same_use :: "('w, 'd) camera \<Rightarrow> ('w, 'd) camera \<Rightarrow> bool" where
  "same_use c c' \<longleftrightarrow> c_alive c' = c_alive c \<and> c_used c' = c_used c \<and> c_lh c' = c_lh c \<and> c_ref_count c' = c_ref_count c \<and> c_exit_requested c' = c_exit_requested c"

lemma in_fs_same: "in_fs x m c = Some (r, y, c') \<Longrightarrow> same_use c c'"
  by (auto simp: in_fs_def same_use_def split: prod.splits sum.splits if_splits)

lemma in_list_same: "in_list m l c = Some (r, y, c') \<Longrightarrow> same_use c c'"
  by (auto simp: in_list_def same_use_def split: prod.splits sum.splits if_splits)

lemma stop_timeout_same: "same_use c (gp_camera_stop_timeout i c)"
  by (auto simp: gp_camera_stop_timeout_def same_use_def split: option.splits)

lemma same_use_trans: "same_use c d \<Longrightarrow> same_use d e \<Longrightarrow> same_use c e"
  by (simp add: same_use_def)

lemma stop_timeouts_same: "stop_timeouts c = Some c' \<Longrightarrow> same_use c c'"
proof (erule stop_timeouts.raw_induct [rotated])
  fix F and c c' :: "('w, 'd) camera"
  assume IH: "\<And>c c'. F c = Some c' \<Longrightarrow> same_use c c'" and e: "(case c_timeout_ids c of [] \<Rightarrow> Some c | i # x \<Rightarrow> F (gp_camera_stop_timeout i c)) = Some c'"
  show "same_use c c'"
  proof (cases "c_timeout_ids c")
    case Nil
    with e show ?thesis by (simp add: same_use_def)
  next
    case (Cons i js)
    with e have "same_use (gp_camera_stop_timeout i c) c'" by (intro IH) simp
    with stop_timeout_same show ?thesis by (rule same_use_trans)
  qed
qed

lemma polite_funcs: "polite S \<Longrightarrow> polite_table (funcs_of S c)"
  by (auto simp: polite_def funcs_of_def polite_table_def no_functions_def split: option.splits)

text \<open>What closing and initialising leave alone.\<close>

definition same_life :: "('w, 'd) camera \<Rightarrow> ('w, 'd) camera \<Rightarrow> bool" where
  "same_life c c' \<longleftrightarrow> c_alive c' = c_alive c \<and> c_used c' = c_used c \<and> c_ref_count c' = c_ref_count c \<and> (c_used c = 0 \<longrightarrow> c_exit_requested c' = c_exit_requested c)"

lemma same_life_refl [simp]: "same_life c c"
  by (simp add: same_life_def)

lemma same_life_trans: "same_life c d \<Longrightarrow> same_life d e \<Longrightarrow> same_life c e"
  by (simp add: same_life_def)

lemma same_use_life: "same_use c d \<Longrightarrow> same_life c d"
  by (simp add: same_life_def same_use_def)

lemma exit_life:
  assumes S: "polite S" and e: "gp_camera_exit S c = Some (r, c')"
  shows "c_alive c \<and> same_life c c' \<and> (c_used c = 0 \<longrightarrow> \<not> c_lh c')"
proof (cases "c_used c = 0")
  case False
  with e show ?thesis by (auto simp: gp_camera_exit_def same_life_def split: if_splits)
next
  case True
  from e True have a: "c_alive c" by (auto simp: gp_camera_exit_def split: if_splits)
  from e True a obtain c1 c2 c3 where c1: "stop_timeouts c = Some c1"
    and c2: "c2 = (case exit_func (funcs_of S c1) of None \<Rightarrow> c1 | Some f \<Rightarrow> snd (f c1))" "c_alive c2"
    and c3: "c3 = (let d = (run_env (port_close (host S)) c2)\<lparr> c_functions := None \<rparr> in if c_lh d then (run_env (lib_close (host S)) d)\<lparr> c_lh := False \<rparr> else d)"
    and r: "\<exists>r y. in_fs () (gp_filesystem_reset (opsys S)) c3 = Some (r, y, c')"
    by (auto simp: gp_camera_exit_def bind_eq_Some_conv Let_def split: if_splits)
  have 1: "same_use c c1" by (rule stop_timeouts_same [OF c1])
  have 2: "same_use c1 c2"
  proof (cases "exit_func (funcs_of S c1)")
    case (Some f)
    then have "keeps_refs (\<lambda>c. snd (f c))" using polite_funcs [OF S, of c1] by (simp add: polite_table_def)
    with Some c2 1 a show ?thesis by (simp add: keeps_refs_def keeps_use_def same_use_def)
  qed (use c2 in \<open>simp add: same_use_def\<close>)
  have 3: "same_life c2 c3" "\<not> c_lh c3" by (auto simp: c3 Let_def same_life_def)
  from r have 4: "same_use c3 c'" by (elim exE) (rule in_fs_same)
  show ?thesis using a 1 2 3 4 by (auto simp: same_life_def same_use_def)
qed

lemma free_dead: "gp_camera_free S c = Some (r, c') \<Longrightarrow> \<not> c_alive c'"
  by (auto simp: gp_camera_free_def bind_eq_Some_conv Let_def split: if_splits)

lemma unused_settled:
  assumes S: "polite S" and c: "under_way c" and e: "camera_unused S c = Some c'"
  shows "settled c'"
proof -
  let ?c = "c\<lparr> c_used := 0 \<rparr>"
  have u: "c_alive c" "c_used c - 1 = 0" using c by (simp_all add: under_way_def)
  from e u obtain r c1 r' where c1: "(if c_exit_requested c then gp_camera_exit S ?c else Some (GP_OK, ?c)) = Some (r, c1)"
    and c': "(if c_ref_count c1 = 0 then gp_camera_free S c1 else Some (GP_OK, c1)) = Some (r', c')"
    by (auto simp: camera_unused_def Let_def bind_eq_Some_conv)
  have 1: "c_alive c1" "c_used c1 = 0" "c_exit_requested c1 \<longrightarrow> \<not> c_lh c1"
    using c1 exit_life [OF S, of ?c r c1] u by (auto simp: same_life_def split: if_splits)
  show ?thesis
  proof (cases "c_ref_count c1 = 0")
    case True
    with c' free_dead show ?thesis by (auto simp: settled_def)
  next
    case False
    with c' 1 show ?thesis by (simp add: settled_def)
  qed
qed

lemma or_unused_cases:
  assumes "polite S" and "under_way c" and "or_unused S r c = Some (r', c')"
  shows "(r' < 0 \<and> settled c') \<or> (\<not> r' < 0 \<and> c' = c)"
  using assms unused_settled [OF assms(1,2)] by (auto simp: or_unused_def bind_eq_Some_conv GP_OK_def split: if_splits)

lemma or_unused_ok: "0 \<le> r \<Longrightarrow> or_unused S r c = Some (GP_OK, c)"
  by (simp add: or_unused_def)

lemma disconnect_life: "polite S \<Longrightarrow> disconnect S c = Some c' \<Longrightarrow> same_life c c'"
  using exit_life by (auto simp: disconnect_def split: if_splits)

lemma on_env_fst: "on_env f c = (x, c') \<Longrightarrow> x = fst (f (env (c_fs c)))"
  by (cases "f (env (c_fs c))") (simp add: on_env_def)

lemma on_env_life: "on_env f c = (x, c') \<Longrightarrow> same_life c c'"
  by (drule on_env_fields) (simp add: same_life_def)

lemma set_abilities_life: "polite S \<Longrightarrow> gp_camera_set_abilities S a c = Some (r, c') \<Longrightarrow> same_life c c' \<and> r = GP_OK"
  using disconnect_life [of S c] by (auto simp: gp_camera_set_abilities_def bind_eq_Some_conv same_life_def split: if_splits)

lemma set_port_info_life:
  assumes "polite S" and "gp_camera_set_port_info S i c = Some (r, c')" and "0 \<le> r"
  shows "same_life c c' \<and> r = GP_OK"
proof -
  from assms(2) obtain d where d: "disconnect S c = Some d" and e: "(case on_env (port_set_info (host S) i) d of (r, c) \<Rightarrow> or_unused S r c) = Some (r, c')"
    by (auto simp: gp_camera_set_port_info_def bind_eq_Some_conv split: if_splits)
  obtain x f where f: "on_env (port_set_info (host S) i) d = (x, f)" by fastforce
  have "0 \<le> x" using e f assms(3) by (auto simp: or_unused_def bind_eq_Some_conv split: if_splits)
  with e f have "r = GP_OK" "c' = f" by (simp_all add: or_unused_ok)
  with disconnect_life [OF assms(1) d] on_env_life [OF f] show ?thesis using same_life_trans by blast
qed

lemma detect_life:
  assumes S: "polite S" and e: "detect_camera S c = Some (r, c')" and H: "0 \<le> r"
  shows "same_life c c'"
proof -
  obtain m f where m: "malloc (c_fs c) = (m, f)" by fastforce
  have f: "same_life c (c\<lparr> c_fs := f \<rparr>)" by (simp add: same_life_def)
  show ?thesis
  proof (cases m)
    case (Inl x)
    with e m f show ?thesis by (simp add: detect_camera_def)
  next
    case (Inr x)
    obtain found d where d: "on_env (find_cameras (host S)) (c\<lparr> c_fs := f \<rparr>) = (found, d)" by fastforce
    have cd: "same_life c d" using same_life_trans [OF f on_env_life [OF d]] .
    show ?thesis
    proof (cases "found = []")
      case True
      with e m Inr d cd show ?thesis by (simp add: detect_camera_def)
    next
      case False
      with e m Inr d obtain p where p: "(case p of None \<Rightarrow> Some (GP_ERROR_FILE_NOT_FOUND, d)
          | Some p \<Rightarrow> do { a \<leftarrow> abilities_of (host S) (fst (found ! p)); (r, c) \<leftarrow> gp_camera_set_abilities S a d; (r, c) \<leftarrow> or_unused S r c;
              if r < 0 then Some (r, c) else do { i \<leftarrow> info_of (host S) (snd (found ! p)); (r, c) \<leftarrow> gp_camera_set_port_info S i c; or_unused S r c } }) = Some (r, c')"
        by (auto simp: detect_camera_def bind_eq_Some_conv)
      show ?thesis
      proof (cases p)
        case None
        with p cd show ?thesis by simp
      next
        case (Some q)
        with p obtain a ra ca where a: "gp_camera_set_abilities S a d = Some (ra, ca)"
          and rest: "do { (r, c) \<leftarrow> or_unused S ra ca;
              if r < 0 then Some (r, c) else do { i \<leftarrow> info_of (host S) (snd (found ! q)); (r, c) \<leftarrow> gp_camera_set_port_info S i c; or_unused S r c } } = Some (r, c')"
          by (auto simp: bind_eq_Some_conv)
        from set_abilities_life [OF S a] have la: "same_life d ca" "ra = GP_OK" by simp_all
        with rest obtain i ri ci where i: "gp_camera_set_port_info S i ca = Some (ri, ci)" "or_unused S ri ci = Some (r, c')"
          by (auto simp: or_unused_def GP_OK_def bind_eq_Some_conv)
        have "0 \<le> ri" using i(2) H by (auto simp: or_unused_def bind_eq_Some_conv split: if_splits)
        from set_port_info_life [OF S i(1) this] i(2) have "same_life ca c'" by (simp add: or_unused_def GP_OK_def)
        with la(1) cd show ?thesis using same_life_trans by blast
      qed
    qed
  qed
qed

lemma find_usb_life:
  assumes e: "find_usb S c = Some (r, c')" and H: "0 \<le> r"
  shows "same_life c c'"
proof -
  let ?a = "c_abilities c"
  obtain x d where d: "on_env (port_find_device (host S) (ab_usb_vendor ?a) (ab_usb_product ?a)) c = (x, d)" by fastforce
  obtain y f where f: "on_env (port_find_device_by_class (host S) (ab_usb_class ?a) (ab_usb_subclass ?a) (ab_usb_protocol ?a)) d = (y, f)" by fastforce
  have "c' = d \<or> c' = f" using e d f H by (auto simp: find_usb_def Let_def or_unused_def bind_eq_Some_conv split: if_splits)
  with on_env_life [OF d] on_env_life [OF f] show ?thesis using same_life_trans by blast
qed

lemma check_port_life: "check_port S c = Some (r, c') \<Longrightarrow> 0 \<le> r \<Longrightarrow> same_life c c'"
  using find_usb_life [of S c r c'] by (auto simp: check_port_def split: if_splits GPPortType.splits)

lemma unload_life: "same_life c (unload S c)"
  by (simp add: unload_def same_life_def)

lemma load_driver_life:
  assumes S: "polite S" and a: "c_alive c" and e: "load_driver S c = Some (r, c')"
  shows "same_life c c'"
proof -
  obtain opened d where d: "on_env (lib_open (host S) (ab_library (c_abilities c))) c = (opened, d)" by fastforce
  note cd = on_env_life [OF d]
  show ?thesis
  proof (cases opened)
    case False
    with e d cd show ?thesis by (auto simp: load_driver_def same_life_def)
  next
    case True
    let ?d = "d\<lparr> c_lh := True \<rparr>"
    have cd': "same_life c ?d" using cd by (simp add: same_life_def)
    show ?thesis
    proof (cases "camera_init (driver S) (ab_library (c_abilities ?d))")
      case None
      with e d True cd' unload_life [of ?d S] show ?thesis using same_life_trans [OF cd'] by (auto simp: load_driver_def Let_def)
    next
      case (Some init)
      obtain x f where f: "(if is_browse ?d then (GP_OK, ?d) else on_env (port_open (host S)) ?d) = (x, f)" by fastforce
      have df: "same_life c f" using f cd' on_env_life [of "port_open (host S)" ?d x f] same_life_trans [OF cd'] by (auto split: if_splits)
      obtain y g where g: "init f = (y, g)" by fastforce
      have "keeps_refs (\<lambda>c. snd (init c))" using S Some unfolding polite_def by blast
      then have "c_alive f \<longrightarrow> c_alive (snd (init f)) \<and> c_used (snd (init f)) = c_used f"
        and "c_ref_count (snd (init f)) = c_ref_count f" "c_exit_requested (snd (init f)) = c_exit_requested f"
        unfolding keeps_refs_def keeps_use_def by blast+
      then have fg: "same_life f g" using a df g by (auto simp: same_life_def)
      have u: "same_life c (unload S f)" using same_life_trans [OF df unload_life] .
      have v: "same_life c ((unload S (run_env (port_close (host S)) g))\<lparr> c_functions := None \<rparr>)"
        using same_life_trans [OF df fg] by (simp add: same_life_def unload_def)
      from e d True Some f g have "c' = unload S f \<or> c' = (unload S (run_env (port_close (host S)) g))\<lparr> c_functions := None \<rparr> \<or> c' = g"
        by (auto simp: load_driver_def Let_def split: if_splits)
      with u v same_life_trans [OF df fg] show ?thesis by blast
    qed
  qed
qed

lemma init_life:
  assumes S: "polite S" and e: "gp_camera_init S c = Some (r, c')" and H: "0 \<le> r"
  shows "c_alive c \<and> same_life (c\<lparr> c_exit_requested := False \<rparr>) c'"
proof -
  let ?c = "c\<lparr> c_exit_requested := False \<rparr>"
  from e have a: "c_alive c" by (auto simp: gp_camera_init_def split: if_splits)
  from e a obtain r1 c1 where 1: "(if ab_model (c_abilities c) = [] then detect_camera S ?c else Some (GP_OK, ?c)) = Some (r1, c1)"
    and 2: "(if r1 < 0 then Some (r1, c1) else do { (r, c) \<leftarrow> check_port S c1; if r < 0 then Some (r, c) else load_driver S c }) = Some (r, c')"
    by (auto simp: gp_camera_init_def bind_eq_Some_conv Let_def)
  from 2 H obtain r2 c2 where r1: "0 \<le> r1" and c2: "check_port S c1 = Some (r2, c2)" "0 \<le> r2" "load_driver S c2 = Some (r, c')"
    by (auto simp: bind_eq_Some_conv split: if_splits)
  have l1: "same_life ?c c1" using 1 r1 detect_life [OF S] by (auto split: if_splits)
  have l2: "same_life ?c c2" using same_life_trans [OF l1 check_port_life [OF c2(1,2)]] .
  then have "c_alive c2" using a by (simp add: same_life_def)
  then have "same_life c2 c'" using load_driver_life [OF S _ c2(3)] by simp
  with l2 a show ?thesis using same_life_trans by blast
qed

text \<open>The outcome of a step in an operation: an error ends the use, success goes on with it.\<close>

definition step_ok :: "int \<Rightarrow> ('w, 'd) camera \<Rightarrow> bool" where
  "step_ok r c \<longleftrightarrow> (r < 0 \<and> settled c) \<or> (\<not> r < 0 \<and> under_way c)"

lemma or_unused_step: "polite S \<Longrightarrow> under_way c \<Longrightarrow> or_unused S r c = Some (r', c') \<Longrightarrow> step_ok r' c'"
  using or_unused_cases by (fastforce simp: step_ok_def)

lemma check_init_step:
  assumes S: "polite S" and H: "opens S c" and c: "settled c" and e: "check_init S c = Some (r, c')"
  shows "step_ok r c'"
proof -
  from e have a: "c_alive c" by (auto simp: check_init_def split: if_splits)
  with c have u: "c_used c = 0" by (simp add: settled_def)
  let ?c = "c\<lparr> c_used := 1 \<rparr>"
  have w: "under_way ?c" using a by (simp add: under_way_def)
  show ?thesis
  proof (cases "c_lh c")
    case True
    with e a u w show ?thesis by (simp add: check_init_def step_ok_def GP_OK_def)
  next
    case False
    with e a u obtain r1 c1 where i: "gp_camera_init S ?c = Some (r1, c1)" "or_unused S r1 c1 = Some (r, c')"
      by (auto simp: check_init_def bind_eq_Some_conv)
    have "0 \<le> r" using H e by (simp add: opens_def)
    then have "0 \<le> r1" using i(2) by (auto simp: or_unused_def bind_eq_Some_conv split: if_splits)
    then have "under_way c1" using init_life [OF S i(1)] w by (simp add: same_life_def under_way_def)
    from or_unused_step [OF S this i(2)] show ?thesis .
  qed
qed

definition keeps_under_way :: "('w, 'd, 'a) cam \<Rightarrow> bool" where
  "keeps_under_way op \<longleftrightarrow> (\<forall>c r y c'. under_way c \<longrightarrow> op c = Some (r, y, c') \<longrightarrow> under_way c')"

lemma fs_under_way [intro]: "keeps_under_way (in_fs x m)" "keeps_under_way (in_list n l)" "keeps_under_way (nothing y)"
  using in_fs_same in_list_same by (fastforce simp: keeps_under_way_def same_use_def under_way_def nothing_def)+

lemma call_hook_step:
  assumes S: "polite S" and h: "\<And>c f. hook (funcs_of S c) = Some f \<Longrightarrow> keeps_use (\<lambda>c. snd (f c))" and c: "under_way c" and e: "call_hook S hook c = Some (r, c')"
  shows "step_ok r c'"
proof (cases "hook (funcs_of S c)")
  case None
  with e c show ?thesis by (auto simp: call_hook_def step_ok_def GP_OK_def split: if_splits)
next
  case (Some f)
  obtain x d where d: "f c = (x, d)" by fastforce
  have "under_way d" using h [OF Some] c d by (auto simp: keeps_use_def under_way_def)
  with e Some d S show ?thesis by (auto simp: call_hook_def intro: or_unused_step split: if_splits)
qed

lemma open_close_step:
  assumes S: "polite S" and op: "keeps_under_way op" and c: "under_way c" and e: "open_close S x op c = Some (r, y, c')"
  shows "step_ok r c'"
proof -
  from e obtain r1 c1 where 1: "call_hook S pre_func c = Some (r1, c1)"
    and e1: "(if r1 < 0 then Some (r1, x, c1) else do { (r, a, c) \<leftarrow> op c1; (r3, c) \<leftarrow> call_hook S post_func c;
        if r3 < 0 then Some (r3, a, c) else do { (r, c) \<leftarrow> or_unused S r c; Some (r, a, c) } }) = Some (r, y, c')"
    by (auto simp: open_close_def bind_eq_Some_conv)
  have s1: "step_ok r1 c1" using call_hook_step [OF S _ c 1] polite_funcs [OF S] unfolding polite_table_def by blast
  show ?thesis
  proof (cases "r1 < 0")
    case True
    with e1 s1 show ?thesis by simp
  next
    case False
    with e1 obtain r2 c2 r3 c3 where 2: "op c1 = Some (r2, y, c2)" and 3: "call_hook S post_func c2 = Some (r3, c3)"
      and 4: "if r3 < 0 then r = r3 \<and> c' = c3 else or_unused S r2 c3 = Some (r, c')"
      by (auto simp: bind_eq_Some_conv split: if_splits)
    have "under_way c1" using s1 False by (simp add: step_ok_def)
    then have u2: "under_way c2" using op 2 unfolding keeps_under_way_def by blast
    have s3: "step_ok r3 c3" using call_hook_step [OF S _ u2 3] polite_funcs [OF S] unfolding polite_table_def by blast
    show ?thesis
    proof (cases "r3 < 0")
      case True
      with 4 s3 show ?thesis by simp
    next
      case False
      with s3 have "under_way c3" by (simp add: step_ok_def)
      with 4 False or_unused_step [OF S] show ?thesis by auto
    qed
  qed
qed

text \<open>What a computation that may be undefined gives when it is defined; the rules carry an operation from step to step.\<close>

definition gives :: "'x option \<Rightarrow> ('x \<Rightarrow> bool) \<Rightarrow> bool" where
  "gives m Q \<longleftrightarrow> (\<forall>x. m = Some x \<longrightarrow> Q x)"

lemma givesD: "gives m Q \<Longrightarrow> m = Some x \<Longrightarrow> Q x"
  by (simp add: gives_def)

lemma gives_bind: "gives m (\<lambda>x. gives (k x) Q) \<Longrightarrow> gives (m \<bind> k) Q"
  by (auto simp: gives_def bind_eq_Some_conv)

lemma gives_simps [simp]: "gives (Some x) Q = Q x" "gives None Q"
  by (auto simp: gives_def)

lemma gives_if: "(b \<Longrightarrow> gives m Q) \<Longrightarrow> (\<not> b \<Longrightarrow> gives n Q) \<Longrightarrow> gives (if b then m else n) Q"
  by simp

lemma gives_option: "(x = None \<Longrightarrow> gives m Q) \<Longrightarrow> (\<And>y. x = Some y \<Longrightarrow> gives (k y) Q) \<Longrightarrow> gives (case x of None \<Rightarrow> m | Some y \<Rightarrow> k y) Q"
  by (cases x) simp_all

lemma gives_pair: "(\<And>y z. x = (y, z) \<Longrightarrow> gives (k y z) Q) \<Longrightarrow> gives (case x of (y, z) \<Rightarrow> k y z) Q"
  by (cases x) simp

lemma check_init_gives:
  assumes "polite S" and "opens S c" and "settled c" and "\<And>r d. step_ok r d \<Longrightarrow> Q (r, d)"
  shows "gives (check_init S c) Q"
  using check_init_step [OF assms(1-3)] assms(4) by (auto simp: gives_def)

lemma or_unused_gives:
  assumes "polite S" and "under_way c" and "\<And>r d. step_ok r d \<Longrightarrow> Q (r, d)"
  shows "gives (or_unused S x c) Q"
  using or_unused_step [OF assms(1,2)] assms(3) by (auto simp: gives_def)

lemma unused_gives:
  assumes "polite S" and "under_way c" and "\<And>d. settled d \<Longrightarrow> Q d"
  shows "gives (camera_unused S c) Q"
  using unused_settled [OF assms(1,2)] assms(3) by (auto simp: gives_def)

lemma finish_gives:
  assumes "polite S" and "under_way c" and "\<And>d. settled d \<Longrightarrow> Q (GP_OK, x, d)"
  shows "gives (finish S x c) Q"
  using unused_settled [OF assms(1,2)] assms(3) by (auto simp: gives_def finish_def bind_eq_Some_conv)

lemma under_way_gives:
  assumes "keeps_under_way op" and "under_way c" and "\<And>r y d. under_way d \<Longrightarrow> Q (r, y, d)"
  shows "gives (op c) Q"
  using assms unfolding gives_def keeps_under_way_def by auto

lemma call_hook_gives:
  assumes "polite S" and "\<And>t f. polite_table t \<Longrightarrow> hook t = Some f \<Longrightarrow> keeps_use (\<lambda>c. snd (f c))" and "under_way c" and "\<And>r d. step_ok r d \<Longrightarrow> Q (r, d)"
  shows "gives (call_hook S hook c) Q"
  using call_hook_step [OF assms(1) assms(2) [OF polite_funcs [OF assms(1)]] assms(3)] assms(4) by (auto simp: gives_def)

lemma open_close_gives:
  assumes "polite S" and "keeps_under_way op" and "under_way c" and "\<And>r y d. step_ok r d \<Longrightarrow> Q (r, y, d)"
  shows "gives (open_close S x op c) Q"
  using open_close_step [OF assms(1-3)] assms(4) by (auto simp: gives_def)

lemma step_okD: "step_ok r c \<Longrightarrow> \<not> r < 0 \<Longrightarrow> under_way c" "step_ok r c \<Longrightarrow> r < 0 \<Longrightarrow> settled c"
  by (simp_all add: step_ok_def)

lemmas steps = gives_bind gives_if gives_option gives_pair check_init_gives or_unused_gives unused_gives finish_gives open_close_gives
  under_way_gives [OF fs_under_way(1)] step_okD

definition leaves_settled :: "('w, 'd) setting \<Rightarrow> ('w, 'd, 'a) cam \<Rightarrow> bool" where
  "leaves_settled S op \<longleftrightarrow> (\<forall>c. opens S c \<longrightarrow> settled c \<longrightarrow> gives (op c) (\<lambda>(r, y, c'). settled c'))"

lemma operation_settled:
  assumes S: "polite S" and k: "\<And>z. keeps_under_way (before z)" "\<And>z. keeps_under_way (op z)" "\<And>z. keeps_under_way (after z)"
  shows "leaves_settled S (operation S x before op after)"
  unfolding leaves_settled_def operation_def
  by (auto intro!: steps S k under_way_gives [OF k(1)] under_way_gives [OF k(3)])

lemma keeps_use_step: "keeps_use (\<lambda>c. snd (f c)) \<Longrightarrow> keeps_under_way (\<lambda>c. case f c of ((r, a), c) \<Rightarrow> Some (r, a, c))"
  "keeps_use (\<lambda>c. snd (g c)) \<Longrightarrow> keeps_under_way (\<lambda>c. case g c of (r, c) \<Rightarrow> Some (r, y, c))"
  by (auto simp: keeps_use_def keeps_under_way_def under_way_def split: prod.splits)

lemma driver_op_settled:
  assumes S: "polite S" and f: "\<And>t f. polite_table t \<Longrightarrow> func t = Some f \<Longrightarrow> keeps_use (\<lambda>c. snd (f c))"
  shows "leaves_settled S (driver_op S x func)"
  unfolding leaves_settled_def driver_op_def
  by (auto intro!: steps S keeps_use_step(1) f [OF polite_funcs [OF S]])

lemma preview_settled:
  assumes S: "polite S"
  shows "leaves_settled S (gp_camera_capture_preview S a)"
  unfolding leaves_settled_def gp_camera_capture_preview_def
  using polite_funcs [OF S] by (auto intro!: steps S keeps_use_step(2) simp: polite_table_def)

lemma file_get_busy: "under_way c \<Longrightarrow> gp_camera_file_get fuel S ctx f n t a c = Some (GP_ERROR_CAMERA_BUSY, (), c)"
  by (simp add: gp_camera_file_get_def busy_shapes under_way_def)

lemma get_info_settled:
  assumes S: "polite S"
  shows "leaves_settled S (gp_camera_file_get_info fuel S ctx f n a x)"
  unfolding leaves_settled_def gp_camera_file_get_info_def
  by (auto intro!: steps S call_hook_gives simp: polite_table_def file_get_busy)

lemma file_get_settled:
  assumes S: "polite S"
  shows "leaves_settled S (gp_camera_file_get fuel S ctx f n t a)"
  unfolding gp_camera_file_get_def
proof (rule operation_settled [OF S _ fs_under_way(1) fs_under_way(3)])
  show "keeps_under_way (\<lambda>c. do { (r, _, c) \<leftarrow> in_fs () (update_object a gp_file_clean) c; Some (if r < 0 then r else check_names f n, (), c) })"
    using in_fs_same by (fastforce simp: keeps_under_way_def bind_eq_Some_conv same_use_def under_way_def)
qed

lemma read_settled:
  assumes S: "polite S"
  shows "leaves_settled S (gp_camera_file_read S ctx f n t off sz x)"
  unfolding gp_camera_file_read_def
  by (rule operation_settled [OF S _ fs_under_way(1) fs_under_way(3)]) (simp add: keeps_under_way_def)

lemma plain_snd [simp]: "snd (plain f c) = snd (f c)"
  by (simp add: plain_def split: prod.splits)

lemma driver_settled:
  assumes S: "polite S"
  shows "leaves_settled S (gp_camera_get_config S x)" "leaves_settled S (gp_camera_set_config S y)" "leaves_settled S (gp_camera_get_summary S s)"
    "leaves_settled S (gp_camera_get_manual S s)" "leaves_settled S (gp_camera_get_about S s)" "leaves_settled S (gp_camera_capture S t p)"
    "leaves_settled S (gp_camera_trigger_capture S)" "leaves_settled S (gp_camera_wait_for_event S u v)"
  unfolding shape_defs
  by (rule driver_op_settled [OF S]; auto simp: polite_table_def)+

lemmas fs_settled = operation_settled [OF _ fs_under_way(3) fs_under_way(1) fs_under_way(3)]
  operation_settled [OF _ fs_under_way(2) fs_under_way(2) fs_under_way(2)]

lemma leaves_settledD: "leaves_settled S op \<Longrightarrow> opens S c \<Longrightarrow> settled c \<Longrightarrow> op c = Some (r, y, c') \<Longrightarrow> settled c'"
  unfolding leaves_settled_def by (fastforce dest: givesD)

lemma call_settled:
  assumes S: "polite S" and "camera_call S c r c'" and "opens S c" and "settled c"
  shows "settled c'"
  using assms(2-4)
  by (induction rule: camera_call.induct)
    (auto intro: leaves_settledD [OF preview_settled [OF S]] leaves_settledD [OF get_info_settled [OF S]] leaves_settledD [OF file_get_settled [OF S]]
      leaves_settledD [OF read_settled [OF S]] leaves_settledD [OF driver_settled(1) [OF S]] leaves_settledD [OF driver_settled(2) [OF S]]
      leaves_settledD [OF driver_settled(3) [OF S]] leaves_settledD [OF driver_settled(4) [OF S]] leaves_settledD [OF driver_settled(5) [OF S]]
      leaves_settledD [OF driver_settled(6) [OF S]] leaves_settledD [OF driver_settled(7) [OF S]] leaves_settledD [OF driver_settled(8) [OF S]]
      dest: leaves_settledD [OF fs_settled(1) [OF S]] leaves_settledD [OF fs_settled(2) [OF S]]
      simp: gp_camera_folder_list_files_def
  gp_camera_folder_list_folders_def gp_camera_folder_delete_all_def gp_camera_file_delete_def gp_camera_folder_make_dir_def
  gp_camera_folder_remove_dir_def gp_camera_get_storageinfo_def gp_camera_file_set_info_def gp_camera_folder_put_file_def fs_op_def)

section \<open>The life of a camera\<close>

text \<open>
  What a front-end may do, in any order: an object is made, used, configured, referred to and released. The filesystem object and the environment may change by
  themselves between calls. The counter of references does not wrap. The runs are those in which the port behaves: when a call has to open the connection that succeeds
  (the operation itself may still fail), and so do the calls that initialise the camera or read and change the settings of the port. A failure in one of these can end a use that was
  never begun (\<open>failed_init_blocks\<close>). Setting the speed of a port that is not serial is refused before the port is asked.
\<close>

inductive camera_reach :: "('w, 'd) setting \<Rightarrow> ('w, 'd) camera \<Rightarrow> bool" for S where
  new: "gp_camera_new S m w keep setting = Inr c \<Longrightarrow> camera_reach S c"
| call: "camera_reach S c \<Longrightarrow> opens S c \<Longrightarrow> camera_call S c r c' \<Longrightarrow> camera_reach S c'"
| init: "camera_reach S c \<Longrightarrow> gp_camera_init S c = Some (r, c') \<Longrightarrow> 0 \<le> r \<Longrightarrow> camera_reach S c'"
| exit: "camera_reach S c \<Longrightarrow> gp_camera_exit S c = Some (r, c') \<Longrightarrow> camera_reach S c'"
| ref: "camera_reach S c \<Longrightarrow> c_ref_count c + 1 \<noteq> 0 \<Longrightarrow> gp_camera_ref c = Some (r, c') \<Longrightarrow> camera_reach S c'"
| unref: "camera_reach S c \<Longrightarrow> gp_camera_unref S c = Some (r, c') \<Longrightarrow> camera_reach S c'"
| free: "camera_reach S c \<Longrightarrow> gp_camera_free S c = Some (r, c') \<Longrightarrow> camera_reach S c'"
| set_abilities: "camera_reach S c \<Longrightarrow> gp_camera_set_abilities S a c = Some (r, c') \<Longrightarrow> camera_reach S c'"
| get_port_info: "camera_reach S c \<Longrightarrow> gp_camera_get_port_info S c = Some (r, i, c') \<Longrightarrow> 0 \<le> r \<Longrightarrow> camera_reach S c'"
| set_port_info: "camera_reach S c \<Longrightarrow> gp_camera_set_port_info S i c = Some (r, c') \<Longrightarrow> 0 \<le> r \<Longrightarrow> camera_reach S c'"
| set_port_speed: "camera_reach S c \<Longrightarrow> gp_camera_set_port_speed S v c = Some (r, c') \<Longrightarrow> 0 \<le> r \<or> r = GP_ERROR_BAD_PARAMETERS \<and> c' = c \<Longrightarrow> camera_reach S c'"
| timeout_funcs: "camera_reach S c \<Longrightarrow> camera_reach S (gp_camera_set_timeout_funcs start stop c)"
| start_timeout: "camera_reach S c \<Longrightarrow> gp_camera_start_timeout t c = (r, c') \<Longrightarrow> camera_reach S c'"
| stop_timeout: "camera_reach S c \<Longrightarrow> camera_reach S (gp_camera_stop_timeout n c)"
| outside: "camera_reach S c \<Longrightarrow> camera_reach S (c\<lparr> c_fs := f \<rparr>)"

lemma settled_same: "same_use c c' \<Longrightarrow> settled c \<Longrightarrow> settled c'"
  by (simp add: same_use_def settled_def)

lemma exit_settled: "polite S \<Longrightarrow> gp_camera_exit S c = Some (r, c') \<Longrightarrow> settled c \<Longrightarrow> settled c' \<and> (c_alive c' \<longrightarrow> \<not> c_lh c')"
  by (drule exit_life) (auto simp: settled_def same_life_def)

lemma disconnect_settled: "polite S \<Longrightarrow> disconnect S c = Some c' \<Longrightarrow> settled c \<Longrightarrow> settled c'"
  using exit_settled [of S c] by (auto simp: disconnect_def split: if_splits)

lemma init_settled: "polite S \<Longrightarrow> gp_camera_init S c = Some (r, c') \<Longrightarrow> 0 \<le> r \<Longrightarrow> settled c \<Longrightarrow> settled c'"
  by (drule (2) init_life) (auto simp: settled_def same_life_def)

lemma new_settled: "gp_camera_new S m w keep setting = Inr c \<Longrightarrow> settled c"
  by (auto simp: gp_camera_new_def new_camera_def settled_def split: prod.splits sum.splits if_splits)

lemma ref_settled: "c_ref_count c + 1 \<noteq> 0 \<Longrightarrow> gp_camera_ref c = Some (r, c') \<Longrightarrow> settled c \<Longrightarrow> settled c'"
  by (auto simp: gp_camera_ref_def settled_def split: if_splits)

lemma unref_settled: "gp_camera_unref S c = Some (r, c') \<Longrightarrow> settled c \<Longrightarrow> settled c'"
  by (auto simp: gp_camera_unref_def settled_def Let_def bind_eq_Some_conv dest: free_dead split: if_splits)

lemma set_abilities_settled: "polite S \<Longrightarrow> gp_camera_set_abilities S a c = Some (r, c') \<Longrightarrow> settled c \<Longrightarrow> settled c'"
  using disconnect_settled [of S c] by (auto simp: gp_camera_set_abilities_def bind_eq_Some_conv settled_def split: if_splits)

lemma on_env_settled: "on_env f c = (x, c') \<Longrightarrow> settled c \<Longrightarrow> settled c'"
  by (drule on_env_fields) (simp add: settled_def)

lemma get_port_info_settled: "gp_camera_get_port_info S c = Some (r, i, c') \<Longrightarrow> 0 \<le> r \<Longrightarrow> settled c \<Longrightarrow> settled c'"
  by (auto simp: gp_camera_get_port_info_def bind_eq_Some_conv or_unused_def split: prod.splits if_splits)

lemma set_port_info_settled:
  assumes "polite S" and "gp_camera_set_port_info S i c = Some (r, c')" and "0 \<le> r" and "settled c"
  shows "settled c'"
proof -
  from assms(2) obtain d where d: "disconnect S c = Some d" and e: "(case on_env (port_set_info (host S) i) d of (r, c) \<Rightarrow> or_unused S r c) = Some (r, c')"
    by (auto simp: gp_camera_set_port_info_def bind_eq_Some_conv split: if_splits)
  obtain x f where f: "on_env (port_set_info (host S) i) d = (x, f)" by fastforce
  with e assms(3) have "c' = f" by (auto simp: or_unused_def bind_eq_Some_conv split: if_splits)
  with disconnect_settled [OF assms(1) d assms(4)] on_env_settled [OF f] show ?thesis by simp
qed

lemma set_port_speed_settled:
  assumes "polite S" and e: "gp_camera_set_port_speed S v c = Some (r, c')" and r: "0 \<le> r \<or> r = GP_ERROR_BAD_PARAMETERS \<and> c' = c" and "settled c"
  shows "settled c'"
proof (cases "0 \<le> r \<and> port_type (host S) (env (c_fs c)) = GP_PORT_SERIAL")
  case False
  with e r assms(4) show ?thesis by (auto simp: gp_camera_set_port_speed_def GP_ERROR_BAD_PARAMETERS_def split: if_splits)
next
  case True
  from e True obtain d where d: "disconnect S c = Some d" and rest: "(case port_get_settings (host S) (env (c_fs d)) of (r, settings) \<Rightarrow> do {
         (r, c) \<leftarrow> or_unused S r d;
         if r < 0 then Some (r, c)
         else case on_env (port_set_settings (host S) (settings\<lparr> ser_speed := v \<rparr>)) c of (r, c) \<Rightarrow> do {
           (r, c) \<leftarrow> or_unused S r c;
           if r < 0 then Some (r, c) else Some (GP_OK, c\<lparr> c_speed := word_of_int v \<rparr>) } }) = Some (r, c')"
    by (auto simp: gp_camera_set_port_speed_def bind_eq_Some_conv split: if_splits)
  note s = disconnect_settled [OF assms(1) d assms(4)]
  obtain x st where g: "port_get_settings (host S) (env (c_fs d)) = (x, st)" by fastforce
  obtain y f where f: "on_env (port_set_settings (host S) (st\<lparr> ser_speed := v \<rparr>)) d = (y, f)" by fastforce
  have "c' = f\<lparr> c_speed := word_of_int v \<rparr>" using rest g f True by (auto simp: or_unused_def bind_eq_Some_conv split: if_splits)
  with on_env_settled [OF f s] show ?thesis by (simp add: settled_def)
qed

lemma start_timeout_settled: "gp_camera_start_timeout t c = (r, c') \<Longrightarrow> settled c \<Longrightarrow> settled c'"
  by (auto simp: gp_camera_start_timeout_def on_env_def settled_def split: option.splits prod.splits sum.splits if_splits)

text \<open>C17: In every run of a front-end in which the port behaves (opening the connection, initialising the camera and the calls that read or change the settings of the port succeed; the operations
  themselves may fail), with a driver that leaves the counters alone, the camera object is between two calls either freed, or has at least one reference and no use, and no library stays loaded when closing has been
  requested: so no operation is refused as busy, and the object is freed when the last reference is given up.\<close>
theorem camera_settled:
  assumes "polite S" and "camera_reach S c" and "c_alive c"
  shows "c_used c = 0 \<and> c_ref_count c \<noteq> 0 \<and> (c_exit_requested c \<longrightarrow> \<not> c_lh c)"
proof -
  from assms(2) have "settled c"
  proof induction
    case (call c r c')
    then show ?case using call_settled [OF assms(1)] by blast
  next
    case (timeout_funcs c start stop)
    then show ?case by (simp add: gp_camera_set_timeout_funcs_def settled_def)
  next
    case (outside c f)
    then show ?case by (simp add: settled_def)
  next
    case (free c r c')
    then show ?case using free_dead by (auto simp: settled_def)
  next
    case (stop_timeout c n)
    then show ?case using settled_same [OF stop_timeout_same] by blast
  qed (use assms(1) in \<open>auto intro: new_settled init_settled ref_settled unref_settled set_abilities_settled get_port_info_settled set_port_info_settled
      set_port_speed_settled start_timeout_settled dest: exit_settled\<close>)
  with assms(3) show ?thesis by (simp add: settled_def)
qed

lemma demo_polite: "polite (demo_setting t r)"
  by (auto simp: polite_def polite_table_def demo_defs keeps_use_def keeps_refs_def)

lemma demo_new: "gp_camera_new (demo_setting t r) [] () 1 None = Inr (new_camera (blank_fs [] () 1 None))"
  by (simp add: gp_camera_new_def gp_filesystem_new_def blank_fs_def CR_def malloc_def run_simps demo_setting_def demo_host_def)

lemma demo_reach: "camera_reach (demo_setting t r) demo_camera"
proof -
  have "gp_camera_set_abilities (demo_setting t r) demo_model (new_camera (blank_fs [] () 1 None)) = Some (GP_OK, demo_camera)"
    by (simp add: gp_camera_set_abilities_def disconnect_def demo_camera_def) (simp add: new_camera_def)
  from camera_reach.set_abilities [OF camera_reach.new [OF demo_new] this] show ?thesis .
qed

lemma demo_summary: "\<exists>c. gp_camera_get_summary (demo_setting GP_PORT_USB 0) [] demo_camera = Some (GP_OK, ''ready'', c) \<and> c_alive c \<and> c_lh c"
  by (simp add: gp_camera_get_summary_def driver_op_def check_init_def gp_camera_init_def check_port_def find_usb_def load_driver_def is_browse_def same_nocase_def
      or_unused_def call_hook_def open_close_def finish_def camera_unused_def on_env_def run_env_def funcs_of_def Let_def GP_OK_def demo_defs)

lemma demo_opens: "opens (demo_setting GP_PORT_USB 0) demo_camera"
  by (simp add: opens_def check_init_def gp_camera_init_def check_port_def find_usb_def load_driver_def is_browse_def same_nocase_def
      or_unused_def camera_unused_def on_env_def run_env_def funcs_of_def Let_def GP_OK_def demo_defs)

theorem camera_settled_witness:
  "\<exists>c. camera_reach (demo_setting GP_PORT_USB 0) c \<and> c_alive c \<and> c_lh c \<and> c_used c = 0 \<and> c_ref_count c \<noteq> 0 \<and> \<not> c_exit_requested c"
proof -
  from demo_summary obtain c where c: "gp_camera_get_summary (demo_setting GP_PORT_USB 0) [] demo_camera = Some (GP_OK, ''ready'', c)" "c_alive c" "c_lh c" by blast
  from camera_reach.call [OF demo_reach demo_opens camera_call.get_summary [OF c(1)]] have r: "camera_reach (demo_setting GP_PORT_USB 0) c" .
  from camera_settled [OF demo_polite r c(2)] r c show ?thesis by blast
qed

section \<open>Uses that are not ended, or ended twice\<close>

lemma check_init_error:
  assumes "check_init S c = Some (e, d)" and "e < 0"
  shows "operation S x before op after c = Some (e, x, d)" "driver_op S x func c = Some (e, x, d)"
    "gp_camera_capture_preview S a c = Some (e, (), d)" "gp_camera_file_get_info fuel S ctx f n a i c = Some (e, i, d)"
  using assms by (simp_all add: operation_def driver_op_def gp_camera_capture_preview_def gp_camera_file_get_info_def)

lemma call_init_error: "camera_call S c r c' \<Longrightarrow> check_init S c = Some (e, d) \<Longrightarrow> e < 0 \<Longrightarrow> r = e \<and> c' = d"
  by (induction rule: camera_call.induct) (auto simp: shape_defs check_init_error)

lemma unused_idle: "c_alive c \<Longrightarrow> c_used c = 0 \<Longrightarrow> camera_unused S c = Some (c\<lparr> c_used := 255 \<rparr>)"
  by (simp add: camera_unused_def)

lemma unused_last: "c_alive c \<Longrightarrow> c_used c = 1 \<Longrightarrow> \<not> c_exit_requested c \<Longrightarrow> c_ref_count c \<noteq> 0 \<Longrightarrow> camera_unused S c = Some (c\<lparr> c_used := 0 \<rparr>)"
  by (simp add: camera_unused_def)

definition blocked :: "('w, 'd) setting \<Rightarrow> ('w, 'd) camera \<Rightarrow> bool" where
  "blocked S c \<longleftrightarrow> (\<forall>r c'. camera_call S c r c' \<longrightarrow> r = GP_ERROR_CAMERA_BUSY \<and> c' = c) \<and> (\<forall>r c'. gp_camera_exit S c = Some (r, c') \<longrightarrow> c_used c' = c_used c \<and> c_lh c' = c_lh c) \<and>
     (\<forall>r c'. gp_camera_unref S c = Some (r, c') \<longrightarrow> c_alive c' \<and> c_used c' = c_used c)"

lemma used_blocks:
  assumes "c_alive c" and "c_used c \<noteq> 0"
  shows "blocked S c"
  unfolding blocked_def
proof (intro conjI allI impI)
  fix r c'
  show "r = GP_ERROR_CAMERA_BUSY" "c' = c" if "camera_call S c r c'" using busy_call [OF that assms(2)] by simp_all
  show "c_used c' = c_used c" "c_lh c' = c_lh c" if "gp_camera_exit S c = Some (r, c')" using that assms by (auto simp: gp_camera_exit_def)
  show "c_alive c'" "c_used c' = c_used c" if "gp_camera_unref S c = Some (r, c')" using that assms by (auto simp: gp_camera_unref_def Let_def split: if_splits)
qed

text \<open>What an idle camera on USB meets whose device is not there.\<close>

definition usb_missing :: "('w, 'd) setting \<Rightarrow> ('w, 'd) camera \<Rightarrow> int \<Rightarrow> bool" where
  "usb_missing S c e \<longleftrightarrow> ab_model (c_abilities c) \<noteq> [] \<and> \<not> is_browse c \<and> port_type (host S) (env (c_fs c)) = GP_PORT_USB \<and>
     (let a = c_abilities c; (r, w) = port_find_device (host S) (ab_usb_vendor a) (ab_usb_product a) (env (c_fs c)) in
        r \<noteq> GP_OK \<and> fst (port_find_device_by_class (host S) (ab_usb_class a) (ab_usb_subclass a) (ab_usb_protocol a) w) = e)"

lemma missing_check:
  assumes c: "c_alive c" "c_used c = 0" "\<not> c_lh c" "c_ref_count c \<noteq> 0" and u: "usb_missing S c e" and e: "e < 0"
  shows "\<exists>d. check_init S c = Some (e, d) \<and> c_alive d \<and> c_used d = 255"
proof -
  let ?a = "c_abilities c"
  let ?c = "c\<lparr> c_used := 1, c_exit_requested := False \<rparr>"
  obtain x d where d: "on_env (port_find_device (host S) (ab_usb_vendor ?a) (ab_usb_product ?a)) ?c = (x, d)" by fastforce
  obtain y f where f: "on_env (port_find_device_by_class (host S) (ab_usb_class ?a) (ab_usb_subclass ?a) (ab_usb_protocol ?a)) d = (y, f)" by fastforce
  have xy: "x \<noteq> GP_OK" "y = e" using d f u by (auto simp: usb_missing_def on_env_def Let_def split: prod.splits)
  have l: "c_alive f" "c_used f = 1" "\<not> c_exit_requested f" "c_ref_count f \<noteq> 0" using on_env_fields [OF d] on_env_fields [OF f] c by simp_all
  have "find_usb S ?c = or_unused S e f" using d f xy by (simp add: find_usb_def Let_def)
  then have "find_usb S ?c = Some (e, f\<lparr> c_used := 0 \<rparr>)" using unused_last [OF l, of S] e by (simp add: or_unused_def)
  moreover have "check_port S ?c = find_usb S ?c" using u by (simp add: check_port_def usb_missing_def is_browse_def)
  ultimately have "gp_camera_init S (c\<lparr> c_used := 1 \<rparr>) = Some (e, f\<lparr> c_used := 0 \<rparr>)"
    using c u e by (simp add: gp_camera_init_def usb_missing_def Let_def GP_OK_def)
  then have "check_init S c = Some (e, f\<lparr> c_used := 255 \<rparr>)"
    using c e l unused_idle [of "f\<lparr> c_used := 0 \<rparr>" S] by (simp add: check_init_def or_unused_def)
  then show ?thesis using l by (intro exI [of _ "f\<lparr> c_used := 255 \<rparr>"]) simp
qed

text \<open>C18: An operation on a camera whose USB device is not found returns the error of the search, but ends the use twice: the counter of uses is then 255, every later
  operation is refused as busy, the camera is not closed on request and giving up its references does not free it.
\<close>
theorem failed_init_blocks:
  assumes "c_alive c" and "c_used c = 0" and "\<not> c_lh c" and "c_ref_count c \<noteq> 0" and "usb_missing S c e" and "e < 0" and "camera_call S c r c'"
  shows "r = e \<and> c_used c' = 255 \<and> blocked S c'"
proof -
  from missing_check [OF assms(1-6)] obtain d where d: "check_init S c = Some (e, d)" "c_alive d" "c_used d = 255" by blast
  from call_init_error [OF assms(7) d(1) assms(6)] d used_blocks [of d S] show ?thesis by simp
qed

theorem failed_init_blocks_witness:
  "\<exists>c. camera_call (demo_setting GP_PORT_USB (-52)) demo_camera (-52) c \<and> c_used c = 255 \<and> blocked (demo_setting GP_PORT_USB (-52)) c"
proof -
  let ?S = "demo_setting GP_PORT_USB (-52)"
  have c: "c_alive demo_camera" "c_used demo_camera = 0" "\<not> c_lh demo_camera" "c_ref_count demo_camera \<noteq> 0" by (simp_all add: demo_defs)
  have u: "usb_missing ?S demo_camera (-52)" by (simp add: usb_missing_def demo_defs is_browse_def same_nocase_def GP_OK_def)
  have e: "(-52::int) < 0" by simp
  from missing_check [OF c u e] obtain d where d: "check_init ?S demo_camera = Some (-52, d)" by blast
  have "gp_camera_get_summary ?S [] demo_camera = Some (-52, [], d)" unfolding gp_camera_get_summary_def by (rule check_init_error [OF d e])
  note call = camera_call.get_summary [OF this]
  from failed_init_blocks [OF c u e call] call show ?thesis by blast
qed

text \<open>The same happens when an idle camera that is not connected is given a port that the port library refuses: the call that fails leaves the camera in use for ever.\<close>
lemma failed_port_info_blocks:
  assumes "c_alive c" and "c_used c = 0" and "\<not> c_lh c" and "fst (port_set_info (host S) i (env (c_fs c))) = e" and "e < 0"
  shows "\<exists>c'. gp_camera_set_port_info S i c = Some (e, c') \<and> c_used c' = 255 \<and> blocked S c'"
proof -
  obtain x d where d: "on_env (port_set_info (host S) i) c = (x, d)" by fastforce
  have l: "c_alive d" "c_used d = 0" using on_env_fields [OF d] assms by simp_all
  have "x = e" using on_env_fst [OF d] assms(4) by simp
  then have "gp_camera_set_port_info S i c = Some (e, d\<lparr> c_used := 255 \<rparr>)"
    using assms d unused_idle [OF l, of S] by (simp add: gp_camera_set_port_info_def disconnect_def or_unused_def)
  then show ?thesis using used_blocks [of "d\<lparr> c_used := 255 \<rparr>" S] l by simp
qed

section \<open>Information from the preview\<close>

lemma gp_file_new_code: "in_fs (blank_file GP_FILE_ACCESSTYPE_MEMORY) gp_file_new c = Some (r, f, c') \<Longrightarrow> r = GP_OK \<or> r = GP_ERROR_NO_MEMORY"
  by (auto simp: in_fs_def gp_file_new_def malloc_def CR_def ok_def split: prod.splits sum.splits if_splits list.splits)

text \<open>C19: When the driver gives no information about files, \<open>gp_camera_file_get_info\<close> is to take size and type from the preview; but the camera is in use while it asks for
  the preview, so that is refused as busy: whatever is there, the call succeeds (or has no memory) with a result that tells nothing.
\<close>
theorem info_without_preview:
  assumes "c_alive c" and "c_used c = 0" and "c_lh c" and "pre_func (funcs_of S c) = None" and "post_func (funcs_of S c) = None"
    and "gp_filesystem_get_info (opsys S) ctx folder name (c_fs c) = (Inl GP_ERROR_NOT_SUPPORTED, f)"
    and "gp_camera_file_get_info fuel S ctx folder name cfile old c = Some (r, i, c')"
  shows "i = zero_info \<and> (r = GP_OK \<or> r = GP_ERROR_NO_MEMORY)"
proof -
  let ?c = "c\<lparr> c_used := 1 \<rparr>" and ?d = "c\<lparr> c_used := 1, c_fs := f \<rparr>"
  have n: "GP_ERROR_NOT_SUPPORTED \<noteq> UNDEFINED" "\<not> GP_OK < 0" by (simp_all add: GP_ERROR_NOT_SUPPORTED_def UNDEFINED_def GP_OK_def)
  have "check_init S c = Some (GP_OK, ?c)" using assms(1-3) by (simp add: check_init_def)
  moreover have "funcs_of S ?c = funcs_of S c" "funcs_of S ?d = funcs_of S c" by (simp_all add: funcs_of_def)
  then have "call_hook S pre_func ?c = Some (GP_OK, ?c)" "call_hook S post_func ?d = Some (GP_OK, ?d)" using assms(1,4,5) by (simp_all add: call_hook_def)
  moreover have "in_fs zero_info (gp_filesystem_get_info (opsys S) ctx folder name) ?c = Some (GP_ERROR_NOT_SUPPORTED, zero_info, ?d)"
    using assms(6) n by (simp add: in_fs_def)
  ultimately have e: "do { (r, f, c) \<leftarrow> in_fs (blank_file GP_FILE_ACCESSTYPE_MEMORY) gp_file_new ?d; (r, c) \<leftarrow> or_unused S r c;
      if r < 0 then Some (r, zero_info, c)
      else if objects (c_fs c) cfile \<noteq> None then None
      else do {
        (_, _, c) \<leftarrow> in_fs () (put_object cfile (Some f)) c;
        (r, _, c) \<leftarrow> gp_camera_file_get fuel S ctx folder name GP_FILE_TYPE_PREVIEW cfile c;
        (_, i, c) \<leftarrow> (if r = GP_OK then in_fs zero_info (preview_info (opsys S) cfile zero_info) c else Some (GP_OK, zero_info, c));
        (_, _, c) \<leftarrow> in_fs () (unref_object (opsys S) cfile) c;
        finish S i c } } = Some (r, i, c')"
    using assms(7) n by (simp add: gp_camera_file_get_info_def)
  obtain q g d where g: "in_fs (blank_file GP_FILE_ACCESSTYPE_MEMORY) gp_file_new ?d = Some (q, g, d)" using e by (auto simp: bind_eq_Some_conv)
  have u: "under_way d" using in_fs_same [OF g] assms(1) by (simp add: same_use_def under_way_def)
  show ?thesis
  proof (cases "q < 0")
    case True
    with e g gp_file_new_code [OF g] show ?thesis by (auto simp: or_unused_def bind_eq_Some_conv n)
  next
    case False
    have "\<And>h. in_fs () (put_object cfile (Some g)) d = Some h \<Longrightarrow> under_way (snd (snd h))"
      using in_fs_same u by (fastforce simp: same_use_def under_way_def)
    with e g False show ?thesis
      by (auto simp: or_unused_ok n bind_eq_Some_conv file_get_busy finish_def GP_ERROR_CAMERA_BUSY_def GP_OK_def split: if_splits)
  qed
qed

lemma demo_no_info: "gp_filesystem_get_info (opsys (demo_setting t r)) None ''/'' ''a'' (c_fs demo_camera) = (Inl GP_ERROR_NOT_SUPPORTED, c_fs demo_camera)"
  by (simp add: gp_filesystem_get_info_def CC_def CA_def CR_def run_simps demo_defs blank_fs_def no_funcs_def)

lemma demo_unref: "unref_object null_os 5 ((blank_fs [] () 1 None)\<lparr> objects := (\<lambda>_. None)(5 := Some (blank_file GP_FILE_ACCESSTYPE_MEMORY)) \<rparr>) = (Inr (), blank_fs [] () 1 None)"
  by (simp add: unref_object_def CR_def run_simps gp_file_unref_def gp_file_free_def gp_file_clean_def blank_fs_def deref_object_def put_object_def blank_file_def Let_def)

lemma demo_info:
  "\<exists>i c. gp_camera_file_get_info 0 (demo_setting GP_PORT_USB 0) None ''/'' ''a'' 5 zero_info (demo_camera\<lparr> c_lh := True \<rparr>) = Some (GP_OK, i, c)"
proof -
  let ?S = "demo_setting GP_PORT_USB 0" and ?c = "demo_camera\<lparr> c_lh := True, c_used := 1 \<rparr>" and ?f = "blank_file GP_FILE_ACCESSTYPE_MEMORY"
  let ?d = "?c\<lparr> c_fs := (blank_fs [] () 1 None)\<lparr> objects := (\<lambda>_. None)(5 := Some ?f) \<rparr> \<rparr>"
  have o: "opsys ?S = null_os" "c_fs ?c = blank_fs [] () 1 None" "objects (blank_fs [] () 1 None) = (\<lambda>_. None)" by (simp_all add: demo_defs blank_fs_def)
  have 1: "check_init ?S (demo_camera\<lparr> c_lh := True \<rparr>) = Some (GP_OK, ?c)" by (simp add: check_init_def demo_defs)
  have 2: "call_hook ?S pre_func ?c = Some (GP_OK, ?c)" "call_hook ?S post_func ?c = Some (GP_OK, ?c)" by (simp_all add: call_hook_def funcs_of_def demo_defs)
  have 3: "in_fs zero_info (gp_filesystem_get_info null_os None ''/'' ''a'') ?c = Some (GP_ERROR_NOT_SUPPORTED, zero_info, ?c)"
    using demo_no_info [of GP_PORT_USB 0] by (simp add: in_fs_def o(1) GP_ERROR_NOT_SUPPORTED_def UNDEFINED_def)
  have 4: "in_fs ?f gp_file_new ?c = Some (GP_OK, ?f, ?c)"
    by (simp add: in_fs_def gp_file_new_def CR_def malloc_def run_simps demo_defs blank_fs_def)
  have 5: "in_fs () (put_object 5 (Some ?f)) ?c = Some (GP_OK, (), ?d)"
    by (simp add: in_fs_def put_object_def run_simps demo_defs blank_fs_def)
  have 6: "gp_camera_file_get 0 ?S None ''/'' ''a'' GP_FILE_TYPE_PREVIEW 5 ?d = Some (GP_ERROR_CAMERA_BUSY, (), ?d)"
    by (rule file_get_busy) (simp add: under_way_def demo_defs)
  have 7: "in_fs () (unref_object null_os 5) ?d = Some (GP_OK, (), ?c)"
    by (simp add: in_fs_def o(2) demo_unref)
  have 8: "\<exists>c. finish ?S zero_info ?c = Some (GP_OK, zero_info, c)"
    by (simp add: finish_def camera_unused_def demo_defs)
  have n: "\<not> GP_OK < 0" "GP_ERROR_CAMERA_BUSY \<noteq> GP_OK" by (simp_all add: GP_OK_def GP_ERROR_CAMERA_BUSY_def)
  show ?thesis using 8 by (simp add: gp_camera_file_get_info_def 1 2 3 4 5 6 7 n o or_unused_def del: fun_upd_apply) blast
qed

theorem info_without_preview_witness:
  "\<exists>c. gp_camera_file_get_info 0 (demo_setting GP_PORT_USB 0) None ''/'' ''a'' 5 zero_info (demo_camera\<lparr> c_lh := True \<rparr>) = Some (GP_OK, zero_info, c)"
proof -
  let ?c = "demo_camera\<lparr> c_lh := True \<rparr>" and ?S = "demo_setting GP_PORT_USB 0"
  from demo_info obtain i c where e: "gp_camera_file_get_info 0 ?S None ''/'' ''a'' 5 zero_info ?c = Some (GP_OK, i, c)" by blast
  have "i = zero_info \<and> (GP_OK = GP_OK \<or> GP_OK = GP_ERROR_NO_MEMORY)"
  proof (rule info_without_preview [OF _ _ _ _ _ _ e])
    show "gp_filesystem_get_info (opsys ?S) None ''/'' ''a'' (c_fs ?c) = (Inl GP_ERROR_NOT_SUPPORTED, c_fs ?c)"
      using demo_no_info [of GP_PORT_USB 0] by simp
  qed (simp_all add: funcs_of_def demo_defs)
  with e show ?thesis by simp
qed

section \<open>Closing with pending timeouts\<close>

lemma stop_timeouts_stuck: "stop_timeouts c = Some d \<Longrightarrow> c_timeout_ids c = [] \<or> c_timeout_stop c \<noteq> None"
proof (erule stop_timeouts.raw_induct [rotated])
  fix F and c d :: "('w, 'd) camera"
  assume IH: "\<And>c d. F c = Some d \<Longrightarrow> c_timeout_ids c = [] \<or> c_timeout_stop c \<noteq> None"
    and e: "(case c_timeout_ids c of [] \<Rightarrow> Some c | i # x \<Rightarrow> F (gp_camera_stop_timeout i c)) = Some d"
  show "c_timeout_ids c = [] \<or> c_timeout_stop c \<noteq> None"
  proof (cases "c_timeout_ids c")
    case (Cons i js)
    with e have "F (gp_camera_stop_timeout i c) = Some d" by simp
    from IH [OF this] Cons show ?thesis by (auto simp: gp_camera_stop_timeout_def split: option.splits)
  qed simp
qed

text \<open>The camera after the stop function has run for each of the given timeouts.\<close>

definition stopped :: "(32 word \<Rightarrow> 'w \<Rightarrow> 'w) \<Rightarrow> 32 word list \<Rightarrow> ('w, 'd) camera \<Rightarrow> ('w, 'd) camera" where
  "stopped stop js c = c\<lparr> c_timeout_ids := drop (length js) (c_timeout_ids c), c_fs := (c_fs c)\<lparr> env := fold stop js (env (c_fs c)) \<rparr> \<rparr>"

lemma stop_timeouts_all: "c_timeout_stop c = Some stop \<Longrightarrow> stop_timeouts c = Some (stopped stop (c_timeout_ids c) c)"
proof (induction "c_timeout_ids c" arbitrary: c)
  case Nil
  then show ?case by (subst stop_timeouts.simps) (simp add: stopped_def)
next
  case (Cons i js)
  let ?c = "gp_camera_stop_timeout i c"
  have e: "?c = c\<lparr> c_timeout_ids := js, c_fs := (c_fs c)\<lparr> env := stop i (env (c_fs c)) \<rparr> \<rparr>"
    using Cons.hyps(2) [symmetric] Cons.prems by (simp add: gp_camera_stop_timeout_def run_env_def)
  then have "stop_timeouts ?c = Some (stopped stop js ?c)" using Cons.hyps(1) [of ?c] Cons.prems by simp
  then show ?case using Cons.hyps(2) [symmetric] e by (subst stop_timeouts.simps) (simp add: stopped_def)
qed

text \<open>C20: Closing an idle camera first stops every pending timeout: it runs the front-end's stop function for each of them, once and in the order in which they were started, and then
  closes as if there were none. Without a stop function (it may be unset, or never have been set) a timeout that is pending is never taken from the list, and \<open>gp_camera_exit\<close> does not return.
\<close>
theorem exit_stops_timeouts:
  assumes "c_alive c" and "c_used c = 0"
  shows "case c_timeout_stop c of
      None \<Rightarrow> c_timeout_ids c \<noteq> [] \<longrightarrow> gp_camera_exit S c = None
    | Some stop \<Rightarrow> gp_camera_exit S c = gp_camera_exit S (c\<lparr> c_timeout_ids := [], c_fs := (c_fs c)\<lparr> env := fold stop (c_timeout_ids c) (env (c_fs c)) \<rparr> \<rparr>)"
proof (cases "c_timeout_stop c")
  case None
  then have "c_timeout_ids c \<noteq> [] \<Longrightarrow> stop_timeouts c = None" using stop_timeouts_stuck [of c] by (cases "stop_timeouts c") auto
  then show ?thesis using None assms by (simp add: gp_camera_exit_def)
next
  case (Some stop)
  let ?d = "stopped stop (c_timeout_ids c) c"
  have d: "?d = c\<lparr> c_timeout_ids := [], c_fs := (c_fs c)\<lparr> env := fold stop (c_timeout_ids c) (env (c_fs c)) \<rparr> \<rparr>" by (simp add: stopped_def)
  have "stop_timeouts ?d = Some ?d" using d by (subst stop_timeouts.simps) simp
  with stop_timeouts_all [OF Some] have "gp_camera_exit S c = gp_camera_exit S ?d" using assms d by (simp add: gp_camera_exit_def)
  then show ?thesis using Some d by simp
qed

text \<open>An environment that keeps the timeouts that have been stopped.\<close>

definition stop_host :: "32 word list host_libs" where
  "stop_host = \<lparr> port_type = \<lambda>_. GP_PORT_USB, port_open = \<lambda>w. (0, w), port_close = id, port_free = id, port_new = \<lambda>w. (0, w),
     port_find_device = \<lambda>_ _ w. (0, w), port_find_device_by_class = \<lambda>_ _ _ w. (0, w),
     port_get_info = \<lambda>_. (0, \<lparr> gi_type = GP_PORT_USB, gi_name = None, gi_path = None, gi_library = None \<rparr>), port_set_info = \<lambda>_ w. (0, w),
     port_get_settings = \<lambda>_. (0, \<lparr> ser_port = [], ser_speed = 0, ser_bits = 8, ser_parity = 0, ser_stopbits = 1 \<rparr>), port_set_settings = \<lambda>_ w. (0, w),
     lib_open = \<lambda>_ w. (True, w), lib_close = id, find_cameras = \<lambda>w. ([], w), abilities_of = \<lambda>_. None, info_of = \<lambda>_. None \<rparr>"

definition stop_setting :: "(32 word list, unit) setting" where
  "stop_setting = \<lparr> host = stop_host, driver = \<lparr> function_table = \<lambda>_. no_functions, camera_init = \<lambda>_. None \<rparr>, opsys = null_os, sorter = \<lambda>_ xs. xs \<rparr>"

definition pending_camera :: "(32 word list, unit) camera" where
  "pending_camera = (new_camera (blank_fs [] [] 1 None))\<lparr> c_timeout_ids := [7, 9], c_timeout_stop := Some (\<lambda>i w. w @ [i]) \<rparr>"

theorem exit_stops_timeouts_witness:
  "\<exists>c. gp_camera_exit stop_setting pending_camera = Some (GP_OK, c) \<and> c_timeout_ids c = [] \<and> env (c_fs c) = [7, 9]"
proof -
  have a: "c_alive pending_camera" "c_used pending_camera = 0" "c_timeout_stop pending_camera = Some (\<lambda>i w. w @ [i])"
    "c_timeout_ids pending_camera = [7, 9]" "env (c_fs pending_camera) = []" by (simp_all add: pending_camera_def new_camera_def blank_fs_def)
  have "gp_camera_exit stop_setting pending_camera = gp_camera_exit stop_setting (pending_camera\<lparr> c_timeout_ids := [], c_fs := (c_fs pending_camera)\<lparr> env := [7, 9] \<rparr> \<rparr>)"
    using exit_stops_timeouts [OF a(1,2), of stop_setting] a by simp
  also have "\<exists>c. gp_camera_exit stop_setting (pending_camera\<lparr> c_timeout_ids := [], c_fs := (c_fs pending_camera)\<lparr> env := [7, 9] \<rparr> \<rparr>) = Some (GP_OK, c) \<and> c_timeout_ids c = [] \<and> env (c_fs c) = [7, 9]"
    by (simp add: gp_camera_exit_def stop_timeouts.simps pending_camera_def new_camera_def blank_fs_def stop_setting_def stop_host_def funcs_of_def no_functions_def
        run_env_def in_fs_def gp_filesystem_reset_def gp_filesystem_lru_clear_def delete_all_folders_def delete_all_folders_by_def CC_None CA_def lookup_folder_def
        lookup_loop_root recurse_delete_folder_def deref_folder_def write_folder_def set_folders_def set_files_dirty_def set_folders_dirty_def CR_def run_simps UNDEFINED_def GP_OK_def)
  finally show ?thesis .
qed

end
