(* ===== verification/Ptp_Base.thy ===== *)
theory Ptp_Base
  imports "HOL-Library.Word" "HOL-Library.Monad_Syntax"
begin

text \<open>
  The ground layer of camlibs/ptp2/ptp-pack.c, which translates between the datasets of the Picture Transfer
  Protocol and C structures: byte buffers, and reading and writing numbers in the byte order of the device.

  A function that touches memory yields an \<open>option\<close>: \<open>None\<close> is a read or write outside a buffer or through a
  null pointer, which C leaves undefined. What a function returns to its caller, failure included, is the value under
  \<open>Some\<close>. The host is little endian with 32 bit \<open>int\<close> and 64 bit \<open>size_t\<close>.
\<close>

unbundle bit_operations_syntax

section \<open>Buffers\<close>

type_synonym octet = "8 word"

text \<open>Reading \<open>n\<close> bytes at \<open>i\<close>, and overwriting the bytes at \<open>i\<close>.\<close>

definition peek :: "octet list \<Rightarrow> nat \<Rightarrow> nat \<Rightarrow> octet list option" where
  "peek data i n = (if i + n \<le> length data then Some (take n (drop i data)) else None)"

definition poke :: "octet list \<Rightarrow> nat \<Rightarrow> octet list \<Rightarrow> octet list option" where
  "poke data i bs = (if i + length bs \<le> length data then Some (take i data @ bs @ drop (i + length bs) data) else None)"

named_theorems buffer_simps

lemma peek_append [buffer_simps]: "length pre = i \<Longrightarrow> length bs = n \<Longrightarrow> peek (pre @ bs @ post) i n = Some bs"
  by (simp add: peek_def)

lemma peek_append2 [buffer_simps]: "length pre = i \<Longrightarrow> length bs = n \<Longrightarrow> peek (pre @ bs) i n = Some bs"
  by (simp add: peek_def)

lemma peek_ok: "i + n \<le> length data \<Longrightarrow> \<exists>bs. peek data i n = Some bs \<and> length bs = n"
  by (simp add: peek_def)

lemma peek_Some: "peek data i n = Some bs \<Longrightarrow> i + n \<le> length data \<and> length bs = n"
  by (auto simp: peek_def split: if_splits)

lemma peek_skip: "peek (pre @ data) (length pre + i) n = peek data i n"
  by (simp add: peek_def)

lemma poke_append: "length old = length bs \<Longrightarrow> poke (pre @ old @ post) (length pre) bs = Some (pre @ bs @ post)"
  by (simp add: poke_def)

lemma poke_length: "poke data i bs = Some data' \<Longrightarrow> length data' = length data"
  by (auto simp: poke_def split: if_splits)

section \<open>Numbers\<close>

text \<open>
  The macros of gp-byteorder.m4: \<open>le32atoh\<close>, \<open>htole32a\<close> and their relatives spell these out for each width.
\<close>

fun le_bytes :: "nat \<Rightarrow> 'a::len word \<Rightarrow> octet list" where
  "le_bytes 0 x = []"
| "le_bytes (Suc n) x = ucast x # le_bytes n (drop_bit 8 x)"

fun le_value :: "octet list \<Rightarrow> 'a::len word" where
  "le_value [] = 0"
| "le_value (b # bs) = ucast b OR push_bit 8 (le_value bs)"

lemma le_bytes_length [simp]: "length (le_bytes n x) = n"
  by (induction n arbitrary: x) auto

lemma le_value_bytes: "le_value (le_bytes n x) = take_bit (8 * n) x"
proof (induction n arbitrary: x)
  case (Suc n)
  have "le_value (le_bytes (Suc n) x) = ucast (ucast x :: octet) OR push_bit 8 (take_bit (8 * n) (drop_bit 8 x))"
    by (simp add: Suc)
  also have "\<dots> = take_bit (8 * Suc n) x"
    by (rule bit_word_eqI) (auto simp: bit_simps)
  finally show ?case .
qed simp

lemma le_value_bytes_full: "LENGTH('a::len) = 8 * n \<Longrightarrow> le_value (le_bytes n x) = (x :: 'a word)"
  by (rule bit_word_eqI) (simp add: le_value_bytes bit_simps)

section \<open>The parameters of a connection\<close>

definition PTP_DL_BE :: octet where "PTP_DL_BE = 0xF0"
definition PTP_DL_LE :: octet where "PTP_DL_LE = 0x0F"

text \<open>
  What ptp-pack.c reads of \<open>PTPParams\<close>: the byte order of the device, the flag for object sizes of 64 bits, and
  the two converters between the locale and UCS-2. A converter is \<open>None\<close> when it is not open (or the library
  is built without iconv); otherwise it maps the bytes of the input to what iconv stores, or to \<open>None\<close>
  when iconv reports an error. \<open>can_alloc\<close> tells for which sizes \<open>malloc\<close> succeeds and \<open>uninit\<close> what an array
  holds that has not been initialised.
\<close>

record PTPParams =
  byteorder :: octet
  ocs64 :: bool
  cd_locale_to_ucs2 :: "(octet list \<Rightarrow> 16 word list option) option"
  cd_ucs2_to_locale :: "(octet list \<Rightarrow> octet list option) option"
  can_alloc :: "nat \<Rightarrow> bool"
  uninit :: "nat \<Rightarrow> octet"

text \<open>Encoding a number of \<open>n\<close> bytes in the byte order of the device, and decoding it.\<close>

definition encode :: "PTPParams \<Rightarrow> nat \<Rightarrow> 'a::len word \<Rightarrow> octet list" where
  "encode P n x = (if byteorder P = PTP_DL_LE then le_bytes n x else rev (le_bytes n x))"

definition decode :: "PTPParams \<Rightarrow> octet list \<Rightarrow> 'a::len word" where
  "decode P bs = (if byteorder P = PTP_DL_LE then le_value bs else le_value (rev bs))"

lemma encode_length [simp]: "length (encode P n x) = n"
  by (simp add: encode_def)

lemma decode_encode: "LENGTH('a::len) = 8 * n \<Longrightarrow> decode P (encode P n x) = (x :: 'a word)"
  by (simp add: decode_def encode_def le_value_bytes_full)

definition htod8a :: "octet \<Rightarrow> octet list" where "htod8a x = [x]"
definition htod16ap :: "PTPParams \<Rightarrow> 16 word \<Rightarrow> octet list" where "htod16ap P x = encode P 2 x"
definition htod32ap :: "PTPParams \<Rightarrow> 32 word \<Rightarrow> octet list" where "htod32ap P x = encode P 4 x"
definition htod64ap :: "PTPParams \<Rightarrow> 64 word \<Rightarrow> octet list" where "htod64ap P x = encode P 8 x"

definition dtoh8a :: "octet list \<Rightarrow> nat \<Rightarrow> octet option" where
  "dtoh8a data i = do { bs \<leftarrow> peek data i 1; Some (hd bs) }"
definition dtoh16ap :: "PTPParams \<Rightarrow> octet list \<Rightarrow> nat \<Rightarrow> 16 word option" where
  "dtoh16ap P data i = do { bs \<leftarrow> peek data i 2; Some (decode P bs) }"
definition dtoh32ap :: "PTPParams \<Rightarrow> octet list \<Rightarrow> nat \<Rightarrow> 32 word option" where
  "dtoh32ap P data i = do { bs \<leftarrow> peek data i 4; Some (decode P bs) }"
definition dtoh64ap :: "PTPParams \<Rightarrow> octet list \<Rightarrow> nat \<Rightarrow> 64 word option" where
  "dtoh64ap P data i = do { bs \<leftarrow> peek data i 8; Some (decode P bs) }"

lemma htod_length [simp]:
  "length (htod8a a) = 1" "length (htod16ap P b) = 2" "length (htod32ap P c) = 4" "length (htod64ap P d) = 8"
  by (simp_all add: htod8a_def htod16ap_def htod32ap_def htod64ap_def)

text \<open>What was written is read back.\<close>

lemma dtoh_htod [buffer_simps]:
  assumes "length pre = i"
  shows "dtoh8a (pre @ htod8a a @ post) i = Some a" "dtoh16ap P (pre @ htod16ap P b @ post) i = Some b"
    "dtoh32ap P (pre @ htod32ap P c @ post) i = Some c" "dtoh64ap P (pre @ htod64ap P d @ post) i = Some d"
  using assms
  by (simp_all add: dtoh8a_def dtoh16ap_def dtoh32ap_def dtoh64ap_def htod8a_def htod16ap_def htod32ap_def htod64ap_def
      peek_append decode_encode del: append.simps)

text \<open>Reading fails exactly outside the buffer.\<close>

lemma dtoh_defined [buffer_simps]:
  "(dtoh8a data i = None) = (length data < i + 1)" "(dtoh16ap P data i = None) = (length data < i + 2)"
  "(dtoh32ap P data i = None) = (length data < i + 4)" "(dtoh64ap P data i = None) = (length data < i + 8)"
  by (auto simp: dtoh8a_def dtoh16ap_def dtoh32ap_def dtoh64ap_def peek_def)

lemma dtoh_skip:
  "dtoh8a (pre @ data) (length pre + i) = dtoh8a data i" "dtoh16ap P (pre @ data) (length pre + i) = dtoh16ap P data i"
  "dtoh32ap P (pre @ data) (length pre + i) = dtoh32ap P data i" "dtoh64ap P (pre @ data) (length pre + i) = dtoh64ap P data i"
  by (simp_all add: dtoh8a_def dtoh16ap_def dtoh32ap_def dtoh64ap_def peek_skip)

section \<open>Where something lies in a buffer\<close>

text \<open>\<open>lies data i bs\<close>: the bytes \<open>bs\<close> stand in \<open>data\<close> at \<open>i\<close>. Round trips are stated with it, wherever a dataset lies.\<close>

definition lies :: "octet list \<Rightarrow> nat \<Rightarrow> octet list \<Rightarrow> bool" where
  "lies data i bs \<longleftrightarrow> peek data i (length bs) = Some bs"

lemma lies_iff: "lies data i bs \<longleftrightarrow> i + length bs \<le> length data \<and> take (length bs) (drop i data) = bs"
  by (simp add: lies_def peek_def)

lemma lies_append [simp]: "lies data i (a @ b) \<longleftrightarrow> lies data i a \<and> lies data (i + length a) b"
proof (cases "i + length (a @ b) \<le> length data")
  case True
  then have "length (take (length a) (drop i data)) = length a" by simp
  then have "take (length a + length b) (drop i data) = a @ b \<longleftrightarrow>
      take (length a) (drop i data) = a \<and> take (length b) (drop (length a) (drop i data)) = b"
    unfolding take_add by (rule append_eq_append_conv [OF disjI1])
  moreover have "drop (length a) (drop i data) = drop (i + length a) data" by (simp add: add.commute)
  ultimately show ?thesis using True by (simp add: lies_iff)
qed (auto simp: lies_iff)

lemma lies_whole [simp]: "lies bs 0 bs"
  by (simp add: lies_def peek_def)

lemma lies_in: "lies (pre @ bs @ post) (length pre) bs"
  by (simp add: lies_def peek_append)

lemma lies_end: "lies data i bs \<Longrightarrow> i + length bs \<le> length data"
  unfolding lies_def by (blast dest: peek_Some)

lemma dtoh_lies [buffer_simps]:
  "lies data i (htod8a a) \<Longrightarrow> dtoh8a data i = Some a" "lies data i (htod16ap P b) \<Longrightarrow> dtoh16ap P data i = Some b"
  "lies data i (htod32ap P c) \<Longrightarrow> dtoh32ap P data i = Some c" "lies data i (htod64ap P d) \<Longrightarrow> dtoh64ap P data i = Some d"
  by (simp_all add: lies_def dtoh8a_def dtoh16ap_def dtoh32ap_def dtoh64ap_def htod8a_def htod16ap_def htod32ap_def htod64ap_def
      decode_encode)

end
