(* ===== verification/Ptp_String.thy ===== *)
theory Ptp_String
  imports Ptp_Base
begin

text \<open>
  Strings and arrays of ptp-pack.c. A C string is the list of its bytes without the terminator. On the wire a
  string is a byte with the number of its UCS-2 characters, the terminating zero included, and these characters; an empty or missing
  string may be the byte 0 alone.
\<close>

definition PTP_MAXSTRLEN :: nat where "PTP_MAXSTRLEN = 255"

text \<open>The part of a buffer up to its first zero.\<close>

definition upto_nul :: "'a::zero list \<Rightarrow> 'a list" where
  "upto_nul bs = takeWhile (\<lambda>b. b \<noteq> 0) bs"

lemma upto_nul_id [simp]: "0 \<notin> set bs \<Longrightarrow> upto_nul bs = bs"
  by (auto simp: upto_nul_def takeWhile_eq_all_conv)

lemma upto_nul_stop [simp]: "0 \<notin> set bs \<Longrightarrow> upto_nul (bs @ 0 # cs) = bs"
  unfolding upto_nul_def by (subst takeWhile_append2) auto

section \<open>Strings\<close>

text \<open>
  The conversion by hand: characters above 127 become a question mark.
\<close>

definition plain_char :: "16 word \<Rightarrow> octet" where
  "plain_char c = (if c > 127 then 63 else ucast c)"

fun the_hard_way :: "PTPParams \<Rightarrow> octet list \<Rightarrow> octet list" where
  "the_hard_way P (a # b # string) = plain_char (decode P [a, b]) # the_hard_way P string"
| "the_hard_way P string = []"

text \<open>\<open>loclstr\<close> for the bytes of the characters; iconv may use all of it but the terminator.\<close>

definition from_ucs2 :: "PTPParams \<Rightarrow> octet list \<Rightarrow> octet list" where
  "from_ucs2 P string =
    (case cd_ucs2_to_locale P of
       None \<Rightarrow> the_hard_way P string
     | Some iconv \<Rightarrow>
         (case iconv string of
            Some out \<Rightarrow> if List.length out \<le> PTP_MAXSTRLEN * 3 then out else the_hard_way P string
          | None \<Rightarrow> the_hard_way P string))"

text \<open>The result is the string (\<open>None\<close> for NULL) and the number of characters, stored through \<open>len\<close>.\<close>

definition ptp_unpack_string :: "PTPParams \<Rightarrow> octet list \<Rightarrow> 16 word \<Rightarrow> (octet list option \<times> octet) option" where
  "ptp_unpack_string P data offset =
    do { length \<leftarrow> dtoh8a data (unat offset);
         if length = 0 then Some (None, 0)
         else do {
           string \<leftarrow> peek data (unat offset + 1) (2 * unat length);
           Some (Some (upto_nul (from_ucs2 P string)), length) } }"

text \<open>
  \<open>ucs2str\<close> up to its terminator. Without iconv the bytes are widened (\<open>char\<close> is signed) into an array of 256
  characters, without a check of the length.
\<close>

definition to_ucs2 :: "PTPParams \<Rightarrow> octet list \<Rightarrow> 16 word list option" where
  "to_ucs2 P string =
    (case cd_locale_to_ucs2 P of
       Some iconv \<Rightarrow>
         Some (case iconv string of
                 Some u \<Rightarrow> if List.length u \<le> PTP_MAXSTRLEN then upto_nul u else []
               | None \<Rightarrow> [])
     | None \<Rightarrow> if List.length string \<le> PTP_MAXSTRLEN then Some (upto_nul (map scast string)) else None)"

text \<open>\<open>memcpy\<close> from an array of characters copies them as the host stores them.\<close>

definition host_bytes :: "16 word list \<Rightarrow> octet list" where
  "host_bytes u = concat (map (le_bytes 2) u)"

definition ptp_pack_string :: "PTPParams \<Rightarrow> octet list \<Rightarrow> octet list \<Rightarrow> 16 word \<Rightarrow> (octet list \<times> octet) option" where
  "ptp_pack_string P string data offset =
    do { ucs2str \<leftarrow> to_ucs2 P string;
         let packedlen = List.length ucs2str;
         if packedlen > PTP_MAXSTRLEN - 1 then Some (data, 0)
         else do {
           data \<leftarrow> poke data (unat offset) (htod8a (of_nat (packedlen + 1)));
           data \<leftarrow> poke data (unat offset + 1) (host_bytes ucs2str);
           data \<leftarrow> poke data (unat offset + 2 * packedlen + 1) (htod16ap P 0);
           Some (data, of_nat packedlen + 1) } }"

text \<open>The copy on the heap; the empty list when it cannot be allocated.\<close>

definition ptp_get_packed_stringcopy :: "PTPParams \<Rightarrow> octet list option \<Rightarrow> octet list option" where
  "ptp_get_packed_stringcopy P string =
    do { (packed, len) \<leftarrow> ptp_pack_string P (case string of None \<Rightarrow> [] | Some s \<Rightarrow> s)
                              (map (uninit P) [0..<PTP_MAXSTRLEN * 2 + 3]) 0;
         let plen = unat len * 2 + 1;
         Some (if can_alloc P plen then take plen packed else []) }"

section \<open>Arrays\<close>

definition read_array :: "(nat \<Rightarrow> 'a option) \<Rightarrow> nat \<Rightarrow> nat \<Rightarrow> nat \<Rightarrow> 'a list option" where
  "read_array rd start step n = those (map (\<lambda>i. rd (start + step * i)) [0..<n])"

text \<open>The array is \<open>None\<close> for NULL; a null pointer is written through unless there is nothing to write.\<close>

definition ptp_unpack_uint32_t_array :: "PTPParams \<Rightarrow> octet list \<Rightarrow> 16 word \<Rightarrow> (32 word \<times> 32 word list option) option" where
  "ptp_unpack_uint32_t_array P data offset =
    do { n \<leftarrow> dtoh32ap P data (unat offset);
         if can_alloc P (unat n * 4)
         then do { array \<leftarrow> read_array (dtoh32ap P data) (unat offset + 4) 4 (unat n); Some (n, Some array) }
         else if n = 0 then Some (n, None) else None }"

definition ptp_pack_uint32_t_array :: "PTPParams \<Rightarrow> 32 word list \<Rightarrow> octet list option" where
  "ptp_pack_uint32_t_array P array =
    (if List.length array + 1 < 2 ^ 32 \<and> can_alloc P ((List.length array + 1) * 4)
     then Some (htod32ap P (of_nat (List.length array)) @ concat (map (htod32ap P) array)) else None)"

definition ptp_unpack_uint16_t_array :: "PTPParams \<Rightarrow> octet list \<Rightarrow> 16 word \<Rightarrow> (32 word \<times> 16 word list option) option" where
  "ptp_unpack_uint16_t_array P data offset =
    do { n \<leftarrow> dtoh32ap P data (unat offset);
         if can_alloc P (unat n * 2)
         then do { array \<leftarrow> read_array (dtoh16ap P data) (unat offset + 4) 2 (unat n); Some (n, Some array) }
         else if n = 0 then Some (n, None) else None }"

section \<open>What is on the wire\<close>

lemma those_Some: "(\<And>x. x \<in> set xs \<Longrightarrow> f x = Some (g x)) \<Longrightarrow> those (map f xs) = Some (map g xs)"
  by (induction xs) auto

lemma read_array_Some:
  assumes "\<And>i. i < length xs \<Longrightarrow> rd (start + step * i) = Some (xs ! i)"
  shows "read_array rd start step (length xs) = Some xs"
  unfolding read_array_def using those_Some [of "[0..<length xs]" "\<lambda>i. rd (start + step * i)" "\<lambda>i. xs ! i"] assms
  by (simp add: map_nth)

lemma read_array_total:
  assumes "\<And>i. i < n \<Longrightarrow> rd (start + step * i) \<noteq> None"
  shows "\<exists>xs. read_array rd start step n = Some xs \<and> length xs = n"
proof -
  have "\<forall>i\<in>set [0..<n]. rd (start + step * i) = Some (the (rd (start + step * i)))" using assms by auto
  then show ?thesis unfolding read_array_def
    using those_Some [of "[0..<n]" "\<lambda>i. rd (start + step * i)" "\<lambda>i. the (rd (start + step * i))"] by auto
qed

lemma lies_nth:
  assumes "lies data start (concat (map f xs))" and "\<And>x. length (f x) = step" and "i < length xs"
  shows "lies data (start + step * i) (f (xs ! i))"
  using assms(1,3)
proof (induction xs arbitrary: start i)
  case (Cons x xs)
  then show ?case
  proof (cases i)
    case (Suc k)
    with Cons.IH [of "start + step" k] Cons.prems assms(2) show ?thesis by (simp add: add.assoc)
  qed simp
qed simp

lemma concat_length: "(\<And>x. length (f x) = k) \<Longrightarrow> length (concat (map f xs)) = k * length xs"
  by (induction xs) auto

text \<open>The wire form of a string of characters, and the strings that survive it.\<close>

definition wire_string :: "PTPParams \<Rightarrow> 16 word list \<Rightarrow> octet list" where
  "wire_string P u = htod8a (of_nat (length u + 1)) @ host_bytes u @ htod16ap P 0"

definition portable :: "PTPParams \<Rightarrow> octet list \<Rightarrow> bool" where
  "portable P s = (case to_ucs2 P s of
     None \<Rightarrow> False | Some u \<Rightarrow> length u < PTP_MAXSTRLEN \<and> upto_nul (from_ucs2 P (host_bytes u @ htod16ap P 0)) = s)"

lemma host_bytes_length [simp]: "length (host_bytes u) = 2 * length u"
  by (simp add: host_bytes_def concat_length [of _ 2])

lemma wire_string_length [simp]: "length (wire_string P u) = 2 * length u + 3"
  by (simp add: wire_string_def)

lemma poke_lies: "poke data i bs = Some data' \<Longrightarrow> lies data' i bs"
  by (auto simp: poke_def lies_iff split: if_splits)

lemma poke_run:
  assumes "i + length bs \<le> length data"
  shows "poke data i bs = Some (take i data @ bs @ drop (i + length bs) data)"
  using assms by (simp add: poke_def)

text \<open>Writes next to each other are one write.\<close>

lemma poke_poke:
  assumes "i + length a + length b \<le> length data" and "j = i + length a"
  shows "Option.bind (poke data i a) (\<lambda>d. poke d j b) = poke data i (a @ b)"
  using assms by (simp add: poke_def add.commute add.left_commute)

lemma pack_string:
  assumes u: "to_ucs2 P s = Some u" and n: "length u < PTP_MAXSTRLEN" and room: "unat offset + 2 * length u + 3 \<le> length data"
  shows "ptp_pack_string P s data offset =
    Some (take (unat offset) data @ wire_string P u @ drop (unat offset + length (wire_string P u)) data, of_nat (length u) + 1)"
proof -
  let ?o = "unat offset"
  let ?n = "htod8a (of_nat (length u + 1))"
  have "do { d \<leftarrow> poke data ?o ?n; d \<leftarrow> poke d (?o + 1) (host_bytes u); poke d (?o + 2 * length u + 1) (htod16ap P 0) }
      = poke data ?o (wire_string P u)"
    using room by (simp add: wire_string_def poke_poke Option.bind_assoc flip: Option.bind_assoc)
  moreover have "poke data ?o (wire_string P u) = Some (take ?o data @ wire_string P u @ drop (?o + length (wire_string P u)) data)"
    using room by (simp add: poke_def)
  ultimately show ?thesis
    using n u by (auto simp: ptp_pack_string_def Let_def PTP_MAXSTRLEN_def bind_eq_Some_conv)
qed

lemma unpack_string:
  assumes l: "lies data (unat offset) (wire_string P u)" and n: "length u < PTP_MAXSTRLEN"
  shows "ptp_unpack_string P data offset =
    Some (Some (upto_nul (from_ucs2 P (host_bytes u @ htod16ap P 0))), of_nat (length u) + 1)"
proof -
  have n2: "unat (of_nat (length u + 1) :: octet) = length u + 1"
    using n unfolding unat_of_nat by (simp add: PTP_MAXSTRLEN_def)
  then have n': "(of_nat (length u + 1) :: octet) \<noteq> 0" by (metis Suc_eq_plus1 nat.distinct(1) unat_0)
  have "lies data (unat offset) (htod8a (of_nat (length u + 1)))"
    and body: "lies data (unat offset + 1) (host_bytes u @ htod16ap P 0)" using l by (simp_all add: wire_string_def add.commute)
  from this(1) have "dtoh8a data (unat offset) = Some (of_nat (length u + 1))" by (rule dtoh_lies(1))
  moreover have "peek data (unat offset + 1) (2 * (length u + 1)) = Some (host_bytes u @ htod16ap P 0)"
    using body unfolding lies_def by (simp add: add.commute)
  ultimately show ?thesis using n' n2 by (simp add: ptp_unpack_string_def add.commute)
qed

text \<open>Without iconv and with the host's byte order, ASCII strings of up to 254 characters are portable.\<close>

lemma scast_ascii: "x < 128 \<Longrightarrow> (scast (x :: octet) :: 16 word) = ucast x"
proof (rule bit_word_eqI)
  fix n assume x: "x < 128" and n: "n < LENGTH(16)"
  have "unat x < 128" using x by (simp add: word_less_nat_alt)
  then have "unat (take_bit 7 x) = unat x" by (simp add: unsigned_take_bit_eq take_bit_nat_eq_self_iff)
  then have "take_bit 7 x = x" by (simp add: word_unat_eq_iff)
  then have b: "\<not> bit x k" if "7 \<le> k" for k using bit_take_bit_iff [of 7 x k] that by simp
  then show "bit (scast x :: 16 word) n = bit (ucast x :: 16 word) n"
    using n by (auto simp: bit_simps min_def)
qed

lemma plain_ascii: "x < 128 \<Longrightarrow> plain_char (ucast (x :: octet)) = x"
proof -
  assume x: "x < 128"
  have "unat (ucast x :: 16 word) = unat x" using x by (simp add: unsigned_ucast_eq take_bit_nat_eq_self_iff word_less_nat_alt)
  moreover have "ucast (ucast x :: 16 word) = x" by (rule bit_word_eqI) (simp add: bit_simps)
  ultimately show ?thesis using x by (simp add: plain_char_def word_less_nat_alt)
qed

lemma hard_way_ascii:
  assumes "byteorder P = PTP_DL_LE" and "\<forall>x\<in>set s. x < 128"
  shows "the_hard_way P (host_bytes (map scast s) @ htod16ap P 0) = s @ [0]"
  using assms(2)
proof (induction s)
  case Nil
  then show ?case using assms(1) by (simp add: host_bytes_def htod16ap_def encode_def decode_def numeral_2_eq_2 plain_char_def)
next
  case (Cons x s)
  have "decode P (le_bytes 2 (scast x :: 16 word)) = (scast x :: 16 word)"
    using assms(1) by (simp add: decode_def le_value_bytes_full)
  then have "the_hard_way P (host_bytes (map scast (x # s)) @ htod16ap P 0) =
      plain_char (scast x) # the_hard_way P (host_bytes (map scast s) @ htod16ap P 0)"
    by (simp add: host_bytes_def numeral_2_eq_2)
  with Cons show ?case by (simp add: scast_ascii plain_ascii)
qed

lemma portable_ascii:
  assumes P: "cd_locale_to_ucs2 P = None" "cd_ucs2_to_locale P = None" "byteorder P = PTP_DL_LE"
    and s: "\<forall>x\<in>set s. 0 < x \<and> x < 128" "length s < PTP_MAXSTRLEN"
  shows "portable P s"
proof -
  have "(scast x :: 16 word) \<noteq> 0" if "x \<in> set s" for x
  proof
    assume "(scast x :: 16 word) = 0"
    then have "(ucast x :: 16 word) = 0" using that s(1) by (simp add: scast_ascii)
    then show False using plain_ascii [of x] that s(1) by (auto simp: plain_char_def)
  qed
  then have u: "to_ucs2 P s = Some (map scast s)" using P s(2) by (simp add: to_ucs2_def image_iff)
  have "0 \<notin> set s" using s(1) by auto
  then have "upto_nul (s @ [0]) = s" by simp
  then show ?thesis using u P s hard_way_ascii [OF P(3), of s]
    by (simp add: portable_def from_ucs2_def)
qed

section \<open>Arrays on the wire\<close>

definition array_bytes :: "PTPParams \<Rightarrow> ('a \<Rightarrow> octet list) \<Rightarrow> 'a list \<Rightarrow> octet list" where
  "array_bytes P f xs = htod32ap P (of_nat (length xs)) @ concat (map f xs)"

lemma array_bytes_length: "(\<And>x. length (f x) = k) \<Longrightarrow> length (array_bytes P f xs) = 4 + k * length xs"
  by (simp add: array_bytes_def concat_length)

lemma unat_length: "length xs < 2 ^ 32 \<Longrightarrow> unat (of_nat (length xs) :: 32 word) = length xs"
  unfolding unat_of_nat by simp

lemma unpack_uint16_array:
  assumes l: "lies data (unat offset) (array_bytes P (htod16ap P) xs)" and n: "length xs < 2 ^ 32" "can_alloc P (length xs * 2)"
  shows "ptp_unpack_uint16_t_array P data offset = Some (of_nat (length xs), Some xs)"
proof -
  from l have "lies data (unat offset) (htod32ap P (of_nat (length xs)))"
    and b: "lies data (unat offset + 4) (concat (map (htod16ap P) xs))" by (simp_all add: array_bytes_def)
  from this(1) have "dtoh32ap P data (unat offset) = Some (of_nat (length xs))" by (rule dtoh_lies(3))
  moreover have "read_array (dtoh16ap P data) (unat offset + 4) 2 (length xs) = Some xs"
    by (rule read_array_Some) (rule dtoh_lies(2), rule lies_nth [OF b], simp_all)
  ultimately show ?thesis using n by (simp add: ptp_unpack_uint16_t_array_def unat_length)
qed

lemma unpack_uint32_array:
  assumes l: "lies data (unat offset) (array_bytes P (htod32ap P) xs)" and n: "length xs < 2 ^ 32" "can_alloc P (length xs * 4)"
  shows "ptp_unpack_uint32_t_array P data offset = Some (of_nat (length xs), Some xs)"
proof -
  from l have "lies data (unat offset) (htod32ap P (of_nat (length xs)))"
    and b: "lies data (unat offset + 4) (concat (map (htod32ap P) xs))" by (simp_all add: array_bytes_def)
  from this(1) have "dtoh32ap P data (unat offset) = Some (of_nat (length xs))" by (rule dtoh_lies(3))
  moreover have "read_array (dtoh32ap P data) (unat offset + 4) 4 (length xs) = Some xs"
    by (rule read_array_Some) (rule dtoh_lies(3), rule lies_nth [OF b], simp_all)
  ultimately show ?thesis using n by (simp add: ptp_unpack_uint32_t_array_def unat_length)
qed

end
