(* ===== verification/Ptp_Dataset.thy ===== *)
theory Ptp_Dataset
  imports Ptp_String
begin

text \<open>
  The datasets of ptp-pack.c: device, storage and object descriptions, events, and the entries of Canon's and
  Nikon's extensions. A structure is a record; a pointer that a function tests for NULL is an \<open>option\<close>.
\<close>

section \<open>Device information\<close>

record PTPDeviceInfo =
  StandardVersion :: "16 word"
  VendorExtensionID :: "32 word"
  VendorExtensionVersion :: "16 word"
  VendorExtensionDesc :: "octet list option"
  FunctionalMode :: "16 word"
  OperationsSupported_len :: "32 word"
  OperationsSupported :: "16 word list option"
  EventsSupported_len :: "32 word"
  EventsSupported :: "16 word list option"
  DevicePropertiesSupported_len :: "32 word"
  DevicePropertiesSupported :: "16 word list option"
  CaptureFormats_len :: "32 word"
  CaptureFormats :: "16 word list option"
  ImageFormats_len :: "32 word"
  ImageFormats :: "16 word list option"
  Manufacturer :: "octet list option"
  Model :: "octet list option"
  DeviceVersion :: "octet list option"
  SerialNumber :: "octet list option"

text \<open>
  \<open>totallen\<close> is an \<open>unsigned int\<close>; the offsets handed to the string and array functions are cut to 16 bits.
\<close>

definition ptp_unpack_DI :: "PTPParams \<Rightarrow> octet list option \<Rightarrow> PTPDeviceInfo \<Rightarrow> 32 word \<Rightarrow> PTPDeviceInfo option" where
  "ptp_unpack_DI P dataptr di datalen =
    (case dataptr of None \<Rightarrow> Some di | Some data \<Rightarrow>
     if datalen < 12 then Some di else
     do { StandardVersion \<leftarrow> dtoh16ap P data 0;
          VendorExtensionID \<leftarrow> dtoh32ap P data 2;
          VendorExtensionVersion \<leftarrow> dtoh16ap P data 6;
          (VendorExtensionDesc, len) \<leftarrow> ptp_unpack_string P data 8;
          let totallen = (ucast len * 2 + 1 :: 32 word);
          FunctionalMode \<leftarrow> dtoh16ap P data (unat (8 + totallen));
          (OperationsSupported_len, OperationsSupported) \<leftarrow> ptp_unpack_uint16_t_array P data (ucast (10 + totallen));
          let totallen = totallen + OperationsSupported_len * 2 + 4;
          (EventsSupported_len, EventsSupported) \<leftarrow> ptp_unpack_uint16_t_array P data (ucast (10 + totallen));
          let totallen = totallen + EventsSupported_len * 2 + 4;
          (DevicePropertiesSupported_len, DevicePropertiesSupported) \<leftarrow> ptp_unpack_uint16_t_array P data (ucast (10 + totallen));
          let totallen = totallen + DevicePropertiesSupported_len * 2 + 4;
          (CaptureFormats_len, CaptureFormats) \<leftarrow> ptp_unpack_uint16_t_array P data (ucast (10 + totallen));
          let totallen = totallen + CaptureFormats_len * 2 + 4;
          (ImageFormats_len, ImageFormats) \<leftarrow> ptp_unpack_uint16_t_array P data (ucast (10 + totallen));
          let totallen = totallen + ImageFormats_len * 2 + 4;
          (Manufacturer, len) \<leftarrow> ptp_unpack_string P data (ucast (10 + totallen));
          let totallen = totallen + ucast len * 2 + 1;
          (Model, len) \<leftarrow> ptp_unpack_string P data (ucast (10 + totallen));
          let totallen = totallen + ucast len * 2 + 1;
          (DeviceVersion, len) \<leftarrow> ptp_unpack_string P data (ucast (10 + totallen));
          let totallen = totallen + ucast len * 2 + 1;
          (SerialNumber, len) \<leftarrow> ptp_unpack_string P data (ucast (10 + totallen));
          Some \<lparr> StandardVersion = StandardVersion, VendorExtensionID = VendorExtensionID,
            VendorExtensionVersion = VendorExtensionVersion, VendorExtensionDesc = VendorExtensionDesc, FunctionalMode = FunctionalMode,
            OperationsSupported_len = OperationsSupported_len, OperationsSupported = OperationsSupported,
            EventsSupported_len = EventsSupported_len, EventsSupported = EventsSupported,
            DevicePropertiesSupported_len = DevicePropertiesSupported_len, DevicePropertiesSupported = DevicePropertiesSupported,
            CaptureFormats_len = CaptureFormats_len, CaptureFormats = CaptureFormats,
            ImageFormats_len = ImageFormats_len, ImageFormats = ImageFormats,
            Manufacturer = Manufacturer, Model = Model, DeviceVersion = DeviceVersion, SerialNumber = SerialNumber \<rparr> })"

text \<open>The device information of Canon's EOS cameras. The arrays of the structure start as NULL (\<open>memset\<close>).\<close>

record PTPCanonEOSDeviceInfo =
  eos_EventsSupported_len :: "32 word"
  eos_EventsSupported :: "32 word list option"
  eos_DevicePropertiesSupported_len :: "32 word"
  eos_DevicePropertiesSupported :: "32 word list option"
  unk_len :: "32 word"
  unk :: "32 word list option"

definition zero_EOS_DI :: PTPCanonEOSDeviceInfo where
  "zero_EOS_DI = \<lparr> eos_EventsSupported_len = 0, eos_EventsSupported = None, eos_DevicePropertiesSupported_len = 0,
    eos_DevicePropertiesSupported = None, unk_len = 0, unk = None \<rparr>"

definition ptp_unpack_EOS_DI :: "PTPParams \<Rightarrow> octet list \<Rightarrow> 32 word \<Rightarrow> PTPCanonEOSDeviceInfo option" where
  "ptp_unpack_EOS_DI P data datalen =
    (if datalen < 8 then Some zero_EOS_DI else
     do { let totallen = (4 :: 32 word);
          (n, ev) \<leftarrow> ptp_unpack_uint32_t_array P data (ucast totallen);
          let di = zero_EOS_DI\<lparr> eos_EventsSupported_len := n, eos_EventsSupported := ev \<rparr>;
          if ev = None then Some di else do {
          let totallen = totallen + n * 4 + 4;
          if totallen \<ge> datalen then Some di else do {
          (n, dp) \<leftarrow> ptp_unpack_uint32_t_array P data (ucast totallen);
          let di = di\<lparr> eos_DevicePropertiesSupported_len := n, eos_DevicePropertiesSupported := dp \<rparr>;
          if dp = None then Some di else do {
          let totallen = totallen + n * 4 + 4;
          if totallen \<ge> datalen then Some di else do {
          (n, u) \<leftarrow> ptp_unpack_uint32_t_array P data (ucast totallen);
          Some (di\<lparr> unk_len := n, unk := u \<rparr>) }}}}})"

section \<open>Handles and storages\<close>

record PTPObjectHandles =
  oh_n :: "32 word"
  Handler :: "32 word list option"

definition ptp_unpack_OH :: "PTPParams \<Rightarrow> octet list \<Rightarrow> 32 word \<Rightarrow> PTPObjectHandles option" where
  "ptp_unpack_OH P data len =
    (if len \<noteq> 0 then do { (n, h) \<leftarrow> ptp_unpack_uint32_t_array P data 0; Some \<lparr> oh_n = n, Handler = h \<rparr> }
     else Some \<lparr> oh_n = 0, Handler = None \<rparr>)"

record PTPStorageIDs =
  sids_n :: "32 word"
  Storage :: "32 word list option"

definition ptp_unpack_SIDs :: "PTPParams \<Rightarrow> octet list option \<Rightarrow> 32 word \<Rightarrow> PTPStorageIDs option" where
  "ptp_unpack_SIDs P dataptr len =
    (if dataptr = None \<and> len = 0 then Some \<lparr> sids_n = 0, Storage = None \<rparr>
     else do { data \<leftarrow> dataptr;
               (n, st) \<leftarrow> ptp_unpack_uint32_t_array P data 0;
               Some \<lparr> sids_n = n, Storage = st \<rparr> })"

record PTPStorageInfo =
  StorageType :: "16 word"
  FilesystemType :: "16 word"
  AccessCapability :: "16 word"
  MaxCapability :: "64 word"
  FreeSpaceInBytes :: "64 word"
  FreeSpaceInImages :: "32 word"
  StorageDescription :: "octet list option"
  VolumeLabel :: "octet list option"

definition ptp_unpack_SI :: "PTPParams \<Rightarrow> octet list \<Rightarrow> PTPStorageInfo option" where
  "ptp_unpack_SI P data =
    do { StorageType \<leftarrow> dtoh16ap P data 0;
         FilesystemType \<leftarrow> dtoh16ap P data 2;
         AccessCapability \<leftarrow> dtoh16ap P data 4;
         MaxCapability \<leftarrow> dtoh64ap P data 6;
         FreeSpaceInBytes \<leftarrow> dtoh64ap P data 14;
         FreeSpaceInImages \<leftarrow> dtoh32ap P data 22;
         (StorageDescription, storagedescriptionlen) \<leftarrow> ptp_unpack_string P data 26;
         (VolumeLabel, storagedescriptionlen) \<leftarrow> ptp_unpack_string P data (26 + ucast storagedescriptionlen * 2 + 1);
         Some \<lparr> StorageType = StorageType, FilesystemType = FilesystemType, AccessCapability = AccessCapability,
           MaxCapability = MaxCapability, FreeSpaceInBytes = FreeSpaceInBytes, FreeSpaceInImages = FreeSpaceInImages,
           StorageDescription = StorageDescription, VolumeLabel = VolumeLabel \<rparr> }"

section \<open>Object information\<close>

record PTPObjectInfo =
  StorageID :: "32 word"
  ObjectFormat :: "16 word"
  ProtectionStatus :: "16 word"
  ObjectCompressedSize :: "64 word"
  ThumbFormat :: "16 word"
  ThumbCompressedSize :: "32 word"
  ThumbPixWidth :: "32 word"
  ThumbPixHeight :: "32 word"
  ImagePixWidth :: "32 word"
  ImagePixHeight :: "32 word"
  ImageBitDepth :: "32 word"
  ParentObject :: "32 word"
  AssociationType :: "16 word"
  AssociationDesc :: "32 word"
  SequenceNumber :: "32 word"
  Filename :: "octet list option"
  CaptureDate :: int
  ModificationDate :: int
  Keywords :: "octet list option"

abbreviation (input) PTP_oi_StorageID :: nat where "PTP_oi_StorageID \<equiv> 0"
abbreviation (input) PTP_oi_ObjectFormat :: nat where "PTP_oi_ObjectFormat \<equiv> 4"
abbreviation (input) PTP_oi_ProtectionStatus :: nat where "PTP_oi_ProtectionStatus \<equiv> 6"
abbreviation (input) PTP_oi_ObjectCompressedSize :: nat where "PTP_oi_ObjectCompressedSize \<equiv> 8"
abbreviation (input) PTP_oi_ThumbFormat :: nat where "PTP_oi_ThumbFormat \<equiv> 12"
abbreviation (input) PTP_oi_ThumbCompressedSize :: nat where "PTP_oi_ThumbCompressedSize \<equiv> 14"
abbreviation (input) PTP_oi_ThumbPixWidth :: nat where "PTP_oi_ThumbPixWidth \<equiv> 18"
abbreviation (input) PTP_oi_ThumbPixHeight :: nat where "PTP_oi_ThumbPixHeight \<equiv> 22"
abbreviation (input) PTP_oi_ImagePixWidth :: nat where "PTP_oi_ImagePixWidth \<equiv> 26"
abbreviation (input) PTP_oi_ImagePixHeight :: nat where "PTP_oi_ImagePixHeight \<equiv> 30"
abbreviation (input) PTP_oi_ImageBitDepth :: nat where "PTP_oi_ImageBitDepth \<equiv> 34"
abbreviation (input) PTP_oi_ParentObject :: nat where "PTP_oi_ParentObject \<equiv> 38"
abbreviation (input) PTP_oi_AssociationType :: nat where "PTP_oi_AssociationType \<equiv> 42"
abbreviation (input) PTP_oi_AssociationDesc :: nat where "PTP_oi_AssociationDesc \<equiv> 44"
abbreviation (input) PTP_oi_SequenceNumber :: nat where "PTP_oi_SequenceNumber \<equiv> 48"
abbreviation (input) PTP_oi_filenamelen :: nat where "PTP_oi_filenamelen \<equiv> 52"
abbreviation (input) PTP_oi_Filename :: nat where "PTP_oi_Filename \<equiv> 53"

definition PTP_oi_MaxLen :: nat where
  "PTP_oi_MaxLen = PTP_oi_Filename + (PTP_MAXSTRLEN + 1) * 2 + 3"

text \<open>The packed dataset and its length. \<open>b\<close> is how far \<open>oidata\<close> has moved on.\<close>

definition ptp_pack_OI :: "PTPParams \<Rightarrow> PTPObjectInfo \<Rightarrow> (octet list \<times> 32 word) option" where
  "ptp_pack_OI P oi =
    (let b = (if ocs64 P then 4 else 0) in
     if \<not> can_alloc P (PTP_oi_MaxLen + b) then None else
     do { let d = replicate (PTP_oi_MaxLen + b) 0;
          d \<leftarrow> poke d PTP_oi_StorageID (htod32ap P (StorageID oi));
          d \<leftarrow> poke d PTP_oi_ObjectFormat (htod16ap P (ObjectFormat oi));
          d \<leftarrow> poke d PTP_oi_ProtectionStatus (htod16ap P (ProtectionStatus oi));
          d \<leftarrow> poke d PTP_oi_ObjectCompressedSize (htod32ap P (ucast (ObjectCompressedSize oi)));
          d \<leftarrow> poke d (b + PTP_oi_ThumbFormat) (htod16ap P (ThumbFormat oi));
          d \<leftarrow> poke d (b + PTP_oi_ThumbCompressedSize) (htod32ap P (ThumbCompressedSize oi));
          d \<leftarrow> poke d (b + PTP_oi_ThumbPixWidth) (htod32ap P (ThumbPixWidth oi));
          d \<leftarrow> poke d (b + PTP_oi_ThumbPixHeight) (htod32ap P (ThumbPixHeight oi));
          d \<leftarrow> poke d (b + PTP_oi_ImagePixWidth) (htod32ap P (ImagePixWidth oi));
          d \<leftarrow> poke d (b + PTP_oi_ImagePixHeight) (htod32ap P (ImagePixHeight oi));
          d \<leftarrow> poke d (b + PTP_oi_ImageBitDepth) (htod32ap P (ImageBitDepth oi));
          d \<leftarrow> poke d (b + PTP_oi_ParentObject) (htod32ap P (ParentObject oi));
          d \<leftarrow> poke d (b + PTP_oi_AssociationType) (htod16ap P (AssociationType oi));
          d \<leftarrow> poke d (b + PTP_oi_AssociationDesc) (htod32ap P (AssociationDesc oi));
          d \<leftarrow> poke d (b + PTP_oi_SequenceNumber) (htod32ap P (SequenceNumber oi));
          filename \<leftarrow> Filename oi;
          (oidata, filenamelen) \<leftarrow> ptp_pack_string P filename (drop b d) (of_nat PTP_oi_filenamelen);
          Some (take b d @ oidata, of_nat (PTP_oi_Filename + unat filenamelen * 2 + 3 + b)) })"

text \<open>C's \<open>atoi\<close>: leading space, a sign, digits.\<close>

fun digits_value :: "int \<Rightarrow> octet list \<Rightarrow> int" where
  "digits_value acc [] = acc"
| "digits_value acc (c # s) = (if 48 \<le> c \<and> c \<le> 57 then digits_value (acc * 10 + uint c - 48) s else acc)"

definition atoi :: "octet list \<Rightarrow> int" where
  "atoi s = (case dropWhile (\<lambda>c. c = 32 \<or> 9 \<le> c \<and> c \<le> 13) s of
     [] \<Rightarrow> 0
   | c # s' \<Rightarrow> if c = 45 then - digits_value 0 s' else if c = 43 then digits_value 0 s' else digits_value 0 (c # s'))"

text \<open>\<open>struct tm\<close>; \<open>mktime\<close> is the C library's, which knows the time zone.\<close>

record tm =
  tm_year :: int
  tm_mon :: int
  tm_mday :: int
  tm_hour :: int
  tm_min :: int
  tm_sec :: int
  tm_isdst :: int

definition ptp_unpack_PTPTIME :: "(tm \<Rightarrow> int) \<Rightarrow> octet list option \<Rightarrow> int" where
  "ptp_unpack_PTPTIME mktime str =
    (case str of None \<Rightarrow> 0
     | Some ptpdate \<Rightarrow>
         if length ptpdate \<ge> 40 \<or> length ptpdate < 15 then 0
         else mktime \<lparr> tm_year = atoi (take 4 ptpdate) - 1900, tm_mon = atoi (take 2 (drop 4 ptpdate)) - 1,
           tm_mday = atoi (take 2 (drop 6 ptpdate)), tm_hour = atoi (take 2 (drop 9 ptpdate)),
           tm_min = atoi (take 2 (drop 11 ptpdate)), tm_sec = atoi (take 2 (drop 13 ptpdate)), tm_isdst = -1 \<rparr>)"

text \<open>Cameras with object sizes of 64 bits are recognised by where the length of the file name is. The keywords of the
  structure are not touched.\<close>

definition ptp_unpack_OI :: "PTPParams \<Rightarrow> (tm \<Rightarrow> int) \<Rightarrow> octet list \<Rightarrow> PTPObjectInfo \<Rightarrow> (PTPParams \<times> PTPObjectInfo) option" where
  "ptp_unpack_OI P mktime data oi =
    do { StorageID \<leftarrow> dtoh32ap P data PTP_oi_StorageID;
         ObjectFormat \<leftarrow> dtoh16ap P data PTP_oi_ObjectFormat;
         ProtectionStatus \<leftarrow> dtoh16ap P data PTP_oi_ProtectionStatus;
         ObjectCompressedSize \<leftarrow> dtoh32ap P data PTP_oi_ObjectCompressedSize;
         c \<leftarrow> dtoh8a data PTP_oi_filenamelen;
         wide \<leftarrow> (if c = 0 then do { c' \<leftarrow> dtoh8a data (PTP_oi_filenamelen + 4); Some (c' \<noteq> 0) } else Some False);
         let P = (if wide then P\<lparr> ocs64 := True \<rparr> else P);
         let data = (if wide then drop 4 data else data);
         ThumbFormat \<leftarrow> dtoh16ap P data PTP_oi_ThumbFormat;
         ThumbCompressedSize \<leftarrow> dtoh32ap P data PTP_oi_ThumbCompressedSize;
         ThumbPixWidth \<leftarrow> dtoh32ap P data PTP_oi_ThumbPixWidth;
         ThumbPixHeight \<leftarrow> dtoh32ap P data PTP_oi_ThumbPixHeight;
         ImagePixWidth \<leftarrow> dtoh32ap P data PTP_oi_ImagePixWidth;
         ImagePixHeight \<leftarrow> dtoh32ap P data PTP_oi_ImagePixHeight;
         ImageBitDepth \<leftarrow> dtoh32ap P data PTP_oi_ImageBitDepth;
         ParentObject \<leftarrow> dtoh32ap P data PTP_oi_ParentObject;
         AssociationType \<leftarrow> dtoh16ap P data PTP_oi_AssociationType;
         AssociationDesc \<leftarrow> dtoh32ap P data PTP_oi_AssociationDesc;
         SequenceNumber \<leftarrow> dtoh32ap P data PTP_oi_SequenceNumber;
         (Filename, filenamelen) \<leftarrow> ptp_unpack_string P data (of_nat PTP_oi_filenamelen);
         (capture_date, capturedatelen) \<leftarrow>
           ptp_unpack_string P data (of_nat PTP_oi_filenamelen + ucast filenamelen * 2 + 1);
         let CaptureDate = ptp_unpack_PTPTIME mktime capture_date;
         (capture_date, capturedatelen) \<leftarrow>
           ptp_unpack_string P data (of_nat PTP_oi_filenamelen + ucast filenamelen * 2 + ucast capturedatelen * 2 + 2);
         let ModificationDate = ptp_unpack_PTPTIME mktime capture_date;
         Some (P, \<lparr> StorageID = StorageID, ObjectFormat = ObjectFormat, ProtectionStatus = ProtectionStatus,
           ObjectCompressedSize = ucast ObjectCompressedSize, ThumbFormat = ThumbFormat, ThumbCompressedSize = ThumbCompressedSize,
           ThumbPixWidth = ThumbPixWidth, ThumbPixHeight = ThumbPixHeight, ImagePixWidth = ImagePixWidth,
           ImagePixHeight = ImagePixHeight, ImageBitDepth = ImageBitDepth, ParentObject = ParentObject,
           AssociationType = AssociationType, AssociationDesc = AssociationDesc, SequenceNumber = SequenceNumber,
           Filename = Filename, CaptureDate = CaptureDate, ModificationDate = ModificationDate,
           Keywords = Keywords oi \<rparr>) }"

end
