(* ===== verification/Ptp_Event.thy ===== *)
theory Ptp_Event
  imports Ptp_Dataset
begin

text \<open>
  Events, and the vendor extensions of ptp-pack.c that are single records: Canon's folder entries, image formats and custom
  functions, Nikon's event lists, Kodak's text overlay.
\<close>

section \<open>Events\<close>

record PTPContainer =
  Code :: "16 word"
  SessionID :: "32 word"
  Transaction_ID :: "32 word"
  Param1 :: "32 word"
  Param2 :: "32 word"
  Param3 :: "32 word"
  Param4 :: "32 word"
  Param5 :: "32 word"
  Nparam :: octet

definition zero_container :: PTPContainer where
  "zero_container = \<lparr> Code = 0, SessionID = 0, Transaction_ID = 0, Param1 = 0, Param2 = 0, Param3 = 0, Param4 = 0,
    Param5 = 0, Nparam = 0 \<rparr>"

definition PTP_USB_CONTAINER_EVENT :: "16 word" where "PTP_USB_CONTAINER_EVENT = 4"

text \<open>One parameter that is there when the length the event claims (an \<open>int\<close>) covers it.\<close>

definition ec_param :: "PTPParams \<Rightarrow> octet list \<Rightarrow> 32 word \<Rightarrow> nat \<Rightarrow> (32 word \<Rightarrow> PTPContainer \<Rightarrow> PTPContainer) \<Rightarrow>
    PTPContainer \<Rightarrow> PTPContainer option" where
  "ec_param P data len i f ec =
    (if sint len \<ge> int i + 4 then do { v \<leftarrow> dtoh32ap P data i; Some (f v ec) } else Some ec)"

definition ptp_unpack_EC :: "PTPParams \<Rightarrow> octet list option \<Rightarrow> PTPContainer \<Rightarrow> PTPContainer option" where
  "ptp_unpack_EC P dataptr ec =
    (case dataptr of None \<Rightarrow> Some ec | Some data \<Rightarrow>
     do { length \<leftarrow> dtoh32ap P data 0;
          type \<leftarrow> dtoh16ap P data 4;
          code \<leftarrow> dtoh16ap P data 6;
          tid \<leftarrow> dtoh32ap P data 8;
          let ec = zero_container\<lparr> Code := code, Transaction_ID := tid \<rparr>;
          if type \<noteq> PTP_USB_CONTAINER_EVENT then Some ec
          else do {
            ec \<leftarrow> ec_param P data length 12 (\<lambda>v ec. ec\<lparr> Param1 := v, Nparam := 1 \<rparr>) ec;
            ec \<leftarrow> ec_param P data length 16 (\<lambda>v ec. ec\<lparr> Param2 := v, Nparam := 2 \<rparr>) ec;
            ec_param P data length 20 (\<lambda>v ec. ec\<lparr> Param3 := v, Nparam := 3 \<rparr>) ec } })"

abbreviation (input) PTP_nikon_ec_Code :: nat where "PTP_nikon_ec_Code \<equiv> 2"
abbreviation (input) PTP_nikon_ec_Param1 :: nat where "PTP_nikon_ec_Param1 \<equiv> 4"
abbreviation (input) PTP_nikon_ec_Size :: nat where "PTP_nikon_ec_Size \<equiv> 6"

text \<open>
  The \<open>i\<close>-th event. The result of \<open>ptp_unpack_Nikon_EC\<close> is the array (\<open>None\<close> for NULL) and the counter, which is
  left alone by the first two returns.
\<close>

definition nikon_event :: "PTPParams \<Rightarrow> octet list \<Rightarrow> nat \<Rightarrow> PTPContainer option" where
  "nikon_event P data i =
    do { code \<leftarrow> dtoh16ap P data (PTP_nikon_ec_Code + PTP_nikon_ec_Size * i);
         p1 \<leftarrow> dtoh32ap P data (PTP_nikon_ec_Param1 + PTP_nikon_ec_Size * i);
         Some (zero_container\<lparr> Code := code, Param1 := p1, Nparam := 1 \<rparr>) }"

definition ptp_unpack_Nikon_EC :: "PTPParams \<Rightarrow> octet list option \<Rightarrow> 32 word \<Rightarrow> 32 word \<Rightarrow>
    (PTPContainer list option \<times> 32 word) option" where
  "ptp_unpack_Nikon_EC P dataptr len cnt =
    (case dataptr of None \<Rightarrow> Some (None, cnt) | Some data \<Rightarrow>
     if len < of_nat PTP_nikon_ec_Code then Some (None, cnt) else
     do { c \<leftarrow> dtoh16ap P data 0;
          let cnt = ucast c;
          if cnt > (len - of_nat PTP_nikon_ec_Code) div of_nat PTP_nikon_ec_Size then Some (None, cnt)
          else if cnt = 0 then Some (None, cnt)
          else if \<not> can_alloc P (36 * unat cnt) then None
          else do { ec \<leftarrow> those (map (nikon_event P data) [0..<unat cnt]); Some (Some ec, cnt) } })"

section \<open>Canon's folder entries\<close>

abbreviation (input) PTP_CANON_FilenameBufferLen :: nat where "PTP_CANON_FilenameBufferLen \<equiv> 13"

record PTPCANONFolderEntry =
  fe_ObjectHandle :: "32 word"
  fe_ObjectFormatCode :: "16 word"
  fe_Flags :: octet
  fe_ObjectSize :: "32 word"
  fe_Time :: "32 word"
  fe_Filename :: "octet list"
  fe_StorageID :: "32 word"

definition ptp_unpack_Canon_FE :: "PTPParams \<Rightarrow> octet list option \<Rightarrow> PTPCANONFolderEntry \<Rightarrow> PTPCANONFolderEntry option" where
  "ptp_unpack_Canon_FE P dataptr fe =
    (case dataptr of None \<Rightarrow> Some fe | Some data \<Rightarrow>
     do { oh \<leftarrow> dtoh32ap P data 0;
          ofc \<leftarrow> dtoh16ap P data 4;
          flags \<leftarrow> dtoh8a data 6;
          size \<leftarrow> dtoh32ap P data 7;
          time \<leftarrow> dtoh32ap P data 11;
          name \<leftarrow> read_array (dtoh8a data) 15 1 PTP_CANON_FilenameBufferLen;
          Some (fe\<lparr> fe_ObjectHandle := oh, fe_ObjectFormatCode := ofc, fe_Flags := flags, fe_ObjectSize := size,
            fe_Time := time, fe_Filename := name \<rparr>) })"

definition ptp_unpack_Canon_EOS_FE :: "PTPParams \<Rightarrow> octet list \<Rightarrow> PTPCANONFolderEntry \<Rightarrow> PTPCANONFolderEntry option" where
  "ptp_unpack_Canon_EOS_FE P data fe =
     do { oh \<leftarrow> dtoh32ap P data 0;
          ofc \<leftarrow> dtoh16ap P data 8;
          flags \<leftarrow> dtoh8a data 12;
          size \<leftarrow> dtoh32ap P data 20;
          time \<leftarrow> dtoh32ap P data 48;
          name \<leftarrow> read_array (dtoh8a data) 32 1 PTP_CANON_FilenameBufferLen;
          Some (fe\<lparr> fe_ObjectHandle := oh, fe_ObjectFormatCode := ofc, fe_Flags := flags, fe_ObjectSize := size,
            fe_Time := time, fe_Filename := name \<rparr>) }"

section \<open>Canon's image formats\<close>

text \<open>
  One or two entries of five numbers are condensed to four nibbles. The result is the value and the position
  behind the entries, where \<open>*data\<close> is moved to.
\<close>

definition condense :: "32 word \<Rightarrow> 32 word \<Rightarrow> 32 word \<Rightarrow> 32 word \<Rightarrow> 16 word" where
  "condense s1 c1 s2 c2 =
    (let s1 = (if s1 \<ge> 0xe then s1 - 1 else s1);
         s2 = (if s2 \<ge> 0xe then s2 - 1 else s2)
     in ucast (push_bit 12 (s1 AND 0xF) OR push_bit 8 (c1 AND 0xF) OR push_bit 4 (s2 AND 0xF) OR (c2 AND 0xF)))"

definition ptp_unpack_EOS_ImageFormat :: "PTPParams \<Rightarrow> octet list \<Rightarrow> nat \<Rightarrow> (16 word \<times> nat) option" where
  "ptp_unpack_EOS_ImageFormat P data d =
    do { n \<leftarrow> dtoh32ap P data d;
         if n \<noteq> 1 \<and> n \<noteq> 2 then Some (0, d) else do {
         l \<leftarrow> dtoh32ap P data (d + 4);
         if l \<noteq> 0x10 then Some (0, d) else do {
         s1 \<leftarrow> dtoh32ap P data (d + 12);
         c1 \<leftarrow> dtoh32ap P data (d + 16);
         if n = 2 then do {
           l \<leftarrow> dtoh32ap P data (d + 20);
           if l \<noteq> 0x10 then Some (0, d) else do {
           s2 \<leftarrow> dtoh32ap P data (d + 28);
           c2 \<leftarrow> dtoh32ap P data (d + 32);
           Some (condense s1 c1 s2 c2, d + 36) } }
         else Some (condense s1 c1 0 0, d + 20) }}}"

definition pack_5DM3_small_jpeg_size :: "16 word \<Rightarrow> 32 word" where
  "pack_5DM3_small_jpeg_size x = (if x \<ge> 0xd then ucast x + 1 else ucast x)"

text \<open>One entry after the count: its size, type, image size and compression.\<close>

definition format_entry :: "PTPParams \<Rightarrow> 16 word \<Rightarrow> 16 word \<Rightarrow> octet list list" where
  "format_entry P s c =
    [htod32ap P 0x10, htod32ap P (if c = 4 then 6 else 1), htod32ap P (pack_5DM3_small_jpeg_size s), htod32ap P (ucast c)]"

text \<open>Writes of one chunk after the other.\<close>

fun pokes :: "octet list \<Rightarrow> nat \<Rightarrow> octet list list \<Rightarrow> octet list option" where
  "pokes data i [] = Some data"
| "pokes data i (b # bs) = do { data \<leftarrow> poke data i b; pokes data (i + length b) bs }"

text \<open>The size that is returned; with a buffer, it is filled.\<close>

definition ptp_pack_EOS_ImageFormat :: "PTPParams \<Rightarrow> octet list option \<Rightarrow> 16 word \<Rightarrow> (32 word \<times> octet list option) option" where
  "ptp_pack_EOS_ImageFormat P dataptr value =
    (let n = (if value AND 0xFF \<noteq> 0 then 2 else 1 :: 32 word);
         s = 4 + 0x10 * n in
     case dataptr of
       None \<Rightarrow> Some (s, None)
     | Some data \<Rightarrow>
         do { data \<leftarrow> pokes data 0 ([htod32ap P n] @ format_entry P (drop_bit 12 value AND 0xF) (drop_bit 8 value AND 0xF) @
                (if n = 2 then format_entry P (drop_bit 4 value AND 0xF) (value AND 0xF) else []));
              Some (s, Some data) })"

section \<open>Canon's custom functions\<close>

text \<open>\<open>%x\<close> of \<open>printf\<close>, and \<open>strtoul\<close> with base 16.\<close>

definition hex_digit :: "nat \<Rightarrow> octet" where
  "hex_digit n = (if n < 10 then of_nat (48 + n) else of_nat (87 + n))"

fun hex_string :: "nat \<Rightarrow> octet list" where
  "hex_string n = (if n < 16 then [hex_digit n] else hex_string (n div 16) @ [hex_digit (n mod 16)])"

definition hex_value :: "octet \<Rightarrow> nat option" where
  "hex_value c = (if 48 \<le> c \<and> c \<le> 57 then Some (unat c - 48) else if 97 \<le> c \<and> c \<le> 102 then Some (unat c - 87)
     else if 65 \<le> c \<and> c \<le> 70 then Some (unat c - 55) else None)"

fun hex_scan :: "nat \<Rightarrow> octet list \<Rightarrow> nat \<times> octet list" where
  "hex_scan acc [] = (acc, [])"
| "hex_scan acc (c # s) = (case hex_value c of Some d \<Rightarrow> hex_scan (16 * acc + d) s | None \<Rightarrow> (acc, c # s))"

text \<open>
  The value, cut off at the largest \<open>unsigned long\<close>, and the rest of the string; without a digit the rest
  is the whole string. A sign negates the value.
\<close>

definition strtoul16 :: "octet list \<Rightarrow> 64 word \<times> octet list" where
  "strtoul16 str =
    (let s = dropWhile (\<lambda>c. c = 32 \<or> 9 \<le> c \<and> c \<le> 13) str;
         neg = (s \<noteq> [] \<and> hd s = 45);
         s = (if s \<noteq> [] \<and> (hd s = 45 \<or> hd s = 43) then tl s else s);
         s' = (case s of z # x # d # r \<Rightarrow> if z = 48 \<and> (x = 120 \<or> x = 88) \<and> hex_value d \<noteq> None then d # r else s | _ \<Rightarrow> s)
     in case s' of
          [] \<Rightarrow> (0, str)
        | c # r \<Rightarrow> if hex_value c = None then (0, str)
                   else case hex_scan 0 s' of (v, rest) \<Rightarrow>
                     (if v \<ge> 2 ^ 64 then - 1 else if neg then - of_nat v else of_nat v, rest))"

text \<open>
  The result is \<open>None\<close> inside when \<open>malloc\<close> fails. With a size below 4 nothing is written into the buffer, which is then no
  string. The size the buffer is given is computed with 32 bits.
\<close>

definition ptp_unpack_EOS_CustomFuncEx :: "PTPParams \<Rightarrow> octet list \<Rightarrow> octet list option option" where
  "ptp_unpack_EOS_CustomFuncEx P data =
    do { s \<leftarrow> dtoh32ap P data 0;
         let n = s div 4;
         let room = unat (s * 2 + s div 4 + 1);
         if \<not> can_alloc P room then Some None
         else do {
           vs \<leftarrow> read_array (dtoh32ap P data) 0 4 (unat n);
           let str = concat (map (\<lambda>v. hex_string (unat v) @ [44]) vs);
           if length str + 1 \<le> room \<and> n \<noteq> 0 then Some (Some str) else None } }"

text \<open>\<open>str++\<close> behind the end of the string makes the next read undefined.\<close>

fun pack_values :: "PTPParams \<Rightarrow> nat \<Rightarrow> nat \<Rightarrow> octet list \<Rightarrow> octet list option \<Rightarrow> octet list option" where
  "pack_values P 0 i data str = Some data"
| "pack_values P (Suc n) i data str =
    do { str \<leftarrow> str;
         let (v, rest) = strtoul16 str;
         data \<leftarrow> poke data i (htod32ap P (ucast v));
         pack_values P n (i + 4) data (if rest = [] then None else Some (tl rest)) }"

definition ptp_pack_EOS_CustomFuncEx :: "PTPParams \<Rightarrow> octet list option \<Rightarrow> octet list \<Rightarrow> (32 word \<times> octet list option) option" where
  "ptp_pack_EOS_CustomFuncEx P dataptr str =
    (let s = (ucast (fst (strtoul16 str)) :: 32 word); n = s div 4 in
     case dataptr of
       None \<Rightarrow> Some (s, None)
     | Some data \<Rightarrow> do { data \<leftarrow> pack_values P (unat n) 0 data (Some str); Some (s, Some data) })"

section \<open>Kodak's text overlay\<close>

record PTPEKTextParams =
  title :: "octet list"
  line :: "octet list list"

text \<open>A string at the cursor, the terminator behind it and more numbers; the cursor moves behind all of them.\<close>

definition ek_string :: "PTPParams \<Rightarrow> octet list \<Rightarrow> nat \<Rightarrow> octet list \<Rightarrow> 16 word list \<Rightarrow> (octet list \<times> nat) option" where
  "ek_string P data cur s nums =
    do { (d, retlen) \<leftarrow> ptp_pack_string P s (drop cur data) 0;
         let data = take cur data @ d;
         let cur = cur + 2 * unat retlen + 1;
         data \<leftarrow> pokes data cur (map (htod16ap P) nums);
         Some (data, cur + 2 * length nums) }"

fun ek_lines :: "PTPParams \<Rightarrow> octet list \<Rightarrow> nat \<Rightarrow> octet list list \<Rightarrow> (octet list \<times> nat) option" where
  "ek_lines P data cur [] = Some (data, cur)"
| "ek_lines P data cur (l # ls) =
    do { (data, cur) \<leftarrow> ek_string P data cur l [0, 0x10, 0x01, 0x02, 0x06]; ek_lines P data cur ls }"

definition ptp_pack_EK_text :: "PTPParams \<Rightarrow> PTPEKTextParams \<Rightarrow> octet list option" where
  "ptp_pack_EK_text P text =
    (let len = (\<Sum>s\<leftarrow>title text # take 5 (line text). 2 * (length s + 1) + 1) + 4 * 2 + 2 * 4 + 2 + 4 + 2 + 5 * 4 * 2 in
     if \<not> can_alloc P len then Some []
     else do {
       data \<leftarrow> pokes (map (uninit P) [0..<len]) 0
         [htod16ap P 100, htod16ap P 1, htod16ap P 0, htod16ap P 1000, htod32ap P 0, htod32ap P 0, htod16ap P 6, htod32ap P 0];
       (data, cur) \<leftarrow> ek_string P data 22 (title text) [0, 0x10];
       (data, cur) \<leftarrow> ek_lines P data cur (take 5 (line text));
       Some data })"

end
