(* ===== verification/Ptp_Value.thy ===== *)
theory Ptp_Value
  imports Ptp_String "HOL-Library.Multiset"
begin

text \<open>
  Property values of ptp-pack.c, the descriptions of device and object properties, and MTP's object property lists.
\<close>

section \<open>Data types and values\<close>

definition PTP_DTC_INT8 :: "16 word" where "PTP_DTC_INT8 = 0x0001"
definition PTP_DTC_UINT8 :: "16 word" where "PTP_DTC_UINT8 = 0x0002"
definition PTP_DTC_INT16 :: "16 word" where "PTP_DTC_INT16 = 0x0003"
definition PTP_DTC_UINT16 :: "16 word" where "PTP_DTC_UINT16 = 0x0004"
definition PTP_DTC_INT32 :: "16 word" where "PTP_DTC_INT32 = 0x0005"
definition PTP_DTC_UINT32 :: "16 word" where "PTP_DTC_UINT32 = 0x0006"
definition PTP_DTC_INT64 :: "16 word" where "PTP_DTC_INT64 = 0x0007"
definition PTP_DTC_UINT64 :: "16 word" where "PTP_DTC_UINT64 = 0x0008"
definition PTP_DTC_INT128 :: "16 word" where "PTP_DTC_INT128 = 0x0009"
definition PTP_DTC_UINT128 :: "16 word" where "PTP_DTC_UINT128 = 0x000A"
definition PTP_DTC_ARRAY_MASK :: "16 word" where "PTP_DTC_ARRAY_MASK = 0x4000"
definition PTP_DTC_AINT8 :: "16 word" where "PTP_DTC_AINT8 = 0x4001"
definition PTP_DTC_AUINT8 :: "16 word" where "PTP_DTC_AUINT8 = 0x4002"
definition PTP_DTC_AINT16 :: "16 word" where "PTP_DTC_AINT16 = 0x4003"
definition PTP_DTC_AUINT16 :: "16 word" where "PTP_DTC_AUINT16 = 0x4004"
definition PTP_DTC_AINT32 :: "16 word" where "PTP_DTC_AINT32 = 0x4005"
definition PTP_DTC_AUINT32 :: "16 word" where "PTP_DTC_AUINT32 = 0x4006"
definition PTP_DTC_AINT64 :: "16 word" where "PTP_DTC_AINT64 = 0x4007"
definition PTP_DTC_AUINT64 :: "16 word" where "PTP_DTC_AUINT64 = 0x4008"
definition PTP_DTC_STR :: "16 word" where "PTP_DTC_STR = 0xFFFF"

lemmas dtc_defs =
  PTP_DTC_INT8_def PTP_DTC_UINT8_def PTP_DTC_INT16_def PTP_DTC_UINT16_def PTP_DTC_INT32_def PTP_DTC_UINT32_def
  PTP_DTC_INT64_def PTP_DTC_UINT64_def PTP_DTC_INT128_def PTP_DTC_UINT128_def PTP_DTC_ARRAY_MASK_def
  PTP_DTC_AINT8_def PTP_DTC_AUINT8_def PTP_DTC_AINT16_def PTP_DTC_AUINT16_def PTP_DTC_AINT32_def PTP_DTC_AUINT32_def
  PTP_DTC_AINT64_def PTP_DTC_AUINT64_def PTP_DTC_STR_def

text \<open>
  The union \<open>PTPPropertyValue\<close>, by the member that was stored; the signed and unsigned members of a width are the
  same bits. \<open>Zero\<close> is a union cleared by \<open>memset\<close>, \<open>Junk\<close> one that was never written. Reading a member that
  was not stored is undefined.
\<close>

datatype PTPPropertyValue =
  Zero | Junk | is_V8: V8 octet | is_V16: V16 "16 word" | is_V32: V32 "32 word" | is_V64: V64 "64 word"
  | VStr "octet list option" | VArr "PTPPropertyValue list"

fun u8 :: "PTPPropertyValue \<Rightarrow> octet option" where
  "u8 (V8 x) = Some x" | "u8 Zero = Some 0" | "u8 _ = None"
fun u16 :: "PTPPropertyValue \<Rightarrow> 16 word option" where
  "u16 (V16 x) = Some x" | "u16 Zero = Some 0" | "u16 _ = None"
fun u32 :: "PTPPropertyValue \<Rightarrow> 32 word option" where
  "u32 (V32 x) = Some x" | "u32 Zero = Some 0" | "u32 _ = None"
fun u64 :: "PTPPropertyValue \<Rightarrow> 64 word option" where
  "u64 (V64 x) = Some x" | "u64 Zero = Some 0" | "u64 _ = None"
fun str :: "PTPPropertyValue \<Rightarrow> octet list option option" where
  "str (VStr s) = Some s" | "str Zero = Some None" | "str _ = None"
fun arr :: "PTPPropertyValue \<Rightarrow> PTPPropertyValue list option" where
  "arr (VArr vs) = Some vs" | "arr Zero = Some []" | "arr _ = None"

section \<open>Unpacking a value\<close>

text \<open>
  The macro CTVAL: the rest of the data is computed without a sign, so an offset behind the end passes the test. The
  inner \<open>None\<close> is its \<open>return 0\<close>.
\<close>

definition CTVAL :: "(nat \<Rightarrow> 'a option) \<Rightarrow> nat \<Rightarrow> 32 word \<Rightarrow> 32 word \<Rightarrow> ('a option \<times> 32 word) option" where
  "CTVAL func sz tot offset =
    (if unat (tot - offset) < sz then Some (None, offset)
     else do { target \<leftarrow> func (unat offset); Some (Some target, offset + of_nat sz) })"

fun ctvals :: "(nat \<Rightarrow> 'a option) \<Rightarrow> nat \<Rightarrow> 32 word \<Rightarrow> nat \<Rightarrow> 32 word \<Rightarrow> ('a list option \<times> 32 word) option" where
  "ctvals func sz tot 0 offset = Some (Some [], offset)"
| "ctvals func sz tot (Suc n) offset =
    do { (v, offset) \<leftarrow> CTVAL func sz tot offset;
         case v of None \<Rightarrow> Some (None, offset)
         | Some v \<Rightarrow> do { (vs, offset) \<leftarrow> ctvals func sz tot n offset; Some (map_option (Cons v) vs, offset) } }"

text \<open>The macro RARR. An element of the array takes 16 bytes.\<close>

definition RARR :: "PTPParams \<Rightarrow> octet list \<Rightarrow> (nat \<Rightarrow> 'a option) \<Rightarrow> nat \<Rightarrow> 32 word \<Rightarrow> 32 word \<Rightarrow> ('a list option \<times> 32 word) option" where
  "RARR P data func sz tot offset =
    (if unat (tot - offset) < 4 then Some (None, offset)
     else do { n \<leftarrow> dtoh32ap P data (unat offset);
               let offset = offset + 4;
               if \<not> can_alloc P (16 * unat n) then Some (None, offset)
               else ctvals func sz tot (unat n) offset })"

text \<open>The value of the function, what the union holds then, and the offset. A number that is not there leaves
  the union as it was; an array that is not complete leaves it with a count of elements that were not all read, \<open>Junk\<close>.\<close>

definition taken :: "PTPPropertyValue \<Rightarrow> ('a \<Rightarrow> PTPPropertyValue) \<Rightarrow> ('a option \<times> 32 word) option \<Rightarrow> (bool \<times> PTPPropertyValue \<times> 32 word) option" where
  "taken old c r = do { (v, offset) \<leftarrow> r; Some (case v of None \<Rightarrow> (False, old, offset) | Some v \<Rightarrow> (True, c v, offset)) }"

definition ptp_unpack_DPV :: "PTPParams \<Rightarrow> octet list \<Rightarrow> 32 word \<Rightarrow> 32 word \<Rightarrow> PTPPropertyValue \<Rightarrow> 16 word \<Rightarrow>
    (bool \<times> PTPPropertyValue \<times> 32 word) option" where
  "ptp_unpack_DPV P data offset tot value datatype =
    (if datatype = PTP_DTC_INT8 \<or> datatype = PTP_DTC_UINT8 then taken value V8 (CTVAL (dtoh8a data) 1 tot offset)
     else if datatype = PTP_DTC_INT16 \<or> datatype = PTP_DTC_UINT16 then taken value V16 (CTVAL (dtoh16ap P data) 2 tot offset)
     else if datatype = PTP_DTC_INT32 \<or> datatype = PTP_DTC_UINT32 then taken value V32 (CTVAL (dtoh32ap P data) 4 tot offset)
     else if datatype = PTP_DTC_INT64 \<or> datatype = PTP_DTC_UINT64 then taken value V64 (CTVAL (dtoh64ap P data) 8 tot offset)
     else if datatype = PTP_DTC_UINT128 \<or> datatype = PTP_DTC_INT128 then Some (True, value, offset + 16)
     else if datatype = PTP_DTC_AINT8 \<or> datatype = PTP_DTC_AUINT8 then
       taken Junk (VArr \<circ> map V8) (RARR P data (dtoh8a data) 1 tot offset)
     else if datatype = PTP_DTC_AUINT16 \<or> datatype = PTP_DTC_AINT16 then
       taken Junk (VArr \<circ> map V16) (RARR P data (dtoh16ap P data) 2 tot offset)
     else if datatype = PTP_DTC_AUINT32 \<or> datatype = PTP_DTC_AINT32 then
       taken Junk (VArr \<circ> map V32) (RARR P data (dtoh32ap P data) 4 tot offset)
     else if datatype = PTP_DTC_AUINT64 \<or> datatype = PTP_DTC_AINT64 then
       taken Junk (VArr \<circ> map V64) (RARR P data (dtoh64ap P data) 8 tot offset)
     else if datatype = PTP_DTC_STR then
       do { (s, len) \<leftarrow> ptp_unpack_string P data (ucast offset);
            Some (True, VStr s, offset + ucast len * 2 + 1) }
     else Some (False, value, offset))"

section \<open>Packing a value\<close>

text \<open>The bytes behind \<open>*dpvptr\<close>, as many as the size that is returned; none for NULL.\<close>

definition pack_scalar :: "PTPParams \<Rightarrow> octet list \<Rightarrow> octet list option" where
  "pack_scalar P bs = (if can_alloc P (length bs) then Some bs else None)"

text \<open>The size is computed with 32 bits; behind the buffer the writes are undefined.\<close>

definition pack_array :: "PTPParams \<Rightarrow> nat \<Rightarrow> octet list list \<Rightarrow> octet list option" where
  "pack_array P sz vs =
    (let n = 4 + length vs * sz in
     if n < 2 ^ 32 \<and> can_alloc P n then Some (htod32ap P (of_nat (length vs)) @ concat vs) else None)"

definition ptp_pack_DPV :: "PTPParams \<Rightarrow> PTPPropertyValue \<Rightarrow> 16 word \<Rightarrow> octet list option" where
  "ptp_pack_DPV P value datatype =
    (if datatype = PTP_DTC_INT8 \<or> datatype = PTP_DTC_UINT8 then do { v \<leftarrow> u8 value; pack_scalar P (htod8a v) }
     else if datatype = PTP_DTC_INT16 \<or> datatype = PTP_DTC_UINT16 then do { v \<leftarrow> u16 value; pack_scalar P (htod16ap P v) }
     else if datatype = PTP_DTC_INT32 \<or> datatype = PTP_DTC_UINT32 then do { v \<leftarrow> u32 value; pack_scalar P (htod32ap P v) }
     else if datatype = PTP_DTC_INT64 \<or> datatype = PTP_DTC_UINT64 then do { v \<leftarrow> u64 value; pack_scalar P (htod64ap P v) }
     else if datatype = PTP_DTC_AUINT8 \<or> datatype = PTP_DTC_AINT8 then
       do { vs \<leftarrow> arr value; xs \<leftarrow> those (map u8 vs); pack_array P 1 (map htod8a xs) }
     else if datatype = PTP_DTC_AUINT16 \<or> datatype = PTP_DTC_AINT16 then
       do { vs \<leftarrow> arr value; xs \<leftarrow> those (map u16 vs); pack_array P 2 (map (htod16ap P) xs) }
     else if datatype = PTP_DTC_AUINT32 \<or> datatype = PTP_DTC_AINT32 then
       do { vs \<leftarrow> arr value; xs \<leftarrow> those (map u32 vs); pack_array P 4 (map (htod32ap P) xs) }
     else if datatype = PTP_DTC_AUINT64 \<or> datatype = PTP_DTC_AINT64 then
       do { vs \<leftarrow> arr value; xs \<leftarrow> those (map u64 vs); pack_array P 8 (map (htod64ap P) xs) }
     else if datatype = PTP_DTC_STR then do { s \<leftarrow> str value; ptp_get_packed_stringcopy P s }
     else Some [])"

section \<open>Property descriptions\<close>

definition PTP_DPFF_None :: octet where "PTP_DPFF_None = 0"
definition PTP_DPFF_Range :: octet where "PTP_DPFF_Range = 1"
definition PTP_DPFF_Enumeration :: octet where "PTP_DPFF_Enumeration = 2"

text \<open>The union \<open>FORM\<close>.\<close>

datatype PTPPropDescForm =
    NoForm
  | Range (MinimumValue: PTPPropertyValue) (MaximumValue: PTPPropertyValue) (StepSize: PTPPropertyValue)
  | Enum (NumberOfValues: "16 word") (SupportedValue: "PTPPropertyValue list")

record PTPDevicePropDesc =
  DevicePropertyCode :: "16 word"
  DataType :: "16 word"
  GetSet :: octet
  FactoryDefaultValue :: PTPPropertyValue
  CurrentValue :: PTPPropertyValue
  FormFlag :: octet
  FORM :: PTPPropDescForm

text \<open>
  The loop over the values of an enumeration. Where a value fails the enumeration ends, but for the first one.
\<close>

fun unpack_values :: "PTPParams \<Rightarrow> octet list \<Rightarrow> 32 word \<Rightarrow> 16 word \<Rightarrow> nat \<Rightarrow> PTPPropertyValue list \<Rightarrow> 32 word \<Rightarrow>
    PTPPropertyValue list option option" where
  "unpack_values P data tot datatype 0 vs offset = Some (Some vs)"
| "unpack_values P data tot datatype (Suc n) vs offset =
    do { (ret, v, offset) \<leftarrow> ptp_unpack_DPV P data offset tot Zero datatype;
         if ret then unpack_values P data tot datatype n (vs @ [v]) offset
         else if vs = [] then Some None else Some (Some vs) }"

text \<open>The form at \<open>offset\<close>, behind its flag; \<open>Some None\<close> is \<open>goto outofmemory\<close>.\<close>

definition unpack_form :: "PTPParams \<Rightarrow> octet list \<Rightarrow> 32 word \<Rightarrow> 16 word \<Rightarrow> octet \<Rightarrow> 32 word \<Rightarrow> PTPPropDescForm option option" where
  "unpack_form P data tot datatype flag offset =
    (if flag = PTP_DPFF_Range then
       do { (ret, lo, offset) \<leftarrow> ptp_unpack_DPV P data offset tot Zero datatype;
            if \<not> ret then Some None else do {
            (ret, hi, offset) \<leftarrow> ptp_unpack_DPV P data offset tot Zero datatype;
            if \<not> ret then Some None else do {
            (ret, st, offset) \<leftarrow> ptp_unpack_DPV P data offset tot Zero datatype;
            if \<not> ret then Some None else Some (Some (Range lo hi st)) }}}
     else if flag = PTP_DPFF_Enumeration then
       do { n \<leftarrow> dtoh16ap P data (unat offset);
            if \<not> can_alloc P (unat n * 16) then Some None
            else do { vs \<leftarrow> unpack_values P data tot datatype (unat n) [] (offset + 2);
                      Some (map_option (\<lambda>vs. Enum (of_nat (length vs)) vs) vs) } }
     else Some (Some NoForm))"

text \<open>\<open>Some None\<close> is the result 0, with everything in the structure freed.\<close>

definition ptp_unpack_DPD :: "PTPParams \<Rightarrow> octet list \<Rightarrow> 32 word \<Rightarrow> PTPDevicePropDesc option option" where
  "ptp_unpack_DPD P data dpdlen =
    do { code \<leftarrow> dtoh16ap P data 0;
         dt \<leftarrow> dtoh16ap P data 2;
         gs \<leftarrow> dtoh8a data 4;
         let dpd = \<lparr> DevicePropertyCode = code, DataType = dt, GetSet = gs, FactoryDefaultValue = Zero, CurrentValue = Zero,
           FormFlag = PTP_DPFF_None, FORM = NoForm \<rparr>;
         (ret, v, offset) \<leftarrow> ptp_unpack_DPV P data 5 dpdlen Zero dt;
         if \<not> ret then Some None else do {
         let dpd = dpd\<lparr> FactoryDefaultValue := v \<rparr>;
         if dt = PTP_DTC_STR \<and> offset = dpdlen then Some (Some dpd) else do {
         (ret, v, offset) \<leftarrow> ptp_unpack_DPV P data offset dpdlen Zero dt;
         if \<not> ret then Some None else do {
         let dpd = dpd\<lparr> CurrentValue := v \<rparr>;
         if offset = 5 then Some (Some dpd) else do {
         flag \<leftarrow> dtoh8a data (unat offset);
         form \<leftarrow> unpack_form P data dpdlen dt flag (offset + 1);
         Some (map_option (\<lambda>f. dpd\<lparr> FormFlag := flag, FORM := f \<rparr>) form) }}}}}"

record PTPObjectPropDesc =
  ObjectPropertyCode :: "16 word"
  opd_DataType :: "16 word"
  opd_GetSet :: octet
  opd_FactoryDefaultValue :: PTPPropertyValue
  GroupCode :: "32 word"
  opd_FormFlag :: octet
  opd_FORM :: PTPPropDescForm

definition ptp_unpack_OPD :: "PTPParams \<Rightarrow> octet list \<Rightarrow> 32 word \<Rightarrow> PTPObjectPropDesc option option" where
  "ptp_unpack_OPD P data opdlen =
    do { code \<leftarrow> dtoh16ap P data 0;
         dt \<leftarrow> dtoh16ap P data 2;
         gs \<leftarrow> dtoh8a data 4;
         (ret, v, offset) \<leftarrow> ptp_unpack_DPV P data 5 opdlen Zero dt;
         if \<not> ret then Some None else do {
         group \<leftarrow> dtoh32ap P data (unat offset);
         let offset = offset + 4;
         flag \<leftarrow> dtoh8a data (unat offset);
         form \<leftarrow> unpack_form P data opdlen dt flag (offset + 1);
         Some (map_option (\<lambda>f. \<lparr> ObjectPropertyCode = code, opd_DataType = dt, opd_GetSet = gs, opd_FactoryDefaultValue = v,
           GroupCode = group, opd_FormFlag = flag, opd_FORM = f \<rparr>) form) }}"

section \<open>Copying a description\<close>

text \<open>
  The switch of \<open>duplicate_PropertyValue\<close>, with the number of bytes it writes. The type has lost the bit of
  arrays, so that the case of strings, whose code has all bits, is never taken.
\<close>

definition duplicate_scalar :: "PTPPropertyValue \<Rightarrow> 16 word \<Rightarrow> (PTPPropertyValue \<times> nat) option" where
  "duplicate_scalar src type =
    (if type = PTP_DTC_INT8 \<or> type = PTP_DTC_UINT8 then do { v \<leftarrow> u8 src; Some (V8 v, 1) }
     else if type = PTP_DTC_INT16 \<or> type = PTP_DTC_UINT16 then do { v \<leftarrow> u16 src; Some (V16 v, 2) }
     else if type = PTP_DTC_INT32 \<or> type = PTP_DTC_UINT32 then do { v \<leftarrow> u32 src; Some (V32 v, 4) }
     else if type = PTP_DTC_UINT64 \<or> type = PTP_DTC_INT64 then do { v \<leftarrow> u64 src; Some (V64 v, 8) }
     else Some (Junk, 0))"

text \<open>
  The array gets 8 bytes per element, the size of a pointer, and elements are 16 bytes apart: the \<open>i\<close>-th one is
  written at \<open>16 * i\<close>.
\<close>

fun duplicate_array :: "nat \<Rightarrow> 16 word \<Rightarrow> nat \<Rightarrow> PTPPropertyValue list \<Rightarrow> PTPPropertyValue list option" where
  "duplicate_array room type i [] = Some []"
| "duplicate_array room type i (v # vs) =
    do { (d, w) \<leftarrow> duplicate_scalar v type;
         if w = 0 \<or> 16 * i + w \<le> room then do { ds \<leftarrow> duplicate_array room type (i + 1) vs; Some (d # ds) } else None }"

definition duplicate_PropertyValue :: "PTPParams \<Rightarrow> PTPPropertyValue \<Rightarrow> 16 word \<Rightarrow> PTPPropertyValue option" where
  "duplicate_PropertyValue P src type =
    (if type AND PTP_DTC_ARRAY_MASK \<noteq> 0 then
       do { vs \<leftarrow> arr src;
            if vs \<noteq> [] \<and> \<not> can_alloc P (8 * length vs) then None
            else do { ds \<leftarrow> duplicate_array (8 * length vs) (type AND NOT PTP_DTC_ARRAY_MASK) 0 vs; Some (VArr ds) } }
     else map_option fst (duplicate_scalar src type))"

definition duplicate_DevicePropDesc :: "PTPParams \<Rightarrow> PTPDevicePropDesc \<Rightarrow> PTPDevicePropDesc option" where
  "duplicate_DevicePropDesc P src =
    do { fd \<leftarrow> duplicate_PropertyValue P (FactoryDefaultValue src) (DataType src);
         cv \<leftarrow> duplicate_PropertyValue P (CurrentValue src) (DataType src);
         form \<leftarrow>
           (if FormFlag src = PTP_DPFF_Range then
              (case FORM src of Range lo hi st \<Rightarrow>
                 do { lo \<leftarrow> duplicate_PropertyValue P lo (DataType src);
                      hi \<leftarrow> duplicate_PropertyValue P hi (DataType src);
                      st \<leftarrow> duplicate_PropertyValue P st (DataType src);
                      Some (Range lo hi st) }
               | _ \<Rightarrow> None)
            else if FormFlag src = PTP_DPFF_Enumeration then
              (case FORM src of Enum n vs \<Rightarrow>
                 if unat n \<le> length vs \<and> (n = 0 \<or> can_alloc P (16 * unat n))
                 then do { vs \<leftarrow> those (map (\<lambda>v. duplicate_PropertyValue P v (DataType src)) (take (unat n) vs)); Some (Enum n vs) }
                 else None
               | _ \<Rightarrow> None)
            else Some NoForm);
         Some \<lparr> DevicePropertyCode = DevicePropertyCode src, DataType = DataType src, GetSet = GetSet src,
           FactoryDefaultValue = fd, CurrentValue = cv, FormFlag = FormFlag src, FORM = form \<rparr> }"

section \<open>Object property lists\<close>

record MTPProperties =
  property :: "16 word"
  mtp_datatype :: "16 word"
  ObjectHandle :: "32 word"
  propval :: PTPPropertyValue

definition MAX_MTP_PROPS :: nat where "MAX_MTP_PROPS = 127"

definition pack_prop :: "PTPParams \<Rightarrow> MTPProperties \<Rightarrow> octet list option" where
  "pack_prop P p =
    do { v \<leftarrow> ptp_pack_DPV P (propval p) (mtp_datatype p);
         Some (htod32ap P (ObjectHandle p) @ htod16ap P (property p) @ htod16ap P (mtp_datatype p) @ v) }"

text \<open>\<open>nrofprops\<close> is the length of the array; properties behind the first 127 are dropped.\<close>

definition ptp_pack_OPL :: "PTPParams \<Rightarrow> MTPProperties list \<Rightarrow> octet list option" where
  "ptp_pack_OPL P props =
    do { items \<leftarrow> those (map (pack_prop P) (take MAX_MTP_PROPS props));
         let totalsize = 4 + length (concat items);
         if totalsize < 2 ^ 32 \<and> can_alloc P totalsize
         then Some (htod32ap P (of_nat (length items)) @ concat items) else None }"

text \<open>The difference of the handles, read as an \<open>int\<close>.\<close>

definition compare_func :: "MTPProperties \<Rightarrow> MTPProperties \<Rightarrow> int" where
  "compare_func px py = sint (ObjectHandle px - ObjectHandle py)"

fun unpack_props :: "PTPParams \<Rightarrow> nat \<Rightarrow> octet list \<Rightarrow> 32 word \<Rightarrow> MTPProperties list option" where
  "unpack_props P 0 data len = Some []"
| "unpack_props P (Suc n) data len =
    (if len = 0 then Some []
     else do { oh \<leftarrow> dtoh32ap P data 0;
               prop \<leftarrow> dtoh16ap P data 4;
               dt \<leftarrow> dtoh16ap P data 6;
               let data = drop 8 data;
               let len = len - 8;
               (ret, v, offset) \<leftarrow> ptp_unpack_DPV P data 0 len Junk dt;
               ps \<leftarrow> unpack_props P n (drop (unat offset) data) (len - offset);
               Some (\<lparr> property = prop, mtp_datatype = dt, ObjectHandle = oh, propval = v \<rparr> # ps) })"

text \<open>
  \<open>qsort\<close> is the C library's. The list is \<open>None\<close> for NULL, or where \<open>*pprops\<close> is not written because of
  \<open>malloc\<close>; the second component is the result of the function.
\<close>

type_synonym qsort = "(MTPProperties \<Rightarrow> MTPProperties \<Rightarrow> int) \<Rightarrow> MTPProperties list \<Rightarrow> MTPProperties list"

definition ptp_unpack_OPL :: "PTPParams \<Rightarrow> qsort \<Rightarrow> octet list \<Rightarrow> 32 word \<Rightarrow> (MTPProperties list option \<times> nat) option" where
  "ptp_unpack_OPL P qsort data len =
    do { prop_count \<leftarrow> dtoh32ap P data 0;
         if prop_count = 0 then Some (None, 0)
         else if \<not> can_alloc P (unat prop_count * 24) then Some (None, 0)
         else do { props \<leftarrow> unpack_props P (unat prop_count) (drop 4 data) (len - 4);
                   Some (Some (qsort compare_func props), length props) } }"

end
