(* ===== verification/Ptp_Objects.thy ===== *)
theory Ptp_Objects
  imports Ptp_Dataset Ptp_Value
begin

text \<open>
  The object cache of camlibs/ptp2/ptp.c: the array \<open>params->objects\<close>, which is to be sorted by object handle. A
  pointer into the array is the index of its element; it is valid until the next insertion or removal.
\<close>

section \<open>The array\<close>

record PTPObject =
  oid :: "32 word"
  flags :: "32 word"
  oi :: PTPObjectInfo
  canon_flags :: "32 word"
  mtpprops :: "MTPProperties list"

definition zero_oi :: PTPObjectInfo where
  "zero_oi = \<lparr> StorageID = 0, ObjectFormat = 0, ProtectionStatus = 0, ObjectCompressedSize = 0, ThumbFormat = 0,
     ThumbCompressedSize = 0, ThumbPixWidth = 0, ThumbPixHeight = 0, ImagePixWidth = 0, ImagePixHeight = 0, ImageBitDepth = 0,
     ParentObject = 0, AssociationType = 0, AssociationDesc = 0, SequenceNumber = 0, Filename = None, CaptureDate = 0,
     ModificationDate = 0, Keywords = None \<rparr>"

text \<open>An element cleared by \<open>calloc\<close> or \<open>memset\<close>, with its handle; it takes 128 bytes.\<close>

definition new_object :: "32 word \<Rightarrow> PTPObject" where
  "new_object handle = \<lparr> oid = handle, flags = 0, oi = zero_oi, canon_flags = 0, mtpprops = [] \<rparr>"

abbreviation (input) sizeof_PTPObject :: nat where "sizeof_PTPObject \<equiv> 128"

text \<open>The difference of the handles, read as an \<open>int\<close>.\<close>

definition cmp_ob :: "32 word \<Rightarrow> 32 word \<Rightarrow> int" where
  "cmp_ob a b = sint (a - b)"

text \<open>\<open>bsearch\<close> of the GNU C library, between the indexes \<open>l\<close> and \<open>u\<close>.\<close>

function bsearch :: "('k \<Rightarrow> 'a \<Rightarrow> int) \<Rightarrow> 'k \<Rightarrow> 'a list \<Rightarrow> nat \<Rightarrow> nat \<Rightarrow> nat option" where
  "bsearch cmp key xs l u =
    (if l < u then
       let idx = (l + u) div 2; c = cmp key (xs ! idx) in
       if c < 0 then bsearch cmp key xs l idx
       else if c > 0 then bsearch cmp key xs (idx + 1) u
       else Some idx
     else None)"
  by pat_completeness auto
termination
proof (relation "measure (\<lambda>(cmp, key, xs, l, u). u - l)", goal_cases)
  case 1
  show ?case by simp
next
  case (2 cmp key xs l u idx c)
  then show ?case by simp
next
  case (3 cmp key xs l u idx c)
  then show ?case by simp
qed

declare bsearch.simps [simp del]

section \<open>Searching\<close>

text \<open>The index, or \<open>None\<close> with the result \<open>PTP_RC_GeneralError\<close>.\<close>

definition ptp_object_find :: "PTPObject list \<Rightarrow> 32 word \<Rightarrow> nat option" where
  "ptp_object_find objects handle = bsearch (\<lambda>h ob. cmp_ob h (oid ob)) handle objects 0 (length objects)"

definition ptp_find_object_prop_in_cache :: "PTPObject list \<Rightarrow> 32 word \<Rightarrow> 32 word \<Rightarrow> MTPProperties option" where
  "ptp_find_object_prop_in_cache objects handle attribute_id =
    (case ptp_object_find objects handle of
       None \<Rightarrow> None
     | Some i \<Rightarrow> find (\<lambda>p. attribute_id = ucast (property p)) (mtpprops (objects ! i)))"

text \<open>The \<open>realloc\<close> that makes the array smaller, which the code does not check, is taken to succeed.\<close>

definition ptp_remove_object_from_cache :: "PTPObject list \<Rightarrow> 32 word \<Rightarrow> PTPObject list" where
  "ptp_remove_object_from_cache objects handle =
    (case ptp_object_find objects handle of
       None \<Rightarrow> objects
     | Some i \<Rightarrow> take i objects @ drop (i + 1) objects)"

definition ptp_objects_sort :: "((PTPObject \<Rightarrow> PTPObject \<Rightarrow> int) \<Rightarrow> PTPObject list \<Rightarrow> PTPObject list) \<Rightarrow>
    PTPObject list \<Rightarrow> PTPObject list" where
  "ptp_objects_sort qsort objects = qsort (\<lambda>a b. cmp_ob (oid a) (oid b)) objects"

text \<open>
  The loop of \<open>ptp_object_find_or_insert\<close>: the index of the object (\<open>Inl\<close>), or the bounds where it gave up. This search
  compares without a sign.
\<close>

function search_loop :: "PTPObject list \<Rightarrow> 32 word \<Rightarrow> nat \<Rightarrow> nat \<Rightarrow> nat + (nat \<times> nat)" where
  "search_loop objects handle lo hi =
    (let cursor = (hi - lo) div 2 + lo in
     if oid (objects ! cursor) = handle then Inl cursor
     else
       let b = (if oid (objects ! cursor) < handle then cursor else lo);
           e = (if oid (objects ! cursor) < handle then hi else cursor)
       in if e - b \<le> 1 then Inr (b, e) else search_loop objects handle b e)"
  by pat_completeness auto
termination
proof (relation "measure (\<lambda>(objects, handle, b, e). e - b)", goal_cases)
  case 1
  show ?case by simp
next
  case (2 objects handle lo hi c b e)
  then have "1 < e - b" and "b = c \<and> e = hi \<or> b = lo \<and> e = c" by (auto split: if_splits)
  moreover from this have "2 \<le> hi - lo" using 2(1) by auto
  then have "1 \<le> (hi - lo) div 2" "(hi - lo) div 2 < hi - lo" by simp_all
  ultimately show ?case using 2(1) by (elim disjE conjE; simp) linarith
qed

declare search_loop.simps [simp del]

definition insert_position :: "PTPObject list \<Rightarrow> 32 word \<Rightarrow> nat \<Rightarrow> nat \<Rightarrow> nat" where
  "insert_position objects handle lo hi =
    (if lo = 0 \<and> handle < oid (objects ! 0) then lo
     else if hi = length objects - 1 \<and> handle > oid (objects ! hi) then hi + 1
     else lo + 1)"

text \<open>
  The array afterwards and the index of the object; no index with the result \<open>PTP_RC_GeneralError\<close>. The very first
  allocation is not checked.
\<close>

definition ptp_object_find_or_insert :: "PTPParams \<Rightarrow> PTPObject list \<Rightarrow> 32 word \<Rightarrow> (PTPObject list \<times> nat option) option" where
  "ptp_object_find_or_insert P objects handle =
    (if handle = 0 then Some (objects, None)
     else if objects = [] then
       if can_alloc P sizeof_PTPObject then Some ([new_object handle], Some 0) else None
     else
       case search_loop objects handle 0 (length objects - 1) of
         Inl i \<Rightarrow> Some (objects, Some i)
       | Inr (b, e) \<Rightarrow>
           if oid (objects ! b) = handle then Some (objects, Some b)
           else if oid (objects ! e) = handle then Some (objects, Some e)
           else
             let insertat = insert_position objects handle b e in
             if can_alloc P (sizeof_PTPObject * (length objects + 1))
             then Some (take insertat objects @ new_object handle # drop insertat objects, Some insertat)
             else Some (objects, None))"

section \<open>The searches\<close>

definition sorted_cache :: "PTPObject list \<Rightarrow> bool" where
  "sorted_cache obs \<longleftrightarrow> sorted_wrt (\<lambda>a b. oid a < oid b) obs"

text \<open>The map that an array stands for.\<close>

definition cache_abs :: "PTPObject list \<Rightarrow> 32 word \<rightharpoonup> PTPObject" where
  "cache_abs obs = map_of (map (\<lambda>ob. (oid ob, ob)) obs)"

lemma sorted_cache_nth: "sorted_cache obs \<Longrightarrow> i < j \<Longrightarrow> j < length obs \<Longrightarrow> oid (obs ! i) < oid (obs ! j)"
  by (simp add: sorted_cache_def sorted_wrt_iff_nth_less)

lemma sorted_cache_distinct: "sorted_cache obs \<Longrightarrow> distinct (map oid obs)"
  unfolding sorted_cache_def by (induction obs) auto

lemma cache_abs_dom [simp]: "dom (cache_abs obs) = oid ` set obs"
  by (simp add: cache_abs_def dom_map_of_conv_image_fst image_image)

lemma cache_abs_nth: "sorted_cache obs \<Longrightarrow> i < length obs \<Longrightarrow> cache_abs obs (oid (obs ! i)) = Some (obs ! i)"
  unfolding cache_abs_def
  by (rule map_of_is_SomeI) (simp_all add: sorted_cache_distinct comp_def)

lemma cache_abs_append: "cache_abs (xs @ ys) = cache_abs ys ++ cache_abs xs"
  by (simp add: cache_abs_def)

lemma cache_abs_Cons: "cache_abs (x # xs) = (cache_abs xs)(oid x \<mapsto> x)"
  by (simp add: cache_abs_def)

text \<open>What both bounds of the search promise.\<close>

definition bounds :: "PTPObject list \<Rightarrow> 32 word \<Rightarrow> nat \<Rightarrow> nat \<Rightarrow> bool" where
  "bounds obs h b e \<longleftrightarrow> b \<le> e \<and> e < length obs \<and> (b = 0 \<or> oid (obs ! b) < h) \<and> (e = length obs - 1 \<or> h < oid (obs ! e))"

lemma search_loop_result:
  "bounds obs h lo hi \<Longrightarrow> (case search_loop obs h lo hi of Inl i \<Rightarrow> i < length obs \<and> oid (obs ! i) = h
     | Inr (b, e) \<Rightarrow> bounds obs h b e \<and> e - b \<le> 1)"
proof (induction obs h lo hi rule: search_loop.induct)
  case (1 obs h lo hi)
  let ?c = "(hi - lo) div 2 + lo"
  from 1(2) have c: "lo \<le> ?c" "?c \<le> hi" "?c < length obs" by (auto simp: bounds_def)
  show ?case
  proof (cases "oid (obs ! ?c) = h")
    case True
    with c show ?thesis by (subst search_loop.simps) (simp add: Let_def)
  next
    case False
    let ?b = "if oid (obs ! ?c) < h then ?c else lo" and ?e = "if oid (obs ! ?c) < h then hi else ?c"
    have "bounds obs h ?b ?e" using 1(2) c False by (auto simp: bounds_def)
    moreover have "search_loop obs h lo hi = (if ?e - ?b \<le> 1 then Inr (?b, ?e) else search_loop obs h ?b ?e)"
      using False by (subst search_loop.simps) (simp add: Let_def)
    ultimately show ?thesis using 1(1) [OF refl False refl refl] by (cases "?e - ?b \<le> 1") simp_all
  qed
qed

lemma insert_position_splits:
  assumes s: "sorted_cache obs" and b: "bounds obs h b e" "e - b \<le> 1" and ne: "oid (obs ! b) \<noteq> h" "oid (obs ! e) \<noteq> h"
  shows "(\<forall>i<insert_position obs h b e. i < length obs \<and> oid (obs ! i) < h) \<and>
    (\<forall>i<length obs. insert_position obs h b e \<le> i \<longrightarrow> h < oid (obs ! i))"
proof -
  have m: "i \<le> j \<Longrightarrow> j < length obs \<Longrightarrow> oid (obs ! i) \<le> oid (obs ! j)" for i j
    using sorted_cache_nth [OF s, of i j] by (cases "i = j") auto
  have e: "b \<le> e" "e \<le> b + 1" "e < length obs" using b by (auto simp: bounds_def)
  consider "b = 0" "h < oid (obs ! 0)" | "\<not> (b = 0 \<and> h < oid (obs ! 0))" "e = length obs - 1" "oid (obs ! e) < h"
    | "\<not> (b = 0 \<and> h < oid (obs ! 0))" "\<not> (e = length obs - 1 \<and> oid (obs ! e) < h)" by blast
  then show ?thesis
  proof cases
    case 1
    then have "\<forall>i<length obs. h < oid (obs ! i)" using m [of 0] by (auto intro: less_le_trans)
    with 1 show ?thesis by (simp add: insert_position_def)
  next
    case 2
    have "oid (obs ! i) < h" if "i < length obs" for i
      by (rule le_less_trans [OF m [of i e] 2(3)]) (use e 2(2) that in simp_all)
    moreover have "insert_position obs h b e = length obs" using 2 b by (auto simp: insert_position_def bounds_def)
    ultimately show ?thesis by simp
  next
    case 3
    have lo: "oid (obs ! b) < h" using 3(1) b(1) ne(1) by (cases "b = 0") (auto simp: bounds_def)
    have hi: "h < oid (obs ! e)" using 3(2) b(1) ne(2) by (cases "e = length obs - 1") (auto simp: bounds_def)
    with lo e have "e = b + 1" by (cases "e = b") auto
    moreover have "\<forall>i\<le>b. oid (obs ! i) < h" using lo m [of _ b] e by (auto intro: le_less_trans)
    moreover have "\<forall>i<length obs. e \<le> i \<longrightarrow> h < oid (obs ! i)" using hi m [of e] by (auto intro: less_le_trans)
    moreover have "insert_position obs h b e = b + 1" using 3 by (auto simp: insert_position_def)
    ultimately show ?thesis using e by auto
  qed
qed

lemma sorted_cache_insert:
  assumes "sorted_cache obs" and "\<forall>i<k. i < length obs \<and> oid (obs ! i) < oid x" and "\<forall>i<length obs. k \<le> i \<longrightarrow> oid x < oid (obs ! i)"
  shows "sorted_cache (take k obs @ x # drop k obs)"
proof -
  have "\<forall>a\<in>set (take k obs). oid a < oid x" using assms(2) by (auto simp: in_set_conv_nth)
  moreover have "\<forall>a\<in>set (drop k obs). oid x < oid a" using assms(3) by (auto simp: in_set_conv_nth)
  moreover have "sorted_wrt (\<lambda>a b. oid a < oid b) (take k obs @ drop k obs)" using assms(1) by (simp add: sorted_cache_def)
  ultimately show ?thesis unfolding sorted_cache_def sorted_wrt_append by (auto intro: less_trans)
qed

lemma cache_abs_insert:
  assumes "h \<notin> oid ` set obs" and "oid x = h"
  shows "cache_abs (take k obs @ x # drop k obs) = (cache_abs obs)(h \<mapsto> x)"
proof -
  have "h \<notin> dom (cache_abs (take k obs))" using assms(1) by (auto dest: in_set_takeD)
  moreover have "cache_abs obs = cache_abs (drop k obs) ++ cache_abs (take k obs)"
    by (simp flip: cache_abs_append)
  ultimately show ?thesis using assms(2) by (simp add: cache_abs_append cache_abs_Cons map_add_upd_left flip: map_add_upd)
qed


lemma find_or_insert_found:
  assumes s: "sorted_cache obs" and h: "handle \<noteq> 0" and mem: "\<forall>n. can_alloc P n"
  shows "\<exists>obs' i. ptp_object_find_or_insert P obs handle = Some (obs', Some i) \<and> i < length obs' \<and> oid (obs' ! i) = handle \<and>
    sorted_cache obs' \<and> (if handle \<in> oid ` set obs then obs' = obs else
      i \<le> length obs \<and> obs' = take i obs @ new_object handle # drop i obs)"
proof (cases "obs = []")
  case True
  with h mem show ?thesis by (simp add: ptp_object_find_or_insert_def new_object_def sorted_cache_def)
next
  case False
  have fi: "ptp_object_find_or_insert P obs handle = (case search_loop obs handle 0 (length obs - 1) of
         Inl i \<Rightarrow> Some (obs, Some i)
       | Inr (b, e) \<Rightarrow>
           if oid (obs ! b) = handle then Some (obs, Some b)
           else if oid (obs ! e) = handle then Some (obs, Some e)
           else
             let k = insert_position obs handle b e in Some (take k obs @ new_object handle # drop k obs, Some k))"
    using False h mem by (simp add: ptp_object_find_or_insert_def Let_def split: sum.split)
  have "bounds obs handle 0 (length obs - 1)" using False by (simp add: bounds_def)
  note r = search_loop_result [OF this]
  show ?thesis
  proof (cases "search_loop obs handle 0 (length obs - 1)")
    case (Inl i)
    with r s show ?thesis by (auto simp: fi)
  next
    case (Inr be)
    then obtain b e where be: "search_loop obs handle 0 (length obs - 1) = Inr (b, e)" by (cases be) auto
    with r have bd: "bounds obs handle b e" "e - b \<le> 1" "b < length obs" "e < length obs" by (auto simp: bounds_def)
    show ?thesis
    proof (cases "oid (obs ! b) = handle \<or> oid (obs ! e) = handle")
      case True
      with bd be s show ?thesis by (auto simp: fi)
    next
      case False
      let ?k = "insert_position obs handle b e"
      note k = insert_position_splits [OF s bd(1,2)]
      have lt: "\<forall>i<?k. i < length obs \<and> oid (obs ! i) < handle" and gt: "\<forall>i<length obs. ?k \<le> i \<longrightarrow> handle < oid (obs ! i)"
        using k False by auto
      have kl: "?k \<le> length obs" using lt by (meson not_le_imp_less order.irrefl)
      have "oid (obs ! i) \<noteq> handle" if "i < length obs" for i
        using lt gt that by (cases "i < ?k") auto
      then have "handle \<notin> oid ` set obs" by (metis imageE in_set_conv_nth)
      moreover have "sorted_cache (take ?k obs @ new_object handle # drop ?k obs)"
        by (rule sorted_cache_insert [OF s]) (use lt gt in \<open>simp_all add: new_object_def\<close>)
      ultimately show ?thesis using False be kl by (simp add: fi Let_def nth_append new_object_def)
    qed
  qed
qed

text \<open>
  \<open>bsearch\<close> finds an element in an array that the comparison splits into those before, those that match and those behind.
\<close>

lemma bsearch_split:
  assumes "l \<le> a" "a \<le> b" "b \<le> u"
    and "\<forall>i. l \<le> i \<and> i < a \<longrightarrow> 0 < cmp key (xs ! i)" "\<forall>i. a \<le> i \<and> i < b \<longrightarrow> cmp key (xs ! i) = 0"
    and "\<forall>i. b \<le> i \<and> i < u \<longrightarrow> cmp key (xs ! i) < 0"
  shows "case bsearch cmp key xs l u of None \<Rightarrow> a = b | Some i \<Rightarrow> a \<le> i \<and> i < b"
  using assms
proof (induction cmp key xs l u rule: bsearch.induct)
  case (1 cmp key xs l u)
  let ?i = "(l + u) div 2"
  show ?case
  proof (cases "l < u")
    case True
    then have i: "l \<le> ?i" "?i < u" by auto
    consider "?i < a" | "a \<le> ?i" "?i < b" | "b \<le> ?i" by linarith
    then show ?thesis
    proof cases
      case 1
      then have c: "0 < cmp key (xs ! ?i)" using "1.prems"(4) i by blast
      have "case bsearch cmp key xs (?i + 1) u of None \<Rightarrow> a = b | Some i \<Rightarrow> a \<le> i \<and> i < b"
        by (rule "1.IH"(2) [OF True refl refl _ c]) (use c 1 "1.prems" i in auto)
      with True c show ?thesis by (subst bsearch.simps) (simp add: Let_def)
    next
      case 2
      then have "cmp key (xs ! ?i) = 0" using "1.prems"(5) by blast
      with True 2 show ?thesis by (subst bsearch.simps) (simp add: Let_def)
    next
      case 3
      then have c: "cmp key (xs ! ?i) < 0" using "1.prems"(6) i by blast
      have "case bsearch cmp key xs l ?i of None \<Rightarrow> a = b | Some i \<Rightarrow> a \<le> i \<and> i < b"
        by (rule "1.IH"(1) [OF True refl refl c]) (use 3 "1.prems" i in auto)
      with True c show ?thesis by (subst bsearch.simps) (simp add: Let_def)
    qed
  next
    case False
    with "1.prems" show ?thesis by (subst bsearch.simps) simp
  qed
qed

text \<open>The comparison is right for handles less than \<open>2 ^ 31\<close> apart.\<close>

definition near :: "PTPObject list \<Rightarrow> 32 word \<Rightarrow> bool" where
  "near obs h \<longleftrightarrow> (\<forall>ob\<in>set obs. \<bar>uint h - uint (oid ob)\<bar> < 2 ^ 31)"

lemma cmp_ob_near:
  assumes "\<bar>uint a - uint b\<bar> < 2 ^ 31"
  shows "cmp_ob a b = uint a - uint b"
proof -
  have "sint (word_of_int (uint a - uint b) :: 32 word) = signed_take_bit 31 (uint a - uint b)"
    unfolding sint_sbintrunc' by simp
  moreover have "a - b = word_of_int (uint a - uint b)" by simp
  ultimately have "cmp_ob a b = signed_take_bit 31 (uint a - uint b)" unfolding cmp_ob_def by metis
  also have "\<dots> = uint a - uint b" using assms by (intro signed_take_bit_int_eq_self) simp_all
  finally show ?thesis .
qed

lemma split_point:
  assumes "\<And>i j :: nat. i \<le> j \<Longrightarrow> j < n \<Longrightarrow> P j \<Longrightarrow> P i"
  obtains a where "a \<le> n" "\<And>i. i < n \<Longrightarrow> P i \<longleftrightarrow> i < a"
proof (cases "\<forall>i<n. P i")
  case True
  then show thesis using that [of n] by simp
next
  case False
  define a where "a = (LEAST i. \<not> P i)"
  from False have a: "\<not> P a" unfolding a_def by (metis LeastI)
  have "P i \<longleftrightarrow> i < a" if "i < n" for i
    using a assms [of a i] not_less_Least [of i "\<lambda>i. \<not> P i"] that unfolding a_def [symmetric] by (cases "i < a") auto
  moreover have "a \<le> n" using False unfolding a_def by (metis Least_le less_imp_le order_trans)
  ultimately show thesis using that by blast
qed

lemma object_find_near:
  assumes s: "sorted_cache obs" and n: "near obs h"
  shows "case ptp_object_find obs h of None \<Rightarrow> h \<notin> oid ` set obs | Some i \<Rightarrow> i < length obs \<and> oid (obs ! i) = h"
proof -
  have c: "cmp_ob h (oid (obs ! i)) = uint h - uint (oid (obs ! i))" if "i < length obs" for i
    by (rule cmp_ob_near) (use n that in \<open>simp add: near_def\<close>)
  have m: "i \<le> j \<Longrightarrow> j < length obs \<Longrightarrow> oid (obs ! i) \<le> oid (obs ! j)" for i j
    using sorted_cache_nth [OF s, of i j] by (cases "i = j") auto
  obtain a where a: "a \<le> length obs" and lt: "\<And>i. i < length obs \<Longrightarrow> oid (obs ! i) < h \<longleftrightarrow> i < a"
    by (rule split_point [of "length obs" "\<lambda>i. oid (obs ! i) < h"]) (auto dest: m intro: le_less_trans)
  obtain b where b: "b \<le> length obs" and le: "\<And>i. i < length obs \<Longrightarrow> oid (obs ! i) \<le> h \<longleftrightarrow> i < b"
    by (rule split_point [of "length obs" "\<lambda>i. oid (obs ! i) \<le> h"]) (auto dest: m intro: order_trans)
  have ab: "a \<le> b"
  proof (rule ccontr)
    assume "\<not> a \<le> b"
    then have "b < length obs" "b < a" using a by auto
    with lt [of b] le [of b] show False by simp
  qed
  have eq: "oid (obs ! i) = h \<longleftrightarrow> a \<le> i \<and> i < b" if "i < length obs" for i
    using lt [OF that] le [OF that] by (auto simp: not_less)
  have "case bsearch (\<lambda>h ob. cmp_ob h (oid ob)) h obs 0 (length obs) of None \<Rightarrow> a = b | Some i \<Rightarrow> a \<le> i \<and> i < b"
  proof (rule bsearch_split [OF _ ab b])
    show "\<forall>i. 0 \<le> i \<and> i < a \<longrightarrow> 0 < cmp_ob h (oid (obs ! i))" using lt c a by (simp add: word_less_def)
    show "\<forall>i. a \<le> i \<and> i < b \<longrightarrow> cmp_ob h (oid (obs ! i)) = 0" by (metis eq c b diff_self order_less_le_trans)
    show "\<forall>i. b \<le> i \<and> i < length obs \<longrightarrow> cmp_ob h (oid (obs ! i)) < 0" using le c by (force simp: word_le_def)
  qed simp
  moreover have "h \<notin> oid ` set obs" if "a = b" using eq that by (metis imageE in_set_conv_nth linorder_not_le)
  ultimately show ?thesis unfolding ptp_object_find_def using eq b by (auto split: option.splits)
qed


lemma find_or_insert_sorted:
  assumes "sorted_cache obs" and "0 \<notin> oid ` set obs" and "ptp_object_find_or_insert P obs h = Some (obs', r)"
  shows "sorted_cache obs' \<and> 0 \<notin> oid ` set obs'"
proof (cases "obs' = obs")
  case False
  let ?Q = "P\<lparr> can_alloc := \<lambda>_. True \<rparr>"
  have h: "h \<noteq> 0" and same: "ptp_object_find_or_insert ?Q obs h = Some (obs', r)"
    using assms(3) False by (auto simp: ptp_object_find_or_insert_def Let_def split: if_splits sum.splits prod.splits)
  from find_or_insert_found [OF assms(1) h, of ?Q] same False obtain i where
    "sorted_cache obs'" "obs' = take i obs @ new_object h # drop i obs" by (auto split: if_splits)
  moreover from this(2) have "set obs' = insert (new_object h) (set obs)"
    by (metis append_take_drop_id list.simps(15) set_append Un_insert_right)
  ultimately show ?thesis using h assms(2) by (auto simp: new_object_def)
qed (use assms in simp)

lemma sorted_cache_drop_one:
  assumes "sorted_cache obs"
  shows "sorted_cache (take i obs @ drop (i + 1) obs)"
proof -
  have "sorted_wrt (\<lambda>a b. oid a < oid b) (take i obs @ drop i obs)" using assms by (simp add: sorted_cache_def)
  moreover have "set (drop (i + 1) obs) \<subseteq> set (drop i obs)" by (rule set_drop_subset_set_drop) simp
  moreover have "sorted_wrt (\<lambda>a b. oid a < oid b) (drop (i + 1) obs)"
    using assms unfolding sorted_cache_def by (rule sorted_wrt_drop)
  ultimately show ?thesis unfolding sorted_cache_def sorted_wrt_append by blast
qed

lemma sorted_cache_oids: "sorted_cache obs \<longleftrightarrow> sorted_wrt (<) (map oid obs)"
  by (simp add: sorted_cache_def sorted_wrt_map)

lemma sorted_cache_update:
  assumes "sorted_cache obs" and "oid ob = oid (obs ! i)"
  shows "sorted_cache (obs[i := ob])"
proof -
  have "map oid (obs[i := ob]) = map oid obs"
    by (cases "i < length obs") (simp_all add: map_update assms(2) list_update_same_conv, simp flip: map_update)
  with assms(1) show ?thesis by (simp add: sorted_cache_oids)
qed

lemma remove_cases:
  "ptp_remove_object_from_cache obs h = obs \<or> (\<exists>i. ptp_remove_object_from_cache obs h = take i obs @ drop (i + 1) obs)"
  by (auto simp: ptp_remove_object_from_cache_def split: option.splits)

text \<open>C25: Finding or inserting an object refines a map from handles: an object that is there is found and nothing changes, otherwise an empty one with the handle
  is added; either way the index that is returned is that of the handle. The search ends because the distance of its bounds shrinks.\<close>
theorem find_or_insert_refines:
  assumes "sorted_cache obs" and "handle \<noteq> 0" and "\<forall>n. can_alloc P n"
  shows "\<exists>obs' i. ptp_object_find_or_insert P obs handle = Some (obs', Some i) \<and> sorted_cache obs' \<and>
    cache_abs obs' = (if handle \<in> dom (cache_abs obs) then cache_abs obs else (cache_abs obs)(handle \<mapsto> new_object handle)) \<and>
    i < length obs' \<and> cache_abs obs' handle = Some (obs' ! i)"
proof -
  from find_or_insert_found [OF assms] obtain obs' i where
    f: "ptp_object_find_or_insert P obs handle = Some (obs', Some i)" and i: "i < length obs'" "oid (obs' ! i) = handle" and
    s: "sorted_cache obs'" and o: "if handle \<in> oid ` set obs then obs' = obs else
      i \<le> length obs \<and> obs' = take i obs @ new_object handle # drop i obs" by blast
  have "cache_abs obs' = (if handle \<in> dom (cache_abs obs) then cache_abs obs else (cache_abs obs)(handle \<mapsto> new_object handle))"
    using o cache_abs_insert [of handle obs "new_object handle" i] by (auto simp: new_object_def)
  with f s i cache_abs_nth [OF s i(1)] show ?thesis by auto
qed

text \<open>C26: In a sorted cache whose handles are less than \<open>2 ^ 31\<close> apart from the one that is looked for, \<open>ptp_object_find\<close> is the lookup in the map and
  \<open>ptp_remove_object_from_cache\<close> takes the handle out of it.\<close>
theorem object_find_lookup:
  assumes "sorted_cache obs" and "near obs h"
  shows "map_option (nth obs) (ptp_object_find obs h) = cache_abs obs h \<and>
    cache_abs (ptp_remove_object_from_cache obs h) = (cache_abs obs)(h := None)"
proof (cases "ptp_object_find obs h")
  case None
  then have "h \<notin> dom (cache_abs obs)" using object_find_near [OF assms] by simp
  then have "cache_abs obs h = None" by blast
  then show ?thesis using None by (auto simp: ptp_remove_object_from_cache_def)
next
  case (Some i)
  then have i: "i < length obs" "oid (obs ! i) = h" using object_find_near [OF assms] by simp_all
  have "obs = take i obs @ obs ! i # drop (i + 1) obs" using i(1) by (simp add: id_take_nth_drop)
  moreover have d: "h \<notin> oid ` set (take i obs @ drop (i + 1) obs)"
    using sorted_cache_distinct [OF assms(1)] i by (subst (asm) calculation) auto
  ultimately have "cache_abs obs = (cache_abs (take i obs @ drop (i + 1) obs))(h \<mapsto> obs ! i)"
    using cache_abs_insert [of h "take i obs @ drop (i + 1) obs" "obs ! i" i] i by simp
  moreover have "cache_abs (take i obs @ drop (i + 1) obs) h = None" using d by (metis cache_abs_dom domIff)
  ultimately show ?thesis using Some cache_abs_nth [OF assms(1) i(1)] i by (auto simp: ptp_remove_object_from_cache_def)
qed

text \<open>With two objects whose handles are more than \<open>2 ^ 31\<close> apart, as Canon's cameras number them, \<open>ptp_object_find\<close> misses the first one although
  \<open>ptp_object_find_or_insert\<close> finds it: it cannot be removed from the cache.\<close>
lemma object_find_misses:
  assumes "uint (oid y) - uint (oid x) > 2 ^ 31" and "oid x \<noteq> 0"
  shows "sorted_cache [x, y] \<and> ptp_object_find [x, y] (oid x) = None \<and>
    ptp_object_find_or_insert P [x, y] (oid x) = Some ([x, y], Some 0) \<and> ptp_remove_object_from_cache [x, y] (oid x) = [x, y]"
proof -
  let ?k = "uint (oid x) - uint (oid y) + 4294967296"
  have k: "0 < ?k" "?k < 2147483648"
    using assms(1) uint_bounded [of "oid y"] by (simp_all, insert uint_ge_0 [of "oid x"], linarith)
  have w: "word_of_int ?k = oid x - oid y" by simp
  have "signed_take_bit 31 ?k = ?k" using k by (intro signed_take_bit_int_eq_self) simp_all
  then have "sint (word_of_int ?k :: 32 word) = ?k" unfolding sint_sbintrunc' by simp
  then have c: "cmp_ob (oid x) (oid y) > 0" using k(1) unfolding w cmp_ob_def by linarith
  have f: "ptp_object_find [x, y] (oid x) = None"
    unfolding ptp_object_find_def using c by (simp add: bsearch.simps [of _ _ _ 0 "Suc (Suc 0)"] bsearch.simps [of _ _ _ "Suc (Suc 0)" "Suc (Suc 0)"])
  have "search_loop [x, y] (oid x) 0 1 = Inl 0"
    by (subst search_loop.simps) simp
  then show ?thesis using f assms
    by (simp add: sorted_cache_def word_less_def ptp_object_find_or_insert_def ptp_remove_object_from_cache_def)
qed


theorem find_or_insert_refines_witness:
  "\<forall>P. \<exists>obs' i. ptp_object_find_or_insert (P\<lparr> can_alloc := \<lambda>_. True \<rparr>) [new_object 3, new_object 9] 7 = Some (obs', Some i) \<and>
     cache_abs obs' = (cache_abs [new_object 3, new_object 9])(7 \<mapsto> new_object 7)"
proof
  fix P
  have "sorted_cache [new_object 3, new_object 9]" by (simp add: sorted_cache_def new_object_def)
  from find_or_insert_refines [OF this, of 7 "P\<lparr> can_alloc := \<lambda>_. True \<rparr>"]
  show "\<exists>obs' i. ptp_object_find_or_insert (P\<lparr> can_alloc := \<lambda>_. True \<rparr>) [new_object 3, new_object 9] 7 = Some (obs', Some i) \<and>
     cache_abs obs' = (cache_abs [new_object 3, new_object 9])(7 \<mapsto> new_object 7)"
    by (auto simp: new_object_def)
qed

theorem object_find_lookup_witness:
  "map_option (nth [new_object 3, new_object 9]) (ptp_object_find [new_object 3, new_object 9] 9) = Some (new_object 9)"
proof -
  have "sorted_cache [new_object 3, new_object 9]" "near [new_object 3, new_object 9] 9"
    by (simp_all add: sorted_cache_def near_def new_object_def)
  from object_find_lookup [OF this] show ?thesis by (simp add: cache_abs_def new_object_def)
qed

end
