(* ===== verification/Ptp_Session.thy ===== *)
theory Ptp_Session
  imports Ptp_Event Ptp_Objects
begin

text \<open>
  The state of a connection (\<open>PTPParams\<close> of camlibs/ptp2/ptp.h), the data handlers of ptp.c, through which a
  transaction takes or delivers its data, and the table of functions of a transport. As in the theories
  before, \<open>None\<close> is what C leaves undefined; a loop that never ends is \<open>None\<close> as well.
\<close>

section \<open>Codes\<close>

definition PTP_RC_OK :: "16 word" where "PTP_RC_OK = 0x2001"
definition PTP_RC_GeneralError :: "16 word" where "PTP_RC_GeneralError = 0x2002"
definition PTP_RC_InvalidParameter :: "16 word" where "PTP_RC_InvalidParameter = 0x201D"
definition PTP_ERROR_IO :: "16 word" where "PTP_ERROR_IO = 0x02FF"
definition PTP_ERROR_DATA_EXPECTED :: "16 word" where "PTP_ERROR_DATA_EXPECTED = 0x02FE"
definition PTP_ERROR_RESP_EXPECTED :: "16 word" where "PTP_ERROR_RESP_EXPECTED = 0x02FD"
definition PTP_ERROR_BADPARAM :: "16 word" where "PTP_ERROR_BADPARAM = 0x02FC"
definition PTP_ERROR_CANCEL :: "16 word" where "PTP_ERROR_CANCEL = 0x02FB"
definition PTP_ERROR_TIMEOUT :: "16 word" where "PTP_ERROR_TIMEOUT = 0x02FA"

lemmas rc_defs = PTP_RC_OK_def PTP_RC_GeneralError_def PTP_RC_InvalidParameter_def PTP_ERROR_IO_def PTP_ERROR_DATA_EXPECTED_def
  PTP_ERROR_RESP_EXPECTED_def PTP_ERROR_BADPARAM_def PTP_ERROR_CANCEL_def PTP_ERROR_TIMEOUT_def

text \<open>The codes are pairwise different.\<close>

lemma rc_distinct [simp]:
  "PTP_RC_OK \<noteq> PTP_RC_GeneralError" "PTP_RC_GeneralError \<noteq> PTP_RC_OK" "PTP_RC_OK \<noteq> PTP_ERROR_IO" "PTP_ERROR_IO \<noteq> PTP_RC_OK"
  "PTP_RC_OK \<noteq> PTP_ERROR_CANCEL" "PTP_ERROR_CANCEL \<noteq> PTP_RC_OK" "PTP_RC_OK \<noteq> PTP_ERROR_RESP_EXPECTED"
  "PTP_ERROR_RESP_EXPECTED \<noteq> PTP_RC_OK" "PTP_RC_OK \<noteq> PTP_ERROR_DATA_EXPECTED" "PTP_ERROR_DATA_EXPECTED \<noteq> PTP_RC_OK"
  "PTP_RC_OK \<noteq> PTP_ERROR_BADPARAM" "PTP_ERROR_BADPARAM \<noteq> PTP_RC_OK" "PTP_ERROR_IO \<noteq> PTP_ERROR_CANCEL" "PTP_ERROR_CANCEL \<noteq> PTP_ERROR_IO"
  by (simp_all add: rc_defs)

definition PTP_VENDOR_NIKON :: "32 word" where "PTP_VENDOR_NIKON = 0x0000000A"
definition PTP_VENDOR_CANON :: "32 word" where "PTP_VENDOR_CANON = 0x0000000B"

section \<open>The connection\<close>

text \<open>
  \<open>pack\<close> is the part that ptp-pack.c reads. The arrays of a profile have 17, 33, 16, 16 and 64 bytes. \<open>response_packet\<close> holds \<open>response_packet_size\<close> bytes and is empty
  for NULL; the two sockets, the identity and the name of the camera are those of a connection over the network; \<open>world\<close> is the environment: the port, the device behind it, and the files of the host.
\<close>

record PTPCanon_Property =
  canon_proptype :: "32 word"
  canon_dpd :: PTPDevicePropDesc

record PTPNIKONWifiProfile =
  profile_name :: "octet list"
  device_type :: octet
  icon_type :: octet
  essid :: "octet list"
  wifi_id :: octet
  wifi_valid :: octet
  display_order :: octet
  creation_date :: "octet list"
  lastusage_date :: "octet list"
  ip_address :: "32 word"
  subnet_mask :: octet
  gateway_address :: "32 word"
  address_mode :: octet
  access_mode :: octet
  wifi_channel :: octet
  authentification :: octet
  encryption :: octet
  wifi_key :: "octet list"
  key_nr :: octet

record 'w ptp =
  pack :: PTPParams
  device_flags :: "32 word"
  maxpacketsize :: "16 word"
  transaction_id :: "32 word"
  session_id :: "32 word"
  split_header_data :: bool
  response_packet :: "octet list"
  objects :: "PTPObject list"
  deviceinfo :: PTPDeviceInfo
  events :: "PTPContainer list"
  canon_props :: "PTPCanon_Property list"
  canon_event_mode :: int
  wifi_profiles_version :: octet
  wifi_profiles :: "PTPNIKONWifiProfile list option"
  cmdfd :: int
  evtfd :: int
  cameraguid :: "octet list"
  eventpipeid :: "32 word"
  cameraname :: "octet list option"
  world :: 'w

section \<open>Data handlers\<close>

text \<open>
  A handler is memory or a file descriptor. \<open>size\<close> is what the code believes of the memory: the data behind it may
  be shorter. Sums of \<open>unsigned long\<close> are taken modulo \<open>2 ^ 64\<close>.
\<close>

record PTPMemHandlerPrivate =
  mem_data :: "octet list option"
  mem_size :: nat
  curoff :: nat

datatype PTPDataHandler = Mem PTPMemHandlerPrivate | Fd int

text \<open>The system calls \<open>read\<close> and \<open>write\<close>.\<close>

record 'w files =
  sys_read :: "int \<Rightarrow> nat \<Rightarrow> 'w \<Rightarrow> (int + octet list) \<times> 'w"
  sys_write :: "int \<Rightarrow> octet list \<Rightarrow> 'w \<Rightarrow> (int + nat) \<times> 'w"

definition ulong :: "nat \<Rightarrow> nat" where "ulong n = n mod 2 ^ 64"

text \<open>The result code, the bytes (as many as are stored through \<open>gotlen\<close>), and the private data.\<close>

definition memory_getfunc :: "PTPMemHandlerPrivate \<Rightarrow> nat \<Rightarrow> (16 word \<times> octet list \<times> PTPMemHandlerPrivate) option" where
  "memory_getfunc priv wantlen =
    (let tocopy = (if ulong (curoff priv + wantlen) > mem_size priv then ulong (mem_size priv + 2 ^ 64 - curoff priv) else wantlen) in
     do { bs \<leftarrow> (case mem_data priv of None \<Rightarrow> if tocopy = 0 then Some [] else None | Some d \<Rightarrow> peek d (curoff priv) tocopy);
          Some (PTP_RC_OK, bs, priv\<lparr> curoff := ulong (curoff priv + tocopy) \<rparr>) })"

text \<open>
  \<open>data\<close> is the buffer from which \<open>sendlen\<close> bytes are to be taken. \<open>realloc\<close> keeps the bytes and adds others that
  are not initialised; when it fails the pointer to the old memory is overwritten. The result holds the number
  stored through \<open>putlen\<close>; it is \<open>None\<close> where nothing is stored.
\<close>

definition memory_putfunc :: "PTPParams \<Rightarrow> PTPMemHandlerPrivate \<Rightarrow> nat \<Rightarrow> octet list \<Rightarrow>
    (16 word \<times> nat option \<times> PTPMemHandlerPrivate) option" where
  "memory_putfunc P priv sendlen data =
    (let need = ulong (curoff priv + sendlen);
         old = (case mem_data priv of None \<Rightarrow> [] | Some d \<Rightarrow> d) in
     if need > mem_size priv \<and> \<not> can_alloc P need then Some (PTP_RC_GeneralError, None, priv\<lparr> mem_data := None \<rparr>)
     else
       let priv = (if need > mem_size priv
                   then priv\<lparr> mem_data := Some (take need old @ map (uninit P) [length old..<need]), mem_size := need \<rparr> else priv) in
       do { bs \<leftarrow> peek data 0 sendlen;
            priv \<leftarrow> (case mem_data priv of
               None \<Rightarrow> if sendlen = 0 then Some priv else None
             | Some d \<Rightarrow> do { d \<leftarrow> poke d (curoff priv) bs; Some (priv\<lparr> mem_data := Some d \<rparr>) });
            Some (PTP_RC_OK, Some sendlen, priv\<lparr> curoff := need \<rparr>) })"

definition fd_getfunc :: "'w files \<Rightarrow> int \<Rightarrow> nat \<Rightarrow> 'w \<Rightarrow> (16 word \<times> octet list) \<times> 'w" where
  "fd_getfunc F fd wantlen w =
    (case sys_read F fd wantlen w of
       (Inl e, w) \<Rightarrow> ((PTP_RC_GeneralError, []), w)
     | (Inr bs, w) \<Rightarrow> ((PTP_RC_OK, take wantlen bs), w))"

definition fd_putfunc :: "'w files \<Rightarrow> int \<Rightarrow> nat \<Rightarrow> octet list \<Rightarrow> 'w \<Rightarrow> ((16 word \<times> nat option) \<times> 'w) option" where
  "fd_putfunc F fd sendlen data w =
    do { bs \<leftarrow> peek data 0 sendlen;
         Some (case sys_write F fd bs w of
                 (Inl e, w) \<Rightarrow> ((PTP_RC_GeneralError, None), w)
               | (Inr n, w) \<Rightarrow> ((PTP_RC_OK, Some n), w)) }"

fun getfunc :: "'w files \<Rightarrow> PTPDataHandler \<Rightarrow> nat \<Rightarrow> 'w ptp \<Rightarrow> (16 word \<times> octet list \<times> PTPDataHandler \<times> 'w ptp) option" where
  "getfunc F (Mem priv) wantlen s =
    do { (ret, bs, priv) \<leftarrow> memory_getfunc priv wantlen; Some (ret, bs, Mem priv, s) }"
| "getfunc F (Fd fd) wantlen s =
    (case fd_getfunc F fd wantlen (world s) of ((ret, bs), w) \<Rightarrow> Some (ret, bs, Fd fd, s\<lparr> world := w \<rparr>))"

fun putfunc :: "'w files \<Rightarrow> PTPDataHandler \<Rightarrow> nat \<Rightarrow> octet list \<Rightarrow> 'w ptp \<Rightarrow> (16 word \<times> nat option \<times> PTPDataHandler \<times> 'w ptp) option" where
  "putfunc F (Mem priv) sendlen data s =
    do { (ret, n, priv) \<leftarrow> memory_putfunc (pack s) priv sendlen data; Some (ret, n, Mem priv, s) }"
| "putfunc F (Fd fd) sendlen data s =
    do { ((ret, n), w) \<leftarrow> fd_putfunc F fd sendlen data (world s); Some (ret, n, Fd fd, s\<lparr> world := w \<rparr>) }"

text \<open>The handlers for one transaction; the functions fail where the private data cannot be allocated.\<close>

definition ptp_init_recv_memory_handler :: "PTPParams \<Rightarrow> PTPDataHandler option" where
  "ptp_init_recv_memory_handler P =
    (if can_alloc P 24 then Some (Mem \<lparr> mem_data = None, mem_size = 0, curoff = 0 \<rparr>) else None)"

definition ptp_init_send_memory_handler :: "PTPParams \<Rightarrow> octet list option \<Rightarrow> nat \<Rightarrow> PTPDataHandler option" where
  "ptp_init_send_memory_handler P data len =
    (if can_alloc P 24 then Some (Mem \<lparr> mem_data = data, mem_size = len, curoff = 0 \<rparr>) else None)"

definition ptp_init_fd_handler :: "PTPParams \<Rightarrow> int \<Rightarrow> PTPDataHandler option" where
  "ptp_init_fd_handler P fd = (if can_alloc P 4 then Some (Fd fd) else None)"

text \<open>What \<open>ptp_exit_recv_memory_handler\<close> hands over: the data and its size.\<close>

fun ptp_exit_recv_memory_handler :: "PTPDataHandler \<Rightarrow> (octet list option \<times> nat) option" where
  "ptp_exit_recv_memory_handler (Mem priv) = Some (mem_data priv, mem_size priv)"
| "ptp_exit_recv_memory_handler (Fd fd) = None"

section \<open>Transports\<close>

text \<open>
  The function pointers \<open>sendreq_func\<close> to \<open>cancelreq_func\<close>. A transport may change the connection and the
  handler; \<open>getresp_func\<close> fills the container. Where it fails, the container keeps what had been stored.
\<close>

record 'w transport =
  sendreq_func :: "'w ptp \<Rightarrow> PTPContainer \<Rightarrow> (16 word \<times> 'w ptp) option"
  senddata_func :: "'w ptp \<Rightarrow> PTPContainer \<Rightarrow> nat \<Rightarrow> PTPDataHandler \<Rightarrow> (16 word \<times> PTPDataHandler \<times> 'w ptp) option"
  getdata_func :: "'w ptp \<Rightarrow> PTPContainer \<Rightarrow> PTPDataHandler \<Rightarrow> (16 word \<times> PTPDataHandler \<times> 'w ptp) option"
  getresp_func :: "'w ptp \<Rightarrow> PTPContainer \<Rightarrow> (16 word \<times> PTPContainer \<times> 'w ptp) option"
  event_check :: "'w ptp \<Rightarrow> PTPContainer option \<Rightarrow> (16 word \<times> PTPContainer option \<times> 'w ptp) option"
  event_wait :: "'w ptp \<Rightarrow> PTPContainer option \<Rightarrow> (16 word \<times> PTPContainer option \<times> 'w ptp) option"
  cancelreq_func :: "'w ptp \<Rightarrow> 32 word \<Rightarrow> (16 word \<times> 'w ptp) option"

end
