(* ===== verification/Ptp_Usb.thy ===== *)
theory Ptp_Usb
  imports Ptp_Session
begin

text \<open>
  camlibs/ptp2/usb.c: PTP over the bulk and interrupt endpoints of USB. A container is a header of 12 bytes (length,
  type, code, transaction) and a payload. The port library is a table of functions on the environment: reads give
  an error code or bytes, at most as many as are asked for. Progress messages are left out.
\<close>

section \<open>The port\<close>

record 'w port =
  port_write :: "octet list \<Rightarrow> 'w \<Rightarrow> (int + nat) \<times> 'w"
  port_read :: "nat \<Rightarrow> 'w \<Rightarrow> (int + octet list) \<times> 'w"
  port_check_int :: "nat \<Rightarrow> 'w \<Rightarrow> (int + octet list) \<times> 'w"
  port_clear_halt :: "'w \<Rightarrow> 'w"
  port_get_timeout :: "'w \<Rightarrow> int \<times> 'w"
  port_set_timeout :: "int \<Rightarrow> 'w \<Rightarrow> 'w"
  port_msg_class_read :: "int \<Rightarrow> nat \<Rightarrow> 'w \<Rightarrow> (int + octet list) \<times> 'w"
  port_msg_class_write :: "int \<Rightarrow> octet list \<Rightarrow> 'w \<Rightarrow> (int + unit) \<times> 'w"
  context_cancel :: "'w \<Rightarrow> bool \<times> 'w"

definition on_world :: "('w \<Rightarrow> 'a \<times> 'w) \<Rightarrow> 'w ptp \<Rightarrow> 'a \<times> 'w ptp" where
  "on_world f s = (case f (world s) of (a, w) \<Rightarrow> (a, s\<lparr> world := w \<rparr>))"

definition gp_port_read :: "'w port \<Rightarrow> nat \<Rightarrow> 'w ptp \<Rightarrow> (int + octet list) \<times> 'w ptp" where
  "gp_port_read D n s = (case on_world (port_read D n) s of (r, s) \<Rightarrow> (map_sum id (take n) r, s))"

definition gp_port_check_int :: "'w port \<Rightarrow> nat \<Rightarrow> 'w ptp \<Rightarrow> (int + octet list) \<times> 'w ptp" where
  "gp_port_check_int D n s = (case on_world (port_check_int D n) s of (r, s) \<Rightarrow> (map_sum id (take n) r, s))"

definition gp_port_write :: "'w port \<Rightarrow> octet list \<Rightarrow> 'w ptp \<Rightarrow> (int + nat) \<times> 'w ptp" where
  "gp_port_write D bs s = (case on_world (port_write D bs) s of (r, s) \<Rightarrow> (map_sum id (min (length bs)) r, s))"

definition usb_clear_halt :: "'w port \<Rightarrow> 'w ptp \<Rightarrow> 'w ptp" where
  "usb_clear_halt D s = s\<lparr> world := port_clear_halt D (world s) \<rparr>"

definition set_timeout :: "'w port \<Rightarrow> int \<Rightarrow> 'w ptp \<Rightarrow> 'w ptp" where
  "set_timeout D t s = s\<lparr> world := port_set_timeout D t (world s) \<rparr>"

definition IO_READ :: int where "IO_READ = -34"
definition IO_TIMEOUT :: int where "IO_TIMEOUT = -10"

section \<open>Containers\<close>

abbreviation (input) PTP_USB_BULK_HDR_LEN :: nat where "PTP_USB_BULK_HDR_LEN \<equiv> 12"

definition PTP_USB_BULK_PACKET_LEN :: nat where "PTP_USB_BULK_PACKET_LEN = 1024"
definition PTP_USB_BULK_PAYLOAD_LEN_WRITE :: nat where "PTP_USB_BULK_PAYLOAD_LEN_WRITE = PTP_USB_BULK_PACKET_LEN - PTP_USB_BULK_HDR_LEN"
definition PTP_USB_BULK_HS_MAX_PACKET_LEN_READ :: nat where "PTP_USB_BULK_HS_MAX_PACKET_LEN_READ = 512"
definition READLEN :: nat where "READLEN = 64 * 1024"

definition PTP_USB_CONTAINER_COMMAND :: "16 word" where "PTP_USB_CONTAINER_COMMAND = 1"
definition PTP_USB_CONTAINER_DATA :: "16 word" where "PTP_USB_CONTAINER_DATA = 2"
definition PTP_USB_CONTAINER_RESPONSE :: "16 word" where "PTP_USB_CONTAINER_RESPONSE = 3"

definition DEVICE_FLAG_IGNORE_HEADER_ERRORS :: "32 word" where "DEVICE_FLAG_IGNORE_HEADER_ERRORS = 0x00000080"

definition MTP_ZEN_BROKEN_HEADER :: "'w ptp \<Rightarrow> bool" where
  "MTP_ZEN_BROKEN_HEADER s \<longleftrightarrow> device_flags s AND DEVICE_FLAG_IGNORE_HEADER_ERRORS \<noteq> 0"

definition usb_header :: "PTPParams \<Rightarrow> 32 word \<Rightarrow> 16 word \<Rightarrow> 16 word \<Rightarrow> 32 word \<Rightarrow> octet list" where
  "usb_header P len type code trans_id = htod32ap P len @ htod16ap P type @ htod16ap P code @ htod32ap P trans_id"

section \<open>Sending\<close>

text \<open>The size of the request is computed from \<open>Nparam\<close>; with more than five parameters bytes behind them would be sent.\<close>

definition ptp_usb_sendreq :: "'w port \<Rightarrow> 'w ptp \<Rightarrow> PTPContainer \<Rightarrow> (16 word \<times> 'w ptp) option" where
  "ptp_usb_sendreq D s req =
    (let P = pack s; n = unat (Nparam req); towrite = PTP_USB_BULK_HDR_LEN + 4 * n;
         usbreq = usb_header P (of_nat towrite) PTP_USB_CONTAINER_COMMAND (Code req) (Transaction_ID req) @
           htod32ap P (Param1 req) @ htod32ap P (Param2 req) @ htod32ap P (Param3 req) @ htod32ap P (Param4 req) @ htod32ap P (Param5 req)
     in if n > 5 then None
        else let (res, s) = gp_port_write D (take towrite usbreq) s in
             Some (if res \<noteq> Inr towrite then PTP_ERROR_IO else PTP_RC_OK, s))"

text \<open>
  The loop of \<open>ptp_usb_senddata\<close> behind the first packet, with the bytes that are left and that were written. It does not
  test that anything was written, so it can run forever.
\<close>

partial_function (option) send_loop :: "'w files \<Rightarrow> 'w port \<Rightarrow> nat \<Rightarrow> nat \<Rightarrow> PTPDataHandler \<Rightarrow> 'w ptp \<Rightarrow>
    (16 word \<times> nat \<times> PTPDataHandler \<times> 'w ptp) option" where
  "send_loop F D left written handler s =
    (if left = 0 then Some (PTP_RC_OK, written, handler, s)
     else do {
       (ret, bytes, handler, s) \<leftarrow> getfunc F handler (min 4096 left) s;
       if ret \<noteq> PTP_RC_OK then Some (ret, written, handler, s)
       else case gp_port_write D bytes s of
              (Inl e, s) \<Rightarrow> Some (PTP_ERROR_IO, written, handler, s)
            | (Inr res, s) \<Rightarrow> send_loop F D (left - res) (written + res) handler s })"

text \<open>The label \<open>finalize\<close>: a packet of length zero ends data that fill their last packet.\<close>

definition send_finalize :: "'w port \<Rightarrow> 16 word \<Rightarrow> nat \<Rightarrow> PTPDataHandler \<Rightarrow> 'w ptp \<Rightarrow> (16 word \<times> PTPDataHandler \<times> 'w ptp) option" where
  "send_finalize D ret written handler s =
    (if ret = PTP_RC_OK \<and> maxpacketsize s = 0 then None
     else
       let s = (if ret = PTP_RC_OK \<and> written mod unat (maxpacketsize s) = 0 then snd (gp_port_write D [] s) else s)
       in Some (if ret \<noteq> PTP_RC_OK \<and> ret \<noteq> PTP_ERROR_CANCEL then PTP_ERROR_IO else ret, handler, s))"

definition ptp_usb_senddata :: "'w files \<Rightarrow> 'w port \<Rightarrow> 'w ptp \<Rightarrow> PTPContainer \<Rightarrow> nat \<Rightarrow> PTPDataHandler \<Rightarrow>
    (16 word \<times> PTPDataHandler \<times> 'w ptp) option" where
  "ptp_usb_senddata F D s ptp sz handler =
    (let header = usb_header (pack s) (of_nat (PTP_USB_BULK_HDR_LEN + sz)) PTP_USB_CONTAINER_DATA (Code ptp) (Transaction_ID ptp);
         datawlen = (if split_header_data s then 0 else min sz PTP_USB_BULK_PAYLOAD_LEN_WRITE)
     in do {
       (ret, first, handler, s) \<leftarrow>
         (if split_header_data s then Some (PTP_RC_OK, [], handler, s) else getfunc F handler datawlen s);
       if ret \<noteq> PTP_RC_OK then Some (ret, handler, s)
       else if length first \<noteq> datawlen then Some (PTP_RC_GeneralError, handler, s)
       else
         let wlen = PTP_USB_BULK_HDR_LEN + datawlen; (res, s) = gp_port_write D (header @ first) s in
         if res \<noteq> Inr wlen then Some (PTP_ERROR_IO, handler, s)
         else if sz \<le> datawlen then send_finalize D PTP_RC_OK wlen handler s
         else if \<not> can_alloc (pack s) 4096 then Some (PTP_RC_GeneralError, handler, s)
         else do {
           (ret, written, handler, s) \<leftarrow> send_loop F D (sz - datawlen) 0 handler s;
           send_finalize D ret written handler s } })"

section \<open>Receiving\<close>

text \<open>Reading a packet from the endpoint, with the number of retries that are left.\<close>

fun read_packet :: "'w port \<Rightarrow> nat \<Rightarrow> 'w ptp \<Rightarrow> octet list option \<times> 'w ptp" where
  "read_packet D retries s =
    (let (result, s) = gp_port_read D PTP_USB_BULK_PACKET_LEN s;
         (result, s) = (if result = Inr [] then gp_port_read D PTP_USB_BULK_PACKET_LEN s else (result, s))
     in case result of
          Inr bs \<Rightarrow> (if bs \<noteq> [] then Some bs else None, s)
        | Inl e \<Rightarrow>
            if e = IO_READ then
              let s = usb_clear_halt D s in
              (case retries of 0 \<Rightarrow> (None, s) | Suc r \<Rightarrow> read_packet D r s)
            else (None, s))"

declare read_packet.simps [simp del]

text \<open>
  The code, the container (1024 bytes, overwritten at its start by what was read) and \<open>rlen\<close>. A packet that an earlier
  transfer brought along is used first.
\<close>

definition ptp_usb_getpacket :: "'w port \<Rightarrow> octet list \<Rightarrow> 'w ptp \<Rightarrow> (16 word \<times> octet list \<times> nat \<times> 'w ptp) option" where
  "ptp_usb_getpacket D packet s =
    (if response_packet s \<noteq> [] then
       do { packet \<leftarrow> poke packet 0 (response_packet s);
            Some (PTP_RC_OK, packet, length (response_packet s), s\<lparr> response_packet := [] \<rparr>) }
     else case read_packet D 1 s of
            (None, s) \<Rightarrow> Some (PTP_ERROR_IO, packet, 0, s)
          | (Some bs, s) \<Rightarrow> do { packet \<leftarrow> poke packet 0 bs; Some (PTP_RC_OK, packet, length bs, s) })"

text \<open>Data of unknown length: until a short packet. The results of the handler are ignored.\<close>

partial_function (option) stream_loop :: "'w files \<Rightarrow> 'w port \<Rightarrow> PTPDataHandler \<Rightarrow> 'w ptp \<Rightarrow>
    (16 word \<times> PTPDataHandler \<times> 'w ptp) option" where
  "stream_loop F D handler s =
    (case gp_port_read D PTP_USB_BULK_HS_MAX_PACKET_LEN_READ s of
       (Inl e, s) \<Rightarrow> Some (PTP_ERROR_IO, handler, s)
     | (Inr bs, s) \<Rightarrow> do {
         (ret, n, handler, s) \<leftarrow> putfunc F handler (length bs) bs s;
         if length bs < PTP_USB_BULK_HS_MAX_PACKET_LEN_READ then Some (PTP_RC_OK, handler, s)
         else stream_loop F D handler s })"

definition read_size :: "16 word \<Rightarrow> nat \<Rightarrow> nat option" where
  "read_size maxp left =
    (if left > READLEN then Some READLEN
     else if left > unat maxp then (if maxp = 0 then None else Some (left - left mod unat maxp))
     else Some left)"

lemma read_size_bounds: "read_size maxp left = Some n \<Longrightarrow> 0 < left \<Longrightarrow> 0 < n \<and> n \<le> left"
  using order.strict_trans [OF mod_less_divisor [of "unat maxp" left], of left] unat_gt_0 [of maxp]
  by (auto simp: read_size_def READLEN_def split: if_splits)

text \<open>
  The loop that reads the rest of the data: the code, \<open>curread\<close>, and whether the last read failed with \<open>GP_ERROR_IO_READ\<close>.
\<close>

function recv_loop :: "'w files \<Rightarrow> 'w port \<Rightarrow> nat \<Rightarrow> nat \<Rightarrow> PTPDataHandler \<Rightarrow> 'w ptp \<Rightarrow>
    (16 word \<times> nat \<times> bool \<times> PTPDataHandler \<times> 'w ptp) option" where
  "recv_loop F D left curread handler s =
    (if left = 0 then Some (PTP_RC_OK, curread, False, handler, s)
     else case read_size (maxpacketsize s) left of None \<Rightarrow> None | Some toread \<Rightarrow>
       (case gp_port_read D toread s of
          (Inl e, s) \<Rightarrow> Some (PTP_ERROR_IO, curread, e = IO_READ, handler, s)
        | (Inr bs, s) \<Rightarrow>
            if bs = [] then Some (PTP_ERROR_IO, curread, False, handler, s)
            else (case putfunc F handler (length bs) bs s of None \<Rightarrow> None | Some (ret, written, handler, s) \<Rightarrow>
              if ret \<noteq> PTP_RC_OK then Some (ret, curread, False, handler, s)
              else if written \<noteq> Some (length bs) then Some (PTP_ERROR_IO, curread, False, handler, s)
              else
                (case on_world (context_cancel D) s of (cancelled, s) \<Rightarrow>
                 if cancelled then Some (PTP_ERROR_CANCEL, curread + length bs, False, handler, s)
                 else recv_loop F D (left - length bs) (curread + length bs) handler s))))"
  by pat_completeness auto
termination
proof (relation "measure (\<lambda>(F, D, left, _). left)", goal_cases)
  case 1
  show ?case by simp
next
  case (2 F D left curread handler s toread r s1 bs p ret q written t handler1 s2 cancelled s3)
  then have "bs \<noteq> []" "0 < left" by auto
  then show ?case by (cases bs) auto
qed

declare recv_loop.simps [simp del]

text \<open>Behind the label \<open>retry\<close>, with the number of retries that are left.\<close>

fun recv_rest :: "'w files \<Rightarrow> 'w port \<Rightarrow> nat \<Rightarrow> nat \<Rightarrow> PTPDataHandler \<Rightarrow> 'w ptp \<Rightarrow> (16 word \<times> PTPDataHandler \<times> 'w ptp) option" where
  "recv_rest F D retries left handler s =
    (if \<not> can_alloc (pack s) READLEN then Some (PTP_RC_GeneralError, handler, s)
     else do {
       (ret, curread, io_read, handler, s) \<leftarrow> recv_loop F D left 0 handler s;
       let s = (if io_read then usb_clear_halt D s else s);
       let result = Some (if ret \<noteq> PTP_RC_OK \<and> ret \<noteq> PTP_ERROR_CANCEL then PTP_ERROR_IO else ret, handler, s);
       if io_read \<and> curread = 0
       then (case retries of 0 \<Rightarrow> result | Suc r \<Rightarrow> recv_rest F D r left handler s)
       else result })"

declare recv_rest.simps [simp del]


text \<open>
  \<open>ptp_usb_getdata\<close>. A response in the place of the data is kept for \<open>ptp_usb_getresp\<close>, with as many bytes as its length
  field says; so is what follows the data in their packet. Lengths are \<open>unsigned long\<close>: where a packet is shorter than
  its header, the number of payload bytes wraps around.
\<close>

definition store_response :: "octet list \<Rightarrow> nat \<Rightarrow> nat \<Rightarrow> 'w ptp \<Rightarrow> (bool \<times> 'w ptp) option" where
  "store_response usbdata start n s =
    (if \<not> can_alloc (pack s) n then Some (False, s)
     else do { bs \<leftarrow> peek usbdata start n; Some (True, s\<lparr> response_packet := bs \<rparr>) })"

definition get_payload :: "'w files \<Rightarrow> 'w port \<Rightarrow> octet list \<Rightarrow> nat \<Rightarrow> PTPDataHandler \<Rightarrow> 'w ptp \<Rightarrow> (16 word \<times> PTPDataHandler \<times> 'w ptp) option" where
  "get_payload F D usbdata rlen handler s =
    do {
      length32 \<leftarrow> dtoh32ap (pack s) usbdata 0;
      let packlen = unat length32;
      (ok, s) \<leftarrow> (if rlen > packlen \<and> rlen - packlen \<ge> PTP_USB_BULK_HDR_LEN then store_response usbdata packlen (rlen - packlen) s
                else Some (True, s));
      if \<not> ok then Some (PTP_RC_GeneralError, handler, s) else do {
      let rlen = (if rlen > packlen then packlen else rlen);
      let s = (if packlen > 12 \<and> rlen = 12 then s\<lparr> split_header_data := True \<rparr> else s);
      (ret, n, handler, s) \<leftarrow> putfunc F handler (ulong (rlen + 2 ^ 64 - PTP_USB_BULK_HDR_LEN)) (drop PTP_USB_BULK_HDR_LEN usbdata) s;
      if packlen \<le> rlen then Some (PTP_RC_OK, handler, s)
      else recv_rest F D 1 (packlen - rlen) handler s }}"

definition ptp_usb_getdata :: "'w files \<Rightarrow> 'w port \<Rightarrow> 'w ptp \<Rightarrow> PTPContainer \<Rightarrow> PTPDataHandler \<Rightarrow> (16 word \<times> PTPDataHandler \<times> 'w ptp) option" where
  "ptp_usb_getdata F D s ptp handler =
    do {
      (ret, usbdata, rlen, s) \<leftarrow> ptp_usb_getpacket D (replicate PTP_USB_BULK_PACKET_LEN 0) s;
      if ret \<noteq> PTP_RC_OK then Some (PTP_ERROR_IO, handler, s) else do {
      length32 \<leftarrow> dtoh32ap (pack s) usbdata 0;
      type \<leftarrow> dtoh16ap (pack s) usbdata 4;
      code \<leftarrow> dtoh16ap (pack s) usbdata 6;
      if type \<noteq> PTP_USB_CONTAINER_DATA then
        if type = PTP_USB_CONTAINER_RESPONSE then do {
          (ok, s) \<leftarrow> store_response usbdata 0 (unat length32) s;
          Some (if ok then PTP_RC_OK else PTP_RC_GeneralError, handler, s) }
        else Some (PTP_ERROR_DATA_EXPECTED, handler, s)
      else if code \<noteq> Code ptp \<and> \<not> MTP_ZEN_BROKEN_HEADER s then Some (PTP_ERROR_IO, handler, s)
      else if length32 = 0xffffffff then
        if \<not> can_alloc (pack s) PTP_USB_BULK_HS_MAX_PACKET_LEN_READ then Some (PTP_RC_GeneralError, handler, s)
        else do {
          (ret, n, handler, s) \<leftarrow>
            putfunc F handler (ulong (rlen + 2 ^ 64 - PTP_USB_BULK_HDR_LEN)) (drop PTP_USB_BULK_HDR_LEN usbdata) s;
          stream_loop F D handler s }
      else do {
        usbdata \<leftarrow> (if code \<noteq> Code ptp then poke usbdata 6 (htod16ap (pack s) (Code ptp) @ htod32ap (pack s) (Transaction_ID ptp))
                    else Some usbdata);
        get_payload F D usbdata rlen handler s }}}"

text \<open>The number of parameters is the length behind the header in words, cut to a byte.\<close>

definition params_of_rlen :: "nat \<Rightarrow> octet" where
  "params_of_rlen rlen = of_nat (ulong (rlen + 2 ^ 64 - 12) div 4)"

definition ptp_usb_getresp :: "'w port \<Rightarrow> 'w ptp \<Rightarrow> PTPContainer \<Rightarrow> (16 word \<times> PTPContainer \<times> 'w ptp) option" where
  "ptp_usb_getresp D s resp =
    do {
      (ret, usbresp, rlen, s) \<leftarrow> ptp_usb_getpacket D (replicate PTP_USB_BULK_PACKET_LEN 0) s;
      let P = pack s;
      type \<leftarrow> dtoh16ap P usbresp 4;
      code \<leftarrow> dtoh16ap P usbresp 6;
      let ret = (if ret \<noteq> PTP_RC_OK then PTP_ERROR_IO
                 else if type \<noteq> PTP_USB_CONTAINER_RESPONSE then PTP_ERROR_RESP_EXPECTED
                 else if code \<noteq> Code resp then code else ret);
      if ret \<noteq> PTP_RC_OK then Some (ret, resp, s)
      else do {
        trans_id \<leftarrow> dtoh32ap P usbresp 8;
        p1 \<leftarrow> dtoh32ap P usbresp 12;
        p2 \<leftarrow> dtoh32ap P usbresp 16;
        p3 \<leftarrow> dtoh32ap P usbresp 20;
        p4 \<leftarrow> dtoh32ap P usbresp 24;
        p5 \<leftarrow> dtoh32ap P usbresp 28;
        let trans_id = (if trans_id \<noteq> transaction_id s - 1 \<and> MTP_ZEN_BROKEN_HEADER s then transaction_id s - 1 else trans_id);
        Some (ret, \<lparr> Code = code, SessionID = session_id s, Transaction_ID = trans_id, Param1 = p1, Param2 = p2, Param3 = p3,
          Param4 = p4, Param5 = p5, Nparam = params_of_rlen rlen \<rparr>, s) }}"

section \<open>Events and control requests\<close>

definition PTP2_FAST_TIMEOUT :: int where "PTP2_FAST_TIMEOUT = 100"

abbreviation (input) sizeof_USBEvent :: nat where "sizeof_USBEvent \<equiv> 24"

datatype event_mode = PTP_EVENT_CHECK | PTP_EVENT_CHECK_FAST

text \<open>Two attempts to read an event.\<close>

definition check_twice :: "'w port \<Rightarrow> 'w ptp \<Rightarrow> (int + octet list) \<times> 'w ptp" where
  "check_twice D s =
    (case gp_port_check_int D sizeof_USBEvent s of
       (Inr (b # bs), s) \<Rightarrow> (Inr (b # bs), s)
     | (_, s) \<Rightarrow> gp_port_check_int D sizeof_USBEvent s)"

text \<open>Canon's incremental read: the event and \<open>rlen\<close>.\<close>

function event_rest :: "'w port \<Rightarrow> nat \<Rightarrow> octet list \<Rightarrow> nat \<Rightarrow> 'w ptp \<Rightarrow> octet list \<times> nat \<times> 'w ptp" where
  "event_rest D len usbevent rlen s =
    (if len > rlen then
       (case gp_port_check_int D (sizeof_USBEvent - rlen) s of
          (Inl e, s) \<Rightarrow> (usbevent, rlen, s)
        | (Inr bs, s) \<Rightarrow>
            if bs = [] then (usbevent, rlen, s)
            else event_rest D len (take rlen usbevent @ bs @ drop (rlen + length bs) usbevent) (rlen + length bs) s)
     else (usbevent, rlen, s))"
  by pat_completeness auto
termination by (relation "measure (\<lambda>(D, len, ev, rlen, s). len - rlen)") (auto simp: length_greater_0_conv [symmetric] simp del: length_greater_0_conv)

declare event_rest.simps [simp del]

definition ptp_usb_event :: "'w port \<Rightarrow> 'w ptp \<Rightarrow> PTPContainer option \<Rightarrow> event_mode \<Rightarrow> (16 word \<times> PTPContainer option \<times> 'w ptp) option" where
  "ptp_usb_event D s event wait =
    (case event of None \<Rightarrow> Some (PTP_ERROR_BADPARAM, None, s) | Some ev \<Rightarrow>
     let fasttimeout = (if VendorExtensionID (deviceinfo s) = PTP_VENDOR_CANON then PTP2_FAST_TIMEOUT * 2 else PTP2_FAST_TIMEOUT);
         (result, s) =
           (case wait of
              PTP_EVENT_CHECK \<Rightarrow> check_twice D s
            | PTP_EVENT_CHECK_FAST \<Rightarrow>
                (case on_world (port_get_timeout D) s of (timeout, s) \<Rightarrow>
                 case check_twice D (set_timeout D fasttimeout s) of (result, s) \<Rightarrow> (result, set_timeout D timeout s)))
     in case result of
          Inl e \<Rightarrow> Some (if e = IO_TIMEOUT then PTP_ERROR_TIMEOUT else PTP_ERROR_IO, Some ev, s)
        | Inr bs \<Rightarrow>
            if bs = [] then Some (PTP_ERROR_TIMEOUT, Some ev, s)
            else if length bs < 8 then Some (PTP_ERROR_IO, Some ev, s)
            else
              let P = pack s; usbevent = bs @ replicate (sizeof_USBEvent - length bs) 0 in
              do {
                len \<leftarrow> dtoh32ap P usbevent 0;
                type \<leftarrow> dtoh16ap P usbevent 4;
                let (usbevent, rlen, s) =
                  (if type = PTP_USB_CONTAINER_EVENT \<and> unat len > length bs then
                     (case on_world (port_get_timeout D) s of (timeout, s) \<Rightarrow>
                      case event_rest D (unat len) usbevent (length bs) (set_timeout D PTP2_FAST_TIMEOUT s) of (usbevent, rlen, s) \<Rightarrow>
                        (usbevent, rlen, set_timeout D timeout s))
                   else (usbevent, length bs, s));
                code \<leftarrow> dtoh16ap P usbevent 6;
                tid \<leftarrow> dtoh32ap P usbevent 8;
                p1 \<leftarrow> dtoh32ap P usbevent 12;
                p2 \<leftarrow> dtoh32ap P usbevent 16;
                p3 \<leftarrow> dtoh32ap P usbevent 20;
                Some (PTP_RC_OK, Some (ev\<lparr> Nparam := params_of_rlen rlen, Code := code, SessionID := session_id s, Transaction_ID := tid,
                  Param1 := p1, Param2 := p2, Param3 := p3 \<rparr>), s) })"

definition ptp_usb_event_check :: "'w port \<Rightarrow> 'w ptp \<Rightarrow> PTPContainer option \<Rightarrow> (16 word \<times> PTPContainer option \<times> 'w ptp) option" where
  "ptp_usb_event_check D s event = ptp_usb_event D s event PTP_EVENT_CHECK_FAST"

definition ptp_usb_event_wait :: "'w port \<Rightarrow> 'w ptp \<Rightarrow> PTPContainer option \<Rightarrow> (16 word \<times> PTPContainer option \<times> 'w ptp) option" where
  "ptp_usb_event_wait D s event = ptp_usb_event D s event PTP_EVENT_CHECK"

text \<open>Requests on the control endpoint; a read of \<open>n\<close> bytes gives the bytes that came.\<close>

definition control_read :: "'w port \<Rightarrow> int \<Rightarrow> nat \<Rightarrow> 'w ptp \<Rightarrow> 16 word \<times> octet list \<times> 'w ptp" where
  "control_read D request n s =
    (case on_world (port_msg_class_read D request n) s of
       (Inl e, s) \<Rightarrow> (PTP_ERROR_IO, [], s)
     | (Inr bs, s) \<Rightarrow> (PTP_RC_OK, take n bs, s))"

definition ptp_usb_control_get_extended_event_data :: "'w port \<Rightarrow> nat \<Rightarrow> 'w ptp \<Rightarrow> 16 word \<times> octet list \<times> 'w ptp" where
  "ptp_usb_control_get_extended_event_data D n s = control_read D 0x65 n s"

definition ptp_usb_control_get_device_status :: "'w port \<Rightarrow> nat \<Rightarrow> 'w ptp \<Rightarrow> 16 word \<times> octet list \<times> 'w ptp" where
  "ptp_usb_control_get_device_status D n s = control_read D 0x67 n s"

definition control_write :: "'w port \<Rightarrow> int \<Rightarrow> octet list \<Rightarrow> 'w ptp \<Rightarrow> 16 word \<times> 'w ptp" where
  "control_write D request bs s =
    (case on_world (port_msg_class_write D request bs) s of
       (Inl e, s) \<Rightarrow> (PTP_ERROR_IO, s)
     | (Inr _, s) \<Rightarrow> (PTP_RC_OK, s))"

definition ptp_usb_control_device_reset_request :: "'w port \<Rightarrow> 'w ptp \<Rightarrow> 16 word \<times> 'w ptp" where
  "ptp_usb_control_device_reset_request D s = control_write D 0x66 [] s"

definition PTP_EC_CancelTransaction :: "16 word" where "PTP_EC_CancelTransaction = 0x4001"

definition ptp_usb_control_cancel_request :: "'w port \<Rightarrow> 'w ptp \<Rightarrow> 32 word \<Rightarrow> (16 word \<times> 'w ptp) option" where
  "ptp_usb_control_cancel_request D s transactionid =
    Some (control_write D 0x64 (htod16ap (pack s) PTP_EC_CancelTransaction @ htod32ap (pack s) transactionid) s)"

text \<open>The table that the driver installs for cameras on USB.\<close>

definition usb_transport :: "'w files \<Rightarrow> 'w port \<Rightarrow> 'w transport" where
  "usb_transport F D = \<lparr> sendreq_func = ptp_usb_sendreq D, senddata_func = ptp_usb_senddata F D, getdata_func = ptp_usb_getdata F D,
     getresp_func = ptp_usb_getresp D, event_check = ptp_usb_event_check D, event_wait = ptp_usb_event_wait D, cancelreq_func = ptp_usb_control_cancel_request D \<rparr>"

end
