(* ===== verification/Ptp_Transaction.thy ===== *)
theory Ptp_Transaction
  imports Ptp_Session
begin

text \<open>
  Transactions of camlibs/ptp2/ptp.c: a request, at most one transfer of data, and a response. They run on any
  transport; every operation of the protocol is one of them.
\<close>

section \<open>Requests\<close>

definition PTP_DP_NODATA :: "16 word" where "PTP_DP_NODATA = 0x0000"
definition PTP_DP_SENDDATA :: "16 word" where "PTP_DP_SENDDATA = 0x0001"
definition PTP_DP_GETDATA :: "16 word" where "PTP_DP_GETDATA = 0x0002"
definition PTP_DP_DATA_MASK :: "16 word" where "PTP_DP_DATA_MASK = 0x00ff"

lemmas dp_defs = PTP_DP_NODATA_def PTP_DP_SENDDATA_def PTP_DP_GETDATA_def PTP_DP_DATA_MASK_def

definition PTP_OC_OpenSession :: "16 word" where "PTP_OC_OpenSession = 0x1002"

text \<open>\<open>PTP_CNT_INIT\<close>, the code and the parameters.\<close>

definition request :: "16 word \<Rightarrow> 32 word list \<Rightarrow> PTPContainer" where
  "request code ps =
    (let p = (\<lambda>i. if i < length ps then ps ! i else 0) in
     zero_container\<lparr> Code := code, Param1 := p 0, Param2 := p 1, Param3 := p 2, Param4 := p 3, Param5 := p 4,
       Nparam := of_nat (length ps) \<rparr>)"

section \<open>The response\<close>

text \<open>
  The loop over the responses, with the tries that are left. Two of its branches do not count as a try, so that a
  device that keeps answering old requests keeps it running.
\<close>

partial_function (option) resp_loop :: "'w transport \<Rightarrow> 16 word \<Rightarrow> nat \<Rightarrow> 'w ptp \<Rightarrow> PTPContainer \<Rightarrow>
    (16 word \<times> PTPContainer \<times> 'w ptp) option" where
  "resp_loop T cmd tries s ptp =
    (if tries = 0 then Some (Code ptp, ptp, s)
     else do {
       (ret, ptp, s) \<leftarrow> getresp_func T s ptp;
       if ret = PTP_ERROR_RESP_EXPECTED then resp_loop T cmd tries s ptp
       else if ret \<noteq> PTP_RC_OK then Some (ret, ptp, s)
       else if Transaction_ID ptp < transaction_id s - 1 then resp_loop T cmd tries s ptp
       else if Transaction_ID ptp \<noteq> transaction_id s - 1 then
         if cmd = PTP_OC_OpenSession \<and> tries - 1 \<noteq> 0 then resp_loop T cmd (tries - 1) s ptp
         else Some (PTP_ERROR_BADPARAM, ptp, s)
       else Some (Code ptp, ptp, s) })"

section \<open>The transaction\<close>

text \<open>What follows a transfer of data: a cancelled one is cancelled on the device as well.\<close>

definition after_data :: "'w transport \<Rightarrow> 16 word \<Rightarrow> 'w ptp \<Rightarrow> (16 word \<times> 'w ptp) option" where
  "after_data T ret s =
    (if ret = PTP_ERROR_CANCEL then
       do { (ret, s) \<leftarrow> cancelreq_func T s (transaction_id s - 1);
            Some (if ret = PTP_RC_OK then PTP_ERROR_CANCEL else ret, s) }
     else Some (ret, s))"

definition ptp_transaction_new :: "'w transport \<Rightarrow> 'w ptp \<Rightarrow> PTPContainer \<Rightarrow> 16 word \<Rightarrow> nat \<Rightarrow> PTPDataHandler \<Rightarrow>
    (16 word \<times> PTPContainer \<times> PTPDataHandler \<times> 'w ptp) option" where
  "ptp_transaction_new T s ptp fl sendlen handler =
    (let cmd = Code ptp;
         ptp = ptp\<lparr> Transaction_ID := transaction_id s, SessionID := session_id s \<rparr>;
         s = s\<lparr> transaction_id := transaction_id s + 1 \<rparr>;
         phase = fl AND PTP_DP_DATA_MASK
     in do {
       (ret, s) \<leftarrow> sendreq_func T s ptp;
       if ret \<noteq> PTP_RC_OK then Some (ret, ptp, handler, s)
       else do {
         (ret, handler, s) \<leftarrow>
           (if phase = PTP_DP_SENDDATA then do {
              (ret, handler, s) \<leftarrow> senddata_func T s ptp sendlen handler;
              (ret, s) \<leftarrow> after_data T ret s;
              Some (ret, handler, s) }
            else if phase = PTP_DP_GETDATA then do {
              (ret, handler, s) \<leftarrow> getdata_func T s ptp handler;
              (ret, s) \<leftarrow> after_data T ret s;
              Some (ret, handler, s) }
            else if phase = PTP_DP_NODATA then Some (PTP_RC_OK, handler, s)
            else Some (PTP_ERROR_BADPARAM, handler, s));
         if ret \<noteq> PTP_RC_OK then Some (ret, ptp, handler, s)
         else do {
           (ret, ptp, s) \<leftarrow> resp_loop T cmd 3 s ptp;
           Some (ret, ptp, handler, s) } } })"

text \<open>
  The transaction on memory: \<open>data\<close> stands for \<open>*data\<close>, the bytes to be sent or the pointer that receives them, with the length
  stored through \<open>recvlen\<close> cut to 32 bits. Without data there is no handler; the transports are not called with it.
\<close>

definition ptp_transaction :: "'w transport \<Rightarrow> 'w ptp \<Rightarrow> PTPContainer \<Rightarrow> 16 word \<Rightarrow> nat \<Rightarrow> octet list option \<Rightarrow> 32 word \<Rightarrow>
    (16 word \<times> PTPContainer \<times> octet list option \<times> 32 word \<times> 'w ptp) option" where
  "ptp_transaction T s ptp fl sendlen data recvlen =
    (let phase = fl AND PTP_DP_DATA_MASK;
         handler = (if phase = PTP_DP_SENDDATA then ptp_init_send_memory_handler (pack s) data sendlen
                    else if phase = PTP_DP_GETDATA then ptp_init_recv_memory_handler (pack s)
                    else Some (Fd (-1)))
     in case handler of
          None \<Rightarrow> Some (PTP_RC_GeneralError, ptp, data, recvlen, s)
        | Some handler \<Rightarrow> do {
            (ret, ptp, handler, s) \<leftarrow> ptp_transaction_new T s ptp fl sendlen handler;
            if phase = PTP_DP_GETDATA then do {
              (data, len) \<leftarrow> ptp_exit_recv_memory_handler handler;
              Some (ret, ptp, data, of_nat len, s) }
            else Some (ret, ptp, data, recvlen, s) })"

section \<open>Shapes of operations\<close>

text \<open>Without data, and receiving data into memory, where the pointer starts as NULL and the length as 0.\<close>

definition no_data :: "'w transport \<Rightarrow> 'w ptp \<Rightarrow> 16 word \<Rightarrow> 32 word list \<Rightarrow> (16 word \<times> PTPContainer \<times> 'w ptp) option" where
  "no_data T s code ps =
    do { (ret, ptp, _, _, s) \<leftarrow> ptp_transaction T s (request code ps) PTP_DP_NODATA 0 None 0; Some (ret, ptp, s) }"

definition get_data :: "'w transport \<Rightarrow> 'w ptp \<Rightarrow> 16 word \<Rightarrow> 32 word list \<Rightarrow>
    (16 word \<times> PTPContainer \<times> octet list option \<times> 32 word \<times> 'w ptp) option" where
  "get_data T s code ps = ptp_transaction T s (request code ps) PTP_DP_GETDATA 0 None 0"

definition send_data :: "'w transport \<Rightarrow> 'w ptp \<Rightarrow> 16 word \<Rightarrow> 32 word list \<Rightarrow> octet list option \<Rightarrow> nat \<Rightarrow>
    (16 word \<times> PTPContainer \<times> 'w ptp) option" where
  "send_data T s code ps data sz =
    do { (ret, ptp, _, _, s) \<leftarrow> ptp_transaction T s (request code ps) PTP_DP_SENDDATA sz data 0; Some (ret, ptp, s) }"

end
