(* ===== verification/Ptp_Ops.thy ===== *)
theory Ptp_Ops
  imports Ptp_Transaction
begin

text \<open>
  The operations of the PTP standard in camlibs/ptp2/ptp.c. Each is a request with its parameters, one transaction, and the
  unpacking of its data. An operation gives the result code, its out-parameters and the connection. \<open>None\<close> is
  what C leaves undefined, or an operation that never returns.
\<close>

section \<open>Codes\<close>

definition PTP_OC_GetDeviceInfo :: "16 word" where "PTP_OC_GetDeviceInfo = 0x1001"
definition PTP_OC_GetStorageIDs :: "16 word" where "PTP_OC_GetStorageIDs = 0x1004"
definition PTP_OC_GetStorageInfo :: "16 word" where "PTP_OC_GetStorageInfo = 0x1005"
definition PTP_OC_GetNumObjects :: "16 word" where "PTP_OC_GetNumObjects = 0x1006"
definition PTP_OC_GetObjectHandles :: "16 word" where "PTP_OC_GetObjectHandles = 0x1007"
definition PTP_OC_GetObjectInfo :: "16 word" where "PTP_OC_GetObjectInfo = 0x1008"
definition PTP_OC_GetObject :: "16 word" where "PTP_OC_GetObject = 0x1009"
definition PTP_OC_GetThumb :: "16 word" where "PTP_OC_GetThumb = 0x100A"
definition PTP_OC_DeleteObject :: "16 word" where "PTP_OC_DeleteObject = 0x100B"
definition PTP_OC_SendObjectInfo :: "16 word" where "PTP_OC_SendObjectInfo = 0x100C"
definition PTP_OC_SendObject :: "16 word" where "PTP_OC_SendObject = 0x100D"
definition PTP_OC_GetDevicePropDesc :: "16 word" where "PTP_OC_GetDevicePropDesc = 0x1014"
definition PTP_OC_GetDevicePropValue :: "16 word" where "PTP_OC_GetDevicePropValue = 0x1015"
definition PTP_OC_SetDevicePropValue :: "16 word" where "PTP_OC_SetDevicePropValue = 0x1016"
definition PTP_OC_GetPartialObject :: "16 word" where "PTP_OC_GetPartialObject = 0x101B"
definition PTP_OC_GetFilesystemManifest :: "16 word" where "PTP_OC_GetFilesystemManifest = 0x1023"

text \<open>What the code takes from the C library besides memory: \<open>mktime\<close> and \<open>qsort\<close>.\<close>

record host =
  mktime :: "tm \<Rightarrow> int"
  sort_props :: qsort

text \<open>The bytes behind a pointer: behind NULL there are none, so that every read through it is undefined.\<close>

definition bytes :: "octet list option \<Rightarrow> octet list" where
  "bytes ptr = (case ptr of None \<Rightarrow> [] | Some bs \<Rightarrow> bs)"

lemma bytes_simps [simp]: "bytes None = []" "bytes (Some bs) = bs"
  by (simp_all add: bytes_def)

text \<open>Receiving into memory through a pointer that holds \<open>data\<close>, with a length that holds \<open>len\<close>.\<close>

definition get_into :: "'w transport \<Rightarrow> 'w ptp \<Rightarrow> 16 word \<Rightarrow> 32 word list \<Rightarrow> octet list option \<Rightarrow> 32 word \<Rightarrow>
    (16 word \<times> PTPContainer \<times> octet list option \<times> 32 word \<times> 'w ptp) option" where
  "get_into T s code ps data len = ptp_transaction T s (request code ps) PTP_DP_GETDATA 0 data len"

definition out_data :: "'w transport \<Rightarrow> 'w ptp \<Rightarrow> 16 word \<Rightarrow> 32 word list \<Rightarrow> octet list option \<Rightarrow> 32 word \<Rightarrow>
    (16 word \<times> octet list option \<times> 32 word \<times> 'w ptp) option" where
  "out_data T s code ps data len =
    do { (ret, _, data, len, s) \<leftarrow> get_into T s code ps data len; Some (ret, data, len, s) }"

text \<open>
  A memory handler on its own, for the operations that call \<open>ptp_transaction_new\<close>. They do not test whether the handler
  could be made; without it they use one that is not initialised.
\<close>

definition get_mem :: "'w transport \<Rightarrow> 'w ptp \<Rightarrow> 16 word \<Rightarrow> 32 word list \<Rightarrow> (16 word \<times> octet list option \<times> nat \<times> 'w ptp) option" where
  "get_mem T s code ps =
    do { handler \<leftarrow> ptp_init_recv_memory_handler (pack s);
         (ret, _, handler, s) \<leftarrow> ptp_transaction_new T s (request code ps) PTP_DP_GETDATA 0 handler;
         (data, len) \<leftarrow> ptp_exit_recv_memory_handler handler;
         Some (ret, data, len, s) }"

section \<open>Device and session\<close>

definition ptp_getdeviceinfo :: "'w transport \<Rightarrow> 'w ptp \<Rightarrow> PTPDeviceInfo \<Rightarrow> (16 word \<times> PTPDeviceInfo \<times> 'w ptp) option" where
  "ptp_getdeviceinfo T s di =
    do { (ret, data, len, s) \<leftarrow> get_mem T s PTP_OC_GetDeviceInfo [];
         let ret = (if data = None then PTP_RC_GeneralError else ret);
         di \<leftarrow> (if ret = PTP_RC_OK then ptp_unpack_DI (pack s) data di (of_nat len) else Some di);
         Some (ret, di, s) }"

definition ptp_generic_no_data :: "'w transport \<Rightarrow> 'w ptp \<Rightarrow> 16 word \<Rightarrow> 32 word list \<Rightarrow> (16 word \<times> 'w ptp) option" where
  "ptp_generic_no_data T s code args =
    (if length args > 5 then Some (PTP_RC_InvalidParameter, s)
     else do { (ret, _, s) \<leftarrow> no_data T s code args; Some (ret, s) })"

definition ptp_opensession :: "'w transport \<Rightarrow> 'w ptp \<Rightarrow> 32 word \<Rightarrow> (16 word \<times> 'w ptp) option" where
  "ptp_opensession T s session =
    (let s = s\<lparr> session_id := 0, transaction_id := 0, response_packet := [], split_header_data := False \<rparr> in
     do { (ret, _, _, s) \<leftarrow> ptp_transaction_new T s (request PTP_OC_OpenSession [session]) PTP_DP_NODATA 0 (Fd (-1));
          Some (ret, s\<lparr> session_id := session \<rparr>) })"

section \<open>Storages and handles\<close>

definition ptp_getstorageids :: "'w transport \<Rightarrow> 'w ptp \<Rightarrow> PTPStorageIDs \<Rightarrow> (16 word \<times> PTPStorageIDs \<times> 'w ptp) option" where
  "ptp_getstorageids T s storageids =
    do { (ret, _, sids, len, s) \<leftarrow> get_data T s PTP_OC_GetStorageIDs [];
         storageids \<leftarrow> (if ret = PTP_RC_OK then ptp_unpack_SIDs (pack s) sids len else Some storageids);
         Some (ret, storageids, s) }"

definition ptp_getstorageinfo :: "'w transport \<Rightarrow> 'w ptp \<Rightarrow> 32 word \<Rightarrow> PTPStorageInfo \<Rightarrow> (16 word \<times> PTPStorageInfo \<times> 'w ptp) option" where
  "ptp_getstorageinfo T s storageid storageinfo =
    do { (ret, _, si, len, s) \<leftarrow> get_data T s PTP_OC_GetStorageInfo [storageid];
         storageinfo \<leftarrow> (if ret = PTP_RC_OK then ptp_unpack_SI (pack s) (bytes si) else Some storageinfo);
         Some (ret, storageinfo, s) }"

definition ptp_getobjecthandles :: "'w transport \<Rightarrow> 'w ptp \<Rightarrow> 32 word \<Rightarrow> 32 word \<Rightarrow> 32 word \<Rightarrow> PTPObjectHandles \<Rightarrow>
    (16 word \<times> PTPObjectHandles \<times> 'w ptp) option" where
  "ptp_getobjecthandles T s storage objectformatcode associationOH objecthandles =
    do { (ret, _, oh, len, s) \<leftarrow> get_data T s PTP_OC_GetObjectHandles [storage, objectformatcode, associationOH];
         if ret = PTP_RC_OK then
           do { objecthandles \<leftarrow> ptp_unpack_OH (pack s) (bytes oh) len; Some (ret, objecthandles, s) }
         else if storage = 0xffffffff \<and> objectformatcode = 0 \<and> associationOH = 0 then
           Some (PTP_RC_OK, \<lparr> oh_n = 0, Handler = None \<rparr>, s)
         else Some (ret, objecthandles, s) }"

definition ptp_getfilesystemmanifest :: "'w transport \<Rightarrow> 'w ptp \<Rightarrow> 32 word \<Rightarrow> 32 word \<Rightarrow> 32 word \<Rightarrow> octet list option \<Rightarrow>
    (16 word \<times> octet list option \<times> 'w ptp) option" where
  "ptp_getfilesystemmanifest T s storage objectformatcode associationOH data =
    do { (ret, data, len, s) \<leftarrow> out_data T s PTP_OC_GetFilesystemManifest [storage, objectformatcode, associationOH] data 0;
         Some (ret, data, s) }"

definition ptp_getnumobjects :: "'w transport \<Rightarrow> 'w ptp \<Rightarrow> 32 word \<Rightarrow> 32 word \<Rightarrow> 32 word \<Rightarrow> 32 word \<Rightarrow>
    (16 word \<times> 32 word \<times> 'w ptp) option" where
  "ptp_getnumobjects T s storage objectformatcode associationOH numobs =
    do { (ret, ptp, s) \<leftarrow> no_data T s PTP_OC_GetNumObjects [storage, objectformatcode, associationOH];
         if ret = PTP_RC_OK then
           if Nparam ptp \<ge> 1 then Some (ret, Param1 ptp, s) else Some (PTP_RC_GeneralError, numobs, s)
         else Some (ret, numobs, s) }"

section \<open>Objects\<close>

text \<open>What unpacking learns about the size of objects stays with the connection.\<close>

definition ptp_getobjectinfo :: "'w transport \<Rightarrow> host \<Rightarrow> 'w ptp \<Rightarrow> 32 word \<Rightarrow> PTPObjectInfo \<Rightarrow> (16 word \<times> PTPObjectInfo \<times> 'w ptp) option" where
  "ptp_getobjectinfo T H s handle objectinfo =
    do { (ret, _, data, len, s) \<leftarrow> get_data T s PTP_OC_GetObjectInfo [handle];
         if ret = PTP_RC_OK then
           do { (P, objectinfo) \<leftarrow> ptp_unpack_OI (pack s) (mktime H) (bytes data) objectinfo;
                Some (ret, objectinfo, s\<lparr> pack := P \<rparr>) }
         else Some (ret, objectinfo, s) }"

definition ptp_getobject :: "'w transport \<Rightarrow> 'w ptp \<Rightarrow> 32 word \<Rightarrow> octet list option \<Rightarrow> (16 word \<times> octet list option \<times> 'w ptp) option" where
  "ptp_getobject T s handle object =
    do { (ret, object, len, s) \<leftarrow> out_data T s PTP_OC_GetObject [handle] object 0; Some (ret, object, s) }"

definition ptp_getobject_to_handler :: "'w transport \<Rightarrow> 'w ptp \<Rightarrow> 32 word \<Rightarrow> PTPDataHandler \<Rightarrow> (16 word \<times> PTPDataHandler \<times> 'w ptp) option" where
  "ptp_getobject_to_handler T s handle handler =
    do { (ret, _, handler, s) \<leftarrow> ptp_transaction_new T s (request PTP_OC_GetObject [handle]) PTP_DP_GETDATA 0 handler;
         Some (ret, handler, s) }"

definition ptp_getobject_tofd :: "'w transport \<Rightarrow> 'w ptp \<Rightarrow> 32 word \<Rightarrow> int \<Rightarrow> (16 word \<times> 'w ptp) option" where
  "ptp_getobject_tofd T s handle fd =
    do { handler \<leftarrow> ptp_init_fd_handler (pack s) fd;
         (ret, _, handler, s) \<leftarrow> ptp_transaction_new T s (request PTP_OC_GetObject [handle]) PTP_DP_GETDATA 0 handler;
         Some (ret, s) }"

definition ptp_getpartialobject :: "'w transport \<Rightarrow> 'w ptp \<Rightarrow> 32 word \<Rightarrow> 32 word \<Rightarrow> 32 word \<Rightarrow> octet list option \<Rightarrow>
    (16 word \<times> octet list option \<times> 32 word \<times> 'w ptp) option" where
  "ptp_getpartialobject T s handle off maxbytes object =
    out_data T s PTP_OC_GetPartialObject [handle, off, maxbytes] object 0"

definition ptp_getthumb :: "'w transport \<Rightarrow> 'w ptp \<Rightarrow> 32 word \<Rightarrow> octet list option \<Rightarrow> (16 word \<times> octet list option \<times> 32 word \<times> 'w ptp) option" where
  "ptp_getthumb T s handle object = out_data T s PTP_OC_GetThumb [handle] object 0"

definition ptp_deleteobject :: "'w transport \<Rightarrow> 'w ptp \<Rightarrow> 32 word \<Rightarrow> 32 word \<Rightarrow> (16 word \<times> 'w ptp) option" where
  "ptp_deleteobject T s handle ofc =
    do { (ret, _, s) \<leftarrow> no_data T s PTP_OC_DeleteObject [handle, ofc];
         if ret \<noteq> PTP_RC_OK then Some (ret, s)
         else Some (PTP_RC_OK, s\<lparr> objects := ptp_remove_object_from_cache (objects s) handle \<rparr>) }"

text \<open>The storage, the parent and the handle are those of the response, or of the request when no response came.\<close>

definition send_object_info :: "'w transport \<Rightarrow> 'w ptp \<Rightarrow> 16 word \<Rightarrow> 32 word \<Rightarrow> 32 word \<Rightarrow> PTPObjectInfo \<Rightarrow>
    (16 word \<times> 32 word \<times> 32 word \<times> 32 word \<times> 'w ptp) option" where
  "send_object_info T s code store parenthandle objectinfo =
    do { (oidata, sz) \<leftarrow> ptp_pack_OI (pack s) objectinfo;
         (ret, ptp, s) \<leftarrow> send_data T s code [store, parenthandle] (Some oidata) (unat sz);
         Some (ret, Param1 ptp, Param2 ptp, Param3 ptp, s) }"

definition ptp_sendobjectinfo :: "'w transport \<Rightarrow> 'w ptp \<Rightarrow> 32 word \<Rightarrow> 32 word \<Rightarrow> PTPObjectInfo \<Rightarrow>
    (16 word \<times> 32 word \<times> 32 word \<times> 32 word \<times> 'w ptp) option" where
  "ptp_sendobjectinfo T s store parenthandle objectinfo = send_object_info T s PTP_OC_SendObjectInfo store parenthandle objectinfo"

definition ptp_sendobject :: "'w transport \<Rightarrow> 'w ptp \<Rightarrow> octet list option \<Rightarrow> nat \<Rightarrow> (16 word \<times> 'w ptp) option" where
  "ptp_sendobject T s object sz =
    do { (ret, _, s) \<leftarrow> send_data T s PTP_OC_SendObject [] object sz; Some (ret, s) }"

definition ptp_sendobject_from_handler :: "'w transport \<Rightarrow> 'w ptp \<Rightarrow> PTPDataHandler \<Rightarrow> nat \<Rightarrow> (16 word \<times> PTPDataHandler \<times> 'w ptp) option" where
  "ptp_sendobject_from_handler T s handler sz =
    do { (ret, _, handler, s) \<leftarrow> ptp_transaction_new T s (request PTP_OC_SendObject []) PTP_DP_SENDDATA sz handler;
         Some (ret, handler, s) }"

definition ptp_sendobject_fromfd :: "'w transport \<Rightarrow> 'w ptp \<Rightarrow> int \<Rightarrow> nat \<Rightarrow> (16 word \<times> 'w ptp) option" where
  "ptp_sendobject_fromfd T s fd sz =
    do { handler \<leftarrow> ptp_init_fd_handler (pack s) fd;
         (ret, _, handler, s) \<leftarrow> ptp_transaction_new T s (request PTP_OC_SendObject []) PTP_DP_SENDDATA sz handler;
         Some (ret, s) }"

section \<open>Device properties\<close>

text \<open>
  \<open>ptp_getdevicepropdesc\<close> for the cameras that send the binary dataset (those of Olympus that wrap it in XML set a
  flag). The structure is \<open>None\<close> where unpacking fails without a word to the caller.
\<close>

definition ptp_getdevicepropdesc :: "'w transport \<Rightarrow> 'w ptp \<Rightarrow> 16 word \<Rightarrow> (16 word \<times> PTPDevicePropDesc option \<times> 'w ptp) option" where
  "ptp_getdevicepropdesc T s propcode =
    do { (ret, _, dpd, len, s) \<leftarrow> get_data T s PTP_OC_GetDevicePropDesc [ucast propcode];
         if ret = PTP_RC_OK then do { d \<leftarrow> ptp_unpack_DPD (pack s) (bytes dpd) len; Some (ret, d, s) }
         else Some (ret, None, s) }"

definition ptp_getdevicepropvalue :: "'w transport \<Rightarrow> 'w ptp \<Rightarrow> 16 word \<Rightarrow> PTPPropertyValue \<Rightarrow> 16 word \<Rightarrow> (16 word \<times> PTPPropertyValue \<times> 'w ptp) option" where
  "ptp_getdevicepropvalue T s propcode value datatype =
    do { (ret, _, dpv, len, s) \<leftarrow> get_data T s PTP_OC_GetDevicePropValue [ucast propcode];
         if ret = PTP_RC_OK then
           do { (_, value, _) \<leftarrow> ptp_unpack_DPV (pack s) (bytes dpv) 0 len value datatype; Some (ret, value, s) }
         else Some (ret, value, s) }"

definition ptp_setdevicepropvalue :: "'w transport \<Rightarrow> 'w ptp \<Rightarrow> 16 word \<Rightarrow> PTPPropertyValue \<Rightarrow> 16 word \<Rightarrow> (16 word \<times> 'w ptp) option" where
  "ptp_setdevicepropvalue T s propcode value datatype =
    do { dpv \<leftarrow> ptp_pack_DPV (pack s) value datatype;
         (ret, _, s) \<leftarrow> send_data T s PTP_OC_SetDevicePropValue [ucast propcode] (Some dpv) (length dpv);
         Some (ret, s) }"

section \<open>What the device supports\<close>

text \<open>A linear search over an array and its length; a length behind the array is undefined.\<close>

definition listed :: "32 word \<Rightarrow> 16 word list option \<Rightarrow> 16 word \<Rightarrow> bool option" where
  "listed n codes x =
    (let cs = (case codes of None \<Rightarrow> [] | Some cs \<Rightarrow> cs) in
     if x \<in> set (take (unat n) cs) then Some True
     else if unat n \<le> length cs then Some False else None)"

definition ptp_operation_issupported :: "'w ptp \<Rightarrow> 16 word \<Rightarrow> bool option" where
  "ptp_operation_issupported s operation = listed (OperationsSupported_len (deviceinfo s)) (OperationsSupported (deviceinfo s)) operation"

definition ptp_event_issupported :: "'w ptp \<Rightarrow> 16 word \<Rightarrow> bool option" where
  "ptp_event_issupported s event = listed (EventsSupported_len (deviceinfo s)) (EventsSupported (deviceinfo s)) event"

definition ptp_property_issupported :: "'w ptp \<Rightarrow> 16 word \<Rightarrow> bool option" where
  "ptp_property_issupported s prop =
    listed (DevicePropertiesSupported_len (deviceinfo s)) (DevicePropertiesSupported (deviceinfo s)) prop"

end
