(* ===== verification/Ptp_Vendor.thy ===== *)
theory Ptp_Vendor
  imports Ptp_Ops
begin

text \<open>
  The operations of camlibs/ptp2/ptp.c that vendors added to the protocol: Kodak, Canon, Nikon, Microsoft's media
  transfer protocol (MTP), CHDK, Olympus and Android. Where a pointer or a length is not initialised before the call, what it holds is an argument.
\<close>

section \<open>Codes\<close>

definition PTP_OC_EK_GetSerial :: "16 word" where "PTP_OC_EK_GetSerial = 0x9003"
definition PTP_OC_EK_SetSerial :: "16 word" where "PTP_OC_EK_SetSerial = 0x9004"
definition PTP_OC_EK_SendFileObjectInfo :: "16 word" where "PTP_OC_EK_SendFileObjectInfo = 0x9005"
definition PTP_OC_EK_SendFileObject :: "16 word" where "PTP_OC_EK_SendFileObject = 0x9006"
definition PTP_OC_EK_SetText :: "16 word" where "PTP_OC_EK_SetText = 0x9008"
definition PTP_OC_CANON_GetPartialObjectInfo :: "16 word" where "PTP_OC_CANON_GetPartialObjectInfo = 0x9001"
definition PTP_OC_CANON_GetObjectHandleByName :: "16 word" where "PTP_OC_CANON_GetObjectHandleByName = 0x9006"
definition PTP_OC_CANON_GetCustomizeData :: "16 word" where "PTP_OC_CANON_GetCustomizeData = 0x9010"
definition PTP_OC_CANON_CheckEvent :: "16 word" where "PTP_OC_CANON_CheckEvent = 0x9013"
definition PTP_OC_CANON_GetPartialObjectEx :: "16 word" where "PTP_OC_CANON_GetPartialObjectEx = 0x901B"
definition PTP_OC_CANON_GetViewfinderImage :: "16 word" where "PTP_OC_CANON_GetViewfinderImage = 0x901D"
definition PTP_OC_CANON_GetChanges :: "16 word" where "PTP_OC_CANON_GetChanges = 0x9020"
definition PTP_OC_CANON_GetObjectInfoEx :: "16 word" where "PTP_OC_CANON_GetObjectInfoEx = 0x9021"
definition PTP_OC_CANON_GetTreeInfo :: "16 word" where "PTP_OC_CANON_GetTreeInfo = 0x9028"
definition PTP_OC_CANON_GetTreeSize :: "16 word" where "PTP_OC_CANON_GetTreeSize = 0x9029"
definition PTP_OC_CANON_GetPairingInfo :: "16 word" where "PTP_OC_CANON_GetPairingInfo = 0x9031"
definition PTP_OC_CANON_GetMACAddress :: "16 word" where "PTP_OC_CANON_GetMACAddress = 0x9033"
definition PTP_OC_CANON_EOS_GetStorageIDs :: "16 word" where "PTP_OC_CANON_EOS_GetStorageIDs = 0x9101"
definition PTP_OC_CANON_EOS_GetStorageInfo :: "16 word" where "PTP_OC_CANON_EOS_GetStorageInfo = 0x9102"
definition PTP_OC_CANON_EOS_GetPartialObject :: "16 word" where "PTP_OC_CANON_EOS_GetPartialObject = 0x9107"
definition PTP_OC_CANON_EOS_GetDeviceInfoEx :: "16 word" where "PTP_OC_CANON_EOS_GetDeviceInfoEx = 0x9108"
definition PTP_OC_CANON_EOS_GetObjectInfoEx :: "16 word" where "PTP_OC_CANON_EOS_GetObjectInfoEx = 0x9109"
definition PTP_OC_CANON_EOS_RemoteRelease :: "16 word" where "PTP_OC_CANON_EOS_RemoteRelease = 0x910F"
definition PTP_OC_CANON_EOS_SetDevicePropValueEx :: "16 word" where "PTP_OC_CANON_EOS_SetDevicePropValueEx = 0x9110"
definition PTP_OC_CANON_EOS_GetEvent :: "16 word" where "PTP_OC_CANON_EOS_GetEvent = 0x9116"
definition PTP_OC_CANON_EOS_BulbStart :: "16 word" where "PTP_OC_CANON_EOS_BulbStart = 0x9125"
definition PTP_OC_CANON_EOS_BulbEnd :: "16 word" where "PTP_OC_CANON_EOS_BulbEnd = 0x9126"
definition PTP_OC_CANON_EOS_GetViewFinderData :: "16 word" where "PTP_OC_CANON_EOS_GetViewFinderData = 0x9153"
definition PTP_OC_NIKON_GetProfileAllData :: "16 word" where "PTP_OC_NIKON_GetProfileAllData = 0x9006"
definition PTP_OC_NIKON_SendProfileData :: "16 word" where "PTP_OC_NIKON_SendProfileData = 0x9007"
definition PTP_OC_NIKON_GetFileInfoInBlock :: "16 word" where "PTP_OC_NIKON_GetFileInfoInBlock = 0x9011"
definition PTP_OC_NIKON_CurveDownload :: "16 word" where "PTP_OC_NIKON_CurveDownload = 0x90C5"
definition PTP_OC_NIKON_CheckEvent :: "16 word" where "PTP_OC_NIKON_CheckEvent = 0x90C7"
definition PTP_OC_NIKON_GetVendorPropCodes :: "16 word" where "PTP_OC_NIKON_GetVendorPropCodes = 0x90CA"
definition PTP_OC_NIKON_GetPreviewImg :: "16 word" where "PTP_OC_NIKON_GetPreviewImg = 0x9200"
definition PTP_OC_NIKON_GetLiveViewImg :: "16 word" where "PTP_OC_NIKON_GetLiveViewImg = 0x9203"
definition PTP_OC_NIKON_GetDevicePTPIPInfo :: "16 word" where "PTP_OC_NIKON_GetDevicePTPIPInfo = 0x90E0"
definition PTP_OC_MTP_GetObjectPropsSupported :: "16 word" where "PTP_OC_MTP_GetObjectPropsSupported = 0x9801"
definition PTP_OC_MTP_GetObjectPropDesc :: "16 word" where "PTP_OC_MTP_GetObjectPropDesc = 0x9802"
definition PTP_OC_MTP_GetObjectPropValue :: "16 word" where "PTP_OC_MTP_GetObjectPropValue = 0x9803"
definition PTP_OC_MTP_SetObjectPropValue :: "16 word" where "PTP_OC_MTP_SetObjectPropValue = 0x9804"
definition PTP_OC_MTP_GetObjPropList :: "16 word" where "PTP_OC_MTP_GetObjPropList = 0x9805"
definition PTP_OC_MTP_SetObjPropList :: "16 word" where "PTP_OC_MTP_SetObjPropList = 0x9806"
definition PTP_OC_MTP_SendObjectPropList :: "16 word" where "PTP_OC_MTP_SendObjectPropList = 0x9808"
definition PTP_OC_MTP_GetObjectReferences :: "16 word" where "PTP_OC_MTP_GetObjectReferences = 0x9810"
definition PTP_OC_MTP_SetObjectReferences :: "16 word" where "PTP_OC_MTP_SetObjectReferences = 0x9811"
definition PTP_OC_MTP_WMDRMPD_SendWMDRMPDAppRequest :: "16 word" where "PTP_OC_MTP_WMDRMPD_SendWMDRMPDAppRequest = 0x9212"
definition PTP_OC_MTP_WMDRMPD_GetWMDRMPDAppResponse :: "16 word" where "PTP_OC_MTP_WMDRMPD_GetWMDRMPDAppResponse = 0x9213"
definition PTP_OC_OLYMPUS_OpenSession :: "16 word" where "PTP_OC_OLYMPUS_OpenSession = 0x9302"
definition PTP_OC_OLYMPUS_GetCameraID :: "16 word" where "PTP_OC_OLYMPUS_GetCameraID = 0x9581"
definition PTP_OC_ANDROID_GetPartialObject64 :: "16 word" where "PTP_OC_ANDROID_GetPartialObject64 = 0x95C1"
definition PTP_OC_ANDROID_SendPartialObject :: "16 word" where "PTP_OC_ANDROID_SendPartialObject = 0x95C2"
definition PTP_OC_CHDK :: "16 word" where "PTP_OC_CHDK = 0x9999"

definition PTP_RC_Undefined :: "16 word" where "PTP_RC_Undefined = 0x2000"
definition PTP_RC_StoreFull :: "16 word" where "PTP_RC_StoreFull = 0x200C"

section \<open>Kodak\<close>

definition ptp_ek_sendfileobjectinfo :: "'w transport \<Rightarrow> 'w ptp \<Rightarrow> 32 word \<Rightarrow> 32 word \<Rightarrow> PTPObjectInfo \<Rightarrow>
    (16 word \<times> 32 word \<times> 32 word \<times> 32 word \<times> 'w ptp) option" where
  "ptp_ek_sendfileobjectinfo T s store parenthandle objectinfo =
    send_object_info T s PTP_OC_EK_SendFileObjectInfo store parenthandle objectinfo"

definition ptp_ek_getserial :: "'w transport \<Rightarrow> 'w ptp \<Rightarrow> octet list option \<Rightarrow> 32 word \<Rightarrow> (16 word \<times> octet list option \<times> 32 word \<times> 'w ptp) option" where
  "ptp_ek_getserial T s data sz = out_data T s PTP_OC_EK_GetSerial [] data sz"

definition ptp_ek_setserial :: "'w transport \<Rightarrow> 'w ptp \<Rightarrow> octet list option \<Rightarrow> nat \<Rightarrow> (16 word \<times> 'w ptp) option" where
  "ptp_ek_setserial T s data sz = do { (ret, _, s) \<leftarrow> send_data T s PTP_OC_EK_SetSerial [] data sz; Some (ret, s) }"

definition ptp_ek_9007 :: "'w transport \<Rightarrow> 'w ptp \<Rightarrow> octet list option \<Rightarrow> 32 word \<Rightarrow> (16 word \<times> octet list option \<times> 32 word \<times> 'w ptp) option" where
  "ptp_ek_9007 T s data sz = out_data T s 0x9007 [] data sz"

definition ptp_ek_9009 :: "'w transport \<Rightarrow> 'w ptp \<Rightarrow> (16 word \<times> 32 word \<times> 32 word \<times> 'w ptp) option" where
  "ptp_ek_9009 T s = do { (ret, ptp, s) \<leftarrow> no_data T s 0x9009 []; Some (ret, Param1 ptp, Param2 ptp, s) }"

definition ptp_ek_900c :: "'w transport \<Rightarrow> 'w ptp \<Rightarrow> octet list option \<Rightarrow> 32 word \<Rightarrow> (16 word \<times> octet list option \<times> 32 word \<times> 'w ptp) option" where
  "ptp_ek_900c T s data sz = out_data T s 0x900c [] data sz"

definition ptp_ek_settext :: "'w transport \<Rightarrow> 'w ptp \<Rightarrow> PTPEKTextParams \<Rightarrow> (16 word \<times> 'w ptp) option" where
  "ptp_ek_settext T s text =
    do { data \<leftarrow> ptp_pack_EK_text (pack s) text;
         if data = [] then Some (PTP_ERROR_BADPARAM, s)
         else do { (ret, _, s) \<leftarrow> send_data T s PTP_OC_EK_SetText [] (Some data) (length data); Some (ret, s) } }"

definition ptp_ek_sendfileobject :: "'w transport \<Rightarrow> 'w ptp \<Rightarrow> octet list option \<Rightarrow> 32 word \<Rightarrow> (16 word \<times> 'w ptp) option" where
  "ptp_ek_sendfileobject T s object sz =
    do { (ret, _, s) \<leftarrow> send_data T s PTP_OC_EK_SendFileObject [] object (unat sz); Some (ret, s) }"

definition ptp_ek_sendfileobject_from_handler :: "'w transport \<Rightarrow> 'w ptp \<Rightarrow> PTPDataHandler \<Rightarrow> 32 word \<Rightarrow> (16 word \<times> PTPDataHandler \<times> 'w ptp) option" where
  "ptp_ek_sendfileobject_from_handler T s handler sz =
    do { (ret, _, handler, s) \<leftarrow> ptp_transaction_new T s (request PTP_OC_EK_SendFileObject []) PTP_DP_SENDDATA (unat sz) handler;
         Some (ret, handler, s) }"

section \<open>Canon\<close>

definition ptp_canon_getpartialobjectinfo :: "'w transport \<Rightarrow> 'w ptp \<Rightarrow> 32 word \<Rightarrow> 32 word \<Rightarrow> (16 word \<times> 32 word \<times> 32 word \<times> 'w ptp) option" where
  "ptp_canon_getpartialobjectinfo T s handle p2 =
    do { (ret, ptp, s) \<leftarrow> no_data T s PTP_OC_CANON_GetPartialObjectInfo [handle, p2]; Some (ret, Param1 ptp, Param2 ptp, s) }"

definition ptp_canon_get_mac_address :: "'w transport \<Rightarrow> 'w ptp \<Rightarrow> (16 word \<times> octet list option \<times> 'w ptp) option" where
  "ptp_canon_get_mac_address T s =
    do { (ret, mac, sz, s) \<leftarrow> out_data T s PTP_OC_CANON_GetMACAddress [] None 0; Some (ret, mac, s) }"

definition ptp_canon_gettreeinfo :: "'w transport \<Rightarrow> 'w ptp \<Rightarrow> 32 word \<Rightarrow> (16 word \<times> 32 word \<times> 'w ptp) option" where
  "ptp_canon_gettreeinfo T s out =
    do { (ret, ptp, s) \<leftarrow> no_data T s PTP_OC_CANON_GetTreeInfo [0xf];
         Some (ret, if ret = PTP_RC_OK \<and> Nparam ptp > 0 then Param1 ptp else out, s) }"

definition ptp_canon_getpairinginfo :: "'w transport \<Rightarrow> 'w ptp \<Rightarrow> 32 word \<Rightarrow> (16 word \<times> octet list option \<times> 32 word \<times> 'w ptp) option" where
  "ptp_canon_getpairinginfo T s nr = out_data T s PTP_OC_CANON_GetPairingInfo [nr] None 0"

text \<open>The list of the images to transfer, entry by entry; its length comes from the device and is not compared with the data.\<close>

record PTPCanon_directtransfer_entry =
  de_oid :: "32 word"
  de_str :: "octet list option"

fun tree_entries :: "PTPParams \<Rightarrow> nat \<Rightarrow> octet list \<Rightarrow> PTPCanon_directtransfer_entry list option" where
  "tree_entries P 0 cur = Some []"
| "tree_entries P (Suc n) cur =
    do { oid \<leftarrow> dtoh32ap P cur 0;
         (str, len) \<leftarrow> ptp_unpack_string P cur 4;
         c \<leftarrow> dtoh8a cur 4;
         es \<leftarrow> tree_entries P n (drop (4 + (unat c * 2 + 1)) cur);
         Some (\<lparr> de_oid = oid, de_str = str \<rparr> # es) }"

definition ptp_canon_gettreesize :: "'w transport \<Rightarrow> 'w ptp \<Rightarrow> 32 word \<Rightarrow> (16 word \<times> PTPCanon_directtransfer_entry list option \<times> 32 word \<times> 'w ptp) option" where
  "ptp_canon_gettreesize T s cnt =
    do { (ret, _, out, len, s) \<leftarrow> get_data T s PTP_OC_CANON_GetTreeSize [];
         if ret \<noteq> PTP_RC_OK then Some (ret, None, cnt, s)
         else do {
           cnt \<leftarrow> dtoh32ap (pack s) (bytes out) 0;
           if \<not> can_alloc (pack s) (16 * unat cnt) then Some (PTP_RC_GeneralError, None, cnt, s)
           else do {
             entries \<leftarrow> tree_entries (pack s) (unat cnt) (drop 4 (bytes out));
             Some (PTP_RC_OK, Some entries, cnt, s) } } }"

text \<open>The event is unpacked into \<open>event\<close>; the second result is \<open>isevent\<close>.\<close>

definition ptp_canon_checkevent :: "'w transport \<Rightarrow> 'w ptp \<Rightarrow> PTPContainer \<Rightarrow> (16 word \<times> bool \<times> PTPContainer \<times> 'w ptp) option" where
  "ptp_canon_checkevent T s event =
    do { (ret, _, evdata, len, s) \<leftarrow> get_data T s PTP_OC_CANON_CheckEvent [];
         if evdata \<noteq> None \<and> ret = PTP_RC_OK then
           do { event \<leftarrow> ptp_unpack_EC (pack s) evdata event; Some (ret, True, event, s) }
         else Some (ret, False, event, s) }"

definition ptp_canon_getpartialobject :: "'w transport \<Rightarrow> 'w ptp \<Rightarrow> 32 word \<Rightarrow> 32 word \<Rightarrow> 32 word \<Rightarrow> 32 word \<Rightarrow> octet list option \<Rightarrow> 32 word \<Rightarrow>
    (16 word \<times> octet list option \<times> 32 word \<times> 'w ptp) option" where
  "ptp_canon_getpartialobject T s handle off sz pos block readnum =
    do { (ret, ptp, data, len, s) \<leftarrow> get_data T s PTP_OC_CANON_GetPartialObjectEx [handle, off, sz, pos];
         if ret = PTP_RC_OK then Some (ret, data, Param1 ptp, s) else Some (ret, block, readnum, s) }"

definition ptp_canon_getviewfinderimage :: "'w transport \<Rightarrow> 'w ptp \<Rightarrow> octet list option \<Rightarrow> 32 word \<Rightarrow> (16 word \<times> octet list option \<times> 32 word \<times> 'w ptp) option" where
  "ptp_canon_getviewfinderimage T s img sz =
    do { (ret, ptp, img, len, s) \<leftarrow> get_into T s PTP_OC_CANON_GetViewfinderImage [] img 0;
         Some (ret, img, if ret = PTP_RC_OK then Param1 ptp else sz, s) }"

definition ptp_canon_getchanges :: "'w transport \<Rightarrow> 'w ptp \<Rightarrow> 16 word list option \<Rightarrow> 32 word \<Rightarrow> (16 word \<times> 16 word list option \<times> 32 word \<times> 'w ptp) option" where
  "ptp_canon_getchanges T s props propnum =
    do { (ret, _, data, len, s) \<leftarrow> get_data T s PTP_OC_CANON_GetChanges [];
         if ret = PTP_RC_OK then
           do { (propnum, props) \<leftarrow> ptp_unpack_uint16_t_array (pack s) (bytes data) 0; Some (ret, props, propnum, s) }
         else Some (ret, props, propnum, s) }"

text \<open>The folder entries, whose number is a parameter of the response; the first one is not read through NULL.\<close>

definition zero_FE :: PTPCANONFolderEntry where
  "zero_FE = \<lparr> fe_ObjectHandle = 0, fe_ObjectFormatCode = 0, fe_Flags = 0, fe_ObjectSize = 0, fe_Time = 0,
     fe_Filename = replicate PTP_CANON_FilenameBufferLen 0, fe_StorageID = 0 \<rparr>"

abbreviation (input) PTP_CANON_FolderEntryLen :: nat where "PTP_CANON_FolderEntryLen \<equiv> 28"
abbreviation (input) sizeof_PTPCANONFolderEntry :: nat where "sizeof_PTPCANONFolderEntry \<equiv> 48"

definition canon_entry :: "PTPParams \<Rightarrow> octet list option \<Rightarrow> nat \<Rightarrow> PTPCANONFolderEntry option" where
  "canon_entry P data i =
    ptp_unpack_Canon_FE P (if i = 0 then data else Some (drop (i * PTP_CANON_FolderEntryLen) (bytes data))) zero_FE"

definition ptp_canon_getobjectinfo :: "'w transport \<Rightarrow> 'w ptp \<Rightarrow> 32 word \<Rightarrow> 32 word \<Rightarrow> 32 word \<Rightarrow> 32 word \<Rightarrow>
    PTPCANONFolderEntry list option \<Rightarrow> 32 word \<Rightarrow> (16 word \<times> PTPCANONFolderEntry list option \<times> 32 word \<times> 'w ptp) option" where
  "ptp_canon_getobjectinfo T s store p2 parent handle entries entnum =
    do { (ret, ptp, data, len, s) \<leftarrow> get_data T s PTP_OC_CANON_GetObjectInfoEx [store, p2, parent, handle];
         if ret = PTP_RC_OK then
           let entnum = Param1 ptp in
           if \<not> can_alloc (pack s) (unat entnum * sizeof_PTPCANONFolderEntry) then Some (PTP_ERROR_IO, None, entnum, s)
           else do { es \<leftarrow> those (map (canon_entry (pack s) data) [0..<unat entnum]); Some (ret, Some es, entnum, s) }
         else Some (ret, entries, entnum, s) }"

text \<open>The name is packed into a buffer of \<open>2 * (strlen (name) + 1) + 2\<close> bytes.\<close>

definition ptp_canon_get_objecthandle_by_name :: "'w transport \<Rightarrow> 'w ptp \<Rightarrow> octet list \<Rightarrow> (16 word \<times> 32 word \<times> 'w ptp) option" where
  "ptp_canon_get_objecthandle_by_name T s name =
    (let n = 2 * (length name + 1) + 2 in
     if \<not> can_alloc (pack s) n then None
     else do {
       (data, len) \<leftarrow> ptp_pack_string (pack s) name (replicate n 0) 0;
       (ret, ptp, s) \<leftarrow> send_data T s PTP_OC_CANON_GetObjectHandleByName [] (Some data) ((unat len + 1) * 2 + 1);
       Some (ret, Param1 ptp, s) })"

definition ptp_canon_get_customize_data :: "'w transport \<Rightarrow> 'w ptp \<Rightarrow> 32 word \<Rightarrow> (16 word \<times> octet list option \<times> 32 word \<times> 'w ptp) option" where
  "ptp_canon_get_customize_data T s themenr = out_data T s PTP_OC_CANON_GetCustomizeData [themenr] None 0"

section \<open>Canon's EOS cameras\<close>

definition ptp_canon_eos_getdeviceinfo :: "'w transport \<Rightarrow> 'w ptp \<Rightarrow> PTPCanonEOSDeviceInfo \<Rightarrow> (16 word \<times> PTPCanonEOSDeviceInfo \<times> 'w ptp) option" where
  "ptp_canon_eos_getdeviceinfo T s di =
    do { (ret, data, len, s) \<leftarrow> get_mem T s PTP_OC_CANON_EOS_GetDeviceInfoEx [];
         di \<leftarrow> (if ret = PTP_RC_OK then ptp_unpack_EOS_DI (pack s) (bytes data) (of_nat len) else Some di);
         Some (ret, di, s) }"

text \<open>A response with a parameter that looks like a result code replaces the result.\<close>

definition bulb :: "'w transport \<Rightarrow> 'w ptp \<Rightarrow> 16 word \<Rightarrow> (16 word \<times> 'w ptp) option" where
  "bulb T s code =
    do { (ret, ptp, s) \<leftarrow> no_data T s code [];
         Some (if ret = PTP_RC_OK \<and> Nparam ptp \<ge> 1 \<and> Param1 ptp AND 0x7000 = 0x2000 then ucast (Param1 ptp) else ret, s) }"

definition ptp_canon_eos_bulbstart :: "'w transport \<Rightarrow> 'w ptp \<Rightarrow> (16 word \<times> 'w ptp) option" where
  "ptp_canon_eos_bulbstart T s = bulb T s PTP_OC_CANON_EOS_BulbStart"

definition ptp_canon_eos_bulbend :: "'w transport \<Rightarrow> 'w ptp \<Rightarrow> (16 word \<times> 'w ptp) option" where
  "ptp_canon_eos_bulbend T s = bulb T s PTP_OC_CANON_EOS_BulbEnd"

definition ptp_canon_eos_capture :: "'w transport \<Rightarrow> 'w ptp \<Rightarrow> (16 word \<times> 32 word \<times> 'w ptp) option" where
  "ptp_canon_eos_capture T s =
    do { (ret, ptp, s) \<leftarrow> no_data T s PTP_OC_CANON_EOS_RemoteRelease [];
         Some (ret, if ret = PTP_RC_OK \<and> Nparam ptp \<ge> 1 then Param1 ptp else 0, s) }"

definition ptp_canon_eos_getstorageids :: "'w transport \<Rightarrow> 'w ptp \<Rightarrow> PTPStorageIDs \<Rightarrow> (16 word \<times> PTPStorageIDs \<times> 'w ptp) option" where
  "ptp_canon_eos_getstorageids T s storageids =
    do { (ret, _, sids, len, s) \<leftarrow> get_data T s PTP_OC_CANON_EOS_GetStorageIDs [];
         storageids \<leftarrow> (if ret = PTP_RC_OK then ptp_unpack_SIDs (pack s) sids len else Some storageids);
         Some (ret, storageids, s) }"

definition ptp_canon_eos_getstorageinfo :: "'w transport \<Rightarrow> 'w ptp \<Rightarrow> 32 word \<Rightarrow> (16 word \<times> octet list option \<times> 32 word \<times> 'w ptp) option" where
  "ptp_canon_eos_getstorageinfo T s p1 = out_data T s PTP_OC_CANON_EOS_GetStorageInfo [p1] None 0"

text \<open>
  The entries begin with their length. The array comes from \<open>malloc\<close>, and the storage is not filled in.
\<close>

definition raw_FE :: "PTPParams \<Rightarrow> nat \<Rightarrow> PTPCANONFolderEntry" where
  "raw_FE P i = zero_FE\<lparr> fe_StorageID := le_value (map (\<lambda>k. uninit P (i * sizeof_PTPCANONFolderEntry + 40 + k)) [0..<4]) \<rparr>"

fun eos_entries :: "PTPParams \<Rightarrow> nat \<Rightarrow> nat \<Rightarrow> octet list \<Rightarrow> PTPCANONFolderEntry list option" where
  "eos_entries P i 0 xdata = Some []"
| "eos_entries P i (Suc n) xdata =
    do { e \<leftarrow> ptp_unpack_Canon_EOS_FE P (drop 4 xdata) (raw_FE P i);
         len \<leftarrow> dtoh32ap P xdata 0;
         es \<leftarrow> eos_entries P (i + 1) n (drop (unat len) xdata);
         Some (e # es) }"

definition ptp_canon_eos_getobjectinfoex :: "'w transport \<Rightarrow> 'w ptp \<Rightarrow> 32 word \<Rightarrow> 32 word \<Rightarrow> 32 word \<Rightarrow> PTPCANONFolderEntry list option \<Rightarrow> 32 word \<Rightarrow>
    (16 word \<times> PTPCANONFolderEntry list option \<times> 32 word \<times> 'w ptp) option" where
  "ptp_canon_eos_getobjectinfoex T s storageid handle unkp entries nrofentries =
    do { (ret, _, data, len, s) \<leftarrow> get_data T s PTP_OC_CANON_EOS_GetObjectInfoEx [storageid, handle, unkp];
         if ret \<noteq> PTP_RC_OK then Some (ret, entries, nrofentries, s)
         else if data = None then Some (PTP_RC_OK, entries, 0, s)
         else do {
           n \<leftarrow> dtoh32ap (pack s) (bytes data) 0;
           if \<not> can_alloc (pack s) (unat n * sizeof_PTPCANONFolderEntry) then Some (PTP_RC_GeneralError, None, n, s)
           else do { es \<leftarrow> eos_entries (pack s) 0 (unat n) (drop 4 (bytes data)); Some (PTP_RC_OK, Some es, n, s) } } }"

definition ptp_canon_eos_getpartialobject :: "'w transport \<Rightarrow> 'w ptp \<Rightarrow> 32 word \<Rightarrow> 32 word \<Rightarrow> 32 word \<Rightarrow> (16 word \<times> octet list option \<times> 'w ptp) option" where
  "ptp_canon_eos_getpartialobject T s handle off xsize =
    do { (ret, data, len, s) \<leftarrow> out_data T s PTP_OC_CANON_EOS_GetPartialObject [handle, off, xsize] None 0; Some (ret, data, s) }"

definition ptp_canon_eos_setdevicepropvalueex :: "'w transport \<Rightarrow> 'w ptp \<Rightarrow> octet list option \<Rightarrow> nat \<Rightarrow> (16 word \<times> 'w ptp) option" where
  "ptp_canon_eos_setdevicepropvalueex T s data sz =
    do { (ret, _, s) \<leftarrow> send_data T s PTP_OC_CANON_EOS_SetDevicePropValueEx [] data sz; Some (ret, s) }"

definition ptp_canon_eos_get_viewfinder_image :: "'w transport \<Rightarrow> 'w ptp \<Rightarrow> octet list option \<Rightarrow> 32 word \<Rightarrow> (16 word \<times> octet list option \<times> 32 word \<times> 'w ptp) option" where
  "ptp_canon_eos_get_viewfinder_image T s data sz = out_data T s PTP_OC_CANON_EOS_GetViewFinderData [0x00100000] data sz"

definition ptp_canon_eos_get_viewfinder_image_handler :: "'w transport \<Rightarrow> 'w ptp \<Rightarrow> PTPDataHandler \<Rightarrow> (16 word \<times> PTPDataHandler \<times> 'w ptp) option" where
  "ptp_canon_eos_get_viewfinder_image_handler T s handler =
    do { (ret, _, handler, s) \<leftarrow> ptp_transaction_new T s (request PTP_OC_CANON_EOS_GetViewFinderData [0x00100000]) PTP_DP_GETDATA 0 handler;
         Some (ret, handler, s) }"

end
