(* ===== verification/Ptp_Extensions.thy ===== *)
theory Ptp_Extensions
  imports Ptp_Vendor
begin

text \<open>
  More of the operations of camlibs/ptp2/ptp.c: the properties of Canon's EOS cameras, Nikon with its wireless profiles, MTP, CHDK,
  Olympus and Android.
\<close>

section \<open>Properties of the EOS cameras\<close>

definition PTP_DPC_CANON_EOS_ImageFormat :: "16 word" where "PTP_DPC_CANON_EOS_ImageFormat = 0xD120"
definition PTP_DPC_CANON_EOS_ImageFormatCF :: "16 word" where "PTP_DPC_CANON_EOS_ImageFormatCF = 0xD121"
definition PTP_DPC_CANON_EOS_ImageFormatSD :: "16 word" where "PTP_DPC_CANON_EOS_ImageFormatSD = 0xD122"
definition PTP_DPC_CANON_EOS_ImageFormatExtHD :: "16 word" where "PTP_DPC_CANON_EOS_ImageFormatExtHD = 0xD123"
definition PTP_DPC_CANON_EOS_CustomFuncEx :: "16 word" where "PTP_DPC_CANON_EOS_CustomFuncEx = 0xD1a0"

text \<open>The index of a property; the descriptions were made from the change records of the camera.\<close>

definition eos_prop :: "'w ptp \<Rightarrow> 16 word \<Rightarrow> nat option" where
  "eos_prop s propcode = find (\<lambda>i. canon_proptype (canon_props s ! i) = ucast propcode) [0..<length (canon_props s)]"

text \<open>The description is copied, with its enumeration and its strings; no allocation is checked, and \<open>strdup\<close> is called on NULL too.\<close>

definition ptp_canon_eos_getdevicepropdesc :: "'w ptp \<Rightarrow> 16 word \<Rightarrow> (16 word \<times> PTPDevicePropDesc option) option" where
  "ptp_canon_eos_getdevicepropdesc s propcode =
    (case eos_prop s propcode of
       None \<Rightarrow> Some (PTP_RC_Undefined, None)
     | Some i \<Rightarrow>
         let d = canon_dpd (canon_props s ! i) in
         if FormFlag d = PTP_DPFF_Enumeration \<and>
           (case FORM d of Enum n vs \<Rightarrow> n \<noteq> 0 \<and> (\<not> can_alloc (pack s) (16 * unat n) \<or> length vs < unat n) | _ \<Rightarrow> True)
         then None
         else if DataType d = PTP_DTC_STR then
           do { f \<leftarrow> str (FactoryDefaultValue d); f \<leftarrow> f;
                c \<leftarrow> str (CurrentValue d); c \<leftarrow> c;
                let dup = (\<lambda>x. VStr (if can_alloc (pack s) (length x + 1) then Some x else None));
                Some (PTP_RC_OK, Some (d\<lparr> FactoryDefaultValue := dup f, CurrentValue := dup c \<rparr>)) }
         else Some (PTP_RC_OK, Some d))"

text \<open>The bytes to be sent behind their length and code, and the value that the description keeps, where it changes.\<close>

definition eos_payload :: "PTPParams \<Rightarrow> 16 word \<Rightarrow> PTPPropertyValue \<Rightarrow> 16 word \<Rightarrow> PTPPropertyValue \<Rightarrow>
    (octet list option \<times> PTPPropertyValue) option" where
  "eos_payload P propcode value datatype cur =
    (if propcode = PTP_DPC_CANON_EOS_ImageFormat \<or> propcode = PTP_DPC_CANON_EOS_ImageFormatCF \<or>
        propcode = PTP_DPC_CANON_EOS_ImageFormatSD \<or> propcode = PTP_DPC_CANON_EOS_ImageFormatExtHD then
       do { v \<leftarrow> u16 value;
            (n, _) \<leftarrow> ptp_pack_EOS_ImageFormat P None v;
            let sz = unat (8 + n);
            if \<not> can_alloc P sz then Some (None, cur)
            else do {
              (_, d) \<leftarrow> ptp_pack_EOS_ImageFormat P (Some (map (uninit P) [8..<sz])) v;
              Some (Some (map (uninit P) [0..<8] @ bytes d), V16 v) } }
     else if propcode = PTP_DPC_CANON_EOS_CustomFuncEx then
       do { v \<leftarrow> str value; v \<leftarrow> v;
            (n, _) \<leftarrow> ptp_pack_EOS_CustomFuncEx P None v;
            let sz = unat (8 + n);
            if \<not> can_alloc P sz then Some (None, cur)
            else do {
              (_, d) \<leftarrow> ptp_pack_EOS_CustomFuncEx P (Some (map (uninit P) [8..<sz])) v;
              Some (Some (map (uninit P) [0..<8] @ bytes d), VStr (if can_alloc P (length v + 1) then Some v else None)) } }
     else if datatype = PTP_DTC_STR then
       do { v \<leftarrow> str value; v \<leftarrow> v;
            if \<not> can_alloc P (length v + 9) then Some (None, cur)
            else do {
              _ \<leftarrow> str cur;
              Some (Some (replicate 8 0 @ v @ [0]), VStr (if can_alloc P (length v + 1) then Some v else None)) } }
     else if \<not> can_alloc P 12 then Some (None, cur)
     else
       let put = (\<lambda>bs v. Some (Some (replicate 8 0 @ bs @ replicate (4 - length bs) 0), v)) in
       if datatype = PTP_DTC_INT8 \<or> datatype = PTP_DTC_UINT8 then do { v \<leftarrow> u8 value; put (htod8a v) (V8 v) }
       else if datatype = PTP_DTC_UINT16 \<or> datatype = PTP_DTC_INT16 then do { v \<leftarrow> u16 value; put (htod16ap P v) (V16 v) }
       else if datatype = PTP_DTC_INT32 \<or> datatype = PTP_DTC_UINT32 then do { v \<leftarrow> u32 value; put (htod32ap P v) (V32 v) }
       else put [] cur)"

definition ptp_canon_eos_setdevicepropvalue :: "'w transport \<Rightarrow> 'w ptp \<Rightarrow> 16 word \<Rightarrow> PTPPropertyValue \<Rightarrow> 16 word \<Rightarrow> (16 word \<times> 'w ptp) option" where
  "ptp_canon_eos_setdevicepropvalue T s propcode value datatype =
    (case eos_prop s propcode of
       None \<Rightarrow> Some (PTP_RC_Undefined, s)
     | Some i \<Rightarrow> do {
         let p = canon_props s ! i;
         (data, v) \<leftarrow> eos_payload (pack s) propcode value datatype (CurrentValue (canon_dpd p));
         case data of
           None \<Rightarrow> Some (PTP_RC_GeneralError, s)
         | Some data \<Rightarrow> do {
             data \<leftarrow> poke data 0 (htod32ap (pack s) (of_nat (length data)));
             data \<leftarrow> poke data 4 (htod32ap (pack s) (ucast propcode));
             let s = s\<lparr> canon_props := (canon_props s)[i := p\<lparr> canon_dpd := (canon_dpd p)\<lparr> CurrentValue := v \<rparr> \<rparr>] \<rparr>;
             (ret, _, s) \<leftarrow> send_data T s PTP_OC_CANON_EOS_SetDevicePropValueEx [] (Some data) (length data);
             Some (ret, s) } })"

section \<open>Nikon\<close>

definition ptp_nikon_curve_download :: "'w transport \<Rightarrow> 'w ptp \<Rightarrow> (16 word \<times> octet list option \<times> 32 word \<times> 'w ptp) option" where
  "ptp_nikon_curve_download T s = out_data T s PTP_OC_NIKON_CurveDownload [] None 0"

definition ptp_nikon_get_vendorpropcodes :: "'w transport \<Rightarrow> 'w ptp \<Rightarrow> (16 word \<times> 16 word list option \<times> 32 word \<times> 'w ptp) option" where
  "ptp_nikon_get_vendorpropcodes T s =
    do { (ret, _, xdata, xsize, s) \<leftarrow> get_data T s PTP_OC_NIKON_GetVendorPropCodes [];
         if ret = PTP_RC_OK then
           do { (n, props) \<leftarrow> ptp_unpack_uint16_t_array (pack s) (bytes xdata) 0; Some (ret, props, n, s) }
         else Some (ret, None, 0, s) }"

definition ptp_nikon_getfileinfoinblock :: "'w transport \<Rightarrow> 'w ptp \<Rightarrow> 32 word \<Rightarrow> 32 word \<Rightarrow> 32 word \<Rightarrow>
    (16 word \<times> octet list option \<times> 32 word \<times> 'w ptp) option" where
  "ptp_nikon_getfileinfoinblock T s p1 p2 p3 = out_data T s PTP_OC_NIKON_GetFileInfoInBlock [p1, p2, p3] None 0"

definition ptp_nikon_get_liveview_image :: "'w transport \<Rightarrow> 'w ptp \<Rightarrow> octet list option \<Rightarrow> 32 word \<Rightarrow> (16 word \<times> octet list option \<times> 32 word \<times> 'w ptp) option" where
  "ptp_nikon_get_liveview_image T s data sz = out_data T s PTP_OC_NIKON_GetLiveViewImg [] data sz"

definition ptp_nikon_get_preview_image :: "'w transport \<Rightarrow> 'w ptp \<Rightarrow> octet list option \<Rightarrow> 32 word \<Rightarrow> 32 word \<Rightarrow>
    (16 word \<times> octet list option \<times> 32 word \<times> 32 word \<times> 'w ptp) option" where
  "ptp_nikon_get_preview_image T s xdata xsize handle =
    do { (ret, ptp, xdata, xsize, s) \<leftarrow> get_into T s PTP_OC_NIKON_GetPreviewImg [] xdata xsize;
         Some (ret, xdata, xsize, if ret = PTP_RC_OK \<and> Nparam ptp > 0 then Param1 ptp else handle, s) }"

definition ptp_nikon_check_event :: "'w transport \<Rightarrow> 'w ptp \<Rightarrow> (16 word \<times> PTPContainer list option \<times> 32 word \<times> 'w ptp) option" where
  "ptp_nikon_check_event T s =
    do { (ret, _, data, sz, s) \<leftarrow> get_data T s PTP_OC_NIKON_CheckEvent [];
         if ret = PTP_RC_OK then
           do { (event, evtcnt) \<leftarrow> ptp_unpack_Nikon_EC (pack s) data sz 0; Some (ret, event, evtcnt, s) }
         else Some (ret, None, 0, s) }"

definition ptp_nikon_getptpipinfo :: "'w transport \<Rightarrow> 'w ptp \<Rightarrow> octet list option \<Rightarrow> 32 word \<Rightarrow> (16 word \<times> octet list option \<times> 32 word \<times> 'w ptp) option" where
  "ptp_nikon_getptpipinfo T s data sz = out_data T s PTP_OC_NIKON_GetDevicePTPIPInfo [] data sz"

section \<open>Wireless profiles\<close>

text \<open>
  \<open>strncpy\<close>: the bytes before the NUL, and zeros up to \<open>n\<close> bytes. It is undefined where it writes behind the destination or reads behind the source.
\<close>

definition strncpy_octets :: "octet list \<Rightarrow> octet list \<Rightarrow> nat \<Rightarrow> octet list option" where
  "strncpy_octets dst src n =
    (let c = takeWhile (\<lambda>b. b \<noteq> 0) (take n src) in
     if n > length dst \<or> length c < n \<and> length c = length src then None
     else Some (c @ replicate (n - length c) 0 @ drop n dst))"

definition zero_profile :: PTPNIKONWifiProfile where
  "zero_profile = \<lparr> profile_name = replicate 17 0, device_type = 0, icon_type = 0, essid = replicate 33 0, wifi_id = 0, wifi_valid = 0,
     display_order = 0, creation_date = replicate 16 0, lastusage_date = replicate 16 0, ip_address = 0, subnet_mask = 0,
     gateway_address = 0, address_mode = 0, access_mode = 0, wifi_channel = 0, authentification = 0, encryption = 0,
     wifi_key = replicate 64 0, key_nr = 0 \<rparr>"

abbreviation (input) sizeof_PTPNIKONWifiProfile :: nat where "sizeof_PTPNIKONWifiProfile \<equiv> 172"

text \<open>
  One profile: whether it was complete, the profile as far as it was filled, and the position behind it. The lengths in the data are
  compared with the end of the data, in 32 bits, but not with the arrays of the structure.
\<close>

definition wifi_profile :: "PTPParams \<Rightarrow> octet list \<Rightarrow> 32 word \<Rightarrow> 32 word \<Rightarrow> PTPNIKONWifiProfile \<Rightarrow> (bool \<times> PTPNIKONWifiProfile \<times> 32 word) option" where
  "wifi_profile P data sz pos p =
    (if pos + 6 \<ge> sz then Some (False, p, pos) else do {
       i \<leftarrow> dtoh8a data (unat pos);
       v \<leftarrow> dtoh8a data (unat (pos + 1));
       let p = p\<lparr> wifi_id := i, wifi_valid := v \<rparr>;
       n \<leftarrow> dtoh32ap P data (unat (pos + 2));
       let pos = pos + 6;
       if pos + n + 4 \<ge> sz then Some (False, p, pos) else do {
       name \<leftarrow> strncpy_octets (profile_name p) (drop (unat pos) data) (unat n);
       let p = p\<lparr> profile_name := name[16 := 0] \<rparr>;
       let pos = pos + n;
       d \<leftarrow> dtoh8a data (unat pos);
       t \<leftarrow> dtoh8a data (unat (pos + 1));
       ic \<leftarrow> dtoh8a data (unat (pos + 2));
       let p = p\<lparr> display_order := d, device_type := t, icon_type := ic \<rparr>;
       let pos = pos + 3;
       (buffer, len) \<leftarrow> ptp_unpack_string P data (ucast pos);
       buffer \<leftarrow> buffer;
       date \<leftarrow> strncpy_octets (creation_date p) (buffer @ [0]) 16;
       let p = p\<lparr> creation_date := date \<rparr>;
       let pos = pos + (ucast len * 2 + 1);
       if pos + 1 \<ge> sz then Some (False, p, pos) else do {
       (buffer, len) \<leftarrow> ptp_unpack_string P data (ucast pos);
       buffer \<leftarrow> buffer;
       date \<leftarrow> strncpy_octets (lastusage_date p) (buffer @ [0]) 16;
       let p = p\<lparr> lastusage_date := date \<rparr>;
       let pos = pos + (ucast len * 2 + 1);
       if pos + 5 \<ge> sz then Some (False, p, pos) else do {
       n \<leftarrow> dtoh32ap P data (unat pos);
       let pos = pos + 4;
       if pos + n \<ge> sz then Some (False, p, pos) else do {
       e \<leftarrow> strncpy_octets (essid p) (drop (unat pos) data) (unat n);
       let p = p\<lparr> essid := e[32 := 0] \<rparr>;
       Some (True, p, pos + n + 1) }}}}})"

text \<open>The loop over the profiles that the array still has room for.\<close>

fun wifi_loop :: "PTPParams \<Rightarrow> octet list \<Rightarrow> 32 word \<Rightarrow> 32 word \<Rightarrow> PTPNIKONWifiProfile list \<Rightarrow> (16 word \<times> PTPNIKONWifiProfile list) option" where
  "wifi_loop P data sz pos [] = Some (PTP_RC_OK, [])"
| "wifi_loop P data sz pos (p # ps) =
    (if pos < sz then do {
       (ok, p, pos) \<leftarrow> wifi_profile P data sz pos p;
       if ok then do { (ret, ps) \<leftarrow> wifi_loop P data sz pos ps; Some (ret, p # ps) }
       else Some (PTP_RC_Undefined, p # ps) }
     else Some (PTP_RC_OK, p # ps))"

definition ptp_nikon_getwifiprofilelist :: "'w transport \<Rightarrow> 'w ptp \<Rightarrow> (16 word \<times> 'w ptp) option" where
  "ptp_nikon_getwifiprofilelist T s =
    do { (ret, _, data, sz, s) \<leftarrow> get_data T s PTP_OC_NIKON_GetProfileAllData [];
         if ret \<noteq> PTP_RC_OK then Some (ret, s)
         else if sz < 2 then Some (PTP_RC_Undefined, s)
         else do {
           version \<leftarrow> dtoh8a (bytes data) 0;
           number \<leftarrow> dtoh8a (bytes data) 1;
           if number \<noteq> 0 \<and> \<not> can_alloc (pack s) (unat number * sizeof_PTPNIKONWifiProfile) then None
           else do {
             (ret, ps) \<leftarrow> wifi_loop (pack s) (bytes data) sz 2 (replicate (unat number) zero_profile);
             Some (ret, s\<lparr> wifi_profiles_version := version, wifi_profiles := Some ps \<rparr>) } } }"

text \<open>The packet for a profile, of 196 bytes in a buffer of 1024. \<open>guid\<close> is what the settings file of the library holds for this host.\<close>

definition date_1999 :: "octet list" where
  "date_1999 = [0x31, 0x39, 0x39, 0x39, 0x30, 0x39, 0x30, 0x39, 0x54, 0x30, 0x39, 0x30, 0x39, 0x30, 0x39]"

definition wifi_packet :: "PTPParams \<Rightarrow> octet list \<Rightarrow> PTPNIKONWifiProfile \<Rightarrow> octet list option" where
  "wifi_packet P guid p =
    do { let b = replicate 1024 0;
         b \<leftarrow> poke b 0x00 [0x64];
         b \<leftarrow> poke b 0x01 (htod32ap P 17);
         name \<leftarrow> strncpy_octets (replicate 16 0) (profile_name p) 16;
         b \<leftarrow> poke b 0x05 name;
         b \<leftarrow> poke b 0x16 [0, device_type p, icon_type p];
         (b, len) \<leftarrow> ptp_pack_string P date_1999 b 0x19;
         b \<leftarrow> poke b 0x3A (le_bytes 4 (ip_address p) @ [subnet_mask p]);
         b \<leftarrow> poke b 0x3F (le_bytes 4 (gateway_address p) @ [address_mode p, access_mode p, wifi_channel p]);
         b \<leftarrow> poke b 0x46 (htod32ap P 33);
         e \<leftarrow> strncpy_octets (replicate 32 0) (essid p) 32;
         b \<leftarrow> poke b 0x4A e;
         b \<leftarrow> poke b 0x6B ([authentification p, encryption p] @ htod32ap P 64 @ wifi_key p @ [key_nr p] @ guid);
         b \<leftarrow> poke b 0xC2 (htod16ap P (if encryption p = 1 then 5 else if encryption p = 2 then 13 else 0));
         Some b }"

definition ptp_nikon_writewifiprofile :: "'w transport \<Rightarrow> octet list \<Rightarrow> 'w ptp \<Rightarrow> PTPNIKONWifiProfile \<Rightarrow> (16 word \<times> 'w ptp) option" where
  "ptp_nikon_writewifiprofile T guid s profile =
    do { (ret, s) \<leftarrow> (if wifi_profiles s = None then ptp_nikon_getwifiprofilelist T s else Some (PTP_RC_OK, s));
         if ret \<noteq> PTP_RC_OK then Some (ret, s)
         else
           case find (\<lambda>p. wifi_valid p = 0) (case wifi_profiles s of None \<Rightarrow> [] | Some ps \<Rightarrow> ps) of
             None \<Rightarrow> Some (PTP_RC_StoreFull, s)
           | Some p \<Rightarrow> do {
               b \<leftarrow> wifi_packet (pack s) guid profile;
               (ret, _, s) \<leftarrow> send_data T s PTP_OC_NIKON_SendProfileData [ucast (wifi_id p)] (Some b) 0xC4;
               Some (ret, s) } }"

section \<open>MTP\<close>

definition ptp_mtp_getobjectpropssupported :: "'w transport \<Rightarrow> 'w ptp \<Rightarrow> 16 word \<Rightarrow> 32 word \<Rightarrow> 16 word list option \<Rightarrow>
    (16 word \<times> 32 word \<times> 16 word list option \<times> 'w ptp) option" where
  "ptp_mtp_getobjectpropssupported T s ofc propnum props =
    do { (ret, _, data, sz, s) \<leftarrow> get_data T s PTP_OC_MTP_GetObjectPropsSupported [ucast ofc];
         if ret = PTP_RC_OK then
           do { (propnum, props) \<leftarrow> ptp_unpack_uint16_t_array (pack s) (bytes data) 0; Some (ret, propnum, props, s) }
         else Some (ret, propnum, props, s) }"

definition ptp_mtp_getobjectpropdesc :: "'w transport \<Rightarrow> 'w ptp \<Rightarrow> 16 word \<Rightarrow> 16 word \<Rightarrow> (16 word \<times> PTPObjectPropDesc option \<times> 'w ptp) option" where
  "ptp_mtp_getobjectpropdesc T s opc ofc =
    do { (ret, _, data, sz, s) \<leftarrow> get_data T s PTP_OC_MTP_GetObjectPropDesc [ucast opc, ucast ofc];
         if ret = PTP_RC_OK then do { d \<leftarrow> ptp_unpack_OPD (pack s) (bytes data) sz; Some (ret, d, s) } else Some (ret, None, s) }"

definition ptp_mtp_getobjectpropvalue :: "'w transport \<Rightarrow> 'w ptp \<Rightarrow> 32 word \<Rightarrow> 16 word \<Rightarrow> PTPPropertyValue \<Rightarrow> 16 word \<Rightarrow> (16 word \<times> PTPPropertyValue \<times> 'w ptp) option" where
  "ptp_mtp_getobjectpropvalue T s handle opc value datatype =
    do { (ret, _, data, sz, s) \<leftarrow> get_data T s PTP_OC_MTP_GetObjectPropValue [handle, ucast opc];
         if ret = PTP_RC_OK then
           do { (_, value, _) \<leftarrow> ptp_unpack_DPV (pack s) (bytes data) 0 sz value datatype; Some (ret, value, s) }
         else Some (ret, value, s) }"

definition ptp_mtp_setobjectpropvalue :: "'w transport \<Rightarrow> 'w ptp \<Rightarrow> 32 word \<Rightarrow> 16 word \<Rightarrow> PTPPropertyValue \<Rightarrow> 16 word \<Rightarrow> (16 word \<times> 'w ptp) option" where
  "ptp_mtp_setobjectpropvalue T s handle opc value datatype =
    do { data \<leftarrow> ptp_pack_DPV (pack s) value datatype;
         (ret, _, s) \<leftarrow> send_data T s PTP_OC_MTP_SetObjectPropValue [handle, ucast opc] (Some data) (length data);
         Some (ret, s) }"

text \<open>The array and its length; some players answer OK without a data phase.\<close>

definition ptp_mtp_getobjectreferences :: "'w transport \<Rightarrow> 'w ptp \<Rightarrow> 32 word \<Rightarrow> 32 word list option \<Rightarrow> 32 word \<Rightarrow>
    (16 word \<times> 32 word list option \<times> 32 word \<times> 'w ptp) option" where
  "ptp_mtp_getobjectreferences T s handle ohArray arraylen =
    do { (ret, _, dpv, dpvlen, s) \<leftarrow> get_data T s PTP_OC_MTP_GetObjectReferences [handle];
         if ret = PTP_RC_OK then
           if dpv = None \<or> dpvlen = 0 then Some (ret, None, 0, s)
           else do { (n, a) \<leftarrow> ptp_unpack_uint32_t_array (pack s) (bytes dpv) 0; Some (ret, a, n, s) }
         else Some (ret, ohArray, arraylen, s) }"

definition ptp_mtp_setobjectreferences :: "'w transport \<Rightarrow> 'w ptp \<Rightarrow> 32 word \<Rightarrow> 32 word list \<Rightarrow> (16 word \<times> 'w ptp) option" where
  "ptp_mtp_setobjectreferences T s handle ohArray =
    do { dpv \<leftarrow> ptp_pack_uint32_t_array (pack s) ohArray;
         (ret, _, s) \<leftarrow> send_data T s PTP_OC_MTP_SetObjectReferences [handle] (Some dpv) (length dpv);
         Some (ret, s) }"

text \<open>The properties of the tree below a handle, or of the object alone.\<close>

definition object_prop_list :: "'w transport \<Rightarrow> host \<Rightarrow> 'w ptp \<Rightarrow> 32 word \<Rightarrow> 32 word \<Rightarrow> MTPProperties list option \<Rightarrow> nat \<Rightarrow>
    (16 word \<times> MTPProperties list option \<times> nat \<times> 'w ptp) option" where
  "object_prop_list T H s handle depth props nrofprops =
    do { (ret, _, opldata, oplsize, s) \<leftarrow> get_data T s PTP_OC_MTP_GetObjPropList [handle, 0, 0xFFFFFFFF, 0, depth];
         if ret = PTP_RC_OK then
           do { (props, n) \<leftarrow> ptp_unpack_OPL (pack s) (sort_props H) (bytes opldata) oplsize; Some (ret, props, n, s) }
         else Some (ret, props, nrofprops, s) }"

definition ptp_mtp_getobjectproplist :: "'w transport \<Rightarrow> host \<Rightarrow> 'w ptp \<Rightarrow> 32 word \<Rightarrow> MTPProperties list option \<Rightarrow> nat \<Rightarrow>
    (16 word \<times> MTPProperties list option \<times> nat \<times> 'w ptp) option" where
  "ptp_mtp_getobjectproplist T H s handle props n = object_prop_list T H s handle 0xFFFFFFFF props n"

definition ptp_mtp_getobjectproplist_single :: "'w transport \<Rightarrow> host \<Rightarrow> 'w ptp \<Rightarrow> 32 word \<Rightarrow> MTPProperties list option \<Rightarrow> nat \<Rightarrow>
    (16 word \<times> MTPProperties list option \<times> nat \<times> 'w ptp) option" where
  "ptp_mtp_getobjectproplist_single T H s handle props n = object_prop_list T H s handle 0 props n"

definition ptp_mtp_sendobjectproplist :: "'w transport \<Rightarrow> 'w ptp \<Rightarrow> 32 word \<Rightarrow> 32 word \<Rightarrow> 16 word \<Rightarrow> 64 word \<Rightarrow> MTPProperties list \<Rightarrow>
    (16 word \<times> 32 word \<times> 32 word \<times> 32 word \<times> 'w ptp) option" where
  "ptp_mtp_sendobjectproplist T s store parenthandle objecttype objectsize props =
    do { opldata \<leftarrow> ptp_pack_OPL (pack s) props;
         (ret, ptp, s) \<leftarrow> send_data T s PTP_OC_MTP_SendObjectPropList
           [store, parenthandle, ucast objecttype, ucast (drop_bit 32 objectsize), ucast objectsize] (Some opldata) (length opldata);
         Some (ret, Param1 ptp, Param2 ptp, Param3 ptp, s) }"

definition ptp_mtp_setobjectproplist :: "'w transport \<Rightarrow> 'w ptp \<Rightarrow> MTPProperties list \<Rightarrow> (16 word \<times> 'w ptp) option" where
  "ptp_mtp_setobjectproplist T s props =
    do { opldata \<leftarrow> ptp_pack_OPL (pack s) props;
         (ret, _, s) \<leftarrow> send_data T s PTP_OC_MTP_SetObjPropList [] (Some opldata) (length opldata);
         Some (ret, s) }"

definition ptp_mtpz_sendwmdrmpdapprequest :: "'w transport \<Rightarrow> 'w ptp \<Rightarrow> octet list option \<Rightarrow> 32 word \<Rightarrow> (16 word \<times> 'w ptp) option" where
  "ptp_mtpz_sendwmdrmpdapprequest T s appcertmsg sz =
    do { (ret, _, s) \<leftarrow> send_data T s PTP_OC_MTP_WMDRMPD_SendWMDRMPDAppRequest [] appcertmsg (unat sz); Some (ret, s) }"

definition ptp_mtpz_getwmdrmpdappresponse :: "'w transport \<Rightarrow> 'w ptp \<Rightarrow> (16 word \<times> octet list option \<times> 32 word \<times> 'w ptp) option" where
  "ptp_mtpz_getwmdrmpdappresponse T s = out_data T s PTP_OC_MTP_WMDRMPD_GetWMDRMPDAppResponse [] None 0"

section \<open>CHDK\<close>

text \<open>The commands are numbers of an enumeration.\<close>

definition ptp_chdk_get_memory :: "'w transport \<Rightarrow> 'w ptp \<Rightarrow> 32 word \<Rightarrow> 32 word \<Rightarrow> octet list option \<Rightarrow> (16 word \<times> octet list option \<times> 'w ptp) option" where
  "ptp_chdk_get_memory T s start num buf =
    do { (ret, buf, _, s) \<leftarrow> out_data T s PTP_OC_CHDK [1, start, num] buf 0; Some (ret, buf, s) }"

text \<open>The result of the call is stored when the transaction failed.\<close>

definition ptp_chdk_call :: "'w transport \<Rightarrow> 'w ptp \<Rightarrow> 32 word list \<Rightarrow> 32 word \<Rightarrow> (16 word \<times> 32 word \<times> 'w ptp) option" where
  "ptp_chdk_call T s args res =
    do { (r, ptp, s) \<leftarrow> send_data T s PTP_OC_CHDK [3] (Some (concat (map (le_bytes 4) args))) (4 * length args);
         Some (r, if r = PTP_RC_OK then res else Param1 ptp, s) }"

definition ptp_chdk_get_paramdata :: "'w transport \<Rightarrow> 'w ptp \<Rightarrow> 32 word \<Rightarrow> 32 word \<Rightarrow> octet list option \<Rightarrow> (16 word \<times> octet list option \<times> 'w ptp) option" where
  "ptp_chdk_get_paramdata T s start num buf =
    do { (ret, buf, _, s) \<leftarrow> out_data T s PTP_OC_CHDK [5, start, num] buf 0; Some (ret, buf, s) }"

definition ptp_chdk_exec_lua :: "'w transport \<Rightarrow> 'w ptp \<Rightarrow> octet list \<Rightarrow> 32 word \<Rightarrow> (16 word \<times> 32 word \<times> 'w ptp) option" where
  "ptp_chdk_exec_lua T s script res =
    do { (r, ptp, s) \<leftarrow> send_data T s PTP_OC_CHDK [10] (Some (script @ [0])) (length script + 1);
         Some (r, if r = PTP_RC_OK then Param1 ptp else res, s) }"

definition ptp_chdk_get_script_output :: "'w transport \<Rightarrow> 'w ptp \<Rightarrow> octet list option \<Rightarrow> (16 word \<times> octet list option \<times> 'w ptp) option" where
  "ptp_chdk_get_script_output T s scriptoutput =
    do { (ret, out, _, s) \<leftarrow> out_data T s PTP_OC_CHDK [12] scriptoutput 0; Some (ret, out, s) }"

text \<open>The structure of 112 bytes is copied as it comes, however short the data is.\<close>

definition ptp_chdk_get_video_settings :: "'w transport \<Rightarrow> 'w ptp \<Rightarrow> octet list \<Rightarrow> (16 word \<times> octet list \<times> 'w ptp) option" where
  "ptp_chdk_get_video_settings T s vsettings =
    do { (ret, buf, _, s) \<leftarrow> out_data T s PTP_OC_CHDK [11] None 0;
         if ret \<noteq> PTP_RC_OK then Some (ret, vsettings, s)
         else case buf of
           None \<Rightarrow> Some (ret, vsettings, s)
         | Some buf \<Rightarrow> do { v \<leftarrow> peek buf 0 112; Some (ret, v, s) } }"

section \<open>Olympus and Android\<close>

definition ptp_olympus_opensession :: "'w transport \<Rightarrow> 'w ptp \<Rightarrow> (16 word \<times> octet list option \<times> nat \<times> 'w ptp) option" where
  "ptp_olympus_opensession T s = get_mem T s PTP_OC_OLYMPUS_OpenSession []"

definition ptp_olympus_getcameraid :: "'w transport \<Rightarrow> 'w ptp \<Rightarrow> (16 word \<times> octet list option \<times> nat \<times> 'w ptp) option" where
  "ptp_olympus_getcameraid T s = get_mem T s PTP_OC_OLYMPUS_GetCameraID []"

definition ptp_android_getpartialobject64 :: "'w transport \<Rightarrow> 'w ptp \<Rightarrow> 32 word \<Rightarrow> 64 word \<Rightarrow> 32 word \<Rightarrow> octet list option \<Rightarrow>
    (16 word \<times> octet list option \<times> 32 word \<times> 'w ptp) option" where
  "ptp_android_getpartialobject64 T s handle off maxbytes object =
    out_data T s PTP_OC_ANDROID_GetPartialObject64 [handle, ucast off, ucast (drop_bit 32 off), maxbytes] object 0"

text \<open>Header and data are split for this transaction only; a connection that splits them always no longer does afterwards.\<close>

definition ptp_android_sendpartialobject :: "'w transport \<Rightarrow> 'w ptp \<Rightarrow> 32 word \<Rightarrow> 64 word \<Rightarrow> octet list option \<Rightarrow> 32 word \<Rightarrow> (16 word \<times> 'w ptp) option" where
  "ptp_android_sendpartialobject T s handle off object len =
    do { (err, _, s) \<leftarrow> send_data T (s\<lparr> split_header_data := True \<rparr>) PTP_OC_ANDROID_SendPartialObject
           [handle, ucast off, ucast (drop_bit 32 off), len] object (unat len);
         Some (err, s\<lparr> split_header_data := False \<rparr>) }"

end
