(* ===== verification/Ptp_Queue.thy ===== *)
theory Ptp_Queue
  imports Ptp_Extensions
begin

text \<open>
  What camlibs/ptp2/ptp.c keeps up to date on the host: the queue of events that the device reported, and the cached
  descriptions of objects, which \<open>ptp_object_want\<close> completes on demand.
\<close>

section \<open>The queue of events\<close>

abbreviation (input) sizeof_PTPContainer :: nat where "sizeof_PTPContainer \<equiv> 36"

text \<open>\<open>realloc\<close> and \<open>malloc\<close> are not checked.\<close>

definition ptp_add_event :: "'w ptp \<Rightarrow> PTPContainer \<Rightarrow> (16 word \<times> 'w ptp) option" where
  "ptp_add_event s evt =
    (if can_alloc (pack s) (sizeof_PTPContainer * (length (events s) + 1))
     then Some (PTP_RC_OK, s\<lparr> events := events s @ [evt] \<rparr>) else None)"

text \<open>The events of a Nikon camera come in one answer; their number may not fit the array.\<close>

definition nikon_queue :: "'w transport \<Rightarrow> 'w ptp \<Rightarrow> (16 word \<times> 'w ptp) option" where
  "nikon_queue T s =
    do { (ret, xevent, evtcnt, s) \<leftarrow> ptp_nikon_check_event T s;
         if ret \<noteq> PTP_RC_OK then Some (ret, s)
         else if evtcnt = 0 then Some (PTP_RC_OK, s)
         else if \<not> can_alloc (pack s) (sizeof_PTPContainer * (unat evtcnt + length (events s))) then None
         else do {
           es \<leftarrow> xevent;
           if length es < unat evtcnt then None
           else Some (PTP_RC_OK, s\<lparr> events := events s @ take (unat evtcnt) es \<rparr>) } }"

text \<open>The label \<open>store_event\<close>.\<close>

definition store_event :: "16 word \<Rightarrow> PTPContainer \<Rightarrow> 'w ptp \<Rightarrow> (16 word \<times> 'w ptp) option" where
  "store_event ret event s =
    do { s \<leftarrow> (if ret = PTP_RC_OK then do { (_, s) \<leftarrow> ptp_add_event s event; Some s } else Some s);
         Some (if ret = PTP_ERROR_TIMEOUT then PTP_RC_OK else ret, s) }"

definition poll_event :: "'w transport \<Rightarrow> PTPContainer \<Rightarrow> 'w ptp \<Rightarrow> (16 word \<times> 'w ptp) option" where
  "poll_event T event s =
    do { (ret, event, s) \<leftarrow> event_check T s (Some event);
         event \<leftarrow> event;
         store_event ret event s }"

text \<open>\<open>event\<close> is what the variable of this name holds at first, which is not initialised.\<close>

definition ptp_check_event :: "'w transport \<Rightarrow> PTPContainer \<Rightarrow> 'w ptp \<Rightarrow> (16 word \<times> 'w ptp) option" where
  "ptp_check_event T event s =
    (let vendor = VendorExtensionID (deviceinfo s);
         has = (\<lambda>v op. if vendor = v then ptp_operation_issupported s op else Some False)
     in do {
       nikon \<leftarrow> has PTP_VENDOR_NIKON PTP_OC_NIKON_CheckEvent;
       if nikon then nikon_queue T s else do {
       eos \<leftarrow> has PTP_VENDOR_CANON PTP_OC_CANON_EOS_GetEvent;
       if eos then Some (PTP_RC_OK, s) else do {
       canon \<leftarrow> has PTP_VENDOR_CANON PTP_OC_CANON_CheckEvent;
       if canon then do {
         (ret, isevent, event, s) \<leftarrow> ptp_canon_checkevent T s event;
         if ret \<noteq> PTP_RC_OK then Some (ret, s)
         else if isevent then store_event ret event s
         else if canon_event_mode s > 5 then Some (ret, s)
         else poll_event T event s }
       else poll_event T event s }}})"

definition ptp_get_one_event :: "'w ptp \<Rightarrow> PTPContainer option \<times> 'w ptp" where
  "ptp_get_one_event s = (case events s of [] \<Rightarrow> (None, s) | e # es \<Rightarrow> (Some e, s\<lparr> events := es \<rparr>))"

section \<open>Objects on demand\<close>

definition PTPOBJECT_OBJECTINFO_LOADED :: "32 word" where "PTPOBJECT_OBJECTINFO_LOADED = 1"
definition PTPOBJECT_MTPPROPLIST_LOADED :: "32 word" where "PTPOBJECT_MTPPROPLIST_LOADED = 4"
definition PTPOBJECT_PARENTOBJECT_LOADED :: "32 word" where "PTPOBJECT_PARENTOBJECT_LOADED = 16"
definition PTPOBJECT_STORAGEID_LOADED :: "32 word" where "PTPOBJECT_STORAGEID_LOADED = 32"

lemmas loaded_defs = PTPOBJECT_OBJECTINFO_LOADED_def PTPOBJECT_MTPPROPLIST_LOADED_def PTPOBJECT_PARENTOBJECT_LOADED_def
  PTPOBJECT_STORAGEID_LOADED_def

text \<open>The macro \<open>X\<close>.\<close>

definition info_flags :: "32 word" where
  "info_flags = PTPOBJECT_OBJECTINFO_LOADED OR PTPOBJECT_STORAGEID_LOADED OR PTPOBJECT_PARENTOBJECT_LOADED"

definition DEVICE_FLAG_BROKEN_MTPGETOBJPROPLIST :: "32 word" where "DEVICE_FLAG_BROKEN_MTPGETOBJPROPLIST = 0x00000004"
definition DEVICE_FLAG_PROPLIST_OVERRIDES_OI :: "32 word" where "DEVICE_FLAG_PROPLIST_OVERRIDES_OI = 0x40000000"

definition PTP_OPC_StorageID :: "16 word" where "PTP_OPC_StorageID = 0xDC01"
definition PTP_OPC_ObjectFormat :: "16 word" where "PTP_OPC_ObjectFormat = 0xDC02"
definition PTP_OPC_ProtectionStatus :: "16 word" where "PTP_OPC_ProtectionStatus = 0xDC03"
definition PTP_OPC_ObjectSize :: "16 word" where "PTP_OPC_ObjectSize = 0xDC04"
definition PTP_OPC_AssociationType :: "16 word" where "PTP_OPC_AssociationType = 0xDC05"
definition PTP_OPC_AssociationDesc :: "16 word" where "PTP_OPC_AssociationDesc = 0xDC06"
definition PTP_OPC_ObjectFileName :: "16 word" where "PTP_OPC_ObjectFileName = 0xDC07"
definition PTP_OPC_DateCreated :: "16 word" where "PTP_OPC_DateCreated = 0xDC08"
definition PTP_OPC_DateModified :: "16 word" where "PTP_OPC_DateModified = 0xDC09"
definition PTP_OPC_Keywords :: "16 word" where "PTP_OPC_Keywords = 0xDC0A"
definition PTP_OPC_ParentObject :: "16 word" where "PTP_OPC_ParentObject = 0xDC0B"

text \<open>\<open>strdup\<close> gives NULL where there is no memory.\<close>

definition strdup :: "PTPParams \<Rightarrow> octet list \<Rightarrow> octet list option" where
  "strdup P s = (if can_alloc P (length s + 1) then Some s else None)"

text \<open>
  One property of the object overrides a field of its description. The members of the union are read as the code of the property
  asks, whatever the type of the value is; the model has a value for them only where they were written as such.
\<close>

definition override_oi :: "PTPParams \<Rightarrow> host \<Rightarrow> MTPProperties \<Rightarrow> PTPObjectInfo \<Rightarrow> PTPObjectInfo option" where
  "override_oi P H prop info =
    (let v = propval prop; is = (\<lambda>c. property prop = c) in
     if is PTP_OPC_StorageID then do { x \<leftarrow> u32 v; Some (info\<lparr> StorageID := x \<rparr>) }
     else if is PTP_OPC_ObjectFormat then do { x \<leftarrow> u16 v; Some (info\<lparr> ObjectFormat := x \<rparr>) }
     else if is PTP_OPC_ProtectionStatus then do { x \<leftarrow> u16 v; Some (info\<lparr> ProtectionStatus := x \<rparr>) }
     else if is PTP_OPC_ObjectSize then
       if mtp_datatype prop = PTP_DTC_UINT64 then
         do { x \<leftarrow> u64 v; Some (info\<lparr> ObjectCompressedSize := (if x > 0xFFFFFFFF then 0xFFFFFFFF else x) \<rparr>) }
       else if mtp_datatype prop = PTP_DTC_UINT32 then do { x \<leftarrow> u32 v; Some (info\<lparr> ObjectCompressedSize := ucast x \<rparr>) }
       else Some info
     else if is PTP_OPC_AssociationType then do { x \<leftarrow> u16 v; Some (info\<lparr> AssociationType := x \<rparr>) }
     else if is PTP_OPC_AssociationDesc then do { x \<leftarrow> u32 v; Some (info\<lparr> AssociationDesc := x \<rparr>) }
     else if is PTP_OPC_ObjectFileName then
       do { x \<leftarrow> str v; Some (case x of None \<Rightarrow> info | Some n \<Rightarrow> info\<lparr> Filename := strdup P n \<rparr>) }
     else if is PTP_OPC_DateCreated then do { x \<leftarrow> str v; Some (info\<lparr> CaptureDate := ptp_unpack_PTPTIME (mktime H) x \<rparr>) }
     else if is PTP_OPC_DateModified then do { x \<leftarrow> str v; Some (info\<lparr> ModificationDate := ptp_unpack_PTPTIME (mktime H) x \<rparr>) }
     else if is PTP_OPC_Keywords then
       do { x \<leftarrow> str v; Some (case x of None \<Rightarrow> info | Some n \<Rightarrow> info\<lparr> Keywords := strdup P n \<rparr>) }
     else if is PTP_OPC_ParentObject then do { x \<leftarrow> u32 v; Some (info\<lparr> ParentObject := x \<rparr>) }
     else Some info)"

fun override_all :: "PTPParams \<Rightarrow> host \<Rightarrow> 32 word \<Rightarrow> MTPProperties list \<Rightarrow> PTPObjectInfo \<Rightarrow> PTPObjectInfo option" where
  "override_all P H handle [] info = Some info"
| "override_all P H handle (prop # ps) info =
    do { info \<leftarrow> (if ObjectHandle prop \<noteq> handle then Some info else override_oi P H prop info);
         override_all P H handle ps info }"

text \<open>
  \<open>ob\<close> points into the array; while it is used, nothing is inserted or removed. A transport that did would leave it dangling, which
  the model has at the index of the element.
\<close>

definition set_ob :: "nat \<Rightarrow> PTPObject \<Rightarrow> 'w ptp \<Rightarrow> 'w ptp" where
  "set_ob i ob s = s\<lparr> objects := (objects s)[i := ob] \<rparr>"

definition the_ob :: "nat \<Rightarrow> 'w ptp \<Rightarrow> PTPObject option" where
  "the_ob i s = (if i < length (objects s) then Some (objects s ! i) else None)"

text \<open>The name of an object without one is \<open><none>\<close>.\<close>

definition none_name :: "octet list" where
  "none_name = [0x3c, 0x6e, 0x6f, 0x6e, 0x65, 0x3e]"

text \<open>Canon's special flags are the flags of the first folder entry.\<close>

definition load_canon_flags :: "'w transport \<Rightarrow> 'w ptp \<Rightarrow> 32 word \<Rightarrow> nat \<Rightarrow> 'w ptp option" where
  "load_canon_flags T s handle i =
    do { sup \<leftarrow> (if VendorExtensionID (deviceinfo s) = PTP_VENDOR_CANON then ptp_operation_issupported s PTP_OC_CANON_GetObjectInfoEx
               else Some False);
         if sup then do {
           ob \<leftarrow> the_ob i s;
           (ret, ents, numents, s) \<leftarrow> ptp_canon_getobjectinfo T s (StorageID (oi ob)) 0 (ParentObject (oi ob)) handle None 0;
           if ret = PTP_RC_OK \<and> numents \<ge> 1 then do {
             es \<leftarrow> ents;
             ob \<leftarrow> the_ob i s;
             Some (set_ob i (ob\<lparr> canon_flags := ucast (fe_Flags (es ! 0)) \<rparr>) s) }
           else Some s }
         else Some s }"

text \<open>The description from the device; an object that it does not describe leaves the cache.\<close>

definition load_info :: "'w transport \<Rightarrow> host \<Rightarrow> 'w ptp \<Rightarrow> 32 word \<Rightarrow> nat \<Rightarrow> (16 word \<times> 'w ptp) option" where
  "load_info T H s handle i =
    do { ob \<leftarrow> the_ob i s;
         let known = (flags ob AND PTPOBJECT_PARENTOBJECT_LOADED \<noteq> 0);
         let saveparent = ParentObject (oi ob);
         (ret, info, s) \<leftarrow> ptp_getobjectinfo T H s handle (oi ob);
         if ret \<noteq> PTP_RC_OK then Some (ret, s\<lparr> objects := ptp_remove_object_from_cache (objects s) handle \<rparr>)
         else do {
           let info = (if Filename info = None then info\<lparr> Filename := strdup (pack s) none_name \<rparr> else info);
           let info = (if known then info\<lparr> ParentObject := saveparent \<rparr> else info);
           let info = (if ParentObject info = handle then info\<lparr> ParentObject := 0 \<rparr> else info);
           ob \<leftarrow> the_ob i s;
           s \<leftarrow> load_canon_flags T (set_ob i (ob\<lparr> oi := info \<rparr>) s) handle i;
           ob \<leftarrow> the_ob i s;
           Some (PTP_RC_OK, set_ob i (ob\<lparr> flags := flags ob OR info_flags \<rparr>) s) } }"

text \<open>The properties of the object, with what is wanted afterwards: no longer the properties where the device cannot list them.\<close>

definition load_props :: "'w transport \<Rightarrow> host \<Rightarrow> 'w ptp \<Rightarrow> 32 word \<Rightarrow> 32 word \<Rightarrow> nat \<Rightarrow> (32 word \<times> 'w ptp) option" where
  "load_props T H s handle want i =
    (let drop_want = want AND NOT PTPOBJECT_MTPPROPLIST_LOADED in
     if device_flags s AND DEVICE_FLAG_BROKEN_MTPGETOBJPROPLIST \<noteq> 0 then Some (drop_want, s)
     else do {
       sup \<leftarrow> ptp_operation_issupported s PTP_OC_MTP_GetObjPropList;
       if \<not> sup then Some (drop_want, s)
       else do {
         (ret, props, n, s) \<leftarrow> ptp_mtp_getobjectproplist_single T H s handle None 0;
         if ret \<noteq> PTP_RC_OK then Some (want, s)
         else do {
           let ps = (case props of None \<Rightarrow> [] | Some ps \<Rightarrow> ps);
           ob \<leftarrow> the_ob i s;
           info \<leftarrow> (if device_flags s AND DEVICE_FLAG_PROPLIST_OVERRIDES_OI \<noteq> 0 then override_all (pack s) H handle ps (oi ob)
                  else Some (oi ob));
           Some (want, set_ob i (ob\<lparr> mtpprops := ps, oi := info, flags := flags ob OR PTPOBJECT_MTPPROPLIST_LOADED \<rparr>) s) } } })"

text \<open>The result and the index of the object.\<close>

definition ptp_object_want :: "'w transport \<Rightarrow> host \<Rightarrow> 'w ptp \<Rightarrow> 32 word \<Rightarrow> 32 word \<Rightarrow> (16 word \<times> nat option \<times> 'w ptp) option" where
  "ptp_object_want T H s handle want =
    (let want = (if device_flags s AND DEVICE_FLAG_PROPLIST_OVERRIDES_OI \<noteq> 0 then want OR PTPOBJECT_MTPPROPLIST_LOADED else want) in
     if handle = 0 then Some (PTP_RC_GeneralError, None, s)
     else do {
       (obs, found) \<leftarrow> ptp_object_find_or_insert (pack s) (objects s) handle;
       let s = s\<lparr> objects := obs \<rparr>;
       case found of
         None \<Rightarrow> Some (PTP_RC_GeneralError, None, s)
       | Some i \<Rightarrow> do {
           ob \<leftarrow> the_ob i s;
           if flags ob AND want = want then Some (PTP_RC_OK, Some i, s)
           else do {
             (ret, s) \<leftarrow> (if want AND info_flags \<noteq> 0 \<and> flags ob AND info_flags \<noteq> info_flags then load_info T H s handle i
                         else Some (PTP_RC_OK, s));
             if ret \<noteq> PTP_RC_OK then Some (ret, Some i, s)
             else do {
               ob \<leftarrow> the_ob i s;
               (want, s) \<leftarrow> (if want AND PTPOBJECT_MTPPROPLIST_LOADED \<noteq> 0 \<and> flags ob AND PTPOBJECT_MTPPROPLIST_LOADED = 0
                            then load_props T H s handle want i else Some (want, s));
               ob \<leftarrow> the_ob i s;
               Some (if flags ob AND want = want then PTP_RC_OK else PTP_RC_GeneralError, Some i, s) } } } })"

definition ptp_add_object_to_cache :: "'w transport \<Rightarrow> host \<Rightarrow> 'w ptp \<Rightarrow> 32 word \<Rightarrow> (16 word \<times> 'w ptp) option" where
  "ptp_add_object_to_cache T H s handle =
    do { (ret, _, s) \<leftarrow> ptp_object_want T H s handle (PTPOBJECT_OBJECTINFO_LOADED OR PTPOBJECT_MTPPROPLIST_LOADED);
         Some (ret, s) }"

end
