(* ===== verification/Ptp_Ip.thy ===== *)
theory Ptp_Ip
  imports Ptp_Usb Ptp_Queue
begin

text \<open>
  camlibs/ptp2/ptpip.c: PTP over two sockets, one for commands and data and one for events. A packet is a header of 8 bytes (length,
  type) and a payload. Reading and writing go through the system calls of \<open>'w files\<close>; \<open>None\<close> is what C leaves undefined, or a loop that
  does not end.
\<close>

section \<open>Sockets\<close>

text \<open>
  \<open>select\<close> on one descriptor with a time in microseconds; what \<open>gethostname\<close> stores in an array of 100 bytes, if it does not fail; and
  what the variable \<open>event\<close> of \<open>ptp_ptpip_check_event\<close> holds before it is set.
\<close>

record 'w net =
  net_select :: "int \<Rightarrow> nat \<Rightarrow> 'w \<Rightarrow> int \<times> 'w"
  net_hostname :: "'w \<Rightarrow> octet list option \<times> 'w"
  stack_event :: PTPContainer

definition sock_read :: "'w files \<Rightarrow> int \<Rightarrow> nat \<Rightarrow> 'w ptp \<Rightarrow> (int + octet list) \<times> 'w ptp" where
  "sock_read F fd n s = (case on_world (sys_read F fd n) s of (r, s) \<Rightarrow> (map_sum id (take n) r, s))"

definition sock_write :: "'w files \<Rightarrow> int \<Rightarrow> octet list \<Rightarrow> 'w ptp \<Rightarrow> (int + nat) \<times> 'w ptp" where
  "sock_write F fd bs s = (case on_world (sys_write F fd bs) s of (r, s) \<Rightarrow> (map_sum id (min (length bs)) r, s))"

section \<open>Packets\<close>

definition PTPIP_VERSION_MAJOR :: "16 word" where "PTPIP_VERSION_MAJOR = 0x0001"
definition PTPIP_VERSION_MINOR :: "16 word" where "PTPIP_VERSION_MINOR = 0x0000"

definition PTPIP_INIT_COMMAND_REQUEST :: "32 word" where "PTPIP_INIT_COMMAND_REQUEST = 1"
definition PTPIP_INIT_COMMAND_ACK :: "32 word" where "PTPIP_INIT_COMMAND_ACK = 2"
definition PTPIP_INIT_EVENT_REQUEST :: "32 word" where "PTPIP_INIT_EVENT_REQUEST = 3"
definition PTPIP_INIT_EVENT_ACK :: "32 word" where "PTPIP_INIT_EVENT_ACK = 4"
definition PTPIP_CMD_REQUEST :: "32 word" where "PTPIP_CMD_REQUEST = 6"
definition PTPIP_CMD_RESPONSE :: "32 word" where "PTPIP_CMD_RESPONSE = 7"
definition PTPIP_EVENT :: "32 word" where "PTPIP_EVENT = 8"
definition PTPIP_START_DATA_PACKET :: "32 word" where "PTPIP_START_DATA_PACKET = 9"
definition PTPIP_DATA_PACKET :: "32 word" where "PTPIP_DATA_PACKET = 10"
definition PTPIP_END_DATA_PACKET :: "32 word" where "PTPIP_END_DATA_PACKET = 12"

definition WRITE_BLOCKSIZE :: nat where "WRITE_BLOCKSIZE = 65536"

abbreviation (input) sizeof_PTPIPHeader :: nat where "sizeof_PTPIPHeader \<equiv> 8"

text \<open>The reading loops of \<open>ptp_ptpip_generic_read\<close>: all bytes, or none at an error or the end of the stream.\<close>

function read_full :: "'w files \<Rightarrow> int \<Rightarrow> nat \<Rightarrow> 'w ptp \<Rightarrow> octet list option \<times> 'w ptp" where
  "read_full F fd n s =
    (if n = 0 then (Some [], s)
     else case sock_read F fd n s of
       (Inl e, s) \<Rightarrow> (None, s)
     | (Inr bs, s) \<Rightarrow>
         if bs = [] then (None, s)
         else (case read_full F fd (n - length bs) s of (r, s) \<Rightarrow> (map_option ((@) bs) r, s)))"
  by pat_completeness auto
termination
  by (relation "measure (\<lambda>(F, fd, n, s). n)") (auto simp: length_greater_0_conv [symmetric] simp del: length_greater_0_conv)

declare read_full.simps [simp del]

text \<open>The result code, the header and the data behind it. The length is an \<open>int\<close>.\<close>

definition ptp_ptpip_generic_read :: "'w files \<Rightarrow> int \<Rightarrow> 'w ptp \<Rightarrow> (16 word \<times> octet list \<times> octet list \<times> 'w ptp) option" where
  "ptp_ptpip_generic_read F fd s =
    (case read_full F fd sizeof_PTPIPHeader s of
       (None, s) \<Rightarrow> Some (PTP_RC_GeneralError, [], [], s)
     | (Some hdr, s) \<Rightarrow> do {
         length32 \<leftarrow> dtoh32ap (pack s) hdr 0;
         let len = sint (length32 - of_nat sizeof_PTPIPHeader);
         if len < 0 \<or> \<not> can_alloc (pack s) (nat len) then Some (PTP_RC_GeneralError, [], [], s)
         else case read_full F fd (nat len) s of
                (None, s) \<Rightarrow> Some (PTP_RC_GeneralError, [], [], s)
              | (Some data, s) \<Rightarrow> Some (PTP_RC_OK, hdr, data, s) })"

definition ptp_ptpip_evt_read :: "'w files \<Rightarrow> 'w ptp \<Rightarrow> (16 word \<times> octet list \<times> octet list \<times> 'w ptp) option" where
  "ptp_ptpip_evt_read F s = ptp_ptpip_generic_read F (evtfd s) s"

section \<open>Events\<close>

text \<open>
  The parameters behind a code and a transaction number: \<open>n\<close> of them, which is computed from the length in the header. One is
  stored if \<open>b\<close> holds, through the update function \<open>upd\<close> of its field.
\<close>

definition param_if :: "PTPParams \<Rightarrow> octet list \<Rightarrow> bool \<Rightarrow> nat \<Rightarrow> ((32 word \<Rightarrow> 32 word) \<Rightarrow> PTPContainer \<Rightarrow> PTPContainer) \<Rightarrow> PTPContainer \<Rightarrow> PTPContainer option" where
  "param_if P data b i upd c = (if b then do { p \<leftarrow> dtoh32ap P data i; Some (upd (\<lambda>_. p) c) } else Some c)"

definition param_count :: "PTPParams \<Rightarrow> octet list \<Rightarrow> nat option" where
  "param_count P hdr = do { length32 \<leftarrow> dtoh32ap P hdr 0; Some (ulong (unat length32 + 2 ^ 64 - sizeof_PTPIPHeader - 6) div 4) }"

text \<open>The loop of \<open>ptp_ptpip_event\<close>, which reads packets until one is an event.\<close>

partial_function (option) next_event :: "'w net \<Rightarrow> 'w files \<Rightarrow> event_mode \<Rightarrow> 'w ptp \<Rightarrow> (16 word \<times> octet list \<times> octet list \<times> 'w ptp) option" where
  "next_event N F wait s =
    (case on_world (net_select N (evtfd s) (case wait of PTP_EVENT_CHECK_FAST \<Rightarrow> 1 | PTP_EVENT_CHECK \<Rightarrow> 1000)) s of (ret, s) \<Rightarrow>
     if ret \<noteq> 1 then Some (if ret = -1 then PTP_ERROR_IO else PTP_ERROR_TIMEOUT, [], [], s)
     else do {
       (ret, hdr, data, s) \<leftarrow> ptp_ptpip_evt_read F s;
       if ret \<noteq> PTP_RC_OK then Some (ret, [], [], s)
       else do {
         type \<leftarrow> dtoh32ap (pack s) hdr 4;
         if type = PTPIP_EVENT then Some (PTP_RC_OK, hdr, data, s) else next_event N F wait s } })"

text \<open>A pointer to the event that is NULL is not noticed until an event comes. With more than three parameters none is stored.\<close>

definition ptp_ptpip_event :: "'w net \<Rightarrow> 'w files \<Rightarrow> 'w ptp \<Rightarrow> PTPContainer option \<Rightarrow> event_mode \<Rightarrow> (16 word \<times> PTPContainer option \<times> 'w ptp) option" where
  "ptp_ptpip_event N F s event wait =
    do {
      (ret, hdr, data, s) \<leftarrow> next_event N F wait s;
      if ret \<noteq> PTP_RC_OK then Some (ret, event, s)
      else do {
        let P = pack s;
        ev \<leftarrow> event;
        code \<leftarrow> dtoh16ap P data 0;
        tid \<leftarrow> dtoh32ap P data 2;
        n \<leftarrow> param_count P hdr;
        let ev = ev\<lparr> Code := code, Transaction_ID := tid \<rparr>;
        ev \<leftarrow> param_if P data (n = 3) 14 Param3_update ev;
        ev \<leftarrow> param_if P data (n \<in> {2, 3}) 10 Param2_update ev;
        ev \<leftarrow> param_if P data (n \<in> {1, 2, 3}) 6 Param1_update ev;
        Some (PTP_RC_OK, Some ev, s) } }"

definition ptp_ptpip_event_check :: "'w net \<Rightarrow> 'w files \<Rightarrow> 'w ptp \<Rightarrow> PTPContainer option \<Rightarrow> (16 word \<times> PTPContainer option \<times> 'w ptp) option" where
  "ptp_ptpip_event_check N F s event = ptp_ptpip_event N F s event PTP_EVENT_CHECK_FAST"

definition ptp_ptpip_event_wait :: "'w net \<Rightarrow> 'w files \<Rightarrow> 'w ptp \<Rightarrow> PTPContainer option \<Rightarrow> (16 word \<times> PTPContainer option \<times> 'w ptp) option" where
  "ptp_ptpip_event_wait N F s event = ptp_ptpip_event N F s event PTP_EVENT_CHECK"

definition ptp_ptpip_check_event :: "'w net \<Rightarrow> 'w files \<Rightarrow> 'w ptp \<Rightarrow> (16 word \<times> 'w ptp) option" where
  "ptp_ptpip_check_event N F s =
    do {
      (ret, event, s) \<leftarrow> ptp_ptpip_event N F s (Some ((stack_event N)\<lparr> Code := 0 \<rparr>)) PTP_EVENT_CHECK_FAST;
      if ret \<noteq> PTP_RC_OK then Some (ret, s)
      else do { event \<leftarrow> event; if Code event = 0 then Some (ret, s) else ptp_add_event s event } }"

text \<open>Before each packet of commands the events are looked at; what comes of it is ignored.\<close>

definition ptp_ptpip_cmd_read :: "'w net \<Rightarrow> 'w files \<Rightarrow> 'w ptp \<Rightarrow> (16 word \<times> octet list \<times> octet list \<times> 'w ptp) option" where
  "ptp_ptpip_cmd_read N F s = do { (_, s) \<leftarrow> ptp_ptpip_check_event N F s; ptp_ptpip_generic_read F (cmdfd s) s }"

section \<open>Sending\<close>

text \<open>The request is reported as sent whatever \<open>write\<close> says. With more than five parameters the bytes behind the transaction number are not set.\<close>

definition ptp_ptpip_sendreq :: "'w net \<Rightarrow> 'w files \<Rightarrow> 'w ptp \<Rightarrow> PTPContainer \<Rightarrow> (16 word \<times> 'w ptp) option" where
  "ptp_ptpip_sendreq N F s req =
    (let P = pack s; n = unat (Nparam req); len = 18 + 4 * n;
         ps = htod32ap P (Param1 req) @ htod32ap P (Param2 req) @ htod32ap P (Param3 req) @ htod32ap P (Param4 req) @ htod32ap P (Param5 req);
         request = htod32ap P (of_nat len) @ htod32ap P PTPIP_CMD_REQUEST @ htod32ap P 1 @ htod16ap P (Code req) @ htod32ap P (Transaction_ID req) @
           (if n \<le> 5 then take (4 * n) ps else map (uninit P) [18..<len])
     in do {
       (_, s) \<leftarrow> ptp_ptpip_check_event N F s;
       if \<not> can_alloc P len then None
       else case sock_write F (cmdfd s) request s of (_, s) \<Rightarrow> Some (PTP_RC_OK, s) })"

text \<open>The inner loop of \<open>ptp_ptpip_senddata\<close>: whether all was written. Writes that take nothing are repeated for ever.\<close>

partial_function (option) write_all :: "'w files \<Rightarrow> int \<Rightarrow> octet list \<Rightarrow> 'w ptp \<Rightarrow> (bool \<times> 'w ptp) option" where
  "write_all F fd bs s =
    (if bs = [] then Some (True, s)
     else case sock_write F fd bs s of
            (Inl e, s) \<Rightarrow> Some (False, s)
          | (Inr n, s) \<Rightarrow> write_all F fd (drop n bs) s)"

definition uint32 :: "nat \<Rightarrow> nat" where "uint32 n = n mod 2 ^ 32"

text \<open>
  The outer loop. \<open>curwrite\<close> and \<open>towrite\<close> have 32 bits, the size has 64. A handler never returns -1; where it fails, the number of
  bytes that it got is not set. The loop counts what it asked for, not what it got.
\<close>

partial_function (option) ip_send_loop :: "'w net \<Rightarrow> 'w files \<Rightarrow> 32 word \<Rightarrow> nat \<Rightarrow> nat \<Rightarrow> PTPDataHandler \<Rightarrow> 'w ptp \<Rightarrow>
    (16 word \<times> PTPDataHandler \<times> 'w ptp) option" where
  "ip_send_loop N F tid curwrite sz handler s =
    (if curwrite \<ge> sz then Some (PTP_RC_OK, handler, s)
     else do {
       (_, s) \<leftarrow> ptp_ptpip_check_event N F s;
       let rest = uint32 (sz - curwrite);
       let towrite = min rest WRITE_BLOCKSIZE;
       let type = (if rest > WRITE_BLOCKSIZE then PTPIP_DATA_PACKET else PTPIP_END_DATA_PACKET);
       (ret, bs, handler, s) \<leftarrow> getfunc F handler towrite s;
       if ret \<noteq> PTP_RC_OK then None
       else do {
         let P = pack s;
         (ok, s) \<leftarrow> write_all F (cmdfd s) (htod32ap P (of_nat (length bs + 12)) @ htod32ap P type @ htod32ap P tid @ bs) s;
         if \<not> ok then Some (PTP_RC_GeneralError, handler, s)
         else ip_send_loop N F tid (uint32 (curwrite + towrite)) sz handler s } })"

definition ptp_ptpip_senddata :: "'w net \<Rightarrow> 'w files \<Rightarrow> 'w ptp \<Rightarrow> PTPContainer \<Rightarrow> nat \<Rightarrow> PTPDataHandler \<Rightarrow>
    (16 word \<times> PTPDataHandler \<times> 'w ptp) option" where
  "ptp_ptpip_senddata N F s ptp sz handler =
    (let P = pack s;
         request = htod32ap P 0x14 @ htod32ap P PTPIP_START_DATA_PACKET @ htod32ap P (Transaction_ID ptp) @ htod32ap P (of_nat sz) @ htod32ap P 0
     in case sock_write F (cmdfd s) request s of (ret, s) \<Rightarrow>
        if ret \<noteq> Inr 0x14 then Some (PTP_RC_GeneralError, handler, s)
        else if \<not> can_alloc P (WRITE_BLOCKSIZE + 8 + 4) then Some (PTP_RC_GeneralError, handler, s)
        else ip_send_loop N F (Transaction_ID ptp) 0 sz handler s)"

section \<open>Receiving\<close>

text \<open>
  The loop of \<open>ptp_ptpip_getdata\<close>: the number of bytes that the handler took. The length of the data is computed in 32 bits. Packets of other types are skipped.
  A handler never returns -1; where it fails, the number of bytes that it took is not set.
\<close>

partial_function (option) ip_recv_loop :: "'w net \<Rightarrow> 'w files \<Rightarrow> nat \<Rightarrow> nat \<Rightarrow> PTPDataHandler \<Rightarrow> 'w ptp \<Rightarrow>
    (16 word \<times> PTPDataHandler \<times> 'w ptp) option" where
  "ip_recv_loop N F toread curread handler s =
    (if curread \<ge> toread then Some (PTP_RC_OK, handler, s)
     else do {
       (ret, hdr, xdata, s) \<leftarrow> ptp_ptpip_cmd_read N F s;
       if ret \<noteq> PTP_RC_OK then Some (ret, handler, s)
       else do {
         type \<leftarrow> dtoh32ap (pack s) hdr 4;
         if type = PTPIP_END_DATA_PACKET \<or> type = PTPIP_DATA_PACKET then do {
           length32 \<leftarrow> dtoh32ap (pack s) hdr 0;
           let datalen = unat (length32 - 8 - 4);
           if datalen > toread - curread then Some (PTP_RC_GeneralError, handler, s)
           else do {
             (ret, written, handler, s) \<leftarrow> putfunc F handler datalen (drop 4 xdata) s;
             written \<leftarrow> written;
             ip_recv_loop N F toread (ulong (curread + written)) handler s } }
         else ip_recv_loop N F toread curread handler s } })"

text \<open>A response in the place of data is logged with four bytes at 8, which a response with less than two parameters does not have.\<close>

definition ptp_ptpip_getdata :: "'w net \<Rightarrow> 'w files \<Rightarrow> 'w ptp \<Rightarrow> PTPContainer \<Rightarrow> PTPDataHandler \<Rightarrow> (16 word \<times> PTPDataHandler \<times> 'w ptp) option" where
  "ptp_ptpip_getdata N F s ptp handler =
    do {
      (ret, hdr, xdata, s) \<leftarrow> ptp_ptpip_cmd_read N F s;
      if ret \<noteq> PTP_RC_OK then Some (ret, handler, s)
      else do {
        type \<leftarrow> dtoh32ap (pack s) hdr 4;
        if type = PTPIP_CMD_RESPONSE then do { _ \<leftarrow> dtoh32ap (pack s) xdata 8; Some (PTP_RC_GeneralError, handler, s) }
        else if type \<noteq> PTPIP_START_DATA_PACKET then Some (PTP_RC_GeneralError, handler, s)
        else do {
          toread \<leftarrow> dtoh32ap (pack s) xdata 4;
          ip_recv_loop N F (unat toread) 0 handler s } } }"

text \<open>The type of the packet is not looked at, and \<open>Nparam\<close> is not set.\<close>

definition ptp_ptpip_getresp :: "'w net \<Rightarrow> 'w files \<Rightarrow> 'w ptp \<Rightarrow> PTPContainer \<Rightarrow> (16 word \<times> PTPContainer \<times> 'w ptp) option" where
  "ptp_ptpip_getresp N F s resp =
    do {
      (ret, hdr, data, s) \<leftarrow> ptp_ptpip_cmd_read N F s;
      if ret \<noteq> PTP_RC_OK then Some (ret, resp, s)
      else do {
        let P = pack s;
        code \<leftarrow> dtoh16ap P data 0;
        tid \<leftarrow> dtoh32ap P data 2;
        n \<leftarrow> param_count P hdr;
        let resp = resp\<lparr> Code := code, Transaction_ID := tid \<rparr>;
        resp \<leftarrow> param_if P data (n = 5) 22 Param5_update resp;
        resp \<leftarrow> param_if P data (n \<in> {4, 5}) 18 Param4_update resp;
        resp \<leftarrow> param_if P data (n \<in> {3, 4, 5}) 14 Param3_update resp;
        resp \<leftarrow> param_if P data (n \<in> {2, 3, 4, 5}) 10 Param2_update resp;
        resp \<leftarrow> param_if P data (n \<in> {1, 2, 3, 4, 5}) 6 Param1_update resp;
        Some (PTP_RC_OK, resp, s) } }"

section \<open>Opening the connection\<close>

text \<open>
  The exchange on the open sockets, with the identity of the host (16 bytes) as an argument. A host name without a terminator in its 100 bytes is
  read behind them. The result of \<open>malloc\<close> is not checked.
\<close>

definition ptp_ptpip_init_command_request :: "'w net \<Rightarrow> 'w files \<Rightarrow> octet list \<Rightarrow> 'w ptp \<Rightarrow> (16 word \<times> 'w ptp) option" where
  "ptp_ptpip_init_command_request N F guid s =
    (case on_world (net_hostname N) s of
       (None, s) \<Rightarrow> Some (PTP_RC_GeneralError, s)
     | (Some buf, s) \<Rightarrow>
         let P = pack s; hostname = upto_nul buf; len = 24 + (length hostname + 1) * 2 + 4;
             cmdrequest = htod32ap P (of_nat len) @ htod32ap P PTPIP_INIT_COMMAND_REQUEST @ guid @
               concat (map (\<lambda>c. [c, 0]) (hostname @ [0])) @ htod16ap P PTPIP_VERSION_MINOR @ htod16ap P PTPIP_VERSION_MAJOR
         in if 0 \<notin> set buf \<or> \<not> can_alloc P len then None
            else case sock_write F (cmdfd s) cmdrequest s of (ret, s) \<Rightarrow>
              Some (if ret \<noteq> Inr len then PTP_RC_GeneralError else PTP_RC_OK, s))"

text \<open>The 16 bit numbers, in the byte order of the host, up to one that is 0. The name of the camera gets one byte of each, and no terminator.\<close>

fun host_shorts :: "octet list \<Rightarrow> 16 word list option" where
  "host_shorts (a # b # bs) = (if a = 0 \<and> b = 0 then Some [] else map_option ((#) (le_value [a, b])) (host_shorts bs))"
| "host_shorts _ = None"

definition ptp_ptpip_init_command_ack :: "'w files \<Rightarrow> 'w ptp \<Rightarrow> (16 word \<times> 'w ptp) option" where
  "ptp_ptpip_init_command_ack F s =
    do {
      (ret, hdr, data, s) \<leftarrow> ptp_ptpip_generic_read F (cmdfd s) s;
      if ret \<noteq> PTP_RC_OK then Some (ret, s)
      else do {
        let P = pack s;
        type \<leftarrow> dtoh32ap P hdr 4;
        if type \<noteq> PTPIP_INIT_COMMAND_ACK then Some (PTP_RC_GeneralError, s)
        else do {
          i \<leftarrow> dtoh32ap P data 0;
          guid \<leftarrow> peek data 4 16;
          name \<leftarrow> host_shorts (drop 20 data);
          let n = 2 * (length name + 1);
          if \<not> can_alloc P n then None
          else Some (PTP_RC_OK, s\<lparr> eventpipeid := i, cameraguid := guid,
                 cameraname := Some (map ucast name @ map (uninit P) [length name..<n]) \<rparr>) } } }"

definition ptp_ptpip_init_event_request :: "'w files \<Rightarrow> 'w ptp \<Rightarrow> 16 word \<times> 'w ptp" where
  "ptp_ptpip_init_event_request F s =
    (let P = pack s; evtrequest = htod32ap P 12 @ htod32ap P PTPIP_INIT_EVENT_REQUEST @ htod32ap P (eventpipeid s) in
     case sock_write F (evtfd s) evtrequest s of (ret, s) \<Rightarrow> (if ret \<noteq> Inr 12 then PTP_RC_GeneralError else PTP_RC_OK, s))"

definition ptp_ptpip_init_event_ack :: "'w files \<Rightarrow> 'w ptp \<Rightarrow> (16 word \<times> 'w ptp) option" where
  "ptp_ptpip_init_event_ack F s =
    do {
      (ret, hdr, data, s) \<leftarrow> ptp_ptpip_evt_read F s;
      if ret \<noteq> PTP_RC_OK then Some (ret, s)
      else do {
        type \<leftarrow> dtoh32ap (pack s) hdr 4;
        Some (if type \<noteq> PTPIP_INIT_EVENT_ACK then PTP_RC_GeneralError else PTP_RC_OK, s) } }"

text \<open>The table that the driver installs for cameras on the network. The pointer \<open>cancelreq_func\<close> stays NULL.\<close>

definition ip_transport :: "'w net \<Rightarrow> 'w files \<Rightarrow> 'w transport" where
  "ip_transport N F = \<lparr> sendreq_func = ptp_ptpip_sendreq N F, senddata_func = ptp_ptpip_senddata N F, getdata_func = ptp_ptpip_getdata N F,
     getresp_func = ptp_ptpip_getresp N F, event_check = ptp_ptpip_event_check N F, event_wait = ptp_ptpip_event_wait N F,
     cancelreq_func = \<lambda>s i. None \<rparr>"

end
