(* ===== verification/Ptp_Folder.thy ===== *)
theory Ptp_Folder
  imports Ptp_Queue
begin

text \<open>
  The listing of a folder in camlibs/ptp2/library.c, the second place where objects enter the cache: the handles that the device sends are
  appended to the array as they come, and the array is sorted afterwards. The log and the freeing of the arrays of handles are left out.
\<close>

section \<open>Codes\<close>

definition PTPOBJECT_DIRECTORY_LOADED :: "32 word" where "PTPOBJECT_DIRECTORY_LOADED = 8"
definition PTP_HANDLER_SPECIAL :: "32 word" where "PTP_HANDLER_SPECIAL = 0xffffffff"
definition PTP_OFC_Association :: "16 word" where "PTP_OFC_Association = 0x3001"
definition PTP_DPGS_Get :: "16 word" where "PTP_DPGS_Get = 0"
definition PTP_RC_ParameterNotSupported :: "16 word" where "PTP_RC_ParameterNotSupported = 0x2006"

section \<open>The loop over the handles\<close>

text \<open>The search runs once round the array, from the element that was found last.\<close>

definition find_from :: "PTPObject list \<Rightarrow> nat \<Rightarrow> 32 word \<Rightarrow> nat option" where
  "find_from obs latest handle =
    map_option (\<lambda>j. (latest + j) mod length obs) (find (\<lambda>j. oid (obs ! ((latest + j) mod length obs)) = handle) [0..<length obs])"

definition with_parent :: "32 word \<Rightarrow> PTPObject \<Rightarrow> PTPObject" where
  "with_parent parent ob = ob\<lparr> oi := (oi ob)\<lparr> ParentObject := parent \<rparr>, flags := flags ob OR PTPOBJECT_PARENTOBJECT_LOADED \<rparr>"

definition with_storage :: "32 word \<Rightarrow> PTPObject \<Rightarrow> PTPObject" where
  "with_storage storage ob = ob\<lparr> oi := (oi ob)\<lparr> StorageID := storage \<rparr>, flags := flags ob OR PTPOBJECT_STORAGEID_LOADED \<rparr>"

text \<open>The element for a handle that is not there yet, and what is noted in one that is.\<close>

definition added_object :: "32 word \<Rightarrow> 32 word \<Rightarrow> 32 word \<Rightarrow> PTPObject" where
  "added_object storage handle h =
    (let ob = new_object h;
         ob = (if handle \<noteq> PTP_HANDLER_SPECIAL \<and> handle \<noteq> 0 then with_parent (if h = handle then 0 else handle) ob else ob)
     in if storage \<noteq> PTP_HANDLER_SPECIAL then with_storage storage ob else ob)"

definition seen_object :: "32 word \<Rightarrow> 32 word \<Rightarrow> PTPObject \<Rightarrow> PTPObject" where
  "seen_object storage handle ob =
    (let ob = (if handle \<noteq> PTP_HANDLER_SPECIAL then with_parent handle ob else ob)
     in if storage \<noteq> PTP_HANDLER_SPECIAL then with_storage storage ob else ob)"

text \<open>
  The result, \<open>changed\<close> and the array. An addition does not move \<open>last\<close>; without memory the function returns at once, and
  what was added before stays behind the sorted part.
\<close>

fun list_handles :: "PTPParams \<Rightarrow> 32 word \<Rightarrow> 32 word \<Rightarrow> 32 word list \<Rightarrow> nat \<Rightarrow> bool \<Rightarrow> PTPObject list \<Rightarrow> 16 word \<times> bool \<times> PTPObject list" where
  "list_handles P storage handle [] latest changed obs = (PTP_RC_OK, changed, obs)"
| "list_handles P storage handle (h # hs) latest changed obs =
    (case find_from obs latest h of
       None \<Rightarrow>
         if can_alloc P (sizeof_PTPObject * (length obs + 1))
         then list_handles P storage handle hs latest True (obs @ [added_object storage handle h])
         else (PTP_RC_GeneralError, changed, obs)
     | Some i \<Rightarrow> list_handles P storage handle hs i changed (obs[i := seen_object storage handle (obs ! i)]))"

text \<open>The first \<open>n\<close> elements of an array; behind NULL there are none.\<close>

definition elements :: "32 word \<Rightarrow> 'a list option \<Rightarrow> 'a list option" where
  "elements n array = (if n = 0 then Some [] else do { xs \<leftarrow> array; if length xs < unat n then None else Some (take (unat n) xs) })"

section \<open>The fast listing of Canon's EOS\<close>

definition entry_object :: "PTPParams \<Rightarrow> 32 word \<Rightarrow> 32 word \<Rightarrow> PTPCANONFolderEntry \<Rightarrow> PTPObject" where
  "entry_object P storage handle e =
    (let ob = with_parent (if handle = 0xffffffff then 0 else handle) (with_storage storage (new_object (fe_ObjectHandle e)))
     in ob\<lparr> oi := (oi ob)\<lparr> Filename := strdup P (fe_Filename e), ObjectFormat := fe_ObjectFormatCode e, ProtectionStatus := PTP_DPGS_Get,
            ObjectCompressedSize := ucast (fe_ObjectSize e), CaptureDate := uint (fe_Time e), ModificationDate := uint (fe_Time e) \<rparr>,
          flags := flags ob OR PTPOBJECT_OBJECTINFO_LOADED \<rparr>)"

text \<open>Here an addition moves \<open>last\<close> as well.\<close>

fun list_entries :: "PTPParams \<Rightarrow> 32 word \<Rightarrow> 32 word \<Rightarrow> PTPCANONFolderEntry list \<Rightarrow> nat \<Rightarrow> bool \<Rightarrow> PTPObject list \<Rightarrow>
    16 word \<times> nat \<times> bool \<times> PTPObject list" where
  "list_entries P storage handle [] latest changed obs = (PTP_RC_OK, latest, changed, obs)"
| "list_entries P storage handle (e # es) latest changed obs =
    (case find_from obs latest (fe_ObjectHandle e) of
       None \<Rightarrow>
         if can_alloc P (sizeof_PTPObject * (length obs + 1))
         then list_entries P storage handle es (length obs) True (obs @ [entry_object P storage handle e])
         else (PTP_RC_GeneralError, latest, changed, obs)
     | Some i \<Rightarrow> list_entries P storage handle es i changed (obs[i := seen_object storage handle (obs ! i)]))"

text \<open>An error in the middle leaves what was added for the storages before unsorted.\<close>

fun list_storages :: "'w transport \<Rightarrow> 32 word \<Rightarrow> 32 word list \<Rightarrow> PTPCANONFolderEntry list option \<Rightarrow> 32 word \<Rightarrow> nat \<Rightarrow> bool \<Rightarrow> 'w ptp \<Rightarrow>
    (16 word \<times> bool \<times> 'w ptp) option" where
  "list_storages T handle [] tmp nroftmp latest changed s = Some (PTP_RC_OK, changed, s)"
| "list_storages T handle (storage # sts) tmp nroftmp latest changed s =
    do { (ret, tmp, nroftmp, s) \<leftarrow> ptp_canon_eos_getobjectinfoex T s storage (if handle \<noteq> 0 then handle else 0xffffffff) 0x100000 tmp nroftmp;
         if ret \<noteq> PTP_RC_OK then Some (ret, changed, s)
         else do {
           es \<leftarrow> elements nroftmp tmp;
           let (ret, latest, changed, obs) = list_entries (pack s) storage handle es latest changed (objects s);
           if ret \<noteq> PTP_RC_OK then Some (ret, changed, s\<lparr> objects := obs \<rparr>)
           else list_storages T handle sts tmp nroftmp latest changed (s\<lparr> objects := obs \<rparr>) } }"

type_synonym ob_sort = "(PTPObject \<Rightarrow> PTPObject \<Rightarrow> int) \<Rightarrow> PTPObject list \<Rightarrow> PTPObject list"

definition sort_if :: "ob_sort \<Rightarrow> bool \<Rightarrow> 'w ptp \<Rightarrow> 'w ptp" where
  "sort_if qsort changed s = (if changed then s\<lparr> objects := ptp_objects_sort qsort (objects s) \<rparr> else s)"

definition directory_loaded :: "nat option \<Rightarrow> 'w ptp \<Rightarrow> bool option" where
  "directory_loaded r s = do { i \<leftarrow> r; ob \<leftarrow> the_ob i s; Some (flags ob AND PTPOBJECT_DIRECTORY_LOADED \<noteq> 0) }"

definition set_directory_loaded :: "nat option \<Rightarrow> 'w ptp \<Rightarrow> 'w ptp option" where
  "set_directory_loaded r s =
    do { i \<leftarrow> r; ob \<leftarrow> the_ob i s; Some (set_ob i (ob\<lparr> flags := flags ob OR PTPOBJECT_DIRECTORY_LOADED \<rparr>) s) }"

definition ptp_list_folder_eos :: "'w transport \<Rightarrow> host \<Rightarrow> ob_sort \<Rightarrow> 'w ptp \<Rightarrow> 32 word \<Rightarrow> 32 word \<Rightarrow> (16 word \<times> 'w ptp) option" where
  "ptp_list_folder_eos T H qsort s storage handle =
    do { (loaded, s) \<leftarrow> (if handle \<noteq> 0xffffffff then
             do { (ret, r, s) \<leftarrow> ptp_object_want T H s handle PTPOBJECT_OBJECTINFO_LOADED;
                  loaded \<leftarrow> (if ret = PTP_RC_OK then directory_loaded r s else Some False);
                  Some (loaded, s) }
           else Some (False, s));
         if loaded then Some (PTP_RC_OK, s)
         else do {
           (ret, handle, ids, s) \<leftarrow> (if storage = 0xffffffff then
               do { (ret, ids, s) \<leftarrow> ptp_getstorageids T s \<lparr> sids_n = 0, Storage = None \<rparr>; Some (ret, 0xffffffff, ids, s) }
             else if can_alloc (pack s) 4 then Some (PTP_RC_OK, handle, \<lparr> sids_n = 1, Storage = Some [storage] \<rparr>, s)
             else None);
           if ret \<noteq> PTP_RC_OK then Some (ret, s)
           else do {
             sts \<leftarrow> elements (sids_n ids) (Storage ids);
             (ret, changed, s) \<leftarrow> list_storages T handle sts None 0 0 False s;
             if ret \<noteq> PTP_RC_OK then Some (ret, s)
             else do {
               let s = sort_if qsort changed s;
               s \<leftarrow> (if handle \<noteq> 0xffffffff then
                   do { (ret, r, s) \<leftarrow> ptp_object_want T H s handle PTPOBJECT_OBJECTINFO_LOADED;
                        if ret = PTP_RC_OK then set_directory_loaded r s else Some s }
                 else Some s);
               Some (PTP_RC_OK, s) } } } }"

section \<open>The listing\<close>

definition fast_listing :: "'w ptp \<Rightarrow> bool option" where
  "fast_listing s = (if VendorExtensionID (deviceinfo s) = PTP_VENDOR_CANON
     then ptp_operation_issupported s PTP_OC_CANON_EOS_GetObjectInfoEx else Some False)"

text \<open>The folder itself is completed first: the code with which the function returns here, or \<open>None\<close> if it goes on.\<close>

definition enter_folder :: "'w transport \<Rightarrow> host \<Rightarrow> 'w ptp \<Rightarrow> 32 word \<Rightarrow> (16 word option \<times> 'w ptp) option" where
  "enter_folder T H s handle =
    do { (ret, r, s) \<leftarrow> ptp_object_want T H s handle PTPOBJECT_OBJECTINFO_LOADED;
         if ret \<noteq> PTP_RC_OK then Some (Some ret, s)
         else do {
           i \<leftarrow> r;
           ob \<leftarrow> the_ob i s;
           if ObjectFormat (oi ob) \<noteq> PTP_OFC_Association then Some (Some PTP_RC_GeneralError, s)
           else if flags ob AND PTPOBJECT_DIRECTORY_LOADED \<noteq> 0 then Some (Some PTP_RC_OK, s)
           else do { s \<leftarrow> set_directory_loaded r s; Some (None, s) } } }"

text \<open>The handles of the folder, with the storage and the folder that the loop then works with.\<close>

definition folder_handles :: "'w transport \<Rightarrow> 'w ptp \<Rightarrow> 32 word \<Rightarrow> 32 word \<Rightarrow>
    (16 word \<times> PTPObjectHandles \<times> 32 word \<times> 32 word \<times> 'w ptp) option" where
  "folder_handles T s storage handle =
    (let none = \<lparr> oh_n = 0, Handler = None \<rparr>; xhandle = (if handle = 0 then PTP_HANDLER_SPECIAL else handle) in
     do { (ret, handles, s) \<leftarrow> ptp_getobjecthandles T s storage 0 xhandle none;
          if ret \<noteq> PTP_RC_ParameterNotSupported then Some (ret, handles, storage, handle, s)
          else do {
            (ret, handles, s) \<leftarrow> ptp_getobjecthandles T s PTP_HANDLER_SPECIAL 0 xhandle none;
            if ret \<noteq> PTP_RC_ParameterNotSupported then Some (ret, handles, PTP_HANDLER_SPECIAL, handle, s)
            else do {
              (ret, handles, s) \<leftarrow> ptp_getobjecthandles T s PTP_HANDLER_SPECIAL 0 0 none;
              Some (ret, handles, PTP_HANDLER_SPECIAL, PTP_HANDLER_SPECIAL, s) } } })"

text \<open>Everything before the last sorting: the result, whether the array is still to be sorted, and the state.\<close>

definition collect_folder :: "'w transport \<Rightarrow> host \<Rightarrow> ob_sort \<Rightarrow> 'w ptp \<Rightarrow> 32 word \<Rightarrow> 32 word \<Rightarrow> (16 word \<times> bool \<times> 'w ptp) option" where
  "collect_folder T H qsort s storage handle =
    (if handle = 0 \<and> objects s \<noteq> [] then Some (PTP_RC_OK, False, s)
     else let handle = (if handle = PTP_HANDLER_SPECIAL then 0 else handle) in
     do { fast \<leftarrow> fast_listing s;
          (ret, s) \<leftarrow> (if fast then ptp_list_folder_eos T H qsort s storage handle else Some (PTP_RC_GeneralError, s));
          if ret = PTP_RC_OK then Some (PTP_RC_OK, False, s)
          else do {
            (stop, s) \<leftarrow> (if handle \<noteq> 0 then enter_folder T H s handle else Some (None, s));
            case stop of
              Some ret \<Rightarrow> Some (ret, False, s)
            | None \<Rightarrow> do {
                (ret, handles, storage, handle, s) \<leftarrow> folder_handles T s storage handle;
                if ret \<noteq> PTP_RC_OK then Some (ret, False, s)
                else do {
                  hs \<leftarrow> elements (oh_n handles) (Handler handles);
                  let (ret, changed, obs) = list_handles (pack s) storage handle hs 0 False (objects s);
                  Some (ret, changed \<and> ret = PTP_RC_OK, s\<lparr> objects := obs \<rparr>) } } } })"

definition ptp_list_folder :: "'w transport \<Rightarrow> host \<Rightarrow> ob_sort \<Rightarrow> 'w ptp \<Rightarrow> 32 word \<Rightarrow> 32 word \<Rightarrow> (16 word \<times> 'w ptp) option" where
  "ptp_list_folder T H qsort s storage handle =
    do { (ret, changed, s) \<leftarrow> collect_folder T H qsort s storage handle; Some (ret, sort_if qsort changed s) }"

end
