(* ===== verification/Ptp_Frame.thy ===== *)
theory Ptp_Frame
  imports Ptp_Usb Ptp_Queue
begin

text \<open>
  What a transport may change of the connection: the number of the transaction, the kept response, the split of headers
  and the environment. The locale of these transports is interpreted on USB; in it, every transaction and every operation that loads
  something leaves the rest of the connection alone.
\<close>

section \<open>The contract\<close>

definition kept :: "'w ptp \<Rightarrow> PTPParams \<times> 32 word \<times> 16 word \<times> 32 word \<times> PTPObject list \<times> PTPDeviceInfo \<times> PTPContainer list \<times>
    PTPCanon_Property list \<times> int \<times> octet \<times> PTPNIKONWifiProfile list option" where
  "kept s = (pack s, device_flags s, maxpacketsize s, session_id s, objects s, deviceinfo s, events s, canon_props s, canon_event_mode s,
     wifi_profiles_version s, wifi_profiles s)"

lemma kept_update [simp]:
  "kept (s\<lparr> world := w \<rparr>) = kept s" "kept (s\<lparr> split_header_data := b \<rparr>) = kept s" "kept (s\<lparr> response_packet := r \<rparr>) = kept s"
  "kept (s\<lparr> transaction_id := t \<rparr>) = kept s"
  by (simp_all add: kept_def)

lemma kept_eqD:
  assumes "kept s = kept s'"
  shows "pack s = pack s'" "device_flags s = device_flags s'" "maxpacketsize s = maxpacketsize s'" "objects s = objects s'"
    "deviceinfo s = deviceinfo s'" "events s = events s'" "canon_event_mode s = canon_event_mode s'"
  using assms by (simp_all add: kept_def)

locale quiet_transport =
  fixes T :: "'w transport"
  assumes sendreq: "sendreq_func T s c = Some (ret, s') \<Longrightarrow> kept s' = kept s"
    and senddata: "senddata_func T s c n h = Some (ret, h', s') \<Longrightarrow> kept s' = kept s"
    and getdata: "getdata_func T s c h = Some (ret, h', s') \<Longrightarrow> kept s' = kept s"
    and getresp: "getresp_func T s c = Some (ret, c', s') \<Longrightarrow> kept s' = kept s"
    and check: "event_check T s e = Some (ret, e', s') \<Longrightarrow> kept s' = kept s"
    and cancel: "cancelreq_func T s i = Some (ret, s') \<Longrightarrow> kept s' = kept s"

section \<open>USB\<close>

named_theorems kept_keep

lemma kept_world [kept_keep]: "on_world f s = (a, s') \<Longrightarrow> kept s' = kept s"
  by (auto simp: on_world_def split: prod.splits)

lemma kept_port [kept_keep]:
  "gp_port_read D n s = (r, s') \<Longrightarrow> kept s' = kept s"
  "gp_port_check_int D n s = (r, s') \<Longrightarrow> kept s' = kept s"
  "gp_port_write D bs s = (q, s') \<Longrightarrow> kept s' = kept s"
  by (auto simp: gp_port_read_def gp_port_check_int_def gp_port_write_def dest: kept_world split: prod.splits)

lemma kept_set [simp]: "kept (usb_clear_halt D s) = kept s" "kept (set_timeout D t s) = kept s"
  by (simp_all add: usb_clear_halt_def set_timeout_def)

lemma kept_getfunc [kept_keep]: "getfunc F h n s = Some (ret, bs, h', s') \<Longrightarrow> kept s' = kept s"
  by (cases h) (auto split: bind_splits prod.splits)

lemma kept_putfunc [kept_keep]: "putfunc F h n bs s = Some (ret, k, h', s') \<Longrightarrow> kept s' = kept s"
  by (cases h) (auto split: bind_splits prod.splits)

lemma kept_sendreq: "ptp_usb_sendreq D s c = Some (ret, s') \<Longrightarrow> kept s' = kept s"
  by (auto simp: ptp_usb_sendreq_def Let_def dest: kept_keep split: if_splits prod.splits)

lemma kept_send_loop: "send_loop F D n k h s = Some (ret, m, h', s') \<Longrightarrow> kept s' = kept s"
proof -
  have "send_loop F D n k h s = Some y \<Longrightarrow> kept (snd (snd (snd y))) = kept s" for y
  proof (erule send_loop.raw_induct [where P = "\<lambda>F D n k h s y. kept (snd (snd (snd y))) = kept s", rotated], goal_cases)
    case (1 loop F D n k h s y)
    from 1(2) show ?case
      by (auto dest!: kept_keep 1(1) split: if_splits bind_splits prod.splits sum.splits)
  qed
  then show "send_loop F D n k h s = Some (ret, m, h', s') \<Longrightarrow> kept s' = kept s" by fastforce
qed

lemma kept_finalize: "send_finalize D ret n h s = Some (ret', h', s') \<Longrightarrow> kept s' = kept s"
  by (auto simp: send_finalize_def Let_def split: if_splits) (metis kept_port(3) prod.collapse)+

lemma kept_senddata: "ptp_usb_senddata F D s c n h = Some (ret, h', s') \<Longrightarrow> kept s' = kept s"
  unfolding ptp_usb_senddata_def Let_def
  by (auto dest!: kept_keep kept_send_loop kept_finalize split: if_splits bind_splits prod.splits)

lemma kept_read_packet: "read_packet D n s = (r, s') \<Longrightarrow> kept s' = kept s"
proof (induction D n s arbitrary: r s' rule: read_packet.induct)
  case (1 D n s)
  obtain r1 s1 where a: "gp_port_read D PTP_USB_BULK_PACKET_LEN s = (r1, s1)" by fastforce
  obtain r2 s2 where b: "(if r1 = Inr [] then gp_port_read D PTP_USB_BULK_PACKET_LEN s1 else (r1, s1)) = (r2, s2)" by fastforce
  have c: "kept s2 = kept s" using a b by (auto dest!: kept_keep split: if_splits)
  have "read_packet D n s = (case r2 of Inr bs \<Rightarrow> (if bs \<noteq> [] then Some bs else None, s2)
     | Inl e \<Rightarrow> if e = IO_READ then (case n of 0 \<Rightarrow> (None, usb_clear_halt D s2) | Suc m \<Rightarrow> read_packet D m (usb_clear_halt D s2)) else (None, s2))"
    by (subst read_packet.simps) (simp only: Let_def a b prod.case)
  with 1 a b c show ?case
    by (auto split: sum.splits if_splits nat.splits)
qed

lemma kept_getpacket [kept_keep]: "ptp_usb_getpacket D p s = Some (ret, p', n, s') \<Longrightarrow> kept s' = kept s"
  unfolding ptp_usb_getpacket_def by (auto dest!: kept_read_packet split: if_splits bind_splits prod.splits option.splits)

lemma kept_stream_loop [kept_keep]: "stream_loop F D h s = Some (ret, h', s') \<Longrightarrow> kept s' = kept s"
proof -
  have "stream_loop F D h s = Some y \<Longrightarrow> kept (snd (snd y)) = kept s" for y
  proof (erule stream_loop.raw_induct [where P = "\<lambda>F D h s y. kept (snd (snd y)) = kept s", rotated], goal_cases)
    case (1 loop F D h s y)
    from 1(2) show ?case by (auto dest!: kept_keep 1(1) split: if_splits bind_splits prod.splits sum.splits)
  qed
  then show "stream_loop F D h s = Some (ret, h', s') \<Longrightarrow> kept s' = kept s" by fastforce
qed

lemma kept_recv_loop [kept_keep]: "recv_loop F D n k h s = Some (ret, c, io, h', s') \<Longrightarrow> kept s' = kept s"
proof (induction n arbitrary: k h s rule: less_induct)
  case (less n)
  have IH: "bs \<noteq> [] \<Longrightarrow> n \<noteq> 0 \<Longrightarrow> recv_loop F D (n - length bs) k' h1 s1 = Some (ret, c, io, h', s') \<Longrightarrow> kept s' = kept s1" for bs :: "octet list" and k' h1 s1
    using less(1) [of "n - length bs" k' h1 s1] by (cases bs) auto
  from less(2) show ?case
    by (subst (asm) recv_loop.simps) (auto split: if_splits option.splits sum.splits prod.splits dest!: kept_keep IH)
qed

lemma kept_recv_rest [kept_keep]: "recv_rest F D r n h s = Some (ret, h', s') \<Longrightarrow> kept s' = kept s"
proof (induction r arbitrary: h s)
  case 0
  then show ?case by (subst (asm) recv_rest.simps) (auto simp: Let_def split: if_splits bind_splits prod.splits dest!: kept_keep)
next
  case (Suc r)
  from Suc(2) show ?case
    by (subst (asm) recv_rest.simps) (auto simp: Let_def split: if_splits bind_splits prod.splits dest!: kept_keep Suc(1))
qed

lemma kept_store [kept_keep]: "store_response d i n s = Some (b, s') \<Longrightarrow> kept s' = kept s"
  by (auto simp: store_response_def split: if_splits bind_splits)

lemma kept_get_payload [kept_keep]: "get_payload F D d n h s = Some (ret, h', s') \<Longrightarrow> kept s' = kept s"
  unfolding get_payload_def Let_def by (auto split: if_splits bind_splits prod.splits dest!: kept_keep)

lemma kept_getdata: "ptp_usb_getdata F D s c h = Some (ret, h', s') \<Longrightarrow> kept s' = kept s"
  unfolding ptp_usb_getdata_def by (auto split: if_splits bind_splits prod.splits dest!: kept_keep)

lemma kept_getresp: "ptp_usb_getresp D s c = Some (ret, c', s') \<Longrightarrow> kept s' = kept s"
  unfolding ptp_usb_getresp_def Let_def by (auto split: if_splits bind_splits prod.splits dest!: kept_keep)

lemma kept_check_twice [kept_keep]: "check_twice D s = (r, s') \<Longrightarrow> kept s' = kept s"
  by (auto simp: check_twice_def split: prod.splits sum.splits list.splits dest!: kept_keep)

lemma kept_event_rest [kept_keep]: "event_rest D l e n s = (e', n', s') \<Longrightarrow> kept s' = kept s"
proof (induction "l - n" arbitrary: e n s rule: less_induct)
  case less
  have IH: "bs \<noteq> [] \<Longrightarrow> n < l \<Longrightarrow> event_rest D l e1 (n + length bs) s1 = (e', n', s') \<Longrightarrow> kept s' = kept s1" for bs :: "octet list" and e1 s1
    using less(1) [of "n + length bs" e1 s1] by (cases bs) auto
  from less(2) show ?case
    by (subst (asm) event_rest.simps) (auto split: if_splits sum.splits prod.splits dest!: kept_keep IH)
qed

lemma kept_event: "ptp_usb_event D s e m = Some (ret, e', s') \<Longrightarrow> kept s' = kept s"
  unfolding ptp_usb_event_def Let_def
  by (auto split: if_splits option.splits event_mode.splits prod.splits sum.splits bind_splits dest!: kept_keep)

lemma kept_cancel: "ptp_usb_control_cancel_request D s i = Some (ret, s') \<Longrightarrow> kept s' = kept s"
  by (auto simp: ptp_usb_control_cancel_request_def control_write_def split: prod.splits sum.splits dest!: kept_keep)

interpretation usb: quiet_transport "usb_transport F D" for F :: "'w files" and D :: "'w port"
  by unfold_locales (auto simp: usb_transport_def ptp_usb_event_check_def
      dest: kept_sendreq kept_senddata kept_getdata kept_getresp kept_event kept_cancel)

section \<open>Transactions and operations\<close>

context quiet_transport begin

lemma kept_resp_loop: "resp_loop T cmd tries s c = Some (ret, c', s') \<Longrightarrow> kept s' = kept s"
proof -
  have "resp_loop T' cmd tries s c = Some y \<Longrightarrow> T' = T \<longrightarrow> kept (snd (snd y)) = kept s" for T' y
  proof (erule resp_loop.raw_induct [where P = "\<lambda>T' cmd tries s c y. T' = T \<longrightarrow> kept (snd (snd y)) = kept s", rotated], goal_cases)
    case (1 loop T' cmd tries s c y)
    from 1(2) show ?case by (auto dest: 1(1) dest!: getresp split: if_splits bind_splits prod.splits)
  qed
  then show "resp_loop T cmd tries s c = Some (ret, c', s') \<Longrightarrow> kept s' = kept s" by fastforce
qed

lemma kept_after_data: "after_data T ret s = Some (ret', s') \<Longrightarrow> kept s' = kept s"
  by (auto simp: after_data_def dest: cancel split: if_splits bind_splits)

lemma kept_transaction_new: "ptp_transaction_new T s c fl n h = Some (ret, c', h', s') \<Longrightarrow> kept s' = kept s"
  unfolding ptp_transaction_new_def Let_def
  by (auto dest!: sendreq senddata getdata kept_after_data kept_resp_loop split: if_splits bind_splits)

lemma kept_transaction: "ptp_transaction T s c fl n d l = Some (ret, c', d', l', s') \<Longrightarrow> kept s' = kept s"
  unfolding ptp_transaction_def Let_def by (auto dest!: kept_transaction_new split: if_splits bind_splits option.splits)

lemma kept_ops:
  "get_data T s code ps = Some (ret, c, d, l, s') \<Longrightarrow> kept s' = kept s"
  "no_data T s code ps = Some (ret, c, s') \<Longrightarrow> kept s' = kept s"
  "send_data T s code ps e n = Some (ret, c, s') \<Longrightarrow> kept s' = kept s"
  by (auto simp: get_data_def no_data_def send_data_def dest!: kept_transaction split: bind_splits)

lemma kept_getobjectinfo:
  "ptp_getobjectinfo T H s handle old = Some (ret, new, s') \<Longrightarrow> kept (s'\<lparr> pack := pack s \<rparr>) = kept s"
  by (auto simp: ptp_getobjectinfo_def kept_def dest!: kept_ops split: bind_splits if_splits)

lemma kept_canon_getobjectinfo: "ptp_canon_getobjectinfo T s st p2 pa h es n = Some (ret, es', n', s') \<Longrightarrow> kept s' = kept s"
  by (auto simp: ptp_canon_getobjectinfo_def Let_def dest!: kept_ops split: bind_splits if_splits)

lemma kept_getobjectproplist: "ptp_mtp_getobjectproplist_single T H s h ps n = Some (ret, ps', n', s') \<Longrightarrow> kept s' = kept s"
  by (auto simp: ptp_mtp_getobjectproplist_single_def object_prop_list_def dest!: kept_ops split: bind_splits if_splits)

lemma kept_checkevent: "ptp_canon_checkevent T s e = Some (ret, b, e', s') \<Longrightarrow> kept s' = kept s"
  by (auto simp: ptp_canon_checkevent_def dest!: kept_ops split: bind_splits if_splits)

lemma kept_nikon_check: "ptp_nikon_check_event T s = Some (ret, es, n, s') \<Longrightarrow> kept s' = kept s"
  by (auto simp: ptp_nikon_check_event_def dest!: kept_ops split: bind_splits if_splits)

section \<open>The queue of events\<close>

text \<open>Checking for events only adds events at the end of the queue.\<close>

lemma store_event_appends: "store_event ret e s = Some (ret', s') \<Longrightarrow> \<exists>es. events s' = events s @ es"
  by (auto simp: store_event_def ptp_add_event_def split: if_splits bind_splits)

lemma poll_event_appends: "poll_event T e s = Some (ret, s') \<Longrightarrow> \<exists>es. events s' = events s @ es"
  by (fastforce simp: poll_event_def dest!: check store_event_appends kept_eqD(6) split: bind_splits)

lemma check_event_appends: "ptp_check_event T e s = Some (ret, s') \<Longrightarrow> \<exists>es. events s' = events s @ es"
  unfolding ptp_check_event_def Let_def nikon_queue_def
  by (auto split: if_splits bind_splits dest!: kept_nikon_check kept_checkevent kept_eqD(6) poll_event_appends store_event_appends)

end

end
