(* ===== verification/Ptp_Usb_Props.thy ===== *)
theory Ptp_Usb_Props
  imports Ptp_Usb Ptp_Transaction
begin

text \<open>
  What the USB transport delivers. The data handlers enter through two locales, a source of bytes and a sink, which memory
  satisfies; the port through the assumptions that it takes what is written and that it serves a stream of bytes.
\<close>

section \<open>Handlers as contracts\<close>

locale data_source =
  fixes F :: "'w files" and ready :: "PTPDataHandler \<Rightarrow> bool" and remaining :: "PTPDataHandler \<Rightarrow> octet list"
  assumes get: "ready h \<Longrightarrow> n \<le> 65536 \<Longrightarrow> \<exists>h'. getfunc F h n (s :: 'w ptp) = Some (PTP_RC_OK, take n (remaining h), h', s) \<and> ready h' \<and>
    remaining h' = drop n (remaining h)"

locale data_sink =
  fixes F :: "'w files" and room :: "PTPParams \<Rightarrow> nat \<Rightarrow> PTPDataHandler \<Rightarrow> bool" and got :: "PTPDataHandler \<Rightarrow> octet list"
  assumes put: "room (pack s) (length bs + n) h \<Longrightarrow> \<exists>h'. putfunc F h (length bs) (bs @ junk) (s :: 'w ptp) =
    Some (PTP_RC_OK, Some (length bs), h', s) \<and> room (pack s) n h' \<and> got h' = got h @ bs"

text \<open>The blocks of the loop over USB.\<close>

context data_source begin

lemma small_get:
  assumes "ready h"
  shows "\<exists>h'. getfunc F h (min 4096 n) (s :: 'w ptp) = Some (PTP_RC_OK, take (min 4096 n) (remaining h), h', s) \<and> ready h' \<and>
    remaining h' = drop (min 4096 n) (remaining h)"
proof -
  have "min 4096 n \<le> 65536" by simp
  from get [OF assms this] show ?thesis .
qed

end

text \<open>Memory as a source and as a sink.\<close>

fun mem_ready :: "PTPDataHandler \<Rightarrow> bool" where
  "mem_ready (Mem p) \<longleftrightarrow> mem_data p \<noteq> None \<and> mem_size p = length (the (mem_data p)) \<and> curoff p \<le> mem_size p \<and> mem_size p < 2 ^ 63"
| "mem_ready (Fd fd) \<longleftrightarrow> False"

fun mem_remaining :: "PTPDataHandler \<Rightarrow> octet list" where
  "mem_remaining (Mem p) = drop (curoff p) (the (mem_data p))"
| "mem_remaining (Fd fd) = []"

fun mem_got :: "PTPDataHandler \<Rightarrow> octet list" where
  "mem_got (Mem p) = (case mem_data p of None \<Rightarrow> [] | Some d \<Rightarrow> d)"
| "mem_got (Fd fd) = []"

fun mem_room :: "PTPParams \<Rightarrow> nat \<Rightarrow> PTPDataHandler \<Rightarrow> bool" where
  "mem_room P n (Mem p) \<longleftrightarrow> (\<forall>k. can_alloc P k) \<and> mem_size p = length (mem_got (Mem p)) \<and> curoff p = mem_size p \<and>
     (mem_data p = None \<or> mem_size p \<noteq> 0) \<and> mem_size p + n < 2 ^ 64"
| "mem_room P n (Fd fd) \<longleftrightarrow> False"

lemma ulong_small: "n < 2 ^ 64 \<Longrightarrow> ulong n = n"
  by (simp add: ulong_def)

lemma ulong_minus: "a < 2 ^ 64 \<Longrightarrow> b \<le> a \<Longrightarrow> ulong (a + 2 ^ 64 - b) = a - b"
proof -
  assume a: "a < 2 ^ 64" and "b \<le> a"
  then have "a + 2 ^ 64 - b = (a - b) + 2 ^ 64" by (simp only: Nat.diff_add_assoc2)
  moreover have "a - b < 2 ^ 64" using a by (rule less_imp_diff_less)
  ultimately show ?thesis by (simp only: ulong_def mod_add_self2 mod_less)
qed

lemma sum_63: "a < 2 ^ 63 \<Longrightarrow> b < 2 ^ 63 \<Longrightarrow> a + b < (2 ^ 64 :: nat)"
  by simp

lemma in_64: "a < 2 ^ 63 \<Longrightarrow> a < (2 ^ 64 :: nat)"
  by simp

lemma mem_get:
  assumes "mem_ready h" and n: "n < 2 ^ 63"
  shows "\<exists>h'. getfunc F h n s = Some (PTP_RC_OK, take n (mem_remaining h), h', s) \<and> mem_ready h' \<and>
    mem_remaining h' = drop n (mem_remaining h)"
proof -
  obtain p d where h: "h = Mem p" "mem_data p = Some d" "mem_size p = length d" "curoff p \<le> length d" "length d < 2 ^ 63"
    using assms(1) by (cases h) auto
  let ?t = "min n (length d - curoff p)"
  have c: "curoff p < 2 ^ 63" using h(4,5) by (rule le_less_trans)
  have u: "ulong (curoff p + n) = curoff p + n" using c n by (intro ulong_small sum_63)
  have v: "ulong (length d + 2 ^ 64 - curoff p) = length d - curoff p" using h(4,5) by (intro ulong_minus in_64)
  have w: "ulong (curoff p + ?t) = curoff p + ?t"
    using h(4,5) by (intro ulong_small in_64) (rule le_less_trans [of _ "length d"], simp_all)
  have m: "memory_getfunc p n = Some (PTP_RC_OK, take n (drop (curoff p) d), p\<lparr> curoff := curoff p + ?t \<rparr>)"
  proof (cases "curoff p + n > length d")
    case True
    then have "min n (length d - curoff p) = length d - curoff p" by simp
    with True h w show ?thesis unfolding memory_getfunc_def Let_def h(3) u v by (simp add: peek_def del: power_numeral)
  next
    case False
    then have "min n (length d - curoff p) = n" by simp
    with False h w u show ?thesis unfolding memory_getfunc_def Let_def h(3) u by (simp add: peek_def)
  qed
  show ?thesis unfolding h getfunc.simps m using h
    by (intro exI [of _ "Mem (p\<lparr> curoff := curoff p + ?t \<rparr>)"]) (auto simp: min_def add.commute)
qed

interpretation mem_source: data_source F mem_ready mem_remaining for F :: "'w files"
  by unfold_locales (rule mem_get, assumption, simp)

lemma mem_put:
  assumes "mem_room (pack s) (length bs + n) h"
  shows "\<exists>h'. putfunc F h (length bs) (bs @ junk) s = Some (PTP_RC_OK, Some (length bs), h', s) \<and> mem_room (pack s) n h' \<and>
    mem_got h' = mem_got h @ bs"
proof -
  obtain p where "h = Mem p" using assms by (cases h) auto
  moreover define old where "old = mem_got h"
  ultimately obtain dat where h: "h = Mem \<lparr> mem_data = dat, mem_size = length old, curoff = length old \<rparr>"
    and dat: "old = (case dat of None \<Rightarrow> [] | Some d \<Rightarrow> d)" "dat = None \<or> old \<noteq> []"
    and le: "length old + (length bs + n) < 2 ^ 64" and al: "\<forall>k. can_alloc (pack s) k"
    using assms by (cases p) auto
  have u: "ulong (length old + length bs) = length old + length bs"
    by (rule ulong_small) (rule le_less_trans [OF _ le], simp)
  let ?n = "length old + length bs"
  let ?p = "\<lparr> mem_data = (if bs = [] then dat else Some (old @ bs)), mem_size = ?n, curoff = ?n \<rparr>"
  have "memory_putfunc (pack s) \<lparr> mem_data = dat, mem_size = length old, curoff = length old \<rparr> (length bs) (bs @ junk) =
    Some (PTP_RC_OK, Some (length bs), ?p)"
    unfolding memory_putfunc_def PTPMemHandlerPrivate.simps Let_def u dat(1) [symmetric] using dat al
    by (cases "bs = []"; cases dat) (simp_all add: peek_def poke_def)
  moreover have "mem_got (Mem ?p) = old @ bs" using dat by (auto split: option.splits)
  moreover have "mem_room (pack s) n (Mem ?p)" using al le dat by (auto simp: add.assoc split: option.splits)
  moreover have "mem_got h = old" using dat(1) by (simp add: h)
  ultimately show ?thesis by (auto simp: h)
qed

interpretation mem_sink: data_sink F mem_room mem_got for F :: "'w files"
  by unfold_locales (rule mem_put)

section \<open>Sending\<close>

text \<open>A port that takes all that is written; \<open>out\<close> is what it has taken.\<close>

definition accepts :: "'w port \<Rightarrow> ('w \<Rightarrow> octet list) \<Rightarrow> bool" where
  "accepts D out \<longleftrightarrow> (\<forall>bs w. \<exists>w'. port_write D bs w = (Inr (length bs), w') \<and> out w' = out w @ bs)"

lemma accepts_write:
  assumes "accepts D out"
  shows "\<exists>w'. gp_port_write D bs s = (Inr (length bs), s\<lparr> world := w' \<rparr>) \<and> out w' = out (world s) @ bs"
proof -
  obtain w' where "port_write D bs (world s) = (Inr (length bs), w')" "out w' = out (world s) @ bs"
    using assms unfolding accepts_def by blast
  then show ?thesis by (intro exI [of _ w']) (simp add: gp_port_write_def on_world_def)
qed

text \<open>A port that takes only a part of some writes, without an error.\<close>

definition never_fails :: "'w port \<Rightarrow> bool" where
  "never_fails D \<longleftrightarrow> (\<forall>bs w. \<exists>k w'. port_write D bs w = (Inr k, w'))"

lemma never_fails_write:
  assumes "never_fails D"
  shows "\<exists>k w'. gp_port_write D bs s = (Inr k, s\<lparr> world := w' \<rparr>) \<and> k \<le> length bs"
proof -
  obtain k w' where "port_write D bs (world s) = (Inr k, w')" using assms unfolding never_fails_def by blast
  then show ?thesis by (intro exI [of _ "min (length bs) k"] exI [of _ w']) (simp add: gp_port_write_def on_world_def)
qed

lemma send_finalize_ok:
  assumes "maxpacketsize s \<noteq> 0" and "accepts D out"
  shows "\<exists>w'. send_finalize D PTP_RC_OK n h s = Some (PTP_RC_OK, h, s\<lparr> world := w' \<rparr>) \<and> out w' = out (world s)"
proof (cases "n mod unat (maxpacketsize s) = 0")
  case True
  obtain w' where "gp_port_write D [] s = (Inr 0, s\<lparr> world := w' \<rparr>)" "out w' = out (world s)"
    using accepts_write [OF assms(2), of "[]" s] by auto
  with True assms(1) show ?thesis by (intro exI [of _ w']) (simp add: send_finalize_def)
next
  case False
  with assms(1) show ?thesis by (intro exI [of _ "world s"]) (simp add: send_finalize_def)
qed

context data_source begin

lemma send_loop_delivers:
  assumes D: "accepts D out"
  shows "ready h \<Longrightarrow> n \<le> length (remaining h) \<Longrightarrow> \<exists>h' w'. send_loop F D n k h s = Some (PTP_RC_OK, k + n, h', s\<lparr> world := w' \<rparr>) \<and>
    out w' = out (world s) @ take n (remaining h)"
proof (induction n arbitrary: k h s rule: less_induct)
  case (less n)
  show ?case
  proof (cases "n = 0")
    case True
    then show ?thesis by (subst send_loop.simps) (intro exI [of _ h] exI [of _ "world s"], simp)
  next
    case False
    let ?m = "min 4096 n"
    obtain h1 where h1: "getfunc F h ?m s = Some (PTP_RC_OK, take ?m (remaining h), h1, s)" "ready h1" "remaining h1 = drop ?m (remaining h)"
      using small_get [OF less(2), of n s] by blast
    have l: "length (take ?m (remaining h)) = ?m" using less(3) by auto
    obtain w1 where w1: "gp_port_write D (take ?m (remaining h)) s = (Inr ?m, s\<lparr> world := w1 \<rparr>)"
      "out w1 = out (world s) @ take ?m (remaining h)"
      using accepts_write [OF D, of "take ?m (remaining h)" s] unfolding l by blast
    obtain h2 w2 where ih: "send_loop F D (n - ?m) (k + ?m) h1 (s\<lparr> world := w1 \<rparr>) = Some (PTP_RC_OK, k + ?m + (n - ?m), h2, s\<lparr> world := w2 \<rparr>)"
      "out w2 = out w1 @ take (n - ?m) (remaining h1)"
    proof -
      have "n - ?m < n" "n - ?m \<le> length (remaining h1)" using False less(3) h1(3) by auto
      from less(1) [OF this(1) h1(2) this(2), of "k + ?m" "s\<lparr> world := w1 \<rparr>"] that show ?thesis by auto
    qed
    have "send_loop F D n k h s = send_loop F D (n - ?m) (k + ?m) h1 (s\<lparr> world := w1 \<rparr>)"
      using False h1 w1 by (subst send_loop.simps) simp
    moreover have "take n (remaining h) = take ?m (remaining h) @ take (n - ?m) (remaining h1)"
      unfolding h1(3) by (metis le_add_diff_inverse min.cobounded2 take_add)
    ultimately show ?thesis using ih w1 by (intro exI [of _ h2] exI [of _ w2]) simp
  qed
qed

text \<open>With fewer bytes left than are to be sent the loop does not end.\<close>

lemma send_loop_starves_aux:
  assumes D: "never_fails D"
  shows "send_loop F' D' n k h s = Some y \<Longrightarrow> F' = F \<longrightarrow> D' = D \<longrightarrow> ready h \<longrightarrow> length (remaining h) < n \<longrightarrow> False"
proof (erule send_loop.raw_induct
    [where P = "\<lambda>F' D' n k h s y. F' = F \<longrightarrow> D' = D \<longrightarrow> ready h \<longrightarrow> length (remaining h) < n \<longrightarrow> False", rotated], goal_cases)
  case (1 loop F' D' n k h s y)
  show ?case
  proof (intro impI)
    assume a: "F' = F" "D' = D" and h: "ready h" "length (remaining h) < n"
    let ?bs = "take (min 4096 n) (remaining h)"
    obtain h1 where h1: "getfunc F h (min 4096 n) s = Some (PTP_RC_OK, ?bs, h1, s)" "ready h1" "remaining h1 = drop (min 4096 n) (remaining h)"
      using small_get [OF h(1), of n s] by blast
    obtain r w where r: "gp_port_write D ?bs s = (Inr r, s\<lparr> world := w \<rparr>)" "r \<le> length ?bs"
      using never_fails_write [OF D] by blast
    have "loop F D (n - r) (k + r) h1 (s\<lparr> world := w \<rparr>) = Some y"
      using 1(2) h(2) h1(1) r(1) by (simp add: a split: if_splits)
    from 1(1) [OF this] have "\<not> length (remaining h1) < n - r" using h1(2) by simp
    then show False using h(2) r(2) h1(3) by (auto simp: min_def split: if_splits)
  qed
qed

lemma send_loop_starves:
  assumes "never_fails D" and "ready h" and "length (remaining h) < n"
  shows "send_loop F D n k h s = None"
  using send_loop_starves_aux [OF assms(1), of F D n k h s] assms(2,3) by (cases "send_loop F D n k h s") auto

end

section \<open>Sending from memory\<close>

text \<open>The bytes of a data container.\<close>

definition data_container :: "'w ptp \<Rightarrow> PTPContainer \<Rightarrow> octet list \<Rightarrow> octet list" where
  "data_container s ptp d = usb_header (pack s) (of_nat (12 + length d)) PTP_USB_CONTAINER_DATA (Code ptp) (Transaction_ID ptp) @ d"

lemma usb_header_length [simp]: "length (usb_header P l t c i) = 12"
  by (simp add: usb_header_def)

abbreviation (input) sending :: "octet list \<Rightarrow> PTPDataHandler" where
  "sending d \<equiv> Mem \<lparr> mem_data = Some d, mem_size = length d, curoff = 0 \<rparr>"

lemma sending_ready: "length d < 2 ^ 63 \<Longrightarrow> mem_ready (sending d) \<and> mem_remaining (sending d) = d"
  by simp

text \<open>
  The first packet: the header, and as much of the data as fits beside it when they are not split.
\<close>

lemma first_packet:
  fixes s :: "'w ptp"
  assumes h: "mem_ready h" and l: "mem_remaining h = d"
  defines "k \<equiv> if split_header_data s then 0 else min (length d) PTP_USB_BULK_PAYLOAD_LEN_WRITE"
  shows "\<exists>h'. (if split_header_data s then Some (PTP_RC_OK, [], h, s) else getfunc F h k s) = Some (PTP_RC_OK, take k d, h', s) \<and>
    mem_ready h' \<and> mem_remaining h' = drop k d"
proof (cases "split_header_data s")
  case True
  with h l show ?thesis by (simp add: k_def)
next
  case False
  have "k \<le> PTP_USB_BULK_PAYLOAD_LEN_WRITE" by (simp add: k_def)
  then have "k \<le> 65536" by (simp add: PTP_USB_BULK_PAYLOAD_LEN_WRITE_def PTP_USB_BULK_PACKET_LEN_def)
  with False mem_source.get [OF h, of k F s] l show ?thesis by auto
qed

text \<open>C27: Sending from memory over USB writes exactly one data container, the header with the length, the code and the transaction of the
  request and the bytes in order, in as many writes as it takes, and leaves the connection as it is.\<close>
theorem usb_senddata_sends:
  assumes D: "accepts D out" and m: "maxpacketsize s \<noteq> 0" and al: "can_alloc (pack s) 4096" and d: "length d < 2 ^ 63"
  shows "\<exists>h w. ptp_usb_senddata F D s ptp (length d) (sending d) = Some (PTP_RC_OK, h, s\<lparr> world := w \<rparr>) \<and>
    out w = out (world s) @ data_container s ptp d"
proof -
  define k where "k = (if split_header_data s then 0 else min (length d) PTP_USB_BULK_PAYLOAD_LEN_WRITE)"
  let ?hd = "usb_header (pack s) (of_nat (12 + length d)) PTP_USB_CONTAINER_DATA (Code ptp) (Transaction_ID ptp)"
  have k: "k \<le> length d" by (simp add: k_def)
  obtain h1 where h1: "(if split_header_data s then Some (PTP_RC_OK, [], sending d, s) else getfunc F (sending d) k s) =
      Some (PTP_RC_OK, take k d, h1, s)" "mem_ready h1" "mem_remaining h1 = drop k d"
    using first_packet [of "sending d" d s F] sending_ready [OF d] unfolding k_def by blast
  obtain w1 where w1: "gp_port_write D (?hd @ take k d) s = (Inr (12 + k), s\<lparr> world := w1 \<rparr>)" "out w1 = out (world s) @ ?hd @ take k d"
    using accepts_write [OF D, of "?hd @ take k d" s] k by auto
  have st: "ptp_usb_senddata F D s ptp (length d) (sending d) =
    (if length d \<le> k then send_finalize D PTP_RC_OK (12 + k) h1 (s\<lparr> world := w1 \<rparr>)
     else do { (ret, written, handler, s) \<leftarrow> send_loop F D (length d - k) 0 h1 (s\<lparr> world := w1 \<rparr>); send_finalize D ret written handler s })"
    using h1(1) w1(1) k al unfolding ptp_usb_senddata_def Let_def k_def [symmetric] by simp
  have m1: "maxpacketsize (s\<lparr> world := w \<rparr>) \<noteq> 0" for w using m by simp
  show ?thesis
  proof (cases "length d \<le> k")
    case True
    with k have "take k d = d" by simp
    moreover obtain w2 where "send_finalize D PTP_RC_OK (12 + k) h1 (s\<lparr> world := w1 \<rparr>) = Some (PTP_RC_OK, h1, s\<lparr> world := w2 \<rparr>)" "out w2 = out w1"
      using send_finalize_ok [OF m1 D, of "12 + k" h1 w1] by auto
    ultimately show ?thesis using True w1(2) unfolding st by (intro exI [of _ h1] exI [of _ w2]) (simp add: data_container_def)
  next
    case False
    obtain h2 w2 where l: "send_loop F D (length d - k) 0 h1 (s\<lparr> world := w1 \<rparr>) = Some (PTP_RC_OK, length d - k, h2, s\<lparr> world := w2 \<rparr>)"
      "out w2 = out w1 @ drop k d"
      using mem_source.send_loop_delivers [OF D h1(2), of "length d - k" F 0 "s\<lparr> world := w1 \<rparr>"] h1(3) by auto
    moreover obtain w3 where "send_finalize D PTP_RC_OK (length d - k) h2 (s\<lparr> world := w2 \<rparr>) = Some (PTP_RC_OK, h2, s\<lparr> world := w3 \<rparr>)" "out w3 = out w2"
      using send_finalize_ok [OF m1 D, of "length d - k" h2 w2] by auto
    ultimately show ?thesis using False w1(2) unfolding st
      by (intro exI [of _ h2] exI [of _ w3]) (simp add: data_container_def)
  qed
qed

text \<open>C28: The loop that sends the data does not send again what a write left: on a port that takes at most 1024 bytes at a time, and never
  reports an error, sending more than 2036 bytes from memory never returns.\<close>
theorem usb_short_write_hangs:
  assumes D: "\<forall>bs w. \<exists>w'. port_write D bs w = (Inr (min 1024 (length bs)), w')" and sp: "\<not> split_header_data s"
    and al: "can_alloc (pack s) 4096" and d: "length d < 2 ^ 63" and big: "1012 + 1024 < length d"
  shows "ptp_usb_senddata F D s ptp (length d) (sending d) = None"
proof -
  let ?hd = "usb_header (pack s) (of_nat (12 + length d)) PTP_USB_CONTAINER_DATA (Code ptp) (Transaction_ID ptp)"
  have nf: "never_fails D" using D unfolding never_fails_def by blast
  have wr: "\<exists>w'. gp_port_write D bs s' = (Inr (min 1024 (length bs)), s'\<lparr> world := w' \<rparr>)" for bs s'
  proof -
    obtain w' where "port_write D bs (world s') = (Inr (min 1024 (length bs)), w')" using D by blast
    then show ?thesis by (intro exI [of _ w']) (simp add: gp_port_write_def on_world_def)
  qed
  have k: "min (length d) PTP_USB_BULK_PAYLOAD_LEN_WRITE = 1012"
    using big by (simp add: PTP_USB_BULK_PAYLOAD_LEN_WRITE_def PTP_USB_BULK_PACKET_LEN_def)
  obtain h1 where h1: "getfunc F (sending d) 1012 s = Some (PTP_RC_OK, take 1012 d, h1, s)" "mem_ready h1" "mem_remaining h1 = drop 1012 d"
    using first_packet [of "sending d" d s F] sending_ready [OF d] sp unfolding k by auto
  obtain w1 where w1: "gp_port_write D (?hd @ take 1012 d) s = (Inr 1024, s\<lparr> world := w1 \<rparr>)"
    using wr [of "?hd @ take 1012 d" s] big by auto
  let ?n = "length d - 1012" and ?s = "s\<lparr> world := w1 \<rparr>" and ?bs = "take (min 4096 (length d - 1012)) (drop 1012 d)"
  have st: "ptp_usb_senddata F D s ptp (length d) (sending d) =
    do { (ret, written, handler, s) \<leftarrow> send_loop F D ?n 0 h1 ?s; send_finalize D ret written handler s }"
    using h1(1) w1 sp al big unfolding ptp_usb_senddata_def Let_def k by simp
  obtain h2 where h2: "getfunc F h1 (min 4096 ?n) ?s = Some (PTP_RC_OK, ?bs, h2, ?s)" "mem_ready h2" "mem_remaining h2 = drop (min 4096 ?n) (drop 1012 d)"
    using mem_source.small_get [OF h1(2), of F ?n ?s] h1(3) by auto
  obtain w2 where w2: "gp_port_write D ?bs ?s = (Inr 1024, s\<lparr> world := w2 \<rparr>)"
  proof -
    have "min 1024 (length ?bs) = 1024" using big by simp
    with wr [of ?bs ?s] that show ?thesis by auto
  qed
  have "send_loop F D ?n 0 h1 ?s = send_loop F D (?n - 1024) 1024 h2 (s\<lparr> world := w2 \<rparr>)"
    using h2(1) w2 big by (subst send_loop.simps) simp
  also have "\<dots> = None"
    by (rule mem_source.send_loop_starves [OF nf h2(2)]) (use h2(3) big in \<open>auto simp: min_def\<close>)
  finally show ?thesis unfolding st by simp
qed

section \<open>Receiving\<close>

text \<open>A port that serves the bytes of \<open>stream\<close> in pieces, as many as it likes in a read, to a front-end that does not cancel.\<close>

definition serves :: "'w port \<Rightarrow> ('w \<Rightarrow> octet list) \<Rightarrow> bool" where
  "serves D stream \<longleftrightarrow> (\<forall>n w. 0 < n \<and> stream w \<noteq> [] \<longrightarrow> (\<exists>bs w'. port_read D n w = (Inr bs, w') \<and> bs \<noteq> [] \<and> length bs \<le> n \<and>
     stream w = bs @ stream w')) \<and> (\<forall>w. context_cancel D w = (False, w))"

lemma serves_read:
  assumes "serves D stream" and "0 < n" and "stream (world s) \<noteq> []"
  shows "\<exists>bs w'. gp_port_read D n s = (Inr bs, s\<lparr> world := w' \<rparr>) \<and> bs \<noteq> [] \<and> length bs \<le> n \<and> stream (world s) = bs @ stream w'"
proof -
  obtain bs w' where b: "port_read D n (world s) = (Inr bs, w')" "bs \<noteq> []" "length bs \<le> n" "stream (world s) = bs @ stream w'"
    using assms unfolding serves_def by blast
  then have "gp_port_read D n s = (Inr bs, s\<lparr> world := w' \<rparr>)" by (simp add: gp_port_read_def on_world_def)
  with b show ?thesis by blast
qed

lemma serves_cancel: "serves D stream \<Longrightarrow> on_world (context_cancel D) s = (False, s)"
  by (simp add: serves_def on_world_def)

lemma read_size_some: "maxp \<noteq> 0 \<Longrightarrow> 0 < n \<Longrightarrow> \<exists>k. read_size maxp n = Some k \<and> 0 < k \<and> k \<le> n"
  using read_size_bounds [of maxp n] by (cases "read_size maxp n") (auto simp: read_size_def split: if_splits)

context data_sink begin

lemma recv_loop_delivers:
  assumes D: "serves D stream"
  shows "room (pack s) (n + x) h \<Longrightarrow> n \<le> length (stream (world s)) \<Longrightarrow> maxpacketsize s \<noteq> 0 \<Longrightarrow>
    \<exists>h' w'. recv_loop F D n k h s = Some (PTP_RC_OK, k + n, False, h', s\<lparr> world := w' \<rparr>) \<and> room (pack s) x h' \<and>
      got h' = got h @ take n (stream (world s)) \<and> stream w' = drop n (stream (world s))"
proof (induction n arbitrary: k h s rule: less_induct)
  case (less n)
  show ?case
  proof (cases "n = 0")
    case True
    with less(2) show ?thesis by (subst recv_loop.simps) (intro exI [of _ h] exI [of _ "world s"], simp)
  next
    case False
    obtain m where m: "read_size (maxpacketsize s) n = Some m" "0 < m" "m \<le> n" using read_size_some [OF less(4), of n] False by auto
    have "stream (world s) \<noteq> []" using False less(3) by auto
    then obtain bs w1 where b: "gp_port_read D m s = (Inr bs, s\<lparr> world := w1 \<rparr>)" "bs \<noteq> []" "length bs \<le> m" "stream (world s) = bs @ stream w1"
      using serves_read [OF D m(2)] by blast
    let ?s = "s\<lparr> world := w1 \<rparr>" and ?n = "n - length bs"
    have n: "length bs + (?n + x) = n + x" "?n < n" "?n \<le> length (stream w1)" using b m less(3) by auto
    obtain h1 where h1: "putfunc F h (length bs) bs ?s = Some (PTP_RC_OK, Some (length bs), h1, ?s)" "room (pack s) (?n + x) h1" "got h1 = got h @ bs"
      using put [of ?s bs "?n + x" h "[]"] less(2) n(1) by auto
    have st: "recv_loop F D n k h s = recv_loop F D ?n (k + length bs) h1 ?s"
      using False m(1) b(1,2) h1(1) serves_cancel [OF D, of ?s] by (subst recv_loop.simps) simp
    obtain h2 w2 where "recv_loop F D ?n (k + length bs) h1 ?s = Some (PTP_RC_OK, k + length bs + ?n, False, h2, s\<lparr> world := w2 \<rparr>)"
      "room (pack s) x h2" "got h2 = got h1 @ take ?n (stream w1)" "stream w2 = drop ?n (stream w1)"
      using less(1) [OF n(2), of ?s h1 "k + length bs"] h1(2) n(3) less(4) by auto
    then show ?thesis unfolding st using b h1(3) m(3) by (intro exI [of _ h2] exI [of _ w2]) simp
  qed
qed

lemma recv_rest_delivers:
  assumes "serves D stream" and "room (pack s) (n + x) h" and "n \<le> length (stream (world s))" and "maxpacketsize s \<noteq> 0"
    and "can_alloc (pack s) READLEN"
  shows "\<exists>h' w'. recv_rest F D r n h s = Some (PTP_RC_OK, h', s\<lparr> world := w' \<rparr>) \<and> room (pack s) x h' \<and>
      got h' = got h @ take n (stream (world s)) \<and> stream w' = drop n (stream (world s))"
proof -
  obtain h' w' where "recv_loop F D n 0 h s = Some (PTP_RC_OK, n, False, h', s\<lparr> world := w' \<rparr>)" "room (pack s) x h'"
    "got h' = got h @ take n (stream (world s))" "stream w' = drop n (stream (world s))"
    using recv_loop_delivers [OF assms(1-4), of 0] by auto
  with assms(5) show ?thesis by (subst recv_rest.simps) (intro exI [of _ h'] exI [of _ w'], simp)
qed

end

text \<open>A packet that is read when none is kept from before: the container, over the zeros of the buffer.\<close>

lemma getpacket_fresh:
  assumes "response_packet s = []" and "port_read D PTP_USB_BULK_PACKET_LEN (world s) = (Inr bs, w)" and "bs \<noteq> []"
    and "length bs \<le> PTP_USB_BULK_PACKET_LEN"
  shows "ptp_usb_getpacket D (replicate PTP_USB_BULK_PACKET_LEN 0) s =
    Some (PTP_RC_OK, bs @ replicate (PTP_USB_BULK_PACKET_LEN - length bs) 0, length bs, s\<lparr> world := w \<rparr>)"
proof -
  have "gp_port_read D PTP_USB_BULK_PACKET_LEN s = (Inr bs, s\<lparr> world := w \<rparr>)" using assms(2,4) by (simp add: gp_port_read_def on_world_def)
  then have "read_packet D 1 s = (Some bs, s\<lparr> world := w \<rparr>)" using assms(3) by (subst read_packet.simps) simp
  with assms(1,4) show ?thesis by (simp add: ptp_usb_getpacket_def poke_def)
qed

lemma header_lies:
  assumes "U = usb_header P l t c i @ rest"
  shows "dtoh32ap P U 0 = Some l" "dtoh16ap P U 4 = Some t" "dtoh16ap P U 6 = Some c" "dtoh32ap P U 8 = Some i"
proof -
  have "lies U 0 (usb_header P l t c i)" using lies_in [of "[]" "usb_header P l t c i" rest] assms by simp
  then show "dtoh32ap P U 0 = Some l" "dtoh16ap P U 4 = Some t" "dtoh16ap P U 6 = Some c" "dtoh32ap P U 8 = Some i"
    unfolding usb_header_def by (simp_all add: dtoh_lies)
qed

context data_sink begin

lemma get_payload_delivers:
  assumes D: "serves D stream" and P: "P = pack s" and l: "12 + length p < 2 ^ 32"
    and U: "U = usb_header P (of_nat (12 + length p)) t c i @ take k p @ zs" and k: "k \<le> length p"
    and st: "stream (world s) = drop k p @ rest" and h: "room P (length p) h" and m: "maxpacketsize s \<noteq> 0" and al: "can_alloc P READLEN"
  shows "\<exists>h' b w. get_payload F D U (12 + k) h s = Some (PTP_RC_OK, h', s\<lparr> split_header_data := b, world := w \<rparr>) \<and>
    got h' = got h @ p \<and> stream w = rest \<and> room P 0 h'"
proof -
  have len: "dtoh32ap P U 0 = Some (of_nat (12 + length p))" by (rule header_lies(1) [OF U])
  have un: "unat (of_nat (12 + length p) :: 32 word) = 12 + length p" using l by (simp add: unat_of_nat take_bit_nat_def del: of_nat_add)
  define b where "b = (if 12 + length p > 12 \<and> 12 + k = 12 then True else split_header_data s)"
  have sb: "(if 12 < 12 + length p \<and> 12 + k = 12 then s\<lparr> split_header_data := True \<rparr> else s) = s\<lparr> split_header_data := b \<rparr>"
    by (cases s) (simp add: b_def)
  let ?s = "s\<lparr> split_header_data := b \<rparr>"
  have uk: "ulong (12 + k + 2 ^ 64 - 12) = k"
  proof -
    have "12 + k < 2 ^ 64" using k l by simp
    then have "ulong (12 + k + 2 ^ 64 - 12) = 12 + k - 12" by (rule ulong_minus) simp
    then show ?thesis by simp
  qed
  have dU: "drop 12 U = take k p @ zs" using U by simp
  have lk: "length (take k p) = k" using k by simp
  obtain h1 where h1: "putfunc F h k (take k p @ zs) ?s = Some (PTP_RC_OK, Some k, h1, ?s)" "room P (length p - k) h1" "got h1 = got h @ take k p"
    using put [of ?s "take k p" "length p - k" h zs] h k P unfolding lk by auto
  have r: "get_payload F D U (12 + k) h s = (if length p \<le> k then Some (PTP_RC_OK, h1, ?s) else recv_rest F D 1 (length p - k) h1 ?s)"
    using len k h1(1) unfolding get_payload_def P [symmetric] by (simp add: un uk [simplified] dU Let_def sb [simplified] del: of_nat_add)
  show ?thesis
  proof (cases "length p \<le> k")
    case True
    with k have "k = length p" by simp
    moreover have "?s = s\<lparr> split_header_data := b, world := world s \<rparr>" by (cases s) simp
    ultimately show ?thesis using r h1 st by (intro exI [of _ h1] exI [of _ b] exI [of _ "world s"]) simp
  next
    case False
    obtain h2 w2 where "recv_rest F D 1 (length p - k) h1 ?s = Some (PTP_RC_OK, h2, ?s\<lparr> world := w2 \<rparr>)"
      "got h2 = got h1 @ take (length p - k) (stream (world ?s))" "stream w2 = drop (length p - k) (stream (world ?s))"
      "room P 0 h2"
      using recv_rest_delivers [OF D, of ?s "length p - k" 0 h1 1] h1(2) m al st P by auto
    then show ?thesis using r False h1(3) st by (intro exI [of _ h2] exI [of _ b] exI [of _ w2]) simp
  qed
qed

end

section \<open>Receiving into memory\<close>

abbreviation (input) empty_mem :: PTPDataHandler where
  "empty_mem \<equiv> Mem \<lparr> mem_data = None, mem_size = 0, curoff = 0 \<rparr>"

lemma mem_exit: "mem_room P n h \<Longrightarrow> \<exists>d. ptp_exit_recv_memory_handler h = Some (d, length (mem_got h)) \<and> (case d of None \<Rightarrow> [] | Some x \<Rightarrow> x) = mem_got h"
  by (cases h) auto

text \<open>
  Receiving into memory over USB hands over exactly the payload of the data container, in however many pieces the device sends it
  behind its header, and leaves what follows the container on the port.
\<close>
lemma getdata_mem:
  assumes D: "serves D stream" and m: "maxpacketsize s \<noteq> 0" and al: "\<forall>n. can_alloc (pack s) n" and r: "response_packet s = []"
    and l: "13 + length p < 2 ^ 32" and st: "stream (world s) = data_container s ptp p @ rest"
    and rd: "port_read D PTP_USB_BULK_PACKET_LEN (world s) = (Inr first, w1)" and first: "12 \<le> length first" "length first \<le> 12 + length p"
  shows "\<exists>h b w. ptp_usb_getdata F D s ptp empty_mem = Some (PTP_RC_OK, h, s\<lparr> split_header_data := b, world := w \<rparr>) \<and>
    mem_got h = p \<and> ptp_exit_recv_memory_handler h = Some (if p = [] then None else Some p, length p) \<and> stream w = rest"
proof -
  let ?P = "pack s" and ?hd = "usb_header (pack s) (of_nat (12 + length p)) PTP_USB_CONTAINER_DATA (Code ptp) (Transaction_ID ptp)"
  define k where "k = length first - 12"
  have pos: "0 < PTP_USB_BULK_PACKET_LEN" by (simp add: PTP_USB_BULK_PACKET_LEN_def)
  have ne: "stream (world s) \<noteq> []" using st by (auto simp: data_container_def usb_header_def htod32ap_def dest: arg_cong [of _ _ length])
  have f: "length first \<le> PTP_USB_BULK_PACKET_LEN" "stream (world s) = first @ stream w1"
  proof -
    obtain bs w' where "port_read D PTP_USB_BULK_PACKET_LEN (world s) = (Inr bs, w')" "length bs \<le> PTP_USB_BULK_PACKET_LEN" "stream (world s) = bs @ stream w'"
      using D pos ne unfolding serves_def by meson
    with rd show "length first \<le> PTP_USB_BULK_PACKET_LEN" "stream (world s) = first @ stream w1" by simp_all
  qed
  have k: "length first = 12 + k" "k \<le> length p" using first by (simp_all add: k_def)
  have eq: "first @ stream w1 = (?hd @ take k p) @ drop k p @ rest"   proof -
    have "data_container s ptp p = (?hd @ take k p) @ drop k p" by (simp add: data_container_def)
    with f(2) st show ?thesis by (metis append_assoc)
  qed
  have len: "length first = length (?hd @ take k p)" using k by simp
  have fst: "first = ?hd @ take k p" and w1: "stream w1 = drop k p @ rest"
    using eq unfolding append_eq_append_conv [OF disjI1 [OF len]] by simp_all
  define U where "U = first @ replicate (PTP_USB_BULK_PACKET_LEN - length first) 0"
  let ?s = "s\<lparr> world := w1 \<rparr>"
  have ne1: "first \<noteq> []" using first(1) by auto
  have gp: "ptp_usb_getpacket D (replicate PTP_USB_BULK_PACKET_LEN 0) s = Some (PTP_RC_OK, U, 12 + k, ?s)"
    using getpacket_fresh [OF r rd ne1 f(1)] k(1) by (simp add: U_def)
  have U: "U = ?hd @ take k p @ replicate (PTP_USB_BULK_PACKET_LEN - length first) 0" by (simp add: U_def fst)
  have ff: "(of_nat (12 + length p) :: 32 word) \<noteq> 0xffffffff"
  proof
    assume "(of_nat (12 + length p) :: 32 word) = 0xffffffff"
    then have "unat (of_nat (12 + length p) :: 32 word) = unat (0xffffffff :: 32 word)" by simp
    then show False using l by (simp add: unat_of_nat take_bit_nat_def del: of_nat_add)
  qed
  have gd: "ptp_usb_getdata F D s ptp empty_mem = get_payload F D U (12 + k) empty_mem ?s"
    using gp header_lies(1,2,3) [OF U] ff unfolding ptp_usb_getdata_def
    by (simp add: PTP_USB_CONTAINER_DATA_def PTP_USB_CONTAINER_RESPONSE_def del: of_nat_add)
  have room: "mem_room ?P (length p) empty_mem" using al l by simp
  obtain h b w where g: "get_payload F D U (12 + k) empty_mem ?s = Some (PTP_RC_OK, h, ?s\<lparr> split_header_data := b, world := w \<rparr>)"
    "mem_got h = mem_got empty_mem @ p" "stream w = rest" "mem_room ?P 0 h"
  proof -
    have "?P = pack ?s" "12 + length p < 2 ^ 32" "stream (world ?s) = drop k p @ rest" "maxpacketsize ?s \<noteq> 0" "can_alloc ?P READLEN"
      using m al l w1 by simp_all
    from mem_sink.get_payload_delivers [OF D this(1,2) U k(2) this(3) room this(4,5), of F] that show ?thesis by blast
  qed
  have "ptp_exit_recv_memory_handler h = Some (if p = [] then None else Some p, length p)"
    using g(2,4) by (cases h) (auto split: option.splits)
  with g gd show ?thesis by (intro exI [of _ h] exI [of _ b] exI [of _ w]) simp
qed

end
