(* ===== verification/Ptp_Value_Props.thy ===== *)
theory Ptp_Value_Props
  imports Ptp_Value
begin

text \<open>
  What ptp-pack.c guarantees of property values and property lists: reading inverts writing, the macros with a length
  check stay inside the data, and where the code does not.
\<close>

section \<open>Offsets\<close>

lemma unat_plus: "unat x + n < 2 ^ LENGTH('a) \<Longrightarrow> unat (x + of_nat n :: 'a::len word) = unat x + n"
  by (simp add: unat_word_ariths unat_of_nat mod_add_right_eq)

lemma unat_minus: "unat x \<le> unat y \<Longrightarrow> unat (y - x :: 'a::len word) = unat y - unat x"
  by (simp add: unat_sub word_le_nat_alt)

lemma unat_lt32: "unat (x :: 32 word) < 4294967296"
  using unsigned_less [of x, where 'a = nat] by simp

lemma CTVAL_run:
  assumes "rd (unat off) = Some x" and "unat off + sz \<le> unat tot"
  shows "CTVAL rd sz tot off = Some (Some x, off + of_nat sz)"
  using assms by (simp add: CTVAL_def unat_minus)

lemma ctvals_run:
  assumes "lies data (unat off) (concat (map f xs))" and "unat off + sz * length xs \<le> unat tot"
    and rd: "\<And>x i. lies data i (f x) \<Longrightarrow> rd i = Some x" and len: "\<And>x. length (f x) = sz"
  shows "ctvals rd sz tot (length xs) off = Some (Some xs, off + of_nat (sz * length xs))"
  using assms(1,2)
proof (induction xs arbitrary: off)
  case (Cons x xs)
  have u: "unat (off + of_nat sz) = unat off + sz"
    by (rule unat_plus) (use Cons.prems(2) unat_lt32 [of tot] in simp)
  from Cons.prems have "lies data (unat off) (f x)" "lies data (unat off + sz) (concat (map f xs))" by (simp_all add: len)
  then have "CTVAL rd sz tot off = Some (Some x, off + of_nat sz)"
    using rd Cons.prems(2) by (intro CTVAL_run) simp_all
  moreover have "ctvals rd sz tot (length xs) (off + of_nat sz) = Some (Some xs, off + of_nat sz + of_nat (sz * length xs))"
    by (rule Cons.IH) (use \<open>lies data (unat off + sz) _\<close> Cons.prems(2) u in simp_all)
  ultimately show ?case by (simp add: algebra_simps)
qed simp

lemma RARR_run:
  assumes l: "lies data (unat off) (array_bytes P f xs)" and "unat off + 4 + sz * length xs \<le> unat tot"
    and rd: "\<And>x i. lies data i (f x) \<Longrightarrow> rd i = Some x" and len: "\<And>x. length (f x) = sz" and "0 < sz"
    and mem: "can_alloc P (16 * length xs)"
  shows "RARR P data rd sz tot off = Some (Some xs, off + of_nat (4 + sz * length xs))"
proof -
  have tot: "unat tot < 2 ^ 32" using unat_lt32 [of tot] by simp
  have u: "unat (off + of_nat 4) = unat off + 4" by (rule unat_plus) (use assms(2) tot in simp)
  have n: "length xs < 2 ^ 32"
  proof -
    have "length xs \<le> sz * length xs" using assms(5) by simp
    with assms(2) tot show ?thesis by linarith
  qed
  from l have "lies data (unat off) (htod32ap P (of_nat (length xs)))"
    and b: "lies data (unat (off + of_nat 4)) (concat (map f xs))" by (simp_all add: array_bytes_def u del: of_nat_numeral)
  from this(1) have "dtoh32ap P data (unat off) = Some (of_nat (length xs))" by (rule dtoh_lies(3))
  moreover have "ctvals rd sz tot (length xs) (off + of_nat 4) = Some (Some xs, off + of_nat 4 + of_nat (sz * length xs))"
    by (rule ctvals_run [OF b _ rd len]) (use u assms(2) in simp_all)
  ultimately show ?thesis using assms(2) mem n
    by (simp add: RARR_def unat_minus unat_length add.assoc)
qed

section \<open>Values on the wire\<close>

text \<open>The value has the member that the type names, and strings survive the conversion to UCS-2.\<close>

definition fits :: "PTPParams \<Rightarrow> PTPPropertyValue \<Rightarrow> 16 word \<Rightarrow> bool" where
  "fits P v dt =
    (if dt = PTP_DTC_INT8 \<or> dt = PTP_DTC_UINT8 then is_V8 v
     else if dt = PTP_DTC_INT16 \<or> dt = PTP_DTC_UINT16 then is_V16 v
     else if dt = PTP_DTC_INT32 \<or> dt = PTP_DTC_UINT32 then is_V32 v
     else if dt = PTP_DTC_INT64 \<or> dt = PTP_DTC_UINT64 then is_V64 v
     else if dt = PTP_DTC_AINT8 \<or> dt = PTP_DTC_AUINT8 then (case v of VArr vs \<Rightarrow> \<forall>x\<in>set vs. is_V8 x | _ \<Rightarrow> False)
     else if dt = PTP_DTC_AINT16 \<or> dt = PTP_DTC_AUINT16 then (case v of VArr vs \<Rightarrow> \<forall>x\<in>set vs. is_V16 x | _ \<Rightarrow> False)
     else if dt = PTP_DTC_AINT32 \<or> dt = PTP_DTC_AUINT32 then (case v of VArr vs \<Rightarrow> \<forall>x\<in>set vs. is_V32 x | _ \<Rightarrow> False)
     else if dt = PTP_DTC_AINT64 \<or> dt = PTP_DTC_AUINT64 then (case v of VArr vs \<Rightarrow> \<forall>x\<in>set vs. is_V64 x | _ \<Rightarrow> False)
     else if dt = PTP_DTC_STR then (case v of VStr (Some s) \<Rightarrow> portable P s | _ \<Rightarrow> False)
     else False)"

lemma all_members:
  "\<forall>x\<in>set vs. is_V8 x \<Longrightarrow> \<exists>xs. vs = map V8 xs" "\<forall>x\<in>set vs. is_V16 x \<Longrightarrow> \<exists>xs. vs = map V16 xs"
  "\<forall>x\<in>set vs. is_V32 x \<Longrightarrow> \<exists>xs. vs = map V32 xs" "\<forall>x\<in>set vs. is_V64 x \<Longrightarrow> \<exists>xs. vs = map V64 xs"
  by (induction vs) (auto simp: is_V8_def is_V16_def is_V32_def is_V64_def Cons_eq_map_conv)

lemma those_members:
  "those (map (u8 \<circ> V8) xs) = Some xs" "those (map (u16 \<circ> V16) ys) = Some ys"
  "those (map (u32 \<circ> V32) zs) = Some zs" "those (map (u64 \<circ> V64) ws) = Some ws"
  by (induction xs, simp_all) (induction ys, simp_all, induction zs, simp_all, induction ws, simp_all)

lemma stringcopy:
  assumes "portable P s" and "\<forall>n. can_alloc P n"
  shows "\<exists>u. ptp_get_packed_stringcopy P (Some s) = Some (wire_string P u) \<and> length u < PTP_MAXSTRLEN \<and>
    upto_nul (from_ucs2 P (host_bytes u @ htod16ap P 0)) = s"
proof -
  from assms(1) obtain u where u: "to_ucs2 P s = Some u" and n: "length u < PTP_MAXSTRLEN"
    and s: "upto_nul (from_ucs2 P (host_bytes u @ htod16ap P 0)) = s"
    by (auto simp: portable_def split: option.splits)
  have "unat (of_nat (length u) + 1 :: octet) = length u + 1"
  proof -
    have "unat (of_nat (length u + 1) :: octet) = length u + 1"
      using n unfolding unat_of_nat by (simp add: PTP_MAXSTRLEN_def)
    then show ?thesis by (simp add: add.commute)
  qed
  moreover have "ptp_pack_string P s (map (uninit P) [0..<PTP_MAXSTRLEN * 2 + 3]) 0 =
      Some (take (unat (0 :: 16 word)) (map (uninit P) [0..<PTP_MAXSTRLEN * 2 + 3]) @ wire_string P u @
        drop (unat (0 :: 16 word) + length (wire_string P u)) (map (uninit P) [0..<PTP_MAXSTRLEN * 2 + 3]), of_nat (length u) + 1)"
    by (rule pack_string [OF u n]) (use n in \<open>simp add: PTP_MAXSTRLEN_def\<close>)
  ultimately have "ptp_get_packed_stringcopy P (Some s) = Some (wire_string P u)"
    using assms(2) by (simp add: ptp_get_packed_stringcopy_def Let_def)
  with n s show ?thesis by blast
qed

lemma pack_array_run:
  assumes "\<forall>n. can_alloc P n" and "4 + length xs * sz < 2 ^ 32"
  shows "pack_array P sz (map f xs) = Some (array_bytes P f xs)"
  using assms by (simp add: pack_array_def array_bytes_def)

lemma fits_cases:
  assumes "fits P v dt"
  obtains (b1) x where "dt = PTP_DTC_INT8 \<or> dt = PTP_DTC_UINT8" "v = V8 x"
    | (b2) x where "dt = PTP_DTC_INT16 \<or> dt = PTP_DTC_UINT16" "v = V16 x"
    | (b4) x where "dt = PTP_DTC_INT32 \<or> dt = PTP_DTC_UINT32" "v = V32 x"
    | (b8) x where "dt = PTP_DTC_INT64 \<or> dt = PTP_DTC_UINT64" "v = V64 x"
    | (a1) xs where "dt = PTP_DTC_AINT8 \<or> dt = PTP_DTC_AUINT8" "v = VArr (map V8 xs)"
    | (a2) xs where "dt = PTP_DTC_AINT16 \<or> dt = PTP_DTC_AUINT16" "v = VArr (map V16 xs)"
    | (a4) xs where "dt = PTP_DTC_AINT32 \<or> dt = PTP_DTC_AUINT32" "v = VArr (map V32 xs)"
    | (a8) xs where "dt = PTP_DTC_AINT64 \<or> dt = PTP_DTC_AUINT64" "v = VArr (map V64 xs)"
    | (string) s where "dt = PTP_DTC_STR" "v = VStr (Some s)" "portable P s"
  using assms by (cases v) (auto simp: fits_def split: if_splits option.splits dest!: all_members)

text \<open>Reading back, member by member.\<close>

definition reads_back :: "PTPParams \<Rightarrow> PTPPropertyValue \<Rightarrow> 16 word \<Rightarrow> octet list \<Rightarrow> bool" where
  "reads_back P v dt bs \<longleftrightarrow>
    (\<forall>data off tot w. lies data (unat off) bs \<longrightarrow> unat off + length bs \<le> unat tot \<longrightarrow> unat off < 2 ^ 16 \<longrightarrow>
       ptp_unpack_DPV P data off tot w dt = Some (True, v, off + of_nat (length bs)))"

lemma reads_back_scalar:
  "dt = PTP_DTC_INT8 \<or> dt = PTP_DTC_UINT8 \<Longrightarrow> reads_back P (V8 x1) dt (htod8a x1)"
  "dt = PTP_DTC_INT16 \<or> dt = PTP_DTC_UINT16 \<Longrightarrow> reads_back P (V16 x2) dt (htod16ap P x2)"
  "dt = PTP_DTC_INT32 \<or> dt = PTP_DTC_UINT32 \<Longrightarrow> reads_back P (V32 x4) dt (htod32ap P x4)"
  "dt = PTP_DTC_INT64 \<or> dt = PTP_DTC_UINT64 \<Longrightarrow> reads_back P (V64 x8) dt (htod64ap P x8)"
  unfolding reads_back_def ptp_unpack_DPV_def taken_def
  by (auto simp: dtc_defs CTVAL_run dtoh_lies)

lemma reads_back_array:
  assumes "\<forall>n. can_alloc P n"
  shows "dt = PTP_DTC_AINT8 \<or> dt = PTP_DTC_AUINT8 \<Longrightarrow> reads_back P (VArr (map V8 xs1)) dt (array_bytes P htod8a xs1)"
    "dt = PTP_DTC_AINT16 \<or> dt = PTP_DTC_AUINT16 \<Longrightarrow> reads_back P (VArr (map V16 xs2)) dt (array_bytes P (htod16ap P) xs2)"
    "dt = PTP_DTC_AINT32 \<or> dt = PTP_DTC_AUINT32 \<Longrightarrow> reads_back P (VArr (map V32 xs4)) dt (array_bytes P (htod32ap P) xs4)"
    "dt = PTP_DTC_AINT64 \<or> dt = PTP_DTC_AUINT64 \<Longrightarrow> reads_back P (VArr (map V64 xs8)) dt (array_bytes P (htod64ap P) xs8)"
  unfolding reads_back_def ptp_unpack_DPV_def taken_def using assms
  by (auto simp: dtc_defs array_bytes_length [of _ 1] array_bytes_length [of _ 2] array_bytes_length [of _ 4] array_bytes_length [of _ 8]
      RARR_run [where f = htod8a and sz = 1] RARR_run [where f = "htod16ap P" and sz = 2]
      RARR_run [where f = "htod32ap P" and sz = 4] RARR_run [where f = "htod64ap P" and sz = 8] dtoh_lies simp del: One_nat_def)

lemma ucast_small: "n < 256 \<Longrightarrow> (ucast (of_nat n :: octet) :: 32 word) = of_nat n"
  by (simp add: word_unat_eq_iff unsigned_ucast_eq unat_of_nat take_bit_nat_eq_self_iff)

lemma reads_back_string:
  assumes "length u < PTP_MAXSTRLEN" and "upto_nul (from_ucs2 P (host_bytes u @ htod16ap P 0)) = s"
  shows "reads_back P (VStr (Some s)) PTP_DTC_STR (wire_string P u)"
proof -
  have "ptp_unpack_DPV P data off tot w PTP_DTC_STR = Some (True, VStr (Some s), off + of_nat (length (wire_string P u)))"
    if l: "lies data (unat off) (wire_string P u)" and "unat off < 2 ^ 16" for data off tot w
  proof -
    have o: "unat (ucast off :: 16 word) = unat off" using that(2) by (simp add: unsigned_ucast_eq take_bit_nat_eq_self_iff)
    have "ptp_unpack_string P data (ucast off) = Some (Some s, of_nat (length u) + 1)"
      using unpack_string [of data "ucast off" P u] l assms by (simp add: o)
    moreover have "(ucast (of_nat (length u) + 1 :: octet) :: 32 word) = of_nat (length u + 1)"
    proof -
      have e: "of_nat (length u) + 1 = (of_nat (length u + 1) :: octet)" by simp
      show ?thesis unfolding e by (rule ucast_small) (use assms(1) in \<open>simp add: PTP_MAXSTRLEN_def\<close>)
    qed
    ultimately have "ptp_unpack_DPV P data off tot w PTP_DTC_STR = Some (True, VStr (Some s), off + of_nat (length u + 1) * 2 + 1)"
      by (simp add: ptp_unpack_DPV_def dtc_defs del: of_nat_add of_nat_Suc)
    also have "off + of_nat (length u + 1) * 2 + 1 = off + of_nat ((length u + 1) * 2 + 1)"
      by (simp only: of_nat_add of_nat_mult of_nat_1 of_nat_numeral add.assoc)
    also have "(length u + 1) * 2 + 1 = length (wire_string P u)" by simp
    finally show ?thesis .
  qed
  then show ?thesis by (auto simp: reads_back_def)
qed

definition sane :: "PTPPropertyValue \<Rightarrow> bool" where
  "sane v = (case v of VArr vs \<Rightarrow> length vs < 2 ^ 28 | _ \<Rightarrow> True)"

lemma pack_reads_back:
  assumes f: "fits P v dt" and mem: "\<forall>n. can_alloc P n" and z: "sane v"
  shows "\<exists>bs. ptp_pack_DPV P v dt = Some bs \<and> reads_back P v dt bs"
  using f
proof (cases rule: fits_cases)
  case (b1 x)
  then have "ptp_pack_DPV P v dt = Some (htod8a x)" using mem by (auto simp: ptp_pack_DPV_def dtc_defs pack_scalar_def)
  with reads_back_scalar(1) b1 show ?thesis by blast
next
  case (b2 x)
  then have "ptp_pack_DPV P v dt = Some (htod16ap P x)" using mem by (auto simp: ptp_pack_DPV_def dtc_defs pack_scalar_def)
  with reads_back_scalar(2) b2 show ?thesis by blast
next
  case (b4 x)
  then have "ptp_pack_DPV P v dt = Some (htod32ap P x)" using mem by (auto simp: ptp_pack_DPV_def dtc_defs pack_scalar_def)
  with reads_back_scalar(3) b4 show ?thesis by blast
next
  case (b8 x)
  then have "ptp_pack_DPV P v dt = Some (htod64ap P x)" using mem by (auto simp: ptp_pack_DPV_def dtc_defs pack_scalar_def)
  with reads_back_scalar(4) b8 show ?thesis by blast
next
  case (a1 xs)
  with z have "ptp_pack_DPV P v dt = Some (array_bytes P htod8a xs)"
    using mem by (auto simp: ptp_pack_DPV_def dtc_defs those_members pack_array_run sane_def simp del: One_nat_def)
  with reads_back_array(1) [OF mem] a1 show ?thesis by blast
next
  case (a2 xs)
  with z have "ptp_pack_DPV P v dt = Some (array_bytes P (htod16ap P) xs)"
    using mem by (auto simp: ptp_pack_DPV_def dtc_defs those_members pack_array_run sane_def simp del: One_nat_def)
  with reads_back_array(2) [OF mem] a2 show ?thesis by blast
next
  case (a4 xs)
  with z have "ptp_pack_DPV P v dt = Some (array_bytes P (htod32ap P) xs)"
    using mem by (auto simp: ptp_pack_DPV_def dtc_defs those_members pack_array_run sane_def simp del: One_nat_def)
  with reads_back_array(3) [OF mem] a4 show ?thesis by blast
next
  case (a8 xs)
  with z have "ptp_pack_DPV P v dt = Some (array_bytes P (htod64ap P) xs)"
    using mem by (auto simp: ptp_pack_DPV_def dtc_defs those_members pack_array_run sane_def simp del: One_nat_def)
  with reads_back_array(4) [OF mem] a8 show ?thesis by blast
next
  case (string s)
  from stringcopy [OF string(3) mem] obtain u where u: "ptp_get_packed_stringcopy P (Some s) = Some (wire_string P u)"
    "length u < PTP_MAXSTRLEN" "upto_nul (from_ucs2 P (host_bytes u @ htod16ap P 0)) = s" by blast
  then have "ptp_pack_DPV P v dt = Some (wire_string P u)" using string by (simp add: ptp_pack_DPV_def dtc_defs)
  with reads_back_string [OF u(2,3)] string show ?thesis by blast
qed

section \<open>Inside the data\<close>

lemma CTVAL_inside:
  assumes "unat off \<le> unat tot" "unat tot \<le> length data" and "\<And>i. i + sz \<le> length data \<Longrightarrow> rd i \<noteq> None"
  shows "\<exists>r off'. CTVAL rd sz tot off = Some (r, off') \<and> unat off \<le> unat off' \<and> unat off' \<le> unat tot"
proof (cases "unat (tot - off) < sz")
  case True
  with assms(1) show ?thesis by (simp add: CTVAL_def)
next
  case False
  then have *: "unat off + sz \<le> unat tot" using assms(1) by (simp add: unat_minus)
  with assms(2) have "unat off + sz \<le> length data" by simp
  from assms(3) [OF this] obtain x where "rd (unat off) = Some x" by auto
  moreover have "unat (off + of_nat sz) = unat off + sz" by (rule unat_plus) (use * unat_lt32 [of tot] in simp)
  ultimately show ?thesis using False * by (simp add: CTVAL_def)
qed

lemma ctvals_inside:
  assumes "unat off \<le> unat tot" "unat tot \<le> length data" and rd: "\<And>i. i + sz \<le> length data \<Longrightarrow> rd i \<noteq> None"
  shows "\<exists>r off'. ctvals rd sz tot n off = Some (r, off') \<and> unat off \<le> unat off' \<and> unat off' \<le> unat tot"
  using assms(1)
proof (induction n arbitrary: off)
  case (Suc n)
  from CTVAL_inside [OF Suc.prems assms(2), of sz rd] rd obtain r off1 where
    c: "CTVAL rd sz tot off = Some (r, off1)" "unat off \<le> unat off1" "unat off1 \<le> unat tot" by blast
  from Suc.IH [OF c(3)] obtain r2 off2 where
    d: "ctvals rd sz tot n off1 = Some (r2, off2)" "unat off1 \<le> unat off2" "unat off2 \<le> unat tot" by blast
  from c d show ?case by (cases r) auto
qed simp

lemma RARR_inside:
  assumes "unat off \<le> unat tot" "unat tot \<le> length data" and rd: "\<And>i. i + sz \<le> length data \<Longrightarrow> rd i \<noteq> None"
  shows "\<exists>r off'. RARR P data rd sz tot off = Some (r, off') \<and> unat off \<le> unat off' \<and> unat off' \<le> unat tot"
proof (cases "unat (tot - off) < 4")
  case True
  with assms(1) show ?thesis by (simp add: RARR_def)
next
  case False
  then have *: "unat off + 4 \<le> unat tot" using assms(1) by (simp add: unat_minus)
  then obtain n where n: "dtoh32ap P data (unat off) = Some n"
    using assms(2) dtoh_defined(3) [of P data "unat off"] by fastforce
  have u: "unat (off + 4) = unat off + 4"
    using unat_plus [of off 4] * unat_lt32 [of tot] by simp
  with * have "unat (off + 4) \<le> unat tot" by simp
  from ctvals_inside [OF this assms(2), where rd = rd and sz = sz and n = "unat n"] rd obtain r off' where
    c: "ctvals rd sz tot (unat n) (off + 4) = Some (r, off')" "unat (off + 4) \<le> unat off'" "unat off' \<le> unat tot" by blast
  with False n u * show ?thesis by (cases "can_alloc P (16 * unat n)") (simp_all add: RARR_def)
qed

lemma taken_inside:
  assumes "\<exists>r off'. R = Some (r, off') \<and> unat off \<le> unat off' \<and> unat off' \<le> unat tot"
  shows "\<exists>ret v off'. taken old c R = Some (ret, v, off') \<and> unat off \<le> unat off' \<and> unat off' \<le> unat tot"
  using assms by (auto simp: taken_def split: option.splits)

section \<open>The properties\<close>

text \<open>A little endian device, no iconv, enough memory.\<close>

definition plain_params :: PTPParams where
  "plain_params = \<lparr> byteorder = PTP_DL_LE, ocs64 = False, cd_locale_to_ucs2 = None, cd_ucs2_to_locale = None,
    can_alloc = (\<lambda>_. True), uninit = (\<lambda>_. 0) \<rparr>"

text \<open>C21: What \<open>ptp_pack_DPV\<close> writes, \<open>ptp_unpack_DPV\<close> reads back: for every integer type of up to 64 bits, arrays of them (of less than \<open>2 ^ 28\<close> elements) and strings
  that survive the conversion to UCS-2 and back, in either byte order, wherever the bytes lie in the first \<open>2 ^ 16\<close> bytes of the data (\<open>ptp_unpack_string\<close> takes the offset as an \<open>uint16_t\<close>), the
  value is the same and the offset ends behind it. The types of 128 bits are left out: \<open>ptp_pack_DPV\<close> does not write them.\<close>
theorem property_roundtrip:
  assumes "fits P v dt" and "\<forall>n. can_alloc P n" and "sane v"
  shows "\<exists>bs. ptp_pack_DPV P v dt = Some bs \<and>
    (\<forall>data off tot w. lies data (unat off) bs \<longrightarrow> unat off + length bs \<le> unat tot \<longrightarrow> unat off < 2 ^ 16 \<longrightarrow>
       ptp_unpack_DPV P data off tot w dt = Some (True, v, off + of_nat (length bs)))"
  using pack_reads_back [OF assms] by (simp add: reads_back_def)

theorem property_roundtrip_witness:
  "\<exists>bs. ptp_pack_DPV plain_params (VArr [V16 1, V16 2]) PTP_DTC_AUINT16 = Some bs \<and>
     ptp_unpack_DPV plain_params bs 0 8 Junk PTP_DTC_AUINT16 = Some (True, VArr [V16 1, V16 2], 8)"
proof -
  have f: "fits plain_params (VArr [V16 1, V16 2]) PTP_DTC_AUINT16" by (simp add: fits_def dtc_defs)
  have m: "\<forall>n. can_alloc plain_params n" by (simp add: plain_params_def)
  have z: "sane (VArr [V16 1, V16 2])" by (simp add: sane_def)
  from property_roundtrip [OF f m z] obtain bs where
    p: "ptp_pack_DPV plain_params (VArr [V16 1, V16 2]) PTP_DTC_AUINT16 = Some bs" and
    r: "\<forall>data off tot w. lies data (unat off) bs \<longrightarrow> unat off + length bs \<le> unat tot \<longrightarrow> unat off < 2 ^ 16 \<longrightarrow>
       ptp_unpack_DPV plain_params data off tot w PTP_DTC_AUINT16 = Some (True, VArr [V16 1, V16 2], off + of_nat (length bs))"
    by blast
  from p m have "bs = htod32ap plain_params 2 @ htod16ap plain_params 1 @ htod16ap plain_params 2"
    by (simp add: ptp_pack_DPV_def dtc_defs pack_array_def)
  then have n: "length bs = 8" by simp
  from r [rule_format, of bs 0 8 Junk] have
    "ptp_unpack_DPV plain_params bs 0 8 Junk PTP_DTC_AUINT16 = Some (True, VArr [V16 1, V16 2], 8)" by (simp add: n)
  with p show ?thesis by blast
qed

text \<open>C23: The length checks of CTVAL and RARR are enough for integers and arrays of integers: from an offset inside the data \<open>ptp_unpack_DPV\<close> reads
  nothing outside, whatever the bytes are, and the new offset is inside again.\<close>
theorem dpv_inside:
  assumes "unat off \<le> unat tot" and "unat tot \<le> length data"
    and "dt \<noteq> PTP_DTC_INT128" "dt \<noteq> PTP_DTC_UINT128" "dt \<noteq> PTP_DTC_STR"
  shows "\<exists>ret v off'. ptp_unpack_DPV P data off tot w dt = Some (ret, v, off') \<and> unat off \<le> unat off' \<and> unat off' \<le> unat tot"
proof -
  have rd: "i + 1 \<le> length data \<Longrightarrow> dtoh8a data i \<noteq> None" "i + 2 \<le> length data \<Longrightarrow> dtoh16ap P data i \<noteq> None"
    "i + 4 \<le> length data \<Longrightarrow> dtoh32ap P data i \<noteq> None" "i + 8 \<le> length data \<Longrightarrow> dtoh64ap P data i \<noteq> None" for i
    by (simp_all only: dtoh_defined not_less)
  note c = taken_inside [OF CTVAL_inside [OF assms(1,2)], OF rd(1)] taken_inside [OF CTVAL_inside [OF assms(1,2)], OF rd(2)]
    taken_inside [OF CTVAL_inside [OF assms(1,2)], OF rd(3)] taken_inside [OF CTVAL_inside [OF assms(1,2)], OF rd(4)]
  note a = taken_inside [OF RARR_inside [OF assms(1,2)], OF rd(1)] taken_inside [OF RARR_inside [OF assms(1,2)], OF rd(2)]
    taken_inside [OF RARR_inside [OF assms(1,2)], OF rd(3)] taken_inside [OF RARR_inside [OF assms(1,2)], OF rd(4)]
  show ?thesis unfolding ptp_unpack_DPV_def using assms c a by (simp only: if_split simp_thms) auto
qed

theorem dpv_inside_witness:
  "\<exists>ret v off'. ptp_unpack_DPV plain_params [255, 255, 255, 255, 7] 0 5 Junk PTP_DTC_AUINT8 = Some (ret, v, off') \<and> unat off' \<le> 5"
  using dpv_inside [of 0 5 "[255, 255, 255, 255, 7]" PTP_DTC_AUINT8 plain_params Junk] by (auto simp: dtc_defs)

text \<open>A device property description that ends where its form flag should stand is read past its end: the flag is not covered by any length check.\<close>
lemma dpd_cut_overread:
  assumes "length data = 7" and "dtoh16ap P data 2 = Some PTP_DTC_UINT8"
  shows "ptp_unpack_DPD P data 7 = None"
proof -
  have "\<exists>x. dtoh8a data i = Some x" if "i < 7" for i
    using dtoh_defined(1) [of data i] assms(1) that by fastforce
  from this [of 5] this [of 6] obtain x y where b: "dtoh8a data 5 = Some x" "dtoh8a data 6 = Some y" by auto
  have e: "dtoh8a data 7 = None" using dtoh_defined(1) [of data 7] assms(1) by simp
  have v: "ptp_unpack_DPV P data 5 7 Zero PTP_DTC_UINT8 = Some (True, V8 x, 6)"
    "ptp_unpack_DPV P data 6 7 Zero PTP_DTC_UINT8 = Some (True, V8 y, 7)"
    using b by (simp_all add: ptp_unpack_DPV_def dtc_defs taken_def CTVAL_def)
  show ?thesis unfolding ptp_unpack_DPD_def using assms(2) v e
    by (cases "dtoh16ap P data 0"; cases "dtoh8a data 4") (simp_all add: Let_def PTP_DTC_UINT8_def PTP_DTC_STR_def)
qed

text \<open>An array whose last element lies behind the end of the copy is not copied.\<close>

lemma duplicate_none:
  assumes "\<forall>v\<in>set vs. \<exists>d. duplicate_scalar v t = Some (d, k)" and "0 < k" and "room < 16 * (i + length vs - 1) + k" and "vs \<noteq> []"
  shows "duplicate_array room t i vs = None"
  using assms
proof (induction vs arbitrary: i)
  case (Cons v vs)
  then obtain d where d: "duplicate_scalar v t = Some (d, k)" by auto
  show ?case
  proof (cases "vs = []")
    case True
    with Cons.prems d show ?thesis by simp
  next
    case False
    have "duplicate_array room t (i + 1) vs = None"
      by (rule Cons.IH) (use Cons.prems False in \<open>auto simp: Suc_le_eq\<close>)
    with d Cons.prems(2) show ?thesis by simp
  qed
qed simp

lemma duplicate_scalar_member:
  "dt = PTP_DTC_INT8 \<or> dt = PTP_DTC_UINT8 \<Longrightarrow> duplicate_scalar (V8 x1) dt = Some (V8 x1, 1)"
  "dt = PTP_DTC_INT16 \<or> dt = PTP_DTC_UINT16 \<Longrightarrow> duplicate_scalar (V16 x2) dt = Some (V16 x2, 2)"
  "dt = PTP_DTC_INT32 \<or> dt = PTP_DTC_UINT32 \<Longrightarrow> duplicate_scalar (V32 x4) dt = Some (V32 x4, 4)"
  "dt = PTP_DTC_INT64 \<or> dt = PTP_DTC_UINT64 \<Longrightarrow> duplicate_scalar (V64 x8) dt = Some (V64 x8, 8)"
  by (auto simp: duplicate_scalar_def dtc_defs)

lemma duplicate_array_result:
  assumes "\<forall>v\<in>set vs. duplicate_scalar v t = Some (v, k)" and "0 < k" "k \<le> 8"
  shows "duplicate_array (8 * length vs) t 0 vs = (if length vs \<le> 1 then Some vs else None)"
proof (cases "length vs \<le> 1")
  case True
  with assms show ?thesis by (cases vs) auto
next
  case False
  then have "8 * length vs < 16 * (0 + length vs - 1) + k" using assms(2) by simp
  from duplicate_none [OF _ assms(2) this] assms(1) False show ?thesis by force
qed

text \<open>Copying a property value: a single integer is copied, but an array of two or more elements is written behind the end of the copy, which has room for pointers
  instead of elements, and a string is taken for an array, because the code of strings has the bit that marks arrays.\<close>
lemma duplicate_value:
  assumes "fits P v dt" and "\<forall>n. can_alloc P n"
  shows "duplicate_PropertyValue P v dt =
    (case v of VArr vs \<Rightarrow> if length vs \<le> 1 then Some v else None | VStr s \<Rightarrow> None | _ \<Rightarrow> Some v)"
  using assms(1)
proof (cases rule: fits_cases)
  case (a1 xs)
  then have "dt AND NOT PTP_DTC_ARRAY_MASK = PTP_DTC_INT8 \<or> dt AND NOT PTP_DTC_ARRAY_MASK = PTP_DTC_UINT8"
    and "dt AND PTP_DTC_ARRAY_MASK \<noteq> 0" by (auto simp: dtc_defs)
  with a1 assms(2) show ?thesis
    using duplicate_array_result [of "map V8 xs" "dt AND NOT PTP_DTC_ARRAY_MASK" 1]
    by (auto simp: duplicate_PropertyValue_def duplicate_scalar_member)
next
  case (a2 xs)
  then have "dt AND NOT PTP_DTC_ARRAY_MASK = PTP_DTC_INT16 \<or> dt AND NOT PTP_DTC_ARRAY_MASK = PTP_DTC_UINT16"
    and "dt AND PTP_DTC_ARRAY_MASK \<noteq> 0" by (auto simp: dtc_defs)
  with a2 assms(2) show ?thesis
    using duplicate_array_result [of "map V16 xs" "dt AND NOT PTP_DTC_ARRAY_MASK" 2]
    by (auto simp: duplicate_PropertyValue_def duplicate_scalar_member)
next
  case (a4 xs)
  then have "dt AND NOT PTP_DTC_ARRAY_MASK = PTP_DTC_INT32 \<or> dt AND NOT PTP_DTC_ARRAY_MASK = PTP_DTC_UINT32"
    and "dt AND PTP_DTC_ARRAY_MASK \<noteq> 0" by (auto simp: dtc_defs)
  with a4 assms(2) show ?thesis
    using duplicate_array_result [of "map V32 xs" "dt AND NOT PTP_DTC_ARRAY_MASK" 4]
    by (auto simp: duplicate_PropertyValue_def duplicate_scalar_member)
next
  case (a8 xs)
  then have "dt AND NOT PTP_DTC_ARRAY_MASK = PTP_DTC_INT64 \<or> dt AND NOT PTP_DTC_ARRAY_MASK = PTP_DTC_UINT64"
    and "dt AND PTP_DTC_ARRAY_MASK \<noteq> 0" by (auto simp: dtc_defs)
  with a8 assms(2) show ?thesis
    using duplicate_array_result [of "map V64 xs" "dt AND NOT PTP_DTC_ARRAY_MASK" 8]
    by (auto simp: duplicate_PropertyValue_def duplicate_scalar_member)
qed (auto simp: duplicate_PropertyValue_def duplicate_scalar_def dtc_defs)

section \<open>Property lists\<close>

text \<open>The comparison is the order of the handles as long as they are below \<open>2 ^ 31\<close>; beyond it is cyclic.\<close>

lemma compare_handles:
  assumes "uint (ObjectHandle a) < 2 ^ 31" "uint (ObjectHandle b) < 2 ^ 31"
  shows "compare_func a b = uint (ObjectHandle a) - uint (ObjectHandle b)"
proof -
  let ?k = "uint (ObjectHandle a) - uint (ObjectHandle b)"
  have "uint (ObjectHandle a) < 2147483648" "uint (ObjectHandle b) < 2147483648" using assms by simp_all
  then have g: "- 2147483648 \<le> ?k" "?k < 2147483648"
    using uint_ge_0 [of "ObjectHandle a"] uint_ge_0 [of "ObjectHandle b"] by linarith+
  have "sint (ObjectHandle a - ObjectHandle b) = signed_take_bit 31 (take_bit 32 ?k)"
    by (simp add: sint_uint uint_word_ariths take_bit_eq_mod)
  also have "\<dots> = signed_take_bit 31 ?k" by (simp add: signed_take_bit_take_bit)
  also have "\<dots> = ?k" using g by (intro signed_take_bit_int_eq_self) simp_all
  finally show ?thesis by (simp add: compare_func_def)
qed

lemma compare_cyclic:
  "\<exists>a b c. compare_func a b < 0 \<and> compare_func b c < 0 \<and> compare_func c a < 0"
proof -
  let ?p = "\<lambda>h. \<lparr> property = 0, mtp_datatype = 0, ObjectHandle = h, propval = Zero \<rparr>"
  have "compare_func (?p 0) (?p 0x50000000) < 0 \<and> compare_func (?p 0x50000000) (?p 0xA0000000) < 0 \<and>
      compare_func (?p 0xA0000000) (?p 0) < 0"
    by (simp add: compare_func_def)
  then show ?thesis by blast
qed

text \<open>What \<open>qsort\<close> does with a comparison that orders the elements.\<close>

definition orders :: "('a \<Rightarrow> 'a \<Rightarrow> int) \<Rightarrow> 'a set \<Rightarrow> bool" where
  "orders cmp A \<longleftrightarrow> (\<forall>a\<in>A. \<forall>b\<in>A. cmp a b = - cmp b a \<and> (\<forall>c\<in>A. cmp a b \<le> 0 \<longrightarrow> cmp b c \<le> 0 \<longrightarrow> cmp a c \<le> 0))"

lemma orders_subset: "orders cmp A \<Longrightarrow> B \<subseteq> A \<Longrightarrow> orders cmp B"
  unfolding orders_def by blast

lemma orders_trans: "orders cmp A \<Longrightarrow> a \<in> A \<Longrightarrow> b \<in> A \<Longrightarrow> c \<in> A \<Longrightarrow> cmp a b \<le> 0 \<Longrightarrow> cmp b c \<le> 0 \<Longrightarrow> cmp a c \<le> 0"
  unfolding orders_def by blast

lemma orders_linear: "orders cmp A \<Longrightarrow> a \<in> A \<Longrightarrow> b \<in> A \<Longrightarrow> cmp a b \<le> 0 \<or> cmp b a \<le> 0"
  unfolding orders_def by (metis linorder_linear neg_le_0_iff_le)

definition qsort_sorts :: "qsort \<Rightarrow> bool" where
  "qsort_sorts qs \<longleftrightarrow> (\<forall>ps. orders compare_func (set ps) \<longrightarrow>
     mset (qs compare_func ps) = mset ps \<and> sorted_wrt (\<lambda>a b. compare_func a b \<le> 0) (qs compare_func ps))"

lemma qsort_handles:
  assumes "qsort_sorts qs" and h: "\<forall>p\<in>set ps. uint (ObjectHandle p) < 2 ^ 31"
  shows "mset (qs compare_func ps) = mset ps \<and> sorted (map (\<lambda>p. uint (ObjectHandle p)) (qs compare_func ps))"
proof -
  have "mset (qs compare_func ps) = mset ps" and s: "sorted_wrt (\<lambda>a b. compare_func a b \<le> 0) (qs compare_func ps)"
    using assms by (simp_all add: qsort_sorts_def orders_def compare_handles)
  then have "\<forall>p\<in>set (qs compare_func ps). uint (ObjectHandle p) < 2 ^ 31" using h by (metis set_mset_mset)
  then have "sorted_wrt (\<lambda>a b. uint (ObjectHandle a) \<le> uint (ObjectHandle b)) (qs compare_func ps)"
    by (intro sorted_wrt_mono_rel [OF _ s]) (simp add: compare_handles)
  with \<open>mset _ = _\<close> show ?thesis by (simp add: sorted_map)
qed

lemma lies_drop: "k \<le> length data \<Longrightarrow> lies (drop k data) i bs \<longleftrightarrow> lies data (k + i) bs"
  by (auto simp: lies_iff add.commute)

lemma unpack_props_run:
  assumes "list_all2 (\<lambda>p bs. \<exists>v. bs = htod32ap P (ObjectHandle p) @ htod16ap P (property p) @ htod16ap P (mtp_datatype p) @ v \<and>
      reads_back P (propval p) (mtp_datatype p) v) props items"
    and "lies data 0 (concat items)" and "unat len = length (concat items)"
  shows "unpack_props P (length props) data len = Some props"
  using assms
proof (induction props items arbitrary: data len rule: list_all2_induct)
  case (Cons p props bs items)
  from Cons.hyps(1) obtain v where bs: "bs = htod32ap P (ObjectHandle p) @ htod16ap P (property p) @ htod16ap P (mtp_datatype p) @ v"
    and v: "reads_back P (propval p) (mtp_datatype p) v" by blast
  have l: "lies data 0 (htod32ap P (ObjectHandle p))" "lies data 4 (htod16ap P (property p))"
    "lies data 6 (htod16ap P (mtp_datatype p))" "lies data 8 v" "lies data (8 + length v) (concat items)"
    using Cons.prems(1) by (simp_all add: bs)
  have n: "unat len = 8 + length v + length (concat items)" using Cons.prems(2) by (simp add: bs)
  then have "len \<noteq> 0" by auto
  have u: "unat (len - 8) = length v + length (concat items)" using unat_minus [of 8 len] n by simp
  have vl: "length v < 2 ^ 32" using u unat_lt32 [of "len - 8"] by simp
  have ul: "unat (of_nat (length v) :: 32 word) = length v" using vl by (rule unat_length)
  have "lies (drop 8 data) (unat (0 :: 32 word)) v" using l(4) lies_end [OF l(4)] by (simp add: lies_drop)
  with v have d: "ptp_unpack_DPV P (drop 8 data) 0 (len - 8) Junk (mtp_datatype p) = Some (True, propval p, of_nat (length v))"
    using u by (auto simp: reads_back_def)
  have "lies (drop (length v) (drop 8 data)) 0 (concat items)"
    using l(5) lies_end [OF l(5)] by (simp add: lies_drop add.commute)
  moreover have "unat (len - 8 - of_nat (length v)) = length (concat items)"
    using unat_minus [of "of_nat (length v)" "len - 8"] u ul by simp
  ultimately have "unpack_props P (length props) (drop (length v) (drop 8 data)) (len - 8 - of_nat (length v)) = Some props"
    by (rule Cons.IH)
  then show ?case using d l \<open>len \<noteq> 0\<close> ul by (simp add: dtoh_lies Let_def)
qed simp

text \<open>C22: A property list that \<open>ptp_pack_OPL\<close> writes is read back by \<open>ptp_unpack_OPL\<close> with all properties, sorted by object handle, for up to 127 properties of handles
  below \<open>2 ^ 31\<close>, with any \<open>qsort\<close> that sorts; the number returned is that of the properties.\<close>
theorem property_list_roundtrip:
  assumes f: "\<forall>p\<in>set props. fits P (propval p) (mtp_datatype p) \<and> sane (propval p) \<and> uint (ObjectHandle p) < 2 ^ 31"
    and mem: "\<forall>n. can_alloc P n" and n: "length props \<le> MAX_MTP_PROPS" "props \<noteq> []"
    and pk: "ptp_pack_OPL P props = Some bs" and qs: "qsort_sorts qs"
  shows "\<exists>ps. ptp_unpack_OPL P qs bs (of_nat (length bs)) = Some (Some ps, length props) \<and>
    mset ps = mset props \<and> sorted (map (\<lambda>p. uint (ObjectHandle p)) ps)"
proof -
  have "\<exists>items. those (map (pack_prop P) ps) = Some items \<and>
      list_all2 (\<lambda>p bs. \<exists>v. bs = htod32ap P (ObjectHandle p) @ htod16ap P (property p) @ htod16ap P (mtp_datatype p) @ v \<and>
        reads_back P (propval p) (mtp_datatype p) v) ps items" if "set ps \<subseteq> set props" for ps
    using that
  proof (induction ps)
    case (Cons p ps)
    then obtain v where "ptp_pack_DPV P (propval p) (mtp_datatype p) = Some v" "reads_back P (propval p) (mtp_datatype p) v"
      using f mem pack_reads_back by fastforce
    with Cons show ?case by (auto simp: pack_prop_def)
  qed simp
  then obtain items where items: "those (map (pack_prop P) props) = Some items" and
    l2: "list_all2 (\<lambda>p bs. \<exists>v. bs = htod32ap P (ObjectHandle p) @ htod16ap P (property p) @ htod16ap P (mtp_datatype p) @ v \<and>
      reads_back P (propval p) (mtp_datatype p) v) props items" by blast
  have bs: "bs = htod32ap P (of_nat (length props)) @ concat items" and tot: "4 + length (concat items) < 2 ^ 32"
    using pk n items list_all2_lengthD [OF l2] by (auto simp: ptp_pack_OPL_def Let_def split: if_splits)
  have pc: "dtoh32ap P bs 0 = Some (of_nat (length props))" unfolding bs using dtoh_htod(3) [of "[]" 0 P] by simp
  have ul: "unat (of_nat (length props) :: 32 word) = length props"
    using n by (intro unat_length) (simp add: MAX_MTP_PROPS_def)
  then have nz: "(of_nat (length props) :: 32 word) \<noteq> 0" using n(2) by auto
  have "lies (drop 4 bs) 0 (concat items)" by (simp add: bs)
  moreover have "unat (of_nat (length bs) - 4 :: 32 word) = length (concat items)"
  proof -
    have lb: "length bs = 4 + length (concat items)" by (simp add: bs)
    have "unat (of_nat (length bs) :: 32 word) = length bs" by (rule unat_length) (use tot lb in simp)
    then have "unat (of_nat (length bs) - 4 :: 32 word) = length bs - 4"
      using unat_minus [of 4 "of_nat (length bs) :: 32 word"] lb by simp
    then show ?thesis using lb by simp
  qed
  ultimately have "unpack_props P (length props) (drop 4 bs) (of_nat (length bs) - 4) = Some props"
    by (rule unpack_props_run [OF l2])
  then have "ptp_unpack_OPL P qs bs (of_nat (length bs)) = Some (Some (qs compare_func props), length props)"
    using pc nz ul mem by (simp add: ptp_unpack_OPL_def)
  with qsort_handles [OF qs, of props] f show ?thesis by blast
qed

text \<open>Insertion sort is a \<open>qsort\<close> that sorts.\<close>

fun insert_by :: "('a \<Rightarrow> 'a \<Rightarrow> int) \<Rightarrow> 'a \<Rightarrow> 'a list \<Rightarrow> 'a list" where
  "insert_by cmp p [] = [p]"
| "insert_by cmp p (q # qs) = (if cmp p q \<le> 0 then p # q # qs else q # insert_by cmp p qs)"

definition insertion_sort :: "('a \<Rightarrow> 'a \<Rightarrow> int) \<Rightarrow> 'a list \<Rightarrow> 'a list" where
  "insertion_sort cmp ps = foldr (insert_by cmp) ps []"

lemma insert_by_mset: "mset (insert_by cmp p qs) = add_mset p (mset qs)"
  by (induction qs) auto

lemma insertion_sort_mset: "mset (insertion_sort cmp ps) = mset ps"
  by (induction ps) (simp_all add: insertion_sort_def insert_by_mset)

lemma insert_by_set: "set (insert_by cmp p qs) = insert p (set qs)"
  by (induction qs) auto

lemma insert_by_sorted:
  assumes "sorted_wrt (\<lambda>a b. cmp a b \<le> 0) qs" and "orders cmp (insert p (set qs))"
  shows "sorted_wrt (\<lambda>a b. cmp a b \<le> 0) (insert_by cmp p qs)"
  using assms
proof (induction qs)
  case (Cons q qs)
  have q: "cmp q x \<le> 0" if "x \<in> set qs" for x using Cons.prems(1) that by simp
  show ?case
  proof (cases "cmp p q \<le> 0")
    case True
    have "cmp p x \<le> 0" if "x \<in> set qs" for x
      by (rule orders_trans [OF Cons.prems(2) _ _ _ True q [OF that]]) (use that in simp_all)
    with True Cons.prems(1) show ?thesis by simp
  next
    case False
    then have "cmp q p \<le> 0" using orders_linear [OF Cons.prems(2), of p q] by simp
    moreover have "sorted_wrt (\<lambda>a b. cmp a b \<le> 0) (insert_by cmp p qs)"
      by (rule Cons.IH) (use Cons.prems(1) orders_subset [OF Cons.prems(2), of "insert p (set qs)"] in auto)
    ultimately show ?thesis using False q by (simp add: insert_by_set)
  qed
qed simp

lemma insertion_sort_ordered: "orders cmp (set ps) \<Longrightarrow> sorted_wrt (\<lambda>a b. cmp a b \<le> 0) (insertion_sort cmp ps)"
proof (induction ps)
  case (Cons p ps)
  have st: "set (insertion_sort cmp ps) = set ps" by (metis insertion_sort_mset set_mset_mset)
  have "orders cmp (set ps)" by (rule orders_subset [OF Cons.prems]) auto
  from insert_by_sorted [OF Cons.IH [OF this], of p] Cons.prems st
  show ?case by (simp add: insertion_sort_def)
qed (simp add: insertion_sort_def)

lemma insertion_sort_sorts: "qsort_sorts insertion_sort"
  by (simp add: qsort_sorts_def insertion_sort_mset insertion_sort_ordered)

definition demo_props :: "MTPProperties list" where
  "demo_props = [\<lparr> property = 0xDC02, mtp_datatype = PTP_DTC_UINT16, ObjectHandle = 9, propval = V16 0x3801 \<rparr>,
     \<lparr> property = 0xDC04, mtp_datatype = PTP_DTC_UINT64, ObjectHandle = 4, propval = V64 1000 \<rparr>]"

theorem property_list_roundtrip_witness:
  "\<exists>bs ps. ptp_pack_OPL plain_params demo_props = Some bs \<and>
     ptp_unpack_OPL plain_params insertion_sort bs (of_nat (length bs)) = Some (Some ps, 2) \<and> mset ps = mset demo_props"
proof -
  have f: "\<forall>p\<in>set demo_props. fits plain_params (propval p) (mtp_datatype p) \<and> sane (propval p) \<and> uint (ObjectHandle p) < 2 ^ 31"
    by (simp add: demo_props_def fits_def sane_def dtc_defs)
  have m: "\<forall>n. can_alloc plain_params n" by (simp add: plain_params_def)
  have n: "length demo_props \<le> MAX_MTP_PROPS" "demo_props \<noteq> []" "length demo_props = 2" by (simp_all add: demo_props_def MAX_MTP_PROPS_def)
  obtain bs where b: "ptp_pack_OPL plain_params demo_props = Some bs"
    using m by (simp add: ptp_pack_OPL_def demo_props_def MAX_MTP_PROPS_def pack_prop_def ptp_pack_DPV_def dtc_defs pack_scalar_def)
  from property_list_roundtrip [OF f m n(1,2) b insertion_sort_sorts] b n(3) show ?thesis by auto
qed

end
