(* ===== verification/Ptp_Dataset_Props.thy ===== *)
theory Ptp_Dataset_Props
  imports Ptp_Event Ptp_Value_Props
begin

text \<open>
  What ptp-pack.c guarantees of the datasets: round trips of object information and image formats, and which of the
  functions stay inside their buffers.
\<close>

section \<open>Object information\<close>

lemma poke_bind:
  assumes "i + length a + length b \<le> length data" and "j = i + length a"
  shows "(do { d \<leftarrow> poke data i a; d \<leftarrow> poke d j b; k d }) = (do { d \<leftarrow> poke data i (a @ b); k d })"
  using poke_poke [OF assms] by (simp flip: Option.bind_assoc)

definition oi_head :: "PTPParams \<Rightarrow> PTPObjectInfo \<Rightarrow> octet list" where
  "oi_head P oi = htod32ap P (StorageID oi) @ htod16ap P (ObjectFormat oi) @ htod16ap P (ProtectionStatus oi) @
     htod32ap P (ucast (ObjectCompressedSize oi))"

definition oi_body :: "PTPParams \<Rightarrow> PTPObjectInfo \<Rightarrow> octet list" where
  "oi_body P oi = htod16ap P (ThumbFormat oi) @ htod32ap P (ThumbCompressedSize oi) @ htod32ap P (ThumbPixWidth oi) @
     htod32ap P (ThumbPixHeight oi) @ htod32ap P (ImagePixWidth oi) @ htod32ap P (ImagePixHeight oi) @
     htod32ap P (ImageBitDepth oi) @ htod32ap P (ParentObject oi) @ htod16ap P (AssociationType oi) @
     htod32ap P (AssociationDesc oi) @ htod32ap P (SequenceNumber oi)"

lemma oi_lengths [simp]: "length (oi_head P oi) = 12" "length (oi_body P oi) = 40"
  by (simp_all add: oi_head_def oi_body_def)

lemma pack_OI:
  assumes u: "Filename oi = Some s" "to_ucs2 P s = Some u" "length u < PTP_MAXSTRLEN" and mem: "\<forall>n. can_alloc P n"
    and b: "b = (if ocs64 P then 4 else 0)"
  shows "ptp_pack_OI P oi = Some (oi_head P oi @ replicate b 0 @ oi_body P oi @ wire_string P u @
      replicate (PTP_oi_MaxLen - 55 - 2 * length u) 0, of_nat (58 + 2 * length u + b))"
proof -
  have n: "length u < 255" using u(3) by (simp add: PTP_MAXSTRLEN_def)
  let ?d = "replicate (PTP_oi_MaxLen + b) (0 :: octet)"
  let ?d2 = "oi_head P oi @ replicate b 0 @ oi_body P oi @ replicate (PTP_oi_MaxLen - 52) 0"
  have "poke ?d 0 (oi_head P oi) = Some (oi_head P oi @ replicate (PTP_oi_MaxLen + b - 12) 0)"
    by (simp add: poke_def PTP_oi_MaxLen_def PTP_MAXSTRLEN_def)
  moreover have "poke (oi_head P oi @ replicate (PTP_oi_MaxLen + b - 12) 0) (b + 12) (oi_body P oi) = Some ?d2"
    by (simp add: poke_def PTP_oi_MaxLen_def PTP_MAXSTRLEN_def min_def)
  ultimately have run: "ptp_pack_OI P oi = do { (oidata, filenamelen) \<leftarrow> ptp_pack_string P s (drop b ?d2) (of_nat 52);
      Some (take b ?d2 @ oidata, of_nat (53 + unat filenamelen * 2 + 3 + b)) }"
    using mem u(1) unfolding ptp_pack_OI_def b [symmetric] Let_def
    by (simp add: poke_bind PTP_oi_MaxLen_def PTP_MAXSTRLEN_def oi_head_def oi_body_def)
  have ub: "unat (of_nat (length u) + 1 :: octet) = length u + 1"
  proof -
    have "unat (of_nat (length u + 1) :: octet) = length u + 1" using n unfolding unat_of_nat by simp
    then show ?thesis by (simp add: add.commute)
  qed
  have "ptp_pack_string P s (drop b ?d2) (of_nat 52) =
    Some (take (unat (of_nat 52 :: 16 word)) (drop b ?d2) @ wire_string P u @
      drop (unat (of_nat 52 :: 16 word) + length (wire_string P u)) (drop b ?d2), of_nat (length u) + 1)"
    by (rule pack_string [OF u(2,3)]) (use n in \<open>simp add: PTP_oi_MaxLen_def PTP_MAXSTRLEN_def\<close>)
  moreover have "53 + unat (of_nat (length u) + 1 :: octet) * 2 + 3 + b = 58 + 2 * length u + b" by (simp add: ub)
  ultimately show ?thesis unfolding run using n
    by (auto simp: PTP_oi_MaxLen_def PTP_MAXSTRLEN_def b simp del: of_nat_add of_nat_mult)
qed

lemma unpack_string_empty: "dtoh8a data (unat off) = Some 0 \<Longrightarrow> ptp_unpack_string P data off = Some (None, 0)"
  by (simp add: ptp_unpack_string_def)

lemma filename_end:
  assumes "n < 255"
  shows "unat (52 + ucast (of_nat n + 1 :: octet) * 2 + 1 :: 16 word) = 55 + 2 * n"
    and "unat (52 + ucast (of_nat n + 1 :: octet) * 2 + 2 :: 16 word) = 56 + 2 * n"
proof -
  have e: "of_nat n + 1 = (of_nat (n + 1) :: octet)" by simp
  have "unat (of_nat (n + 1) :: octet) = n + 1" using assms unfolding unat_of_nat by simp
  then have "unat (ucast (of_nat (n + 1) :: octet) :: 16 word) = n + 1"
    using assms by (simp only: unsigned_ucast_eq) (simp add: take_bit_nat_eq_self_iff)
  then have c: "(ucast (of_nat n + 1 :: octet) :: 16 word) = of_nat (n + 1)"
    unfolding e using assms by (simp add: word_unat_eq_iff unat_of_nat del: of_nat_add of_nat_Suc)
  have "52 + of_nat (n + 1) * 2 + 1 = (of_nat (55 + 2 * n) :: 16 word)" "52 + of_nat (n + 1) * 2 + 2 = (of_nat (56 + 2 * n) :: 16 word)"
    by simp_all
  with c show "unat (52 + ucast (of_nat n + 1 :: octet) * 2 + 1 :: 16 word) = 55 + 2 * n"
    and "unat (52 + ucast (of_nat n + 1 :: octet) * 2 + 2 :: 16 word) = 56 + 2 * n"
    using assms by (simp_all only: unat_of_nat) simp_all
qed

lemma unpack_OI:
  assumes h: "lies D 0 (oi_head P oi)" and e: "E = drop (if ocs64 P then 4 else 0) D" and bd: "lies E 12 (oi_body P oi)"
    and w: "lies E 52 (wire_string P u)" and z: "dtoh8a E (55 + 2 * length u) = Some 0" "dtoh8a E (56 + 2 * length u) = Some 0"
    and u: "length u < PTP_MAXSTRLEN" "upto_nul (from_ucs2 P (host_bytes u @ htod16ap P 0)) = s" and fn: "Filename oi = Some s"
    and wide: "ocs64 P \<longrightarrow> dtoh8a D 52 = Some 0"
  shows "ptp_unpack_OI P mktime D old = Some (P, oi\<lparr> ObjectCompressedSize := ucast (ucast (ObjectCompressedSize oi) :: 32 word),
    CaptureDate := 0, ModificationDate := 0, Keywords := Keywords old \<rparr>)"
proof -
  have n: "length u < 255" using u(1) by (simp add: PTP_MAXSTRLEN_def)
  have "lies E 52 (htod8a (of_nat (length u + 1)))" using w by (simp add: wire_string_def)
  then have len: "dtoh8a E 52 = Some (of_nat (length u + 1))" by (rule dtoh_lies)
  have "unat (of_nat (length u + 1) :: octet) = length u + 1" using n unfolding unat_of_nat by simp
  then have nz: "(of_nat (length u + 1) :: octet) \<noteq> 0" by (metis Suc_eq_plus1 nat.distinct(1) unat_0)
  have s1: "ptp_unpack_string P E (of_nat 52) = Some (Some s, of_nat (length u) + 1)"
    using unpack_string [of E "of_nat 52" P u] w u by simp
  have s2: "ptp_unpack_string P E (of_nat 52 + ucast (of_nat (length u) + 1 :: octet) * 2 + 1) = Some (None, 0)"
    by (rule unpack_string_empty) (use filename_end(1) [OF n] z(1) in simp)
  have s3: "ptp_unpack_string P E (of_nat 52 + ucast (of_nat (length u) + 1 :: octet) * 2 + ucast (0 :: octet) * 2 + 2) = Some (None, 0)"
    by (rule unpack_string_empty) (use filename_end(2) [OF n] z(2) in simp)
  have wd: "(do { c \<leftarrow> dtoh8a D 52; wide \<leftarrow> (if c = 0 then do { c' \<leftarrow> dtoh8a D (52 + 4); Some (c' \<noteq> 0) } else Some False); k wide })
      = k (ocs64 P)" for k :: "bool \<Rightarrow> (PTPParams \<times> PTPObjectInfo) option"
  proof (cases "ocs64 P")
    case True
    then have "dtoh8a D 56 = Some (of_nat (length u + 1))"
      using e len by (simp add: dtoh8a_def peek_def split: if_splits)
    with True wide nz show ?thesis by (simp del: of_nat_add of_nat_Suc)
  next
    case False
    with e len nz show ?thesis by (simp del: of_nat_add of_nat_Suc)
  qed
  have P: "(if ocs64 P then P\<lparr>ocs64 := True\<rparr> else P) = P" by simp
  have E: "(if ocs64 P then drop 4 D else D) = E" using e by simp
  have f: "dtoh32ap P D 0 = Some (StorageID oi)" "dtoh16ap P D 4 = Some (ObjectFormat oi)" "dtoh16ap P D 6 = Some (ProtectionStatus oi)"
    "dtoh32ap P D 8 = Some (ucast (ObjectCompressedSize oi))"
    using h by (simp_all add: oi_head_def dtoh_lies)
  have g: "dtoh16ap P E 12 = Some (ThumbFormat oi)" "dtoh32ap P E 14 = Some (ThumbCompressedSize oi)"
    "dtoh32ap P E 18 = Some (ThumbPixWidth oi)" "dtoh32ap P E 22 = Some (ThumbPixHeight oi)" "dtoh32ap P E 26 = Some (ImagePixWidth oi)"
    "dtoh32ap P E 30 = Some (ImagePixHeight oi)" "dtoh32ap P E 34 = Some (ImageBitDepth oi)" "dtoh32ap P E 38 = Some (ParentObject oi)"
    "dtoh16ap P E 42 = Some (AssociationType oi)" "dtoh32ap P E 44 = Some (AssociationDesc oi)" "dtoh32ap P E 48 = Some (SequenceNumber oi)"
    using bd by (simp_all add: oi_body_def dtoh_lies)
  show ?thesis
    unfolding ptp_unpack_OI_def f bind.bind_lunit wd Let_def P E
    unfolding g s1 s2 s3 bind.bind_lunit prod.case
    using fn by (cases oi) (simp add: ptp_unpack_PTPTIME_def)
qed

text \<open>Object information that \<open>ptp_pack_OI\<close> writes is read back by \<open>ptp_unpack_OI\<close>, from as many bytes as it returns: all numbers and the file name, the size cut to 32
  bits and the dates, which are not sent, as 0. With object sizes of 64 bits this needs the first byte of the sequence number to be 0, since the reader recognises these
  datasets by it.\<close>
lemma object_info_roundtrip:
  assumes fn: "Filename oi = Some s" "portable P s" and mem: "\<forall>n. can_alloc P n"
    and wide: "ocs64 P \<longrightarrow> hd (htod32ap P (SequenceNumber oi)) = 0"
  shows "\<exists>buf n. ptp_pack_OI P oi = Some (buf, n) \<and> unat n < 1024 \<and>
    ptp_unpack_OI P mktime (take (unat n) buf) old = Some (P, oi\<lparr> ObjectCompressedSize := ucast (ucast (ObjectCompressedSize oi) :: 32 word),
      CaptureDate := 0, ModificationDate := 0, Keywords := Keywords old \<rparr>)"
proof -
  from fn(2) obtain u where u: "to_ucs2 P s = Some u" "length u < PTP_MAXSTRLEN"
    "upto_nul (from_ucs2 P (host_bytes u @ htod16ap P 0)) = s" by (auto simp: portable_def split: option.splits)
  have n: "length u < 255" using u(2) by (simp add: PTP_MAXSTRLEN_def)
  obtain b :: nat where b: "b = (if ocs64 P then 4 else 0)" by simp
  let ?n = "of_nat (58 + 2 * length u + b) :: 32 word"
  let ?buf = "oi_head P oi @ replicate b 0 @ oi_body P oi @ wire_string P u @ replicate (PTP_oi_MaxLen - 55 - 2 * length u) 0"
  let ?D = "oi_head P oi @ replicate b 0 @ oi_body P oi @ wire_string P u @ replicate 3 0"
  let ?E = "drop (if ocs64 P then 4 else 0) ?D"
  have "58 + 2 * length u + b < 2 ^ 32" using n b by simp
  then have un: "unat ?n = 58 + 2 * length u + b" unfolding unat_of_nat by simp
  have D: "take (unat ?n) ?buf = ?D" unfolding un using n by (simp add: PTP_oi_MaxLen_def PTP_MAXSTRLEN_def min_def)
  have l: "lies ?D 0 ?D" by (rule lies_whole)
  have pos: "lies ?D (12 + b) (oi_body P oi)" "lies ?D (52 + b) (wire_string P u)" "lies ?D (55 + 2 * length u + b) (replicate 3 0)"
    using l by (simp_all only: lies_append) (simp_all add: add.commute add.left_commute)
  have E: "lies ?E i bs \<longleftrightarrow> lies ?D (b + i) bs" for i bs
    unfolding b [symmetric] by (rule lies_drop) simp
  have "lies ?D (b + (55 + 2 * length u)) ([0] @ [0] @ [0])" using pos(3) by (simp add: numeral_3_eq_3 add.commute)
  then have z0: "lies ?E (55 + 2 * length u) (htod8a 0)" "lies ?E (56 + 2 * length u) (htod8a 0)"
    unfolding E lies_append by (simp_all add: htod8a_def add.left_commute [of b])
  have "ptp_unpack_OI P mktime ?D old = Some (P, oi\<lparr> ObjectCompressedSize := ucast (ucast (ObjectCompressedSize oi) :: 32 word),
      CaptureDate := 0, ModificationDate := 0, Keywords := Keywords old \<rparr>)"
  proof (rule unpack_OI [OF _ refl _ _ dtoh_lies(1) [OF z0(1)] dtoh_lies(1) [OF z0(2)] u(2,3) fn(1)])
    show "lies ?D 0 (oi_head P oi)" using l by simp
    show "lies ?E 12 (oi_body P oi)" "lies ?E 52 (wire_string P u)" unfolding E using pos by (simp_all add: add.commute)
    show "ocs64 P \<longrightarrow> dtoh8a ?D 52 = Some 0"
    proof
      assume o: "ocs64 P"
      with wide obtain r where r: "htod32ap P (SequenceNumber oi) = htod8a 0 @ r"
        using htod_length(3) [of P "SequenceNumber oi"] by (cases "htod32ap P (SequenceNumber oi)") (auto simp: htod8a_def)
      have "lies ?D 16 (oi_body P oi)" using pos(1) b o by simp
      then have "lies ?D 52 (htod8a 0)" unfolding oi_body_def r by simp
      then show "dtoh8a ?D 52 = Some 0" by (rule dtoh_lies)
    qed
  qed
  moreover have "ptp_pack_OI P oi = Some (?buf, ?n)" by (rule pack_OI [OF fn(1) u(1,2) mem b])
  moreover have "unat ?n < 1024" unfolding un using n b by simp
  ultimately show ?thesis unfolding D [symmetric] by blast
qed

definition demo_oi :: PTPObjectInfo where
  "demo_oi = \<lparr> StorageID = 0x10001, ObjectFormat = 0x3801, ProtectionStatus = 0, ObjectCompressedSize = 1000, ThumbFormat = 0x3808,
     ThumbCompressedSize = 10, ThumbPixWidth = 160, ThumbPixHeight = 120, ImagePixWidth = 640, ImagePixHeight = 480, ImageBitDepth = 24,
     ParentObject = 0, AssociationType = 0, AssociationDesc = 0, SequenceNumber = 0, Filename = Some [65, 46, 66],
     CaptureDate = 0, ModificationDate = 0, Keywords = None \<rparr>"

lemma demo_portable: "portable plain_params [65, 46, 66]"
  by (rule portable_ascii) (simp_all add: plain_params_def PTP_MAXSTRLEN_def)

section \<open>Image formats\<close>

lemma pokes_poke: "i + length (concat bs) \<le> length data \<Longrightarrow> pokes data i bs = poke data i (concat bs)"
proof (induction bs arbitrary: data i)
  case (Cons b bs)
  have "poke d (i + length b) (concat bs) = pokes d (i + length b) bs" if "poke data i b = Some d" for d
    using Cons.IH [of "i + length b" d] Cons.prems poke_length [OF that] by simp
  then have "pokes data i (b # bs) = do { d \<leftarrow> poke data i b; poke d (i + length b) (concat bs) }"
    by (cases "poke data i b") simp_all
  with Cons.prems show ?case by (simp add: poke_poke)
qed (simp add: poke_def)

lemma pokes_lies:
  assumes "i + length (concat bs) \<le> length data"
  shows "\<exists>d. pokes data i bs = Some d \<and> lies d i (concat bs) \<and> length d = length data"
proof -
  obtain d where d: "poke data i (concat bs) = Some d" using assms by (simp add: poke_def)
  then show ?thesis using pokes_poke [OF assms] poke_lies [OF d] poke_length [OF d] by simp
qed

lemma nibble_and: "(x :: 16 word) AND 0xF = take_bit 4 x" "(y :: 32 word) AND 0xF = take_bit 4 y"
  by (simp_all add: take_bit_eq_mask mask_eq_exp_minus_1)

lemma small_jpeg_size:
  assumes "x < 16"
  shows "(let s = pack_5DM3_small_jpeg_size x in if s \<ge> 0xe then s - 1 else s) = ucast x"
proof -
  have u: "unat (ucast x :: 32 word) = unat x" using assms by (simp add: unsigned_ucast_eq take_bit_nat_eq_self_iff word_less_nat_alt)
  have "unat (ucast x + 1 :: 32 word) = unat x + 1" using unat_plus [of "ucast x :: 32 word" 1] u assms by (simp add: word_less_nat_alt)
  then show ?thesis using u assms
    by (auto simp: pack_5DM3_small_jpeg_size_def Let_def word_le_nat_alt word_less_nat_alt)
qed

lemma condense_nibbles:
  fixes v :: "16 word"
  shows "condense (pack_5DM3_small_jpeg_size (drop_bit 12 v AND 0xF)) (ucast (drop_bit 8 v AND 0xF))
    (pack_5DM3_small_jpeg_size (drop_bit 4 v AND 0xF)) (ucast (v AND 0xF)) = v"
proof -
  have "take_bit 4 x < 16" for x :: "16 word"
    by (simp add: word_less_nat_alt unsigned_take_bit_eq take_bit_nat_less_exp [of 4, simplified])
  note s = small_jpeg_size [OF this, unfolded Let_def]
  have q: "k = 0 + k \<or> k = 4 + (k - 4) \<or> k = 8 + (k - 8) \<or> k = 12 + (k - 12)" for k :: nat by simp
  show ?thesis unfolding condense_def nibble_and Let_def s
  proof (rule bit_word_eqI)
    fix n assume "n < LENGTH(16)"
    then consider "n < 4" | k where "n = 4 + k" "k < 4" | k where "n = 8 + k" "k < 4" | k where "n = 12 + k" "k < 4"
      using that(1) that(2) [of "n - 4"] that(3) [of "n - 8"] that(4) [of "n - 12"]
      by (cases "n < 4"; cases "n < 8"; cases "n < 12") simp_all
    then show "bit (ucast (push_bit 12 (take_bit 4 (ucast (take_bit 4 (drop_bit 12 v)) :: 32 word)) OR
        push_bit 8 (take_bit 4 (ucast (take_bit 4 (drop_bit 8 v)))) OR
        push_bit 4 (take_bit 4 (ucast (take_bit 4 (drop_bit 4 v)))) OR take_bit 4 (ucast (take_bit 4 v))) :: 16 word) n = bit v n"
      by cases (auto simp: bit_simps)
  qed
qed

text \<open>Image formats round trip for all 65536 values: \<open>ptp_pack_EOS_ImageFormat\<close> called without a buffer returns the size it needs, with one it fills just as much, and
  \<open>ptp_unpack_EOS_ImageFormat\<close> gives the value back and moves behind it.\<close>
lemma image_format_roundtrip:
  assumes "(if v AND 0xFF = 0 then 20 else 36) \<le> length data"
  shows "\<exists>s d. ptp_pack_EOS_ImageFormat P None v = Some (s, None) \<and> ptp_pack_EOS_ImageFormat P (Some data) v = Some (s, Some d) \<and>
    length d = length data \<and> ptp_unpack_EOS_ImageFormat P d 0 = Some (v, unat s)"
proof (cases "v AND 0xFF = 0")
  case True
  let ?cs = "[htod32ap P 1] @ format_entry P (drop_bit 12 v AND 0xF) (drop_bit 8 v AND 0xF)"
  have "0 + length (concat ?cs) \<le> length data" using assms True by (simp add: format_entry_def)
  from pokes_lies [OF this] obtain d where d: "pokes data 0 ?cs = Some d" "lies d 0 (concat ?cs)" "length d = length data" by blast
  from d(2) have "dtoh32ap P d 0 = Some 1" "dtoh32ap P d 4 = Some 0x10"
    "dtoh32ap P d 12 = Some (pack_5DM3_small_jpeg_size (drop_bit 12 v AND 0xF))" "dtoh32ap P d 16 = Some (ucast (drop_bit 8 v AND 0xF))"
    by (simp_all add: format_entry_def dtoh_lies)
  moreover have "drop_bit 4 v AND 0xF = 0" "v AND 0xF = 0"
  proof -
    have z: "\<not> bit v k" if "k < 8" for k
    proof -
      have "(0xFF :: 16 word) = mask 8" by (simp add: mask_eq_exp_minus_1)
      with True have "take_bit 8 v = 0" by (simp add: take_bit_eq_mask)
      with that show ?thesis using bit_take_bit_iff [of 8 v k] by simp
    qed
    show "drop_bit 4 v AND 0xF = 0" "v AND 0xF = 0" unfolding nibble_and
      by (rule bit_word_eqI, use z in \<open>simp add: bit_simps\<close>)+
  qed
  ultimately have "ptp_unpack_EOS_ImageFormat P d 0 = Some (v, 20)"
    using condense_nibbles [of v] by (simp add: ptp_unpack_EOS_ImageFormat_def pack_5DM3_small_jpeg_size_def)
  with d True show ?thesis by (simp add: ptp_pack_EOS_ImageFormat_def Let_def del: pokes.simps)
next
  case False
  let ?cs = "[htod32ap P 2] @ format_entry P (drop_bit 12 v AND 0xF) (drop_bit 8 v AND 0xF) @
    format_entry P (drop_bit 4 v AND 0xF) (v AND 0xF)"
  have "0 + length (concat ?cs) \<le> length data" using assms False by (simp add: format_entry_def)
  from pokes_lies [OF this] obtain d where d: "pokes data 0 ?cs = Some d" "lies d 0 (concat ?cs)" "length d = length data" by blast
  from d(2) have "dtoh32ap P d 0 = Some 2" "dtoh32ap P d 4 = Some 0x10"
    "dtoh32ap P d 12 = Some (pack_5DM3_small_jpeg_size (drop_bit 12 v AND 0xF))" "dtoh32ap P d 16 = Some (ucast (drop_bit 8 v AND 0xF))"
    "dtoh32ap P d 20 = Some 0x10"
    "dtoh32ap P d 28 = Some (pack_5DM3_small_jpeg_size (drop_bit 4 v AND 0xF))" "dtoh32ap P d 32 = Some (ucast (v AND 0xF))"
    by (simp_all add: format_entry_def dtoh_lies)
  then have "ptp_unpack_EOS_ImageFormat P d 0 = Some (v, 36)"
    using condense_nibbles [of v] by (simp add: ptp_unpack_EOS_ImageFormat_def)
  with d False show ?thesis by (simp add: ptp_pack_EOS_ImageFormat_def Let_def del: pokes.simps)
qed

section \<open>Staying inside\<close>

text \<open>\<open>ptp_unpack_Nikon_EC\<close> checks the number of events against the length of the data, and then reads nothing behind it: it yields either no array or one of just as many
  events as it counts.\<close>
lemma nikon_inside:
  assumes "length data = unat len" and "\<forall>n. can_alloc P n"
  shows "\<exists>ec n. ptp_unpack_Nikon_EC P (Some data) len cnt = Some (ec, n) \<and> (case ec of None \<Rightarrow> True | Some es \<Rightarrow> length es = unat n)"
proof (cases "len < 2")
  case True
  then show ?thesis by (simp add: ptp_unpack_Nikon_EC_def)
next
  case False
  then have l: "2 \<le> unat len" by (simp add: word_le_nat_alt not_less)
  then obtain c where c: "dtoh16ap P data 0 = Some c" using dtoh_defined(2) [of P data 0] assms(1) by fastforce
  show ?thesis
  proof (cases "ucast c > (len - 2) div 6 \<or> ucast c = (0 :: 32 word)")
    case True
    with False c show ?thesis by (auto simp: ptp_unpack_Nikon_EC_def)
  next
    case ok: False
    have "unat (ucast c :: 32 word) \<le> unat ((len - 2) div 6)" using ok by (simp add: not_less word_le_nat_alt)
    also have "\<dots> = (unat len - 2) div 6" using unat_minus [of 2 len] l by (simp add: unat_div_distrib)
    finally have n: "6 * unat (ucast c :: 32 word) + 2 \<le> length data" using l assms(1) by linarith
    have "nikon_event P data i \<noteq> None" if "i < unat (ucast c :: 32 word)" for i
    proof -
      have "2 + 6 * i + 2 \<le> length data" "4 + 6 * i + 4 \<le> length data" using that n by linarith+
      then obtain x y where "dtoh16ap P data (2 + 6 * i) = Some x" "dtoh32ap P data (4 + 6 * i) = Some y"
        using dtoh_defined(2) [of P data "2 + 6 * i"] dtoh_defined(3) [of P data "4 + 6 * i"] by (metis not_None_eq not_less)
      then show ?thesis by (simp add: nikon_event_def)
    qed
    then obtain es where "those (map (nikon_event P data) [0..<unat (ucast c :: 32 word)]) = Some es" "length es = unat (ucast c :: 32 word)"
      using read_array_total [of "unat (ucast c :: 32 word)" "nikon_event P data" 0 1] by (auto simp: read_array_def)
    then show ?thesis using False c ok assms(2) by (simp add: ptp_unpack_Nikon_EC_def)
  qed
qed

section \<open>Kodak's text overlay\<close>

lemma poke_room: "poke data i bs = Some d \<Longrightarrow> i + length bs \<le> length data \<and> length d = length data"
  by (auto simp: poke_def split: if_splits)

lemma pokes_room: "pokes data i bs = Some d \<Longrightarrow> length d = length data \<and> (bs \<noteq> [] \<longrightarrow> i + length (concat bs) \<le> length data)"
proof (induction bs arbitrary: data i)
  case (Cons b bs)
  then obtain d1 where d1: "poke data i b = Some d1" "pokes d1 (i + length b) bs = Some d" by (auto simp: bind_eq_Some_conv)
  with Cons.IH [OF d1(2)] poke_room [OF d1(1)] show ?case by auto
qed simp

text \<open>A text that goes through unchanged in length.\<close>

definition short_text :: "PTPParams \<Rightarrow> octet list \<Rightarrow> bool" where
  "short_text P s \<longleftrightarrow> length s < PTP_MAXSTRLEN \<and> (\<exists>u. to_ucs2 P s = Some u \<and> length u = length s)"

lemma ek_string_cursor:
  assumes run: "ek_string P data cur s nums = Some (d, c)" and s: "short_text P s" and cur: "cur \<le> length data" and nums: "nums \<noteq> []"
  shows "c = cur + (2 * (length s + 1) + 1) + 2 * length nums \<and> c \<le> length data \<and> length d = length data"
proof -
  from s obtain u where u: "to_ucs2 P s = Some u" "length u = length s" and n: "length s < 255"
    by (auto simp: short_text_def PTP_MAXSTRLEN_def)
  from run obtain e r where p: "ptp_pack_string P s (drop cur data) 0 = Some (e, r)"
    and k: "pokes (take cur data @ e) (cur + 2 * unat r + 1) (map (htod16ap P) nums) = Some d"
    and c: "c = cur + 2 * unat r + 1 + 2 * length nums"
    by (auto simp: ek_string_def Let_def bind_eq_Some_conv)
  from p u n have "length e = length (drop cur data)" and r: "r = of_nat (length s) + 1"
    by (auto simp: ptp_pack_string_def Let_def PTP_MAXSTRLEN_def bind_eq_Some_conv dest!: poke_room)
  then have le: "length (take cur data @ e) = length data" using cur by simp
  have "unat (of_nat (length s) + 1 :: octet) = length s + 1"
  proof -
    have "unat (of_nat (length s + 1) :: octet) = length s + 1" using n unfolding unat_of_nat by simp
    then show ?thesis by (simp add: add.commute)
  qed
  then have c': "c = cur + (2 * (length s + 1) + 1) + 2 * length nums" using c r by simp
  have "length (concat (map (htod16ap P) nums)) = 2 * length nums" by (simp add: concat_length [of _ 2])
  with pokes_room [OF k] le nums c c' show ?thesis by auto
qed

lemma ek_lines_cursor:
  assumes "ek_lines P data cur ls = Some (d, c)" and "\<forall>s\<in>set ls. short_text P s" and "cur \<le> length data"
  shows "c = cur + (\<Sum>s\<leftarrow>ls. 2 * (length s + 1) + 1) + 10 * length ls \<and> c \<le> length data"
  using assms
proof (induction ls arbitrary: data cur)
  case (Cons l ls)
  then obtain d1 c1 where e: "ek_string P data cur l [0, 0x10, 0x01, 0x02, 0x06] = Some (d1, c1)" "ek_lines P d1 c1 ls = Some (d, c)"
    by (auto simp: bind_eq_Some_conv)
  from ek_string_cursor [OF e(1)] Cons.prems have
    c1: "c1 = cur + (2 * (length l + 1) + 1) + 10" "c1 \<le> length data" "length d1 = length data" by auto
  with Cons.IH [OF e(2)] Cons.prems show ?case by auto
qed simp

text \<open>\<open>ptp_pack_EK_text\<close> always writes behind the buffer it allocates: for any title and five lines of up to 254 characters the buffer is 12 bytes too short for the numbers
  written between the strings.\<close>
lemma ek_text_overflow:
  assumes "length (line text) = 5" and "\<forall>s\<in>set (title text # line text). short_text P s" and "\<forall>n. can_alloc P n"
  shows "ptp_pack_EK_text P text = None"
proof (rule ccontr)
  let ?len = "(\<Sum>s\<leftarrow>title text # line text. 2 * (length s + 1) + 1) + 4 * 2 + 2 * 4 + 2 + 4 + 2 + 5 * 4 * 2"
  let ?nums = "[htod16ap P 100, htod16ap P 1, htod16ap P 0, htod16ap P 1000, htod32ap P 0, htod32ap P 0, htod16ap P 6, htod32ap P 0]"
  assume "ptp_pack_EK_text P text \<noteq> None"
  moreover have tk: "take 5 (line text) = line text" using assms(1) by simp
  ultimately obtain d1 d2 c2 d3 c3 where r1: "pokes (map (uninit P) [0..<?len]) 0 ?nums = Some d1"
    and r2: "ek_string P d1 22 (title text) [0, 0x10] = Some (d2, c2)" and r3: "ek_lines P d2 c2 (line text) = Some (d3, c3)"
    using assms(3) unfolding ptp_pack_EK_text_def tk Let_def
    by (auto simp: bind_eq_Some_conv bind_eq_None_conv simp del: pokes.simps)
  have l1: "length d1 = ?len" using pokes_room [OF r1] by simp
  from ek_string_cursor [OF r2] assms(2) l1 have
    c2: "c2 = 22 + (2 * (length (title text) + 1) + 1) + 4" "c2 \<le> length d1" "length d2 = length d1" by auto
  from ek_lines_cursor [OF r3] assms(2) c2 have
    "c3 = c2 + (\<Sum>s\<leftarrow>line text. 2 * (length s + 1) + 1) + 10 * length (line text)" "c3 \<le> length d1" by auto
  with c2(1) l1 assms(1) show False by simp
qed

section \<open>Device information\<close>

text \<open>The layout of the DeviceInfo dataset in the PTP standard; \<open>u1\<close> to \<open>u5\<close> are the characters of its strings.\<close>

definition di_bytes :: "PTPParams \<Rightarrow> 16 word \<Rightarrow> 32 word \<Rightarrow> 16 word \<Rightarrow> 16 word list \<Rightarrow> 16 word \<Rightarrow> 16 word list \<Rightarrow> 16 word list \<Rightarrow>
    16 word list \<Rightarrow> 16 word list \<Rightarrow> 16 word list \<Rightarrow> 16 word list \<Rightarrow> 16 word list \<Rightarrow> 16 word list \<Rightarrow> 16 word list \<Rightarrow> octet list" where
  "di_bytes P sv vid vv u1 fm os es ds cs is u2 u3 u4 u5 =
     htod16ap P sv @ htod32ap P vid @ htod16ap P vv @ wire_string P u1 @ htod16ap P fm @ array_bytes P (htod16ap P) os @
     array_bytes P (htod16ap P) es @ array_bytes P (htod16ap P) ds @ array_bytes P (htod16ap P) cs @ array_bytes P (htod16ap P) is @
     wire_string P u2 @ wire_string P u3 @ wire_string P u4 @ wire_string P u5"

definition decodes :: "PTPParams \<Rightarrow> 16 word list \<Rightarrow> octet list \<Rightarrow> bool" where
  "decodes P u s \<longleftrightarrow> length u < PTP_MAXSTRLEN \<and> upto_nul (from_ucs2 P (host_bytes u @ htod16ap P 0)) = s"

text \<open>Strings and arrays at an offset that fits into 16 bits, and the running total behind them.\<close>

lemma di_offset: "10 + t < 65536 \<Longrightarrow> unat (ucast (10 + of_nat t :: 32 word) :: 16 word) = 10 + t"
proof -
  assume t: "10 + t < 65536"
  have "unat (10 + of_nat t :: 32 word) = 10 + t"
  proof -
    have "unat (of_nat (10 + t) :: 32 word) = 10 + t" using t unfolding unat_of_nat by simp
    then show ?thesis by simp
  qed
  then show ?thesis using t by (simp add: unsigned_ucast_eq take_bit_nat_eq_self_iff)
qed

lemma di_string:
  assumes "lies data (10 + t) (wire_string P u)" and "decodes P u s" and "10 + t < 65536"
  shows "ptp_unpack_string P data (ucast (10 + of_nat t :: 32 word)) = Some (Some s, of_nat (length u) + 1)"
  using unpack_string [of data "ucast (10 + of_nat t :: 32 word)" P u] assms di_offset [OF assms(3)] by (simp add: decodes_def)

lemma di_array:
  assumes "lies data (10 + t) (array_bytes P (htod16ap P) xs)" and "10 + t < 65536" and "length xs < 2 ^ 32" and "\<forall>n. can_alloc P n"
  shows "ptp_unpack_uint16_t_array P data (ucast (10 + of_nat t :: 32 word)) = Some (of_nat (length xs), Some xs)"
  using unpack_uint16_array [of data "ucast (10 + of_nat t :: 32 word)" P xs] assms di_offset [OF assms(2)] by simp

lemma di_total:
  assumes "n < 255"
  shows "ucast (of_nat n + 1 :: octet) * 2 + 1 = (of_nat (2 * n + 3) :: 32 word)"
    and "of_nat t + ucast (of_nat n + 1 :: octet) * 2 + 1 = (of_nat (t + (2 * n + 3)) :: 32 word)"
proof -
  have e: "of_nat n + 1 = (of_nat (n + 1) :: octet)" by simp
  have c: "(ucast (of_nat n + 1 :: octet) :: 32 word) = of_nat (n + 1)"
    unfolding e by (rule ucast_small) (use assms in simp)
  show "ucast (of_nat n + 1 :: octet) * 2 + 1 = (of_nat (2 * n + 3) :: 32 word)"
    unfolding c by (simp add: mult.commute)
  show "of_nat t + ucast (of_nat n + 1 :: octet) * 2 + 1 = (of_nat (t + (2 * n + 3)) :: 32 word)"
    unfolding c by (simp add: mult.commute)
qed

lemma di_total_array: "of_nat t + of_nat m * 2 + 4 = (of_nat (t + (4 + 2 * m)) :: 32 word)"
  by (simp add: mult.commute)

text \<open>\<open>ptp_unpack_DI\<close> reads the DeviceInfo dataset of the PTP standard: from any dataset of less than 65536 bytes it takes all numbers, the five arrays with their lengths and
  the five strings, in either byte order, whatever the lengths are.\<close>
lemma device_info_decode:
  assumes us: "decodes P u1 s1" "decodes P u2 s2" "decodes P u3 s3" "decodes P u4 s4" "decodes P u5 s5"
    and sz: "length (di_bytes P sv vid vv u1 fm os es ds cs is u2 u3 u4 u5) < 65536" and mem: "\<forall>n. can_alloc P n"
    and dl: "12 \<le> datalen"
  shows "ptp_unpack_DI P (Some (di_bytes P sv vid vv u1 fm os es ds cs is u2 u3 u4 u5)) di datalen = Some
    \<lparr> StandardVersion = sv, VendorExtensionID = vid, VendorExtensionVersion = vv, VendorExtensionDesc = Some s1, FunctionalMode = fm,
      OperationsSupported_len = of_nat (length os), OperationsSupported = Some os,
      EventsSupported_len = of_nat (length es), EventsSupported = Some es,
      DevicePropertiesSupported_len = of_nat (length ds), DevicePropertiesSupported = Some ds,
      CaptureFormats_len = of_nat (length cs), CaptureFormats = Some cs,
      ImageFormats_len = of_nat (length is), ImageFormats = Some is,
      Manufacturer = Some s2, Model = Some s3, DeviceVersion = Some s4, SerialNumber = Some s5 \<rparr>"
proof -
  obtain D where D: "D = di_bytes P sv vid vv u1 fm os es ds cs is u2 u3 u4 u5" by simp
  let ?t1 = "2 * length u1 + 3"
  let ?t2 = "?t1 + (4 + 2 * length os)"
  let ?t3 = "?t2 + (4 + 2 * length es)"
  let ?t4 = "?t3 + (4 + 2 * length ds)"
  let ?t5 = "?t4 + (4 + 2 * length cs)"
  let ?t6 = "?t5 + (4 + 2 * length is)"
  let ?t7 = "?t6 + (2 * length u2 + 3)"
  let ?t8 = "?t7 + (2 * length u3 + 3)"
  let ?t9 = "?t8 + (2 * length u4 + 3)"
  have al: "length (array_bytes P (htod16ap P) xs) = 4 + 2 * length xs" for xs by (rule array_bytes_length) simp
  have tot: "10 + ?t9 < 65536" using sz by (simp add: di_bytes_def al)
  have n: "length u1 < 255" "length u2 < 255" "length u3 < 255" "length u4 < 255"
    using us by (simp_all add: decodes_def PTP_MAXSTRLEN_def)
  have l: "lies D 0 (di_bytes P sv vid vv u1 fm os es ds cs is u2 u3 u4 u5)" unfolding D by (rule lies_whole)
  have h: "dtoh16ap P D 0 = Some sv" "dtoh32ap P D 2 = Some vid" "dtoh16ap P D 6 = Some vv"
    by (rule dtoh_lies, use l in \<open>unfold di_bytes_def lies_append htod_length, elim conjE, simp only: add_0 numeral_plus_numeral semiring_norm\<close>)+
  have w1: "lies D 8 (wire_string P u1)" using l by (simp add: di_bytes_def)
  have f: "lies D (8 + ?t1) (htod16ap P fm)" using l by (simp add: di_bytes_def)
  have a: "lies D (10 + ?t1) (array_bytes P (htod16ap P) os)" "lies D (10 + ?t2) (array_bytes P (htod16ap P) es)"
    "lies D (10 + ?t3) (array_bytes P (htod16ap P) ds)" "lies D (10 + ?t4) (array_bytes P (htod16ap P) cs)"
    "lies D (10 + ?t5) (array_bytes P (htod16ap P) is)"
    and w: "lies D (10 + ?t6) (wire_string P u2)" "lies D (10 + ?t7) (wire_string P u3)"
    "lies D (10 + ?t8) (wire_string P u4)" "lies D (10 + ?t9) (wire_string P u5)"
    using l by (simp_all add: di_bytes_def al add.commute add.left_commute)
  have g1: "ptp_unpack_string P D 8 = Some (Some s1, of_nat (length u1) + 1)"
    using unpack_string [of D 8 P u1] w1 us(1) by (simp add: decodes_def)
  have "unat (8 + of_nat ?t1 :: 32 word) = 8 + ?t1"
  proof -
    have "unat (of_nat (8 + ?t1) :: 32 word) = 8 + ?t1" using tot unfolding unat_of_nat by simp
    then show ?thesis by simp
  qed
  then have g2: "dtoh16ap P D (unat (8 + of_nat ?t1 :: 32 word)) = Some fm" using f by (simp only: dtoh_lies)
  note ga = di_array [OF a(1) _ _ mem] di_array [OF a(2) _ _ mem] di_array [OF a(3) _ _ mem] di_array [OF a(4) _ _ mem] di_array [OF a(5) _ _ mem]
  note gs = di_string [OF w(1) us(2)] di_string [OF w(2) us(3)] di_string [OF w(3) us(4)] di_string [OF w(4) us(5)]
  have b: "10 + ?t1 < 65536" "10 + ?t2 < 65536" "10 + ?t3 < 65536" "10 + ?t4 < 65536" "10 + ?t5 < 65536" "10 + ?t6 < 65536"
    "10 + ?t7 < 65536" "10 + ?t8 < 65536" "length os < 2 ^ 32" "length es < 2 ^ 32" "length ds < 2 ^ 32" "length cs < 2 ^ 32"
    "length is < 2 ^ 32" using tot by simp_all
  show ?thesis
    unfolding D [symmetric] ptp_unpack_DI_def option.case Let_def h bind.bind_lunit g1 prod.case di_total(1) [OF n(1)] g2
      ga(1) [OF b(1) b(9)] di_total_array ga(2) [OF b(2) b(10)] ga(3) [OF b(3) b(11)] ga(4) [OF b(4) b(12)] ga(5) [OF b(5) b(13)]
      gs(1) [OF b(6)] di_total(2) [OF n(2)] gs(2) [OF b(7)] di_total(2) [OF n(3)] gs(3) [OF b(8)] di_total(2) [OF n(4)] gs(4) [OF tot]
    using dl by (simp add: not_less)
qed

definition ascii_units :: "octet list \<Rightarrow> 16 word list" where
  "ascii_units s = map scast s"

lemma decodes_ascii:
  assumes "\<forall>x\<in>set s. 0 < x \<and> x < 128" "length s < PTP_MAXSTRLEN"
  shows "decodes plain_params (ascii_units s) s"
proof -
  have "0 \<notin> set s" using assms(1) by auto
  then show ?thesis using assms hard_way_ascii [of plain_params s]
    by (simp add: decodes_def ascii_units_def from_ucs2_def plain_params_def)
qed

end
