(* ===== verification/Ptp_Transaction_Props.thy ===== *)
theory Ptp_Transaction_Props
  imports Ptp_Usb_Props Ptp_Queue Ptp_Dataset_Props
begin

text \<open>
  What a transaction guarantees: which responses it takes, and that over USB an operation gets the dataset that the device
  sent.
\<close>

section \<open>Responses\<close>

lemma resp_loop_step:
  assumes "getresp_func T s r = Some (PTP_RC_OK, c, s')" and "tries \<noteq> 0"
  shows "resp_loop T cmd tries s r =
    (if Transaction_ID c < transaction_id s' - 1 then resp_loop T cmd tries s' c
     else if Transaction_ID c \<noteq> transaction_id s' - 1 then
       if cmd = PTP_OC_OpenSession \<and> tries - 1 \<noteq> 0 then resp_loop T cmd (tries - 1) s' c
       else Some (PTP_ERROR_BADPARAM, c, s')
     else Some (Code c, c, s'))"
  using assms by (subst resp_loop.simps) (simp add: PTP_RC_OK_def PTP_ERROR_RESP_EXPECTED_def)

text \<open>The request as it is sent, and the connection afterwards.\<close>

definition as_sent :: "'w ptp \<Rightarrow> PTPContainer \<Rightarrow> PTPContainer" where
  "as_sent s ptp = ptp\<lparr> Transaction_ID := transaction_id s, SessionID := session_id s \<rparr>"

definition counted :: "'w ptp \<Rightarrow> 'w ptp" where
  "counted s = s\<lparr> transaction_id := transaction_id s + 1 \<rparr>"

lemma counted_simps [simp]:
  "transaction_id (counted s) = transaction_id s + 1" "session_id (counted s) = session_id s" "pack (counted s) = pack s"
  "world (counted s) = world s" "maxpacketsize (counted s) = maxpacketsize s" "response_packet (counted s) = response_packet s"
  "objects (counted s) = objects s" "events (counted s) = events s" "split_header_data (counted s) = split_header_data s"
  by (simp_all add: counted_def)

lemma no_data_phase:
  assumes "sendreq_func T (counted s) (as_sent s ptp) = Some (PTP_RC_OK, s1)"
  shows "ptp_transaction_new T s ptp PTP_DP_NODATA n h = do { (ret, r, s) \<leftarrow> resp_loop T (Code ptp) 3 s1 (as_sent s ptp); Some (ret, r, h, s) }"
  using assms by (simp add: ptp_transaction_new_def dp_defs Let_def counted_def as_sent_def)

section \<open>Operations over USB\<close>

definition request_bytes :: "PTPParams \<Rightarrow> PTPContainer \<Rightarrow> octet list" where
  "request_bytes P r = usb_header P (of_nat (12 + 4 * unat (Nparam r))) PTP_USB_CONTAINER_COMMAND (Code r) (Transaction_ID r) @
     concat (map (htod32ap P) (take (unat (Nparam r)) [Param1 r, Param2 r, Param3 r, Param4 r, Param5 r]))"

lemma take_words: "n \<le> 5 \<Longrightarrow> take (12 + 4 * n) (usb_header P l t c i @ htod32ap P a @ htod32ap P b @ htod32ap P d @ htod32ap P e @ htod32ap P f) =
    usb_header P l t c i @ concat (map (htod32ap P) (take n [a, b, d, e, f]))"
proof -
  assume "n \<le> 5"
  then consider "n = 0" | "n = 1" | "n = 2" | "n = 3" | "n = 4" | "n = 5" by linarith
  then show ?thesis by cases (simp_all add: numeral_eq_Suc)
qed

lemma sendreq_usb:
  assumes "unat (Nparam r) \<le> 5" and "port_write D (request_bytes (pack s) r) (world s) = (Inr (length (request_bytes (pack s) r)), w)"
  shows "ptp_usb_sendreq D s r = Some (PTP_RC_OK, s\<lparr> world := w \<rparr>)"
proof -
  have l: "length (request_bytes (pack s) r) = 12 + 4 * unat (Nparam r)"
  proof -
    have "length (concat (map (htod32ap P) xs)) = 4 * length xs" for P xs by (induction xs) simp_all
    then show ?thesis using assms(1) by (simp add: request_bytes_def)
  qed
  show ?thesis using assms unfolding ptp_usb_sendreq_def Let_def take_words [OF assms(1)]
    unfolding request_bytes_def [symmetric] by (simp add: gp_port_write_def on_world_def l)
qed

text \<open>A response container.\<close>

definition response :: "PTPParams \<Rightarrow> 16 word \<Rightarrow> 32 word \<Rightarrow> 32 word list \<Rightarrow> octet list" where
  "response P rc i ps = usb_header P (of_nat (12 + 4 * length ps)) PTP_USB_CONTAINER_RESPONSE rc i @ concat (map (htod32ap P) ps)"

lemma response_length: "length (response P rc i ps) = 12 + 4 * length ps"
proof -
  have "length (concat (map (htod32ap P) ps)) = 4 * length ps" by (induction ps) simp_all
  then show ?thesis by (simp add: response_def)
qed

lemma params_of_response: "n \<le> 5 \<Longrightarrow> params_of_rlen (12 + 4 * n) = of_nat n"
proof -
  assume "n \<le> 5"
  then have "ulong (12 + 4 * n + 2 ^ 64 - 12) = 12 + 4 * n - 12" by (intro ulong_minus) simp_all
  then show ?thesis unfolding params_of_rlen_def by simp
qed

lemma getresp_usb:
  assumes r: "response_packet s = []" and n: "length ps \<le> 5" and rc: "Code r \<noteq> rc \<or> rc = PTP_RC_OK"
    and rd: "port_read D PTP_USB_BULK_PACKET_LEN (world s) = (Inr (response (pack s) rc i ps), w)"
  shows "\<exists>r'. ptp_usb_getresp D s r = Some (rc, if rc = PTP_RC_OK then r' else r, s\<lparr> world := w \<rparr>) \<and> Code r' = rc \<and>
    Transaction_ID r' = (if i \<noteq> transaction_id s - 1 \<and> MTP_ZEN_BROKEN_HEADER s then transaction_id s - 1 else i) \<and> Nparam r' = of_nat (length ps) \<and> (ps \<noteq> [] \<longrightarrow> Param1 r' = hd ps)"
proof -
  let ?R = "response (pack s) rc i ps"
  have l: "length ?R \<le> PTP_USB_BULK_PACKET_LEN" "?R \<noteq> []"
    using n response_length [of "pack s" rc i ps] by (auto simp: PTP_USB_BULK_PACKET_LEN_def)
  define U where "U = ?R @ replicate (PTP_USB_BULK_PACKET_LEN - length ?R) 0"
  have gp: "ptp_usb_getpacket D (replicate PTP_USB_BULK_PACKET_LEN 0) s = Some (PTP_RC_OK, U, 12 + 4 * length ps, s\<lparr> world := w \<rparr>)"
    using getpacket_fresh [OF r rd l(2,1)] by (simp add: U_def response_length)
  have U: "U = usb_header (pack s) (of_nat (12 + 4 * length ps)) PTP_USB_CONTAINER_RESPONSE rc i @
      concat (map (htod32ap (pack s)) ps) @ replicate (PTP_USB_BULK_PACKET_LEN - length ?R) 0"
    by (simp add: U_def response_def)
  have lU: "length U = 1024" using l by (simp add: U_def PTP_USB_BULK_PACKET_LEN_def)
  have ex: "\<exists>x. dtoh32ap (pack s) U k = Some x" if "k + 4 \<le> 1024" for k
    using dtoh_defined(3) [of "pack s" U k] that lU by (cases "dtoh32ap (pack s) U k") auto
  obtain p1 p2 p3 p4 p5 where p: "dtoh32ap (pack s) U 12 = Some p1" "dtoh32ap (pack s) U 16 = Some p2" "dtoh32ap (pack s) U 20 = Some p3"
    "dtoh32ap (pack s) U 24 = Some p4" "dtoh32ap (pack s) U 28 = Some p5"
    using ex [of 12] ex [of 16] ex [of 20] ex [of 24] ex [of 28] by auto
  have p1: "ps \<noteq> [] \<longrightarrow> p1 = hd ps"
  proof
    assume "ps \<noteq> []"
    then obtain q qs where "ps = q # qs" by (cases ps) auto
    then have "lies U 12 (htod32ap (pack s) q)" using lies_in [of "usb_header (pack s) (of_nat (12 + 4 * length ps)) PTP_USB_CONTAINER_RESPONSE rc i"] U by simp
    then show "p1 = hd ps" using p(1) \<open>ps = q # qs\<close> by (simp add: dtoh_lies)
  qed
  define j where "j = (if i \<noteq> transaction_id s - 1 \<and> MTP_ZEN_BROKEN_HEADER s then transaction_id s - 1 else i)"
  let ?r = "\<lparr> Code = rc, SessionID = session_id s, Transaction_ID = j, Param1 = p1, Param2 = p2, Param3 = p3, Param4 = p4, Param5 = p5,
      Nparam = of_nat (length ps) \<rparr>"
  have z: "MTP_ZEN_BROKEN_HEADER (s\<lparr> world := w \<rparr>) = MTP_ZEN_BROKEN_HEADER s" by (simp add: MTP_ZEN_BROKEN_HEADER_def)
  have "ptp_usb_getresp D s r = Some (rc, if rc = PTP_RC_OK then ?r else r, s\<lparr> world := w \<rparr>)"
    using gp header_lies(2-4) [OF U] rc p params_of_response [OF n]
    unfolding ptp_usb_getresp_def by (cases "rc = PTP_RC_OK") (auto simp: Let_def z j_def)
  then show ?thesis using p1 by (intro exI [of _ ?r]) (auto simp: j_def)
qed

text \<open>
  A device that takes a request and then serves the data container and the response: the header arrives with the first packet, which
  does not run into the response, and the response arrives as one packet.
\<close>

definition usb_device :: "'w port \<Rightarrow> ('w \<Rightarrow> octet list) \<Rightarrow> 'w ptp \<Rightarrow> PTPContainer \<Rightarrow> octet list \<Rightarrow> octet list \<Rightarrow> bool" where
  "usb_device D stream s req p resp \<longleftrightarrow> serves D stream \<and>
     (\<exists>w0 first w1. port_write D (request_bytes (pack s) req) (world s) = (Inr (length (request_bytes (pack s) req)), w0) \<and>
        stream w0 = data_container s req p @ resp \<and> port_read D PTP_USB_BULK_PACKET_LEN w0 = (Inr first, w1) \<and>
        12 \<le> length first \<and> length first \<le> 12 + length p) \<and>
     (\<forall>w. stream w = resp \<longrightarrow> fst (port_read D PTP_USB_BULK_PACKET_LEN w) = Inr resp)"

definition ready_for_data :: "'w ptp \<Rightarrow> bool" where
  "ready_for_data s \<longleftrightarrow> maxpacketsize s \<noteq> 0 \<and> (\<forall>n. can_alloc (pack s) n) \<and> response_packet s = []"

lemma as_sent_simps [simp]:
  "Code (as_sent s r) = Code r" "Transaction_ID (as_sent s r) = transaction_id s" "Nparam (as_sent s r) = Nparam r"
  "Param1 (as_sent s r) = Param1 r"
  by (simp_all add: as_sent_def)

lemma request_simps [simp]: "Code (request code ps) = code" "Nparam (request code ps) = of_nat (length ps)"
  by (simp_all add: request_def Let_def zero_container_def)

lemma usb_transport_simps [simp]:
  "sendreq_func (usb_transport F D) = ptp_usb_sendreq D" "getdata_func (usb_transport F D) = ptp_usb_getdata F D"
  "getresp_func (usb_transport F D) = ptp_usb_getresp D" "senddata_func (usb_transport F D) = ptp_usb_senddata F D"
  by (simp_all add: usb_transport_def)

lemma data_container_counted [simp]: "data_container (counted s) r p = data_container s r p"
  by (simp add: data_container_def)

lemma get_data_usb:
  assumes dev: "usb_device D stream s (as_sent s (request code ps)) p (response (pack s) PTP_RC_OK (transaction_id s) rs)"
    and s: "ready_for_data s" and n: "length ps \<le> 5" "length rs \<le> 5" and l: "13 + length p < 2 ^ 32" and code: "code \<noteq> PTP_RC_OK"
  shows "\<exists>r b w. get_data (usb_transport F D) s code ps = Some (PTP_RC_OK, r, if p = [] then None else Some p, of_nat (length p),
      (counted s)\<lparr> split_header_data := b, world := w \<rparr>) \<and> Nparam r = of_nat (length rs) \<and> (rs \<noteq> [] \<longrightarrow> Param1 r = hd rs)"
proof -
  let ?T = "usb_transport F D" and ?r = "request code ps" and ?a = "as_sent s (request code ps)"
  let ?resp = "response (pack s) PTP_RC_OK (transaction_id s) rs"
  obtain w0 first w1 where d: "serves D stream" "port_write D (request_bytes (pack s) ?a) (world s) = (Inr (length (request_bytes (pack s) ?a)), w0)"
    "stream w0 = data_container s ?a p @ ?resp" "port_read D PTP_USB_BULK_PACKET_LEN w0 = (Inr first, w1)" "12 \<le> length first" "length first \<le> 12 + length p"
    and rd: "\<And>w. stream w = ?resp \<Longrightarrow> fst (port_read D PTP_USB_BULK_PACKET_LEN w) = Inr ?resp"
    using dev unfolding usb_device_def by blast
  from s have m: "maxpacketsize s \<noteq> 0" and al: "\<forall>n. can_alloc (pack s) n" and rp: "response_packet s = []" by (simp_all add: ready_for_data_def)
  have "unat (Nparam ?a) \<le> 5" using n(1) by (simp add: unat_of_nat)
  then have sr: "ptp_usb_sendreq D (counted s) ?a = Some (PTP_RC_OK, (counted s)\<lparr> world := w0 \<rparr>)"
    using sendreq_usb [of ?a D "counted s" w0] d(2) by simp
  let ?s = "(counted s)\<lparr> world := w0 \<rparr>"
  have c: "data_container ?s ?a p = data_container s ?a p" by (simp add: data_container_def)
  obtain h b w2 where gd: "ptp_usb_getdata F D ?s ?a empty_mem = Some (PTP_RC_OK, h, ?s\<lparr> split_header_data := b, world := w2 \<rparr>)"
    "ptp_exit_recv_memory_handler h = Some (if p = [] then None else Some p, length p)" "stream w2 = ?resp"
    using getdata_mem [OF d(1), of ?s p ?a ?resp first w1 F] m al rp l d(3-6) c by auto
  let ?s2 = "(counted s)\<lparr> split_header_data := b, world := w2 \<rparr>"
  obtain w3 where "port_read D PTP_USB_BULK_PACKET_LEN w2 = (Inr ?resp, w3)" using rd [OF gd(3)] by (cases "port_read D PTP_USB_BULK_PACKET_LEN w2") auto
  then obtain r where r: "ptp_usb_getresp D ?s2 ?a = Some (PTP_RC_OK, r, ?s2\<lparr> world := w3 \<rparr>)" "Code r = PTP_RC_OK" "Transaction_ID r = transaction_id s"
    "Nparam r = of_nat (length rs)" "rs \<noteq> [] \<longrightarrow> Param1 r = hd rs"
    using getresp_usb [of ?s2 rs ?a PTP_RC_OK D "transaction_id s" w3] rp n(2) code by auto
  have rl: "resp_loop ?T code 3 ?s2 ?a = Some (PTP_RC_OK, r, ?s2\<lparr> world := w3 \<rparr>)"
    using resp_loop_step [of ?T ?s2 ?a r "?s2\<lparr> world := w3 \<rparr>" 3 code] r(1-3) by simp
  have tn: "ptp_transaction_new ?T s ?r PTP_DP_GETDATA 0 empty_mem = Some (PTP_RC_OK, r, h, ?s2\<lparr> world := w3 \<rparr>)"
    using sr gd(1) rl unfolding ptp_transaction_new_def Let_def counted_def [symmetric] as_sent_def [symmetric]
    by (simp add: dp_defs after_data_def)
  have "ptp_init_recv_memory_handler (pack s) = Some empty_mem" using al by (simp add: ptp_init_recv_memory_handler_def)
  with tn gd(2) have "get_data ?T s code ps = Some (PTP_RC_OK, r, if p = [] then None else Some p, of_nat (length p), ?s2\<lparr> world := w3 \<rparr>)"
    unfolding get_data_def ptp_transaction_def Let_def by (simp add: dp_defs)
  with r(4,5) show ?thesis by (intro exI [of _ r] exI [of _ b] exI [of _ w3]) simp
qed

section \<open>Responses over USB\<close>

text \<open>The packets that a port hands over one after the other.\<close>

fun packets :: "'w port \<Rightarrow> octet list list \<Rightarrow> 'w \<Rightarrow> 'w \<Rightarrow> bool" where
  "packets D [] w w' \<longleftrightarrow> w' = w"
| "packets D (p # ps) w w' \<longleftrightarrow> (\<exists>u. port_read D PTP_USB_BULK_PACKET_LEN w = (Inr p, u) \<and> packets D ps u w')"

definition stale_response :: "PTPParams \<Rightarrow> 32 word \<times> 32 word list \<Rightarrow> octet list" where
  "stale_response P x = response P PTP_RC_OK (fst x) (snd x)"

lemma quirk_world [simp]: "MTP_ZEN_BROKEN_HEADER (s\<lparr> world := w \<rparr>) = MTP_ZEN_BROKEN_HEADER s" "MTP_ZEN_BROKEN_HEADER (counted s) = MTP_ZEN_BROKEN_HEADER s"
  by (simp_all add: MTP_ZEN_BROKEN_HEADER_def counted_def)

lemma resp_loop_skips:
  assumes n: "length qs \<le> 5" and rc: "rc = PTP_RC_OK \<and> i = k \<or> rc \<noteq> PTP_RC_OK \<and> rc \<noteq> PTP_ERROR_RESP_EXPECTED" and t: "tries \<noteq> 0"
  shows "packets D (map (stale_response (pack s)) stale @ [response (pack s) rc i qs]) (world s) w \<Longrightarrow> response_packet s = [] \<Longrightarrow> \<not> MTP_ZEN_BROKEN_HEADER s \<Longrightarrow>
    transaction_id s - 1 = k \<Longrightarrow> \<forall>x\<in>set stale. fst x < k \<and> length (snd x) \<le> 5 \<Longrightarrow> Code r \<noteq> rc \<or> rc = PTP_RC_OK \<Longrightarrow>
    \<exists>r'. resp_loop (usb_transport F D) cmd tries s r = Some (rc, r', s\<lparr> world := w \<rparr>) \<and>
      (rc = PTP_RC_OK \<longrightarrow> Transaction_ID r' = k \<and> Nparam r' = of_nat (length qs) \<and> (qs \<noteq> [] \<longrightarrow> Param1 r' = hd qs))"
proof (induction stale arbitrary: s r)
  case Nil
  then have rd: "port_read D PTP_USB_BULK_PACKET_LEN (world s) = (Inr (response (pack s) rc i qs), w)" by simp
  from getresp_usb [OF Nil(2) n Nil(6) rd] obtain r' where g: "ptp_usb_getresp D s r = Some (rc, if rc = PTP_RC_OK then r' else r, s\<lparr> world := w \<rparr>)"
    "Code r' = rc" "Transaction_ID r' = i" "Nparam r' = of_nat (length qs)" "qs \<noteq> [] \<longrightarrow> Param1 r' = hd qs" using Nil(3) by auto
  show ?case
  proof (cases "rc = PTP_RC_OK")
    case True
    with g rc Nil(4) t show ?thesis
      using resp_loop_step [of "usb_transport F D" s r r' "s\<lparr> world := w \<rparr>" tries cmd] by auto
  next
    case False
    with g rc t show ?thesis by (subst resp_loop.simps) simp
  qed
next
  case (Cons x xs)
  obtain u where u: "port_read D PTP_USB_BULK_PACKET_LEN (world s) = (Inr (response (pack s) PTP_RC_OK (fst x) (snd x)), u)"
    "packets D (map (stale_response (pack s)) xs @ [response (pack s) rc i qs]) u w" using Cons.prems(1) by (auto simp: stale_response_def [of _ x])
  have x: "fst x < k" "length (snd x) \<le> 5" using Cons.prems(5) by simp_all
  from getresp_usb [OF Cons.prems(2) x(2) _ u(1), of r] obtain c where g: "ptp_usb_getresp D s r = Some (PTP_RC_OK, c, s\<lparr> world := u \<rparr>)"
    "Code c = PTP_RC_OK" "Transaction_ID c = fst x" using Cons.prems(3) by auto
  have "resp_loop (usb_transport F D) cmd tries s r = resp_loop (usb_transport F D) cmd tries (s\<lparr> world := u \<rparr>) c"
    using resp_loop_step [of "usb_transport F D" s r c "s\<lparr> world := u \<rparr>" tries cmd] g x Cons.prems(4) t by simp
  moreover have "Code c \<noteq> rc \<or> rc = PTP_RC_OK" using g(2) by auto
  ultimately show ?case using Cons.IH [of "s\<lparr> world := u \<rparr>" c] u(2) Cons.prems by simp
qed

text \<open>The operation without data over USB: its request is written in one piece.\<close>

definition request_taken :: "'w port \<Rightarrow> 'w ptp \<Rightarrow> PTPContainer \<Rightarrow> 'w \<Rightarrow> bool" where
  "request_taken D s req w \<longleftrightarrow> port_write D (request_bytes (pack s) req) (world s) = (Inr (length (request_bytes (pack s) req)), w)"

lemma transaction_usb:
  assumes "request_taken D s (as_sent s (request code ps)) w0" and "length ps \<le> 5"
  shows "ptp_transaction_new (usb_transport F D) s (request code ps) PTP_DP_NODATA n h =
    do { (ret, r, s) \<leftarrow> resp_loop (usb_transport F D) code 3 ((counted s)\<lparr> world := w0 \<rparr>) (as_sent s (request code ps)); Some (ret, r, h, s) }"
proof -
  let ?a = "as_sent s (request code ps)"
  have "unat (Nparam ?a) \<le> 5" using assms(2) by (simp add: unat_of_nat)
  then have "sendreq_func (usb_transport F D) (counted s) ?a = Some (PTP_RC_OK, (counted s)\<lparr> world := w0 \<rparr>)"
    using sendreq_usb [of ?a D "counted s" w0] assms(1) by (simp add: request_taken_def)
  from no_data_phase [OF this] show ?thesis by simp
qed

lemma no_data_usb:
  assumes "request_taken D s (as_sent s (request code ps)) w0" and "length ps \<le> 5"
  shows "no_data (usb_transport F D) s code ps = do { (ret, r, s) \<leftarrow> resp_loop (usb_transport F D) code 3 ((counted s)\<lparr> world := w0 \<rparr>) (as_sent s (request code ps)); Some (ret, r, s) }"
  unfolding no_data_def ptp_transaction_def by (simp add: dp_defs transaction_usb [OF assms, unfolded dp_defs] Option.bind_assoc split_def)


text \<open>A device that keeps answering earlier transactions.\<close>

lemma resp_loop_stuck:
  assumes st: "\<And>w. \<exists>j qs u. port_read D PTP_USB_BULK_PACKET_LEN w = (Inr (response P PTP_RC_OK j qs), u) \<and> j < i \<and> length qs \<le> 5"
  shows "resp_loop T' cmd tries s r = Some y \<Longrightarrow>
    T' = usb_transport F D \<longrightarrow> tries \<noteq> 0 \<longrightarrow> transaction_id s - 1 = i \<longrightarrow> pack s = P \<longrightarrow> response_packet s = [] \<longrightarrow> \<not> MTP_ZEN_BROKEN_HEADER s \<longrightarrow> False"
proof (erule resp_loop.raw_induct [where P = "\<lambda>T' cmd tries s r y. T' = usb_transport F D \<longrightarrow> tries \<noteq> 0 \<longrightarrow> transaction_id s - 1 = i \<longrightarrow> pack s = P \<longrightarrow>
    response_packet s = [] \<longrightarrow> \<not> MTP_ZEN_BROKEN_HEADER s \<longrightarrow> False", rotated], goal_cases)
  case (1 loop T' cmd tries s r y)
  show ?case
  proof (intro impI)
    assume a: "T' = usb_transport F D" "tries \<noteq> 0" "transaction_id s - 1 = i" "pack s = P" "response_packet s = []" "\<not> MTP_ZEN_BROKEN_HEADER s"
    obtain j qs u where u: "port_read D PTP_USB_BULK_PACKET_LEN (world s) = (Inr (response P PTP_RC_OK j qs), u)" "j < i" "length qs \<le> 5" using st by blast
    from getresp_usb [OF a(5) u(3) _ u(1) [folded a(4)], of r] a(6) obtain c where
      c: "ptp_usb_getresp D s r = Some (PTP_RC_OK, c, s\<lparr> world := u \<rparr>)" "Transaction_ID c < i" using u(2) by auto
    have "loop (usb_transport F D) cmd tries (s\<lparr> world := u \<rparr>) c = Some y"
      using 1(2) a c by (simp add: PTP_RC_OK_def PTP_ERROR_RESP_EXPECTED_def split: if_splits)
    from 1(1) [OF this] a show False by simp
  qed
qed

text \<open>C30: Over USB a device that goes on sending successful responses to earlier transactions keeps an operation without data from ever returning: these responses are not counted as
  tries.\<close>
theorem stale_answers_hang:
  assumes "request_taken D s (as_sent s (request code ps)) w0" and "length ps \<le> 5" and "response_packet s = []" and "\<not> MTP_ZEN_BROKEN_HEADER s"
    and "\<forall>w. \<exists>j qs u. port_read D PTP_USB_BULK_PACKET_LEN w = (Inr (response (pack s) PTP_RC_OK j qs), u) \<and> j < transaction_id s \<and> length qs \<le> 5"
  shows "no_data (usb_transport F D) s code ps = None"
proof -
  let ?l = "resp_loop (usb_transport F D) code 3 ((counted s)\<lparr> world := w0 \<rparr>) (as_sent s (request code ps))"
  have "\<not> ?l = Some y" for y
    using resp_loop_stuck [of D "pack s" "transaction_id s" "usb_transport F D" code 3 "(counted s)\<lparr> world := w0 \<rparr>" "as_sent s (request code ps)" y F] assms(3-5) by auto
  then have "?l = None" by (cases ?l) auto
  then show ?thesis unfolding no_data_usb [OF assms(1,2)] by simp
qed

section \<open>Sessions\<close>

text \<open>The connection as \<open>ptp_opensession\<close> starts it.\<close>

definition fresh :: "'w ptp \<Rightarrow> 'w ptp" where
  "fresh s = s\<lparr> session_id := 0, transaction_id := 0, response_packet := [], split_header_data := False \<rparr>"

lemma fresh_simps [simp]: "transaction_id (fresh s) = 0" "session_id (fresh s) = 0" "world (fresh s) = world s" "pack (fresh s) = pack s" "response_packet (fresh s) = []"
  by (simp_all add: fresh_def)

lemma fresh_quirk [simp]: "MTP_ZEN_BROKEN_HEADER (fresh s) = MTP_ZEN_BROKEN_HEADER s"
  by (simp add: MTP_ZEN_BROKEN_HEADER_def fresh_def)

lemma resp_loop_open:
  assumes n: "length qs \<le> 5" and rc: "rc \<noteq> PTP_ERROR_RESP_EXPECTED"
  shows "packets D (map (stale_response (pack s)) xs @ (if length xs < tries then [response (pack s) rc 0 qs] else [])) (world s) w \<Longrightarrow> response_packet s = [] \<Longrightarrow>
    \<not> MTP_ZEN_BROKEN_HEADER s \<Longrightarrow> transaction_id s = 1 \<Longrightarrow> \<forall>x\<in>set xs. fst x \<noteq> 0 \<and> length (snd x) \<le> 5 \<Longrightarrow> Code r \<noteq> rc \<or> rc = PTP_RC_OK \<Longrightarrow> length xs \<le> tries \<Longrightarrow> tries \<noteq> 0 \<Longrightarrow>
    \<exists>r'. resp_loop (usb_transport F D) PTP_OC_OpenSession tries s r = Some (if length xs < tries then rc else PTP_ERROR_BADPARAM, r', s\<lparr> world := w \<rparr>)"
proof (induction xs arbitrary: s r tries)
  case Nil
  then have rd: "port_read D PTP_USB_BULK_PACKET_LEN (world s) = (Inr (response (pack s) rc 0 qs), w)" by simp
  from getresp_usb [OF Nil(2) n Nil(6) rd] obtain r' where g: "ptp_usb_getresp D s r = Some (rc, if rc = PTP_RC_OK then r' else r, s\<lparr> world := w \<rparr>)"
    "Code r' = rc" "Transaction_ID r' = 0" using Nil(3,4) by auto
  show ?case
  proof (cases "rc = PTP_RC_OK")
    case True
    with g Nil(4,8) show ?thesis
      using resp_loop_step [of "usb_transport F D" s r r' "s\<lparr> world := w \<rparr>" tries PTP_OC_OpenSession] by auto
  next
    case False
    with g rc Nil(8) show ?thesis by (subst resp_loop.simps) simp
  qed
next
  case (Cons x xs)
  obtain u where u: "port_read D PTP_USB_BULK_PACKET_LEN (world s) = (Inr (response (pack s) PTP_RC_OK (fst x) (snd x)), u)"
    "packets D (map (stale_response (pack s)) xs @ (if length (x # xs) < tries then [response (pack s) rc 0 qs] else [])) u w"
    using Cons.prems(1) by (auto simp: stale_response_def [of _ x] split: if_splits)
  have x: "fst x \<noteq> 0" "length (snd x) \<le> 5" using Cons.prems(5) by simp_all
  from getresp_usb [OF Cons.prems(2) x(2) _ u(1), of r] obtain c where g: "ptp_usb_getresp D s r = Some (PTP_RC_OK, c, s\<lparr> world := u \<rparr>)"
    "Code c = PTP_RC_OK" "Transaction_ID c = fst x" using Cons.prems(3) by auto
  have st: "resp_loop (usb_transport F D) PTP_OC_OpenSession tries s r =
      (if tries - 1 \<noteq> 0 then resp_loop (usb_transport F D) PTP_OC_OpenSession (tries - 1) (s\<lparr> world := u \<rparr>) c else Some (PTP_ERROR_BADPARAM, c, s\<lparr> world := u \<rparr>))"
    using resp_loop_step [of "usb_transport F D" s r c "s\<lparr> world := u \<rparr>" tries PTP_OC_OpenSession] g x Cons.prems(4,8) by simp
  show ?case
  proof (cases "tries = 1")
    case True
    with Cons.prems(7) u(2) st show ?thesis by simp
  next
    case False
    with Cons.prems(7,8) have t: "tries - 1 \<noteq> 0" "length xs \<le> tries - 1" "length xs < tries - 1 \<longleftrightarrow> length (x # xs) < tries" by auto
    have c: "Code c \<noteq> rc \<or> rc = PTP_RC_OK" using g(2) by auto
    have "packets D (map (stale_response (pack (s\<lparr> world := u \<rparr>))) xs @ (if length xs < tries - 1 then [response (pack (s\<lparr> world := u \<rparr>)) rc 0 qs] else []))
        (world (s\<lparr> world := u \<rparr>)) w" using u(2) unfolding t(3) by (simp split: if_splits)
    from Cons.IH [OF this _ _ _ _ c t(2,1)] Cons.prems
    have "\<exists>r'. resp_loop (usb_transport F D) PTP_OC_OpenSession (tries - 1) (s\<lparr> world := u \<rparr>) c =
        Some (if length (x # xs) < tries then rc else PTP_ERROR_BADPARAM, r', s\<lparr> world := w \<rparr>)" unfolding t(3) by simp
    then show ?thesis unfolding st using t(1) by simp
  qed
qed

text \<open>Opening a session over USB sends transaction 0 of session 0, tolerates two successful responses that do not belong to it and fails with a bad parameter at the third; the
  number of the session is kept whatever the device answered.\<close>
lemma opensession_over_usb:
  assumes "request_taken D (fresh s) (as_sent (fresh s) (request PTP_OC_OpenSession [n])) w0" and "\<not> MTP_ZEN_BROKEN_HEADER s" and "length xs \<le> 3"
    and "packets D (map (stale_response (pack s)) xs @ (if length xs < 3 then [response (pack s) rc 0 qs] else [])) w0 w"
    and "\<forall>x\<in>set xs. fst x \<noteq> 0 \<and> length (snd x) \<le> 5" and "length qs \<le> 5" and "rc \<noteq> PTP_ERROR_RESP_EXPECTED" and "rc \<noteq> PTP_OC_OpenSession"
  shows "ptp_opensession (usb_transport F D) s n =
    Some (if length xs < 3 then rc else PTP_ERROR_BADPARAM, (counted (fresh s))\<lparr> world := w, session_id := n \<rparr>)"
proof -
  let ?s = "(counted (fresh s))\<lparr> world := w0 \<rparr>" and ?r = "as_sent (fresh s) (request PTP_OC_OpenSession [n])"
  have "\<exists>r'. resp_loop (usb_transport F D) PTP_OC_OpenSession 3 ?s ?r = Some (if length xs < 3 then rc else PTP_ERROR_BADPARAM, r', ?s\<lparr> world := w \<rparr>)"
    using assms(2-8) by (intro resp_loop_open) auto
  moreover have "length [n] \<le> 5" by simp
  ultimately show ?thesis
    unfolding ptp_opensession_def Let_def fresh_def [symmetric] transaction_usb [OF assms(1) \<open>length [n] \<le> 5\<close>] by auto
qed

section \<open>From the device's dataset to the host\<close>

lemma get_into_get_data: "can_alloc (pack s) 24 \<Longrightarrow> get_into T s code ps d l = get_data T s code ps"
  by (simp add: get_into_def get_data_def ptp_transaction_def Let_def dp_defs ptp_init_recv_memory_handler_def)

text \<open>C31: \<open>ptp_getobject\<close> over USB hands over the bytes of the object exactly, however the device cuts them into packets behind the first.\<close>
theorem getobject_over_usb:
  assumes "usb_device D stream s (as_sent s (request PTP_OC_GetObject [h])) p (response (pack s) PTP_RC_OK (transaction_id s) rs)"
    and "ready_for_data s" and "length rs \<le> 5" and "13 + length p < 2 ^ 32"
  shows "\<exists>b w. ptp_getobject (usb_transport F D) s h object =
    Some (PTP_RC_OK, if p = [] then None else Some p, (counted s)\<lparr> split_header_data := b, world := w \<rparr>)"
proof -
  have c: "PTP_OC_GetObject \<noteq> PTP_RC_OK" by (simp add: PTP_OC_GetObject_def PTP_RC_OK_def)
  have a: "can_alloc (pack s) 24" using assms(2) by (simp add: ready_for_data_def)
  obtain r b w where "get_data (usb_transport F D) s PTP_OC_GetObject [h] = Some (PTP_RC_OK, r, if p = [] then None else Some p, of_nat (length p),
      (counted s)\<lparr> split_header_data := b, world := w \<rparr>)"
    using get_data_usb [OF assms(1,2) _ assms(3,4) c, of F] by auto
  then show ?thesis unfolding ptp_getobject_def out_data_def get_into_get_data [OF a]
    by (intro exI [of _ b] exI [of _ w]) simp
qed


end
