(* ===== verification/Ptp_Queue_Props.thy ===== *)
theory Ptp_Queue_Props
  imports Ptp_Frame Ptp_Transaction_Props
begin

text \<open>
  What the host keeps: the queue of events is first in, first out, and completing an object changes no other object, whatever
  the device answers.
\<close>

section \<open>Queues\<close>

text \<open>The runs of a queue: \<open>fs\<close> is what was fetched, \<open>st\<close> what the steps in between have stored.\<close>

inductive fifo_run :: "('q \<Rightarrow> 'q \<Rightarrow> bool) \<Rightarrow> ('q \<Rightarrow> 'e option \<times> 'q) \<Rightarrow> ('q \<Rightarrow> 'e list) \<Rightarrow> 'q \<Rightarrow> 'e list \<Rightarrow> 'e list \<Rightarrow> 'q \<Rightarrow> bool"
  for put get content q where
  start: "fifo_run put get content q [] [] q"
| store: "fifo_run put get content q fs st q1 \<Longrightarrow> put q1 q2 \<Longrightarrow> fifo_run put get content q fs (st @ drop (length (content q1)) (content q2)) q2"
| fetch: "fifo_run put get content q fs st q1 \<Longrightarrow> get q1 = (Some e, q2) \<Longrightarrow> fifo_run put get content q (fs @ [e]) st q2"

locale fifo =
  fixes put :: "'q \<Rightarrow> 'q \<Rightarrow> bool" and get :: "'q \<Rightarrow> 'e option \<times> 'q" and content :: "'q \<Rightarrow> 'e list"
  assumes put: "put q q' \<Longrightarrow> \<exists>es. content q' = content q @ es"
    and get: "get q = (Some e, q') \<Longrightarrow> content q = e # content q'"
begin

lemma run_fifo: "fifo_run put get content q fs st q' \<Longrightarrow> content q @ st = fs @ content q'"
proof (induction rule: fifo_run.induct)
  case start
  show ?case by simp
next
  case (store fs st q1 q2)
  from put [OF store(2)] obtain es where "content q2 = content q1 @ es" by blast
  with store(3) show ?case by simp
next
  case (fetch fs st q1 e q2)
  with get [OF fetch(2)] show ?case by simp
qed

end

definition checks :: "'w transport \<Rightarrow> 'w ptp \<Rightarrow> 'w ptp \<Rightarrow> bool" where
  "checks T s s' \<longleftrightarrow> (\<exists>e ret. ptp_check_event T e s = Some (ret, s'))"

interpretation events: fifo "checks (usb_transport F D)" ptp_get_one_event events for F :: "'w files" and D :: "'w port"
proof
  fix s s' :: "'w ptp"
  assume "checks (usb_transport F D) s s'"
  then show "\<exists>es. events s' = events s @ es" unfolding checks_def using usb.check_event_appends by blast
next
  fix s s' :: "'w ptp" and e
  assume "ptp_get_one_event s = (Some e, s')"
  then show "events s = e # events s'" by (auto simp: ptp_get_one_event_def split: list.splits)
qed

text \<open>C38: However checking for events and fetching them alternate, over USB and with any answers of the device, the events come out in the order in which they
  were stored: none is lost, repeated or reordered.\<close>
theorem event_queue_fifo:
  assumes "fifo_run (checks (usb_transport F D)) ptp_get_one_event events s fs st s'"
  shows "events s @ st = fs @ events s'"
  using assms by (rule events.run_fifo)

section \<open>Events of Nikon cameras\<close>

lemma unat_ucast16: "unat (ucast (c :: 16 word) :: 32 word) = unat c"
proof -
  have "unat c < 2 ^ 16" using unsigned_less [of c, where ?'a = nat] by simp
  then show ?thesis by (simp add: unsigned_ucast_eq take_bit_nat_eq_self)
qed

lemma ucast16_eq_0 [simp]: "(ucast (c :: 16 word) :: 32 word) = 0 \<longleftrightarrow> c = 0"
  using unat_ucast16 [of c] by (metis unat_0 unat_eq_zero)

lemma nikon_count_words:
  assumes "2 \<le> length d" and "13 + length d < 2 ^ 32"
  shows "\<not> (of_nat (length d) :: 32 word) < 2"
    and "(ucast (c :: 16 word) :: 32 word) > (of_nat (length d) - 2) div 6 \<longleftrightarrow> unat c > (length d - 2) div 6"
proof -
  have l: "unat (of_nat (length d) :: 32 word) = length d" using assms(2) by (simp add: unat_of_nat)
  show "\<not> (of_nat (length d) :: 32 word) < 2" using assms(1) l by (simp add: word_less_nat_alt)
  have "unat ((of_nat (length d) - 2 :: 32 word) div 6) = (length d - 2) div 6"
    using assms(1) l unat_minus [of 2 "of_nat (length d) :: 32 word"] by (simp add: unat_div_distrib)
  then show "(ucast c :: 32 word) > (of_nat (length d) - 2) div 6 \<longleftrightarrow> unat c > (length d - 2) div 6"
    by (simp add: word_less_nat_alt unat_ucast16)
qed

text \<open>C39: Checking for events on a Nikon camera over USB: the events of the answer are appended to the queue in their order; an answer that counts more events than
  it holds makes the library copy that many from a null pointer.\<close>
theorem nikon_check_queues:
  assumes dev: "usb_device D stream s (as_sent s (request PTP_OC_NIKON_CheckEvent [])) d (response (pack s) PTP_RC_OK (transaction_id s) rs)"
    and s: "ready_for_data s" and rs: "length rs \<le> 5" and d: "2 \<le> length d" "13 + length d < 2 ^ 32" and c: "dtoh16ap (pack s) d 0 = Some c"
    and v: "VendorExtensionID (deviceinfo s) = PTP_VENDOR_NIKON" "ptp_operation_issupported s PTP_OC_NIKON_CheckEvent = Some True"
  shows "if unat c > (length d - 2) div 6 then ptp_check_event (usb_transport F D) e s = None
    else \<exists>es s'. ptp_check_event (usb_transport F D) e s = Some (PTP_RC_OK, s') \<and> those (map (nikon_event (pack s) d) [0..<unat c]) = Some es \<and>
      length es = unat c \<and> events s' = events s @ es"
proof -
  have "PTP_OC_NIKON_CheckEvent \<noteq> PTP_RC_OK" by (simp add: PTP_OC_NIKON_CheckEvent_def PTP_RC_OK_def)
  from get_data_usb [OF dev s _ rs d(2) this, of F] obtain r b w where
    g: "get_data (usb_transport F D) s PTP_OC_NIKON_CheckEvent [] = Some (PTP_RC_OK, r, if d = [] then None else Some d, of_nat (length d),
      (counted s)\<lparr> split_header_data := b, world := w \<rparr>)" by auto
  have ne: "d \<noteq> []" using d by auto
  let ?s = "(counted s)\<lparr> split_header_data := b, world := w \<rparr>"
  have n: "ptp_nikon_check_event (usb_transport F D) s =
      do { (event, evtcnt) \<leftarrow> ptp_unpack_Nikon_EC (pack s) (Some d) (of_nat (length d)) 0; Some (PTP_RC_OK, event, evtcnt, ?s) }"
    using ne unfolding ptp_nikon_check_event_def g by simp
  have al: "can_alloc (pack s) k" for k using s by (simp add: ready_for_data_def)
  have q: "ptp_check_event (usb_transport F D) e s = nikon_queue (usb_transport F D) s"
    using v by (simp add: ptp_check_event_def Let_def)
  have u: "ptp_unpack_Nikon_EC (pack s) (Some d) (of_nat (length d)) 0 =
      (if unat c > (length d - 2) div 6 then Some (None, ucast c) else if c = 0 then Some (None, 0)
       else do { ec \<leftarrow> those (map (nikon_event (pack s) d) [0..<unat c]); Some (Some ec, ucast c) })"
    using nikon_count_words [OF d] c al by (simp add: ptp_unpack_Nikon_EC_def Let_def unat_ucast16)
  show ?thesis
  proof (cases "unat c > (length d - 2) div 6")
    case True
    then have "c \<noteq> 0" by auto
    then have "(ucast c :: 32 word) \<noteq> 0" by (simp add: unat_eq_0 [symmetric] unat_ucast16)
    with True show ?thesis by (simp add: q nikon_queue_def n u)
  next
    case False
    show ?thesis
    proof (cases "c = 0")
      case True
      then show ?thesis by (simp add: q nikon_queue_def n u)
    next
      case c0: False
      then have c1: "(ucast c :: 32 word) \<noteq> 0" by (simp add: unat_eq_0 [symmetric] unat_ucast16)
      have dl: "unat (of_nat (length d) :: 32 word) = length d" using d(2) by (simp add: unat_of_nat)
      obtain ec k where e: "ptp_unpack_Nikon_EC (pack s) (Some d) (of_nat (length d)) 0 = Some (ec, k)"
        "case ec of None \<Rightarrow> True | Some es \<Rightarrow> length es = unat k"
        using nikon_inside [of d "of_nat (length d)" "pack s" 0] dl al by auto
      with u False c0 obtain es where es: "those (map (nikon_event (pack s) d) [0..<unat c]) = Some es" by (auto split: bind_splits)
      have "ptp_unpack_Nikon_EC (pack s) (Some d) (of_nat (length d)) 0 = Some (Some es, ucast c)" using u False c0 es by simp
      with e(1) have "ec = Some es" "k = ucast c" by simp_all
      with e(2) have "length es = unat (ucast c :: 32 word)" by simp
      then have "length es = unat c" by (simp only: unat_ucast16)
      with es False c0 c1 al show ?thesis by (simp add: q nikon_queue_def n u unat_ucast16)
    qed
  qed
qed

section \<open>The cache\<close>

lemma bsearch_found: "bsearch cmp key xs l u = Some i \<Longrightarrow> l \<le> i \<and> i < u \<and> cmp key (xs ! i) = 0"
proof (induction cmp key xs l u rule: bsearch.induct)
  case (1 cmp key xs l u)
  let ?m = "(l + u) div 2"
  from 1(3) have lu: "l < u" by (subst (asm) bsearch.simps) (simp split: if_splits)
  then have m: "l \<le> ?m" "?m < u" by auto
  consider "cmp key (xs ! ?m) < 0" | "cmp key (xs ! ?m) > 0" | "cmp key (xs ! ?m) = 0" by linarith
  then show ?case
  proof cases
    case 1
    with "1.prems" lu have "bsearch cmp key xs l ?m = Some i" by (subst (asm) bsearch.simps) (simp add: Let_def)
    from "1.IH"(1) [OF lu refl refl 1 this] m show ?thesis by simp
  next
    case 2
    with "1.prems" lu have "bsearch cmp key xs (?m + 1) u = Some i" by (subst (asm) bsearch.simps) (simp add: Let_def)
    from "1.IH"(2) [OF lu refl refl _ 2 this] 2 m show ?thesis by simp
  next
    case 3
    with "1.prems" lu have "i = ?m" by (subst (asm) bsearch.simps) (simp add: Let_def)
    with 3 m show ?thesis by simp
  qed
qed

lemma object_find_found: "ptp_object_find obs h = Some i \<Longrightarrow> i < length obs \<and> oid (obs ! i) = h"
  unfolding ptp_object_find_def by (drule bsearch_found) (simp add: cmp_ob_def signed_eq_0_iff)

definition others :: "32 word \<Rightarrow> PTPObject list \<Rightarrow> PTPObject list \<Rightarrow> bool" where
  "others h obs obs' \<longleftrightarrow> sorted_cache obs' \<and> (\<forall>k. k \<noteq> h \<longrightarrow> cache_abs obs' k = cache_abs obs k)"

lemma others_trans: "others h a b \<Longrightarrow> others h b c \<Longrightarrow> others h a c"
  by (simp add: others_def)

lemma others_remove:
  assumes "sorted_cache obs"
  shows "others h obs (ptp_remove_object_from_cache obs h)"
proof (cases "ptp_object_find obs h")
  case None
  with assms show ?thesis by (simp add: others_def ptp_remove_object_from_cache_def)
next
  case (Some i)
  with object_find_found have i: "i < length obs" "oid (obs ! i) = h" by auto
  have "obs = take i obs @ obs ! i # drop (i + 1) obs" using i(1) by (simp add: id_take_nth_drop)
  then have "cache_abs obs = (cache_abs (drop (i + 1) obs))(oid (obs ! i) \<mapsto> obs ! i) ++ cache_abs (take i obs)"
    by (metis cache_abs_append cache_abs_Cons)
  moreover have "ptp_remove_object_from_cache obs h = take i obs @ drop (i + 1) obs" using Some by (simp add: ptp_remove_object_from_cache_def)
  moreover have "sorted_cache (take i obs @ drop (i + 1) obs)" by (rule sorted_cache_drop_one [OF assms])
  ultimately show ?thesis using i(2) by (auto simp: others_def cache_abs_append map_add_def split: option.splits)
qed

lemma others_update:
  assumes "sorted_cache obs" and "i < length obs" and "oid (obs ! i) = h" and "oid ob = h"
  shows "others h obs (obs[i := ob])"
proof -
  have s: "sorted_cache (obs[i := ob])" using assms by (intro sorted_cache_update) simp_all
  have "cache_abs (obs[i := ob]) k = cache_abs obs k" if "k \<noteq> h" for k
  proof -
    have o: "obs = take i obs @ obs ! i # drop (i + 1) obs" using assms(2) by (simp add: id_take_nth_drop)
    have "obs[i := ob] = take i obs @ ob # drop (i + 1) obs" using assms(2) by (simp add: upd_conv_take_nth_drop)
    then have "cache_abs (obs[i := ob]) = (cache_abs (drop (i + 1) obs))(h \<mapsto> ob) ++ cache_abs (take i obs)"
      using assms(4) by (simp add: cache_abs_append cache_abs_Cons)
    moreover have "cache_abs obs = (cache_abs (drop (i + 1) obs))(h \<mapsto> obs ! i) ++ cache_abs (take i obs)"
      using assms(3) o by (metis cache_abs_append cache_abs_Cons)
    ultimately show ?thesis using that by (simp add: map_add_def split: option.split)
  qed
  with s show ?thesis by (simp add: others_def)
qed

lemma find_or_insert_any:
  assumes s: "sorted_cache obs" and f: "ptp_object_find_or_insert P obs h = Some (obs', r)"
  shows "others h obs obs' \<and> (case r of None \<Rightarrow> True | Some i \<Rightarrow> i < length obs' \<and> oid (obs' ! i) = h)"
proof (cases r)
  case None
  with f have "obs' = obs" by (auto simp: ptp_object_find_or_insert_def Let_def split: if_splits sum.splits prod.splits)
  with None s show ?thesis by (simp add: others_def)
next
  case (Some i)
  let ?Q = "P\<lparr> can_alloc := \<lambda>_. True \<rparr>"
  have h: "h \<noteq> 0" and same: "ptp_object_find_or_insert ?Q obs h = Some (obs', r)"
    using f Some by (auto simp: ptp_object_find_or_insert_def Let_def split: if_splits sum.splits prod.splits)
  from find_or_insert_found [OF s h, of ?Q] same Some have
    a: "i < length obs'" "oid (obs' ! i) = h" "sorted_cache obs'" and
    b: "if h \<in> oid ` set obs then obs' = obs else i \<le> length obs \<and> obs' = take i obs @ new_object h # drop i obs" by auto
  have "others h obs obs'"
  proof (cases "h \<in> oid ` set obs")
    case True
    with a b show ?thesis by (simp add: others_def)
  next
    case False
    with b have "obs' = take i obs @ new_object h # drop i obs" by simp
    moreover have "cache_abs (take i obs @ new_object h # drop i obs) = (cache_abs obs)(h \<mapsto> new_object h)"
      by (rule cache_abs_insert [OF False]) (simp add: new_object_def)
    ultimately show ?thesis using a by (simp add: others_def)
  qed
  with a Some show ?thesis by simp
qed

section \<open>Completing an object\<close>

text \<open>While \<open>ptp_object_want\<close> works on the element at \<open>i\<close>.\<close>

definition at :: "nat \<Rightarrow> 32 word \<Rightarrow> 'w ptp \<Rightarrow> bool" where
  "at i h s \<longleftrightarrow> sorted_cache (objects s) \<and> i < length (objects s) \<and> oid (objects s ! i) = h"

lemma at_kept: "objects s' = objects s \<Longrightarrow> at i h s' = at i h s"
  by (simp add: at_def)

lemma the_ob_at: "at i h s \<Longrightarrow> the_ob i s = Some ob \<longleftrightarrow> ob = objects s ! i"
  by (auto simp: at_def the_ob_def)

lemma set_ob_at:
  assumes "at i h s" and "oid ob = h"
  shows "at i h (set_ob i ob s) \<and> others h (objects s) (objects (set_ob i ob s)) \<and> objects (set_ob i ob s) ! i = ob"
  using assms sorted_cache_update [of "objects s" ob i] others_update [of "objects s" i h ob] by (simp add: at_def set_ob_def)

lemma others_refl: "at i h s \<Longrightarrow> others h (objects s) (objects s)"
  by (simp add: others_def at_def)

context quiet_transport begin

lemma load_canon_flags_at:
  assumes "load_canon_flags T s h i = Some s'" and a: "at i h s"
  shows "at i h s' \<and> others h (objects s) (objects s')"
proof -
  let ?sup = "if VendorExtensionID (deviceinfo s) = PTP_VENDOR_CANON then ptp_operation_issupported s PTP_OC_CANON_GetObjectInfoEx else Some False"
  have ob: "the_ob i s = Some (objects s ! i)" using the_ob_at [OF a] by simp
  let ?g = "ptp_canon_getobjectinfo T s (StorageID (oi (objects s ! i))) 0 (ParentObject (oi (objects s ! i))) h None 0"
  show ?thesis
  proof (cases "?sup = Some True")
    case False
    with assms(1) have "s' = s" unfolding load_canon_flags_def by (cases ?sup) simp_all
    with a others_refl [OF a] show ?thesis by simp
  next
    case True
    with assms(1) ob have r: "do { (ret, ents, numents, s) \<leftarrow> ?g;
           if ret = PTP_RC_OK \<and> numents \<ge> 1 then do {
             es \<leftarrow> ents; ob \<leftarrow> the_ob i s; Some (set_ob i (ob\<lparr> canon_flags := ucast (fe_Flags (es ! 0)) \<rparr>) s) }
           else Some s } = Some s'" unfolding load_canon_flags_def by simp
    then obtain ret ents n s1 where g: "?g = Some (ret, ents, n, s1)" by (cases ?g) auto
    have o1: "objects s1 = objects s" by (rule kept_eqD(4) [OF kept_canon_getobjectinfo [OF g]])
    with a have a1: "at i h s1" using at_kept [OF o1] by simp
    have t1: "the_ob i s1 = Some (objects s1 ! i)" "oid (objects s1 ! i) = h" using the_ob_at [OF a1] a1 by (simp_all add: at_def)
    have r2: "(if ret = PTP_RC_OK \<and> n \<ge> 1 then do {
             es \<leftarrow> ents; ob \<leftarrow> the_ob i s1; Some (set_ob i (ob\<lparr> canon_flags := ucast (fe_Flags (es ! 0)) \<rparr>) s1) }
           else Some s1) = Some s'" using r unfolding g by (simp only: bind.bind_lunit prod.case)
    have "s' = s1 \<or> (\<exists>f. s' = set_ob i ((objects s1 ! i)\<lparr> canon_flags := f \<rparr>) s1)"
    proof (cases "ret = PTP_RC_OK \<and> n \<ge> 1")
      case True
      with r2 t1(1) show ?thesis by (cases ents) auto
    next
      case False
      from r2 show ?thesis unfolding if_not_P [OF False] by simp
    qed
    then show ?thesis using set_ob_at [OF a1] t1(2) o1 a1 others_refl [OF a] by auto
  qed
qed

lemma load_info_at:
  assumes "load_info T H s h i = Some (ret, s')" and a: "at i h s"
  shows "others h (objects s) (objects s') \<and> (ret = PTP_RC_OK \<longrightarrow> at i h s' \<and> flags (objects s' ! i) AND info_flags = info_flags)"
proof -
  obtain ob where ob: "the_ob i s = Some ob" "oid ob = h" using a by (auto simp: at_def the_ob_def)
  obtain ret1 info s1 where g: "ptp_getobjectinfo T H s h (oi ob) = Some (ret1, info, s1)"   proof -
    have "ptp_getobjectinfo T H s h (oi ob) \<noteq> None"
    proof
      assume "ptp_getobjectinfo T H s h (oi ob) = None"
      with assms(1) ob(1) show False by (simp add: load_info_def Let_def)
    qed
    with that show ?thesis by (cases "ptp_getobjectinfo T H s h (oi ob)") auto
  qed
  have o1: "objects s1 = objects s" using kept_getobjectinfo [OF g] by (auto simp: kept_def)
  with a have a1: "at i h s1" using at_kept [OF o1] by simp
  show ?thesis
  proof (cases "ret1 = PTP_RC_OK")
    case False
    with assms(1) ob g have "ret = ret1" "objects s' = ptp_remove_object_from_cache (objects s1) h" by (auto simp: load_info_def Let_def)
    with False o1 a show ?thesis using others_remove [of "objects s" h] by (simp add: at_def)
  next
    case True
    define info3 where "info3 = (let info = (if Filename info = None then info\<lparr> Filename := strdup (pack s1) none_name \<rparr> else info);
        info = (if flags ob AND PTPOBJECT_PARENTOBJECT_LOADED \<noteq> 0 then info\<lparr> ParentObject := ParentObject (oi ob) \<rparr> else info)
      in (if ParentObject info = h then info\<lparr> ParentObject := 0 \<rparr> else info))"
    let ?ob = "objects s1 ! i" and ?s2 = "set_ob i ((objects s1 ! i)\<lparr> oi := info3 \<rparr>) s1"
    have t1: "the_ob i s1 = Some ?ob" "oid ?ob = h" using a1 by (auto simp: at_def the_ob_def)
    have a2: "at i h ?s2" "others h (objects s) (objects ?s2)"
      using set_ob_at [OF a1, of "?ob\<lparr> oi := info3 \<rparr>"] t1 o1 by simp_all
    have "do { s \<leftarrow> load_canon_flags T ?s2 h i; ob \<leftarrow> the_ob i s; Some (PTP_RC_OK, set_ob i (ob\<lparr> flags := flags ob OR info_flags \<rparr>) s) } = Some (ret, s')"
      using assms(1) True unfolding load_info_def info3_def Let_def ob(1) g t1(1) bind.bind_lunit prod.case by (simp only: not_True_eq_False if_False t1(1) bind.bind_lunit simp_thms)
    then obtain s3 where s3: "load_canon_flags T ?s2 h i = Some s3"
      and r: "(do { ob \<leftarrow> the_ob i s3; Some (PTP_RC_OK, set_ob i (ob\<lparr> flags := flags ob OR info_flags \<rparr>) s3) }) = Some (ret, s')"
      by (cases "load_canon_flags T ?s2 h i") simp_all
    from load_canon_flags_at [OF s3 a2(1)] have a3: "at i h s3" "others h (objects ?s2) (objects s3)" by simp_all
    let ?o3 = "objects s3 ! i"
    have t3: "the_ob i s3 = Some ?o3" "oid ?o3 = h" using a3(1) by (auto simp: at_def the_ob_def)
    have e: "ret = PTP_RC_OK" "s' = set_ob i (?o3\<lparr> flags := flags ?o3 OR info_flags \<rparr>) s3" using r t3 by simp_all
    have "at i h s'" "others h (objects s3) (objects s')" "objects s' ! i = ?o3\<lparr> flags := flags ?o3 OR info_flags \<rparr>"
      using set_ob_at [OF a3(1), of "?o3\<lparr> flags := flags ?o3 OR info_flags \<rparr>"] t3(2) e(2) by simp_all
    then show ?thesis using a2(2) a3(2) by (auto intro: others_trans simp: bit_eq_iff bit_simps)
  qed
qed

lemma load_props_at:
  assumes "load_props T H s h want i = Some (want', s')" and a: "at i h s"
  shows "at i h s' \<and> others h (objects s) (objects s') \<and> (want' = want \<or> want' = want AND NOT PTPOBJECT_MTPPROPLIST_LOADED)"
proof (cases "device_flags s AND DEVICE_FLAG_BROKEN_MTPGETOBJPROPLIST \<noteq> 0 \<or> ptp_operation_issupported s PTP_OC_MTP_GetObjPropList = Some False")
  case True
  with assms(1) have "want' = want AND NOT PTPOBJECT_MTPPROPLIST_LOADED" "s' = s" by (auto simp: load_props_def Let_def split: if_splits)
  with a others_refl [OF a] show ?thesis by simp
next
  case False
  let ?g = "ptp_mtp_getobjectproplist_single T H s h None 0"
  from False assms(1) have sup: "ptp_operation_issupported s PTP_OC_MTP_GetObjPropList = Some True"
    by (cases "ptp_operation_issupported s PTP_OC_MTP_GetObjPropList") (auto simp: load_props_def Let_def)
  have r: "do { (ret, props, n, s) \<leftarrow> ?g;
         if ret \<noteq> PTP_RC_OK then Some (want, s)
         else do {
           let ps = (case props of None \<Rightarrow> [] | Some ps \<Rightarrow> ps);
           ob \<leftarrow> the_ob i s;
           info \<leftarrow> (if device_flags s AND DEVICE_FLAG_PROPLIST_OVERRIDES_OI \<noteq> 0 then override_all (pack s) H h ps (oi ob)
                  else Some (oi ob));
           Some (want, set_ob i (ob\<lparr> mtpprops := ps, oi := info, flags := flags ob OR PTPOBJECT_MTPPROPLIST_LOADED \<rparr>) s) } } = Some (want', s')"
    using assms(1) False sup by (simp add: load_props_def Let_def)
  then obtain ret props n s1 where g: "?g = Some (ret, props, n, s1)" by (cases ?g) auto
  have o1: "objects s1 = objects s" by (rule kept_eqD(4) [OF kept_getobjectproplist [OF g]])
  with a have a1: "at i h s1" using at_kept [OF o1] by simp
  have t1: "the_ob i s1 = Some (objects s1 ! i)" "oid (objects s1 ! i) = h" using the_ob_at [OF a1] a1 by (simp_all add: at_def)
  let ?ps = "case props of None \<Rightarrow> [] | Some ps \<Rightarrow> ps"
  let ?i = "if device_flags s1 AND DEVICE_FLAG_PROPLIST_OVERRIDES_OI \<noteq> 0 then override_all (pack s1) H h ?ps (oi (objects s1 ! i))
                  else Some (oi (objects s1 ! i))"
  have "want' = want \<and> (s' = s1 \<or> (\<exists>info. s' = set_ob i ((objects s1 ! i)\<lparr> mtpprops := ?ps, oi := info,
      flags := flags (objects s1 ! i) OR PTPOBJECT_MTPPROPLIST_LOADED \<rparr>) s1))"
  proof (cases "ret = PTP_RC_OK")
    case True
    with r have "do { info \<leftarrow> ?i; Some (want, set_ob i ((objects s1 ! i)\<lparr> mtpprops := ?ps, oi := info,
        flags := flags (objects s1 ! i) OR PTPOBJECT_MTPPROPLIST_LOADED \<rparr>) s1) } = Some (want', s')"
      unfolding g bind.bind_lunit prod.case Let_def t1(1) by simp
    then show ?thesis by (cases ?i) auto
  next
    case False
    with r show ?thesis unfolding g bind.bind_lunit prod.case by simp
  qed
  then show ?thesis using set_ob_at [OF a1] t1(2) o1 a1 others_refl [OF a] by auto
qed

lemma want_mask: "f AND (w AND NOT m) = w AND NOT m \<or> f AND w = (w :: 32 word) \<Longrightarrow> f AND (w AND NOT m) = w AND NOT m"
  by (auto simp: bit_eq_iff bit_simps)

lemma object_want_others:
  assumes w: "ptp_object_want T H s h want = Some (ret, r, s')" and srt: "sorted_cache (objects s)"
  shows "others h (objects s) (objects s') \<and> (ret = PTP_RC_OK \<longrightarrow> (\<exists>i. r = Some i \<and> at i h s' \<and>
    flags (objects s' ! i) AND (want AND NOT PTPOBJECT_MTPPROPLIST_LOADED) = want AND NOT PTPOBJECT_MTPPROPLIST_LOADED))"
proof (cases "h = 0")
  case True
  with w srt show ?thesis by (auto simp: ptp_object_want_def Let_def others_def PTP_RC_OK_def PTP_RC_GeneralError_def)
next
  case False
  let ?m = "PTPOBJECT_MTPPROPLIST_LOADED"
  define wt where "wt = (if device_flags s AND DEVICE_FLAG_PROPLIST_OVERRIDES_OI \<noteq> 0 then want OR ?m else want)"
  have wm: "wt AND NOT ?m = want AND NOT ?m" by (auto simp: wt_def bit_eq_iff bit_simps)
  obtain obs found where f: "ptp_object_find_or_insert (pack s) (objects s) h = Some (obs, found)"
    using w False by (cases "ptp_object_find_or_insert (pack s) (objects s) h") (auto simp: ptp_object_want_def Let_def)
  note fo = find_or_insert_any [OF srt f]
  let ?s0 = "s\<lparr> objects := obs \<rparr>"
  show ?thesis
  proof (cases found)
    case None
    with w f False fo show ?thesis by (auto simp: ptp_object_want_def Let_def PTP_RC_OK_def PTP_RC_GeneralError_def)
  next
    case (Some i)
    with fo have a0: "at i h ?s0" and o0: "others h (objects s) (objects ?s0)" by (simp_all add: at_def others_def)
    have t0: "the_ob i ?s0 = Some (obs ! i)" using the_ob_at [OF a0] by simp
    let ?cont = "\<lambda>s1. do { ob \<leftarrow> the_ob i s1;
               (w, s) \<leftarrow> (if wt AND ?m \<noteq> 0 \<and> flags ob AND ?m = 0 then load_props T H s1 h wt i else Some (wt, s1));
               ob \<leftarrow> the_ob i s;
               Some (if flags ob AND w = w then PTP_RC_OK else PTP_RC_GeneralError, Some i, s) }"
    let ?li = "if wt AND info_flags \<noteq> 0 \<and> flags (obs ! i) AND info_flags \<noteq> info_flags then load_info T H ?s0 h i else Some (PTP_RC_OK, ?s0)"
    have w1: "(if flags (obs ! i) AND wt = wt then Some (PTP_RC_OK, Some i, ?s0)
        else do { (ret, s1) \<leftarrow> ?li; if ret \<noteq> PTP_RC_OK then Some (ret, Some i, s1) else ?cont s1 }) = Some (ret, r, s')"
      using w False unfolding ptp_object_want_def Let_def wt_def [symmetric] f bind.bind_lunit prod.case Some option.case t0 by simp
    have goal: ?thesis if "r = Some i" "at i h s'" "others h (objects ?s0) (objects s')"
      "ret = PTP_RC_OK \<Longrightarrow> flags (objects s' ! i) AND v = v" "v = wt \<or> v = wt AND NOT ?m" for v
    proof -
      have "flags (objects s' ! i) AND (wt AND NOT ?m) = wt AND NOT ?m" if "ret = PTP_RC_OK"
        by (rule want_mask) (use \<open>v = wt \<or> v = wt AND NOT ?m\<close> \<open>ret = PTP_RC_OK \<Longrightarrow> flags (objects s' ! i) AND v = v\<close> that in auto)
      then show ?thesis using that(1-3) others_trans [OF o0] by (simp add: wm)
    qed
    show ?thesis
    proof (cases "flags (obs ! i) AND wt = wt")
      case True
      with w1 have "r = Some i" "s' = ?s0" by auto
      then show ?thesis using a0 True others_refl [OF a0] by (intro goal [of wt]) simp_all
    next
      case False
      with w1 obtain ret1 s1 where li: "?li = Some (ret1, s1)" by (cases ?li) auto
      have l: "others h (objects ?s0) (objects s1)" "ret1 = PTP_RC_OK \<Longrightarrow> at i h s1"
        using li load_info_at [of H ?s0 h i ret1 s1] a0 others_refl [OF a0] by (auto split: if_splits)
      from w1 False have w2: "(if ret1 \<noteq> PTP_RC_OK then Some (ret1, Some i, s1) else ?cont s1) = Some (ret, r, s')"
        unfolding if_not_P [OF False] li bind.bind_lunit prod.case by simp
      show ?thesis
      proof (cases "ret1 = PTP_RC_OK")
        case False
        with w2 l others_trans [OF o0] show ?thesis by auto
      next
        case True
        have a1: "at i h s1" by (rule l(2) [OF True])
        let ?ob = "objects s1 ! i"
        let ?lp = "if wt AND ?m \<noteq> 0 \<and> flags ?ob AND ?m = 0 then load_props T H s1 h wt i else Some (wt, s1)"
        have t1: "the_ob i s1 = Some ?ob" using the_ob_at [OF a1] by simp
        from w2 True have w3: "do { (w, s) \<leftarrow> ?lp; ob \<leftarrow> the_ob i s;
            Some (if flags ob AND w = w then PTP_RC_OK else PTP_RC_GeneralError, Some i, s) } = Some (ret, r, s')"
          unfolding t1 bind.bind_lunit by simp
        then obtain v s2 where lp: "?lp = Some (v, s2)" by (cases ?lp) auto
        have p: "at i h s2 \<and> others h (objects s1) (objects s2) \<and> (v = wt \<or> v = wt AND NOT ?m)"
          using lp load_props_at [of H s1 h wt i v s2] a1 others_refl [OF a1] by (auto split: if_splits)
        have t2: "the_ob i s2 = Some (objects s2 ! i)" using the_ob_at [of i h s2] p by simp
        from w3 have "(if flags (objects s2 ! i) AND v = v then PTP_RC_OK else PTP_RC_GeneralError, Some i, s2) = (ret, r, s')"
          unfolding lp bind.bind_lunit prod.case t2 by (rule option.inject [THEN iffD1])
        then have e: "s2 = s'" "Some i = r" "(if flags (objects s2 ! i) AND v = v then PTP_RC_OK else PTP_RC_GeneralError) = ret"
          by (rule prod.inject [THEN iffD1, THEN conjunct2, THEN prod.inject [THEN iffD1, THEN conjunct2]],
            rule prod.inject [THEN iffD1, THEN conjunct2, THEN prod.inject [THEN iffD1, THEN conjunct1]], rule prod.inject [THEN iffD1, THEN conjunct1])
        have ok: "flags (objects s' ! i) AND v = v" if "ret = PTP_RC_OK"
          by (rule ccontr) (use e that in \<open>simp add: PTP_RC_OK_def PTP_RC_GeneralError_def\<close>)
        show ?thesis by (rule goal [of v]) (use p e ok others_trans [OF l(1)] in auto)
      qed
    qed
  qed
qed

end

text \<open>C40: Over USB and whatever the device answers, \<open>ptp_object_want\<close> on a sorted cache keeps it sorted and leaves every other object as it was; when it reports success the object is at
  the returned index with everything that was wanted loaded but the property list (\<open>PTPOBJECT_MTPPROPLIST_LOADED\<close>), which the code no longer wants where the device cannot send it, and
  without which it reports success.
\<close>
theorem object_want_keeps_others:
  assumes "ptp_object_want (usb_transport F D) H s h want = Some (ret, r, s')" and "sorted_cache (objects s)"
  shows "sorted_cache (objects s') \<and> (\<forall>k. k \<noteq> h \<longrightarrow> cache_abs (objects s') k = cache_abs (objects s) k) \<and>
    (ret = PTP_RC_OK \<longrightarrow> (\<exists>i. r = Some i \<and> i < length (objects s') \<and> oid (objects s' ! i) = h \<and>
      flags (objects s' ! i) AND (want AND NOT PTPOBJECT_MTPPROPLIST_LOADED) = want AND NOT PTPOBJECT_MTPPROPLIST_LOADED))"
  using usb.object_want_others [OF assms] unfolding others_def at_def by blast

text \<open>An object whose description is loaded is found without asking the device: the result is its index, and nothing changes.\<close>
lemma object_want_cached:
  assumes "sorted_cache (objects s)" and "cache_abs (objects s) h = Some ob" and "flags ob AND want = want" and "h \<noteq> 0"
    and "device_flags s AND DEVICE_FLAG_PROPLIST_OVERRIDES_OI = 0" and "\<forall>n. can_alloc (pack s) n"
  shows "\<exists>i. ptp_object_want T H s h want = Some (PTP_RC_OK, Some i, s) \<and> i < length (objects s) \<and> objects s ! i = ob"
proof -
  have "h \<in> oid ` set (objects s)" using assms(2) by (metis cache_abs_dom domI)
  with find_or_insert_found [OF assms(1,4,6)] obtain i where
    f: "ptp_object_find_or_insert (pack s) (objects s) h = Some (objects s, Some i)" "i < length (objects s)" "oid (objects s ! i) = h" by auto
  have ob: "objects s ! i = ob" using cache_abs_nth [OF assms(1) f(2)] assms(2) f(3) by simp
  then show ?thesis using f assms(3-5) by (intro exI [of _ i]) (simp add: ptp_object_want_def Let_def the_ob_def)
qed

end
