(* ===== verification/Ptp_Folder_Props.thy ===== *)
theory Ptp_Folder_Props
  imports Ptp_Folder Ptp_Queue_Props
begin

text \<open>
  The cache of objects through everything that changes it: searching and completing (ptp.c), removing, and listing folders (library.c), which
  appends and sorts.
\<close>

section \<open>The loop over the handles\<close>

lemma oid_added [simp]: "oid (added_object storage handle h) = h"
  by (simp add: added_object_def with_parent_def with_storage_def new_object_def Let_def)

lemma oid_seen [simp]: "oid (seen_object storage handle ob) = oid ob"
  by (simp add: seen_object_def with_parent_def with_storage_def Let_def)

text \<open>The search round the array reaches every element, wherever it starts.\<close>

lemma find_from_found: "find_from obs l h = Some i \<Longrightarrow> i < length obs \<and> oid (obs ! i) = h"
  by (auto simp: find_from_def find_Some_iff intro: mod_less_divisor [OF le_less_trans [OF le0]])

lemma find_from_missed:
  assumes "find_from obs l h = None"
  shows "h \<notin> oid ` set obs"
proof
  assume "h \<in> oid ` set obs"
  then obtain i where i: "i < length obs" "oid (obs ! i) = h" by (auto simp: in_set_conv_nth)
  let ?n = "length obs"
  have n: "0 < ?n" using i by linarith
  define j where "j = (i + (?n - l mod ?n)) mod ?n"
  have "l mod ?n \<le> ?n" using n by (simp add: less_imp_le)
  have "(l + j) mod ?n = (l mod ?n + (i + (?n - l mod ?n))) mod ?n" unfolding j_def by (simp add: mod_simps)
  also have "\<dots> = (i + ?n) mod ?n" using \<open>l mod ?n \<le> ?n\<close> by (metis add.commute add.left_commute le_add_diff_inverse)
  also have "\<dots> = i" using i by simp
  finally have "oid (obs ! ((l + j) mod ?n)) = h" using i by simp
  moreover have "j < ?n" using n by (simp add: j_def)
  ultimately show False using assms by (auto simp: find_from_def find_None_iff)
qed

lemma map_oid_update: "oid ob = oid (obs ! i) \<Longrightarrow> map oid (obs[i := ob]) = map oid obs"
  by (cases "i < length obs") (simp_all add: map_update list_update_same_conv, simp flip: map_update)

text \<open>The loop adds exactly the handles that were missing, each once, behind the others.\<close>

lemma list_handles_adds:
  assumes "list_handles P storage handle hs l c obs = (ret, c', obs')" and "\<forall>n. can_alloc P n" and "distinct (map oid obs)"
  shows "ret = PTP_RC_OK \<and> distinct (map oid obs') \<and> oid ` set obs' = oid ` set obs \<union> set hs \<and> (c \<longrightarrow> c') \<and> (c' \<or> map oid obs' = map oid obs)"
  using assms
proof (induction hs arbitrary: l c obs)
  case Nil
  then show ?case by simp
next
  case (Cons h hs)
  show ?case
  proof (cases "find_from obs l h")
    case None
    then have n: "h \<notin> oid ` set obs" by (rule find_from_missed)
    with Cons.prems None have "list_handles P storage handle hs l True (obs @ [added_object storage handle h]) = (ret, c', obs')" by simp
    from Cons.IH [OF this Cons.prems(2)] Cons.prems(3) n show ?thesis by auto
  next
    case (Some i)
    note i = find_from_found [OF Some]
    let ?o = "obs[i := seen_object storage handle (obs ! i)]"
    have m: "map oid ?o = map oid obs" by (simp add: map_oid_update)
    then have s: "oid ` set ?o = oid ` set obs" by (metis set_map)
    have h: "h \<in> oid ` set obs" using i by (metis image_eqI nth_mem)
    from Some Cons.prems have "list_handles P storage handle hs i c ?o = (ret, c', obs')" by simp
    from Cons.IH [OF this Cons.prems(2)] Cons.prems(3) m s h show ?thesis by (auto simp: insert_absorb)
  qed
qed

section \<open>Sorting\<close>

text \<open>What \<open>qsort\<close> does for this comparison, where it orders the elements.\<close>

definition sorts_objects :: "ob_sort \<Rightarrow> bool" where
  "sorts_objects qs \<longleftrightarrow> (\<forall>obs. orders (\<lambda>a b. cmp_ob (oid a) (oid b)) (set obs) \<longrightarrow>
     mset (ptp_objects_sort qs obs) = mset obs \<and> sorted_wrt (\<lambda>a b. cmp_ob (oid a) (oid b) \<le> 0) (ptp_objects_sort qs obs))"

lemma cmp_ob_small: "uint a < 2 ^ 31 \<Longrightarrow> uint b < 2 ^ 31 \<Longrightarrow> cmp_ob a b = uint a - uint b"
  by (rule cmp_ob_near) (use uint_ge_0 [of a] uint_ge_0 [of b] in linarith)

lemma sorted_by_objects_sort:
  assumes qs: "sorts_objects qs" and h: "\<forall>ob\<in>set obs. uint (oid ob) < 2 ^ 31" and d: "distinct (map oid obs)"
  shows "sorted_cache (ptp_objects_sort qs obs) \<and> oid ` set (ptp_objects_sort qs obs) = oid ` set obs"
proof -
  let ?s = "ptp_objects_sort qs obs"
  have "orders (\<lambda>a b. cmp_ob (oid a) (oid b)) (set obs)"
    using h by (simp add: orders_def cmp_ob_small)
  then have m: "mset ?s = mset obs" and s: "sorted_wrt (\<lambda>a b. cmp_ob (oid a) (oid b) \<le> 0) ?s"
    using qs by (simp_all add: sorts_objects_def)
  from m have st: "set ?s = set obs" by (metis set_mset_mset)
  have "sorted_wrt (\<lambda>a b. oid a \<le> oid b) ?s"
    by (rule sorted_wrt_mono_rel [OF _ s]) (use h st in \<open>simp add: cmp_ob_small word_le_def\<close>)
  then have "sorted (map oid ?s)" by (simp add: sorted_map)
  moreover have "mset (map oid ?s) = mset (map oid obs)" using m by simp
  then have "distinct (map oid ?s)" using d by (metis mset_eq_imp_distinct_iff)
  ultimately have "sorted_cache ?s" by (simp add: sorted_cache_oids strict_sorted_iff)
  with st show ?thesis by simp
qed

section \<open>Listing a folder\<close>

definition cache_ok :: "PTPObject list \<Rightarrow> bool" where
  "cache_ok obs \<longleftrightarrow> sorted_cache obs \<and> 0 \<notin> oid ` set obs"

lemma cache_ok_update:
  assumes "cache_ok obs" and "oid ob = oid (obs ! i)"
  shows "cache_ok (obs[i := ob])"
proof -
  have "map oid (obs[i := ob]) = map oid obs" by (rule map_oid_update [OF assms(2)])
  then have "oid ` set (obs[i := ob]) = oid ` set obs" by (metis set_map)
  with assms show ?thesis by (simp add: cache_ok_def sorted_cache_update)
qed

lemma cache_ok_directory:
  assumes "set_directory_loaded r s = Some s'" and "cache_ok (objects s)"
  shows "cache_ok (objects s')"
  using assms by (auto simp: set_directory_loaded_def the_ob_def set_ob_def intro!: cache_ok_update split: bind_splits if_splits)

text \<open>
  A listing keeps the order where the device does not list with the fast command of Canon's EOS, which returns without sorting when a later storage fails, its handles
  are not 0 and below \<open>2 ^ 31\<close>, and memory does not run out in the middle.
\<close>

definition orderly_listing :: "'w transport \<Rightarrow> host \<Rightarrow> ob_sort \<Rightarrow> 'w ptp \<Rightarrow> 32 word \<Rightarrow> 32 word \<Rightarrow> bool" where
  "orderly_listing T H qs s storage h \<longleftrightarrow> fast_listing s = Some False \<and>
     (\<forall>ret c s1. collect_folder T H qs s storage h = Some (ret, c, s1) \<longrightarrow>
       (\<forall>n. can_alloc (pack s1) n) \<and> (\<forall>ob\<in>set (objects s1). oid ob \<noteq> 0 \<and> uint (oid ob) < 2 ^ 31))"

context quiet_transport begin

lemma want_cache_ok:
  assumes w: "ptp_object_want T H s h want = Some (ret, r, s')" and c: "cache_ok (objects s)"
  shows "cache_ok (objects s')"
proof (cases "h = 0")
  case True
  with w c show ?thesis by (auto simp: ptp_object_want_def Let_def)
next
  case False
  from c have "sorted_cache (objects s)" "0 \<notin> dom (cache_abs (objects s))" by (simp_all add: cache_ok_def)
  moreover from object_want_others [OF w this(1)] False
  have "sorted_cache (objects s')" "cache_abs (objects s') 0 = cache_abs (objects s) 0" by (simp_all add: others_def)
  ultimately show ?thesis unfolding cache_ok_def by (metis cache_abs_dom domIff)
qed

lemma enter_folder_cache_ok:
  assumes "enter_folder T H s handle = Some (r, s')" and "cache_ok (objects s)"
  shows "cache_ok (objects s')"
  using assms unfolding enter_folder_def
  by (auto split: bind_splits if_splits dest!: want_cache_ok intro: cache_ok_directory)

lemma kept_getobjecthandles: "ptp_getobjecthandles T s storage fmt parent oh = Some (ret, oh', s') \<Longrightarrow> kept s' = kept s"
  by (auto simp: ptp_getobjecthandles_def dest!: kept_ops split: bind_splits if_splits)

lemma folder_handles_objects:
  assumes "folder_handles T s storage handle = Some (ret, hs, storage', handle', s')"
  shows "objects s' = objects s"
proof -
  have "kept s' = kept s" using assms unfolding folder_handles_def Let_def
    by (auto split: bind_splits if_splits dest!: kept_getobjecthandles)
  then show ?thesis by (rule kept_eqD(4))
qed

text \<open>Then it leaves a sorted cache behind, whatever it returns.\<close>

lemma list_folder_cache_ok:
  assumes l: "ptp_list_folder T H qs s storage handle = Some (ret, s')" and c: "cache_ok (objects s)"
    and o: "orderly_listing T H qs s storage handle" and qs: "sorts_objects qs"
  shows "cache_ok (objects s')"
proof -
  from o have f: "fast_listing s = Some False"
    and small: "\<And>ret c s1. collect_folder T H qs s storage handle = Some (ret, c, s1) \<Longrightarrow>
      (\<forall>n. can_alloc (pack s1) n) \<and> (\<forall>ob\<in>set (objects s1). oid ob \<noteq> 0 \<and> uint (oid ob) < 2 ^ 31)"
    unfolding orderly_listing_def by auto
  from l obtain ch s1 where g: "collect_folder T H qs s storage handle = Some (ret, ch, s1)" and s': "s' = sort_if qs ch s1"
    by (auto simp: ptp_list_folder_def split: bind_splits)
  have "if ch then distinct (map oid (objects s1)) else cache_ok (objects s1)"
  proof (cases "handle = 0 \<and> objects s \<noteq> []")
    case True
    with g c show ?thesis by (auto simp: collect_folder_def)
  next
    case False
    let ?h = "if handle = PTP_HANDLER_SPECIAL then 0 else handle"
    let ?e = "if ?h \<noteq> 0 then enter_folder T H s ?h else Some (None, s)"
    have ne: "PTP_RC_GeneralError \<noteq> PTP_RC_OK" by (simp add: PTP_RC_OK_def PTP_RC_GeneralError_def)
    let ?rest = "\<lambda>stop s. (case stop of
              Some ret \<Rightarrow> Some (ret, False, s)
            | None \<Rightarrow> do {
                (ret, handles, storage, handle, s) \<leftarrow> folder_handles T s storage ?h;
                if ret \<noteq> PTP_RC_OK then Some (ret, False, s)
                else do {
                  hs \<leftarrow> elements (oh_n handles) (Handler handles);
                  let (ret, changed, obs) = list_handles (pack s) storage handle hs 0 False (objects s);
                  Some (ret, changed \<and> ret = PTP_RC_OK, s\<lparr> objects := obs \<rparr>) } })"
    have "do { (stop, s) \<leftarrow> ?e; ?rest stop s } = Some (ret, ch, s1)"
      using g ne f unfolding collect_folder_def if_not_P [OF False] Let_def by simp
    then obtain stop s2 where e: "?e = Some (stop, s2)" and r: "?rest stop s2 = Some (ret, ch, s1)"
      by (cases ?e) auto
    have c2: "cache_ok (objects s2)" using e c enter_folder_cache_ok by (auto split: if_splits)
    show ?thesis
    proof (cases stop)
      case (Some q)
      with r c2 show ?thesis by simp
    next
      case None
      from r None obtain q hs st h s3 where fh: "folder_handles T s2 storage ?h = Some (q, hs, st, h, s3)"
        by (cases "folder_handles T s2 storage ?h") auto
      have o3: "objects s3 = objects s2" by (rule folder_handles_objects [OF fh])
      show ?thesis
      proof (cases "q = PTP_RC_OK")
        case False
        with r None fh o3 c2 show ?thesis by auto
      next
        case True
        from r None fh True obtain xs where xs: "elements (oh_n hs) (Handler hs) = Some xs"
          by (cases "elements (oh_n hs) (Handler hs)") auto
        obtain q2 c2' obs where lh: "list_handles (pack s3) st h xs 0 False (objects s3) = (q2, c2', obs)"
          by (cases "list_handles (pack s3) st h xs 0 False (objects s3)") auto
        from r None fh True xs lh have s1: "s1 = s3\<lparr> objects := obs \<rparr>" "ch = (c2' \<and> q2 = PTP_RC_OK)" by auto
        have "\<forall>n. can_alloc (pack s3) n" using small [OF g] s1 by simp
        moreover have d: "distinct (map oid (objects s3))" using c2 o3 sorted_cache_distinct by (simp add: cache_ok_def)
        ultimately have a: "q2 = PTP_RC_OK" "distinct (map oid obs)" "oid ` set obs = oid ` set (objects s3) \<union> set xs"
          "c2' \<or> map oid obs = map oid (objects s3)" using list_handles_adds [OF lh] by auto
        have "sorted_cache obs" if "\<not> c2'"
          using that a(4) c2 o3 unfolding cache_ok_def sorted_cache_oids by simp
        moreover have "0 \<notin> oid ` set obs" using small [OF g] s1 by auto
        ultimately show ?thesis using s1 a by (auto simp: cache_ok_def)
      qed
    qed
  qed
  moreover have "0 \<notin> oid ` set (objects s1)" "\<forall>ob\<in>set (objects s1). uint (oid ob) < 2 ^ 31" using small [OF g] by auto
  ultimately show ?thesis using sorted_by_objects_sort [OF qs, of "objects s1"]
    by (auto simp: s' sort_if_def cache_ok_def split: if_splits)
qed

end

section \<open>The life of the cache\<close>

text \<open>
  Every array that a connection can build, whatever the device answers and whatever allocations fail: objects are searched, completed and removed, their descriptions
  change, folders are listed in the orderly way, and other operations leave the array alone.
\<close>

inductive cache_reach :: "'w transport \<Rightarrow> host \<Rightarrow> ob_sort \<Rightarrow> 'w ptp \<Rightarrow> bool" for T H qs where
  start: "objects s = [] \<Longrightarrow> cache_reach T H qs s"
| want: "cache_reach T H qs s \<Longrightarrow> ptp_object_want T H s h want = Some (ret, r, s') \<Longrightarrow> cache_reach T H qs s'"
| insert: "cache_reach T H qs s \<Longrightarrow> ptp_object_find_or_insert (pack s) (objects s) h = Some (obs, r) \<Longrightarrow> cache_reach T H qs (s\<lparr> objects := obs \<rparr>)"
| folder: "cache_reach T H qs s \<Longrightarrow> ptp_list_folder T H qs s storage h = Some (ret, s') \<Longrightarrow> orderly_listing T H qs s storage h \<Longrightarrow>
    cache_reach T H qs s'"
| update: "cache_reach T H qs s \<Longrightarrow> i < length (objects s) \<Longrightarrow> oid ob = oid (objects s ! i) \<Longrightarrow> cache_reach T H qs (set_ob i ob s)"
| remove: "cache_reach T H qs s \<Longrightarrow> cache_reach T H qs (s\<lparr> objects := ptp_remove_object_from_cache (objects s) h \<rparr>)"
| other: "cache_reach T H qs s \<Longrightarrow> objects s' = objects s \<Longrightarrow> cache_reach T H qs s'"

lemma cache_ok_remove:
  assumes "cache_ok obs"
  shows "cache_ok (ptp_remove_object_from_cache obs h)"
proof -
  have "set (take i obs @ drop (i + 1) obs) \<subseteq> set obs" for i by (auto dest: in_set_takeD in_set_dropD)
  with assms have "cache_ok (take i obs @ drop (i + 1) obs)" for i
    using sorted_cache_drop_one [of obs i] unfolding cache_ok_def by blast
  then show ?thesis using remove_cases [of obs h] assms by metis
qed

text \<open>C24: The cache of objects stays sorted by handle, without duplicates and without the handle 0, over USB, whatever the device answers and in whatever order objects are
  searched, completed, changed and removed (functions of ptp.c) and folders listed (\<open>ptp_list_folder\<close> of library.c, which appends the handles of the device as they
  come and sorts afterwards with a signed comparison) -- as long as at each listing memory suffices, the handles are not 0 and below
  \<open>2 ^ 31\<close>, and the device is not listed with the fast command of Canon's EOS.\<close>
theorem cache_reach_sorted:
  assumes "cache_reach (usb_transport F D) H qs s" and "sorts_objects qs"
  shows "sorted_cache (objects s) \<and> distinct (map oid (objects s)) \<and> 0 \<notin> oid ` set (objects s)"
proof -
  from assms have "cache_ok (objects s)"
  proof (induction rule: cache_reach.induct)
    case (start s)
    then show ?case by (simp add: cache_ok_def sorted_cache_def)
  next
    case (want s h want ret r s')
    then show ?case by (blast intro: usb.want_cache_ok)
  next
    case (insert s h obs r)
    then show ?case using find_or_insert_sorted [of "objects s" "pack s" h obs r] by (simp add: cache_ok_def)
  next
    case (folder s storage h ret s')
    then show ?case by (intro usb.list_folder_cache_ok [OF folder(2)]) auto
  next
    case (update s i ob)
    then show ?case using cache_ok_update by (simp add: set_ob_def)
  next
    case (remove s h)
    then show ?case using cache_ok_remove by simp
  qed simp
  then show ?thesis using sorted_cache_distinct by (auto simp: cache_ok_def)
qed

text \<open>With handles more than \<open>2 ^ 31\<close> apart the sorting puts the larger one first, and looking for the other adds it a second time.\<close>

lemma far_handles_duplicate:
  assumes far: "uint (oid y) - uint (oid x) > 2 ^ 31" and x: "oid x \<noteq> 0" and qs: "sorts_objects qs" and mem: "\<forall>n. can_alloc P n"
  shows "ptp_objects_sort qs [x, y] = [y, x] \<and> ptp_object_find_or_insert P [y, x] (oid x) = Some ([new_object (oid x), y, x], Some 0)"
proof -
  let ?c = "\<lambda>a b. cmp_ob (oid a) (oid b)"
  let ?k = "uint (oid x) - uint (oid y) + 4294967296"
  have k: "0 < ?k" "?k < 2147483648"
    using far uint_bounded [of "oid y"] by (simp_all, insert uint_ge_0 [of "oid x"], linarith)
  have w: "word_of_int ?k = oid x - oid y" by simp
  have "signed_take_bit 31 ?k = ?k" using k by (intro signed_take_bit_int_eq_self) simp_all
  then have "sint (word_of_int ?k :: 32 word) = ?k" unfolding sint_sbintrunc' by simp
  then have c: "?c x y = ?k" unfolding w cmp_ob_def by linarith
  have w2: "word_of_int (- ?k) = oid y - oid x" by simp
  have "signed_take_bit 31 (- ?k) = - ?k" using k by (intro signed_take_bit_int_eq_self) simp_all
  then have "sint (word_of_int (- ?k) :: 32 word) = - ?k" unfolding sint_sbintrunc' by simp
  then have c2: "?c y x = - ?k" unfolding w2 cmp_ob_def by linarith
  have z: "?c a a = 0" for a by (simp add: cmp_ob_def)
  have ne: "oid x < oid y" using far by (simp add: word_less_def)
  have "orders ?c (set [x, y])" using c c2 z k by (auto simp: orders_def)
  then have m: "mset (ptp_objects_sort qs [x, y]) = {#x, y#}" and s: "sorted_wrt (\<lambda>a b. ?c a b \<le> 0) (ptp_objects_sort qs [x, y])"
    using qs by (simp_all add: sorts_objects_def)
  from m have "length (ptp_objects_sort qs [x, y]) = 2" by (metis size_mset size_add_mset size_single numeral_2_eq_2 One_nat_def)
  then obtain a b where ab: "ptp_objects_sort qs [x, y] = [a, b]" by (auto simp: numeral_2_eq_2 length_Suc_conv)
  with m have "a = x \<and> b = y \<or> a = y \<and> b = x" by (auto simp: add_eq_conv_ex)
  moreover have "\<not> (a = x \<and> b = y)" using s c k ab by auto
  ultimately have "ptp_objects_sort qs [x, y] = [y, x]" using ab by blast
  moreover have "search_loop [y, x] (oid x) 0 1 = Inr (0, 0)"
    using ne by (subst search_loop.simps) (auto simp: not_less)
  then have "ptp_object_find_or_insert P [y, x] (oid x) = Some ([new_object (oid x), y, x], Some 0)"
    using ne x mem by (auto simp: ptp_object_find_or_insert_def insert_position_def)
  ultimately show ?thesis by blast
qed

end
