(* ===== verification/Ptp_Demo.thy ===== *)
theory Ptp_Demo
  imports Ptp_Folder_Props
begin

text \<open>
  A camera on a desk: a concrete port, a concrete transport and a concrete connection, on which the properties of transactions, of
  the USB transport and of the queue are applied.
\<close>

section \<open>The port and the connection\<close>

text \<open>
  The environment holds the bytes that the device still sends and those that the host has written. The device sends a container that starts
  with its length, of less than 256 bytes, as one packet.
\<close>

type_synonym desk = "octet list \<times> octet list"

definition demo_port :: "desk port" where
  "demo_port = \<lparr> port_write = \<lambda>bs (i, out). (Inr (length bs), (i, out @ bs)),
     port_read = \<lambda>n (i, out). let k = (if i = [] then 0 else min n (max 1 (unat (hd i)))) in (Inr (take k i), (drop k i, out)),
     port_check_int = \<lambda>n w. (Inl IO_TIMEOUT, w), port_clear_halt = \<lambda>w. w, port_get_timeout = \<lambda>w. (0, w),
     port_set_timeout = \<lambda>t w. w, port_msg_class_read = \<lambda>r n w. (Inl IO_TIMEOUT, w), port_msg_class_write = \<lambda>r bs w. (Inr (), w),
     context_cancel = \<lambda>w. (False, w) \<rparr>"

lemma demo_port_simps [simp]:
  "port_write demo_port bs (i, out) = (Inr (length bs), (i, out @ bs))"
  "port_read demo_port n (i, out) = (let k = (if i = [] then 0 else min n (max 1 (unat (hd i)))) in (Inr (take k i), (drop k i, out)))"
  "context_cancel demo_port w = (False, w)" "port_check_int demo_port n w = (Inl IO_TIMEOUT, w)"
  "port_get_timeout demo_port w = (0, w)" "port_set_timeout demo_port t w = w"
  by (simp_all add: demo_port_def)

lemma demo_accepts: "accepts demo_port snd"
  by (simp add: accepts_def)

lemma demo_serves: "serves demo_port fst"
  by (auto simp: serves_def Let_def)

text \<open>A port whose writes take at most 1024 bytes.\<close>

definition short_port :: "desk port" where
  "short_port = demo_port\<lparr> port_write := \<lambda>bs w. (Inr (min 1024 (length bs)), w) \<rparr>"

definition demo_info :: PTPDeviceInfo where
  "demo_info = \<lparr> StandardVersion = 100, VendorExtensionID = PTP_VENDOR_NIKON, VendorExtensionVersion = 100, VendorExtensionDesc = None, FunctionalMode = 0,
     OperationsSupported_len = 1, OperationsSupported = Some [PTP_OC_NIKON_CheckEvent], EventsSupported_len = 0, EventsSupported = None,
     DevicePropertiesSupported_len = 0, DevicePropertiesSupported = None, CaptureFormats_len = 0, CaptureFormats = None,
     ImageFormats_len = 0, ImageFormats = None, Manufacturer = None, Model = None, DeviceVersion = None, SerialNumber = None \<rparr>"

definition demo :: "'w \<Rightarrow> 'w ptp" where
  "demo w = \<lparr> pack = plain_params, device_flags = 0, maxpacketsize = 512, transaction_id = 7, session_id = 1, split_header_data = False,
     response_packet = [], objects = [], deviceinfo = demo_info, events = [], canon_props = [], canon_event_mode = 0,
     wifi_profiles_version = 0, wifi_profiles = None, cmdfd = 3, evtfd = 4, cameraguid = [], eventpipeid = 0, cameraname = None, world = w \<rparr>"

lemma demo_simps [simp]:
  "pack (demo w) = plain_params" "maxpacketsize (demo w) = 512" "transaction_id (demo w) = 7" "split_header_data (demo w) = False"
  "response_packet (demo w) = []" "world (demo w) = w" "objects (demo w) = []" "deviceinfo (demo w) = demo_info" "events (demo w) = []"
  "device_flags (demo w) = 0"
  by (simp_all add: demo_def)

lemma plain_alloc [simp]: "can_alloc plain_params n"
  by (simp add: plain_params_def)

lemma demo_ready: "ready_for_data (demo w)"
  by (simp add: ready_for_data_def)

text \<open>What the device on the desk sends: the data \<open>p\<close> for the operation \<open>code\<close>, and the response.\<close>

definition demo_data :: "16 word \<Rightarrow> octet list \<Rightarrow> octet list" where
  "demo_data code p = usb_header plain_params (of_nat (12 + length p)) PTP_USB_CONTAINER_DATA code 7 @ p"

definition demo_response :: "octet list" where
  "demo_response = response plain_params PTP_RC_OK 7 []"

lemma demo_hd:
  assumes "n < 256"
  shows "unat (hd (usb_header plain_params (of_nat n) t c i @ p)) = n"
proof -
  have "hd (le_bytes 4 (of_nat n :: 32 word)) = ucast (of_nat n :: 32 word)" using le_bytes.simps(2) [of 3 "of_nat n :: 32 word"] by simp
  moreover have "unat (ucast (of_nat n :: 32 word) :: octet) = n"
    using assms by (simp add: unsigned_ucast_eq unat_of_nat take_bit_nat_def)
  moreover have "le_bytes 4 (of_nat n :: 32 word) \<noteq> []" by (simp add: length_greater_0_conv [symmetric] del: length_greater_0_conv)
  ultimately show ?thesis by (simp add: usb_header_def htod32ap_def encode_def plain_params_def)
qed

lemma demo_nonempty [simp]: "usb_header P l t c i @ p \<noteq> []" "usb_header P l t c i \<noteq> []"
  using usb_header_length [of P l t c i] by (auto simp del: usb_header_length)

lemma demo_device:
  assumes "length p < 200"
  shows "usb_device demo_port fst (demo (demo_data code p @ demo_response, out)) (as_sent (demo (demo_data code p @ demo_response, out)) (request code ps)) p
    (response plain_params PTP_RC_OK 7 [])"
proof -
  let ?w = "(demo_data code p @ demo_response, out)"
  have c: "data_container (demo ?w) (as_sent (demo ?w) (request code ps)) p = demo_data code p"
    by (simp add: data_container_def demo_data_def)
  have k: "unat (hd (demo_data code p @ demo_response)) = 12 + length p" "demo_data code p \<noteq> []" "length (demo_data code p) = 12 + length p"
    using assms demo_hd [of "12 + length p" PTP_USB_CONTAINER_DATA code 7 "p @ demo_response"]
    by (simp_all add: demo_data_def del: of_nat_add of_nat_numeral)
  have r: "unat (hd demo_response) = 12" "length demo_response = 12"
    using demo_hd [of 12 PTP_USB_CONTAINER_RESPONSE PTP_RC_OK 7 "[]"] by (simp_all add: demo_response_def response_def)
  have rd: "port_read demo_port PTP_USB_BULK_PACKET_LEN (demo_data code p @ demo_response, o2) = (Inr (demo_data code p), (demo_response, o2))" for o2
    using k assms by (simp add: Let_def PTP_USB_BULK_PACKET_LEN_def)
  have "fst (port_read demo_port PTP_USB_BULK_PACKET_LEN w) = Inr demo_response" if "fst w = demo_response" for w
    using that r by (cases w) (auto simp: Let_def PTP_USB_BULK_PACKET_LEN_def)
  then show ?thesis using demo_serves c rd k unfolding usb_device_def demo_response_def [symmetric]
    by (simp add: demo_response_def [symmetric])
qed

definition idle :: "desk ptp" where "idle = demo ([], [])"

lemma idle_simps [simp]:
  "pack idle = plain_params" "maxpacketsize idle = 512" "split_header_data idle = False" "world idle = ([], [])"
  by (simp_all add: idle_def)

section \<open>Sending\<close>

theorem usb_senddata_sends_witness:
  "\<forall>F. \<exists>h w. ptp_usb_senddata F demo_port idle zero_container (length [1, 2, 3 :: octet]) (sending [1, 2, 3]) = Some (PTP_RC_OK, h, idle\<lparr> world := w \<rparr>) \<and>
     snd w = data_container idle zero_container [1, 2, 3]"
proof
  fix F
  show "\<exists>h w. ptp_usb_senddata F demo_port idle zero_container (length [1, 2, 3 :: octet]) (sending [1, 2, 3]) = Some (PTP_RC_OK, h, idle\<lparr> world := w \<rparr>) \<and>
     snd w = data_container idle zero_container [1, 2, 3]"
    using usb_senddata_sends [OF demo_accepts, of "idle" "[1, 2, 3]" F zero_container] by simp

qed

theorem usb_short_write_hangs_witness:
  "\<forall>F. ptp_usb_senddata F short_port idle zero_container 3000 (sending (replicate 3000 7)) = None"
proof
  fix F
  have "length (replicate 3000 (7 :: octet)) < 2 ^ 63" by simp
  then show "ptp_usb_senddata F short_port idle zero_container 3000 (sending (replicate 3000 7)) = None"
    using usb_short_write_hangs [of short_port "idle" "replicate 3000 7" F zero_container] by (simp add: short_port_def)
qed

section \<open>Receiving\<close>

theorem getobject_over_usb_witness:
  "\<forall>F. \<exists>s. ptp_getobject (usb_transport F demo_port) (demo (demo_data PTP_OC_GetObject [1, 2, 3] @ demo_response, [])) 5 None =
     Some (PTP_RC_OK, Some [1, 2, 3], s)"
proof
  fix F
  show "\<exists>s. ptp_getobject (usb_transport F demo_port) (demo (demo_data PTP_OC_GetObject [1, 2, 3] @ demo_response, [])) 5 None =
     Some (PTP_RC_OK, Some [1, 2, 3], s)"
    using getobject_over_usb [of demo_port fst "demo (demo_data PTP_OC_GetObject [1, 2, 3] @ demo_response, [])" 5 "[1, 2, 3]" "[]" F None]
      demo_device [of "[1, 2, 3]" PTP_OC_GetObject "[]" "[5]"] by (auto simp: demo_ready)
qed

lemma demo_sizes [simp]: "ocs64 plain_params = False"
  by (simp add: plain_params_def)

lemma demo_name: "Filename demo_oi = Some [65, 46, 66]"
  by (simp add: demo_oi_def)

lemma demo_packed: "\<exists>buf. ptp_pack_OI plain_params demo_oi = Some (buf, 64)"
proof -
  have u: "to_ucs2 plain_params [65, 46, 66] = Some [65, 46, 66]" by (simp add: to_ucs2_def plain_params_def PTP_MAXSTRLEN_def upto_nul_def)
  have "length [65, 46, 66 :: 16 word] < PTP_MAXSTRLEN" unfolding PTP_MAXSTRLEN_def by simp
  from pack_OI [OF demo_name u this, of 0] show ?thesis by simp
qed


section \<open>Transactions\<close>

lemma demo_reads:
  assumes "length ps \<le> 5"
  shows "port_read demo_port PTP_USB_BULK_PACKET_LEN (response plain_params rc i ps @ rest, out) = (Inr (response plain_params rc i ps), (rest, out))"
proof -
  have "unat (hd (response plain_params rc i ps @ rest)) = 12 + 4 * length ps"
    using assms demo_hd [of "12 + 4 * length ps" PTP_USB_CONTAINER_RESPONSE rc i "concat (map (htod32ap plain_params) ps) @ rest"] by (simp add: response_def)
  moreover have "length (response plain_params rc i ps) = 12 + 4 * length ps" by (rule response_length)
  moreover have "response plain_params rc i ps \<noteq> []" by (simp add: response_def)
  ultimately show ?thesis using assms by (simp add: Let_def PTP_USB_BULK_PACKET_LEN_def)
qed

lemma demo_no_zen [simp]: "\<not> MTP_ZEN_BROKEN_HEADER (demo w)"
  by (simp add: MTP_ZEN_BROKEN_HEADER_def)

lemma demo_request: "request_taken demo_port (demo (i, out)) req (i, out @ request_bytes plain_params req)"
  by (simp add: request_taken_def)


text \<open>A device that always answers transaction 3.\<close>

definition stuck_port :: "desk port" where
  "stuck_port = demo_port\<lparr> port_read := \<lambda>n w. (Inr (response plain_params PTP_RC_OK 3 []), w) \<rparr>"

theorem stale_answers_hang_witness:
  "\<forall>F. no_data (usb_transport F stuck_port) idle PTP_OC_GetNumObjects [] = None"
proof
  fix F
  have r: "request_taken stuck_port (demo ([], [])) q ([], request_bytes plain_params q)" for q by (simp add: request_taken_def stuck_port_def)
  have "\<forall>w. \<exists>j qs u. port_read stuck_port PTP_USB_BULK_PACKET_LEN w = (Inr (response plain_params PTP_RC_OK j qs), u) \<and> j < 7 \<and> length qs \<le> 5"
    by (intro allI exI [of _ 3] exI [of _ "[]"]) (simp add: stuck_port_def word_less_nat_alt)
  then show "no_data (usb_transport F stuck_port) idle PTP_OC_GetNumObjects [] = None"
    using stale_answers_hang [OF r, of "[]" F PTP_OC_GetNumObjects] by (simp add: idle_def)
qed

section \<open>Events and objects\<close>

text \<open>One event that a Nikon camera has queued, and an answer that counts an event which it does not hold.\<close>

lemma demo_nikon:
  "VendorExtensionID demo_info = PTP_VENDOR_NIKON" "ptp_operation_issupported (demo w) PTP_OC_NIKON_CheckEvent = Some True"
  by (simp_all add: demo_info_def ptp_operation_issupported_def listed_def)

lemma demo_events:
  "dtoh16ap plain_params [1, 0, 4, 192, 9, 0, 0, 0] 0 = Some 1"
  "dtoh16ap plain_params [1, 0] 0 = Some 1"
  "nikon_event plain_params [1, 0, 4, 192, 9, 0, 0, 0] 0 = Some (zero_container\<lparr> Code := 0xC004, Param1 := 9, Nparam := 1 \<rparr>)"
  by (simp_all add: dtoh16ap_def dtoh32ap_def peek_def decode_def plain_params_def nikon_event_def)

theorem nikon_check_queues_witness:
  "\<forall>F. (\<exists>s. ptp_check_event (usb_transport F demo_port) zero_container (demo (demo_data PTP_OC_NIKON_CheckEvent [1, 0, 4, 192, 9, 0, 0, 0] @ demo_response, [])) =
       Some (PTP_RC_OK, s) \<and> events s = [zero_container\<lparr> Code := 0xC004, Param1 := 9, Nparam := 1 \<rparr>]) \<and>
     ptp_check_event (usb_transport F demo_port) zero_container (demo (demo_data PTP_OC_NIKON_CheckEvent [1, 0] @ demo_response, [])) = None"
  using nikon_check_queues [of demo_port fst "demo (demo_data PTP_OC_NIKON_CheckEvent [1, 0, 4, 192, 9, 0, 0, 0] @ demo_response, [])"
      "[1, 0, 4, 192, 9, 0, 0, 0]" "[]" 1]
    nikon_check_queues [of demo_port fst "demo (demo_data PTP_OC_NIKON_CheckEvent [1, 0] @ demo_response, [])" "[1, 0]" "[]" 1]
    demo_device [of "[1, 0, 4, 192, 9, 0, 0, 0]" PTP_OC_NIKON_CheckEvent "[]" "[]"] demo_device [of "[1, 0]" PTP_OC_NIKON_CheckEvent "[]" "[]"]
  by (auto simp: demo_ready demo_nikon demo_events)

definition other_vendor :: PTPDeviceInfo where
  "other_vendor = demo_info\<lparr> VendorExtensionID := 6 \<rparr>"

lemma other_vendor_simps [simp]: "VendorExtensionID other_vendor = 6"
  by (simp add: other_vendor_def)

text \<open>A port with one event, of 12 bytes, on the interrupt endpoint.\<close>

definition event_port :: "octet list port" where
  "event_port = \<lparr> port_write = \<lambda>bs w. (Inr (length bs), w), port_read = \<lambda>n w. (Inl IO_TIMEOUT, w),
     port_check_int = \<lambda>n w. (Inr (take n w), drop n w), port_clear_halt = \<lambda>w. w, port_get_timeout = \<lambda>w. (0, w),
     port_set_timeout = \<lambda>t w. w, port_msg_class_read = \<lambda>r n w. (Inl IO_TIMEOUT, w), port_msg_class_write = \<lambda>r bs w. (Inr (), w),
     context_cancel = \<lambda>w. (False, w) \<rparr>"

definition event_packet :: "octet list" where
  "event_packet = [12, 0, 0, 0, 4, 0, 2, 0x40, 0, 0, 0, 0]"

definition listening :: "octet list ptp" where
  "listening = (demo event_packet)\<lparr> deviceinfo := other_vendor \<rparr>"

lemma event_checked:
  "\<exists>s e. ptp_check_event (usb_transport F event_port) zero_container listening = Some (PTP_RC_OK, s) \<and> events s = [e] \<and> Code e = 0x4002"
proof -
  have l: "pack listening = plain_params" "deviceinfo listening = other_vendor" "world listening = event_packet" "events listening = []"
    "session_id listening = 1"
    by (simp_all add: listening_def demo_def)
  have v: "PTP_VENDOR_NIKON \<noteq> 6" "PTP_VENDOR_CANON \<noteq> 6" by (simp_all add: PTP_VENDOR_NIKON_def PTP_VENDOR_CANON_def)
  have p: "ptp_check_event (usb_transport F event_port) zero_container listening = poll_event (usb_transport F event_port) zero_container listening"
    using v by (simp add: ptp_check_event_def l)
  let ?u = "event_packet @ replicate 12 0"
  have z: "replicate 12 (0 :: octet) = [0, 0, 0, 0, 0, 0, 0, 0, 0, 0, 0, 0]" by (simp add: numeral_eq_Suc)
  have d: "dtoh32ap plain_params ?u 0 = Some 12" "dtoh16ap plain_params ?u 4 = Some 4" "dtoh16ap plain_params ?u 6 = Some 0x4002"
    "dtoh32ap plain_params ?u 8 = Some 0" "dtoh32ap plain_params ?u 12 = Some 0" "dtoh32ap plain_params ?u 16 = Some 0" "dtoh32ap plain_params ?u 20 = Some 0"
    by (simp_all add: event_packet_def dtoh32ap_def dtoh16ap_def peek_def decode_def plain_params_def z)
  have ne: "event_packet \<noteq> []" "length event_packet = 12" by (simp_all add: event_packet_def)
  let ?s = "listening\<lparr> world := [] \<rparr>"
  have "gp_port_check_int event_port 24 listening = (Inr event_packet, ?s)"
    by (simp add: gp_port_check_int_def on_world_def event_port_def l ne(2))
  then have c: "check_twice event_port listening = (Inr event_packet, ?s)" by (simp add: check_twice_def) (simp add: event_packet_def)
  have t: "set_timeout event_port t s = s" "on_world (port_get_timeout event_port) s = (0, s)" for t s
    by (simp_all add: set_timeout_def on_world_def event_port_def)
  have "\<exists>e. ptp_usb_event_check event_port listening (Some zero_container) = Some (PTP_RC_OK, Some e, ?s) \<and> Code e = 0x4002"
    using d ne unfolding ptp_usb_event_check_def ptp_usb_event_def Let_def option.case event_mode.case t prod.case c sum.case
    by (simp add: l t PTP_USB_CONTAINER_EVENT_def)
  then show ?thesis unfolding p poll_event_def
    by (auto simp: usb_transport_def store_event_def ptp_add_event_def l PTP_RC_OK_def PTP_ERROR_TIMEOUT_def)
qed

theorem event_queue_fifo_witness:
  "\<forall>F. \<exists>s' e. fifo_run (checks (usb_transport F event_port)) ptp_get_one_event events listening [e] [e] s' \<and> events s' = [] \<and> Code e = 0x4002"
proof
  fix F
  obtain s e where e: "ptp_check_event (usb_transport F event_port) zero_container listening = Some (PTP_RC_OK, s)" "events s = [e]" "Code e = 0x4002"
    using event_checked by blast
  let ?run = "fifo_run (checks (usb_transport F event_port)) ptp_get_one_event events listening"
  have n: "events listening = []" by (simp add: listening_def)
  have "checks (usb_transport F event_port) listening s" using e(1) unfolding checks_def by blast
  from fifo_run.store [OF fifo_run.start [of "checks (usb_transport F event_port)" ptp_get_one_event events listening] this] n e(2) have r: "?run [] [e] s" by simp
  have "ptp_get_one_event s = (Some e, s\<lparr> events := [] \<rparr>)" using e(2) by (simp add: ptp_get_one_event_def)
  from fifo_run.fetch [OF r this] have r2: "?run [e] [e] (s\<lparr> events := [] \<rparr>)" by simp
  from event_queue_fifo [OF this] n have "[e] = [e] @ events (s\<lparr> events := [] \<rparr>)" by simp
  then show "\<exists>s' e. ?run [e] [e] s' \<and> events s' = [] \<and> Code e = 0x4002"
    using r2 e(3) by (intro exI [of _ "s\<lparr> events := [] \<rparr>"] exI [of _ e]) simp
qed

definition with_object :: "desk ptp" where
  "with_object = idle\<lparr> objects := [new_object 9, (new_object 12)\<lparr> flags := info_flags \<rparr>] \<rparr>"

lemma with_object_sorted: "sorted_cache (objects with_object)"
  by (simp add: with_object_def sorted_cache_def new_object_def)

theorem object_want_keeps_others_witness:
  "\<forall>F H. \<exists>ret r s. ptp_object_want (usb_transport F demo_port) H with_object 12 PTPOBJECT_OBJECTINFO_LOADED = Some (ret, r, s) \<and>
     cache_abs (objects s) 9 = cache_abs (objects with_object) 9"
proof (intro allI)
  fix F H
  have dev: "device_flags with_object = 0" "pack with_object = plain_params" by (simp_all add: with_object_def idle_def)
  have "12 \<in> oid ` set (objects with_object)" by (simp add: with_object_def new_object_def)
  with find_or_insert_found [OF with_object_sorted, of 12 "pack with_object"] obtain i where
    i: "ptp_object_find_or_insert (pack with_object) (objects with_object) 12 = Some (objects with_object, Some i)" "i < length (objects with_object)"
      "oid (objects with_object ! i) = 12" by (auto simp: dev)
  have "flags (objects with_object ! i) = info_flags"
    using i(2,3) by (auto simp: with_object_def new_object_def less_Suc_eq)
  then have "ptp_object_want (usb_transport F demo_port) H with_object 12 PTPOBJECT_OBJECTINFO_LOADED = Some (PTP_RC_OK, Some i, with_object)"
    using i by (simp add: ptp_object_want_def Let_def the_ob_def dev info_flags_def loaded_defs)
  with object_want_keeps_others [OF this with_object_sorted]
  show "\<exists>ret r s. ptp_object_want (usb_transport F demo_port) H with_object 12 PTPOBJECT_OBJECTINFO_LOADED = Some (ret, r, s) \<and>
     cache_abs (objects s) 9 = cache_abs (objects with_object) 9" by blast
qed

section \<open>A folder\<close>

text \<open>The device sends the handles 9 and 5; the array holds them in the order 5, 9.\<close>

definition two_handles :: "octet list" where
  "two_handles = [2, 0, 0, 0, 9, 0, 0, 0, 5, 0, 0, 0]"

definition full_desk :: desk where
  "full_desk = (demo_data PTP_OC_GetObjectHandles two_handles @ demo_response, [])"

lemma two_handles_read:
  "dtoh32ap plain_params two_handles 0 = Some 2" "dtoh32ap plain_params two_handles 4 = Some 9" "dtoh32ap plain_params two_handles 8 = Some 5"
  by (simp_all add: dtoh32ap_def peek_def decode_def plain_params_def two_handles_def)

lemma two_handles_unpacked: "ptp_unpack_OH plain_params two_handles 12 = Some \<lparr> oh_n = 2, Handler = Some [9, 5] \<rparr>"
proof -
  have "[0..<unat (2 :: 32 word)] = [0, 1]" by (simp add: upt_rec)
  then show ?thesis using two_handles_read by (simp add: ptp_unpack_OH_def ptp_unpack_uint32_t_array_def read_array_def)
qed

lemma handles_collected:
  "\<exists>s. collect_folder (usb_transport F demo_port) H qs (demo full_desk) PTP_HANDLER_SPECIAL PTP_HANDLER_SPECIAL =
     Some (PTP_RC_OK, True, s\<lparr> objects := [new_object 9, new_object 5] \<rparr>) \<and> pack s = plain_params"
proof -
  let ?T = "usb_transport F demo_port" and ?s = "demo full_desk"
  have v: "fast_listing ?s = Some False"
    by (simp add: fast_listing_def demo_def demo_info_def PTP_VENDOR_NIKON_def PTP_VENDOR_CANON_def)
  have c: "PTP_OC_GetObjectHandles \<noteq> PTP_RC_OK" by (simp add: PTP_OC_GetObjectHandles_def PTP_RC_OK_def)
  have dev: "usb_device demo_port fst ?s (as_sent ?s (request PTP_OC_GetObjectHandles ps)) two_handles (response (pack ?s) PTP_RC_OK (transaction_id ?s) [])" for ps
    using demo_device [of two_handles PTP_OC_GetObjectHandles "[]" ps] by (simp add: full_desk_def two_handles_def)
  obtain r b w where g: "get_data ?T ?s PTP_OC_GetObjectHandles [PTP_HANDLER_SPECIAL, 0, PTP_HANDLER_SPECIAL] =
      Some (PTP_RC_OK, r, Some two_handles, 12, (counted ?s)\<lparr> split_header_data := b, world := w \<rparr>)"
    using get_data_usb [OF dev [of "[PTP_HANDLER_SPECIAL, 0, PTP_HANDLER_SPECIAL]"] demo_ready _ _ _ c, of F] by (auto simp: two_handles_def)
  let ?s1 = "(counted ?s)\<lparr> split_header_data := b, world := w \<rparr>"
  have k: "pack ?s1 = plain_params" "objects ?s1 = []" by (simp_all add: counted_def)
  have ne: "PTP_RC_OK \<noteq> PTP_RC_ParameterNotSupported" "PTP_RC_GeneralError \<noteq> PTP_RC_OK"
    by (simp_all add: PTP_RC_OK_def PTP_RC_ParameterNotSupported_def PTP_RC_GeneralError_def)
  have h: "ptp_getobjecthandles ?T ?s PTP_HANDLER_SPECIAL 0 PTP_HANDLER_SPECIAL \<lparr> oh_n = 0, Handler = None \<rparr> =
      Some (PTP_RC_OK, \<lparr> oh_n = 2, Handler = Some [9, 5] \<rparr>, ?s1)"
    unfolding ptp_getobjecthandles_def g using k by (simp add: two_handles_unpacked)
  have e: "elements 2 (Some [9, 5 :: 32 word]) = Some [9, 5]" by (simp add: elements_def)
  have fs: "find_from [] 0 9 = None" "find_from [new_object 9] 0 5 = None" by (simp_all add: find_from_def new_object_def)
  have "list_handles plain_params PTP_HANDLER_SPECIAL 0 [9, 5] 0 False [] = (PTP_RC_OK, True, [new_object 9, new_object 5])"
    using fs by (simp add: added_object_def)
  then have "collect_folder ?T H qs ?s PTP_HANDLER_SPECIAL PTP_HANDLER_SPECIAL =
      Some (PTP_RC_OK, True, ?s1\<lparr> objects := [new_object 9, new_object 5] \<rparr>)"
    unfolding collect_folder_def folder_handles_def Let_def using v h e ne k by (simp del: list_handles.simps)
  with k(1) show ?thesis by blast
qed

lemma insertion_sorts_objects: "sorts_objects insertion_sort"
  by (simp add: sorts_objects_def ptp_objects_sort_def insertion_sort_mset insertion_sort_ordered)

theorem cache_reach_sorted_witness:
  "\<forall>F H. \<exists>s. ptp_list_folder (usb_transport F demo_port) H insertion_sort (demo full_desk) PTP_HANDLER_SPECIAL PTP_HANDLER_SPECIAL = Some (PTP_RC_OK, s) \<and>
     objects s = [new_object 5, new_object 9] \<and> sorted_cache (objects s)"
proof (intro allI)
  fix F H
  let ?T = "usb_transport F demo_port" and ?S = PTP_HANDLER_SPECIAL
  obtain s where s: "collect_folder ?T H insertion_sort (demo full_desk) ?S ?S = Some (PTP_RC_OK, True, s\<lparr> objects := [new_object 9, new_object 5] \<rparr>)"
    "pack s = plain_params" using handles_collected by blast
  let ?s = "s\<lparr> objects := [new_object 5, new_object 9] \<rparr>"
  have "ptp_objects_sort insertion_sort [new_object 9, new_object 5] = [new_object 5, new_object 9]"
    by (simp add: ptp_objects_sort_def insertion_sort_def new_object_def cmp_ob_def)
  then have l: "ptp_list_folder ?T H insertion_sort (demo full_desk) ?S ?S = Some (PTP_RC_OK, ?s)"
    by (simp add: ptp_list_folder_def s sort_if_def)
  have v: "fast_listing (demo full_desk) = Some False"
    by (simp add: fast_listing_def demo_def demo_info_def PTP_VENDOR_NIKON_def PTP_VENDOR_CANON_def)
  have "orderly_listing ?T H insertion_sort (demo full_desk) ?S ?S"
    using s v by (auto simp: orderly_listing_def new_object_def)
  from cache_reach.folder [OF cache_reach.start l this] have "cache_reach ?T H insertion_sort ?s" by simp
  from cache_reach_sorted [OF this insertion_sorts_objects] have "sorted_cache (objects ?s)" by simp
  with l show "\<exists>s. ptp_list_folder ?T H insertion_sort (demo full_desk) ?S ?S = Some (PTP_RC_OK, s) \<and>
     objects s = [new_object 5, new_object 9] \<and> sorted_cache (objects s)" by (intro exI [of _ ?s]) simp
qed

end
