(* ===== verification/Ptp_Ip_Props.thy ===== *)
theory Ptp_Ip_Props
  imports Ptp_Ip Ptp_Demo
begin

text \<open>
  What the transport over sockets delivers. A socket from which the host reads serves a stream of bytes in pieces of any size; one to which it writes may take
  a part of what is offered.
\<close>

section \<open>Sockets\<close>

definition served :: "'w files \<Rightarrow> int \<Rightarrow> ('w \<Rightarrow> octet list) \<Rightarrow> bool" where
  "served F fd inp \<longleftrightarrow> (\<forall>n w. 0 < n \<and> inp w \<noteq> [] \<longrightarrow> (\<exists>bs w'. sys_read F fd n w = (Inr bs, w') \<and> bs \<noteq> [] \<and> length bs \<le> n \<and> inp w = bs @ inp w'))"

definition taken :: "'w files \<Rightarrow> int \<Rightarrow> ('w \<Rightarrow> octet list) \<Rightarrow> bool" where
  "taken F fd out \<longleftrightarrow> (\<forall>bs w. bs \<noteq> [] \<longrightarrow> (\<exists>n w'. sys_write F fd bs w = (Inr n, w') \<and> 0 < n \<and> n \<le> length bs \<and> out w' = out w @ take n bs))"

text \<open>No event is waiting.\<close>

definition no_events :: "'w net \<Rightarrow> bool" where
  "no_events N \<longleftrightarrow> (\<forall>fd t w. \<exists>r. r \<noteq> 1 \<and> net_select N fd t w = (r, w))"

lemma check_event_none:
  assumes "no_events N"
  shows "\<exists>ret. ptp_ptpip_check_event N F s = Some (ret, s)"
proof -
  have "\<exists>r. r \<noteq> PTP_RC_OK \<and> next_event N F PTP_EVENT_CHECK_FAST s = Some (r, [], [], s)"
  proof -
    obtain r where r: "r \<noteq> 1" "net_select N (evtfd s) 1 (world s) = (r, world s)" using assms unfolding no_events_def by blast
    then show ?thesis by (simp add: next_event.simps [of N F PTP_EVENT_CHECK_FAST s] on_world_def rc_defs)
  qed
  then show ?thesis by (auto simp: ptp_ptpip_check_event_def ptp_ptpip_event_def)
qed

lemma sock_read_served:
  assumes "served F fd inp" and "0 < n" and "inp (world s) \<noteq> []"
  shows "\<exists>bs w'. sock_read F fd n s = (Inr bs, s\<lparr> world := w' \<rparr>) \<and> bs \<noteq> [] \<and> length bs \<le> n \<and> inp (world s) = bs @ inp w'"
proof -
  obtain bs w' where b: "sys_read F fd n (world s) = (Inr bs, w')" "bs \<noteq> []" "length bs \<le> n" "inp (world s) = bs @ inp w'"
    using assms unfolding served_def by blast
  then have "sock_read F fd n s = (Inr bs, s\<lparr> world := w' \<rparr>)" by (simp add: sock_read_def on_world_def)
  with b show ?thesis by blast
qed

lemma read_full_served:
  assumes F: "served F fd inp"
  shows "n \<le> length (inp (world s)) \<Longrightarrow>
    \<exists>w'. read_full F fd n s = (Some (take n (inp (world s))), s\<lparr> world := w' \<rparr>) \<and> inp w' = drop n (inp (world s))"
proof (induction n arbitrary: s rule: less_induct)
  case (less n)
  show ?case
  proof (cases "n = 0")
    case True
    then show ?thesis by (subst read_full.simps) (intro exI [of _ "world s"], simp)
  next
    case False
    with less.prems have "inp (world s) \<noteq> []" by auto
    then obtain bs w where b: "sock_read F fd n s = (Inr bs, s\<lparr> world := w \<rparr>)" "bs \<noteq> []" "length bs \<le> n" "inp (world s) = bs @ inp w"
      using sock_read_served [OF F, of n s] False by auto
    have n: "n - length bs < n" "n - length bs \<le> length (inp (world (s\<lparr> world := w \<rparr>)))" using b less.prems False by auto
    obtain w' where "read_full F fd (n - length bs) (s\<lparr> world := w \<rparr>) = (Some (take (n - length bs) (inp w)), s\<lparr> world := w' \<rparr>)"
      "inp w' = drop (n - length bs) (inp w)" using less.IH [OF n] by auto
    with b False show ?thesis by (subst read_full.simps) (intro exI [of _ w'], simp)
  qed
qed

lemma write_all_taken:
  assumes F: "taken F fd out"
  shows "\<exists>w'. write_all F fd bs s = Some (True, s\<lparr> world := w' \<rparr>) \<and> out w' = out (world s) @ bs"
proof (induction bs arbitrary: s rule: length_induct)
  case (1 bs)
  show ?case
  proof (cases "bs = []")
    case True
    then show ?thesis by (subst write_all.simps) (intro exI [of _ "world s"], simp)
  next
    case False
    then obtain n w where n: "sys_write F fd bs (world s) = (Inr n, w)" "0 < n" "n \<le> length bs" "out w = out (world s) @ take n bs"
      using F unfolding taken_def by blast
    then have st: "sock_write F fd bs s = (Inr n, s\<lparr> world := w \<rparr>)" by (simp add: sock_write_def on_world_def)
    have "length (drop n bs) < length bs" using n(2) False by simp
    with 1 [rule_format, of "drop n bs" "s\<lparr> world := w \<rparr>"] obtain w' where
      "write_all F fd (drop n bs) (s\<lparr> world := w \<rparr>) = Some (True, s\<lparr> world := w' \<rparr>)" "out w' = out w @ drop n bs" by auto
    with st n(4) False show ?thesis by (subst write_all.simps) (intro exI [of _ w'], simp)
  qed
qed

section \<open>Packets\<close>

definition ip_packet :: "PTPParams \<Rightarrow> 32 word \<Rightarrow> octet list \<Rightarrow> octet list" where
  "ip_packet P type payload = (htod32ap P (of_nat (8 + length payload)) @ htod32ap P type) @ payload"

lemma htod32_length [simp]: "length (htod32ap P x) = 4"
  by (simp add: htod32ap_def)

lemma generic_read_packet:
  assumes F: "served F fd inp" and i: "inp (world s) = ip_packet (pack s) type p @ rest" and l: "8 + length p < 2 ^ 31" and al: "can_alloc (pack s) (length p)"
  shows "\<exists>hdr w. ptp_ptpip_generic_read F fd s = Some (PTP_RC_OK, hdr, p, s\<lparr> world := w \<rparr>) \<and> inp w = rest \<and>
    dtoh32ap (pack s) hdr 0 = Some (of_nat (8 + length p)) \<and> dtoh32ap (pack s) hdr 4 = Some type"
proof -
  let ?P = "pack s" and ?hdr = "htod32ap (pack s) (of_nat (8 + length p)) @ htod32ap (pack s) type"
  have h: "dtoh32ap ?P ?hdr 0 = Some (of_nat (8 + length p))" "dtoh32ap ?P ?hdr 4 = Some type"
    using lies_whole [of ?hdr] by (simp_all add: dtoh_lies)
  have n: "sint ((of_nat (8 + length p) :: 32 word) - of_nat 8) = int (length p)"
    using l by (simp add: signed_of_nat signed_take_bit_int_eq_self)
  obtain w1 where w1: "read_full F fd 8 s = (Some ?hdr, s\<lparr> world := w1 \<rparr>)" "inp w1 = p @ rest"
    using read_full_served [OF F, of 8 s] i by (auto simp: ip_packet_def)
  obtain w2 where w2: "read_full F fd (length p) (s\<lparr> world := w1 \<rparr>) = (Some p, s\<lparr> world := w2 \<rparr>)" "inp w2 = rest"
    using read_full_served [OF F, of "length p" "s\<lparr> world := w1 \<rparr>"] w1(2) by auto
  show ?thesis using w1 w2 h n al
    by (intro exI [of _ ?hdr] exI [of _ w2]) (simp add: ptp_ptpip_generic_read_def del: of_nat_add)
qed

lemma cmd_read_packet:
  assumes "no_events N" and "served F (cmdfd s) inp" and "inp (world s) = ip_packet (pack s) type p @ rest" and "8 + length p < 2 ^ 31"
    and "can_alloc (pack s) (length p)"
  shows "\<exists>hdr w. ptp_ptpip_cmd_read N F s = Some (PTP_RC_OK, hdr, p, s\<lparr> world := w \<rparr>) \<and> inp w = rest \<and>
    dtoh32ap (pack s) hdr 0 = Some (of_nat (8 + length p)) \<and> dtoh32ap (pack s) hdr 4 = Some type"
  using check_event_none [OF assms(1), of F s] generic_read_packet [OF assms(2-5)] unfolding ptp_ptpip_cmd_read_def by auto

text \<open>The packets of a data phase: the first announces the number of bytes, the others carry pieces of them.\<close>

definition ip_start :: "PTPParams \<Rightarrow> 32 word \<Rightarrow> nat \<Rightarrow> octet list" where
  "ip_start P tid n = ip_packet P PTPIP_START_DATA_PACKET (htod32ap P tid @ htod32ap P (of_nat n) @ htod32ap P 0)"

definition ip_data :: "PTPParams \<Rightarrow> 32 word \<Rightarrow> (bool \<times> octet list) list \<Rightarrow> octet list" where
  "ip_data P tid cs = concat (map (\<lambda>(fin, c). ip_packet P (if fin then PTPIP_END_DATA_PACKET else PTPIP_DATA_PACKET) (htod32ap P tid @ c)) cs)"

definition payload :: "(bool \<times> octet list) list \<Rightarrow> octet list" where
  "payload cs = concat (map snd cs)"

lemma ip_data_simps [simp]:
  "ip_data P tid [] = []" "payload [] = []" "payload (c # cs) = snd c @ payload cs"
  "ip_data P tid (c # cs) = ip_packet P (if fst c then PTPIP_END_DATA_PACKET else PTPIP_DATA_PACKET) (htod32ap P tid @ snd c) @ ip_data P tid cs"
  by (simp_all add: ip_data_def payload_def split_beta)

lemma packet_types [simp]:
  "PTPIP_START_DATA_PACKET \<noteq> PTPIP_CMD_RESPONSE" "PTPIP_END_DATA_PACKET \<noteq> PTPIP_START_DATA_PACKET" "PTPIP_END_DATA_PACKET \<noteq> PTPIP_CMD_RESPONSE"
  by (simp_all add: PTPIP_START_DATA_PACKET_def PTPIP_CMD_RESPONSE_def PTPIP_END_DATA_PACKET_def)

section \<open>Receiving\<close>

text \<open>A sequence of packets that ends with the last byte.\<close>

definition ends_with_data :: "(bool \<times> octet list) list \<Rightarrow> bool" where
  "ends_with_data cs \<longleftrightarrow> cs = [] \<or> snd (last cs) \<noteq> []"

lemma ends_with_data_Cons: "ends_with_data (c # cs) \<longleftrightarrow> (if cs = [] then snd c \<noteq> [] else ends_with_data cs)"
  by (simp add: ends_with_data_def)

lemma ends_with_data_payload: "ends_with_data cs \<Longrightarrow> cs \<noteq> [] \<Longrightarrow> payload cs \<noteq> []"
  unfolding ends_with_data_def by (induction cs) (auto split: if_splits)

lemma datalen: "12 + k < 2 ^ 31 \<Longrightarrow> unat ((of_nat (12 + k) :: 32 word) - 8 - 4) = k"
proof -
  assume k: "12 + k < 2 ^ 31"
  have "(of_nat (12 + k) :: 32 word) - 8 - 4 = of_nat k" by simp
  then show ?thesis using k by (simp add: unat_of_nat take_bit_nat_eq_self)
qed

context data_sink begin

lemma ip_recv_loop_delivers:
  assumes N: "no_events N"
  shows "served F (cmdfd s) inp \<Longrightarrow> \<forall>k. can_alloc (pack s) k \<Longrightarrow> \<forall>c\<in>set cs. 12 + length (snd c) < 2 ^ 31 \<Longrightarrow> ends_with_data cs \<Longrightarrow>
    toread = curread + length (payload cs) \<Longrightarrow> toread < 2 ^ 32 \<Longrightarrow> inp (world s) = ip_data (pack s) tid cs @ rest \<Longrightarrow>
    room (pack s) (length (payload cs) + x) h \<Longrightarrow>
    \<exists>h' w. ip_recv_loop N F toread curread h s = Some (PTP_RC_OK, h', s\<lparr> world := w \<rparr>) \<and> room (pack s) x h' \<and> got h' = got h @ payload cs \<and> inp w = rest"
proof (induction cs arbitrary: curread h s)
  case Nil
  then show ?case by (subst ip_recv_loop.simps) (intro exI [of _ h] exI [of _ "world s"], simp)
next
  case (Cons c cs)
  let ?c = "snd c" and ?type = "if fst c then PTPIP_END_DATA_PACKET else PTPIP_DATA_PACKET" and ?p = "htod32ap (pack s) tid @ snd c"
  have l: "8 + length ?p < 2 ^ 31" and ne: "payload (c # cs) \<noteq> []" using Cons.prems(3,4) ends_with_data_payload [of "c # cs"] by auto
  have i: "inp (world s) = ip_packet (pack s) ?type ?p @ ip_data (pack s) tid cs @ rest" using Cons.prems(7) by simp
  obtain hdr w where r: "ptp_ptpip_cmd_read N F s = Some (PTP_RC_OK, hdr, ?p, s\<lparr> world := w \<rparr>)" "inp w = ip_data (pack s) tid cs @ rest"
    "dtoh32ap (pack s) hdr 0 = Some (of_nat (8 + length ?p))" "dtoh32ap (pack s) hdr 4 = Some ?type"
    using cmd_read_packet [OF N Cons.prems(1) i l] Cons.prems(2) by blast
  let ?s = "s\<lparr> world := w \<rparr>"
  have dl: "unat ((of_nat (8 + length ?p) :: 32 word) - 8 - 4) = length ?c" using datalen [of "length ?c"] Cons.prems(3) by simp
  have rm: "room (pack ?s) (length ?c + (length (payload cs) + x)) h" using Cons.prems(8) by (simp add: add.assoc)
  obtain h1 where h1: "putfunc F h (length ?c) ?c ?s = Some (PTP_RC_OK, Some (length ?c), h1, ?s)" "room (pack s) (length (payload cs) + x) h1"
    "got h1 = got h @ ?c" using put [OF rm, of "[]"] by auto
  have u: "ulong (curread + length ?c) = curread + length ?c" using Cons.prems(5,6) by (intro ulong_small) simp
  have lt: "curread < toread" "\<not> length ?c > toread - curread" using ne Cons.prems(5) by auto
  have st: "ip_recv_loop N F toread curread h s = ip_recv_loop N F toread (curread + length ?c) h1 ?s"
    using r h1 lt dl u by (subst ip_recv_loop.simps) (simp del: of_nat_add)
  have ends: "ends_with_data cs" using Cons.prems(4) by (auto simp: ends_with_data_Cons ends_with_data_def split: if_splits)
  obtain h2 w2 where "ip_recv_loop N F toread (curread + length ?c) h1 ?s = Some (PTP_RC_OK, h2, ?s\<lparr> world := w2 \<rparr>)" "room (pack ?s) x h2"
    "got h2 = got h1 @ payload cs" "inp w2 = rest"
    using Cons.IH [of ?s "curread + length ?c" h1] Cons.prems ends h1(2) r(2) by auto
  then show ?case using h1(3) unfolding st by (intro exI [of _ h2] exI [of _ w2]) simp
qed

lemma ip_getdata_delivers:
  assumes N: "no_events N" and F: "served F (cmdfd s) inp" and al: "\<forall>k. can_alloc (pack s) k"
    and cs: "\<forall>c\<in>set cs. 12 + length (snd c) < 2 ^ 31" "ends_with_data cs" "length (payload cs) < 2 ^ 32"
    and i: "inp (world s) = ip_start (pack s) tid (length (payload cs)) @ ip_data (pack s) tid cs @ rest"
    and rm: "room (pack s) (length (payload cs) + x) h"
  shows "\<exists>h' w. ptp_ptpip_getdata N F s ptp h = Some (PTP_RC_OK, h', s\<lparr> world := w \<rparr>) \<and> room (pack s) x h' \<and> got h' = got h @ payload cs \<and> inp w = rest"
proof -
  let ?p = "htod32ap (pack s) tid @ htod32ap (pack s) (of_nat (length (payload cs))) @ htod32ap (pack s) 0"
  obtain hdr w where r: "ptp_ptpip_cmd_read N F s = Some (PTP_RC_OK, hdr, ?p, s\<lparr> world := w \<rparr>)" "inp w = ip_data (pack s) tid cs @ rest"
    "dtoh32ap (pack s) hdr 4 = Some PTPIP_START_DATA_PACKET"
    using cmd_read_packet [OF N F, of PTPIP_START_DATA_PACKET ?p "ip_data (pack s) tid cs @ rest"] i al by (auto simp: ip_start_def)
  have t: "dtoh32ap (pack s) ?p 4 = Some (of_nat (length (payload cs)))" using lies_whole [of ?p] by (simp add: dtoh_lies)
  have u: "unat (of_nat (length (payload cs)) :: 32 word) = length (payload cs)" using cs(3) by (simp add: unat_of_nat take_bit_nat_eq_self)
  obtain h' w' where "ip_recv_loop N F (length (payload cs)) 0 h (s\<lparr> world := w \<rparr>) = Some (PTP_RC_OK, h', s\<lparr> world := w \<rparr>\<lparr> world := w' \<rparr>)"
    "room (pack s) x h'" "got h' = got h @ payload cs" "inp w' = rest"
    using ip_recv_loop_delivers [OF N, of "s\<lparr> world := w \<rparr>" inp cs "length (payload cs)" 0 tid rest x h] F al cs r(2) rm by auto
  with r t u show ?thesis by (intro exI [of _ h'] exI [of _ w']) (simp add: ptp_ptpip_getdata_def)
qed

end

section \<open>Sending\<close>

text \<open>The blocks in which data are sent: the last one is marked as the end.\<close>

function blocks :: "octet list \<Rightarrow> (bool \<times> octet list) list" where
  "blocks d =
    (if d = [] then [] else if length d > WRITE_BLOCKSIZE then (False, take WRITE_BLOCKSIZE d) # blocks (drop WRITE_BLOCKSIZE d) else [(True, d)])"
  by pat_completeness auto
termination by (relation "measure length") (auto simp: WRITE_BLOCKSIZE_def)

declare blocks.simps [simp del]

lemma blocks_payload: "payload (blocks d) = d"
proof (induction d rule: blocks.induct)
  case (1 d)
  then show ?case by (subst blocks.simps) simp
qed

lemma blocks_small: "c \<in> set (blocks d) \<Longrightarrow> length (snd c) \<le> WRITE_BLOCKSIZE \<and> snd c \<noteq> []"
proof (induction d rule: blocks.induct)
  case (1 d)
  have pos: "0 < WRITE_BLOCKSIZE" by (simp add: WRITE_BLOCKSIZE_def)
  consider "d = []" | "d \<noteq> []" "\<not> length d > WRITE_BLOCKSIZE" | "d \<noteq> []" "length d > WRITE_BLOCKSIZE" by blast
  then show ?case
  proof cases
    case 3
    then have "blocks d = (False, take WRITE_BLOCKSIZE d) # blocks (drop WRITE_BLOCKSIZE d)" by (subst blocks.simps) simp
    with 1(2) 1(1) [OF 3] 3 pos show ?thesis by auto
  qed (use 1(2) in \<open>simp_all add: blocks.simps [of d] blocks.simps [of "[]"]\<close>)
qed

lemma blocks_end: "ends_with_data (blocks d)"
  using blocks_small [of "last (blocks d)" d] by (auto simp: ends_with_data_def)

text \<open>Exactly the last block is marked.\<close>

lemma blocks_marks: "map fst (blocks d) = replicate (length (blocks d) - 1) False @ (if d = [] then [] else [True])"
proof (induction d rule: blocks.induct)
  case (1 d)
  have ne: "e \<noteq> [] \<Longrightarrow> blocks e \<noteq> []" for e by (subst blocks.simps) simp
  show ?case
  proof (cases "length d > WRITE_BLOCKSIZE")
    case True
    then have d: "d \<noteq> []" "drop WRITE_BLOCKSIZE d \<noteq> []" by auto
    obtain n where n: "length (blocks (drop WRITE_BLOCKSIZE d)) = Suc n" using ne [OF d(2)] by (cases "blocks (drop WRITE_BLOCKSIZE d)") auto
    from True d 1(1) [OF d(1) True] n show ?thesis by (subst (1 2) blocks.simps) simp
  qed (subst (1 2) blocks.simps, simp)
qed

context data_source begin

lemma ip_send_loop_delivers:
  assumes N: "no_events N"
  shows "taken F (cmdfd s) out \<Longrightarrow> ready h \<Longrightarrow> remaining h = d \<Longrightarrow> sz = curwrite + length d \<Longrightarrow> sz < 2 ^ 32 \<Longrightarrow>
    \<exists>h' w. ip_send_loop N F tid curwrite sz h s = Some (PTP_RC_OK, h', s\<lparr> world := w \<rparr>) \<and> out w = out (world s) @ ip_data (pack s) tid (blocks d)"
proof (induction d arbitrary: curwrite h s rule: length_induct)
  case (1 d)
  show ?case
  proof (cases "d = []")
    case True
    with 1(5) show ?thesis by (subst ip_send_loop.simps) (intro exI [of _ h] exI [of _ "world s"], simp add: blocks.simps)
  next
    case False
    define n where "n = min (length d) WRITE_BLOCKSIZE"
    let ?type = "if length d > WRITE_BLOCKSIZE then PTPIP_DATA_PACKET else PTPIP_END_DATA_PACKET"
    let ?bs = "take n d"
    have n: "n \<le> 65536" "0 < n" "length ?bs = n" using False by (auto simp: n_def WRITE_BLOCKSIZE_def)
    obtain h1 where h1: "getfunc F h n s = Some (PTP_RC_OK, ?bs, h1, s)" "ready h1" "remaining h1 = drop n d"
      using get [OF 1(3) n(1), of s] 1(4) by auto
    let ?pk = "htod32ap (pack s) (of_nat (length ?bs + 12)) @ htod32ap (pack s) ?type @ htod32ap (pack s) tid @ ?bs"
    obtain w where w: "write_all F (cmdfd s) ?pk s = Some (True, s\<lparr> world := w \<rparr>)" "out w = out (world s) @ ?pk"
      using write_all_taken [OF 1(2)] by blast
    have pk: "?pk = ip_packet (pack s) ?type (htod32ap (pack s) tid @ ?bs)" by (simp add: ip_packet_def algebra_simps)
    have rest: "uint32 (sz - curwrite) = length d" "uint32 (curwrite + n) = curwrite + n" "\<not> curwrite \<ge> sz"
      using 1(5,6) False by (auto simp: uint32_def n_def)
    obtain ret where c: "ptp_ptpip_check_event N F s = Some (ret, s)" using check_event_none [OF N] by blast
    have st: "ip_send_loop N F tid curwrite sz h s = ip_send_loop N F tid (curwrite + n) sz h1 (s\<lparr> world := w \<rparr>)"
      using rest c h1(1) w(1) by (subst ip_send_loop.simps) (simp add: Let_def n_def [symmetric] del: of_nat_add)
    have sm: "length (drop n d) < length d" "sz = curwrite + n + length (drop n d)" using n False 1(5) by (auto simp: n_def)
    obtain h2 w2 where h2: "ip_send_loop N F tid (curwrite + n) sz h1 (s\<lparr> world := w \<rparr>) = Some (PTP_RC_OK, h2, s\<lparr> world := w \<rparr>\<lparr> world := w2 \<rparr>)"
      "out w2 = out w @ ip_data (pack s) tid (blocks (drop n d))"
      using 1(1) [rule_format, OF sm(1), of "s\<lparr> world := w \<rparr>" h1 "curwrite + n"] 1(2) h1(2,3) sm(2) 1(6) by auto
    have "blocks d = (\<not> length d > WRITE_BLOCKSIZE, ?bs) # blocks (drop n d)"
      using False by (subst blocks.simps) (auto simp: n_def min_def blocks.simps [of "[]"])
    with h2 w pk show ?thesis unfolding st by (intro exI [of _ h2] exI [of _ w2]) simp
  qed
qed

text \<open>The start packet has to be taken in one piece; when it is not, \<open>ptp_ptpip_senddata\<close> gives up.\<close>

lemma ip_senddata_delivers:
  fixes ptp :: PTPContainer
  assumes N: "no_events N" and F: "taken F (cmdfd s) out" and h: "ready h" "remaining h = d" and d: "length d < 2 ^ 32"
    and al: "can_alloc (pack s) (WRITE_BLOCKSIZE + 12)"
  defines "start \<equiv> ip_start (pack s) (Transaction_ID ptp) (length d)"
  shows "\<exists>ret h' w. ptp_ptpip_senddata N F s ptp (length d) h = Some (ret, h', s\<lparr> world := w \<rparr>) \<and>
    (if fst (sys_write F (cmdfd s) start (world s)) = Inr (length start) then ret = PTP_RC_OK \<and> out w = out (world s) @ start @ ip_data (pack s) (Transaction_ID ptp) (blocks d)
     else ret = PTP_RC_GeneralError \<and> (\<exists>k<length start. out w = out (world s) @ take k start))"
proof -
  have l: "length start = 20" "start \<noteq> []" by (auto simp: start_def ip_start_def ip_packet_def dest: arg_cong [of _ _ length])
  have st: "start = htod32ap (pack s) 0x14 @ htod32ap (pack s) PTPIP_START_DATA_PACKET @ htod32ap (pack s) (Transaction_ID ptp) @
      htod32ap (pack s) (of_nat (length d)) @ htod32ap (pack s) 0" by (simp add: start_def ip_start_def ip_packet_def)
  obtain n w where w: "sys_write F (cmdfd s) start (world s) = (Inr n, w)" "0 < n" "n \<le> length start" "out w = out (world s) @ take n start"
    using F l(2) unfolding taken_def by blast
  then have sw: "sock_write F (cmdfd s) start s = (Inr n, s\<lparr> world := w \<rparr>)" by (simp add: sock_write_def on_world_def)
  show ?thesis
  proof (cases "n = 20")
    case True
    obtain h' w' where "ip_send_loop N F (Transaction_ID ptp) 0 (length d) h (s\<lparr> world := w \<rparr>) = Some (PTP_RC_OK, h', s\<lparr> world := w \<rparr>\<lparr> world := w' \<rparr>)"
      "out w' = out w @ ip_data (pack s) (Transaction_ID ptp) (blocks d)"
      using ip_send_loop_delivers [OF N, of "s\<lparr> world := w \<rparr>" out h d "length d" 0 "Transaction_ID ptp"] F h d by auto
    then show ?thesis using w sw al l True st
      by (intro exI [of _ PTP_RC_OK] exI [of _ h'] exI [of _ w']) (simp add: ptp_ptpip_senddata_def add.commute)
  next
    case False
    then have "ptp_ptpip_senddata N F s ptp (length d) h = Some (PTP_RC_GeneralError, h, s\<lparr> world := w \<rparr>)"
      using sw st by (simp add: ptp_ptpip_senddata_def)
    moreover have "n < length start" "fst (sys_write F (cmdfd s) start (world s)) \<noteq> Inr (length start)" using w l False by simp_all
    ultimately show ?thesis using w(4) by (intro exI [of _ PTP_RC_GeneralError] exI [of _ h] exI [of _ w]) auto
  qed
qed

end

section \<open>Requests, responses and events\<close>

definition ip_request :: "PTPParams \<Rightarrow> PTPContainer \<Rightarrow> octet list" where
  "ip_request P r = ip_packet P PTPIP_CMD_REQUEST (htod32ap P 1 @ htod16ap P (Code r) @ htod32ap P (Transaction_ID r) @
     concat (map (htod32ap P) (take (unat (Nparam r)) [Param1 r, Param2 r, Param3 r, Param4 r, Param5 r])))"

definition ip_coded :: "PTPParams \<Rightarrow> 16 word \<Rightarrow> 32 word \<Rightarrow> 32 word list \<Rightarrow> octet list" where
  "ip_coded P rc tid ps = htod16ap P rc @ htod32ap P tid @ concat (map (htod32ap P) ps)"

text \<open>The fields that a response or event with the parameters \<open>ps\<close> sets: none when there are more than \<open>k\<close>, and never the number of parameters.\<close>

definition coded :: "nat \<Rightarrow> 16 word \<Rightarrow> 32 word \<Rightarrow> 32 word list \<Rightarrow> PTPContainer \<Rightarrow> PTPContainer" where
  "coded k rc tid ps c =
    (let n = length ps; c = c\<lparr> Code := rc, Transaction_ID := tid \<rparr> in
     if n > k then c
     else c\<lparr> Param1 := if n \<ge> 1 then ps ! 0 else Param1 c, Param2 := if n \<ge> 2 then ps ! 1 else Param2 c, Param3 := if n \<ge> 3 then ps ! 2 else Param3 c,
       Param4 := if n \<ge> 4 then ps ! 3 else Param4 c, Param5 := if n \<ge> 5 then ps ! 4 else Param5 c \<rparr>)"

lemma words_length: "length (concat (map (htod32ap P) ps)) = 4 * length ps"
  by (induction ps) simp_all

lemma htod16_length [simp]: "length (htod16ap P x) = 2"
  by (simp add: htod16ap_def)

lemma ip_coded_length [simp]: "length (ip_coded P rc tid ps) = 6 + 4 * length ps"
  by (simp add: ip_coded_def words_length)

lemma param_count_packet:
  assumes "dtoh32ap P hdr 0 = Some (of_nat (8 + length (ip_coded P rc tid ps)))" and "14 + 4 * length ps < 2 ^ 31"
  shows "param_count P hdr = Some (length ps)"
proof -
  have "unat (of_nat (14 + 4 * length ps) :: 32 word) = 14 + 4 * length ps"
    using assms(2) by (simp add: unat_of_nat take_bit_nat_eq_self del: of_nat_add)
  moreover have "ulong (14 + 4 * length ps + 2 ^ 64 - 8 - 6) = 4 * length ps"
    using ulong_minus [of "14 + 4 * length ps" 14] assms(2) by simp
  ultimately show ?thesis using assms(1) by (simp add: param_count_def del: of_nat_add)
qed

lemma coded_head:
  "dtoh16ap P (ip_coded P rc tid ps) 0 = Some rc" "dtoh32ap P (ip_coded P rc tid ps) 2 = Some tid"
  using lies_whole [of "ip_coded P rc tid ps"] unfolding ip_coded_def by (simp_all add: dtoh_lies numeral_2_eq_2)

lemma coded_word: "i < length ps \<Longrightarrow> dtoh32ap P (ip_coded P rc tid ps) (6 + 4 * i) = Some (ps ! i)"
proof -
  assume i: "i < length ps"
  have eq: "ip_coded P rc tid ps = (htod16ap P rc @ htod32ap P tid @ concat (map (htod32ap P) (take i ps))) @ htod32ap P (ps ! i) @
      concat (map (htod32ap P) (drop (Suc i) ps))"
    using id_take_nth_drop [OF i] unfolding ip_coded_def by (metis append.assoc concat.simps(2) concat_append list.simps(9) map_append)
  have "length (htod16ap P rc @ htod32ap P tid @ concat (map (htod32ap P) (take i ps))) = 6 + 4 * i"
    using i by (simp add: words_length)
  from dtoh_htod(3) [OF this] show ?thesis unfolding eq append.assoc .
qed

lemma coded_words:
  "Suc 0 \<le> length ps \<Longrightarrow> dtoh32ap P (ip_coded P rc tid ps) 6 = Some (ps ! 0)" "2 \<le> length ps \<Longrightarrow> dtoh32ap P (ip_coded P rc tid ps) 10 = Some (ps ! 1)"
  "3 \<le> length ps \<Longrightarrow> dtoh32ap P (ip_coded P rc tid ps) 14 = Some (ps ! 2)" "4 \<le> length ps \<Longrightarrow> dtoh32ap P (ip_coded P rc tid ps) 18 = Some (ps ! 3)"
  "5 \<le> length ps \<Longrightarrow> dtoh32ap P (ip_coded P rc tid ps) 22 = Some (ps ! 4)"
  using coded_word [of 0 ps P rc tid] coded_word [of 1 ps P rc tid] coded_word [of 2 ps P rc tid] coded_word [of 3 ps P rc tid] coded_word [of 4 ps P rc tid]
  by (simp_all add: Suc_le_eq numeral_eq_Suc)

text \<open>The parameters of a response.\<close>

lemma five_params:
  assumes "n = length ps" and "n \<le> 5" and D: "D = ip_coded P rc tid ps"
  shows "do {
      r \<leftarrow> param_if P D (n = 5) 22 Param5_update (r\<lparr> Code := rc, Transaction_ID := tid \<rparr>);
      r \<leftarrow> param_if P D (n = 4 \<or> n = 5) 18 Param4_update r;
      r \<leftarrow> param_if P D (n = 3 \<or> n = 4 \<or> n = 5) 14 Param3_update r;
      r \<leftarrow> param_if P D (n = 2 \<or> n = 3 \<or> n = 4 \<or> n = 5) 10 Param2_update r;
      r \<leftarrow> param_if P D (n = Suc 0 \<or> n = 2 \<or> n = 3 \<or> n = 4 \<or> n = 5) 6 Param1_update r;
      Some (f r) } = Some (f (coded 5 rc tid ps r))"
proof -
  from assms(2) consider "n = 0" | "n = 1" | "n = 2" | "n = 3" | "n = 4" | "n = 5" by linarith
  then show ?thesis unfolding D using assms(1) by cases (cases r, simp add: coded_words param_if_def coded_def Let_def)+
qed

lemma ip_sendreq:
  assumes N: "no_events N" and n: "unat (Nparam r) \<le> 5" and al: "\<forall>k. can_alloc (pack s) k"
  shows "ptp_ptpip_sendreq N F s r = Some (PTP_RC_OK, s\<lparr> world := snd (sys_write F (cmdfd s) (ip_request (pack s) r) (world s)) \<rparr>)"
proof -
  obtain ret where c: "ptp_ptpip_check_event N F s = Some (ret, s)" using check_event_none [OF N] by blast
  have "take (4 * unat (Nparam r)) (htod32ap (pack s) (Param1 r) @ htod32ap (pack s) (Param2 r) @ htod32ap (pack s) (Param3 r) @ htod32ap (pack s) (Param4 r) @
      htod32ap (pack s) (Param5 r)) = concat (map (htod32ap (pack s)) (take (unat (Nparam r)) [Param1 r, Param2 r, Param3 r, Param4 r, Param5 r]))"
  proof -
    from n consider "unat (Nparam r) = 0" | "unat (Nparam r) = 1" | "unat (Nparam r) = 2" | "unat (Nparam r) = 3" | "unat (Nparam r) = 4" | "unat (Nparam r) = 5"
      by linarith
    then show ?thesis by cases (simp_all add: numeral_eq_Suc)
  qed
  moreover have "length (concat (map (htod32ap (pack s)) (take (unat (Nparam r)) [Param1 r, Param2 r, Param3 r, Param4 r, Param5 r]))) = 4 * unat (Nparam r)"
    using n by (simp add: words_length)
  ultimately have req: "htod32ap (pack s) (of_nat (18 + 4 * unat (Nparam r))) @ htod32ap (pack s) PTPIP_CMD_REQUEST @ htod32ap (pack s) 1 @ htod16ap (pack s) (Code r) @
      htod32ap (pack s) (Transaction_ID r) @ take (4 * unat (Nparam r)) (htod32ap (pack s) (Param1 r) @ htod32ap (pack s) (Param2 r) @
        htod32ap (pack s) (Param3 r) @ htod32ap (pack s) (Param4 r) @ htod32ap (pack s) (Param5 r)) = ip_request (pack s) r"
    by (simp only: ip_request_def ip_packet_def append.assoc length_append htod32_length htod16_length) simp
  show ?thesis using c n al unfolding ptp_ptpip_sendreq_def Let_def
    by (simp add: sock_write_def on_world_def split_beta req del: of_nat_add take_append)
qed

lemma ip_getresp:
  assumes N: "no_events N" and F: "served F (cmdfd s) inp" and al: "\<forall>k. can_alloc (pack s) k" and n: "length ps \<le> 5"
    and i: "inp (world s) = ip_packet (pack s) type (ip_coded (pack s) rc tid ps) @ rest"
  shows "\<exists>w. ptp_ptpip_getresp N F s r = Some (PTP_RC_OK, coded 5 rc tid ps r, s\<lparr> world := w \<rparr>) \<and> inp w = rest"
proof -
  have l: "8 + length (ip_coded (pack s) rc tid ps) < 2 ^ 31" using n by simp
  obtain hdr w where r: "ptp_ptpip_cmd_read N F s = Some (PTP_RC_OK, hdr, ip_coded (pack s) rc tid ps, s\<lparr> world := w \<rparr>)" "inp w = rest"
    "dtoh32ap (pack s) hdr 0 = Some (of_nat (8 + length (ip_coded (pack s) rc tid ps)))"
    using cmd_read_packet [OF N F i l] al by blast
  have "param_count (pack s) hdr = Some (length ps)" using param_count_packet [OF r(3)] n by simp
  with r(1,2) n show ?thesis
    unfolding ptp_ptpip_getresp_def by (intro exI [of _ w]) (simp add: coded_head five_params [OF refl n refl])
qed

lemma coded_simps [simp]: "Code (coded k rc tid ps c) = rc" "Transaction_ID (coded k rc tid ps c) = tid" "Nparam (coded k rc tid ps c) = Nparam c"
  "Param1 (coded k rc tid ps c) = (if length ps \<le> k \<and> ps \<noteq> [] then hd ps else Param1 c)"
  by (auto simp: coded_def Let_def hd_conv_nth Suc_le_eq)

section \<open>Operations over the network\<close>

lemma ip_transport_simps [simp]:
  "sendreq_func (ip_transport N F) = ptp_ptpip_sendreq N F" "getdata_func (ip_transport N F) = ptp_ptpip_getdata N F"
  "getresp_func (ip_transport N F) = ptp_ptpip_getresp N F" "senddata_func (ip_transport N F) = ptp_ptpip_senddata N F"
  by (simp_all add: ip_transport_def)

lemma counted_sockets [simp]: "cmdfd (counted s) = cmdfd s" "evtfd (counted s) = evtfd s"
  by (simp_all add: counted_def)

text \<open>A device that takes the request and then serves \<open>answer\<close>.\<close>

definition ip_device :: "'w net \<Rightarrow> 'w files \<Rightarrow> ('w \<Rightarrow> octet list) \<Rightarrow> 'w ptp \<Rightarrow> PTPContainer \<Rightarrow> octet list \<Rightarrow> bool" where
  "ip_device N F inp s req answer \<longleftrightarrow> no_events N \<and> served F (cmdfd s) inp \<and> (\<forall>k. can_alloc (pack s) k) \<and>
     inp (snd (sys_write F (cmdfd s) (ip_request (pack s) req) (world s))) = answer"

definition ip_response :: "PTPParams \<Rightarrow> 16 word \<Rightarrow> 32 word \<Rightarrow> 32 word list \<Rightarrow> octet list" where
  "ip_response P rc tid ps = ip_packet P PTPIP_CMD_RESPONSE (ip_coded P rc tid ps)"

lemma ip_request_sent:
  assumes "ip_device N F inp s (as_sent s (request code ps)) answer" and "length ps \<le> 5"
  shows "\<exists>w. ptp_ptpip_sendreq N F (counted s) (as_sent s (request code ps)) = Some (PTP_RC_OK, (counted s)\<lparr> world := w \<rparr>) \<and> inp w = answer"
proof -
  have "unat (Nparam (as_sent s (request code ps))) \<le> 5" using assms(2) by (simp add: unat_of_nat)
  then show ?thesis using assms(1) ip_sendreq [of N "as_sent s (request code ps)" "counted s" F]
    by (intro exI [of _ "snd (sys_write F (cmdfd s) (ip_request (pack s) (as_sent s (request code ps))) (world s))"]) (simp add: ip_device_def)
qed

lemma no_data_ip:
  assumes dev: "ip_device N F inp s (as_sent s (request code ps)) (ip_response (pack s) PTP_RC_OK (transaction_id s) rs @ rest)"
    and n: "length ps \<le> 5" "length rs \<le> 5"
  shows "\<exists>w. no_data (ip_transport N F) s code ps =
    Some (PTP_RC_OK, coded 5 PTP_RC_OK (transaction_id s) rs (as_sent s (request code ps)), (counted s)\<lparr> world := w \<rparr>) \<and> inp w = rest"
proof -
  let ?T = "ip_transport N F" and ?a = "as_sent s (request code ps)"
  obtain w0 where w0: "ptp_ptpip_sendreq N F (counted s) ?a = Some (PTP_RC_OK, (counted s)\<lparr> world := w0 \<rparr>)"
    "inp w0 = ip_response (pack s) PTP_RC_OK (transaction_id s) rs @ rest" using ip_request_sent [OF dev n(1)] by blast
  let ?s = "(counted s)\<lparr> world := w0 \<rparr>"
  obtain w where w: "ptp_ptpip_getresp N F ?s ?a = Some (PTP_RC_OK, coded 5 PTP_RC_OK (transaction_id s) rs ?a, ?s\<lparr> world := w \<rparr>)" "inp w = rest"
    using ip_getresp [of N F ?s inp rs PTPIP_CMD_RESPONSE PTP_RC_OK "transaction_id s" rest ?a] dev n(2) w0(2)
    by (auto simp: ip_device_def ip_response_def)
  have "resp_loop ?T code 3 ?s ?a = Some (PTP_RC_OK, coded 5 PTP_RC_OK (transaction_id s) rs ?a, ?s\<lparr> world := w \<rparr>)"
    using resp_loop_step [of ?T ?s ?a "coded 5 PTP_RC_OK (transaction_id s) rs ?a" "?s\<lparr> world := w \<rparr>" 3 code] w(1) by simp
  then have "ptp_transaction_new ?T s (request code ps) PTP_DP_NODATA 0 (Fd (- 1)) =
      Some (PTP_RC_OK, coded 5 PTP_RC_OK (transaction_id s) rs ?a, Fd (- 1), ?s\<lparr> world := w \<rparr>)"
    using w0(1) unfolding ptp_transaction_new_def Let_def counted_def [symmetric] as_sent_def [symmetric] by (simp add: dp_defs)
  then show ?thesis using w(2) unfolding no_data_def ptp_transaction_def Let_def
    by (intro exI [of _ w]) (simp add: dp_defs)
qed

lemma get_data_ip:
  assumes dev: "ip_device N F inp s (as_sent s (request code ps)) (ip_start (pack s) tid (length (payload cs)) @ ip_data (pack s) tid cs @
      ip_response (pack s) PTP_RC_OK (transaction_id s) rs @ rest)"
    and cs: "\<forall>c\<in>set cs. 12 + length (snd c) < 2 ^ 31" "ends_with_data cs" "length (payload cs) < 2 ^ 32"
    and n: "length ps \<le> 5" "length rs \<le> 5"
  shows "\<exists>r w. get_data (ip_transport N F) s code ps = Some (PTP_RC_OK, r, if payload cs = [] then None else Some (payload cs), of_nat (length (payload cs)),
      (counted s)\<lparr> world := w \<rparr>) \<and> inp w = rest"
proof -
  let ?T = "ip_transport N F" and ?a = "as_sent s (request code ps)" and ?p = "payload cs"
  let ?resp = "ip_response (pack s) PTP_RC_OK (transaction_id s) rs @ rest"
  have d: "no_events N" "served F (cmdfd s) inp" "\<forall>k. can_alloc (pack s) k" using dev by (simp_all add: ip_device_def)
  obtain w0 where w0: "ptp_ptpip_sendreq N F (counted s) ?a = Some (PTP_RC_OK, (counted s)\<lparr> world := w0 \<rparr>)"
    "inp w0 = ip_start (pack s) tid (length ?p) @ ip_data (pack s) tid cs @ ?resp" using ip_request_sent [OF dev n(1)] by blast
  let ?s = "(counted s)\<lparr> world := w0 \<rparr>"
  have "mem_room (pack ?s) (length ?p + 0) empty_mem" using d(3) cs(3) by simp
  from mem_sink.ip_getdata_delivers [OF d(1), of F ?s inp cs tid ?resp 0 empty_mem ?a] this d cs w0(2) obtain h w1 where
    g: "ptp_ptpip_getdata N F ?s ?a empty_mem = Some (PTP_RC_OK, h, ?s\<lparr> world := w1 \<rparr>)" "mem_room (pack s) 0 h" "mem_got h = ?p" "inp w1 = ?resp"
    by auto
  let ?s1 = "?s\<lparr> world := w1 \<rparr>"
  obtain w where w: "ptp_ptpip_getresp N F ?s1 ?a = Some (PTP_RC_OK, coded 5 PTP_RC_OK (transaction_id s) rs ?a, ?s1\<lparr> world := w \<rparr>)" "inp w = rest"
    using ip_getresp [of N F ?s1 inp rs PTPIP_CMD_RESPONSE PTP_RC_OK "transaction_id s" rest ?a] d n(2) g(4)
    by (auto simp: ip_response_def)
  have "resp_loop ?T code 3 ?s1 ?a = Some (PTP_RC_OK, coded 5 PTP_RC_OK (transaction_id s) rs ?a, ?s1\<lparr> world := w \<rparr>)"
    using resp_loop_step [of ?T ?s1 ?a "coded 5 PTP_RC_OK (transaction_id s) rs ?a" "?s1\<lparr> world := w \<rparr>" 3 code] w(1) by simp
  then have tn: "ptp_transaction_new ?T s (request code ps) PTP_DP_GETDATA 0 empty_mem =
      Some (PTP_RC_OK, coded 5 PTP_RC_OK (transaction_id s) rs ?a, h, ?s1\<lparr> world := w \<rparr>)"
    using w0(1) g(1) unfolding ptp_transaction_new_def Let_def counted_def [symmetric] as_sent_def [symmetric] by (simp add: dp_defs after_data_def)
  have "ptp_init_recv_memory_handler (pack s) = Some empty_mem" using d(3) by (simp add: ptp_init_recv_memory_handler_def)
  moreover obtain x where x: "ptp_exit_recv_memory_handler h = Some (x, length ?p)" "(case x of None \<Rightarrow> [] | Some x \<Rightarrow> x) = ?p"
    using mem_exit [OF g(2)] g(3) by auto
  moreover have "x = (if ?p = [] then None else Some ?p)"
    using g(2) x by (cases h; cases x) (auto split: if_splits)
  ultimately show ?thesis using tn w(2) unfolding get_data_def ptp_transaction_def Let_def
    by (intro exI [of _ "coded 5 PTP_RC_OK (transaction_id s) rs ?a"] exI [of _ w]) (simp add: dp_defs)
qed

section \<open>What the transport delivers\<close>

text \<open>C33: Data round trip over the network: on a socket that takes any part of each write, \<open>ptp_ptpip_senddata\<close> of data in memory of less than 4 GB, while no event waits, sends all of it when the first write, of the start packet of
  20 bytes, is taken completely, and \<open>ptp_ptpip_getdata\<close> at the other end, on a socket that gives any part of a read, turns it back into the same data and leaves what follows on the socket. When the start packet is taken
  in part only, \<open>ptp_ptpip_senddata\<close> reports an error and has sent that part and nothing else.\<close>
theorem ip_data_roundtrip:
  fixes s :: "'w ptp" and G :: "'v files"
  assumes "no_events N" and "taken F (cmdfd s) out" and "no_events M" and "\<forall>k. can_alloc (pack s) k" and "length d < 2 ^ 32"
  shows "\<exists>ret wire h w. 20 \<le> length wire \<and> ptp_ptpip_senddata N F s ptp (length d) (Mem \<lparr> mem_data = Some d, mem_size = length d, curoff = 0 \<rparr>) = Some (ret, h, s\<lparr> world := w \<rparr>) \<and>
    (if fst (sys_write F (cmdfd s) (take 20 wire) (world s)) = Inr 20 then ret = PTP_RC_OK \<and> out w = out (world s) @ wire
     else ret = PTP_RC_GeneralError \<and> (\<exists>k<20. out w = out (world s) @ take k wire)) \<and>
    (\<forall>t inp rest. pack t = pack s \<and> served G (cmdfd t) inp \<and> inp (world t) = wire @ rest \<longrightarrow>
      (\<exists>h' w'. ptp_ptpip_getdata M G t ptp (Mem \<lparr> mem_data = None, mem_size = 0, curoff = 0 \<rparr>) = Some (PTP_RC_OK, h', t\<lparr> world := w' \<rparr>) \<and>
        mem_got h' = d \<and> inp w' = rest))"
proof -
  define wire where "wire = ip_start (pack s) (Transaction_ID ptp) (length d) @ ip_data (pack s) (Transaction_ID ptp) (blocks d)"
  have m: "mem_ready (sending d)" "mem_remaining (sending d) = d" using assms(5) sending_ready [of d] by simp_all
  let ?start = "ip_start (pack s) (Transaction_ID ptp) (length d)"
  have l: "length ?start = 20" "take 20 wire = ?start" "20 \<le> length wire" by (simp_all add: wire_def ip_start_def ip_packet_def)
  have tk: "take k wire = take k ?start" if "k < length ?start" for k using that by (simp add: wire_def)
  obtain ret h w where s: "ptp_ptpip_senddata N F s ptp (length d) (sending d) = Some (ret, h, s\<lparr> world := w \<rparr>)"
    and r: "if fst (sys_write F (cmdfd s) ?start (world s)) = Inr (length ?start) then ret = PTP_RC_OK \<and> out w = out (world s) @ wire
      else ret = PTP_RC_GeneralError \<and> (\<exists>k<length ?start. out w = out (world s) @ take k ?start)"
    using mem_source.ip_senddata_delivers [OF assms(1,2) m assms(5), of ptp] assms(4) unfolding wire_def by blast
  have r': "if fst (sys_write F (cmdfd s) (take 20 wire) (world s)) = Inr 20 then ret = PTP_RC_OK \<and> out w = out (world s) @ wire
     else ret = PTP_RC_GeneralError \<and> (\<exists>k<20. out w = out (world s) @ take k wire)" using r tk unfolding l(1,2) by (auto split: if_splits)
  have "\<exists>h' w'. ptp_ptpip_getdata M G t ptp empty_mem = Some (PTP_RC_OK, h', t\<lparr> world := w' \<rparr>) \<and> mem_got h' = d \<and> inp w' = rest"
    if t: "pack t = pack s" "served G (cmdfd t) inp" "inp (world t) = wire @ rest" for t inp rest
  proof -
    have "\<forall>c\<in>set (blocks d). 12 + length (snd c) < 2 ^ 31"
    proof
      fix c assume "c \<in> set (blocks d)"
      then have "length (snd c) \<le> 65536" using blocks_small [of c d] by (simp add: WRITE_BLOCKSIZE_def)
      then show "12 + length (snd c) < 2 ^ 31" by simp
    qed
    moreover have "mem_room (pack t) (length (payload (blocks d)) + 0) empty_mem" using assms(4,5) t(1) by (simp add: blocks_payload)
    ultimately show ?thesis
      using mem_sink.ip_getdata_delivers [OF assms(3) t(2), of "blocks d" "Transaction_ID ptp" rest 0 empty_mem ptp] assms(4,5) t blocks_end
      by (auto simp: wire_def blocks_payload)
  qed
  then show ?thesis using s r' l(3) by (intro exI [of _ ret] exI [of _ wire] exI [of _ h] exI [of _ w]) blast
qed

text \<open>C36: The protocol ends data of any length with an end packet. When there are no data, \<open>ptp_ptpip_getdata\<close> does not read that packet, and \<open>ptp_ptpip_getresp\<close> takes it
  for the response: it reads behind its four bytes.\<close>
theorem ip_empty_data_overread:
  assumes "no_events N" and "served F (cmdfd s) inp" and "\<forall>k. can_alloc (pack s) k"
    and "inp (world s) = ip_start (pack s) tid 0 @ ip_packet (pack s) PTPIP_END_DATA_PACKET (htod32ap (pack s) tid) @ rest"
  shows "\<exists>w. ptp_ptpip_getdata N F s ptp h = Some (PTP_RC_OK, h, s\<lparr> world := w \<rparr>) \<and> ptp_ptpip_getresp N F (s\<lparr> world := w \<rparr>) resp = None"
proof -
  let ?p = "htod32ap (pack s) tid @ htod32ap (pack s) 0 @ htod32ap (pack s) 0"
  obtain hdr w where r: "ptp_ptpip_cmd_read N F s = Some (PTP_RC_OK, hdr, ?p, s\<lparr> world := w \<rparr>)"
    "inp w = ip_packet (pack s) PTPIP_END_DATA_PACKET (htod32ap (pack s) tid) @ rest" "dtoh32ap (pack s) hdr 4 = Some PTPIP_START_DATA_PACKET"
    using cmd_read_packet [OF assms(1,2), of PTPIP_START_DATA_PACKET ?p] assms(3,4) by (auto simp: ip_start_def)
  have t: "dtoh32ap (pack s) ?p 4 = Some 0" using lies_whole [of ?p] by (simp add: dtoh_lies)
  have "ptp_ptpip_getdata N F s ptp h = Some (PTP_RC_OK, h, s\<lparr> world := w \<rparr>)"
    using r t by (simp add: ptp_ptpip_getdata_def ip_recv_loop.simps [of N F 0])
  moreover obtain hdr' w' where
    r': "ptp_ptpip_cmd_read N F (s\<lparr> world := w \<rparr>) = Some (PTP_RC_OK, hdr', htod32ap (pack s) tid, s\<lparr> world := w' \<rparr>)"
    using cmd_read_packet [OF assms(1), of F "s\<lparr> world := w \<rparr>" inp PTPIP_END_DATA_PACKET "htod32ap (pack s) tid" rest] assms(2,3) r(2) by auto
  have n: "dtoh32ap (pack s) (htod32ap (pack s) tid) 2 = None" by (simp add: dtoh_defined)
  have "ptp_ptpip_getresp N F (s\<lparr> world := w \<rparr>) resp = None"
    using r' n by (cases "dtoh16ap (pack s) (htod32ap (pack s) tid) 0") (simp_all add: ptp_ptpip_getresp_def)
  ultimately show ?thesis by blast
qed

text \<open>C34: \<open>ptp_getobject\<close> over the network hands over the bytes of the object exactly, in however many packets of any sizes the device sends them, provided the last of these is not empty, and leaves
  the sockets behind the response.\<close>
theorem getobject_over_ip:
  assumes "ip_device N F inp s (as_sent s (request PTP_OC_GetObject [h])) (ip_start (pack s) tid (length (payload cs)) @ ip_data (pack s) tid cs @
      ip_response (pack s) PTP_RC_OK (transaction_id s) rs @ rest)"
    and "\<forall>c\<in>set cs. 12 + length (snd c) < 2 ^ 31" and "ends_with_data cs" and "length (payload cs) < 2 ^ 32" and "length rs \<le> 5"
  shows "\<exists>w. ptp_getobject (ip_transport N F) s h object =
    Some (PTP_RC_OK, if payload cs = [] then None else Some (payload cs), (counted s)\<lparr> world := w \<rparr>) \<and> inp w = rest"
proof -
  have a: "can_alloc (pack s) 24" using assms(1) by (simp add: ip_device_def)
  obtain r w where "get_data (ip_transport N F) s PTP_OC_GetObject [h] = Some (PTP_RC_OK, r, if payload cs = [] then None else Some (payload cs),
      of_nat (length (payload cs)), (counted s)\<lparr> world := w \<rparr>)" "inp w = rest"
    using get_data_ip [OF assms(1-4) _ assms(5)] by auto
  then show ?thesis unfolding ptp_getobject_def out_data_def get_into_get_data [OF a]
    by (intro exI [of _ w]) simp
qed

text \<open>C35: The response of a device on the network never sets the number of parameters: \<open>ptp_getnumobjects\<close>, which looks at that number, takes a response without parameters for one with the
  number of objects, and returns the storage that it was asked for as that number.\<close>
theorem getnumobjects_over_ip:
  assumes "ip_device N F inp s (as_sent s (request PTP_OC_GetNumObjects [storage, fmt, assoc]))
      (ip_response (pack s) PTP_RC_OK (transaction_id s) rs @ rest)" and "length rs \<le> 5"
  shows "\<exists>w. ptp_getnumobjects (ip_transport N F) s storage fmt assoc numobs =
    Some (PTP_RC_OK, if rs = [] then storage else hd rs, (counted s)\<lparr> world := w \<rparr>) \<and> inp w = rest"
proof -
  have p: "Param1 (request PTP_OC_GetNumObjects [storage, fmt, assoc]) = storage" by (simp add: request_def Let_def zero_container_def)
  obtain w where "no_data (ip_transport N F) s PTP_OC_GetNumObjects [storage, fmt, assoc] = Some (PTP_RC_OK,
      coded 5 PTP_RC_OK (transaction_id s) rs (as_sent s (request PTP_OC_GetNumObjects [storage, fmt, assoc])), (counted s)\<lparr> world := w \<rparr>)" "inp w = rest"
    using no_data_ip [OF assms(1) _ assms(2)] by auto
  then show ?thesis using assms(2) unfolding ptp_getnumobjects_def by (intro exI [of _ w]) (simp add: p)
qed

section \<open>Events\<close>

definition waiting :: "'w net \<Rightarrow> int \<Rightarrow> ('w \<Rightarrow> octet list) \<Rightarrow> bool" where
  "waiting N fd inp \<longleftrightarrow> (\<forall>t w. net_select N fd t w = (if inp w = [] then 0 else 1, w))"

lemma three_params:
  assumes "n = length ps" and D: "D = ip_coded P rc tid ps"
  shows "do {
      r \<leftarrow> param_if P D (n = 3) 14 Param3_update (r\<lparr> Code := rc, Transaction_ID := tid \<rparr>);
      r \<leftarrow> param_if P D (n = 2 \<or> n = 3) 10 Param2_update r;
      r \<leftarrow> param_if P D (n = Suc 0 \<or> n = 2 \<or> n = 3) 6 Param1_update r;
      Some (f r) } = Some (f (coded 3 rc tid ps r))"
proof -
  consider "n = 0" | "n = 1" | "n = 2" | "n = 3" | "n > 3" by linarith
  then show ?thesis unfolding D using assms(1) by cases (cases r, simp add: coded_words param_if_def coded_def Let_def)+
qed

lemma next_event_skips:
  assumes N: "waiting N (evtfd s) evs" and F: "served F (evtfd s) evs" and al: "\<forall>k. can_alloc (pack s) k"
    and e: "8 + length p < 2 ^ 31"
  shows "evs (world s) = concat (map (\<lambda>(t, q). ip_packet (pack s) t q) foreign) @ ip_packet (pack s) PTPIP_EVENT p @ rest \<Longrightarrow>
    \<forall>(t, q)\<in>set foreign. t \<noteq> PTPIP_EVENT \<and> 8 + length q < 2 ^ 31 \<Longrightarrow>
    \<exists>hdr w. next_event N F wait s = Some (PTP_RC_OK, hdr, p, s\<lparr> world := w \<rparr>) \<and> evs w = rest \<and> dtoh32ap (pack s) hdr 0 = Some (of_nat (8 + length p))"
  using N F al
proof (induction foreign arbitrary: s)
  case Nil
  then obtain hdr w where r: "ptp_ptpip_generic_read F (evtfd s) s = Some (PTP_RC_OK, hdr, p, s\<lparr> world := w \<rparr>)" "evs w = rest"
    "dtoh32ap (pack s) hdr 0 = Some (of_nat (8 + length p))" "dtoh32ap (pack s) hdr 4 = Some PTPIP_EVENT"
    using generic_read_packet [OF Nil(4), of s PTPIP_EVENT p rest] e by auto
  have "evs (world s) \<noteq> []" using Nil(1) by (auto simp: ip_packet_def dest: arg_cong [of _ _ length])
  then have "net_select N (evtfd s) t (world s) = (1, world s)" for t using Nil(3) by (simp add: waiting_def)
  with r show ?case
    by (subst next_event.simps) (intro exI [of _ hdr] exI [of _ w], simp add: on_world_def ptp_ptpip_evt_read_def del: of_nat_add)
next
  case (Cons o1 os)
  obtain t q where o1: "o1 = (t, q)" by (cases o1)
  have i: "evs (world s) = ip_packet (pack s) t q @ concat (map (\<lambda>(t, q). ip_packet (pack s) t q) os) @ ip_packet (pack s) PTPIP_EVENT p @ rest"
    and q: "t \<noteq> PTPIP_EVENT" "8 + length q < 2 ^ 31" using Cons.prems(1,2) o1 by auto
  obtain hdr w where r: "ptp_ptpip_generic_read F (evtfd s) s = Some (PTP_RC_OK, hdr, q, s\<lparr> world := w \<rparr>)"
    "evs w = concat (map (\<lambda>(t, q). ip_packet (pack s) t q) os) @ ip_packet (pack s) PTPIP_EVENT p @ rest" "dtoh32ap (pack s) hdr 4 = Some t"
    using generic_read_packet [OF Cons.prems(4) i q(2)] Cons.prems(5) by auto
  have "evs (world s) \<noteq> []" using i by (auto simp: ip_packet_def dest: arg_cong [of _ _ length])
  then have "net_select N (evtfd s) t (world s) = (1, world s)" for t using Cons.prems(3) by (simp add: waiting_def)
  then have st: "next_event N F wait s = next_event N F wait (s\<lparr> world := w \<rparr>)"
    using r(1,3) q(1) by (subst next_event.simps) (simp add: on_world_def ptp_ptpip_evt_read_def)
  show ?case unfolding st using Cons.IH [of "s\<lparr> world := w \<rparr>"] Cons.prems r(2) by auto
qed

text \<open>C37: An event that waits on the event socket is queued, behind however many packets of other types, which are dropped; of its parameters up to three are stored, and none when there are more.
  Its number of parameters and its session are what the variable on the stack happened to hold.\<close>
theorem ip_event_queued:
  assumes "waiting N (evtfd s) evs" and "served F (evtfd s) evs" and al: "\<forall>k. can_alloc (pack s) k"
    and i: "evs (world s) = concat (map (\<lambda>(t, q). ip_packet (pack s) t q) foreign) @ ip_packet (pack s) PTPIP_EVENT (ip_coded (pack s) code tid ps) @ rest"
    and foreign: "\<forall>(t, q)\<in>set foreign. t \<noteq> PTPIP_EVENT \<and> 8 + length q < 2 ^ 31" and l: "14 + 4 * length ps < 2 ^ 31" and code: "code \<noteq> 0"
  shows "\<exists>w. ptp_ptpip_check_event N F s = Some (PTP_RC_OK, s\<lparr> events := events s @ [coded 3 code tid ps (stack_event N)], world := w \<rparr>) \<and> evs w = rest"
proof -
  let ?P = "pack s" and ?p = "ip_coded (pack s) code tid ps"
  have "8 + length ?p < 2 ^ 31" using l by simp
  then obtain hdr w where r: "next_event N F PTP_EVENT_CHECK_FAST s = Some (PTP_RC_OK, hdr, ?p, s\<lparr> world := w \<rparr>)" "evs w = rest"
    "dtoh32ap ?P hdr 0 = Some (of_nat (8 + length ?p))"
    using next_event_skips [OF assms(1-3) _ i foreign] by blast
  have n: "param_count ?P hdr = Some (length ps)" by (rule param_count_packet [OF r(3) l])
  have ev: "ptp_ptpip_event N F s (Some c) PTP_EVENT_CHECK_FAST = Some (PTP_RC_OK, Some (coded 3 code tid ps c), s\<lparr> world := w \<rparr>)" for c
    unfolding ptp_ptpip_event_def using r(1) n by (simp add: coded_head three_params [OF refl refl])
  have c0: "coded 3 code tid ps (c\<lparr> Code := 0 \<rparr>) = coded 3 code tid ps c" for c by (cases c) (simp add: coded_def)
  show ?thesis using ev [of "(stack_event N)\<lparr> Code := 0 \<rparr>"] code al r(2) unfolding c0
    by (intro exI [of _ w]) (simp add: ptp_ptpip_check_event_def ptp_add_event_def c0)
qed

section \<open>Two sockets\<close>

text \<open>
  The bytes that come in on the sockets for commands and for events, and those that went out. Reads give at most 5 bytes and writes take at most 1000.
\<close>

type_synonym wires = "octet list \<times> octet list \<times> octet list"

definition demo_sockets :: "wires files" where
  "demo_sockets = \<lparr> sys_read = \<lambda>fd n (c, e, out). if fd = 3 then (Inr (take (min 5 n) c), (drop (min 5 n) c, e, out)) else (Inr (take (min 5 n) e), (c, drop (min 5 n) e, out)),
     sys_write = \<lambda>fd bs (c, e, out). (Inr (min 1000 (length bs)), (c, e, out @ take 1000 bs)) \<rparr>"

definition quiet_net :: "wires net" where
  "quiet_net = \<lparr> net_select = \<lambda>fd t w. (0, w), net_hostname = \<lambda>w. (Some [104, 0], w), stack_event = zero_container \<rparr>"

definition event_net :: "wires net" where
  "event_net = quiet_net\<lparr> net_select := \<lambda>fd t w. (if fst (snd w) = [] then 0 else 1, w) \<rparr>"

definition at_ip :: "wires \<Rightarrow> wires ptp" where "at_ip w = demo w"

lemma at_ip_simps [simp]: "pack (at_ip w) = plain_params" "world (at_ip w) = w" "cmdfd (at_ip w) = 3" "evtfd (at_ip w) = 4" "events (at_ip w) = []"
  "transaction_id (at_ip w) = 7" "(at_ip w)\<lparr> world := v \<rparr> = at_ip v"
  by (simp_all add: at_ip_def demo_def)

lemma quiet_net_silent: "no_events quiet_net"
  by (simp add: no_events_def quiet_net_def)

lemma demo_served: "served demo_sockets 3 fst" "served demo_sockets 4 (fst \<circ> snd)"
  unfolding served_def demo_sockets_def by (auto simp: min_def)

lemma demo_taken: "taken demo_sockets fd (snd \<circ> snd)"
  unfolding taken_def demo_sockets_def by (auto simp: min_def)

lemma event_net_waiting: "waiting event_net 4 (fst \<circ> snd)"
  by (simp add: waiting_def event_net_def quiet_net_def)

theorem ip_data_roundtrip_witness:
  "\<exists>wire h w h' w'. ptp_ptpip_senddata quiet_net demo_sockets (at_ip ([], [], [])) zero_container 3 (Mem \<lparr> mem_data = Some [1, 2, 3], mem_size = 3, curoff = 0 \<rparr>) =
       Some (PTP_RC_OK, h, at_ip w) \<and> snd (snd w) = wire \<and>
     ptp_ptpip_getdata quiet_net demo_sockets (at_ip (wire @ [9], [], [])) zero_container (Mem \<lparr> mem_data = None, mem_size = 0, curoff = 0 \<rparr>) =
       Some (PTP_RC_OK, h', at_ip w') \<and> mem_got h' = [1, 2, 3] \<and> fst w' = [9]"
proof -
  have al: "\<forall>k. can_alloc (pack (at_ip ([], [], []))) k" "length [1, 2, 3 :: octet] < 2 ^ 32" by simp_all
  have tk: "taken demo_sockets (cmdfd (at_ip ([], [], []))) (snd \<circ> snd)" by (rule demo_taken)
  obtain ret wire h w where w: "ptp_ptpip_senddata quiet_net demo_sockets (at_ip ([], [], [])) zero_container (length [1, 2, 3 :: octet])
      (Mem \<lparr> mem_data = Some [1, 2, 3], mem_size = length [1, 2, 3 :: octet], curoff = 0 \<rparr>) = Some (ret, h, (at_ip ([], [], []))\<lparr> world := w \<rparr>)"
    and c: "if fst (sys_write demo_sockets (cmdfd (at_ip ([], [], []))) (take 20 wire) (world (at_ip ([], [], [])))) = Inr 20
      then ret = PTP_RC_OK \<and> (snd \<circ> snd) w = (snd \<circ> snd) (world (at_ip ([], [], []))) @ wire
      else ret = PTP_RC_GeneralError \<and> (\<exists>k<20. (snd \<circ> snd) w = (snd \<circ> snd) (world (at_ip ([], [], []))) @ take k wire)" "20 \<le> length wire"
    and g: "\<forall>(t :: wires ptp) inp rest. pack t = pack (at_ip ([], [], [])) \<and> served demo_sockets (cmdfd t) inp \<and> inp (world t) = wire @ rest \<longrightarrow>
      (\<exists>h' w'. ptp_ptpip_getdata quiet_net demo_sockets t zero_container (Mem \<lparr> mem_data = None, mem_size = 0, curoff = 0 \<rparr>) = Some (PTP_RC_OK, h', t\<lparr> world := w' \<rparr>) \<and>
        mem_got h' = [1, 2, 3] \<and> inp w' = rest)"
    using ip_data_roundtrip [OF quiet_net_silent tk quiet_net_silent al, of zero_container demo_sockets] by blast
  have "fst (sys_write demo_sockets (cmdfd (at_ip ([], [], []))) (take 20 wire) (world (at_ip ([], [], [])))) = Inr 20" using c(2) by (simp add: demo_sockets_def)
  with c(1) have r: "ret = PTP_RC_OK" "snd (snd w) = wire" by simp_all
  have n: "length [1, 2, 3 :: octet] = 3" by simp
  obtain h' w' where "ptp_ptpip_getdata quiet_net demo_sockets (at_ip (wire @ [9], [], [])) zero_container (Mem \<lparr> mem_data = None, mem_size = 0, curoff = 0 \<rparr>) =
      Some (PTP_RC_OK, h', at_ip w')" "mem_got h' = [1, 2, 3]" "fst w' = [9]"
    using g [rule_format, of "at_ip (wire @ [9], [], [])" fst "[9]"] demo_served(1) by auto
  with w r show ?thesis unfolding n at_ip_simps by blast
qed

theorem ip_empty_data_overread_witness:
  "\<exists>w. ptp_ptpip_getdata quiet_net demo_sockets (at_ip (ip_start plain_params 7 0 @ ip_packet plain_params PTPIP_END_DATA_PACKET (htod32ap plain_params 7), [], []))
       zero_container (Fd 1) = Some (PTP_RC_OK, Fd 1, at_ip w) \<and> ptp_ptpip_getresp quiet_net demo_sockets (at_ip w) zero_container = None"
proof -
  let ?s = "at_ip (ip_start plain_params 7 0 @ ip_packet plain_params PTPIP_END_DATA_PACKET (htod32ap plain_params 7), [], [])"
  have "served demo_sockets (cmdfd ?s) fst" using demo_served(1) by simp
  from ip_empty_data_overread [OF quiet_net_silent this, of 7 "[]" zero_container "Fd 1" zero_container] show ?thesis by auto
qed

definition two_packets :: "(bool \<times> octet list) list" where "two_packets = [(False, [1, 2]), (True, [3])]"

definition object_answer :: "octet list" where
  "object_answer = ip_start plain_params 7 3 @ ip_data plain_params 7 two_packets @ ip_response plain_params PTP_RC_OK 7 []"

lemma demo_ip_device: "ip_device quiet_net demo_sockets fst (at_ip (answer, [], [])) req answer"
  using quiet_net_silent demo_served(1) by (simp add: ip_device_def demo_sockets_def)

theorem getobject_over_ip_witness:
  "\<exists>w. ptp_getobject (ip_transport quiet_net demo_sockets) (at_ip (object_answer, [], [])) 5 None = Some (PTP_RC_OK, Some [1, 2, 3], (counted (at_ip (object_answer, [], [])))\<lparr> world := w \<rparr>) \<and>
     fst w = []"
proof -
  have e: "ends_with_data two_packets" "payload two_packets = [1, 2, 3]" "\<forall>c\<in>set two_packets. 12 + length (snd c) < 2 ^ 31"
    by (simp_all add: ends_with_data_def two_packets_def)
  have a: "object_answer = ip_start (pack (at_ip (object_answer, [], []))) 7 (length (payload two_packets)) @ ip_data (pack (at_ip (object_answer, [], []))) 7 two_packets @
      ip_response (pack (at_ip (object_answer, [], []))) PTP_RC_OK (transaction_id (at_ip (object_answer, [], []))) [] @ []"
    by (simp add: object_answer_def e(2) numeral_3_eq_3)
  have "ip_device quiet_net demo_sockets fst (at_ip (object_answer, [], [])) (as_sent (at_ip (object_answer, [], [])) (request PTP_OC_GetObject [5]))
      (ip_start (pack (at_ip (object_answer, [], []))) 7 (length (payload two_packets)) @ ip_data (pack (at_ip (object_answer, [], []))) 7 two_packets @
      ip_response (pack (at_ip (object_answer, [], []))) PTP_RC_OK (transaction_id (at_ip (object_answer, [], []))) [] @ [])"
    unfolding a [symmetric] by (rule demo_ip_device)
  from getobject_over_ip [OF this e(3,1)] e(2) show ?thesis by simp
qed

theorem getnumobjects_over_ip_witness:
  "\<exists>s. ptp_getnumobjects (ip_transport quiet_net demo_sockets) (at_ip (ip_response plain_params PTP_RC_OK 7 [], [], [])) 0xffffffff 0 0 0 = Some (PTP_RC_OK, 0xffffffff, s)"
proof -
  let ?a = "ip_response plain_params PTP_RC_OK 7 []"
  have "ip_device quiet_net demo_sockets fst (at_ip (?a, [], [])) (as_sent (at_ip (?a, [], [])) (request PTP_OC_GetNumObjects [0xffffffff, 0, 0]))
      (ip_response (pack (at_ip (?a, [], []))) PTP_RC_OK (transaction_id (at_ip (?a, [], []))) [] @ [])"
    using demo_ip_device [of ?a] by simp
  from getnumobjects_over_ip [OF this, of 0] show ?thesis by auto
qed

theorem ip_event_queued_witness:
  "\<exists>s e. ptp_ptpip_check_event event_net demo_sockets (at_ip ([], ip_packet plain_params 13 [] @ ip_packet plain_params PTPIP_EVENT (ip_coded plain_params 0x4002 1 [5]), [])) =
     Some (PTP_RC_OK, s) \<and> events s = [e] \<and> Code e = 0x4002 \<and> Param1 e = 5 \<and> Nparam e = 0"
proof -
  let ?s = "at_ip ([], ip_packet plain_params 13 [] @ ip_packet plain_params PTPIP_EVENT (ip_coded plain_params 0x4002 1 [5]), [])"
  have w: "waiting event_net (evtfd ?s) (fst \<circ> snd)" "served demo_sockets (evtfd ?s) (fst \<circ> snd)" "\<forall>k. can_alloc (pack ?s) k"
    using event_net_waiting demo_served(2) by simp_all
  have i: "(fst \<circ> snd) (world ?s) = concat (map (\<lambda>(t, q). ip_packet (pack ?s) t q) [(13, [])]) @
      ip_packet (pack ?s) PTPIP_EVENT (ip_coded (pack ?s) 0x4002 1 [5]) @ []" by simp
  have "stack_event event_net = zero_container" by (simp add: event_net_def quiet_net_def)
  with ip_event_queued [OF w i] show ?thesis by (auto simp: PTPIP_EVENT_def zero_container_def)
qed

end
